(* ===== verification/Prelude.thy ===== *)
theory Prelude
  imports Main "HOL-Library.Word" "HOL-Library.Monad_Syntax"
begin

text \<open>
  Shared vocabulary of the development: machine integers, host memory as the C++ models see it
  through raw pointers, and the little-endian view of integers that \<^verbatim>\<open>memcpy\<close> on \<^verbatim>\<open>&value\<close> gives.

  An operation whose C++ text runs into undefined behaviour (an out-of-bounds access, a null
  dereference, an over-long shift) returns \<open>None\<close>, so that memory safety is a provable statement
  rather than a side condition.
\<close>

unbundle bit_operations_syntax

named_theorems heap_simps \<open>reading back what was written to host memory or to a backing store\<close>
named_theorems le_simps \<open>little-endian encoding and decoding\<close>

section \<open>Machine integers and host memory\<close>

type_synonym byte = "8 word"
type_synonym u32 = "32 word"
type_synonym u64 = "64 word"

lemma unat64_bound [simp]: "unat (x :: u64) < 18446744073709551616"
proof -
  have "unat x < 2 ^ LENGTH(64)" by (rule unsigned_less)
  then show ?thesis by simp
qed

lemma uint_eq_sint:
  "uint (w :: 'a::len word) = (if sint w < 0 then sint w + 2 ^ LENGTH('a) else sint w)"
proof -
  have lo: "- (2 ^ (LENGTH('a) - 1)) \<le> sint w" and hi: "sint w < 2 ^ (LENGTH('a) - 1)"
    using sint_ge[of w] sint_lt[of w] by simp_all
  have p: "(2::int) ^ LENGTH('a) = 2 * 2 ^ (LENGTH('a) - 1)"
    by (simp flip: power_Suc)
  have "uint w = sint w mod 2 ^ LENGTH('a)" by (simp add: uint_sint take_bit_eq_mod)
  also have "\<dots> = (if sint w < 0 then sint w + 2 ^ LENGTH('a) else sint w)"
  proof (cases "sint w < 0")
    case True
    have "sint w mod 2 ^ LENGTH('a) = (sint w + 2 ^ LENGTH('a)) mod 2 ^ LENGTH('a)" by simp
    also have "\<dots> = sint w + 2 ^ LENGTH('a)" using True lo p by (intro mod_pos_pos_trivial) auto
    finally show ?thesis using True by simp
  next
    case False
    then show ?thesis using hi p by (simp add: mod_pos_pos_trivial)
  qed
  finally show ?thesis .
qed

lemma sint_small:
  "uint (w :: 'a::len word) < 2 ^ (LENGTH('a) - 1) \<Longrightarrow> sint w = uint w"
  by (auto simp: sint_uint intro!: signed_take_bit_int_eq_self order.trans[OF _ uint_ge_0])

text \<open>Sums and products that do not wrap.\<close>

lemma unat_add_nw: "unat a + unat b < 2 ^ 64 \<Longrightarrow> unat (a + b :: u64) = unat a + unat b"
  by (simp add: unat_word_ariths)

lemma unat_mult_nw: "unat a * unat b < 2 ^ 64 \<Longrightarrow> unat (a * b :: u64) = unat a * unat b"
  by (simp add: unat_word_ariths)

text \<open>Host memory, addressed by host pointers; the null pointer is 0.\<close>

type_synonym ptr = nat
type_synonym heap = "ptr \<Rightarrow> byte"

definition heap_read :: "heap \<Rightarrow> ptr \<Rightarrow> nat \<Rightarrow> byte list" where
  "heap_read h p n = map (\<lambda>i. h (p + i)) [0..<n]"

definition heap_write :: "heap \<Rightarrow> ptr \<Rightarrow> byte list \<Rightarrow> heap" where
  "heap_write h p bs = (\<lambda>a. if p \<le> a \<and> a < p + length bs then bs ! (a - p) else h a)"

text \<open>A C++ array of known extent: reads and writes outside it are undefined.\<close>

definition arr_read :: "'a list \<Rightarrow> nat \<Rightarrow> nat \<Rightarrow> 'a list option" where
  "arr_read xs off n = (if off + n \<le> length xs then Some (take n (drop off xs)) else None)"

definition arr_write :: "'a list \<Rightarrow> nat \<Rightarrow> 'a list \<Rightarrow> 'a list option" where
  "arr_write xs off bs =
     (if off + length bs \<le> length xs
      then Some (take off xs @ bs @ drop (off + length bs) xs) else None)"

lemma length_heap_read [simp]: "length (heap_read h p n) = n"
  by (simp add: heap_read_def)

lemma nth_heap_read [simp]: "i < n \<Longrightarrow> heap_read h p n ! i = h (p + i)"
  by (simp add: heap_read_def)

lemma heap_read_write_same [heap_simps]:
  "n = length bs \<Longrightarrow> heap_read (heap_write h p bs) p n = bs"
  by (rule nth_equalityI) (auto simp: heap_write_def)

lemma heap_read_write_other [heap_simps]:
  "p + length bs \<le> q \<or> q + n \<le> p \<Longrightarrow> heap_read (heap_write h p bs) q n = heap_read h q n"
  by (rule nth_equalityI) (auto simp: heap_write_def)

lemma heap_write_outside [heap_simps]:
  "a < p \<or> p + length bs \<le> a \<Longrightarrow> heap_write h p bs a = h a"
  by (auto simp: heap_write_def)

lemma heap_read_split:
  "heap_read h p (m + n) = heap_read h p m @ heap_read h (p + m) n"
  by (rule nth_equalityI) (auto simp: nth_append)

lemma heap_write_append:
  "heap_write h p (xs @ ys) = heap_write (heap_write h p xs) (p + length xs) ys"
  by (rule ext) (auto simp: heap_write_def nth_append)

lemma arr_read_Some_iff:
  "arr_read xs off n = Some bs \<longleftrightarrow> off + n \<le> length xs \<and> bs = take n (drop off xs)"
  by (auto simp: arr_read_def)

lemma arr_write_Some_iff:
  "arr_write xs off bs = Some ys \<longleftrightarrow>
     off + length bs \<le> length xs \<and> ys = take off xs @ bs @ drop (off + length bs) xs"
  by (auto simp: arr_write_def)

lemma length_arr_write: "arr_write xs off bs = Some ys \<Longrightarrow> length ys = length xs"
  by (auto simp: arr_write_Some_iff)

lemma length_arr_read: "arr_read xs off n = Some bs \<Longrightarrow> length bs = n"
  by (auto simp: arr_read_Some_iff)

lemma nth_arr_write:
  assumes "arr_write xs off bs = Some ys" and "i < length xs"
  shows "ys ! i = (if off \<le> i \<and> i < off + length bs then bs ! (i - off) else xs ! i)"
  using assms by (auto simp: arr_write_Some_iff nth_append)

lemma arr_read_write_same [heap_simps]:
  "arr_write xs off bs = Some ys \<Longrightarrow> n = length bs \<Longrightarrow> arr_read ys off n = Some bs"
  by (auto simp: arr_write_Some_iff arr_read_def)

lemma arr_read_write_other:
  assumes "arr_write xs off bs = Some ys" and "off + length bs \<le> o' \<or> o' + n \<le> off"
  shows "arr_read ys o' n = arr_read xs o' n"
proof -
  have "length ys = length xs" using assms(1) by (rule length_arr_write)
  moreover have "take n (drop o' ys) = take n (drop o' xs)"
    by (rule nth_equalityI)
      (use assms \<open>length ys = length xs\<close> in \<open>auto simp: nth_arr_write\<close>)
  ultimately show ?thesis by (simp add: arr_read_def)
qed

section \<open>Little-endian integers\<close>

text \<open>
  \<open>to_le n w\<close> is what \<^verbatim>\<open>memcpy(dst, &w, n)\<close> stores on the little-endian hosts the simulator runs
  on; \<open>from_le bs\<close> is the value of an integer, zero beforehand, after \<^verbatim>\<open>memcpy(&w, src, n)\<close>.
\<close>

definition to_le :: "nat \<Rightarrow> 'a::len word \<Rightarrow> byte list" where
  "to_le n w = map (\<lambda>i. ucast (drop_bit (8 * i) w)) [0..<n]"

primrec from_le :: "byte list \<Rightarrow> 'a::len word" where
  "from_le [] = 0"
| "from_le (b # bs) = ucast b OR push_bit 8 (from_le bs)"

lemma length_to_le [simp]: "length (to_le n w) = n"
  by (simp add: to_le_def)

lemma nth_to_le [simp]: "i < n \<Longrightarrow> to_le n w ! i = ucast (drop_bit (8 * i) w)"
  by (simp add: to_le_def)

lemma bit_from_le:
  "bit (from_le bs :: 'a::len word) k \<longleftrightarrow>
     k < LENGTH('a) \<and> k div 8 < length bs \<and> bit (bs ! (k div 8)) (k mod 8)"
proof (induction bs arbitrary: k)
  case Nil
  then show ?case by simp
next
  case (Cons b bs)
  show ?case
  proof (cases "k < 8")
    case True
    then show ?thesis
      by (auto simp: bit_or_iff bit_push_bit_iff bit_ucast_iff dest: bit_imp_le_length)
  next
    case False
    then obtain m where m: "k = m + 8" by (metis add.commute le_Suc_ex not_less)
    have "\<not> bit b k" using False bit_imp_le_length[of b k] by auto
    moreover have "(m + 8) div 8 = Suc (m div 8)" by simp
    ultimately show ?thesis
      using Cons.IH[of m] bit_imp_le_length[of "from_le bs :: 'a word" m] m
      by (auto simp: bit_or_iff bit_push_bit_iff bit_ucast_iff)
  qed
qed

lemma from_le_to_le [le_simps]: "from_le (to_le n w) = (take_bit (8 * n) w :: 'a::len word)"
proof (rule bit_word_eqI)
  fix k assume k: "k < LENGTH('a)"
  have "k div 8 < n \<longleftrightarrow> k < 8 * n" by auto
  moreover have "8 * (k div 8) + k mod 8 = k" by simp
  ultimately show "bit (from_le (to_le n w) :: 'a word) k = bit (take_bit (8 * n) w) k"
    using k by (auto simp: bit_from_le bit_take_bit_iff bit_ucast_iff bit_drop_bit_eq)
qed

lemma from_le_to_le_full [le_simps]:
  "8 * n = LENGTH('a::len) \<Longrightarrow> from_le (to_le n w) = (w :: 'a word)"
  unfolding from_le_to_le by simp

lemma to_le_from_le [le_simps]:
  assumes "n = length bs" and "8 * n \<le> LENGTH('a::len)"
  shows "to_le n (from_le bs :: 'a word) = bs"
proof (rule nth_equalityI)
  show "length (to_le n (from_le bs :: 'a word)) = length bs" using assms by simp
next
  fix i assume "i < length (to_le n (from_le bs :: 'a word))"
  then have i: "i < n" by simp
  show "to_le n (from_le bs :: 'a word) ! i = bs ! i"
  proof (rule bit_word_eqI)
    fix k assume "k < LENGTH(8)"
    then have "k < 8" by simp
    moreover from this i assms have "8 * i + k < LENGTH('a)" by linarith
    ultimately show "bit (to_le n (from_le bs :: 'a word) ! i) k = bit (bs ! i) k"
      using i assms by (simp add: bit_ucast_iff bit_drop_bit_eq bit_from_le)
  qed
qed

lemma to_le_cong:
  assumes "take_bit (8 * n) v = take_bit (8 * n) (w :: 'a::len word)"
  shows "to_le n v = to_le n w"
proof (rule nth_equalityI)
  show "length (to_le n v) = length (to_le n w)" by simp
next
  fix i assume "i < length (to_le n v)"
  then have i: "i < n" by simp
  show "to_le n v ! i = to_le n w ! i"
  proof (rule bit_word_eqI)
    fix k assume "k < LENGTH(8)"
    then have "8 * i + k < 8 * n" using i by simp
    then have "bit v (8 * i + k) = bit w (8 * i + k)"
      using assms by (metis bit_take_bit_iff)
    then show "bit (to_le n v ! i) k = bit (to_le n w ! i) k"
      using i by (simp add: bit_ucast_iff bit_drop_bit_eq)
  qed
qed

end
