(* ===== verification/IO_V2.thy ===== *)
theory IO_V2
  imports Prelude
begin

text \<open>
  The io\_v2 request protocol as the models under \<^verbatim>\<open>src/models\<close> use it. The class \<^verbatim>\<open>vp::IoReq\<close> and
  the ports are part of the engine, which is not in the repository; what is recorded here is the
  data the models read and write on a request (one field per getter/setter or public member they
  use) and the three status codes they return. A downstream port is a parameter of the models: a
  function from the state behind the port and a request to the new state, the request as the
  target left it, and the status. The locale \<open>io_target\<close> names what a master may rely on.
\<close>

section \<open>Requests and statuses\<close>

datatype io_req_status = IO_REQ_DONE | IO_REQ_GRANTED | IO_REQ_DENIED

datatype io_resp_status = IO_RESP_OK | IO_RESP_INVALID

datatype io_resp_ack = IO_RESP_ACCEPTED | IO_RESP_DENIED

datatype io_opcode =
  OP_READ | OP_WRITE | OP_LR | OP_SC | OP_SWAP | OP_ADD | OP_XOR | OP_AND | OP_OR
| OP_MIN | OP_MAX | OP_MINU | OP_MAXU

type_synonym initiator = nat

record io_req =
  r_addr :: u64
  r_size :: u64
  r_data :: ptr
  r_second_data :: ptr
  r_strb :: ptr
  r_is_write :: bool
  r_opcode :: io_opcode
  r_initiator :: initiator
  r_latency :: int
  r_resp_status :: io_resp_status
  r_remaining_size :: u64
  r_memcheck_data :: ptr
  r_memcheck_data_id :: u32

type_synonym 's io_port = "'s \<Rightarrow> io_req \<Rightarrow> 's \<times> io_req \<times> io_req_status"

text \<open>What a component calls on its upstream port, in the order it calls it.\<close>

datatype up_call = Up_Resp io_req | Up_Retry

text \<open>
  Components that keep requests across calls hold references to request objects in a store that
  they share with the master and the downstream. What is then observed on the upstream port: the
  answer to each submitted request, responses and retries.
\<close>

type_synonym req_ref = nat
type_synonym req_store = "req_ref \<Rightarrow> io_req"

datatype up_event =
  Ev_Done req_ref | Ev_Granted req_ref | Ev_Denied req_ref | Ev_Resp req_ref | Ev_Retry

text \<open>
  A debug backdoor (\<^verbatim>\<open>vp::DebugMemIf\<close>): from a state, an address, a host buffer, a size and the
  direction to the new state and whether the access failed.
\<close>

type_synonym 's debug_mem = "'s \<Rightarrow> u64 \<Rightarrow> ptr \<Rightarrow> u64 \<Rightarrow> bool \<Rightarrow> 's \<times> bool"

section \<open>The contract of a request target\<close>

text \<open>
  \<open>inv\<close> is the target's state invariant, \<open>accepts\<close> the requests it is specified for. A denied
  request comes back as it was sent: nothing went through, so the master can re-send it later.
\<close>

locale io_target =
  fixes tgt :: "'s io_port"
    and inv :: "'s \<Rightarrow> bool"
    and accepts :: "io_req \<Rightarrow> bool"
  assumes inv_step: "inv s \<Longrightarrow> accepts r \<Longrightarrow> tgt s r = (s', r', st) \<Longrightarrow> inv s'"
    and denied_untouched:
      "inv s \<Longrightarrow> accepts r \<Longrightarrow> tgt s r = (s', r', IO_REQ_DENIED) \<Longrightarrow> r' = r"
begin

lemma inv_requests:
  "inv s \<Longrightarrow> (\<And>r. r \<in> set rs \<Longrightarrow> accepts r) \<Longrightarrow> inv (fold (\<lambda>r s. fst (tgt s r)) rs s)"
proof (induction rs arbitrary: s)
  case Nil
  then show ?case by simp
next
  case (Cons r rs)
  have "inv (fst (tgt s r))"
    using inv_step[of s r "fst (tgt s r)" "fst (snd (tgt s r))" "snd (snd (tgt s r))"] Cons.prems
    by simp
  then show ?case using Cons by simp
qed

lemma denied_resend:
  assumes "inv s" "accepts r" "tgt s r = (s', r', IO_REQ_DENIED)"
  shows "accepts r' \<and> tgt s' r' = tgt s' r"
  using denied_untouched[OF assms] assms(2) by simp

end

end
