(* ===== verification/Memory_V3.thy ===== *)
theory Memory_V3
  imports IO_V2
begin

text \<open>
  The SRAM model of \<^verbatim>\<open>src/models/memory/memory_v3.cpp\<close>: a byte-addressable backing store with a
  fixed latency, byte strobes, the RISC-V atomics with an LR/SC reservation table, power gating,
  the memcheck shadow and the debug backdoor.

  Host memory (the request's data buffers) is the heap, the backing store is a byte list; they
  are disjoint objects. \<open>None\<close> is undefined behaviour of the C++ code.
\<close>

section \<open>State\<close>

text \<open>
  The compiled configuration. \<open>c_atomics\<close>, \<open>c_memcheck\<close> and \<open>c_trace\<close> are the build switches
  \<^verbatim>\<open>CONFIG_ATOMICS\<close>, \<^verbatim>\<open>VP_MEMCHECK_ACTIVE\<close> and \<^verbatim>\<open>VP_TRACE_ACTIVE\<close>.
\<close>

record mem_config =
  c_size :: u64
  c_latency :: int
  c_truncate :: bool
  c_check :: bool
  c_power_trigger :: bool
  c_atomics :: bool
  c_memcheck :: bool
  c_trace :: bool

datatype power_source = Read_8 | Read_16 | Read_32 | Write_8 | Write_16 | Write_32

text \<open>Calls into the power engine, in order.\<close>

datatype engine_call = Account_Energy power_source | Start_Capture | Stop_Capture

record memory =
  cfg :: mem_config
  mem_data :: "byte list"
  powered_up :: bool
  free_mem :: bool
  res_table :: "initiator \<rightharpoonup> u64"
  memcheck_enabled :: bool
  memcheck_shadow :: "byte list"
  memcheck_shadow_id :: "u32 list"
  last_logged_access :: int
  nb_logged_access_in_same_cycle :: nat
  stat_reads :: nat
  stat_writes :: nat
  stat_bytes_read :: nat
  stat_bytes_written :: nat
  engine_calls :: "engine_call list"

definition truncate_mask :: "mem_config \<Rightarrow> u64" where
  "truncate_mask c = (if c_truncate c then c_size c - 1 else - 1)"

section \<open>Access log\<close>

text \<open>
  The VCD pulse of an access is delayed inside its cycle so that several accesses of one cycle
  stay visible. \<open>log_delay\<close> is the delay, \<open>log_access\<close> the bookkeeping; the signals themselves
  belong to the engine. Shifting a 64-bit period by 64 or more is undefined.
\<close>

definition log_delay :: "int \<Rightarrow> nat \<Rightarrow> int option" where
  "log_delay period nb =
     (if nb > 0 then (if nb < 64 then Some (period - drop_bit nb period) else None) else Some 0)"

definition log_access :: "int \<Rightarrow> memory \<Rightarrow> memory" where
  "log_access cycles m =
     (let nb = (if cycles > last_logged_access m then 0 else nb_logged_access_in_same_cycle m)
      in m\<lparr>nb_logged_access_in_same_cycle := Suc nb, last_logged_access := cycles\<rparr>)"

section \<open>Reads and writes of the backing store\<close>

text \<open>The strobed copy loop: byte \<open>i\<close> is stored when its strobe is not zero.\<close>

fun strobe_loop :: "byte list \<Rightarrow> nat \<Rightarrow> (byte \<times> byte) list \<Rightarrow> byte list option" where
  "strobe_loop xs p [] = Some xs"
| "strobe_loop xs p ((s, b) # rest) =
     (if s \<noteq> 0 then
        if p < length xs then strobe_loop (xs[p := b]) (Suc p) rest else None
      else strobe_loop xs (Suc p) rest)"

definition handle_write_bytes :: "memory \<Rightarrow> u64 \<Rightarrow> byte list \<Rightarrow> memory option" where
  "handle_write_bytes m off bs =
     (if \<not> powered_up m then Some m
      else do {
        md \<leftarrow> arr_write (mem_data m) (unat off) bs;
        Some (m\<lparr>mem_data := md\<rparr>)
      })"

definition handle_write :: "memory \<Rightarrow> heap \<Rightarrow> u64 \<Rightarrow> u64 \<Rightarrow> ptr \<Rightarrow> ptr \<Rightarrow> memory option" where
  "handle_write m h off sz data strb =
     (if \<not> powered_up m then Some m
      else if data \<noteq> 0 then
        if strb \<noteq> 0 then do {
          md \<leftarrow> strobe_loop (mem_data m) (unat off)
            (zip (heap_read h strb (unat sz)) (heap_read h data (unat sz)));
          Some (m\<lparr>mem_data := md\<rparr>)
        } else handle_write_bytes m off (heap_read h data (unat sz))
      else Some m)"

text \<open>What \<open>handle_read\<close> copies to its destination.\<close>

definition handle_read_bytes :: "memory \<Rightarrow> u64 \<Rightarrow> u64 \<Rightarrow> byte list option" where
  "handle_read_bytes m off sz =
     (if \<not> powered_up m then Some (replicate (unat sz) 0)
      else arr_read (mem_data m) (unat off) (unat sz))"

definition handle_read :: "memory \<Rightarrow> heap \<Rightarrow> u64 \<Rightarrow> u64 \<Rightarrow> ptr \<Rightarrow> heap option" where
  "handle_read m h off sz data =
     (if data \<noteq> 0 then do {
        bs \<leftarrow> handle_read_bytes m off sz;
        Some (heap_write h data bs)
      } else Some h)"

section \<open>Atomics\<close>

definition get_signed_value :: "u64 \<Rightarrow> nat \<Rightarrow> u64" where
  "get_signed_value v bits = signed_drop_bit (64 - bits) (push_bit (64 - bits) v)"

text \<open>
  The value an AMO writes back, on the sign-extended 64-bit operands; \<open>None\<close> for opcodes the
  switch does not handle.
\<close>

fun amo_result :: "io_opcode \<Rightarrow> u64 \<Rightarrow> u64 \<Rightarrow> u64 option" where
  "amo_result OP_SWAP prev operand = Some operand"
| "amo_result OP_ADD prev operand = Some (prev + operand)"
| "amo_result OP_XOR prev operand = Some (prev XOR operand)"
| "amo_result OP_AND prev operand = Some (prev AND operand)"
| "amo_result OP_OR prev operand = Some (prev OR operand)"
| "amo_result OP_MIN prev operand = Some (if prev <s operand then prev else operand)"
| "amo_result OP_MAX prev operand = Some (if operand <s prev then prev else operand)"
| "amo_result OP_MINU prev operand = Some (if prev < operand then prev else operand)"
| "amo_result OP_MAXU prev operand = Some (if prev > operand then prev else operand)"
| "amo_result _ prev operand = None"

definition break_reservations ::
  "(initiator \<rightharpoonup> u64) \<Rightarrow> u64 \<Rightarrow> u64 \<Rightarrow> (initiator \<rightharpoonup> u64)" where
  "break_reservations rt a sz =
     (\<lambda>i. map_option (\<lambda>v. if v \<ge> a \<and> v < a + sz then - 1 else v) (rt i))"

text \<open>
  \<open>atomic_step\<close> is the switch: the new reservation table, the value returned to the initiator and
  the value to write, if any. \<open>None\<close> is the \<^verbatim>\<open>default\<close> branch, which returns at once.
\<close>

definition atomic_step ::
  "(initiator \<rightharpoonup> u64) \<Rightarrow> io_opcode \<Rightarrow> initiator \<Rightarrow> u64 \<Rightarrow> u64 \<Rightarrow> u64 \<Rightarrow> u64 \<Rightarrow>
     ((initiator \<rightharpoonup> u64) \<times> u64 \<times> u64 option) option" where
  "atomic_step rt op ini a sz prev operand =
     (case op of
        OP_LR \<Rightarrow> Some (rt(ini \<mapsto> a), prev, None)
      | OP_SC \<Rightarrow>
          if rt ini = Some a then Some (break_reservations rt a sz, 0, Some operand)
          else Some (rt, 1, None)
      | _ \<Rightarrow> map_option (\<lambda>res. (rt, prev, Some res)) (amo_result op prev operand))"

text \<open>
  \<^verbatim>\<open>operand\<close> and \<^verbatim>\<open>prev_val\<close> are 8-byte locals: a size over 8 overruns them, a size of 0 shifts by
  64. Both are undefined, and so is copying from a null \<^verbatim>\<open>in_data\<close>.
\<close>

definition handle_atomic ::
  "memory \<Rightarrow> heap \<Rightarrow> u64 \<Rightarrow> u64 \<Rightarrow> ptr \<Rightarrow> ptr \<Rightarrow> io_opcode \<Rightarrow> initiator \<Rightarrow> (memory \<times> heap) option"
where
  "handle_atomic m h a sz in_data out_data op ini =
     (if in_data = 0 \<or> sz = 0 \<or> sz > 8 then None
      else do {
        let n = unat sz;
        prev_bytes \<leftarrow> handle_read_bytes m a sz;
        let ext = (\<lambda>v. if sz < 8 then get_signed_value v (n * 8) else v);
        let operand = ext (from_le (heap_read h in_data n));
        let prev_val = ext (from_le prev_bytes);
        (case atomic_step (res_table m) op ini a sz prev_val operand of
           None \<Rightarrow> Some (m, h)
         | Some (rt, out, res) \<Rightarrow> do {
             let h' = (if out_data \<noteq> 0 then heap_write h out_data (to_le n out) else h);
             let m' = m\<lparr>res_table := rt\<rparr>;
             (case res of
                None \<Rightarrow> Some (m', h')
              | Some v \<Rightarrow> do { m'' \<leftarrow> handle_write_bytes m' a (to_le n v); Some (m'', h') })
           })
      })"

section \<open>Memcheck shadow\<close>

text \<open>The shadow-id slots \<^verbatim>\<open>offset >> 2 .. (offset + size - 1) >> 2\<close> are cleared.\<close>

definition clear_ids :: "memory \<Rightarrow> u64 \<Rightarrow> u64 \<Rightarrow> memory option" where
  "clear_ids m off sz =
     (let lo = unat (drop_bit 2 off); hi = unat (drop_bit 2 (off + sz - 1))
      in if hi < lo then Some m
         else do {
           ids \<leftarrow> arr_write (memcheck_shadow_id m) lo (replicate (Suc hi - lo) 0);
           Some (m\<lparr>memcheck_shadow_id := ids\<rparr>)
         })"

definition memcheck_set_range_valid :: "memory \<Rightarrow> u64 \<Rightarrow> u64 \<Rightarrow> memory option" where
  "memcheck_set_range_valid m off sz = do {
     sh \<leftarrow> arr_write (memcheck_shadow m) (unat off) (replicate (unat sz) (- 1));
     clear_ids (m\<lparr>memcheck_shadow := sh\<rparr>) off sz
   }"

definition memcheck_handle_req ::
  "memory \<Rightarrow> heap \<Rightarrow> io_req \<Rightarrow> u64 \<Rightarrow> u64 \<Rightarrow> (memory \<times> heap \<times> io_req) option" where
  "memcheck_handle_req m h r off sz =
     (case r_opcode r of
        OP_WRITE \<Rightarrow> do {
          sh \<leftarrow> arr_write (memcheck_shadow m) (unat off)
            (if r_memcheck_data r \<noteq> 0 then heap_read h (r_memcheck_data r) (unat sz)
             else replicate (unat sz) (- 1));
          let m1 = m\<lparr>memcheck_shadow := sh\<rparr>;
          m2 \<leftarrow> (if sz = 4 \<and> off AND 3 = 0 then do {
                   ids \<leftarrow> arr_write (memcheck_shadow_id m1) (unat (drop_bit 2 off))
                     [r_memcheck_data_id r];
                   Some (m1\<lparr>memcheck_shadow_id := ids\<rparr>)
                 } else clear_ids m1 off sz);
          Some (m2, h, r)
        }
      | OP_READ \<Rightarrow> do {
          h' \<leftarrow> (if r_memcheck_data r \<noteq> 0 then do {
                   sh \<leftarrow> arr_read (memcheck_shadow m) (unat off) (unat sz);
                   Some (heap_write h (r_memcheck_data r) sh)
                 } else Some h);
          r' \<leftarrow> (if sz = 4 \<and> off AND 3 = 0 then do {
                   ids \<leftarrow> arr_read (memcheck_shadow_id m) (unat (drop_bit 2 off)) 1;
                   Some (r\<lparr>r_memcheck_data_id := hd ids\<rparr>)
                 } else Some r);
          Some (m, h', r')
        }
      | _ \<Rightarrow> do { m' \<leftarrow> memcheck_set_range_valid m off sz; Some (m', h, r) })"

section \<open>The request handler\<close>

definition count_access :: "io_req \<Rightarrow> memory \<Rightarrow> memory" where
  "count_access r m =
     (if r_is_write r
      then m\<lparr>stat_writes := Suc (stat_writes m),
             stat_bytes_written := stat_bytes_written m + unat (r_size r)\<rparr>
      else m\<lparr>stat_reads := Suc (stat_reads m),
             stat_bytes_read := stat_bytes_read m + unat (r_size r)\<rparr>)"

definition account_energy :: "bool \<Rightarrow> io_req \<Rightarrow> memory \<Rightarrow> memory" where
  "account_energy power_enabled r m =
     (let charge = (\<lambda>src. m\<lparr>engine_calls := engine_calls m @ [Account_Energy src]\<rparr>)
      in if \<not> power_enabled then m
         else if r_is_write r then
           (if r_size r = 1 then charge Write_8
            else if r_size r = 2 then charge Write_16
            else if r_size r = 4 then charge Write_32 else m)
         else
           (if r_size r = 1 then charge Read_8
            else if r_size r = 2 then charge Read_16
            else if r_size r = 4 then charge Read_32 else m))"

definition power_trigger :: "heap \<Rightarrow> io_req \<Rightarrow> u64 \<Rightarrow> memory \<Rightarrow> memory option" where
  "power_trigger h r off m =
     (if c_trace (cfg m) \<and> c_power_trigger (cfg m)
         \<and> r_is_write r \<and> r_size r = 4 \<and> off = 0 then
        if r_data r = 0 then None
        else let v = (from_le (heap_read h (r_data r) 4) :: u32)
             in Some (if v = 0xabbaabba then m\<lparr>engine_calls := engine_calls m @ [Start_Capture]\<rparr>
                      else if v = 0xdeadcaca
                      then m\<lparr>engine_calls := engine_calls m @ [Stop_Capture]\<rparr>
                      else m)
      else Some m)"

text \<open>
  \<^verbatim>\<open>Memory::req\<close>: the current cycle and whether power accounting is on are read from the engine.
\<close>

definition mem_req ::
  "int \<Rightarrow> bool \<Rightarrow> memory \<Rightarrow> heap \<Rightarrow> io_req \<Rightarrow> (memory \<times> heap \<times> io_req \<times> io_req_status) option"
where
  "mem_req cycles power_enabled m h r = do {
     let off = r_addr r AND truncate_mask (cfg m);
     let sz = r_size r;
     let m1 = account_energy power_enabled r (log_access cycles (count_access r m));
     let r1 = r\<lparr>r_latency := r_latency r + c_latency (cfg m)\<rparr>;
     m2 \<leftarrow> power_trigger h r1 off m1;
     (if off + sz > c_size (cfg m2) then
        Some (m2, h, r1\<lparr>r_resp_status := IO_RESP_INVALID\<rparr>, IO_REQ_DONE)
      else do {
        (m3, h3, r3) \<leftarrow> (if c_memcheck (cfg m2) \<and> memcheck_enabled m2
                         then memcheck_handle_req m2 h r1 off sz else Some (m2, h, r1));
        (case r_opcode r of
           OP_READ \<Rightarrow> do { h4 \<leftarrow> handle_read m3 h3 off sz (r_data r); Some (m3, h4, r3, IO_REQ_DONE) }
         | OP_WRITE \<Rightarrow> do {
             m4 \<leftarrow> handle_write m3 h3 off sz (r_data r) (r_strb r);
             Some (m4, h3, r3, IO_REQ_DONE) }
         | op \<Rightarrow>
             if c_atomics (cfg m3) then do {
               (m4, h4) \<leftarrow> handle_atomic m3 h3 off sz (r_data r) (r_second_data r) op (r_initiator r);
               Some (m4, h4, r3, IO_REQ_DONE) }
             else Some (m3, h3, r3\<lparr>r_resp_status := IO_RESP_INVALID\<rparr>, IO_REQ_DONE))
      })
   }"

section \<open>Debug backdoor, reset, power and memory-info wires\<close>

definition debug_mem_hostptr :: "memory \<Rightarrow> u64 \<Rightarrow> u64 \<Rightarrow> u64 option" where
  "debug_mem_hostptr m a sz =
     (if c_check (cfg m) then None
      else if c_memcheck (cfg m) \<and> memcheck_enabled m then None
      else if a + sz > c_size (cfg m) then None
      else Some a)"

definition debug_mem_access ::
  "memory \<Rightarrow> heap \<Rightarrow> u64 \<Rightarrow> ptr \<Rightarrow> u64 \<Rightarrow> bool \<Rightarrow> (memory \<times> heap \<times> int) option" where
  "debug_mem_access m h a data sz is_write = do {
     let off = a AND truncate_mask (cfg m);
     (if off + sz > c_size (cfg m) then Some (m, h, - 1)
      else if is_write then do {
        m1 \<leftarrow> (if c_memcheck (cfg m) \<and> memcheck_enabled m
               then memcheck_set_range_valid m off sz else Some m);
        m2 \<leftarrow> handle_write m1 h off sz data 0;
        Some (m2, h, 0) }
      else do {
        h' \<leftarrow> handle_read m h off sz data;
        Some (m, h', 0) })
   }"

definition mem_reset :: "bool \<Rightarrow> memory \<Rightarrow> memory" where
  "mem_reset active m = (if active then m\<lparr>powered_up := True\<rparr> else m)"

definition power_ctrl_sync :: "bool \<Rightarrow> memory \<Rightarrow> memory" where
  "power_ctrl_sync v m = m\<lparr>powered_up := v\<rparr>"

definition meminfo_sync_back :: "memory \<Rightarrow> byte list" where
  "meminfo_sync_back m = mem_data m"

definition meminfo_sync :: "byte list \<Rightarrow> memory \<Rightarrow> memory" where
  "meminfo_sync v m = m\<lparr>mem_data := v, free_mem := False\<rparr>"

end
