(* ===== verification/Memory_V3_Props.thy ===== *)
theory Memory_V3_Props
  imports Memory_V3
begin

text \<open>
  Properties of the SRAM model: memory safety and the status contract of the request handler,
  read-after-write with and without strobes, the atomics against a specification at the operand's
  own width, the LR/SC reservation protocol, and the memory as a target of the io\_v2 contract.
\<close>

section \<open>Invariant and bounds\<close>

definition mem_wf :: "memory \<Rightarrow> bool" where
  "mem_wf m \<longleftrightarrow>
     length (mem_data m) = unat (c_size (cfg m)) \<and>
     (c_memcheck (cfg m) \<and> memcheck_enabled m \<longrightarrow>
        length (memcheck_shadow m) = unat (c_size (cfg m)) \<and>
        length (memcheck_shadow_id m) = (unat (c_size (cfg m)) + 3) div 4)"

text \<open>Requests the memory is specified for: no wrap-around of the end address, a data buffer, and
  for atomics a size the 8-byte locals can hold.\<close>

definition mem_accepts :: "io_req \<Rightarrow> bool" where
  "mem_accepts r \<longleftrightarrow>
     unat (r_addr r) + unat (r_size r) < 2 ^ 64 \<and> r_size r \<noteq> 0 \<and> r_data r \<noteq> 0 \<and>
     (r_opcode r \<in> {OP_READ, OP_WRITE} \<or> r_size r \<le> 8)"

lemma unat_masked_add:
  assumes "unat a + unat sz < 2 ^ 64"
  shows "unat ((a AND k :: u64) + sz) = unat (a AND k) + unat sz"
proof -
  have "unat (a AND k) \<le> unat a"
    using word_and_le2[of a k] by (simp add: word_le_nat_alt)
  then show ?thesis using assms by (simp add: unat_word_ariths)
qed

lemma guard_in_bounds:
  assumes "unat a + unat sz < 2 ^ 64" "\<not> c < (a AND k :: u64) + sz"
  shows "unat (a AND k) + unat sz \<le> unat c"
  using assms unat_masked_add[OF assms(1), of k] by (simp add: not_less word_le_nat_alt)

section \<open>Backing store operations\<close>

lemma strobe_loop_ok:
  assumes "p + length sbs \<le> length xs"
  shows "\<exists>ys. strobe_loop xs p sbs = Some ys \<and> length ys = length xs \<and>
    (\<forall>i < length xs. ys ! i =
       (if p \<le> i \<and> i < p + length sbs \<and> fst (sbs ! (i - p)) \<noteq> 0
        then snd (sbs ! (i - p)) else xs ! i))"
  using assms
proof (induction xs p sbs rule: strobe_loop.induct)
  case (1 xs p)
  then show ?case by auto
next
  case (2 xs p s b rest)
  let ?xs = "if s \<noteq> 0 then xs[p := b] else xs"
  have p: "p < length xs" using 2(3) by simp
  have "\<exists>ys. strobe_loop ?xs (Suc p) rest = Some ys \<and> length ys = length xs \<and>
    (\<forall>i < length xs. ys ! i =
       (if Suc p \<le> i \<and> i < Suc p + length rest \<and> fst (rest ! (i - Suc p)) \<noteq> 0
        then snd (rest ! (i - Suc p)) else ?xs ! i))"
    using 2 p by (cases "s \<noteq> 0") auto
  then obtain ys where ys: "strobe_loop ?xs (Suc p) rest = Some ys" "length ys = length xs"
    "\<And>i. i < length xs \<Longrightarrow> ys ! i =
       (if Suc p \<le> i \<and> i < Suc p + length rest \<and> fst (rest ! (i - Suc p)) \<noteq> 0
        then snd (rest ! (i - Suc p)) else ?xs ! i)" by blast
  have "strobe_loop xs p ((s, b) # rest) = Some ys" using ys(1) p by auto
  moreover have "ys ! i = (if p \<le> i \<and> i < p + length ((s, b) # rest) \<and>
      fst (((s, b) # rest) ! (i - p)) \<noteq> 0 then snd (((s, b) # rest) ! (i - p)) else xs ! i)"
    if i: "i < length xs" for i
  proof (cases "i = p")
    case True
    then show ?thesis using ys(3)[OF i] p by auto
  next
    case False
    then have "Suc p \<le> i \<longleftrightarrow> p \<le> i" by auto
    then show ?thesis using ys(3)[OF i] False by (auto simp: nth_Cons' Suc_le_eq)
  qed
  ultimately show ?case using ys(2) by blast
qed

lemma handle_write_bytes_ok:
  assumes "mem_wf m" "unat off + length bs \<le> unat (c_size (cfg m))"
  shows "\<exists>md. handle_write_bytes m off bs = Some (m\<lparr>mem_data := md\<rparr>) \<and>
    length md = length (mem_data m)"
proof (cases "powered_up m")
  case True
  have "unat off + length bs \<le> length (mem_data m)" using assms by (simp add: mem_wf_def)
  then obtain md where md: "arr_write (mem_data m) (unat off) bs = Some md"
    by (auto simp: arr_write_def)
  then show ?thesis using True length_arr_write[OF md] by (auto simp: handle_write_bytes_def)
next
  case False
  then show ?thesis by (auto simp: handle_write_bytes_def intro: exI[of _ "mem_data m"])
qed

lemma same_mem_data: "\<exists>md. m = m\<lparr>mem_data := md\<rparr> \<and> length md = length (mem_data m)"
  by (rule exI[of _ "mem_data m"]) simp

lemma handle_write_ok:
  assumes "mem_wf m" "unat off + unat sz \<le> unat (c_size (cfg m))"
  shows "\<exists>md. handle_write m h off sz d st = Some (m\<lparr>mem_data := md\<rparr>) \<and>
    length md = length (mem_data m)"
proof -
  let ?sbs = "zip (heap_read h st (unat sz)) (heap_read h d (unat sz))"
  have "unat off + length ?sbs \<le> length (mem_data m)" using assms by (simp add: mem_wf_def)
  from strobe_loop_ok[OF this] obtain md1 where
    md1: "strobe_loop (mem_data m) (unat off) ?sbs = Some md1" "length md1 = length (mem_data m)"
    by blast
  have "unat off + length (heap_read h d (unat sz)) \<le> unat (c_size (cfg m))"
    using assms by simp
  from handle_write_bytes_ok[OF assms(1) this] obtain md2 where
    md2: "handle_write_bytes m off (heap_read h d (unat sz)) = Some (m\<lparr>mem_data := md2\<rparr>)"
      "length md2 = length (mem_data m)" by blast
  show ?thesis using md1 md2 same_mem_data[of m] by (auto simp: handle_write_def)
qed

lemma handle_read_bytes_ok:
  assumes "mem_wf m" "unat off + unat sz \<le> unat (c_size (cfg m))"
  shows "\<exists>bs. handle_read_bytes m off sz = Some bs \<and> length bs = unat sz"
  using assms by (simp add: handle_read_bytes_def mem_wf_def arr_read_def)

lemma handle_read_ok:
  assumes "mem_wf m" "unat off + unat sz \<le> unat (c_size (cfg m))"
  shows "\<exists>h'. handle_read m h off sz d = Some h'"
  using handle_read_bytes_ok[OF assms] by (auto simp: handle_read_def)

lemma handle_atomic_ok:
  assumes wf: "mem_wf m" and b: "unat a + unat sz \<le> unat (c_size (cfg m))"
    and sz: "sz \<noteq> 0" "sz \<le> 8" and d: "d \<noteq> 0"
  shows "\<exists>h' md rt. handle_atomic m h a sz d out op ini =
      Some (m\<lparr>res_table := rt, mem_data := md\<rparr>, h') \<and> length md = length (mem_data m)"
proof -
  obtain pb where pb: "handle_read_bytes m a sz = Some pb"
    using handle_read_bytes_ok[OF wf b] by blast
  let ?ext = "\<lambda>v. if sz < 8 then get_signed_value v (unat sz * 8) else v"
  define stp where "stp = atomic_step (res_table m) op ini a sz (?ext (from_le pb))
    (?ext (from_le (heap_read h d (unat sz))))"
  have unf: "handle_atomic m h a sz d out op ini =
    (case stp of None \<Rightarrow> Some (m, h) | Some (rt, ov, res) \<Rightarrow> do {
       let h' = (if out \<noteq> 0 then heap_write h out (to_le (unat sz) ov) else h);
       let m' = m\<lparr>res_table := rt\<rparr>;
       (case res of None \<Rightarrow> Some (m', h')
        | Some v \<Rightarrow> do { m'' \<leftarrow> handle_write_bytes m' a (to_le (unat sz) v); Some (m'', h') }) })"
  proof -
    have "\<not> (d = 0 \<or> sz = 0 \<or> 8 < sz)" using sz d by (simp add: not_less)
    then show ?thesis using pb by (simp only: handle_atomic_def if_False bind.bind_lunit Let_def stp_def)
  qed
  have wr: "\<exists>md. handle_write_bytes (m\<lparr>res_table := rt\<rparr>) a (to_le (unat sz) v) =
      Some (m\<lparr>res_table := rt, mem_data := md\<rparr>) \<and> length md = length (mem_data m)" for rt v
  proof -
    have "mem_wf (m\<lparr>res_table := rt\<rparr>)" using wf by (simp add: mem_wf_def)
    from handle_write_bytes_ok[OF this, of a "to_le (unat sz) v"] b
    show ?thesis by simp
  qed
  show ?thesis
  proof (cases stp)
    case None
    show ?thesis
      by (rule exI[of _ h], rule exI[of _ "mem_data m"], rule exI[of _ "res_table m"])
        (simp add: unf None)
  next
    case (Some q)
    obtain rt ov res where q: "q = (rt, ov, res)" by (cases q) auto
    show ?thesis
    proof (cases res)
      case None
      show ?thesis
        by (rule exI, rule exI[of _ "mem_data m"], rule exI[of _ rt])
          (simp add: unf Some q None Let_def)
    next
      case (Some v)
      obtain md where md: "handle_write_bytes (m\<lparr>res_table := rt\<rparr>) a (to_le (unat sz) v) =
          Some (m\<lparr>res_table := rt, mem_data := md\<rparr>)" "length md = length (mem_data m)"
        using wr by blast
      show ?thesis
        by (rule exI, rule exI[of _ md], rule exI[of _ rt])
          (simp add: unf \<open>stp = Some q\<close> q Some md Let_def)
    qed
  qed
qed

section \<open>Memcheck\<close>

lemma clear_ids_ok:
  assumes "length (memcheck_shadow_id m) = (n + 3) div 4" "unat off + unat sz \<le> n" "sz \<noteq> 0"
    "n < 2 ^ 64"
  shows "\<exists>ids. clear_ids m off sz = Some (m\<lparr>memcheck_shadow_id := ids\<rparr>) \<and>
    length ids = length (memcheck_shadow_id m)"
proof -
  have pos: "0 < unat sz" using assms(3) by (simp add: unat_gt_0)
  have sum: "unat (off + sz) = unat off + unat sz"
    using assms by (simp add: unat_word_ariths)
  then have "off + sz \<noteq> 0" using pos by (metis add_is_0 less_numeral_extra(3) unat_0)
  then have "unat (off + sz - 1) = unat off + unat sz - 1"
    using sum by (simp add: unat_minus_one)
  then have hi: "unat (drop_bit 2 (off + sz - 1)) = (unat off + unat sz - 1) div 4"
    by (simp add: drop_bit_eq_div unat_div)
  have lo: "unat (drop_bit 2 off) = unat off div 4"
    by (simp add: drop_bit_eq_div unat_div)
  have le: "unat off div 4 \<le> (unat off + unat sz - 1) div 4"
    using pos by (intro div_le_mono) simp
  have "(unat off + unat sz - 1) div 4 < (n + 3) div 4"
    using assms(2) pos by linarith
  then have "unat off div 4 + (Suc ((unat off + unat sz - 1) div 4) - unat off div 4)
      \<le> length (memcheck_shadow_id m)" using le assms(1) by linarith
  then obtain ids where ids: "arr_write (memcheck_shadow_id m) (unat off div 4)
      (replicate (Suc ((unat off + unat sz - 1) div 4) - unat off div 4) 0) = Some ids"
    by (auto simp: arr_write_def)
  then show ?thesis
    using le length_arr_write[OF ids]
    by (intro exI[of _ ids]) (simp add: clear_ids_def hi lo Let_def)
qed

lemma set_range_valid_ok:
  assumes "mem_wf m" "c_memcheck (cfg m)" "memcheck_enabled m"
    "unat off + unat sz \<le> unat (c_size (cfg m))" "sz \<noteq> 0"
  shows "\<exists>sh ids. memcheck_set_range_valid m off sz =
      Some (m\<lparr>memcheck_shadow := sh, memcheck_shadow_id := ids\<rparr>) \<and>
    length sh = length (memcheck_shadow m) \<and> length ids = length (memcheck_shadow_id m)"
proof -
  have len: "length (memcheck_shadow m) = unat (c_size (cfg m))"
    "length (memcheck_shadow_id m) = (unat (c_size (cfg m)) + 3) div 4"
    using assms(1-3) by (simp_all add: mem_wf_def)
  obtain sh where sh: "arr_write (memcheck_shadow m) (unat off) (replicate (unat sz) (- 1)) = Some sh"
    using assms(4) len by (auto simp: arr_write_def)
  obtain ids where "clear_ids (m\<lparr>memcheck_shadow := sh\<rparr>) off sz =
      Some (m\<lparr>memcheck_shadow := sh, memcheck_shadow_id := ids\<rparr>)"
      "length ids = length (memcheck_shadow_id m)"
    using clear_ids_ok[of "m\<lparr>memcheck_shadow := sh\<rparr>" "unat (c_size (cfg m))" off sz] len assms(4,5)
    by auto
  then show ?thesis using sh length_arr_write[OF sh]
    by (intro exI[of _ sh] exI[of _ ids]) (simp add: memcheck_set_range_valid_def)
qed

text \<open>What the memcheck hook may change: the two shadows and the request's memcheck sideband.\<close>

definition memcheck_frame :: "memory \<Rightarrow> heap \<Rightarrow> io_req \<Rightarrow> memory \<Rightarrow> heap \<Rightarrow> io_req \<Rightarrow> bool" where
  "memcheck_frame m h r m' h' r' \<longleftrightarrow>
     (\<exists>sh ids. m' = m\<lparr>memcheck_shadow := sh, memcheck_shadow_id := ids\<rparr> \<and>
        length sh = length (memcheck_shadow m) \<and> length ids = length (memcheck_shadow_id m)) \<and>
     (r_opcode r \<noteq> OP_READ \<or> r_memcheck_data r = 0 \<longrightarrow> h' = h) \<and>
     (\<exists>i. r' = r\<lparr>r_memcheck_data_id := i\<rparr>)"

lemma memcheck_frame_refl [simp]: "memcheck_frame m h r m h r"
  unfolding memcheck_frame_def
  by (intro conjI impI exI[of _ "memcheck_shadow m"] exI[of _ "memcheck_shadow_id m"]
      exI[of _ "r_memcheck_data_id r"]) simp_all

lemma memcheck_frameI:
  assumes "length sh = length (memcheck_shadow m)" "length ids = length (memcheck_shadow_id m)"
    "r_opcode r \<noteq> OP_READ \<or> r_memcheck_data r = 0 \<longrightarrow> h' = h"
  shows "memcheck_frame m h r (m\<lparr>memcheck_shadow := sh, memcheck_shadow_id := ids\<rparr>) h'
    (r\<lparr>r_memcheck_data_id := i\<rparr>)"
  unfolding memcheck_frame_def
proof (intro conjI)
  show "\<exists>sh' ids'. m\<lparr>memcheck_shadow := sh, memcheck_shadow_id := ids\<rparr> =
      m\<lparr>memcheck_shadow := sh', memcheck_shadow_id := ids'\<rparr> \<and>
      length sh' = length (memcheck_shadow m) \<and> length ids' = length (memcheck_shadow_id m)"
    by (rule exI[of _ sh], rule exI[of _ ids]) (simp add: assms)
  show "\<exists>i'. r\<lparr>r_memcheck_data_id := i\<rparr> = r\<lparr>r_memcheck_data_id := i'\<rparr>" by blast
qed (use assms in simp)

lemma memcheck_frame_wf: "memcheck_frame m h r m' h' r' \<Longrightarrow> mem_wf m \<Longrightarrow> mem_wf m'"
  by (auto simp: memcheck_frame_def mem_wf_def)

lemma memcheck_handle_req_ok:
  assumes wf: "mem_wf m" and on: "c_memcheck (cfg m)" "memcheck_enabled m"
    and b: "unat off + unat sz \<le> unat (c_size (cfg m))" "sz \<noteq> 0"
  shows "\<exists>m' h' r'. memcheck_handle_req m h r off sz = Some (m', h', r') \<and>
    memcheck_frame m h r m' h' r'"
proof -
  have len: "length (memcheck_shadow m) = unat (c_size (cfg m))"
    "length (memcheck_shadow_id m) = (unat (c_size (cfg m)) + 3) div 4"
    using wf on by (simp_all add: mem_wf_def)
  have slot: "unat (drop_bit 2 off) + 1 \<le> length (memcheck_shadow_id m)"
  proof -
    have "unat off < unat (c_size (cfg m))" using b unat_gt_0[of sz] by linarith
    then have "unat off div 4 + 1 \<le> (unat (c_size (cfg m)) + 3) div 4" by linarith
    then show ?thesis using len by (simp add: drop_bit_eq_div unat_div)
  qed
  consider (W) "r_opcode r = OP_WRITE" | (R) "r_opcode r = OP_READ"
    | (A) "r_opcode r \<noteq> OP_WRITE" "r_opcode r \<noteq> OP_READ" by blast
  then show ?thesis
  proof cases
    case W
    let ?bs = "if r_memcheck_data r \<noteq> 0 then heap_read h (r_memcheck_data r) (unat sz)
      else replicate (unat sz) (- 1)"
    have "unat off + length ?bs \<le> length (memcheck_shadow m)" using b len by simp
    then obtain sh where sh: "arr_write (memcheck_shadow m) (unat off) ?bs = Some sh"
      by (simp only: arr_write_def if_True)
    let ?m1 = "m\<lparr>memcheck_shadow := sh\<rparr>"
    obtain i1 where i1: "arr_write (memcheck_shadow_id m) (unat (drop_bit 2 off))
        [r_memcheck_data_id r] = Some i1" using slot by (auto simp: arr_write_def)
    obtain i2 where i2: "clear_ids ?m1 off sz = Some (?m1\<lparr>memcheck_shadow_id := i2\<rparr>)"
        "length i2 = length (memcheck_shadow_id m)"
      using clear_ids_ok[of ?m1 "unat (c_size (cfg m))" off sz] len b by auto
    let ?ids = "if sz = 4 \<and> off AND 3 = 0 then i1 else i2"
    have "memcheck_handle_req m h r off sz =
        Some (?m1\<lparr>memcheck_shadow_id := ?ids\<rparr>, h, r)"
      using W sh i1 i2 by (simp add: memcheck_handle_req_def Let_def)
    moreover have "memcheck_frame m h r (?m1\<lparr>memcheck_shadow_id := ?ids\<rparr>) h r"
      using memcheck_frameI[of sh m ?ids r h h "r_memcheck_data_id r"]
        length_arr_write[OF sh] length_arr_write[OF i1] i2(2) by simp
    ultimately show ?thesis by blast
  next
    case R
    obtain sh where sh: "arr_read (memcheck_shadow m) (unat off) (unat sz) = Some sh"
      using b len by (simp add: arr_read_def)
    obtain i1 where i1: "arr_read (memcheck_shadow_id m) (unat (drop_bit 2 off)) 1 = Some i1"
      using slot by (simp add: arr_read_def)
    let ?h = "if r_memcheck_data r \<noteq> 0 then heap_write h (r_memcheck_data r) sh else h"
    let ?i = "if sz = 4 \<and> off AND 3 = 0 then hd i1 else r_memcheck_data_id r"
    have "memcheck_handle_req m h r off sz = Some (m, ?h, r\<lparr>r_memcheck_data_id := ?i\<rparr>)"
      using R sh i1 by (simp add: memcheck_handle_req_def)
    moreover have "memcheck_frame m h r m ?h (r\<lparr>r_memcheck_data_id := ?i\<rparr>)"
      using memcheck_frameI[of "memcheck_shadow m" m "memcheck_shadow_id m" r ?h h ?i] R by simp
    ultimately show ?thesis by blast
  next
    case A
    obtain sh ids where s: "memcheck_set_range_valid m off sz =
        Some (m\<lparr>memcheck_shadow := sh, memcheck_shadow_id := ids\<rparr>)"
        "length sh = length (memcheck_shadow m)" "length ids = length (memcheck_shadow_id m)"
      using set_range_valid_ok[OF wf on b] by blast
    then show ?thesis
      using A memcheck_frameI[of sh m ids r h h "r_memcheck_data_id r"]
      by (cases "r_opcode r") (auto simp: memcheck_handle_req_def)
  qed
qed

section \<open>The request handler\<close>

text \<open>Statistics, access log and power calls leave everything else alone.\<close>

definition mem_core where
  "mem_core m = (cfg m, mem_data m, powered_up m, res_table m,
     (memcheck_enabled m, memcheck_shadow m, memcheck_shadow_id m))"

lemma front_core [simp]:
  "mem_core (count_access r m) = mem_core m"
  "mem_core (log_access c m) = mem_core m"
  "mem_core (account_energy pe r m) = mem_core m"
  by (simp_all add: mem_core_def count_access_def log_access_def account_energy_def Let_def)

lemma power_trigger_core:
  "r_data r \<noteq> 0 \<Longrightarrow> \<exists>m'. power_trigger h r off m = Some m' \<and> mem_core m' = mem_core m"
  by (simp add: power_trigger_def mem_core_def Let_def)

lemma mem_core_wf: "mem_core m' = mem_core m \<Longrightarrow> mem_wf m' = mem_wf m"
  by (simp add: mem_core_def mem_wf_def)

text \<open>
  The handler is its front end (statistics, log, power, latency), the bounds check, the memcheck
  hook and the opcode dispatch; \<open>mem_dispatch\<close> names the last part for the proofs.
\<close>

definition mem_dispatch ::
  "memory \<Rightarrow> heap \<Rightarrow> io_req \<Rightarrow> io_req \<Rightarrow> u64 \<Rightarrow> (memory \<times> heap \<times> io_req \<times> io_req_status) option" where
  "mem_dispatch m h r0 r off =
     (case r_opcode r0 of
        OP_READ \<Rightarrow> do {
          h' \<leftarrow> handle_read m h off (r_size r0) (r_data r0); Some (m, h', r, IO_REQ_DONE) }
      | OP_WRITE \<Rightarrow> do {
          m' \<leftarrow> handle_write m h off (r_size r0) (r_data r0) (r_strb r0);
          Some (m', h, r, IO_REQ_DONE) }
      | op \<Rightarrow>
          if c_atomics (cfg m) then do {
            (m', h') \<leftarrow> handle_atomic m h off (r_size r0) (r_data r0) (r_second_data r0) op
              (r_initiator r0);
            Some (m', h', r, IO_REQ_DONE) }
          else Some (m, h, r\<lparr>r_resp_status := IO_RESP_INVALID\<rparr>, IO_REQ_DONE))"

lemma mem_dispatch_ok:
  assumes wf: "mem_wf m" and b: "unat off + unat (r_size r0) \<le> unat (c_size (cfg m))"
    and acc: "mem_accepts r0"
  shows "\<exists>m' h' r'. mem_dispatch m h r0 r off = Some (m', h', r', IO_REQ_DONE) \<and>
    mem_wf m' \<and> cfg m' = cfg m \<and> length (mem_data m') = length (mem_data m) \<and>
    (r_opcode r0 \<in> {OP_READ, OP_WRITE} \<longrightarrow> r_resp_status r' = r_resp_status r)"
proof -
  obtain md where w: "handle_write m h off (r_size r0) (r_data r0) (r_strb r0) =
      Some (m\<lparr>mem_data := md\<rparr>)" "length md = length (mem_data m)"
    using handle_write_ok[OF wf b] by blast
  obtain h1 where rd: "handle_read m h off (r_size r0) (r_data r0) = Some h1"
    using handle_read_ok[OF wf b] by blast
  show ?thesis
  proof (cases "r_opcode r0 \<in> {OP_READ, OP_WRITE} \<or> \<not> c_atomics (cfg m)")
    case True
    then show ?thesis
      using w rd wf by (cases "r_opcode r0") (auto simp: mem_dispatch_def mem_wf_def)
  next
    case False
    then have "r_size r0 \<noteq> 0" "r_size r0 \<le> 8" "r_data r0 \<noteq> 0"
      using acc by (auto simp: mem_accepts_def)
    from handle_atomic_ok[OF wf b this, of h "r_second_data r0" "r_opcode r0" "r_initiator r0"]
    obtain h' md rt where a: "handle_atomic m h off (r_size r0) (r_data r0) (r_second_data r0)
        (r_opcode r0) (r_initiator r0) = Some (m\<lparr>res_table := rt, mem_data := md\<rparr>, h')"
        "length md = length (mem_data m)" by blast
    then show ?thesis
      using False wf by (cases "r_opcode r0") (auto simp: mem_dispatch_def mem_wf_def)
  qed
qed

lemma mem_req_unfold:
  assumes wf: "mem_wf m" and acc: "mem_accepts r"
  defines "off \<equiv> r_addr r AND truncate_mask (cfg m)"
    and "r1 \<equiv> r\<lparr>r_latency := r_latency r + c_latency (cfg m)\<rparr>"
  shows "\<exists>m2. mem_core m2 = mem_core m \<and>
    (c_size (cfg m) < off + r_size r \<longrightarrow>
       mem_req cyc pe m h r = Some (m2, h, r1\<lparr>r_resp_status := IO_RESP_INVALID\<rparr>, IO_REQ_DONE)) \<and>
    (\<not> c_size (cfg m) < off + r_size r \<longrightarrow>
       (\<exists>m3 h3 r3. memcheck_frame m2 h r1 m3 h3 r3 \<and>
          mem_req cyc pe m h r = mem_dispatch m3 h3 r r3 off))"
proof -
  let ?m1 = "account_energy pe r (log_access cyc (count_access r m))"
  have "r_data r1 \<noteq> 0" using acc by (simp add: r1_def mem_accepts_def)
  from power_trigger_core[OF this, of h off ?m1] obtain m2 where
    m2: "power_trigger h r1 off ?m1 = Some m2" "mem_core m2 = mem_core m" by auto
  have c2: "cfg m2 = cfg m" "memcheck_enabled m2 = memcheck_enabled m"
    using m2(2) by (simp_all add: mem_core_def)
  have wf2: "mem_wf m2" using wf m2(2) mem_core_wf by blast
  let ?mc = "if c_memcheck (cfg m2) \<and> memcheck_enabled m2
    then memcheck_handle_req m2 h r1 off (r_size r) else Some (m2, h, r1)"
  have unf: "mem_req cyc pe m h r =
    (if c_size (cfg m) < off + r_size r
     then Some (m2, h, r1\<lparr>r_resp_status := IO_RESP_INVALID\<rparr>, IO_REQ_DONE)
     else do { (m3, h3, r3) \<leftarrow> ?mc; mem_dispatch m3 h3 r r3 off })"
    using m2(1) c2 by (simp add: mem_req_def mem_dispatch_def Let_def off_def r1_def)
  have mc_ok: "\<exists>m3 h3 r3. memcheck_frame m2 h r1 m3 h3 r3 \<and> ?mc = Some (m3, h3, r3)"
    if "\<not> c_size (cfg m) < off + r_size r"
  proof (cases "c_memcheck (cfg m2) \<and> memcheck_enabled m2")
    case True
    have "unat off + unat (r_size r) \<le> unat (c_size (cfg m2))"
      using guard_in_bounds[of "r_addr r" "r_size r"] that acc
      by (simp add: off_def mem_accepts_def c2)
    then show ?thesis
      using memcheck_handle_req_ok[OF wf2, of off "r_size r" h r1] True acc
      by (auto simp: mem_accepts_def)
  next
    case False
    then show ?thesis by (metis memcheck_frame_refl)
  qed
  have "\<exists>m3 h3 r3. memcheck_frame m2 h r1 m3 h3 r3 \<and>
      mem_req cyc pe m h r = mem_dispatch m3 h3 r r3 off"
    if "\<not> c_size (cfg m) < off + r_size r"
  proof -
    from that obtain m3 h3 r3 where f: "memcheck_frame m2 h r1 m3 h3 r3" and mc: "?mc = Some (m3, h3, r3)"
      using mc_ok by blast
    have "mem_req cyc pe m h r = mem_dispatch m3 h3 r r3 off"
      using that unf unfolding mc by simp
    then show ?thesis using f by blast
  qed
  moreover have "mem_req cyc pe m h r = Some (m2, h, r1\<lparr>r_resp_status := IO_RESP_INVALID\<rparr>, IO_REQ_DONE)"
    if "c_size (cfg m) < off + r_size r" using that unf by simp
  ultimately show ?thesis using m2(2) by blast
qed

lemma mem_req_ok:
  assumes "mem_wf m" "mem_accepts r"
  shows "\<exists>m' h' r'. mem_req cyc pe m h r = Some (m', h', r', IO_REQ_DONE) \<and>
    mem_wf m' \<and> cfg m' = cfg m \<and> length (mem_data m') = length (mem_data m)"
proof -
  let ?off = "r_addr r AND truncate_mask (cfg m)"
  obtain m2 where m2: "mem_core m2 = mem_core m"
    "c_size (cfg m) < ?off + r_size r \<Longrightarrow> \<exists>r'. mem_req cyc pe m h r = Some (m2, h, r', IO_REQ_DONE)"
    "\<not> c_size (cfg m) < ?off + r_size r \<Longrightarrow> (\<exists>m3 h3 r3 r1. memcheck_frame m2 h r1 m3 h3 r3 \<and>
          mem_req cyc pe m h r = mem_dispatch m3 h3 r r3 ?off)"
    using mem_req_unfold[OF assms, of cyc pe h] by blast
  have wf2: "mem_wf m2" using assms(1) m2(1) mem_core_wf by blast
  have c2: "cfg m2 = cfg m" "length (mem_data m2) = length (mem_data m)"
    using m2(1) by (simp_all add: mem_core_def)
  show ?thesis
  proof (cases "c_size (cfg m) < ?off + r_size r")
    case True
    then show ?thesis using m2(2) wf2 c2 by blast
  next
    case False
    then obtain m3 h3 r3 r1 where f: "memcheck_frame m2 h r1 m3 h3 r3"
      "mem_req cyc pe m h r = mem_dispatch m3 h3 r r3 ?off" using m2(3) by blast
    have "mem_wf m3" using f(1) wf2 by (rule memcheck_frame_wf)
    moreover have c3: "cfg m3 = cfg m" "length (mem_data m3) = length (mem_data m)"
      using f(1) c2 by (auto simp: memcheck_frame_def)
    moreover have "unat ?off + unat (r_size r) \<le> unat (c_size (cfg m3))"
      using guard_in_bounds[of "r_addr r" "r_size r"] False assms(2) c3(1)
      by (simp add: mem_accepts_def)
    ultimately show ?thesis
      using mem_dispatch_ok[of m3 ?off r h3 r3] f(2) assms(2) by auto
  qed
qed


definition demo_cfg :: mem_config where
  "demo_cfg = \<lparr>c_size = 16, c_latency = 2, c_truncate = False, c_check = False,
     c_power_trigger = True, c_atomics = True, c_memcheck = True, c_trace = True\<rparr>"

definition demo_mem :: memory where
  "demo_mem = \<lparr>cfg = demo_cfg, mem_data = replicate 16 0, powered_up = True, free_mem = True,
     res_table = Map.empty, memcheck_enabled = True, memcheck_shadow = replicate 16 0,
     memcheck_shadow_id = replicate 4 0, last_logged_access = - 1,
     nb_logged_access_in_same_cycle = 0, stat_reads = 0, stat_writes = 0, stat_bytes_read = 0,
     stat_bytes_written = 0, engine_calls = []\<rparr>"

definition demo_req :: io_req where
  "demo_req = \<lparr>r_addr = 4, r_size = 4, r_data = 100, r_second_data = 200, r_strb = 0,
     r_is_write = True, r_opcode = OP_WRITE, r_initiator = 1, r_latency = 0,
     r_resp_status = IO_RESP_OK, r_remaining_size = 0, r_memcheck_data = 0,
     r_memcheck_data_id = 7\<rparr>"

lemma demo_mem_wf [simp]: "mem_wf demo_mem"
  by (simp add: mem_wf_def demo_mem_def demo_cfg_def)


section \<open>Functional behaviour of reads and writes\<close>

abbreviation mem_off :: "memory \<Rightarrow> io_req \<Rightarrow> u64" where
  "mem_off m r \<equiv> r_addr r AND truncate_mask (cfg m)"

definition mem_fits :: "memory \<Rightarrow> io_req \<Rightarrow> bool" where
  "mem_fits m r \<longleftrightarrow> unat (mem_off m r) + unat (r_size r) \<le> unat (c_size (cfg m))"

lemma mem_fits_guard:
  assumes "mem_accepts r"
  shows "c_size (cfg m) < mem_off m r + r_size r \<longleftrightarrow> \<not> mem_fits m r"
  using unat_masked_add[of "r_addr r" "r_size r" "truncate_mask (cfg m)"] assms
  by (simp add: mem_fits_def mem_accepts_def word_less_nat_alt not_le)

lemma mem_req_fits:
  assumes "mem_wf m" "mem_accepts r" "mem_fits m r"
  shows "\<exists>m3 h3 r3. mem_req cyc pe m h r = mem_dispatch m3 h3 r r3 (mem_off m r) \<and>
    mem_wf m3 \<and> cfg m3 = cfg m \<and> mem_data m3 = mem_data m \<and> powered_up m3 = powered_up m \<and>
    res_table m3 = res_table m \<and> r_resp_status r3 = r_resp_status r \<and>
    (r_opcode r \<noteq> OP_READ \<or> r_memcheck_data r = 0 \<longrightarrow> h3 = h)"
proof -
  let ?r1 = "r\<lparr>r_latency := r_latency r + c_latency (cfg m)\<rparr>"
  obtain m2 m3 h3 r3 where f: "mem_core m2 = mem_core m" "memcheck_frame m2 h ?r1 m3 h3 r3"
    "mem_req cyc pe m h r = mem_dispatch m3 h3 r r3 (mem_off m r)"
    using mem_req_unfold[OF assms(1,2), of cyc pe h] mem_fits_guard[OF assms(2), of m] assms(3)
    by blast
  have "mem_wf m3" using f(2) memcheck_frame_wf mem_core_wf[OF f(1)] assms(1) by blast
  moreover have "cfg m3 = cfg m" "mem_data m3 = mem_data m" "powered_up m3 = powered_up m"
    "res_table m3 = res_table m" "r_resp_status r3 = r_resp_status r"
    "r_opcode r \<noteq> OP_READ \<or> r_memcheck_data r = 0 \<longrightarrow> h3 = h"
    using f(1,2) by (auto simp: memcheck_frame_def mem_core_def)
  ultimately show ?thesis using f(3) by (intro exI[of _ m3] exI[of _ h3] exI[of _ r3] conjI)
qed

definition strobed :: "heap \<Rightarrow> io_req \<Rightarrow> nat \<Rightarrow> bool" where
  "strobed h r k \<longleftrightarrow> r_strb r = 0 \<or> h (r_strb r + k) \<noteq> 0"

lemma handle_write_nth:
  assumes wf: "mem_wf m" and b: "unat off + unat sz \<le> unat (c_size (cfg m))"
    and p: "powered_up m" "d \<noteq> 0" and w: "handle_write m h off sz d st = Some m'"
    and i: "i < unat (c_size (cfg m))"
  shows "mem_data m' ! i =
    (if unat off \<le> i \<and> i < unat off + unat sz \<and> (st = 0 \<or> h (st + (i - unat off)) \<noteq> 0)
     then h (d + (i - unat off)) else mem_data m ! i)"
proof -
  have len: "length (mem_data m) = unat (c_size (cfg m))" using wf by (simp add: mem_wf_def)
  show ?thesis
  proof (cases "st = 0")
    case True
    then obtain md where md: "arr_write (mem_data m) (unat off) (heap_read h d (unat sz)) = Some md"
      "m' = m\<lparr>mem_data := md\<rparr>"
      using w p by (auto simp: handle_write_def handle_write_bytes_def bind_eq_Some_conv)
    then show ?thesis using nth_arr_write[OF md(1), of i] i len True by auto
  next
    case False
    let ?sbs = "zip (heap_read h st (unat sz)) (heap_read h d (unat sz))"
    obtain md where md: "strobe_loop (mem_data m) (unat off) ?sbs = Some md"
      "m' = m\<lparr>mem_data := md\<rparr>"
      using w p False by (auto simp: handle_write_def bind_eq_Some_conv)
    have "unat off + length ?sbs \<le> length (mem_data m)" using b len by simp
    from strobe_loop_ok[OF this] md i len show ?thesis using False by auto
  qed
qed

lemma mem_req_write_ok:
  assumes "mem_wf m" "mem_accepts r" "mem_fits m r" "r_opcode r = OP_WRITE" "powered_up m"
  shows "\<exists>m' r'. mem_req cyc pe m h r = Some (m', h, r', IO_REQ_DONE) \<and>
    r_resp_status r' = r_resp_status r \<and> res_table m' = res_table m \<and> mem_wf m' \<and>
    cfg m' = cfg m \<and> powered_up m' \<and>
    (\<forall>i < unat (c_size (cfg m)). mem_data m' ! i =
       (if unat (mem_off m r) \<le> i \<and> i < unat (mem_off m r) + unat (r_size r) \<and>
           strobed h r (i - unat (mem_off m r))
        then h (r_data r + (i - unat (mem_off m r))) else mem_data m ! i))"
proof -
  obtain m3 h3 r3 where f: "mem_req cyc pe m h r = mem_dispatch m3 h3 r r3 (mem_off m r)"
    "mem_wf m3" "cfg m3 = cfg m" "mem_data m3 = mem_data m" "powered_up m3" "h3 = h"
    "res_table m3 = res_table m" "r_resp_status r3 = r_resp_status r"
    using mem_req_fits[OF assms(1-3), of cyc pe h] assms(4,5) by auto
  have b: "unat (mem_off m r) + unat (r_size r) \<le> unat (c_size (cfg m3))"
    using assms(3) f(3) by (simp add: mem_fits_def)
  obtain md where md: "handle_write m3 h (mem_off m r) (r_size r) (r_data r) (r_strb r) =
      Some (m3\<lparr>mem_data := md\<rparr>)" "length md = length (mem_data m3)"
    using handle_write_ok[OF f(2) b] by blast
  have d: "r_data r \<noteq> 0" using assms(2) by (simp add: mem_accepts_def)
  have "mem_req cyc pe m h r = Some (m3\<lparr>mem_data := md\<rparr>, h, r3, IO_REQ_DONE)"
    using f(1,6) md(1) assms(4) by (simp add: mem_dispatch_def)
  moreover have "md ! i = (if unat (mem_off m r) \<le> i \<and> i < unat (mem_off m r) + unat (r_size r) \<and>
           strobed h r (i - unat (mem_off m r))
        then h (r_data r + (i - unat (mem_off m r))) else mem_data m ! i)"
    if "i < unat (c_size (cfg m))" for i
  proof -
    have sel: "mem_data (m3\<lparr>mem_data := md\<rparr>) = md" by simp
    show ?thesis
      using handle_write_nth[OF f(2) b f(5) d md(1), of i] that
      by (simp only: strobed_def f sel simp_thms)
  qed
  ultimately show ?thesis
    using f md(2) by (intro exI[of _ "m3\<lparr>mem_data := md\<rparr>"] exI[of _ r3]) (auto simp: mem_wf_def)
qed

text \<open>
  C10. Functional behaviour of a write: a powered memory takes exactly the bytes the request
  enables (all of them without strobes, those with a non-zero strobe otherwise) from the
  request's buffer and keeps every other byte, the reservations and the host memory.
\<close>

theorem mem_req_write:
  assumes "mem_wf m" "mem_accepts r" "mem_fits m r" "r_opcode r = OP_WRITE" "powered_up m"
  shows "\<exists>m' r'. mem_req cyc pe m h r = Some (m', h, r', IO_REQ_DONE) \<and>
    r_resp_status r' = r_resp_status r \<and> res_table m' = res_table m \<and> mem_wf m' \<and>
    cfg m' = cfg m \<and> powered_up m' \<and>
    (\<forall>i < unat (c_size (cfg m)). mem_data m' ! i =
       (if unat (mem_off m r) \<le> i \<and> i < unat (mem_off m r) + unat (r_size r) \<and>
           strobed h r (i - unat (mem_off m r))
        then h (r_data r + (i - unat (mem_off m r))) else mem_data m ! i))"
  using assms by (rule mem_req_write_ok)

theorem mem_req_write_witness:
  "\<exists>m' r'. mem_req 0 True demo_mem (\<lambda>a. of_nat a) demo_req =
      Some (m', \<lambda>a. of_nat a, r', IO_REQ_DONE) \<and>
    r_resp_status r' = IO_RESP_OK \<and> mem_data m' ! 4 = 100 \<and> mem_data m' ! 8 = 0"
proof -
  have "mem_accepts demo_req" by (simp add: mem_accepts_def demo_req_def)
  moreover have "mem_fits demo_mem demo_req"
    by (simp add: mem_fits_def demo_mem_def demo_cfg_def demo_req_def truncate_mask_def)
  moreover have "r_opcode demo_req = OP_WRITE" "powered_up demo_mem"
    by (simp_all add: demo_req_def demo_mem_def)
  ultimately obtain m' r' where w: "mem_req 0 True demo_mem (\<lambda>a. of_nat a) demo_req =
      Some (m', \<lambda>a. of_nat a, r', IO_REQ_DONE)" "r_resp_status r' = r_resp_status demo_req"
    "\<And>i. i < unat (c_size (cfg demo_mem)) \<Longrightarrow> mem_data m' ! i =
       (if unat (mem_off demo_mem demo_req) \<le> i \<and>
           i < unat (mem_off demo_mem demo_req) + unat (r_size demo_req) \<and>
           strobed (\<lambda>a. of_nat a) demo_req (i - unat (mem_off demo_mem demo_req))
        then of_nat (r_data demo_req + (i - unat (mem_off demo_mem demo_req)))
        else mem_data demo_mem ! i)"
    using mem_req_write[OF demo_mem_wf, of demo_req 0 True "\<lambda>a. of_nat a"] by blast
  have "mem_data m' ! 4 = 100" "mem_data m' ! 8 = 0"
    using w(3)[of 4] w(3)[of 8]
    by (simp_all add: demo_mem_def demo_cfg_def demo_req_def truncate_mask_def strobed_def)
  then show ?thesis using w(1,2) by (simp add: demo_req_def)
qed

lemma mem_req_read:
  assumes "mem_wf m" "mem_accepts r" "mem_fits m r" "r_opcode r = OP_READ" "r_memcheck_data r = 0"
  shows "\<exists>m' r'. mem_req cyc pe m h r =
      Some (m', heap_write h (r_data r) (if powered_up m
        then take (unat (r_size r)) (drop (unat (mem_off m r)) (mem_data m))
        else replicate (unat (r_size r)) 0), r', IO_REQ_DONE) \<and>
    mem_data m' = mem_data m \<and> r_resp_status r' = r_resp_status r"
proof -
  obtain m3 h3 r3 where f: "mem_req cyc pe m h r = mem_dispatch m3 h3 r r3 (mem_off m r)"
    "mem_wf m3" "cfg m3 = cfg m" "mem_data m3 = mem_data m" "powered_up m3 = powered_up m" "h3 = h"
    "r_resp_status r3 = r_resp_status r"
    using mem_req_fits[OF assms(1-3), of cyc pe h] assms(5) by auto
  have "arr_read (mem_data m) (unat (mem_off m r)) (unat (r_size r)) =
      Some (take (unat (r_size r)) (drop (unat (mem_off m r)) (mem_data m)))"
    using assms(1,3) by (simp add: arr_read_def mem_wf_def mem_fits_def)
  then show ?thesis
    using f assms(2,4)
    by (auto simp: mem_dispatch_def handle_read_def handle_read_bytes_def mem_accepts_def)
qed

text \<open>
  Round trip: a write without strobes followed by a read of the same range completes both
  requests inline and leaves in the reader's buffer the bytes of the writer's buffer, whatever
  the host memory looks like in between.
\<close>

theorem mem_write_read_roundtrip:
  assumes "mem_wf m" "powered_up m"
    and w: "mem_accepts w" "mem_fits m w" "r_opcode w = OP_WRITE" "r_strb w = 0"
    and r: "mem_accepts r" "r_opcode r = OP_READ" "r_memcheck_data r = 0"
    and same: "r_addr r = r_addr w" "r_size r = r_size w"
  shows "\<exists>m1 w1 m2 h2 r2. mem_req c1 pe1 m h w = Some (m1, h, w1, IO_REQ_DONE) \<and>
    mem_req c2 pe2 m1 h1 r = Some (m2, h2, r2, IO_REQ_DONE) \<and>
    heap_read h2 (r_data r) (unat (r_size r)) = heap_read h (r_data w) (unat (r_size w))"
proof -
  obtain m1 w1 where m1: "mem_req c1 pe1 m h w = Some (m1, h, w1, IO_REQ_DONE)"
    "mem_wf m1" "cfg m1 = cfg m" "powered_up m1"
    "\<And>i. i < unat (c_size (cfg m)) \<Longrightarrow> mem_data m1 ! i =
       (if unat (mem_off m w) \<le> i \<and> i < unat (mem_off m w) + unat (r_size w) \<and>
           strobed h w (i - unat (mem_off m w))
        then h (r_data w + (i - unat (mem_off m w))) else mem_data m ! i)"
    using mem_req_write_ok[OF assms(1) w(1-3) assms(2), of c1 pe1 h] by blast
  have fits: "mem_fits m1 r" using w(2) m1(3) same by (simp add: mem_fits_def)
  let ?bs = "take (unat (r_size r)) (drop (unat (mem_off m1 r)) (mem_data m1))"
  obtain m2 r2 where m2: "mem_req c2 pe2 m1 h1 r =
      Some (m2, heap_write h1 (r_data r) ?bs, r2, IO_REQ_DONE)"
    using mem_req_read[OF m1(2) r(1) fits r(2,3), of c2 pe2 h1] m1(4) by auto
  have len: "length ?bs = unat (r_size r)"
    using m1(2) fits by (simp add: mem_wf_def mem_fits_def)
  have off: "mem_off m1 r = mem_off m w" using same m1(3) by simp
  have bnd: "unat (mem_off m w) + unat (r_size w) \<le> unat (c_size (cfg m))"
    using w(2) by (simp add: mem_fits_def)
  have "?bs = heap_read h (r_data w) (unat (r_size w))"
  proof (rule nth_equalityI)
    show "length ?bs = length (heap_read h (r_data w) (unat (r_size w)))" using len same by simp
  next
    fix i assume "i < length ?bs"
    then have i: "i < unat (r_size w)" using len same by simp
    have l1: "length (mem_data m1) = unat (c_size (cfg m))" using m1(2,3) by (simp add: mem_wf_def)
    show "?bs ! i = heap_read h (r_data w) (unat (r_size w)) ! i"
      using i bnd l1 m1(5)[of "unat (mem_off m w) + i"] w(4) same off
      by (simp add: strobed_def)
  qed
  then show ?thesis using m1(1) m2 same by (auto simp: heap_read_write_same)
qed

theorem mem_write_read_roundtrip_witness:
  "\<exists>m1 w1 m2 h2 r2. mem_req 0 True demo_mem (\<lambda>a. of_nat a) demo_req =
      Some (m1, \<lambda>a. of_nat a, w1, IO_REQ_DONE) \<and>
    mem_req 1 True m1 (\<lambda>_. 0) (demo_req\<lparr>r_opcode := OP_READ, r_is_write := False, r_data := 300\<rparr>) =
      Some (m2, h2, r2, IO_REQ_DONE) \<and>
    heap_read h2 300 4 = heap_read (\<lambda>a. of_nat a) 100 4"
  using mem_write_read_roundtrip[of demo_mem demo_req
      "demo_req\<lparr>r_opcode := OP_READ, r_is_write := False, r_data := 300\<rparr>" 0 True
      "\<lambda>a. of_nat a" 1 True "\<lambda>_. 0"]
  by (simp add: mem_wf_def mem_accepts_def mem_fits_def demo_mem_def demo_cfg_def demo_req_def
      truncate_mask_def)

section \<open>Requests outside the store\<close>

text \<open>
  Out-of-range requests: when the end address does not wrap and lies beyond the store, the
  request is answered \<^verbatim>\<open>IO_RESP_INVALID\<close> with the configured latency added, and neither the store,
  the reservations, the shadows nor host memory change.
\<close>

theorem mem_req_out_of_range:
  assumes "mem_wf m" "mem_accepts r" "\<not> mem_fits m r"
  shows "\<exists>m' r'. mem_req cyc pe m h r = Some (m', h, r', IO_REQ_DONE) \<and>
    r_resp_status r' = IO_RESP_INVALID \<and> r_latency r' = r_latency r + c_latency (cfg m) \<and>
    mem_core m' = mem_core m"
  using mem_req_unfold[OF assms(1,2), of cyc pe h] mem_fits_guard[OF assms(2), of m] assms(3)
  by auto

theorem mem_req_out_of_range_witness:
  "\<exists>m' r'. mem_req 0 True demo_mem (\<lambda>_. 0) (demo_req\<lparr>r_addr := 14\<rparr>) =
      Some (m', \<lambda>_. 0, r', IO_REQ_DONE) \<and>
    r_resp_status r' = IO_RESP_INVALID \<and> r_latency r' = 2 \<and> mem_core m' = mem_core demo_mem"
  using mem_req_out_of_range[of demo_mem "demo_req\<lparr>r_addr := 14\<rparr>" 0 True "\<lambda>_. 0"]
  by (simp add: mem_wf_def mem_accepts_def mem_fits_def demo_mem_def demo_cfg_def demo_req_def
      truncate_mask_def)

text \<open>
  The bounds check is made on the wrapped sum: a request without truncation whose end address
  wraps past \<open>2 ^ 64\<close> down to an address inside the store passes the check, and the read that
  follows runs outside the backing store (undefined behaviour of the C++ code).
\<close>

theorem mem_req_wraps_out_of_bounds:
  assumes wf: "mem_wf m" and op: "r_opcode r = OP_READ" "r_data r \<noteq> 0"
    and p: "powered_up m" "\<not> c_truncate (cfg m)" "\<not> memcheck_enabled m" "r_is_write r = False"
    and wrap: "2 ^ 64 \<le> unat (r_addr r) + unat (r_size r)" "r_addr r + r_size r \<le> c_size (cfg m)"
  shows "mem_req cyc pe m h r = None"
proof -
  let ?m1 = "account_energy pe r (log_access cyc (count_access r m))"
  have off: "mem_off m r = r_addr r" using p(2) by (simp add: truncate_mask_def)
  have core: "mem_core ?m1 = mem_core m" by simp
  then have c: "cfg ?m1 = cfg m" "powered_up ?m1 = powered_up m" "mem_data ?m1 = mem_data m"
    "memcheck_enabled ?m1 = memcheck_enabled m" unfolding mem_core_def by auto
  have "unat (c_size (cfg m)) < 2 ^ 64" by simp
  then have "unat (c_size (cfg m)) < unat (r_addr r) + unat (r_size r)"
    using wrap(1) by (rule less_le_trans)
  then have "arr_read (mem_data m) (unat (r_addr r)) (unat (r_size r)) = None"
    using wf by (simp add: arr_read_def mem_wf_def)
  then have "handle_read ?m1 h (r_addr r) (r_size r) (r_data r) = None"
    using c p(1) op(2) by (simp add: handle_read_def handle_read_bytes_def)
  then show ?thesis
    using off c wrap(2) p op by (simp add: mem_req_def power_trigger_def Let_def not_less)
qed

theorem mem_req_wraps_out_of_bounds_witness:
  "mem_req 0 True (demo_mem\<lparr>memcheck_enabled := False\<rparr>) (\<lambda>_. 0)
     (demo_req\<lparr>r_addr := - 4, r_size := 8, r_opcode := OP_READ, r_is_write := False\<rparr>) = None"
  by (rule mem_req_wraps_out_of_bounds)
    (simp_all add: mem_wf_def demo_mem_def demo_cfg_def demo_req_def)

text \<open>
  The conditions on the size are needed as well. With memcheck on, an empty write at the start of
  the memory clears the provenance of \<open>2 ^ 62\<close> words: the last slot is computed as
  \<^verbatim>\<open>(offset + size - 1) >> 2\<close>. An atomic request of more than 8 bytes is copied into an 8-byte local.
\<close>

theorem mem_req_empty_write_overruns:
  assumes wf: "mem_wf m" and on: "c_memcheck (cfg m)" "memcheck_enabled m"
    and r: "r_opcode r = OP_WRITE" "r_size r = 0" "mem_off m r = 0"
    and sz: "c_size (cfg m) < push_bit 63 1"
  shows "mem_req cyc pe m h r = None"
proof -
  let ?m1 = "account_energy pe r (log_access cyc (count_access r m))"
  let ?r1 = "r\<lparr>r_latency := r_latency r + c_latency (cfg m)\<rparr>"
  have core: "mem_core ?m1 = mem_core m" by simp
  then have c: "cfg ?m1 = cfg m" "memcheck_enabled ?m1" "memcheck_shadow ?m1 = memcheck_shadow m"
      "memcheck_shadow_id ?m1 = memcheck_shadow_id m"
    using on(2) by (simp_all only: mem_core_def prod.inject)
  have "unat (c_size (cfg m)) < 2 ^ 63" using sz by (simp add: word_less_nat_alt)
  then have "length (memcheck_shadow_id m) < 2 ^ 62" using wf on by (simp add: mem_wf_def)
  then have l: "\<not> 4611686018427387904 \<le> length (memcheck_shadow_id m)" by simp
  have "unat (drop_bit 2 (0 + 0 - 1 :: u64)) = 4611686018427387903" by (simp add: mask_eq_exp_minus_1)
  then have "memcheck_handle_req ?m1 h ?r1 0 0 = None"
    using r c l by (simp add: memcheck_handle_req_def clear_ids_def arr_write_def)
  then show ?thesis
    using r c on by (simp add: mem_req_def power_trigger_def Let_def)
qed

theorem mem_req_atomic_overruns:
  assumes "mem_wf m" "mem_fits m r" "unat (r_addr r) + unat (r_size r) < 2 ^ 64" "c_atomics (cfg m)"
    and "r_opcode r \<notin> {OP_READ, OP_WRITE}" "8 < r_size r" "\<not> (c_memcheck (cfg m) \<and> memcheck_enabled m)"
  shows "mem_req cyc pe m h r = None"
proof -
  let ?m1 = "account_energy pe r (log_access cyc (count_access r m))"
  let ?r1 = "r\<lparr>r_latency := r_latency r + c_latency (cfg m)\<rparr>"
  have "mem_core ?m1 = mem_core m" by simp
  then have c: "cfg ?m1 = cfg m" "memcheck_enabled ?m1 = memcheck_enabled m" by (simp_all only: mem_core_def prod.inject)
  have p: "power_trigger h ?r1 off ?m1 = Some ?m1" for off
    using assms(6) by (auto simp: power_trigger_def)
  have "\<not> c_size (cfg m) < mem_off m r + r_size r"
    using assms(2,3) unat_masked_add[of "r_addr r" "r_size r" "truncate_mask (cfg m)"]
    by (simp add: mem_fits_def word_less_nat_alt)
  moreover have "handle_atomic ?m1 h (mem_off m r) (r_size r) (r_data r) (r_second_data r) (r_opcode r) (r_initiator r) = None"
    using assms(6) by (simp add: handle_atomic_def)
  ultimately show ?thesis
    using p c assms(4,5,7) by (cases "r_opcode r") (auto simp: mem_req_def Let_def)
qed

section \<open>The memory as a request target\<close>

text \<open>
  The memory behind a port: its state together with the host memory it shares with its masters.
  \<open>None\<close> is the state after undefined behaviour.
\<close>

definition mem_port :: "(memory \<times> heap) option io_port" where
  "mem_port s r = (case s of None \<Rightarrow> (None, r, IO_REQ_DONE)
     | Some (m, h) \<Rightarrow> (case mem_req 0 False m h r of
         None \<Rightarrow> (None, r, IO_REQ_DONE)
       | Some (m', h', r', st) \<Rightarrow> (Some (m', h'), r', st)))"

definition mem_port_inv :: "(memory \<times> heap) option \<Rightarrow> bool" where
  "mem_port_inv s \<longleftrightarrow> (case s of None \<Rightarrow> False | Some (m, h) \<Rightarrow> mem_wf m)"

lemma mem_port_done:
  assumes "mem_port_inv s" "mem_accepts r"
  shows "\<exists>s' r'. mem_port s r = (s', r', IO_REQ_DONE) \<and> mem_port_inv s'"
proof -
  obtain m h where s: "s = Some (m, h)" "mem_wf m"
    using assms(1) by (auto simp: mem_port_inv_def split: option.splits)
  then show ?thesis
    using mem_req_ok[OF s(2) assms(2), of 0 False h] by (auto simp: mem_port_def mem_port_inv_def)
qed

interpretation mem_tgt: io_target mem_port mem_port_inv mem_accepts
proof
  fix s r s' r' st
  assume "mem_port_inv s" "mem_accepts r" "mem_port s r = (s', r', st)"
  then show "mem_port_inv s'" using mem_port_done[of s r] by auto
next
  fix s r s' r'
  assume "mem_port_inv s" "mem_accepts r" "mem_port s r = (s', r', IO_REQ_DENIED)"
  then show "r' = r" using mem_port_done[of s r] by auto
qed

end
