(* ===== verification/Memory_Atomics.thy ===== *)
theory Memory_Atomics
  imports Memory_V3_Props
begin

text \<open>
  The atomics of the SRAM model against a specification at the operand's own width. The C++ code
  computes every AMO on 64-bit integers after sign-extending both operands; the specification
  \<open>amo_spec\<close> computes on words of exactly the access width. The reservation protocol of LR/SC
  follows.
\<close>

section \<open>Sign extension does not change an AMO\<close>

fun amo_spec :: "io_opcode \<Rightarrow> 'a::len word \<Rightarrow> 'a word \<Rightarrow> 'a word option" where
  "amo_spec OP_SWAP a b = Some b"
| "amo_spec OP_ADD a b = Some (a + b)"
| "amo_spec OP_XOR a b = Some (a XOR b)"
| "amo_spec OP_AND a b = Some (a AND b)"
| "amo_spec OP_OR a b = Some (a OR b)"
| "amo_spec OP_MIN a b = Some (if sint a \<le> sint b then a else b)"
| "amo_spec OP_MAX a b = Some (if sint a \<le> sint b then b else a)"
| "amo_spec OP_MINU a b = Some (min a b)"
| "amo_spec OP_MAXU a b = Some (max a b)"
| "amo_spec _ a b = None"

lemma sint_scast:
  assumes "LENGTH('a) \<le> LENGTH('b)"
  shows "sint (scast (w :: 'a::len word) :: 'b::len word) = sint w"
proof -
  have "sint (scast w :: 'b word) = signed_take_bit (LENGTH('b) - 1) (sint w)"
    by (subst scast_eq) (rule sint_sbintrunc')
  also have "\<dots> = sint w"
  proof (rule signed_take_bit_int_eq_self)
    have "(2::int) ^ (LENGTH('a) - 1) \<le> 2 ^ (LENGTH('b) - 1)"
      using assms by (intro power_increasing) auto
    then show "- (2 ^ (LENGTH('b) - 1)) \<le> sint w" "sint w < 2 ^ (LENGTH('b) - 1)"
      using sint_ge[of w] sint_lt[of w] by linarith+
  qed
  finally show ?thesis .
qed

lemma scast_less_iff:
  assumes "LENGTH('a) \<le> LENGTH('b)"
  shows "(scast (a :: 'a::len word) :: 'b::len word) < scast b \<longleftrightarrow> a < b"
proof -
  have bnd: "- (2 ^ LENGTH('a)) \<le> sint w \<and> sint w < 2 ^ LENGTH('a)" for w :: "'a word"
  proof -
    have "(2::int) ^ (LENGTH('a) - 1) \<le> 2 ^ LENGTH('a)" by (intro power_increasing) auto
    then show ?thesis using sint_ge[of w] sint_lt[of w] by linarith
  qed
  have le: "(2::int) ^ LENGTH('a) \<le> 2 ^ LENGTH('b)" using assms by (intro power_increasing) auto
  have bnd1: "sint w < 2 ^ (LENGTH('a) - 1) \<and> - (2 ^ (LENGTH('a) - 1)) \<le> sint w" for w :: "'a word"
    using sint_ge[of w] sint_lt[of w] by auto
  have p: "(2::int) ^ LENGTH('a) = 2 * 2 ^ (LENGTH('a) - 1)" by (simp flip: power_Suc)
  show ?thesis
    unfolding word_less_def uint_eq_sint sint_scast[OF assms]
    using bnd1[of a] bnd1[of b] le p by auto
qed

lemma get_signed_value_scast:
  assumes "LENGTH('a) = 8 * length bs" "length bs \<le> 8"
  shows "get_signed_value (from_le bs) (length bs * 8) = scast (from_le bs :: 'a::len word)"
proof (rule bit_word_eqI)
  fix k assume k: "k < LENGTH(64)"
  have n: "0 < length bs" using assms(1) by (metis len_gt_0 mult_0_right neq0_conv)
  let ?s = "64 - length bs * 8"
  have s: "?s + length bs * 8 = 64" using assms(2) by simp
  have len: "LENGTH('a) = length bs * 8" using assms(1) by simp
  have "k = length bs * 8 - 1" if "\<not> length bs * 8 \<le> k" "length bs * 8 - 1 \<le> k"
    using that by simp
  then show "bit (get_signed_value (from_le bs) (length bs * 8)) k =
      bit (scast (from_le bs :: 'a word) :: u64) k"
    using k len n s
    by (auto simp: get_signed_value_def bit_signed_drop_bit_iff bit_push_bit_iff bit_from_le
        bit_signed_iff min_def split: if_splits)
qed


lemma amo_result_scast:
  fixes a b :: "'a::len word"
  assumes "LENGTH('a) \<le> 64" "amo_spec op a b = Some c"
  shows "\<exists>v. amo_result op (scast a) (scast b) = Some v \<and> ucast v = c"
proof -
  have len: "LENGTH('a) \<le> LENGTH(64)" using assms(1) by simp
  have id: "ucast (scast w :: u64) = w" for w :: "'a word"
  proof (rule bit_word_eqI)
    fix n assume n: "n < LENGTH('a)"
    then have "min n (LENGTH('a) - Suc 0) = n" by simp
    then show "bit (ucast (scast w :: u64) :: 'a word) n = bit w n"
      using n assms(1) by (simp add: bit_ucast_iff bit_signed_iff)
  qed
  have "ucast (x + y :: u64) = (ucast x + ucast y :: 'a word)" for x y
  proof -
    have "(2::int) ^ LENGTH('a) dvd 2 ^ 64" using assms(1) by (rule le_imp_power_dvd)
    then show ?thesis
      by (simp add: word_uint_eq_iff unsigned_ucast_eq uint_word_ariths take_bit_eq_mod
          mod_mod_cancel mod_simps)
  qed
  then have add: "ucast (scast a + scast b :: u64) = a + b" using id by simp
  have "a = b" if "sint a = sint b" using that by (rule signed_word_eqI)
  then show ?thesis
    using assms(2) id add
    by (cases op)
      (auto simp: word_sless_alt sint_scast[OF len] scast_less_iff[OF len] min_def max_def
        not_le unsigned_and_eq unsigned_or_eq unsigned_xor_eq)
qed

lemma to_le_ucast:
  assumes "8 * n \<le> LENGTH('a::len)" "LENGTH('a) \<le> LENGTH('b::len)"
  shows "to_le n (ucast (v :: 'b word) :: 'a word) = to_le n v"
proof (rule nth_equalityI)
  show "length (to_le n (ucast v :: 'a word)) = length (to_le n v)" by simp
next
  fix i assume "i < length (to_le n (ucast v :: 'a word))"
  then have i: "i < n" by simp
  show "to_le n (ucast v :: 'a word) ! i = to_le n v ! i"
  proof (rule bit_word_eqI)
    fix k assume "k < LENGTH(8)"
    then have "8 * i + k < LENGTH('a)" using i assms(1) by simp
    then show "bit (to_le n (ucast v :: 'a word) ! i) k = bit (to_le n v ! i) k"
      using i assms(2) by (simp add: bit_ucast_iff bit_drop_bit_eq)
  qed
qed

lemma to_le_scast:
  assumes "LENGTH('a::len) = 8 * length bs" "LENGTH('a) \<le> 64"
  shows "to_le (length bs) (scast (from_le bs :: 'a word) :: u64) = bs"
proof -
  have "to_le (length bs) (scast (from_le bs :: 'a word) :: u64) =
      to_le (length bs) (ucast (scast (from_le bs :: 'a word) :: u64) :: 'a word)"
    using assms by (simp add: to_le_ucast)
  also have "ucast (scast (from_le bs :: 'a word) :: u64) = (from_le bs :: 'a word)"
    using amo_result_scast[OF assms(2), of OP_SWAP "0" "from_le bs"] by simp
  also have "to_le (length bs) (from_le bs :: 'a word) = bs"
    using assms(1) by (simp add: to_le_from_le)
  finally show ?thesis .
qed

section \<open>AMO requests\<close>

text \<open>The operands as the code computes them are the sign-extended operands of the access width.\<close>

lemma ext_scast:
  assumes "LENGTH('a::len) = 8 * unat sz" "sz \<le> (8 :: u64)" "length bs = unat sz"
  shows "(if sz < 8 then get_signed_value (from_le bs) (unat sz * 8) else from_le bs) =
    (scast (from_le bs :: 'a word) :: u64)"
proof (cases "sz < 8")
  case True
  have "unat sz \<le> 8" using assms(2) by (simp add: word_le_nat_alt)
  then show ?thesis using True assms get_signed_value_scast[where 'a = 'a, of bs] by simp
next
  case False
  then have "sz = 8" using assms(2) by simp
  then have L: "LENGTH('a) = 64" using assms(1) by simp
  have "scast (from_le bs :: 'a word) = (from_le bs :: u64)"
  proof (rule bit_word_eqI)
    fix n assume "n < LENGTH(64)"
    then have "n < 64" "min n (LENGTH('a) - Suc 0) = n" using L by auto
    then show "bit (scast (from_le bs :: 'a word) :: u64) n = bit (from_le bs :: u64) n"
      using L by (simp add: bit_signed_iff bit_from_le)
  qed
  then show ?thesis using False by simp
qed

lemma handle_atomic_amo:
  assumes wf: "mem_wf m" and b: "unat a + unat sz \<le> unat (c_size (cfg m))"
    and sz: "sz \<noteq> 0" "sz \<le> 8" and d: "d \<noteq> 0" and p: "powered_up m"
    and L: "LENGTH('a::len) = 8 * unat sz"
    and old: "arr_read (mem_data m) (unat a) (unat sz) = Some old"
    and spec: "amo_spec op (from_le old :: 'a word) (from_le (heap_read h d (unat sz))) = Some c"
  shows "\<exists>md. handle_atomic m h a sz d out op ini =
      Some (m\<lparr>mem_data := md\<rparr>, if out \<noteq> 0 then heap_write h out old else h) \<and>
    arr_write (mem_data m) (unat a) (to_le (unat sz) c) = Some md"
proof -
  have n8: "unat sz \<le> 8" using sz(2) by (simp add: word_le_nat_alt)
  then have L64: "LENGTH('a) \<le> 64" using L by simp
  have ol: "length old = unat sz" using old by (rule length_arr_read)
  obtain v where v: "amo_result op (scast (from_le old :: 'a word))
      (scast (from_le (heap_read h d (unat sz)) :: 'a word)) = Some v" "ucast v = c"
    using amo_result_scast[OF L64 spec] by blast
  have nolr: "op \<noteq> OP_LR" "op \<noteq> OP_SC" using spec by auto
  have tv: "to_le (unat sz) v = to_le (unat sz) c"
    using to_le_ucast[where 'a = 'a, of "unat sz" v] L L64 v(2) by simp
  obtain md where md: "arr_write (mem_data m) (unat a) (to_le (unat sz) c) = Some md"
    using wf b by (auto simp: arr_write_def mem_wf_def)
  have step: "atomic_step (res_table m) op ini a sz (scast (from_le old :: 'a word))
      (scast (from_le (heap_read h d (unat sz)) :: 'a word)) =
      Some (res_table m, scast (from_le old :: 'a word), Some v)"
    using nolr v(1) by (cases op) (simp_all add: atomic_step_def)
  have pb: "handle_read_bytes m a sz = Some old" using p old by (simp add: handle_read_bytes_def)
  have out: "to_le (unat sz) (scast (from_le old :: 'a word) :: u64) = old"
    using to_le_scast[where 'a = 'a, of old] L L64 ol by simp
  have g: "\<not> (d = 0 \<or> sz = 0 \<or> 8 < sz)" using sz d by (simp add: not_less)
  have "handle_write_bytes (m\<lparr>res_table := res_table m\<rparr>) a (to_le (unat sz) v) =
      Some (m\<lparr>mem_data := md\<rparr>)"
    using p md tv by (simp add: handle_write_bytes_def)
  then have "handle_atomic m h a sz d out op ini =
      Some (m\<lparr>mem_data := md\<rparr>, if out \<noteq> 0 then heap_write h out old else h)"
    using ext_scast[where 'a = 'a, OF L sz(2) ol]
      ext_scast[where 'a = 'a, OF L sz(2) length_heap_read, of h d] g
    by (simp only: handle_atomic_def if_False pb bind.bind_lunit Let_def step option.case prod.case out)
  then show ?thesis using md by blast
qed

text \<open>
  Atomic read-modify-write: for any access width of 1 to 8 bytes, an AMO request returns the
  old value in the second buffer, stores the result the opcode has at exactly that width (the
  signed and unsigned minimum and maximum included) and leaves every other byte, the reservations
  and the status alone.
\<close>

theorem mem_req_amo:
  fixes c :: "'a::len word"
  assumes "mem_wf m" "mem_accepts r" "mem_fits m r" "powered_up m" "c_atomics (cfg m)"
    and "LENGTH('a) = 8 * unat (r_size r)" "r_second_data r \<noteq> 0"
    and "arr_read (mem_data m) (unat (mem_off m r)) (unat (r_size r)) = Some old"
    and "amo_spec (r_opcode r) (from_le old) (from_le (heap_read h (r_data r) (unat (r_size r)))) =
      Some c"
  shows "\<exists>m' h' r'. mem_req cyc pe m h r = Some (m', h', r', IO_REQ_DONE) \<and>
    heap_read h' (r_second_data r) (unat (r_size r)) = old \<and>
    arr_write (mem_data m) (unat (mem_off m r)) (to_le (unat (r_size r)) c) = Some (mem_data m') \<and>
    res_table m' = res_table m \<and> r_resp_status r' = r_resp_status r"
proof -
  have op: "r_opcode r \<noteq> OP_READ" "r_opcode r \<noteq> OP_WRITE" using assms(9) by auto
  then have acc: "r_size r \<noteq> 0" "r_size r \<le> 8" "r_data r \<noteq> 0"
    using assms(2) by (auto simp: mem_accepts_def)
  obtain m3 r3 where f: "mem_req cyc pe m h r = mem_dispatch m3 h r r3 (mem_off m r)"
    "mem_wf m3" "cfg m3 = cfg m" "mem_data m3 = mem_data m" "powered_up m3"
    "res_table m3 = res_table m" "r_resp_status r3 = r_resp_status r"
    using mem_req_fits[OF assms(1-3), of cyc pe h] assms(4) op by auto
  have b: "unat (mem_off m r) + unat (r_size r) \<le> unat (c_size (cfg m3))"
    using assms(3) f(3) by (simp add: mem_fits_def)
  have old3: "arr_read (mem_data m3) (unat (mem_off m r)) (unat (r_size r)) = Some old"
    using assms(8) f(4) by simp
  from handle_atomic_amo[OF f(2) b acc f(5) assms(6) old3 assms(9), of "r_second_data r" "r_initiator r"]
  obtain md where md: "handle_atomic m3 h (mem_off m r) (r_size r) (r_data r) (r_second_data r)
      (r_opcode r) (r_initiator r) = Some (m3\<lparr>mem_data := md\<rparr>, heap_write h (r_second_data r) old)"
      "arr_write (mem_data m) (unat (mem_off m r)) (to_le (unat (r_size r)) c) = Some md"
    using assms(7) f(4) by auto
  have "mem_req cyc pe m h r =
      Some (m3\<lparr>mem_data := md\<rparr>, heap_write h (r_second_data r) old, r3, IO_REQ_DONE)"
    using f(1,3) md(1) op assms(5) by (cases "r_opcode r") (simp_all add: mem_dispatch_def)
  then show ?thesis
    using md(2) f(6,7) length_arr_read[OF assms(8)] by (auto simp: heap_read_write_same)
qed

theorem mem_req_amo_witness:
  "\<exists>m' h' r'. mem_req 0 True (demo_mem\<lparr>mem_data := replicate 16 0xff\<rparr>) (\<lambda>_. 1)
      (demo_req\<lparr>r_opcode := OP_MINU\<rparr>) = Some (m', h', r', IO_REQ_DONE) \<and>
    heap_read h' 200 4 = replicate 4 0xff \<and>
    arr_write (replicate 16 0xff) 4 (to_le 4 (0x01010101 :: u32)) = Some (mem_data m')"
proof -
  let ?m = "demo_mem\<lparr>mem_data := replicate 16 0xff\<rparr>" and ?r = "demo_req\<lparr>r_opcode := OP_MINU\<rparr>"
  have hr: "heap_read (\<lambda>_. 1) 100 4 = [1, 1, 1, 1]" by (simp add: heap_read_def upt_rec)
  have spec: "amo_spec OP_MINU (from_le (replicate 4 0xff) :: u32) (from_le [1, 1, 1, 1]) =
      Some 0x01010101" by code_simp
  have "mem_wf ?m" by (simp add: mem_wf_def demo_mem_def demo_cfg_def)
  moreover have "mem_accepts ?r" by (simp add: mem_accepts_def demo_req_def)
  moreover have "mem_fits ?m ?r"
    by (simp add: mem_fits_def demo_mem_def demo_cfg_def demo_req_def truncate_mask_def)
  moreover have "powered_up ?m" "c_atomics (cfg ?m)" "LENGTH(32) = 8 * unat (r_size ?r)"
    "r_second_data ?r \<noteq> 0" by (simp_all add: demo_mem_def demo_cfg_def demo_req_def)
  moreover have "arr_read (mem_data ?m) (unat (mem_off ?m ?r)) (unat (r_size ?r)) =
      Some (replicate 4 0xff)"
    by (simp add: demo_mem_def demo_cfg_def demo_req_def truncate_mask_def arr_read_def)
  moreover have "amo_spec (r_opcode ?r) (from_le (replicate 4 0xff))
      (from_le (heap_read (\<lambda>_. 1) (r_data ?r) (unat (r_size ?r)))) = Some (0x01010101 :: u32)"
    using spec hr by (simp add: demo_req_def)
  ultimately have "\<exists>m' h' r'. mem_req 0 True ?m (\<lambda>_. 1) ?r = Some (m', h', r', IO_REQ_DONE) \<and>
    heap_read h' (r_second_data ?r) (unat (r_size ?r)) = replicate 4 0xff \<and>
    arr_write (mem_data ?m) (unat (mem_off ?m ?r)) (to_le (unat (r_size ?r)) (0x01010101 :: u32)) =
      Some (mem_data m') \<and>
    res_table m' = res_table ?m \<and> r_resp_status r' = r_resp_status ?r"
    by (rule mem_req_amo)
  moreover have "r_second_data ?r = 200" "unat (r_size ?r) = 4" "mem_data ?m = replicate 16 0xff"
    "unat (mem_off ?m ?r) = 4"
    by (simp_all add: demo_mem_def demo_cfg_def demo_req_def truncate_mask_def)
  ultimately show ?thesis by metis
qed

section \<open>Load-reserved and store-conditional\<close>

lemma handle_atomic_res_table:
  assumes "handle_atomic m h a sz d out op ini = Some (m', h')"
  shows "res_table m' = res_table m \<or> (op = OP_LR \<and> res_table m' = (res_table m)(ini \<mapsto> a)) \<or>
    (op = OP_SC \<and> res_table m ini = Some a \<and> res_table m' = break_reservations (res_table m) a sz)"
proof -
  have hw: "handle_write_bytes n off bs = Some n' \<Longrightarrow> res_table n' = res_table n" for n off bs n'
    by (auto simp: handle_write_bytes_def bind_eq_Some_conv split: if_splits)
  have g: "\<not> (d = 0 \<or> sz = 0 \<or> 8 < sz)"
  proof
    assume "d = 0 \<or> sz = 0 \<or> 8 < sz"
    then have "handle_atomic m h a sz d out op ini = None" by (simp only: handle_atomic_def if_True)
    then show False using assms by simp
  qed
  obtain pb where pb: "handle_read_bytes m a sz = Some pb"
    using assms g by (cases "handle_read_bytes m a sz") (auto simp: handle_atomic_def Let_def)
  define stp where "stp = atomic_step (res_table m) op ini a sz
    (if sz < 8 then get_signed_value (from_le pb) (unat sz * 8) else from_le pb)
    (if sz < 8 then get_signed_value (from_le (heap_read h d (unat sz))) (unat sz * 8)
     else from_le (heap_read h d (unat sz)))"
  have unf: "(case stp of None \<Rightarrow> Some (m, h) | Some (rt, ov, res) \<Rightarrow>
       (case res of None \<Rightarrow> Some (m\<lparr>res_table := rt\<rparr>,
            if out \<noteq> 0 then heap_write h out (to_le (unat sz) ov) else h)
        | Some v \<Rightarrow> do { m'' \<leftarrow> handle_write_bytes (m\<lparr>res_table := rt\<rparr>) a (to_le (unat sz) v);
            Some (m'', if out \<noteq> 0 then heap_write h out (to_le (unat sz) ov) else h) }))
      = Some (m', h')"
    using assms g by (simp only: handle_atomic_def if_False pb bind.bind_lunit Let_def stp_def)
  have rt: "rt = res_table m \<or> (op = OP_LR \<and> rt = (res_table m)(ini \<mapsto> a)) \<or>
      (op = OP_SC \<and> res_table m ini = Some a \<and> rt = break_reservations (res_table m) a sz)"
    if "stp = Some (rt, ov, res)" for rt ov res
    using that unfolding stp_def atomic_step_def by (cases op) (auto split: if_splits)
  show ?thesis
  proof (cases stp)
    case None
    then show ?thesis using unf by simp
  next
    case (Some q)
    obtain rtq ov res where q: "q = (rtq, ov, res)" by (cases q) auto
    have "res_table m' = rtq"
      using unf Some q hw by (cases res) (auto simp: bind_eq_Some_conv)
    then show ?thesis using rt Some q by blast
  qed
qed

text \<open>
  No request but a load-reserved by the same initiator at the same address can create a
  reservation: a lost reservation stays lost.
\<close>

lemma break_reservations_none:
  "rt j \<noteq> Some v \<Longrightarrow> v \<noteq> - 1 \<Longrightarrow> break_reservations rt a sz j \<noteq> Some v"
  by (auto simp: break_reservations_def split: if_splits)

lemma handle_write_res_table:
  "handle_write n hh off sz d sb = Some n' \<Longrightarrow> res_table n' = res_table n"
  by (auto simp: handle_write_def handle_write_bytes_def bind_eq_Some_conv split: if_splits)

lemma mem_req_keeps_lost:
  assumes "mem_wf m" "mem_accepts r" "mem_req cyc pe m h r = Some (m', h', r', st)"
    and "res_table m j \<noteq> Some v" "v \<noteq> - 1"
    and "\<not> (r_opcode r = OP_LR \<and> r_initiator r = j \<and> mem_off m r = v)"
  shows "res_table m' j \<noteq> Some v"
proof (cases "mem_fits m r")
  case False
  then have "c_size (cfg m) < mem_off m r + r_size r" using mem_fits_guard[OF assms(2)] by blast
  then have "mem_core m' = mem_core m"
    using mem_req_unfold[OF assms(1,2), of cyc pe h] assms(3) by auto
  then show ?thesis using assms(4) by (simp add: mem_core_def)
next
  case True
  obtain m3 h3 r3 where f: "mem_req cyc pe m h r = mem_dispatch m3 h3 r r3 (mem_off m r)"
    "res_table m3 = res_table m"
    using mem_req_fits[OF assms(1,2) True, of cyc pe h] by blast
  have d: "mem_dispatch m3 h3 r r3 (mem_off m r) = Some (m', h', r', st)" using assms(3) f(1) by simp
  show ?thesis
  proof (cases "r_opcode r \<in> {OP_READ, OP_WRITE} \<or> \<not> c_atomics (cfg m3)")
    case True
    then have "res_table m' = res_table m3"
      using d handle_write_res_table by (cases "r_opcode r") (auto simp: mem_dispatch_def bind_eq_Some_conv)
    then show ?thesis using f(2) assms(4) by simp
  next
    case False
    then obtain h'' where a: "handle_atomic m3 h3 (mem_off m r) (r_size r) (r_data r)
        (r_second_data r) (r_opcode r) (r_initiator r) = Some (m', h'')"
      using d by (cases "r_opcode r") (auto simp: mem_dispatch_def bind_eq_Some_conv)
    show ?thesis
      using handle_atomic_res_table[OF a] f(2) assms(4,5,6) break_reservations_none[of "res_table m" j v]
      by (auto split: if_splits)
  qed
qed

text \<open>A run of requests: the memory and the host memory after serving them in order.\<close>

fun mem_run :: "memory \<Rightarrow> heap \<Rightarrow> io_req list \<Rightarrow> (memory \<times> heap) option" where
  "mem_run m h [] = Some (m, h)"
| "mem_run m h (r # rs) = do { (m', h', _, _) \<leftarrow> mem_req 0 False m h r; mem_run m' h' rs }"

lemma mem_run_keeps_lost:
  assumes "mem_wf m" "\<forall>r \<in> set rs. mem_accepts r" "res_table m j \<noteq> Some v" "v \<noteq> - 1"
    "\<forall>r \<in> set rs. \<not> (r_opcode r = OP_LR \<and> r_initiator r = j \<and> mem_off m r = v)"
  shows "\<exists>m' h'. mem_run m h rs = Some (m', h') \<and> mem_wf m' \<and> cfg m' = cfg m \<and>
    res_table m' j \<noteq> Some v"
  using assms
proof (induction rs arbitrary: m h)
  case Nil
  then show ?case by simp
next
  case (Cons r rs)
  obtain m1 h1 r1 where s: "mem_req 0 False m h r = Some (m1, h1, r1, IO_REQ_DONE)" "mem_wf m1"
    "cfg m1 = cfg m" using mem_req_ok[of m r 0 False h] Cons.prems by auto
  have "res_table m1 j \<noteq> Some v"
    using mem_req_keeps_lost[OF _ _ s(1)] Cons.prems by simp
  then show ?case using Cons.IH[of m1 h1] Cons.prems s by simp
qed

definition sc_ok :: "memory \<Rightarrow> io_req \<Rightarrow> bool" where
  "sc_ok m r \<longleftrightarrow> res_table m (r_initiator r) = Some (mem_off m r)"

text \<open>The two outcomes of a store-conditional.\<close>

lemma mem_req_sc:
  assumes "mem_wf m" "mem_accepts r" "mem_fits m r" "c_atomics (cfg m)" "r_opcode r = OP_SC"
    "r_second_data r \<noteq> 0"
  shows "\<exists>m' h' r'. mem_req cyc pe m h r = Some (m', h', r', IO_REQ_DONE) \<and> mem_wf m' \<and>
    cfg m' = cfg m \<and>
    heap_read h' (r_second_data r) (unat (r_size r)) =
      to_le (unat (r_size r)) (if sc_ok m r then 0 else 1 :: u64) \<and>
    (\<not> sc_ok m r \<longrightarrow> mem_data m' = mem_data m \<and> res_table m' = res_table m) \<and>
    (sc_ok m r \<longrightarrow> res_table m' = break_reservations (res_table m) (mem_off m r) (r_size r))"
proof -
  have acc: "r_size r \<noteq> 0" "r_size r \<le> 8" "r_data r \<noteq> 0"
    using assms(2,5) by (auto simp: mem_accepts_def)
  obtain m3 r3 where f: "mem_req cyc pe m h r = mem_dispatch m3 h r r3 (mem_off m r)"
    "mem_wf m3" "cfg m3 = cfg m" "mem_data m3 = mem_data m" "res_table m3 = res_table m"
    using mem_req_fits[OF assms(1-3), of cyc pe h] assms(5) by auto
  have b: "unat (mem_off m r) + unat (r_size r) \<le> unat (c_size (cfg m3))"
    using assms(3) f(3) by (simp add: mem_fits_def)
  obtain pb where pb: "handle_read_bytes m3 (mem_off m r) (r_size r) = Some pb"
    using handle_read_bytes_ok[OF f(2) b] by blast
  define ext where "ext = (\<lambda>v :: u64. if r_size r < 8 then get_signed_value v (unat (r_size r) * 8) else v)"
  let ?n = "unat (r_size r)" and ?opd = "ext (from_le (heap_read h (r_data r) (unat (r_size r))))"
  let ?rt = "break_reservations (res_table m) (mem_off m r) (r_size r)"
  have g: "\<not> (r_data r = 0 \<or> r_size r = 0 \<or> 8 < r_size r)" using acc by (simp add: not_less)
  have "mem_wf (m3\<lparr>res_table := ?rt\<rparr>)" using f(2) by (simp add: mem_wf_def)
  from handle_write_bytes_ok[OF this, of "mem_off m r" "to_le ?n ?opd"] b obtain md where
    md: "handle_write_bytes (m3\<lparr>res_table := ?rt\<rparr>) (mem_off m r) (to_le ?n ?opd) =
      Some (m3\<lparr>res_table := ?rt, mem_data := md\<rparr>)" "length md = length (mem_data m3)" by auto
  have ha: "handle_atomic m3 h (mem_off m r) (r_size r) (r_data r) (r_second_data r) OP_SC (r_initiator r) =
    Some (if sc_ok m r then m3\<lparr>res_table := ?rt, mem_data := md\<rparr> else m3\<lparr>res_table := res_table m\<rparr>,
      heap_write h (r_second_data r) (to_le ?n (if sc_ok m r then 0 else 1 :: u64)))"
    unfolding handle_atomic_def
    using g pb md(1) assms(6) f(5)
    by (simp add: Let_def atomic_step_def sc_ok_def ext_def)
  have "mem_req cyc pe m h r = Some (if sc_ok m r then m3\<lparr>res_table := ?rt, mem_data := md\<rparr>
      else m3\<lparr>res_table := res_table m\<rparr>,
      heap_write h (r_second_data r) (to_le ?n (if sc_ok m r then 0 else 1 :: u64)), r3, IO_REQ_DONE)"
    using f(1,3) ha assms(4,5) by (simp add: mem_dispatch_def)
  then show ?thesis using f(2-5) md(2) by (auto simp: heap_read_write_same mem_wf_def)
qed

text \<open>
  C12. Exclusivity of store-conditional: once one initiator's store-conditional has succeeded, any
  later store-conditional at any address of the bytes it wrote, by any initiator (the same one
  included) that issued no new load-reserved at that address in between, fails: it returns 1 and
  leaves memory alone, whatever other requests were served in the meantime.
\<close>

theorem sc_exclusive:
  assumes wf: "mem_wf m" "c_atomics (cfg m)"
    and s1: "mem_accepts s1" "mem_fits m s1" "r_opcode s1 = OP_SC" "r_second_data s1 \<noteq> 0" "sc_ok m s1"
    and rs: "\<forall>r \<in> set rs. mem_accepts r \<and>
      \<not> (r_opcode r = OP_LR \<and> r_initiator r = r_initiator s2 \<and> mem_off m r = mem_off m s2)"
    and s2: "mem_accepts s2" "mem_fits m s2" "r_opcode s2 = OP_SC" "r_second_data s2 \<noteq> 0"
      "mem_off m s1 \<le> mem_off m s2" "mem_off m s2 < mem_off m s1 + r_size s1"
  shows "\<exists>m1 h1 r1 m2 h2 m3 h3 r3. mem_req 0 False m h s1 = Some (m1, h1, r1, IO_REQ_DONE) \<and>
    mem_run m1 h1 rs = Some (m2, h2) \<and> mem_req 0 False m2 h2 s2 = Some (m3, h3, r3, IO_REQ_DONE) \<and>
    heap_read h3 (r_second_data s2) (unat (r_size s2)) = to_le (unat (r_size s2)) (1 :: u64) \<and>
    mem_data m3 = mem_data m2"
proof -
  obtain m1 h1 r1 where m1: "mem_req 0 False m h s1 = Some (m1, h1, r1, IO_REQ_DONE)" "mem_wf m1"
    "cfg m1 = cfg m" "res_table m1 = break_reservations (res_table m) (mem_off m s1) (r_size s1)"
    using mem_req_sc[OF wf(1) s1(1,2) wf(2) s1(3,4), of 0 False h] s1(5) by auto
  have neg: "mem_off m s2 \<noteq> - 1" using s2(6) word_not_simps(3) by metis
  have lost: "res_table m1 (r_initiator s2) \<noteq> Some (mem_off m s2)"
    using m1(4) neg s2(5,6) by (auto simp: break_reservations_def split: if_splits)
  obtain m2 h2 where m2: "mem_run m1 h1 rs = Some (m2, h2)" "mem_wf m2" "cfg m2 = cfg m"
    "res_table m2 (r_initiator s2) \<noteq> Some (mem_off m s2)"
    using mem_run_keeps_lost[OF m1(2) _ lost, of rs h1] rs neg m1(3) by auto
  have "\<not> sc_ok m2 s2" using m2(3,4) by (simp add: sc_ok_def)
  moreover have "mem_fits m2 s2" using s2(2) m2(3) by (simp add: mem_fits_def)
  ultimately show ?thesis
    using mem_req_sc[OF m2(2) s2(1) _ _ s2(3,4), of 0 False h2] wf(2) m2(1,3) m1(1) by auto
qed

theorem sc_exclusive_witness:
  "\<exists>m1 h1 r1 m2 h2 m3 h3 r3.
    mem_req 0 False (demo_mem\<lparr>res_table := [1 \<mapsto> 4, 2 \<mapsto> 6]\<rparr>) (\<lambda>_. 5)
      (demo_req\<lparr>r_opcode := OP_SC\<rparr>) = Some (m1, h1, r1, IO_REQ_DONE) \<and>
    mem_run m1 h1 [demo_req] = Some (m2, h2) \<and>
    mem_req 0 False m2 h2 (demo_req\<lparr>r_opcode := OP_SC, r_addr := 6, r_size := 2, r_initiator := 2\<rparr>) =
      Some (m3, h3, r3, IO_REQ_DONE) \<and>
    heap_read h3 200 2 = to_le 2 (1 :: u64) \<and> mem_data m3 = mem_data m2"
  using sc_exclusive[of "demo_mem\<lparr>res_table := [1 \<mapsto> 4, 2 \<mapsto> 6]\<rparr>" "demo_req\<lparr>r_opcode := OP_SC\<rparr>"
      "[demo_req]" "demo_req\<lparr>r_opcode := OP_SC, r_addr := 6, r_size := 2, r_initiator := 2\<rparr>" "\<lambda>_. 5"]
  by (simp add: mem_wf_def mem_accepts_def mem_fits_def sc_ok_def demo_mem_def demo_cfg_def
      demo_req_def truncate_mask_def)

text \<open>
  A store, and every atomic operation but a store-conditional, leaves the reservations of other
  initiators alone, also on its own bytes: their store-conditional still succeeds. So does one whose
  reservation starts below the bytes that another store-conditional wrote, although it covers them.
\<close>

theorem reservation_survives_store:
  assumes "mem_wf m" "mem_accepts r" "mem_req cyc pe m h r = Some (m', h', r', st)"
    "r_opcode r \<noteq> OP_SC" "r_initiator r \<noteq> j"
  shows "res_table m' j = res_table m j"
proof (cases "mem_fits m r")
  case False
  then have "c_size (cfg m) < mem_off m r + r_size r" using mem_fits_guard[OF assms(2)] by blast
  then have "mem_core m' = mem_core m"
    using mem_req_unfold[OF assms(1,2), of cyc pe h] assms(3) by auto
  then show ?thesis by (simp add: mem_core_def)
next
  case True
  obtain m3 h3 r3 where f: "mem_req cyc pe m h r = mem_dispatch m3 h3 r r3 (mem_off m r)"
    "res_table m3 = res_table m"
    using mem_req_fits[OF assms(1,2) True, of cyc pe h] by blast
  have d: "mem_dispatch m3 h3 r r3 (mem_off m r) = Some (m', h', r', st)" using assms(3) f(1) by simp
  show ?thesis
  proof (cases "r_opcode r \<in> {OP_READ, OP_WRITE} \<or> \<not> c_atomics (cfg m3)")
    case True
    then have "res_table m' = res_table m3"
      using d handle_write_res_table by (cases "r_opcode r") (auto simp: mem_dispatch_def bind_eq_Some_conv)
    then show ?thesis using f(2) by simp
  next
    case False
    then obtain h'' where a: "handle_atomic m3 h3 (mem_off m r) (r_size r) (r_data r)
        (r_second_data r) (r_opcode r) (r_initiator r) = Some (m', h'')"
      using d by (cases "r_opcode r") (auto simp: mem_dispatch_def bind_eq_Some_conv)
    show ?thesis using handle_atomic_res_table[OF a] f(2) assms(4,5) by auto
  qed
qed

theorem wide_reservation_survives:
  assumes "v < a" "rt j = Some v"
  shows "break_reservations rt a sz j = Some v"
  using assms by (auto simp: break_reservations_def)

end
