(* ===== verification/Remapper_V2.thy ===== *)
theory Remapper_V2
  imports Memory_V3_Props
begin

text \<open>
  The address remapper of \<^verbatim>\<open>src/models/interco/remapper_v2.cpp\<close>: requests inside the window
  \<open>[base, base + size)\<close> are forwarded with the address moved to the target window, all others
  untouched; a downstream denial restores the address and owes the master a retry. The debug
  backdoor splits a window at the same boundaries. The component sits in front of any target of
  the io\_v2 contract and is such a target itself.
\<close>

section \<open>The component\<close>

record remapper_config =
  rm_base :: u64
  rm_size :: u64
  rm_target_base :: u64

record remapper =
  rm_input_needs_retry :: bool

definition rm_reset :: "bool \<Rightarrow> remapper \<Rightarrow> remapper" where
  "rm_reset active s = (if active then s\<lparr>rm_input_needs_retry := False\<rparr> else s)"

definition rm_in_window :: "remapper_config \<Rightarrow> u64 \<Rightarrow> bool" where
  "rm_in_window c a \<longleftrightarrow> rm_size c > 0 \<and> a \<ge> rm_base c \<and> a < rm_base c + rm_size c"

definition rm_addr :: "remapper_config \<Rightarrow> u64 \<Rightarrow> u64" where
  "rm_addr c a = (if rm_in_window c a then a - rm_base c + rm_target_base c else a)"

text \<open>The downstream port is a parameter; the state is the remapper's and what is behind the port.\<close>

definition rm_input_req :: "remapper_config \<Rightarrow> 's io_port \<Rightarrow> (remapper \<times> 's) io_port" where
  "rm_input_req c out = (\<lambda>(rm, s) r.
     (let a = r_addr r;
          in_window = rm_in_window c a;
          r1 = (if in_window then r\<lparr>r_addr := a - rm_base c + rm_target_base c\<rparr> else r)
      in case out s r1 of (s', r2, st) \<Rightarrow>
        (if st = IO_REQ_DENIED
         then ((rm\<lparr>rm_input_needs_retry := True\<rparr>, s'),
               (if in_window then r2\<lparr>r_addr := a\<rparr> else r2), st)
         else ((rm, s'), r2, st))))"

definition rm_output_resp :: "io_req \<Rightarrow> up_call list \<times> io_resp_ack" where
  "rm_output_resp r = ([Up_Resp r], IO_RESP_ACCEPTED)"

definition rm_output_retry :: "remapper \<Rightarrow> remapper \<times> up_call list" where
  "rm_output_retry rm =
     (if rm_input_needs_retry rm then (rm\<lparr>rm_input_needs_retry := False\<rparr>, [Up_Retry]) else (rm, []))"

text \<open>
  \<open>rm_debug_mem_regions\<close>: the windows (local base, size, entry base) handed to the downstream
  component, in order; none past the depth limit or when the downstream has no backdoor.
\<close>

definition rm_debug_mem_regions ::
  "remapper_config \<Rightarrow> nat \<Rightarrow> bool \<Rightarrow> u64 \<Rightarrow> u64 \<Rightarrow> u64 \<Rightarrow> nat \<Rightarrow> (u64 \<times> u64 \<times> u64) list" where
  "rm_debug_mem_regions c max_depth has_child local_base window_size entry_base depth =
     (if depth \<ge> max_depth \<or> \<not> has_child then []
      else
        let win_end = (if local_base + window_size < local_base then - 1 else local_base + window_size);
            map_base = rm_base c;
            map_end = (if rm_size c > 0 then rm_base c + rm_size c else rm_base c);
            seg1 = (if local_base < map_base
                    then [(local_base, min win_end map_base - local_base, entry_base)] else []);
            i_base = max local_base map_base;
            i_end = min win_end map_end;
            seg2 = (if i_base < i_end
                    then [(i_base - rm_base c + rm_target_base c, i_end - i_base,
                           entry_base + (i_base - local_base))] else []);
            seg3 = (if win_end > map_end
                    then let seg_base = max local_base map_end
                         in [(seg_base, win_end - seg_base, entry_base + (seg_base - local_base))]
                    else [])
        in seg1 @ seg2 @ seg3)"

section \<open>Over a target of the contract\<close>

lemma rm_forwards: "r\<lparr>r_addr := rm_addr c (r_addr r)\<rparr> =
    (if rm_in_window c (r_addr r)
     then r\<lparr>r_addr := r_addr r - rm_base c + rm_target_base c\<rparr> else r)"
  by (simp add: rm_addr_def)

context io_target
begin

lemma remapper_target:
  "io_target (rm_input_req c tgt) (\<lambda>(rm, s). inv s) (\<lambda>r. accepts (r\<lparr>r_addr := rm_addr c (r_addr r)\<rparr>))"
proof
  fix s r s' r' st
  assume "case s of (rm, t) \<Rightarrow> inv t" "accepts (r\<lparr>r_addr := rm_addr c (r_addr r)\<rparr>)"
    "rm_input_req c tgt s r = (s', r', st)"
  then show "case s' of (rm, t) \<Rightarrow> inv t"
    unfolding rm_forwards
    by (auto simp: rm_input_req_def Let_def split: prod.splits if_splits intro: inv_step)
next
  fix s r s' r'
  assume a: "case s of (rm, t) \<Rightarrow> inv t" "accepts (r\<lparr>r_addr := rm_addr c (r_addr r)\<rparr>)"
    "rm_input_req c tgt s r = (s', r', IO_REQ_DENIED)"
  obtain rm t where s: "s = (rm, t)" by (cases s) auto
  let ?r1 = "r\<lparr>r_addr := rm_addr c (r_addr r)\<rparr>"
  obtain t' r2 where o: "tgt t ?r1 = (t', r2, IO_REQ_DENIED)"
    "r' = (if rm_in_window c (r_addr r) then r2\<lparr>r_addr := r_addr r\<rparr> else r2)"
    using a(3) s unfolding rm_forwards
    by (auto simp: rm_input_req_def Let_def split: prod.splits if_splits)
  have "r2 = ?r1" using denied_untouched[OF _ a(2) o(1)] a(1) s by simp
  then show "r' = r" using o(2) by (auto simp: rm_addr_def)
qed

lemma remapper_denied_owes_retry:
  assumes "inv s" "accepts (r\<lparr>r_addr := rm_addr c (r_addr r)\<rparr>)"
    and "rm_input_req c tgt (rm, s) r = ((rm', s'), r', IO_REQ_DENIED)"
  shows "r' = r \<and> rm_output_retry rm' = (rm'\<lparr>rm_input_needs_retry := False\<rparr>, [Up_Retry])"
proof -
  have "rm_input_needs_retry rm'"
    using assms(3) by (auto simp: rm_input_req_def Let_def split: prod.splits if_splits)
  moreover have "r' = r" using io_target.denied_untouched[OF remapper_target _ assms(2,3)] assms(1) by simp
  ultimately show ?thesis by (simp add: rm_output_retry_def)
qed

end

interpretation rm_mem: io_target "rm_input_req c mem_port" "\<lambda>(rm, s). mem_port_inv s"
  "\<lambda>r. mem_accepts (r\<lparr>r_addr := rm_addr c (r_addr r)\<rparr>)" for c
  by (rule mem_tgt.remapper_target)

section \<open>The debug backdoor translates as the timed path does\<close>

lemma word_seg:
  fixes b e k :: u64
  assumes "k < e - b" "b \<le> e"
  shows "b \<le> b + k" "b + k < e"
  using assms by unat_arith+

lemma word_seg_in:
  fixes a b e :: u64
  assumes "b \<le> a" "a < e"
  shows "a - b < e - b" "b + (a - b) = a"
  using assms by unat_arith+

lemma no_wrap_end:
  fixes b n :: u64
  assumes "unat b + unat n < 2 ^ 64"
  shows "b \<le> b + n" "unat (b + n) = unat b + unat n"
proof -
  show e: "unat (b + n) = unat b + unat n" using assms by (simp add: unat_word_ariths)
  show "b \<le> b + n" unfolding word_le_nat_alt e by simp
qed

lemma rm_addr_cases:
  assumes "rm_base c \<le> rm_base c + rm_size c"
  shows "a < rm_base c \<Longrightarrow> rm_addr c a = a"
    and "rm_base c \<le> a \<Longrightarrow> a < rm_base c + rm_size c \<Longrightarrow>
      rm_addr c a = a - rm_base c + rm_target_base c"
    and "rm_base c + rm_size c \<le> a \<Longrightarrow> rm_addr c a = a"
proof -
  show "a < rm_base c \<Longrightarrow> rm_addr c a = a" by (auto simp: rm_addr_def rm_in_window_def)
  show "rm_base c \<le> a \<Longrightarrow> a < rm_base c + rm_size c \<Longrightarrow>
      rm_addr c a = a - rm_base c + rm_target_base c"
    by (cases "rm_size c = 0") (auto simp: rm_addr_def rm_in_window_def word_neq_0_conv)
  show "rm_base c + rm_size c \<le> a \<Longrightarrow> rm_addr c a = a"
    by (auto simp: rm_addr_def rm_in_window_def)
qed

text \<open>
  The debug backdoor and the timed path of the remapper agree: when neither the remap window
  nor the requested window wraps, the windows handed downstream cover every byte of the requested
  window, and every byte of every such window carries the address the timed path would forward.
\<close>

theorem rm_debug_matches_timed:
  assumes nw: "unat (rm_base c) + unat (rm_size c) < 2 ^ 64" "unat lb + unat ws < 2 ^ 64"
    and "depth < max_depth"
    and segs_eq: "segs = rm_debug_mem_regions c max_depth True lb ws eb depth"
  shows "(\<forall>(cb, cs, e) \<in> set segs. \<forall>k < cs. cb + k = rm_addr c (lb + (e + k - eb))) \<and>
    (\<forall>d < ws. \<exists>(cb, cs, e) \<in> set segs. \<exists>k < cs. e + k = eb + d \<and> cb + k = rm_addr c (lb + d))"
proof -
  let ?w = "lb + ws" and ?mb = "rm_base c" and ?me = "rm_base c + rm_size c"
  note mle = no_wrap_end(1)[OF nw(1)] and wle = no_wrap_end(1)[OF nw(2)]
  have we: "(if ?w < lb then - 1 else ?w) = ?w" using wle by (simp add: not_less[symmetric])
  have me: "(if rm_size c > 0 then ?me else ?mb) = ?me" by (simp add: word_neq_0_conv[symmetric])
  have segs: "segs = (if lb < ?mb then [(lb, min ?w ?mb - lb, eb)] else []) @
      (if max lb ?mb < min ?w ?me then [(max lb ?mb - ?mb + rm_target_base c,
         min ?w ?me - max lb ?mb, eb + (max lb ?mb - lb))] else []) @
      (if ?w > ?me then [(max lb ?me, ?w - max lb ?me, eb + (max lb ?me - lb))] else [])"
    using assms(3) by (simp add: segs_eq rm_debug_mem_regions_def we me Let_def not_le)
  note ra = rm_addr_cases[OF mle]
  have s1: "lb + k = rm_addr c (lb + (eb + k - eb))" if "lb < ?mb" "k < min ?w ?mb - lb" for k
  proof -
    have "lb \<le> min ?w ?mb" using that(1) wle by auto
    from word_seg(2)[OF that(2) this] have "lb + k < ?mb" by simp
    then show ?thesis using ra(1) by simp
  qed
  have s2: "max lb ?mb - ?mb + rm_target_base c + k = rm_addr c (lb + (eb + (max lb ?mb - lb) + k - eb))"
    if "max lb ?mb < min ?w ?me" "k < min ?w ?me - max lb ?mb" for k
  proof -
    have "max lb ?mb \<le> min ?w ?me" using that(1) by (rule less_imp_le)
    from word_seg[OF that(2) this] have "?mb \<le> max lb ?mb + k" "max lb ?mb + k < ?me" by auto
    from ra(2)[OF this] show ?thesis by (simp add: algebra_simps)
  qed
  have s3: "max lb ?me + k = rm_addr c (lb + (eb + (max lb ?me - lb) + k - eb))"
    if "?me < ?w" "k < ?w - max lb ?me" for k
  proof -
    have "max lb ?me \<le> ?w" using that(1) wle by auto
    from word_seg[OF that(2) this] have "?me \<le> max lb ?me + k" by auto
    from ra(3)[OF this] show ?thesis by (simp add: algebra_simps)
  qed
  have "\<exists>(cb, cs, e) \<in> set segs. \<exists>k < cs. e + k = eb + d \<and> cb + k = rm_addr c (lb + d)" if d: "d < ws" for d
  proof -
    let ?a = "lb + d"
    have a: "lb \<le> ?a" "?a < ?w" using word_seg[of d ?w lb] d wle by simp_all
    consider "?a < ?mb" | "?mb \<le> ?a" "?a < ?me" | "?me \<le> ?a" by fastforce
    then show ?thesis
    proof cases
      case 1
      then have "lb < ?mb" "d < min ?w ?mb - lb" using a word_seg_in[of lb ?a "min ?w ?mb"] by auto
      then show ?thesis using segs s1[of d] by auto
    next
      case 2
      then have i: "max lb ?mb \<le> ?a" "?a < min ?w ?me" using a by simp_all
      let ?k = "?a - max lb ?mb"
      have "max lb ?mb < min ?w ?me" "?k < min ?w ?me - max lb ?mb"
        using i word_seg_in[OF i] by auto
      moreover have "eb + (max lb ?mb - lb) + ?k = eb + d" by simp
      ultimately show ?thesis using segs s2[of ?k] by (auto simp: algebra_simps)
    next
      case 3
      then have i: "max lb ?me \<le> ?a" "?a < ?w" using a by simp_all
      let ?k = "?a - max lb ?me"
      have "?me < ?w" "?k < ?w - max lb ?me" using i word_seg_in[OF i] by auto
      moreover have "eb + (max lb ?me - lb) + ?k = eb + d" by simp
      ultimately show ?thesis using segs s3[of ?k] by (auto simp: algebra_simps)
    qed
  qed
  moreover have "\<forall>(cb, cs, e) \<in> set segs. \<forall>k < cs. cb + k = rm_addr c (lb + (e + k - eb))"
    using segs s1 s2 s3 by auto
  ultimately show ?thesis by blast
qed

theorem rm_debug_matches_timed_witness:
  "let c = \<lparr>rm_base = 0x100, rm_size = 0x80, rm_target_base = 0x9000\<rparr>;
       segs = rm_debug_mem_regions c 8 True 0xc0 0x100 0 0
   in segs = [(0xc0, 0x40, 0), (0x9000, 0x80, 0x40), (0x180, 0x40, 0xc0)] \<and>
      0x9000 + 5 = rm_addr c (0xc0 + (0x40 + 5 - 0))"
proof -
  let ?c = "\<lparr>rm_base = 0x100, rm_size = 0x80, rm_target_base = 0x9000\<rparr>"
  have "rm_debug_mem_regions ?c 8 True 0xc0 0x100 0 0 =
      [(0xc0, 0x40, 0), (0x9000, 0x80, 0x40), (0x180, 0x40, 0xc0)]"
    by (simp add: rm_debug_mem_regions_def Let_def min_def max_def)
  moreover from this have "36864 + k = rm_addr ?c (192 + (64 + k - 0))" if "k < 128" for k
    using rm_debug_matches_timed[of ?c "0xc0" "0x100" 0 8 "rm_debug_mem_regions ?c 8 True 0xc0 0x100 0 0" 0] that
    by simp
  from this[of 5] have "0x9000 + 5 = rm_addr ?c (0xc0 + (0x40 + 5 - 0))" by simp
  ultimately show ?thesis by (simp only: Let_def)
qed

end
