(* ===== verification/Demux_V2.thy ===== *)
theory Demux_V2
  imports Memory_V3_Props
begin

text \<open>
  The bit-field demultiplexer of \<^verbatim>\<open>src/models/interco/demux_v2.cpp\<close>: \<open>width\<close> address bits starting
  at bit \<open>offset\<close> select the output; a denial is remembered with the output that gave it, and only
  that output's retry is passed upstream. The debug backdoor cuts an access at the select
  boundaries, which is proved to route every byte as the timed path does.
\<close>

section \<open>The component\<close>

record demux_config =
  dx_width :: nat
  dx_offset :: nat

record demux =
  dx_denied_output :: int
  dx_last_logged_access :: int
  dx_nb_logged_access_in_same_cycle :: nat

text \<open>Shifts of the C++ code are defined for these parameters only.\<close>

definition dx_config_ok :: "demux_config \<Rightarrow> bool" where
  "dx_config_ok c \<longleftrightarrow> dx_width c < 31 \<and> dx_offset c < 64"

definition dx_nb_outs :: "demux_config \<Rightarrow> nat" where
  "dx_nb_outs c = push_bit (dx_width c) 1"

definition dx_output_id :: "demux_config \<Rightarrow> u64 \<Rightarrow> nat" where
  "dx_output_id c a = unat (drop_bit (dx_offset c) a AND (push_bit (dx_width c) 1 - 1))"

definition dx_reset :: "bool \<Rightarrow> demux \<Rightarrow> demux" where
  "dx_reset active d = (if active then d\<lparr>dx_denied_output := - 1\<rparr> else d)"

text \<open>The bookkeeping of the access traces; the traces themselves belong to the engine.\<close>

definition dx_log_access :: "int \<Rightarrow> demux \<Rightarrow> demux" where
  "dx_log_access cycles d =
     (let nb = (if cycles > dx_last_logged_access d then 0 else dx_nb_logged_access_in_same_cycle d)
      in d\<lparr>dx_nb_logged_access_in_same_cycle := Suc nb, dx_last_logged_access := cycles\<rparr>)"

text \<open>
  The outputs are a parameter, all over one downstream state; \<open>cycles\<close> is the clock's cycle count.
\<close>

definition dx_input_req ::
  "demux_config \<Rightarrow> int \<Rightarrow> (nat \<Rightarrow> 's io_port) \<Rightarrow> (demux \<times> 's) io_port" where
  "dx_input_req c cycles outs = (\<lambda>(d, s) r.
     (let output_id = dx_output_id c (r_addr r);
          d1 = dx_log_access cycles d
      in case outs output_id s r of (s', r', st) \<Rightarrow>
        ((if st = IO_REQ_DENIED then d1\<lparr>dx_denied_output := int output_id\<rparr> else d1, s'), r', st)))"

definition dx_output_resp :: "(io_req \<Rightarrow> io_resp_ack) \<Rightarrow> io_req \<Rightarrow> up_call list \<times> io_resp_ack" where
  "dx_output_resp upstream r = ([Up_Resp r], upstream r)"

definition dx_output_retry :: "demux \<Rightarrow> nat \<Rightarrow> demux \<times> up_call list" where
  "dx_output_retry d i =
     (if dx_denied_output d = int i then (d\<lparr>dx_denied_output := - 1\<rparr>, [Up_Retry]) else (d, []))"

text \<open>The debug access loop; \<open>outs i\<close> is the backdoor behind output \<open>i\<close>, if it has one.\<close>

definition dx_chunk :: "demux_config \<Rightarrow> u64 \<Rightarrow> u64 \<Rightarrow> u64" where
  "dx_chunk c a sz =
     (let select_granule = push_bit (dx_offset c) 1;
          chunk = select_granule - (a AND (select_granule - 1))
      in if chunk > sz then sz else chunk)"

section \<open>Arithmetic of the select granule\<close>

lemma granule_pos:
  assumes "n < 64"
  shows "a AND (push_bit n 1 - 1) < (push_bit n 1 :: u64)"
proof -
  have "(push_bit n 1 - 1 :: u64) = mask n" by (simp add: mask_eq_exp_minus_1 push_bit_eq_mult)
  moreover have "a AND mask n < 2 ^ n" using assms by (intro and_mask_less') simp
  ultimately show ?thesis by (simp add: push_bit_eq_mult)
qed

lemma dx_chunk_bounds:
  assumes "dx_offset c < 64" "sz \<noteq> 0"
  shows "0 < dx_chunk c a sz" "dx_chunk c a sz \<le> sz"
proof -
  let ?g = "push_bit (dx_offset c) 1 :: u64"
  have "0 < ?g - (a AND (?g - 1))" using granule_pos[OF assms(1), of a] by unat_arith
  then show "0 < dx_chunk c a sz" using assms(2) by (auto simp: dx_chunk_def Let_def word_neq_0_conv)
  show "dx_chunk c a sz \<le> sz" by (auto simp: dx_chunk_def Let_def not_less)
qed

lemma dx_chunk_decreases:
  assumes "dx_offset c < 64" "sz \<noteq> 0"
  shows "unat (sz - dx_chunk c a sz) < unat sz"
  using dx_chunk_bounds[OF assms, of a] by (simp add: unat_sub word_less_nat_alt word_le_nat_alt)

lemma unat_granule:
  assumes "n < 64"
  shows "unat (push_bit n 1 :: u64) = 2 ^ n"
proof -
  have "(2::nat) ^ n < 2 ^ 64" using assms by (intro power_strict_increasing) auto
  then have "unat (of_nat (2 ^ n) :: u64) = 2 ^ n" by (subst unat_of_nat) simp
  then show ?thesis by (simp add: push_bit_eq_mult)
qed

lemma unat_low_bits:
  assumes "n < 64"
  shows "unat (a AND (push_bit n 1 - 1) :: u64) = unat a mod 2 ^ n"
proof -
  have "(push_bit n 1 - 1 :: u64) = mask n" by (simp add: mask_eq_exp_minus_1 push_bit_eq_mult)
  then have "unat (a AND (push_bit n 1 - 1)) = unat (take_bit n a)" by (simp only: take_bit_eq_mask)
  also have "\<dots> = take_bit n (unat a)" by (rule unsigned_take_bit_eq)
  finally show ?thesis by (simp only: take_bit_eq_mod)
qed

text \<open>All bytes of a chunk select the output of its first byte, and no address of it wraps.\<close>

lemma dx_chunk_same_output:
  assumes n: "dx_offset c < 64" and k: "k < unat (dx_chunk c a sz)"
  shows "dx_output_id c (a + of_nat k) = dx_output_id c a"
proof -
  let ?n = "dx_offset c" and ?g = "push_bit (dx_offset c) 1 :: u64"
  have "dx_chunk c a sz \<le> ?g - (a AND (?g - 1))" by (auto simp: dx_chunk_def Let_def)
  then have "k < unat (?g - (a AND (?g - 1)))" using k unfolding word_le_nat_alt by linarith
  also have "\<dots> = unat ?g - unat (a AND (?g - 1))"
    by (rule unat_sub) (rule less_imp_le[OF granule_pos[OF n]])
  also have "\<dots> = 2 ^ ?n - unat a mod 2 ^ ?n" unfolding unat_granule[OF n] unat_low_bits[OF n] ..
  finally have k': "unat a mod 2 ^ ?n + k < 2 ^ ?n" by simp
  have e: "unat a + k = (unat a div 2 ^ ?n) * 2 ^ ?n + (unat a mod 2 ^ ?n + k)"
    by (simp add: algebra_simps)
  have lt: "unat a div 2 ^ ?n < 2 ^ (64 - ?n)"
  proof -
    have "unat a < 2 ^ (64 - ?n) * 2 ^ ?n" using n by (simp flip: power_add)
    then show ?thesis by (simp add: less_mult_imp_div_less)
  qed
  have "unat a + k < (unat a div 2 ^ ?n + 1) * 2 ^ ?n" using e k' by simp
  also have "\<dots> \<le> 2 ^ (64 - ?n) * 2 ^ ?n" using lt by (intro mult_le_mono1) simp
  also have "\<dots> = 2 ^ 64" using n by (simp flip: power_add)
  finally have nw: "unat a + k < 2 ^ 64" .
  then have u: "unat (a + of_nat k) = unat a + k"
    by (simp add: unat_word_ariths unat_of_nat)
  have "(unat a + k) div 2 ^ ?n = unat a div 2 ^ ?n"
    unfolding e using k' by simp
  then have "drop_bit ?n (a + of_nat k) = drop_bit ?n a"
    unfolding word_unat_eq_iff unat_drop_bit_eq u by (simp only: drop_bit_eq_div)
  then show ?thesis by (simp add: dx_output_id_def)
qed

section \<open>The debug loop\<close>

function dx_debug_mem_access ::
  "demux_config \<Rightarrow> (nat \<Rightarrow> 's debug_mem option) \<Rightarrow> 's \<Rightarrow> u64 \<Rightarrow> ptr \<Rightarrow> u64 \<Rightarrow> bool \<Rightarrow> ('s \<times> int) option" where
  "dx_debug_mem_access c outs s a data sz is_write =
     (if \<not> dx_offset c < 64 then None
      else if sz = 0 then Some (s, 0)
      else let chunk = dx_chunk c a sz in
        (case outs (dx_output_id c a) of
           None \<Rightarrow> Some (s, - 1)
         | Some acc \<Rightarrow>
             (case acc s a data chunk is_write of (s', failed) \<Rightarrow>
                if failed then Some (s', - 1)
                else dx_debug_mem_access c outs s' (a + chunk) (data + unat chunk) (sz - chunk) is_write)))"
  by pat_completeness auto
termination
  by (relation "measure (\<lambda>(c, outs, s, a, data, sz, w). unat sz)") (auto simp: dx_chunk_decreases)

declare dx_debug_mem_access.simps [simp del]

lemma dx_output_id_bound:
  assumes "dx_config_ok c"
  shows "dx_output_id c a < dx_nb_outs c"
proof -
  have w: "dx_width c < 64" using assms by (simp add: dx_config_ok_def)
  have "unat (drop_bit (dx_offset c) a AND (push_bit (dx_width c) 1 - 1)) < 2 ^ dx_width c"
    unfolding unat_low_bits[OF w] by simp
  then show ?thesis by (simp add: dx_output_id_def dx_nb_outs_def push_bit_eq_mult)
qed

text \<open>
  Outputs that record each backdoor access they receive (output, address, host pointer, size,
  direction) and succeed, and the bytes such a record accounts for.
\<close>

type_synonym dx_access = "nat \<times> u64 \<times> ptr \<times> u64 \<times> bool"

definition dx_record :: "nat \<Rightarrow> dx_access list debug_mem option" where
  "dx_record i = Some (\<lambda>s a d n w. (s @ [(i, a, d, n, w)], False))"

definition dx_access_bytes :: "dx_access \<Rightarrow> (nat \<times> u64 \<times> ptr) list" where
  "dx_access_bytes = (\<lambda>(i, a, d, n, w). map (\<lambda>k. (i, a + of_nat k, d + k)) [0..<unat n])"

lemma dx_debug_log:
  assumes n: "dx_offset c < 64"
  shows "\<exists>log. dx_debug_mem_access c dx_record s a data sz w = Some (s @ log, 0) \<and>
    concat (map dx_access_bytes log) =
      map (\<lambda>k. (dx_output_id c (a + of_nat k), a + of_nat k, data + k)) [0..<unat sz] \<and>
    (\<forall>(i, a', d, n, w') \<in> set log. w' = w)"
  using n
proof (induction "unat sz" arbitrary: s a data sz rule: less_induct)
  case less
  show ?case
  proof (cases "sz = 0")
    case True
    then show ?thesis using less.prems by (simp add: dx_debug_mem_access.simps)
  next
    case False
    let ?ch = "dx_chunk c a sz" and ?i = "dx_output_id c a"
    note b = dx_chunk_bounds[OF less.prems False, of a]
    from less.hyps[OF dx_chunk_decreases[OF less.prems False, of a], OF less.prems,
        of "s @ [(?i, a, data, ?ch, w)]" "a + ?ch" "data + unat ?ch"]
    obtain log where l: "dx_debug_mem_access c dx_record (s @ [(?i, a, data, ?ch, w)]) (a + ?ch)
        (data + unat ?ch) (sz - ?ch) w = Some ((s @ [(?i, a, data, ?ch, w)]) @ log, 0)"
      and bys: "concat (map dx_access_bytes log) = map (\<lambda>k. (dx_output_id c (a + ?ch + of_nat k),
        a + ?ch + of_nat k, data + unat ?ch + k)) [0..<unat (sz - ?ch)]"
      and wr: "\<forall>(i, a', d, n, w') \<in> set log. w' = w"
      by (elim exE conjE) (rule that)
    have step: "dx_debug_mem_access c dx_record s a data sz w = Some (s @ (?i, a, data, ?ch, w) # log, 0)"
      using False less.prems l
      by (subst dx_debug_mem_access.simps) (simp add: dx_record_def Let_def)
    let ?f = "\<lambda>k. (dx_output_id c (a + of_nat k), a + of_nat k, data + k)"
    have "[0..<unat sz] = [0..<unat ?ch] @ map (\<lambda>k. unat ?ch + k) [0..<unat (sz - ?ch)]"
      using b(2) by (intro nth_equalityI) (auto simp: unat_sub word_le_nat_alt nth_append)
    then have "map ?f [0..<unat sz] = map ?f [0..<unat ?ch] @ map (\<lambda>k. ?f (unat ?ch + k)) [0..<unat (sz - ?ch)]"
      by simp
    also have "map ?f [0..<unat ?ch] = dx_access_bytes (?i, a, data, ?ch, w)"
      using dx_chunk_same_output[OF less.prems] by (simp add: dx_access_bytes_def)
    also have "map (\<lambda>k. ?f (unat ?ch + k)) [0..<unat (sz - ?ch)] = concat (map dx_access_bytes log)"
      unfolding bys by (simp add: algebra_simps)
    finally have "concat (map dx_access_bytes ((?i, a, data, ?ch, w) # log)) = map ?f [0..<unat sz]"
      by simp
    then show ?thesis using step wr by (intro exI[of _ "(?i, a, data, ?ch, w) # log"]) simp
  qed
qed

text \<open>
  The debug backdoor of the demux always returns and routes as the timed path: the accesses it
  makes carry every byte of the buffer exactly once and in order, each on the output and at the
  address a timed request for that byte would use, and that output exists.
\<close>

theorem dx_debug_routes_as_timed:
  assumes "dx_config_ok c"
  shows "\<exists>log. dx_debug_mem_access c dx_record [] a data sz w = Some (log, 0) \<and>
    concat (map dx_access_bytes log) =
      map (\<lambda>k. (dx_output_id c (a + of_nat k), a + of_nat k, data + k)) [0..<unat sz] \<and>
    (\<forall>k. dx_output_id c (a + of_nat k) < dx_nb_outs c)"
proof -
  have "dx_offset c < 64" using assms by (simp add: dx_config_ok_def)
  from dx_debug_log[OF this, of "[]" a data sz w] show ?thesis
    using dx_output_id_bound[OF assms] by auto
qed

theorem dx_debug_routes_as_timed_witness:
  "dx_config_ok \<lparr>dx_width = 1, dx_offset = 4\<rparr> \<and>
   dx_debug_mem_access \<lparr>dx_width = 1, dx_offset = 4\<rparr> dx_record [] 0x0c 100 8 True =
     Some ([(0, 0x0c, 100, 4, True), (1, 0x10, 104, 4, True)], 0) \<and>
   (\<exists>log. dx_debug_mem_access \<lparr>dx_width = 1, dx_offset = 4\<rparr> dx_record [] 0x0c 100 8 True = Some (log, 0) \<and>
      length (concat (map dx_access_bytes log)) = 8)"
proof -
  let ?c = "\<lparr>dx_width = 1, dx_offset = 4\<rparr>"
  have ok: "dx_config_ok ?c" by (simp add: dx_config_ok_def)
  have run: "dx_debug_mem_access ?c dx_record [] 0x0c 100 8 True =
      Some ([(0, 0x0c, 100, 4, True), (1, 0x10, 104, 4, True)], 0)"
    by (simp add: dx_debug_mem_access.simps dx_record_def dx_chunk_def dx_output_id_def Let_def push_bit_eq_mult)
  obtain log where l: "dx_debug_mem_access ?c dx_record [] 0x0c 100 8 True = Some (log, 0)"
    and b: "concat (map dx_access_bytes log) =
      map (\<lambda>k. (dx_output_id ?c (0x0c + of_nat k), 0x0c + of_nat k, 100 + k)) [0..<unat (8::u64)]"
    using dx_debug_routes_as_timed[OF ok, of "0x0c" 100 8 True] by (elim exE conjE) (rule that)
  have "length (concat (map dx_access_bytes log)) = 8" unfolding b by simp
  then show ?thesis using ok run l by blast
qed

section \<open>The timed path over targets of the contract\<close>

text \<open>
  When all outputs lead to targets of the contract over the shared downstream state, the demux is
  such a target: requests go through untouched, and a denied one comes back as it was sent.
\<close>

locale io_targets =
  fixes outs :: "nat \<Rightarrow> 's io_port"
    and inv :: "'s \<Rightarrow> bool"
    and accepts :: "io_req \<Rightarrow> bool"
    and ids :: "nat set"
  assumes each: "i \<in> ids \<Longrightarrow> io_target (outs i) inv accepts"
begin

lemma demux_target:
  assumes "\<And>a. dx_output_id c a \<in> ids"
  shows "io_target (dx_input_req c cycles outs) (\<lambda>(d, s). inv s) accepts"
proof
  fix s r s' r' st
  assume "case s of (d, t) \<Rightarrow> inv t" "accepts r" "dx_input_req c cycles outs s r = (s', r', st)"
  then show "case s' of (d, t) \<Rightarrow> inv t"
    using io_target.inv_step[OF each[OF assms[of "r_addr r"]]]
    by (auto simp: dx_input_req_def Let_def split: prod.splits)
next
  fix s r s' r'
  assume "case s of (d, t) \<Rightarrow> inv t" "accepts r" "dx_input_req c cycles outs s r = (s', r', IO_REQ_DENIED)"
  then show "r' = r"
    using io_target.denied_untouched[OF each[OF assms[of "r_addr r"]]]
    by (auto simp: dx_input_req_def Let_def split: prod.splits)
qed

end

text \<open>
  The banks of an interleaved memory: output \<open>i\<close> leads to the \<open>i\<close>-th memory, and all of them copy
  from and to the same host memory.
\<close>

definition bank_port :: "nat \<Rightarrow> (memory list \<times> heap) option io_port" where
  "bank_port i s r = (case s of None \<Rightarrow> (None, r, IO_REQ_DONE)
     | Some (ms, h) \<Rightarrow>
         (case mem_port (Some (ms ! i, h)) r of
            (None, r', st) \<Rightarrow> (None, r', st)
          | (Some (m', h'), r', st) \<Rightarrow> (Some (ms[i := m'], h'), r', st)))"

definition banks_inv :: "nat \<Rightarrow> (memory list \<times> heap) option \<Rightarrow> bool" where
  "banks_inv n s \<longleftrightarrow> (case s of None \<Rightarrow> False
     | Some (ms, h) \<Rightarrow> length ms = n \<and> (\<forall>m \<in> set ms. mem_wf m))"

lemma bank_port_done:
  assumes "banks_inv n s" "mem_accepts r" "i < n"
  shows "\<exists>s' r'. bank_port i s r = (s', r', IO_REQ_DONE) \<and> banks_inv n s'"
proof -
  obtain ms h where s: "s = Some (ms, h)" "length ms = n" "\<forall>m \<in> set ms. mem_wf m"
    using assms(1) by (auto simp: banks_inv_def split: option.splits)
  have "mem_port_inv (Some (ms ! i, h))" using s assms(3) by (simp add: mem_port_inv_def)
  from mem_port_done[OF this assms(2)] obtain m' h' r'
    where "mem_port (Some (ms ! i, h)) r = (Some (m', h'), r', IO_REQ_DONE)" "mem_wf m'"
    by (auto simp: mem_port_inv_def split: option.splits)
  then show ?thesis using s by (auto simp: bank_port_def banks_inv_def dest!: set_update_subset_insert[THEN subsetD])
qed

interpretation banks: io_targets bank_port "banks_inv n" mem_accepts "{..<n}" for n
proof (rule io_targets.intro)
  fix i assume i: "i \<in> {..<n}"
  show "io_target (bank_port i) (banks_inv n) mem_accepts"
    by unfold_locales (use i bank_port_done[of n _ _ i] in fastforce)+
qed

lemma demux_banks_target:
  assumes "dx_config_ok c"
  shows "io_target (dx_input_req c cycles bank_port) (\<lambda>(d, s). banks_inv (dx_nb_outs c) s) mem_accepts"
  by (rule banks.demux_target) (simp add: dx_output_id_bound[OF assms])

text \<open>
  The retry handshake of the demux: after a denied request the retry of exactly one output
  reaches the master, the one that request was routed to; any other output's retry is swallowed
  and leaves the debt, and once it was paid no second retry follows.
\<close>

theorem dx_retry_only_from_denier:
  assumes "dx_input_req c cycles outs (d, s) r = ((d', s'), r', IO_REQ_DENIED)"
  shows "(snd (dx_output_retry d' i) = [Up_Retry] \<longleftrightarrow> i = dx_output_id c (r_addr r)) \<and>
    (i \<noteq> dx_output_id c (r_addr r) \<longrightarrow> dx_output_retry d' i = (d', [])) \<and>
    (\<forall>j. snd (dx_output_retry (fst (dx_output_retry d' (dx_output_id c (r_addr r)))) j) = [])"
  using assms by (auto simp: dx_input_req_def dx_output_retry_def Let_def split: prod.splits)

theorem dx_retry_only_from_denier_witness:
  "let c = \<lparr>dx_width = 1, dx_offset = 4\<rparr>;
       d = \<lparr>dx_denied_output = - 1, dx_last_logged_access = - 1, dx_nb_logged_access_in_same_cycle = 0\<rparr>;
       r = \<lparr>r_addr = 0x10, r_size = 4, r_data = 0, r_second_data = 0, r_strb = 0, r_is_write = False,
         r_opcode = OP_READ, r_initiator = 0, r_latency = 0, r_resp_status = IO_RESP_OK,
         r_remaining_size = 0, r_memcheck_data = 0, r_memcheck_data_id = 0\<rparr>;
       d' = fst (fst (dx_input_req c 5 (\<lambda>i s r. (s, r, IO_REQ_DENIED)) (d, ()) r))
   in snd (dx_output_retry d' 1) = [Up_Retry] \<and> dx_output_retry d' 0 = (d', [])"
proof -
  let ?c = "\<lparr>dx_width = 1, dx_offset = 4\<rparr>"
  let ?d = "\<lparr>dx_denied_output = - 1, dx_last_logged_access = - 1, dx_nb_logged_access_in_same_cycle = 0\<rparr>"
  let ?r = "\<lparr>r_addr = 0x10, r_size = 4, r_data = 0, r_second_data = 0, r_strb = 0, r_is_write = False,
         r_opcode = OP_READ, r_initiator = 0, r_latency = 0, r_resp_status = IO_RESP_OK,
         r_remaining_size = 0, r_memcheck_data = 0, r_memcheck_data_id = 0\<rparr>"
  let ?f = "dx_input_req ?c 5 (\<lambda>i s r. (s, r, IO_REQ_DENIED)) (?d, ()) ?r"
  have id: "dx_output_id ?c (r_addr ?r) = 1" by (simp add: dx_output_id_def push_bit_eq_mult)
  have "?f = ((fst (fst ?f), snd (fst ?f)), fst (snd ?f), IO_REQ_DENIED)"
    by (simp add: dx_input_req_def Let_def)
  from dx_retry_only_from_denier[OF this, of 1] dx_retry_only_from_denier[OF this, of 0]
  show ?thesis unfolding Let_def id by simp
qed

end
