(* ===== verification/Fifo_V2.thy ===== *)
theory Fifo_V2
  imports IO_V2
begin

text \<open>
  The request FIFO of \<^verbatim>\<open>src/models/interco/fifo_v2.cpp\<close>. Requests are objects shared between the
  master, the FIFO and the downstream, so they are kept in a store and the queue holds references
  to them. The master may submit further requests from inside its \<^verbatim>\<open>resp()\<close> and \<^verbatim>\<open>retry()\<close> callbacks;
  those re-entrant submissions are arguments of the operations that make the callbacks. The
  downstream's answer to a request is an argument too.

  Shown by rule induction over all interleavings of submissions, pump events, responses and
  retries: the queue is bounded, order is kept and nothing is lost or duplicated, and a buffered
  request always has something that will move it on.
\<close>

section \<open>State\<close>

record fifo_config =
  ff_depth :: int
  ff_latency :: int

text \<open>\<open>ff_pump\<close> is the pending pump event with its delay in cycles, if it is enqueued.\<close>

record fifo =
  ff_queue :: "req_ref list"
  ff_downstream_busy :: bool
  ff_downstream_stalled :: bool
  ff_input_needs_retry :: bool
  ff_pump :: "int option"

type_synonym fifo_state = "fifo \<times> req_store"

type_synonym downstream = "req_store \<Rightarrow> req_ref \<Rightarrow> req_store \<times> io_req_status"

section \<open>Operations\<close>

definition ff_reset :: "bool \<Rightarrow> fifo \<Rightarrow> fifo" where
  "ff_reset active f =
     (if active
      then f\<lparr>ff_queue := [], ff_downstream_busy := False, ff_downstream_stalled := False,
             ff_input_needs_retry := False\<rparr>
      else f)"

definition ff_input_req :: "fifo_config \<Rightarrow> fifo_state \<Rightarrow> req_ref \<Rightarrow> fifo_state \<times> io_req_status" where
  "ff_input_req c = (\<lambda>(f, st) r.
     (if int (length (ff_queue f)) \<ge> ff_depth c
      then ((f\<lparr>ff_input_needs_retry := True\<rparr>, st), IO_REQ_DENIED)
      else
        let st1 = st(r := (st r)\<lparr>r_resp_status := IO_RESP_OK\<rparr>);
            f1 = f\<lparr>ff_queue := ff_queue f @ [r]\<rparr>;
            f2 = (if \<not> ff_downstream_busy f1 \<and> ff_pump f1 = None
                  then f1\<lparr>ff_pump := Some (if ff_latency c \<ge> 1 then ff_latency c else 1)\<rparr>
                  else f1)
        in ((f2, st1), IO_REQ_GRANTED)))"

text \<open>Requests the master submits in a row, with the answer each one gets.\<close>

fun ff_submit :: "fifo_config \<Rightarrow> fifo_state \<Rightarrow> req_ref list \<Rightarrow> fifo_state \<times> up_event list" where
  "ff_submit c s [] = (s, [])"
| "ff_submit c s (r # rs) =
     (case ff_input_req c s r of (s1, st) \<Rightarrow>
      case ff_submit c s1 rs of (s2, es) \<Rightarrow>
        (s2, (if st = IO_REQ_DENIED then Ev_Denied r else Ev_Granted r) # es))"

text \<open>
  \<open>rs1\<close> are submitted from inside \<^verbatim>\<open>resp()\<close>, \<open>rs2\<close> from inside \<^verbatim>\<open>retry()\<close>. \<open>None\<close>: the front of an empty
  deque.
\<close>

definition ff_head_done ::
  "fifo_config \<Rightarrow> req_ref list \<Rightarrow> req_ref list \<Rightarrow> fifo_state \<Rightarrow> (fifo_state \<times> up_event list) option" where
  "ff_head_done c rs1 rs2 = (\<lambda>(f, st).
     (case ff_queue f of
        [] \<Rightarrow> None
      | r # rest \<Rightarrow>
          (let f1 = f\<lparr>ff_queue := rest, ff_downstream_busy := False, ff_downstream_stalled := False\<rparr>
           in case ff_submit c (f1, st) rs1 of ((f2, st2), es1) \<Rightarrow>
              case (if ff_input_needs_retry f2 \<and> int (length (ff_queue f2)) < ff_depth c
                    then (case ff_submit c (f2\<lparr>ff_input_needs_retry := False\<rparr>, st2) rs2 of
                            (s3, es2) \<Rightarrow> (s3, Ev_Retry # es2))
                    else ((f2, st2), []))
              of ((f3, st3), es2) \<Rightarrow>
                (let f4 = (if ff_queue f3 \<noteq> [] \<and> ff_pump f3 = None then f3\<lparr>ff_pump := Some 1\<rparr> else f3)
                 in Some ((f4, st3), Ev_Resp r # es1 @ es2)))))"

definition ff_send_head ::
  "fifo_config \<Rightarrow> downstream \<Rightarrow> req_ref list \<Rightarrow> req_ref list \<Rightarrow> fifo_state \<Rightarrow>
   (fifo_state \<times> up_event list) option" where
  "ff_send_head c down rs1 rs2 = (\<lambda>(f, st).
     (case ff_queue f of
        [] \<Rightarrow> None
      | r # rest \<Rightarrow>
          (case down st r of
             (st', IO_REQ_DONE) \<Rightarrow> ff_head_done c rs1 rs2 (f, st')
           | (st', IO_REQ_DENIED) \<Rightarrow>
               Some ((f\<lparr>ff_downstream_busy := True, ff_downstream_stalled := True\<rparr>, st'), [])
           | (st', IO_REQ_GRANTED) \<Rightarrow> Some ((f\<lparr>ff_downstream_busy := True\<rparr>, st'), []))))"

text \<open>The engine takes the event out of its queue before it calls the handler.\<close>

definition ff_pump_handler ::
  "fifo_config \<Rightarrow> downstream \<Rightarrow> req_ref list \<Rightarrow> req_ref list \<Rightarrow> fifo_state \<Rightarrow>
   (fifo_state \<times> up_event list) option" where
  "ff_pump_handler c down rs1 rs2 = (\<lambda>(f, st).
     (let f1 = f\<lparr>ff_pump := None\<rparr>
      in if ff_downstream_busy f1 \<or> ff_queue f1 = [] then Some ((f1, st), [])
         else ff_send_head c down rs1 rs2 (f1, st)))"

definition ff_output_resp ::
  "fifo_config \<Rightarrow> req_ref list \<Rightarrow> req_ref list \<Rightarrow> fifo_state \<Rightarrow>
   (fifo_state \<times> up_event list \<times> io_resp_ack) option" where
  "ff_output_resp c rs1 rs2 s = do {
     (s', es) \<leftarrow> ff_head_done c rs1 rs2 s;
     Some (s', es, IO_RESP_ACCEPTED)
   }"

definition ff_output_retry ::
  "fifo_config \<Rightarrow> downstream \<Rightarrow> req_ref list \<Rightarrow> req_ref list \<Rightarrow> fifo_state \<Rightarrow>
   (fifo_state \<times> up_event list) option" where
  "ff_output_retry c down rs1 rs2 = (\<lambda>(f, st).
     (if \<not> ff_downstream_stalled f then Some ((f, st), [])
      else ff_send_head c down rs1 rs2 (f\<lparr>ff_downstream_stalled := False\<rparr>, st)))"

section \<open>All interleavings\<close>

definition ff_init :: fifo where
  "ff_init = \<lparr>ff_queue = [], ff_downstream_busy = False, ff_downstream_stalled = False,
     ff_input_needs_retry = False, ff_pump = None\<rparr>"

text \<open>
  \<open>ff_run c es s\<close>: the state \<open>s\<close> is reached with the upstream events \<open>es\<close>; \<open>None\<close> is a state after
  undefined behaviour. The downstream responds to a request it granted, with the request object
  in any state, and may signal a retry at any time.
\<close>

inductive ff_run :: "fifo_config \<Rightarrow> up_event list \<Rightarrow> fifo_state option \<Rightarrow> bool" for c where
  Init: "ff_run c [] (Some (ff_init, st))"
| Submit: "ff_run c es (Some s) \<Longrightarrow> ff_submit c s rs = (s', es') \<Longrightarrow> ff_run c (es @ es') (Some s')"
| Pump: "ff_run c es (Some (f, st)) \<Longrightarrow> ff_pump f \<noteq> None \<Longrightarrow>
    ff_pump_handler c down rs1 rs2 (f, st) = Some (s', es') \<Longrightarrow> ff_run c (es @ es') (Some s')"
| Pump_UB: "ff_run c es (Some (f, st)) \<Longrightarrow> ff_pump f \<noteq> None \<Longrightarrow>
    ff_pump_handler c down rs1 rs2 (f, st) = None \<Longrightarrow> ff_run c es None"
| Resp: "ff_run c es (Some (f, st)) \<Longrightarrow> ff_downstream_busy f \<Longrightarrow> \<not> ff_downstream_stalled f \<Longrightarrow>
    ff_output_resp c rs1 rs2 (f, st') = Some (s', es', ack) \<Longrightarrow> ff_run c (es @ es') (Some s')"
| Resp_UB: "ff_run c es (Some (f, st)) \<Longrightarrow> ff_downstream_busy f \<Longrightarrow> \<not> ff_downstream_stalled f \<Longrightarrow>
    ff_output_resp c rs1 rs2 (f, st') = None \<Longrightarrow> ff_run c es None"
| Retry: "ff_run c es (Some s) \<Longrightarrow> ff_output_retry c down rs1 rs2 s = Some (s', es') \<Longrightarrow>
    ff_run c (es @ es') (Some s')"
| Retry_UB: "ff_run c es (Some s) \<Longrightarrow> ff_output_retry c down rs1 rs2 s = None \<Longrightarrow> ff_run c es None"

fun ff_accepted :: "up_event list \<Rightarrow> req_ref list" where
  "ff_accepted [] = []"
| "ff_accepted (Ev_Granted r # es) = r # ff_accepted es"
| "ff_accepted (_ # es) = ff_accepted es"

fun ff_responded :: "up_event list \<Rightarrow> req_ref list" where
  "ff_responded [] = []"
| "ff_responded (Ev_Resp r # es) = r # ff_responded es"
| "ff_responded (_ # es) = ff_responded es"

lemma ff_accepted_append [simp]: "ff_accepted (es @ es') = ff_accepted es @ ff_accepted es'"
  by (induction es rule: ff_accepted.induct) auto

lemma ff_responded_append [simp]: "ff_responded (es @ es') = ff_responded es @ ff_responded es'"
  by (induction es rule: ff_responded.induct) auto

section \<open>Invariant\<close>

definition ff_inv :: "fifo_config \<Rightarrow> fifo \<Rightarrow> bool" where
  "ff_inv c f \<longleftrightarrow>
     int (length (ff_queue f)) \<le> max 0 (ff_depth c) \<and>
     (ff_downstream_stalled f \<longrightarrow> ff_downstream_busy f) \<and>
     (ff_downstream_busy f \<longrightarrow> ff_queue f \<noteq> []) \<and>
     (ff_queue f \<noteq> [] \<and> \<not> ff_downstream_busy f \<longrightarrow> ff_pump f \<noteq> None) \<and>
     (ff_input_needs_retry f \<longrightarrow> int (length (ff_queue f)) \<ge> ff_depth c)"

text \<open>What submissions do: \<open>q\<close> is appended, and each part of the invariant that held is kept.\<close>

definition ff_queue_ok :: "fifo_config \<Rightarrow> fifo \<Rightarrow> bool" where
  "ff_queue_ok c f \<longleftrightarrow> int (length (ff_queue f)) \<le> max 0 (ff_depth c)"

definition ff_retry_ok :: "fifo_config \<Rightarrow> fifo \<Rightarrow> bool" where
  "ff_retry_ok c f \<longleftrightarrow> (ff_input_needs_retry f \<longrightarrow> int (length (ff_queue f)) \<ge> ff_depth c)"

definition ff_extends :: "fifo_config \<Rightarrow> fifo \<Rightarrow> req_ref list \<Rightarrow> fifo \<Rightarrow> bool" where
  "ff_extends c f q f' \<longleftrightarrow>
     ff_queue f' = ff_queue f @ q \<and>
     ff_downstream_busy f' = ff_downstream_busy f \<and> ff_downstream_stalled f' = ff_downstream_stalled f \<and>
     (ff_queue_ok c f \<longrightarrow> ff_queue_ok c f') \<and> (ff_retry_ok c f \<longrightarrow> ff_retry_ok c f') \<and>
     (ff_inv c f \<longrightarrow> ff_inv c f')"

lemma ff_extends_trans:
  "ff_extends c f q g \<Longrightarrow> ff_extends c g q' f' \<Longrightarrow> ff_extends c f (q @ q') f'"
  by (simp add: ff_extends_def)

lemma ff_input_req_extends:
  assumes "ff_input_req c (f, st) r = ((f', st'), a)"
  shows "ff_extends c f (if a = IO_REQ_DENIED then [] else [r]) f'"
proof (cases "ff_depth c \<le> int (length (ff_queue f))")
  case True
  then show ?thesis
    using assms by (auto simp: ff_input_req_def ff_extends_def ff_inv_def ff_queue_ok_def ff_retry_ok_def)
next
  case False
  then have e: "f' = (if \<not> ff_downstream_busy f \<and> ff_pump f = None
      then f\<lparr>ff_queue := ff_queue f @ [r], ff_pump := Some (if ff_latency c \<ge> 1 then ff_latency c else 1)\<rparr>
      else f\<lparr>ff_queue := ff_queue f @ [r]\<rparr>)" "a = IO_REQ_GRANTED"
    using assms by (auto simp: ff_input_req_def Let_def)
  show ?thesis
    using False unfolding e by (auto simp: ff_extends_def ff_inv_def ff_queue_ok_def ff_retry_ok_def)
qed

lemma ff_submit_extends:
  "ff_submit c (f, st) rs = ((f', st'), es) \<Longrightarrow> ff_extends c f (ff_accepted es) f' \<and> ff_responded es = []"
proof (induction rs arbitrary: f st es)
  case Nil
  then show ?case by (simp add: ff_extends_def)
next
  case (Cons r rs)
  obtain f1 st1 a where i: "ff_input_req c (f, st) r = ((f1, st1), a)" by (metis prod.exhaust)
  obtain es1 where s: "ff_submit c (f1, st1) rs = ((f', st'), es1)"
    "es = (if a = IO_REQ_DENIED then Ev_Denied r else Ev_Granted r) # es1"
    using Cons.prems i by (auto split: prod.splits)
  from ff_extends_trans[OF ff_input_req_extends[OF i] conjunct1[OF Cons.IH[OF s(1)]]]
    Cons.IH[OF s(1)] s(2)
  show ?case by (auto split: if_splits)
qed

section \<open>What each operation keeps\<close>

text \<open>
  The step contract: the operation is defined, the invariant holds afterwards, and the requests
  it answers and the queue it leaves are those it found followed by those it accepted.
\<close>

definition ff_step_ok :: "fifo_config \<Rightarrow> fifo \<Rightarrow> (fifo_state \<times> up_event list) option \<Rightarrow> bool" where
  "ff_step_ok c f res \<longleftrightarrow> (case res of None \<Rightarrow> False
     | Some ((f', st'), es) \<Rightarrow>
         ff_inv c f' \<and> ff_queue f @ ff_accepted es = ff_responded es @ ff_queue f')"

lemma ff_step_ok_cong: "ff_queue f = ff_queue g \<Longrightarrow> ff_step_ok c f res = ff_step_ok c g res"
  by (simp add: ff_step_ok_def split: option.splits prod.splits)

lemma ff_head_done_ok:
  assumes inv: "ff_queue_ok c f" "ff_queue f \<noteq> []"
  shows "ff_step_ok c f (ff_head_done c rs1 rs2 (f, st))"
proof -
  obtain r rest where q: "ff_queue f = r # rest" using inv(2) by (cases "ff_queue f") auto
  let ?f1 = "f\<lparr>ff_queue := rest, ff_downstream_busy := False, ff_downstream_stalled := False\<rparr>"
  obtain f2 st2 es1 where s1: "ff_submit c (?f1, st) rs1 = ((f2, st2), es1)" by (metis prod.exhaust)
  note x1 = ff_submit_extends[OF s1]
  have k2: "ff_queue_ok c f2" "\<not> ff_downstream_busy f2" "\<not> ff_downstream_stalled f2" "ff_queue f2 = rest @ ff_accepted es1"
    using x1 inv(1) q by (auto simp: ff_extends_def ff_queue_ok_def)
  show ?thesis
  proof (cases "ff_input_needs_retry f2 \<and> int (length (ff_queue f2)) < ff_depth c")
    case True
    obtain f3 st3 es2 where s2: "ff_submit c (f2\<lparr>ff_input_needs_retry := False\<rparr>, st2) rs2 = ((f3, st3), es2)"
      by (metis prod.exhaust)
    note x2 = ff_submit_extends[OF s2]
    have k3: "ff_queue_ok c f3" "ff_retry_ok c f3" "\<not> ff_downstream_busy f3" "\<not> ff_downstream_stalled f3"
      "ff_queue f3 = ff_queue f2 @ ff_accepted es2"
      using x2 k2 by (auto simp: ff_extends_def ff_queue_ok_def ff_retry_ok_def)
    show ?thesis using q s1 s2 True k2 k3 x1 x2
      by (auto simp: ff_step_ok_def ff_head_done_def ff_inv_def ff_queue_ok_def ff_retry_ok_def Let_def)
  next
    case False
    then show ?thesis using q s1 k2 x1
      by (auto simp: ff_step_ok_def ff_head_done_def ff_inv_def ff_queue_ok_def Let_def)
  qed
qed

lemma ff_send_head_ok:
  assumes "ff_queue_ok c f" "ff_retry_ok c f" "ff_queue f \<noteq> []"
  shows "ff_step_ok c f (ff_send_head c down rs1 rs2 (f, st))"
proof -
  obtain r rest where q: "ff_queue f = r # rest" using assms(3) by (cases "ff_queue f") auto
  obtain st' a where d: "down st r = (st', a)" by (metis prod.exhaust)
  show ?thesis
    using assms q d ff_head_done_ok[OF assms(1,3), of rs1 rs2 st']
    by (cases a) (auto simp: ff_send_head_def ff_step_ok_def ff_inv_def ff_queue_ok_def ff_retry_ok_def)
qed

lemma ff_inv_parts: "ff_inv c f \<Longrightarrow> ff_queue_ok c f \<and> ff_retry_ok c f"
  by (simp add: ff_inv_def ff_queue_ok_def ff_retry_ok_def)

lemma ff_pump_handler_ok:
  assumes "ff_inv c f"
  shows "ff_step_ok c f (ff_pump_handler c down rs1 rs2 (f, st))"
proof (cases "ff_downstream_busy f \<or> ff_queue f = []")
  case True
  then show ?thesis using assms by (auto simp: ff_pump_handler_def ff_step_ok_def ff_inv_def)
next
  case False
  have "ff_step_ok c (f\<lparr>ff_pump := None\<rparr>) (ff_send_head c down rs1 rs2 (f\<lparr>ff_pump := None\<rparr>, st))"
    using ff_inv_parts[OF assms] False by (intro ff_send_head_ok) (auto simp: ff_queue_ok_def ff_retry_ok_def)
  then show ?thesis using False ff_step_ok_cong[of "f\<lparr>ff_pump := None\<rparr>" f] by (simp add: ff_pump_handler_def)
qed

lemma ff_output_retry_ok:
  assumes "ff_inv c f"
  shows "ff_step_ok c f (ff_output_retry c down rs1 rs2 (f, st))"
proof (cases "ff_downstream_stalled f")
  case False
  then show ?thesis using assms by (simp add: ff_output_retry_def ff_step_ok_def)
next
  case True
  let ?f = "f\<lparr>ff_downstream_stalled := False\<rparr>"
  have "ff_step_ok c ?f (ff_send_head c down rs1 rs2 (?f, st))"
    using ff_inv_parts[OF assms] True assms
    by (intro ff_send_head_ok) (auto simp: ff_queue_ok_def ff_retry_ok_def ff_inv_def)
  then show ?thesis using True ff_step_ok_cong[of ?f f] by (simp add: ff_output_retry_def)
qed

lemma ff_output_resp_ok:
  assumes "ff_inv c f" "ff_downstream_busy f"
  shows "\<exists>f' st' es. ff_output_resp c rs1 rs2 (f, st) = Some ((f', st'), es, IO_RESP_ACCEPTED) \<and>
    ff_inv c f' \<and> ff_queue f @ ff_accepted es = ff_responded es @ ff_queue f'"
proof -
  have "ff_queue f \<noteq> []" using assms by (simp add: ff_inv_def)
  from ff_head_done_ok[OF _ this, of c rs1 rs2 st] ff_inv_parts[OF assms(1)]
  show ?thesis by (auto simp: ff_output_resp_def ff_step_ok_def split: option.splits)
qed

lemma ff_run_inv:
  "ff_run c es so \<Longrightarrow>
     \<exists>f st. so = Some (f, st) \<and> ff_inv c f \<and> ff_accepted es = ff_responded es @ ff_queue f"
proof (induction rule: ff_run.induct)
  case (Init st)
  then show ?case by (simp add: ff_init_def ff_inv_def)
next
  case (Submit es s rs s' es')
  then obtain f st f' st' where s: "s = (f, st)" "s' = (f', st')" by (metis prod.exhaust)
  then show ?case using Submit ff_submit_extends[of c f st rs f' st' es'] by (auto simp: ff_extends_def)
next
  case (Pump es f st down rs1 rs2 s' es')
  then show ?case using ff_pump_handler_ok[of c f down rs1 rs2 st] by (auto simp: ff_step_ok_def)
next
  case (Pump_UB es f st down rs1 rs2)
  then show ?case using ff_pump_handler_ok[of c f down rs1 rs2 st] by (auto simp: ff_step_ok_def)
next
  case (Resp es f st rs1 rs2 st' s' es' ack)
  then show ?case using ff_output_resp_ok[of c f rs1 rs2 st'] by auto
next
  case (Resp_UB es f st rs1 rs2 st')
  then show ?case using ff_output_resp_ok[of c f rs1 rs2 st'] by auto
next
  case (Retry es s down rs1 rs2 s' es')
  then obtain f st where "s = (f, st)" by (metis prod.exhaust)
  then show ?case using Retry ff_output_retry_ok[of c f down rs1 rs2 st] by (auto simp: ff_step_ok_def)
next
  case (Retry_UB es s down rs1 rs2)
  then obtain f st where "s = (f, st)" by (metis prod.exhaust)
  then show ?case using Retry_UB ff_output_retry_ok[of c f down rs1 rs2 st] by (auto simp: ff_step_ok_def)
qed

section \<open>Properties\<close>

text \<open>
  C7. The FIFO neither loses, duplicates nor reorders requests: after any interleaving the run is
  free of undefined behaviour, the requests granted so far are those answered so far followed by
  the buffered ones, in the same order, and no more than the configured depth are buffered.
\<close>

theorem ff_order:
  assumes "ff_run c es so"
  shows "\<exists>f st. so = Some (f, st) \<and> ff_accepted es = ff_responded es @ ff_queue f \<and>
    int (length (ff_queue f)) \<le> max 0 (ff_depth c)"
  using ff_run_inv[OF assms] by (auto simp: ff_inv_def)

definition ff_demo_req :: io_req where
  "ff_demo_req = \<lparr>r_addr = 0x10, r_size = 4, r_data = 0, r_second_data = 0, r_strb = 0, r_is_write = False,
     r_opcode = OP_READ, r_initiator = 0, r_latency = 0, r_resp_status = IO_RESP_OK,
     r_remaining_size = 0, r_memcheck_data = 0, r_memcheck_data_id = 0\<rparr>"

text \<open>A FIFO of depth 2 that took requests 7 and 8 and denied 9, then answered 7.\<close>

lemma ff_demo_full:
  "ff_run \<lparr>ff_depth = 2, ff_latency = 1\<rparr> [Ev_Granted 7, Ev_Granted 8, Ev_Denied 9]
     (Some (ff_init\<lparr>ff_queue := [7, 8], ff_input_needs_retry := True, ff_pump := Some 1\<rparr>, \<lambda>_. ff_demo_req))"
proof -
  have "ff_submit \<lparr>ff_depth = 2, ff_latency = 1\<rparr> (ff_init, \<lambda>_. ff_demo_req) [7, 8, 9] =
      ((ff_init\<lparr>ff_queue := [7, 8], ff_input_needs_retry := True, ff_pump := Some 1\<rparr>, \<lambda>_. ff_demo_req),
       [Ev_Granted 7, Ev_Granted 8, Ev_Denied 9])"
    by (auto simp: ff_input_req_def ff_init_def ff_demo_req_def Let_def)
  from ff_run.Submit[OF ff_run.Init this] show ?thesis by simp
qed

lemma ff_demo_pumped:
  "ff_run \<lparr>ff_depth = 2, ff_latency = 1\<rparr> [Ev_Granted 7, Ev_Granted 8, Ev_Denied 9, Ev_Resp 7, Ev_Retry, Ev_Granted 9]
     (Some (ff_init\<lparr>ff_queue := [8, 9], ff_pump := Some 1\<rparr>, \<lambda>_. ff_demo_req))"
proof -
  let ?f = "ff_init\<lparr>ff_queue := [7, 8], ff_input_needs_retry := True, ff_pump := Some 1\<rparr>"
  have "ff_pump_handler \<lparr>ff_depth = 2, ff_latency = 1\<rparr> (\<lambda>st r. (st, IO_REQ_DONE)) [] [9] (?f, \<lambda>_. ff_demo_req) =
      Some ((ff_init\<lparr>ff_queue := [8, 9], ff_pump := Some 1\<rparr>, \<lambda>_. ff_demo_req), [Ev_Resp 7, Ev_Retry, Ev_Granted 9])"
    by (auto simp: ff_pump_handler_def ff_send_head_def ff_head_done_def ff_input_req_def ff_init_def
        ff_demo_req_def Let_def)
  from ff_run.Pump[OF ff_demo_full _ this] show ?thesis by simp
qed

theorem ff_order_witness:
  "\<exists>f. ff_queue f = [8, 9] \<and>
     ff_run \<lparr>ff_depth = 2, ff_latency = 1\<rparr>
       [Ev_Granted 7, Ev_Granted 8, Ev_Denied 9, Ev_Resp 7, Ev_Retry, Ev_Granted 9] (Some (f, \<lambda>_. ff_demo_req)) \<and>
     [7, 8, 9] = [7] @ ff_queue f"
proof -
  from ff_order[OF ff_demo_pumped] have "[7, 8, 9] =
      [7] @ ff_queue (ff_init\<lparr>ff_queue := [8, 9], ff_pump := Some 1\<rparr>)" by simp
  with ff_demo_pumped show ?thesis by force
qed

text \<open>
  Nothing gets stuck: in every reachable state a buffered request is either outstanding
  downstream or has a pump event armed, and a master that was denied has a full FIFO ahead of it,
  so that the completion of the head sends the owed retry (when the master does not itself refill
  the slot from its response callback).
\<close>

theorem ff_not_stuck:
  assumes run: "ff_run c es (Some (f, st))"
  shows "(ff_queue f \<noteq> [] \<longrightarrow> ff_downstream_busy f \<or> ff_pump f \<noteq> None) \<and>
    (ff_input_needs_retry f \<and> 0 < ff_depth c \<longrightarrow> int (length (ff_queue f)) = ff_depth c \<and>
       (\<exists>s' es'. ff_head_done c [] rs2 (f, st') = Some (s', es') \<and> Ev_Retry \<in> set es'))"
proof -
  have inv: "ff_inv c f" using ff_run_inv[OF run] by auto
  have "\<exists>s' es'. ff_head_done c [] rs2 (f, st') = Some (s', es') \<and> Ev_Retry \<in> set es'"
    if n: "ff_input_needs_retry f" "0 < ff_depth c"
  proof -
    obtain r rest where q: "ff_queue f = r # rest" using n inv by (cases "ff_queue f") (auto simp: ff_inv_def)
    then have "int (length rest) < ff_depth c" using inv n(2) by (simp add: ff_inv_def)
    then show ?thesis using q n(1) by (auto simp: ff_head_done_def Let_def split: prod.splits)
  qed
  then show ?thesis using inv by (auto simp: ff_inv_def)
qed

theorem ff_not_stuck_witness:
  "let f = ff_init\<lparr>ff_queue := [7, 8], ff_input_needs_retry := True, ff_pump := Some 1\<rparr> in
   ff_input_needs_retry f \<and>
   (\<exists>s' es'. ff_head_done \<lparr>ff_depth = 2, ff_latency = 1\<rparr> [] [9] (f, \<lambda>_. ff_demo_req) = Some (s', es') \<and>
      Ev_Retry \<in> set es')"
  using ff_not_stuck[OF ff_demo_full, of "[9]" "\<lambda>_. ff_demo_req"] by (simp add: ff_init_def)

text \<open>Pump events one after the other; \<open>None\<close> when no event is armed.\<close>

fun ff_pumps ::
  "fifo_config \<Rightarrow> downstream \<Rightarrow> nat \<Rightarrow> fifo_state \<Rightarrow> (fifo_state \<times> up_event list) option" where
  "ff_pumps c down 0 s = Some (s, [])"
| "ff_pumps c down (Suc n) s =
     (if ff_pump (fst s) = None then None
      else do {
        (s1, es1) \<leftarrow> ff_pump_handler c down [] [] s;
        (s2, es2) \<leftarrow> ff_pumps c down n s1;
        Some (s2, es1 @ es2)
      })"

lemma ff_pump_pops:
  assumes inv: "ff_inv c f" "\<not> ff_downstream_busy f" and q: "ff_queue f = r # rest"
    and down: "\<And>st r. snd (down st r) = IO_REQ_DONE"
  shows "\<exists>f' st' es. ff_pump_handler c down [] [] (f, st) = Some ((f', st'), es) \<and>
    ff_inv c f' \<and> \<not> ff_downstream_busy f' \<and> ff_queue f' = rest \<and> ff_responded es = [r]"
proof -
  obtain st' where "down st r = (st', IO_REQ_DONE)" using down[of st r] by (metis prod.collapse)
  then show ?thesis using inv q
    by (auto simp: ff_pump_handler_def ff_send_head_def ff_head_done_def ff_inv_def Let_def)
qed

lemma ff_pumps_drain:
  assumes down: "\<And>st r. snd (down st r) = IO_REQ_DONE"
  shows "ff_inv c f \<Longrightarrow> \<not> ff_downstream_busy f \<Longrightarrow>
    \<exists>f' st' es. ff_pumps c down (length (ff_queue f)) (f, st) = Some ((f', st'), es) \<and>
      ff_queue f' = [] \<and> ff_responded es = ff_queue f"
proof (induction "ff_queue f" arbitrary: f st)
  case Nil
  then show ?case by simp
next
  case (Cons r rest)
  have p: "ff_pump f \<noteq> None" using Cons.prems Cons.hyps(2) by (auto simp: ff_inv_def)
  obtain f1 st1 es1 where s1: "ff_pump_handler c down [] [] (f, st) = Some ((f1, st1), es1)"
    "ff_inv c f1" "\<not> ff_downstream_busy f1" "ff_queue f1 = rest" "ff_responded es1 = [r]"
    using ff_pump_pops[where st = st and down = down, OF Cons.prems Cons.hyps(2)[symmetric] down] by blast
  from Cons.hyps(1)[OF s1(4)[symmetric] s1(2,3), of st1] obtain f2 st2 es2
    where s2: "ff_pumps c down (length rest) (f1, st1) = Some ((f2, st2), es2)"
      "ff_queue f2 = []" "ff_responded es2 = rest" using s1(4) by auto
  have "length (ff_queue f) = Suc (length rest)" using Cons.hyps(2) by (metis length_Cons)
  then show ?case using p s1 s2 Cons.hyps(2) by auto
qed

text \<open>
  The FIFO drains: in any reachable state with no request outstanding, and a downstream that
  completes requests inline, as many pump events as there are buffered requests are armed one
  after the other, answer exactly those requests in order, and leave the FIFO empty.
\<close>

theorem ff_drains:
  assumes "ff_run c es (Some (f, st))" "\<not> ff_downstream_busy f" "\<And>st r. snd (down st r) = IO_REQ_DONE"
  shows "\<exists>f' st' es'. ff_pumps c down (length (ff_queue f)) (f, st) = Some ((f', st'), es') \<and>
    ff_queue f' = [] \<and> ff_responded es' = ff_queue f"
  using ff_run_inv[OF assms(1)] ff_pumps_drain[where down = down and c = c and f = f and st = st, OF assms(3)] assms(2) by auto

theorem ff_drains_witness:
  "\<exists>f' st' es'. ff_pumps \<lparr>ff_depth = 2, ff_latency = 1\<rparr> (\<lambda>st r. (st, IO_REQ_DONE)) 2
      (ff_init\<lparr>ff_queue := [8, 9], ff_pump := Some 1\<rparr>, \<lambda>_. ff_demo_req) = Some ((f', st'), es') \<and>
    ff_queue f' = [] \<and> ff_responded es' = [8, 9]"
  using ff_drains[OF ff_demo_pumped, of "\<lambda>st r. (st, IO_REQ_DONE)"]
  by (simp add: ff_init_def numeral_2_eq_2)

end
