(* ===== verification/Splitter_V2.thy ===== *)
theory Splitter_V2
  imports IO_V2
begin

text \<open>
  The width splitter of \<^verbatim>\<open>src/models/interco/splitter_v2.cpp\<close>: a request is cut at multiples of the
  output width, chunk \<open>i\<close> goes to output \<open>i\<close>, and the parent request itself aggregates the chunks
  (remaining size, worst latency, error). Any number of parents are in flight; a chunk that is
  denied is parked on its output.

  Parents live in the shared request store; a sub-request is a request with its parent link. The
  free list of sub-request objects and the GUI traces are left out. \<open>None\<close> is \<^verbatim>\<open>trace.fatal\<close>.
\<close>

section \<open>State\<close>

record splitter_config =
  sp_input_width :: u64
  sp_output_width :: u64

definition sp_nb_outputs :: "splitter_config \<Rightarrow> nat" where
  "sp_nb_outputs c = unat (sp_input_width c div sp_output_width c)"

record sub_req =
  sub_parent :: req_ref
  sub_io :: io_req

record splitter =
  sp_stuck :: "sub_req option list"
  sp_input_needs_retry :: bool

definition sp_init :: "splitter_config \<Rightarrow> splitter" where
  "sp_init c = \<lparr>sp_stuck = replicate (sp_nb_outputs c) None, sp_input_needs_retry = False\<rparr>"

text \<open>
  The outputs' answers to a chunk: the chunk as the downstream left it and the status. Requests
  that are granted are handed over to the downstream: \<open>flight\<close> lists them with their output.
\<close>

type_synonym sp_outs = "nat \<Rightarrow> io_req \<Rightarrow> io_req \<times> io_req_status"
type_synonym sp_flight = "(nat \<times> sub_req) list"
type_synonym sp_state = "splitter \<times> req_store"

section \<open>Operations\<close>

definition sp_reset :: "bool \<Rightarrow> splitter \<Rightarrow> splitter" where
  "sp_reset active sp =
     (if active
      then sp\<lparr>sp_input_needs_retry := False, sp_stuck := replicate (length (sp_stuck sp)) None\<rparr>
      else sp)"

definition sp_any_stuck :: "splitter \<Rightarrow> bool" where
  "sp_any_stuck sp \<longleftrightarrow> (\<exists>s \<in> set (sp_stuck sp). s \<noteq> None)"

definition sp_account :: "sub_req \<Rightarrow> req_store \<Rightarrow> req_store" where
  "sp_account sub st =
     (let p = st (sub_parent sub);
          p1 = (if r_resp_status (sub_io sub) = IO_RESP_INVALID
                then p\<lparr>r_resp_status := IO_RESP_INVALID\<rparr> else p);
          lat = r_latency (sub_io sub);
          p2 = (if lat > r_latency p1 then p1\<lparr>r_latency := lat\<rparr> else p1);
          p3 = p2\<lparr>r_remaining_size := r_remaining_size p2 - r_size (sub_io sub)\<rparr>
      in st(sub_parent sub := p3))"

text \<open>The size of the chunk that starts at \<open>addr\<close> when \<open>sz\<close> bytes are left.\<close>

definition sp_iter_size :: "splitter_config \<Rightarrow> u64 \<Rightarrow> u64 \<Rightarrow> u64" where
  "sp_iter_size c addr sz =
     min (sp_output_width c - (addr AND (sp_output_width c - 1))) sz"

text \<open>
  The chunk loop, on the outputs from \<open>i\<close> on, of which \<open>n\<close> are left. \<open>fresh\<close> is a sub-request object
  after \<^verbatim>\<open>prepare()\<close>.
\<close>

fun sp_issue_loop ::
  "splitter_config \<Rightarrow> sp_outs \<Rightarrow> io_req \<Rightarrow> req_ref \<Rightarrow> io_opcode \<Rightarrow> nat \<Rightarrow> nat \<Rightarrow> u64 \<Rightarrow> ptr \<Rightarrow> u64 \<Rightarrow>
   sp_state \<Rightarrow> sp_state \<times> sp_flight" where
  "sp_issue_loop c outs fresh p op 0 i addr data sz s = (s, [])"
| "sp_issue_loop c outs fresh p op (Suc n) i addr data sz (sp, st) =
     (if sz > 0 then
        let iter_size = sp_iter_size c addr sz;
            io = fresh\<lparr>r_addr := addr, r_size := iter_size, r_data := data, r_opcode := op,
                       r_resp_status := IO_RESP_OK\<rparr>
        in case outs i io of (io', ack) \<Rightarrow>
          (let sub = \<lparr>sub_parent = p, sub_io = io'\<rparr>;
               s1 = (case ack of
                       IO_REQ_DENIED \<Rightarrow> (sp\<lparr>sp_stuck := (sp_stuck sp)[i := Some sub]\<rparr>, st)
                     | IO_REQ_DONE \<Rightarrow> (sp, sp_account sub st)
                     | IO_REQ_GRANTED \<Rightarrow> (sp, st));
               fl = (if ack = IO_REQ_GRANTED then [(i, sub)] else [])
           in case sp_issue_loop c outs fresh p op n (Suc i) (addr + iter_size)
                     (data + unat iter_size) (sz - iter_size) s1 of
                (s2, fl2) \<Rightarrow> (s2, fl @ fl2))
      else ((sp, st), []))"

definition sp_issue ::
  "splitter_config \<Rightarrow> sp_outs \<Rightarrow> io_req \<Rightarrow> req_ref \<Rightarrow> sp_state \<Rightarrow> sp_state \<times> sp_flight \<times> io_req_status" where
  "sp_issue c outs fresh p = (\<lambda>(sp, st).
     (let r = st p;
          st1 = st(p := r\<lparr>r_remaining_size := r_size r, r_latency := 0, r_resp_status := IO_RESP_OK\<rparr>)
      in case sp_issue_loop c outs fresh p (r_opcode r) (sp_nb_outputs c) 0 (r_addr r) (r_data r)
                (r_size r) (sp, st1) of
           ((sp2, st2), fl) \<Rightarrow>
             ((sp2, st2), fl,
              if r_remaining_size (st2 p) = 0 then IO_REQ_DONE else IO_REQ_GRANTED)))"

definition sp_input_req ::
  "splitter_config \<Rightarrow> sp_outs \<Rightarrow> io_req \<Rightarrow> req_ref \<Rightarrow> sp_state \<Rightarrow>
   (sp_state \<times> sp_flight \<times> io_req_status) option" where
  "sp_input_req c outs fresh p = (\<lambda>(sp, st).
     (if sp_any_stuck sp
      then Some ((sp\<lparr>sp_input_needs_retry := True\<rparr>, st), [], IO_REQ_DENIED)
      else if r_size (st p) = 0
      then Some ((sp, st(p := (st p)\<lparr>r_resp_status := IO_RESP_OK\<rparr>)), [], IO_REQ_DONE)
      else if (r_addr (st p) AND (sp_output_width c - 1)) + r_size (st p) > sp_input_width c
      then None
      else Some (sp_issue c outs fresh p (sp, st))))"

definition sp_output_resp :: "sub_req \<Rightarrow> req_store \<Rightarrow> req_store \<times> up_event list \<times> io_resp_ack" where
  "sp_output_resp sub st =
     (let st1 = sp_account sub st
      in (st1, if r_remaining_size (st1 (sub_parent sub)) = 0 then [Ev_Resp (sub_parent sub)] else [],
          IO_RESP_ACCEPTED))"

text \<open>
  Requests submitted one after the other: the object, what the master wrote into it, and the
  answers its chunks get.
\<close>

type_synonym sp_submission = "req_ref \<times> io_req \<times> sp_outs"

fun sp_submit ::
  "splitter_config \<Rightarrow> io_req \<Rightarrow> sp_submission list \<Rightarrow> sp_state \<Rightarrow>
   (sp_state \<times> sp_flight \<times> up_event list) option" where
  "sp_submit c fresh [] s = Some (s, [], [])"
| "sp_submit c fresh ((p, r, outs) # rs) (sp, st) = do {
     (s1, fl1, ack) \<leftarrow> sp_input_req c outs fresh p (sp, st(p := r));
     (s2, fl2, es) \<leftarrow> sp_submit c fresh rs s1;
     Some (s2, fl1 @ fl2,
       (case ack of IO_REQ_DONE \<Rightarrow> Ev_Done p | IO_REQ_GRANTED \<Rightarrow> Ev_Granted p
        | IO_REQ_DENIED \<Rightarrow> Ev_Denied p) # es)
   }"

text \<open>\<open>rs1\<close> are submitted by the master from inside its \<^verbatim>\<open>resp()\<close> callback.\<close>

definition sp_output_retry ::
  "splitter_config \<Rightarrow> sp_outs \<Rightarrow> io_req \<Rightarrow> sp_submission list \<Rightarrow> nat \<Rightarrow> sp_state \<Rightarrow>
   (sp_state \<times> sp_flight \<times> up_event list) option" where
  "sp_output_retry c outs fresh rs1 i = (\<lambda>(sp, st).
     (case sp_stuck sp ! i of
        None \<Rightarrow> Some ((sp, st), [], [])
      | Some sub \<Rightarrow>
          (let sp1 = sp\<lparr>sp_stuck := (sp_stuck sp)[i := None]\<rparr>
           in case outs i (sub_io sub) of (io', ack) \<Rightarrow>
             (let sub' = sub\<lparr>sub_io := io'\<rparr>
              in if ack = IO_REQ_DENIED
                 then Some ((sp1\<lparr>sp_stuck := (sp_stuck sp1)[i := Some sub']\<rparr>, st), [], [])
                 else do {
                   ((sp2, st2), fl, es) \<leftarrow>
                     (if ack = IO_REQ_DONE then
                        let st1 = sp_account sub' st
                        in if r_remaining_size (st1 (sub_parent sub)) = 0
                           then do {
                             (s, fl, es) \<leftarrow> sp_submit c fresh rs1 (sp1, st1);
                             Some (s, fl, Ev_Resp (sub_parent sub) # es)
                           }
                           else Some ((sp1, st1), [], [])
                      else Some ((sp1, st), [(i, sub')], []));
                   (if sp_input_needs_retry sp2 \<and> \<not> sp_any_stuck sp2
                    then Some ((sp2\<lparr>sp_input_needs_retry := False\<rparr>, st2), fl, es @ [Ev_Retry])
                    else Some ((sp2, st2), fl, es))
                 }))))"

definition sp_debug_mem_access :: "'s debug_mem option \<Rightarrow> 's debug_mem" where
  "sp_debug_mem_access child s a data sz w =
     (case child of None \<Rightarrow> (s, True) | Some acc \<Rightarrow> acc s a data sz w)"

end
