(* ===== verification/Splitter_V2_Props.thy ===== *)
theory Splitter_V2_Props
  imports Splitter_V2
begin

text \<open>
  Correctness of the splitter: the chunks tile the request, every byte of a parent is accounted
  for at any time (remaining size is the size of its outstanding chunks), a granted parent is
  answered exactly once, and a refused master is owed a retry only while a chunk is parked.
\<close>

section \<open>Configuration and chunk arithmetic\<close>

text \<open>The output width is a power of two and divides the input width.\<close>

definition sp_ok :: "splitter_config \<Rightarrow> nat \<Rightarrow> bool" where
  "sp_ok c k \<longleftrightarrow> k < 64 \<and> sp_output_width c = push_bit k 1 \<and>
     unat (sp_input_width c) = sp_nb_outputs c * 2 ^ k"

lemma width_mask: "(push_bit k 1 - 1 :: u64) = mask k"
  by (simp add: mask_eq_exp_minus_1 push_bit_eq_mult)

lemma unat_width:
  assumes "k < 64"
  shows "unat (push_bit k 1 :: u64) = 2 ^ k"
proof -
  have "(2::nat) ^ k < 2 ^ 64" using assms by (intro power_strict_increasing) auto
  then have "unat (of_nat (2 ^ k) :: u64) = 2 ^ k" by (subst unat_of_nat) simp
  then show ?thesis by (simp add: push_bit_eq_mult)
qed

lemma unat_misalign: "unat (a AND (push_bit k 1 - 1) :: u64) = unat a mod 2 ^ k"
proof -
  have "unat (a AND (push_bit k 1 - 1)) = unat (take_bit k a)"
    unfolding width_mask by (simp only: take_bit_eq_mask)
  also have "\<dots> = take_bit k (unat a)" by (rule unsigned_take_bit_eq)
  finally show ?thesis by (simp only: take_bit_eq_mod)
qed

lemma unat_iter_size:
  assumes "sp_ok c k"
  shows "unat (sp_iter_size c a sz) = min (2 ^ k - unat a mod 2 ^ k) (unat sz)"
proof -
  have k: "k < 64" and w: "sp_output_width c = push_bit k 1" using assms by (auto simp: sp_ok_def)
  let ?m = "a AND (push_bit k 1 - 1)"
  have le: "?m \<le> push_bit k 1"
    unfolding word_le_nat_alt unat_misalign unat_width[OF k] by (simp add: less_imp_le)
  have e: "unat (push_bit k 1 - ?m) = 2 ^ k - unat a mod 2 ^ k"
    unfolding unat_sub[OF le] unat_misalign unat_width[OF k] ..
  show ?thesis
    unfolding sp_iter_size_def w e[symmetric] by (simp add: min_def word_le_nat_alt)
qed

text \<open>One chunk: it makes progress, stays inside an output-wide window, and leaves the rest aligned.\<close>

lemma sp_iter_step:
  assumes ok: "sp_ok c k" and pos: "sz > 0"
    and fits: "unat a mod 2 ^ k + unat sz \<le> Suc n * 2 ^ k"
  shows "0 < unat (sp_iter_size c a sz)" "unat (sp_iter_size c a sz) \<le> unat sz"
    "unat a mod 2 ^ k + unat (sp_iter_size c a sz) \<le> 2 ^ k"
    "unat (sz - sp_iter_size c a sz) = unat sz - unat (sp_iter_size c a sz)"
    "sz - sp_iter_size c a sz = 0 \<or>
     unat (a + sp_iter_size c a sz) mod 2 ^ k + unat (sz - sp_iter_size c a sz) \<le> n * 2 ^ k"
proof -
  let ?i = "sp_iter_size c a sz" and ?W = "2 ^ k :: nat"
  note u = unat_iter_size[OF ok, of a sz]
  have m: "unat a mod ?W < ?W" by simp
  have s: "0 < unat sz" using pos by (simp add: word_less_nat_alt)
  show "0 < unat ?i" using u m s by simp
  show le: "unat ?i \<le> unat sz" using u by simp
  show "unat a mod ?W + unat ?i \<le> ?W" using u m by linarith
  show d: "unat (sz - ?i) = unat sz - unat ?i" using le by (simp add: unat_sub word_le_nat_alt)
  show "sz - ?i = 0 \<or> unat (a + ?i) mod ?W + unat (sz - ?i) \<le> n * ?W"
  proof (cases "?W - unat a mod ?W \<le> unat sz")
    case True
    then have i: "unat ?i = ?W - unat a mod ?W" using u by simp
    have k: "k < 64" using ok by (simp add: sp_ok_def)
    have "unat (a + ?i) mod ?W = (unat a + unat ?i) mod ?W"
    proof -
      have "?W dvd 2 ^ 64" using k by (intro le_imp_power_dvd) simp
      moreover have "unat (a + ?i) = (unat a + unat ?i) mod 2 ^ 64" by (simp add: unat_word_ariths)
      ultimately show ?thesis by (simp add: mod_mod_cancel)
    qed
    also have "\<dots> = (unat a mod ?W + unat ?i) mod ?W" by (simp add: mod_add_left_eq)
    also have "\<dots> = 0" using i m by simp
    finally have "unat (a + ?i) mod ?W = 0" .
    then show ?thesis unfolding d i using fits m by auto
  next
    case False
    then have "?i = sz" using u by (simp add: word_unat_eq_iff)
    then show ?thesis by simp
  qed
qed

text \<open>
  The guard of \<^verbatim>\<open>input_req\<close> bounds the number of chunks by the number of outputs, for requests on
  which its 64-bit sum does not wrap.
\<close>

definition sp_no_wrap :: "nat \<Rightarrow> io_req \<Rightarrow> bool" where
  "sp_no_wrap k r \<longleftrightarrow> unat (r_addr r) mod 2 ^ k + unat (r_size r) < 2 ^ 64"

lemma sp_guard_fits:
  assumes ok: "sp_ok c k" and nw: "sp_no_wrap k r"
    and g: "\<not> (r_addr r AND (sp_output_width c - 1)) + r_size r > sp_input_width c"
  shows "unat (r_addr r) mod 2 ^ k + unat (r_size r) \<le> sp_nb_outputs c * 2 ^ k"
proof -
  let ?m = "r_addr r AND (push_bit k 1 - 1)"
  have "unat (?m + r_size r) = unat ?m + unat (r_size r)"
    using nw unat_misalign[of "r_addr r" k] by (simp add: unat_word_ariths sp_no_wrap_def)
  then show ?thesis
    using g ok unat_misalign[of "r_addr r" k] by (simp add: sp_ok_def not_less word_le_nat_alt)
qed

section \<open>Outstanding chunks\<close>

text \<open>The bytes of parent \<open>p\<close> in a chunk, in the parked chunks and in all outstanding ones.\<close>

definition sub_bytes :: "req_ref \<Rightarrow> sub_req \<Rightarrow> nat" where
  "sub_bytes p s = (if sub_parent s = p then unat (r_size (sub_io s)) else 0)"

definition stuck_bytes :: "req_ref \<Rightarrow> splitter \<Rightarrow> nat" where
  "stuck_bytes p sp = sum_list (map (\<lambda>x. case x of None \<Rightarrow> 0 | Some s \<Rightarrow> sub_bytes p s) (sp_stuck sp))"

definition flight_bytes :: "req_ref \<Rightarrow> sp_flight \<Rightarrow> nat" where
  "flight_bytes p fl = sum_list (map (\<lambda>(i, s). sub_bytes p s) fl)"

definition sp_subs :: "splitter \<Rightarrow> sp_flight \<Rightarrow> sub_req set" where
  "sp_subs sp fl = {s. Some s \<in> set (sp_stuck sp)} \<union> snd ` set fl"

definition sizes_pos :: "splitter \<Rightarrow> sp_flight \<Rightarrow> bool" where
  "sizes_pos sp fl \<longleftrightarrow> (\<forall>s \<in> sp_subs sp fl. r_size (sub_io s) > 0)"

lemma flight_bytes_simps [simp]:
  "flight_bytes p [] = 0"
  "flight_bytes p ((i, s) # fl) = sub_bytes p s + flight_bytes p fl"
  "flight_bytes p (fl @ fl') = flight_bytes p fl + flight_bytes p fl'"
  by (simp_all add: flight_bytes_def)

lemma stuck_bytes_update:
  assumes "i < length (sp_stuck sp)" "sp_stuck sp ! i = None"
  shows "stuck_bytes p (sp\<lparr>sp_stuck := (sp_stuck sp)[i := Some s]\<rparr>) = stuck_bytes p sp + sub_bytes p s"
  using assms by (simp add: stuck_bytes_def map_update sum_list_update)

lemma stuck_bytes_clear:
  assumes "i < length (sp_stuck sp)" "sp_stuck sp ! i = Some s"
  shows "stuck_bytes p sp = stuck_bytes p (sp\<lparr>sp_stuck := (sp_stuck sp)[i := None]\<rparr>) + sub_bytes p s"
proof -
  let ?f = "\<lambda>x. case x of None \<Rightarrow> 0 | Some s \<Rightarrow> sub_bytes p s"
  have "sub_bytes p s = map ?f (sp_stuck sp) ! i" using assms by simp
  also have "\<dots> \<le> sum_list (map ?f (sp_stuck sp))" using assms(1) by (intro elem_le_sum_list) simp
  finally have "sub_bytes p s \<le> sum_list (map ?f (sp_stuck sp))" .
  then show ?thesis using assms by (simp add: stuck_bytes_def map_update sum_list_update)
qed

lemma stuck_bytes_retry [simp]: "stuck_bytes p (sp\<lparr>sp_input_needs_retry := b\<rparr>) = stuck_bytes p sp"
  by (simp add: stuck_bytes_def)

lemma sp_account_other [simp]: "q \<noteq> sub_parent s \<Longrightarrow> sp_account s st q = st q"
  by (simp add: sp_account_def Let_def)

lemma sp_account_remaining:
  assumes "unat (r_size (sub_io s)) \<le> unat (r_remaining_size (st (sub_parent s)))"
  shows "unat (r_remaining_size (sp_account s st (sub_parent s))) =
    unat (r_remaining_size (st (sub_parent s))) - unat (r_size (sub_io s))"
  using assms by (simp add: sp_account_def Let_def unat_sub word_le_nat_alt)

section \<open>The chunk loop accounts for every byte\<close>

definition keeps_size :: "sp_outs \<Rightarrow> bool" where
  "keeps_size outs \<longleftrightarrow> (\<forall>i io. r_size (fst (outs i io)) = r_size io)"

lemma sp_issue_loop_accounts:
  assumes ok: "sp_ok c k" and outs: "keeps_size outs"
  shows "sp_issue_loop c outs fresh p op n i a d sz (sp, st) = ((sp', st'), fl) \<Longrightarrow>
    sz = 0 \<or> unat a mod 2 ^ k + unat sz \<le> n * 2 ^ k \<Longrightarrow>
    i + n = length (sp_stuck sp) \<Longrightarrow> (\<And>j. i \<le> j \<Longrightarrow> j < length (sp_stuck sp) \<Longrightarrow> sp_stuck sp ! j = None) \<Longrightarrow>
    unat (r_remaining_size (st p)) = B + unat sz \<Longrightarrow> sizes_pos sp [] \<Longrightarrow>
    unat (r_remaining_size (st' p)) + stuck_bytes p sp = B + stuck_bytes p sp' + flight_bytes p fl \<and>
    (\<forall>q. q \<noteq> p \<longrightarrow> st' q = st q \<and> stuck_bytes q sp' = stuck_bytes q sp \<and> flight_bytes q fl = 0) \<and>
    length (sp_stuck sp') = length (sp_stuck sp) \<and> sizes_pos sp' fl \<and>
    sp_input_needs_retry sp' = sp_input_needs_retry sp \<and> (\<forall>(j, s) \<in> set fl. j < i + n)"
proof (induction n arbitrary: i a d sz sp st fl B)
  case 0
  then show ?case by (auto simp: sizes_pos_def sp_subs_def)
next
  case (Suc n)
  show ?case
  proof (cases "sz > 0")
    case False
    then have "sz = 0" by (simp add: word_neq_0_conv[symmetric])
    then show ?thesis using Suc.prems by (auto simp: sizes_pos_def sp_subs_def)
  next
    case True
    let ?it = "sp_iter_size c a sz"
    let ?io = "fresh\<lparr>r_addr := a, r_size := ?it, r_data := d, r_opcode := op, r_resp_status := IO_RESP_OK\<rparr>"
    have fits: "unat a mod 2 ^ k + unat sz \<le> Suc n * 2 ^ k" using Suc.prems(2) True by auto
    note it = sp_iter_step[OF ok True fits]
    obtain io' ack where o: "outs i ?io = (io', ack)" by (metis prod.exhaust)
    have sz': "r_size io' = ?it" using outs[unfolded keeps_size_def, rule_format, of i ?io] o by simp
    let ?sub = "\<lparr>sub_parent = p, sub_io = io'\<rparr>"
    have sb: "sub_bytes p ?sub = unat ?it" "q \<noteq> p \<Longrightarrow> sub_bytes q ?sub = 0" for q
      using sz' by (auto simp: sub_bytes_def)
    have pos: "r_size io' > 0" using it(1) sz' by (simp add: word_less_nat_alt)
    obtain sp1 st1 fl1 where s1: "(case ack of
          IO_REQ_DENIED \<Rightarrow> (sp\<lparr>sp_stuck := (sp_stuck sp)[i := Some ?sub]\<rparr>, st)
        | IO_REQ_DONE \<Rightarrow> (sp, sp_account ?sub st) | IO_REQ_GRANTED \<Rightarrow> (sp, st)) = (sp1, st1)"
      "fl1 = (if ack = IO_REQ_GRANTED then [(i, ?sub)] else [])" by (metis prod.exhaust)
    obtain fl2 where l: "sp_issue_loop c outs fresh p op n (Suc i) (a + ?it) (d + unat ?it) (sz - ?it) (sp1, st1) =
        ((sp', st'), fl2)" "fl = fl1 @ fl2"
      using Suc.prems(1) True o s1 by (auto simp: Let_def split: prod.splits)
    have i: "i < length (sp_stuck sp)" "sp_stuck sp ! i = None" using Suc.prems(3,4) by auto
    let ?B = "if ack = IO_REQ_DONE then B else B + unat ?it"
    have st1: "unat (r_remaining_size (st1 p)) = ?B + unat (sz - ?it)"
      using s1(1) Suc.prems(5) it(2,4) sz' sp_account_remaining[of ?sub st] by (cases ack) auto
    have len1: "Suc i + n = length (sp_stuck sp1)" using s1(1) Suc.prems(3) by (cases ack) auto
    have none1: "\<And>j. Suc i \<le> j \<Longrightarrow> j < length (sp_stuck sp1) \<Longrightarrow> sp_stuck sp1 ! j = None"
      using s1(1) Suc.prems(4) by (cases ack) auto
    have pos1: "sizes_pos sp1 []"
      using s1(1) Suc.prems(6) pos
      by (cases ack) (auto simp: sizes_pos_def sp_subs_def dest!: set_update_subset_insert[THEN subsetD])
    note IH = Suc.IH[OF l(1) it(5) len1 none1 st1 pos1]
    have b1: "stuck_bytes q sp1 + flight_bytes q fl1 =
        stuck_bytes q sp + (if q = p \<and> ack \<noteq> IO_REQ_DONE then unat ?it else 0)" for q
      using s1 sb stuck_bytes_update[OF i] by (cases ack) auto
    have r1: "sp_input_needs_retry sp1 = sp_input_needs_retry sp" "q \<noteq> p \<Longrightarrow> st1 q = st q" for q
      using s1(1) by (cases ack; force)+
    have f1: "sizes_pos sp' fl" "\<forall>(j, s) \<in> set fl. j < i + Suc n"
      using IH l(2) s1(2) pos by (auto simp: sizes_pos_def sp_subs_def)
    have fb: "flight_bytes p fl1 = (if ack = IO_REQ_GRANTED then unat ?it else 0)"
      "q \<noteq> p \<Longrightarrow> flight_bytes q fl1 = 0" for q using s1(2) sb by auto
    have "unat (r_remaining_size (st' p)) + stuck_bytes p sp = B + stuck_bytes p sp' + flight_bytes p fl"
      using IH b1[of p] fb(1) l(2) by (auto split: if_splits)
    moreover have "st' q = st q \<and> stuck_bytes q sp' = stuck_bytes q sp \<and> flight_bytes q fl = 0" if "q \<noteq> p" for q
      using IH b1[of q] fb(2)[OF that] r1(2)[OF that] l(2) that by auto
    moreover have "length (sp_stuck sp') = length (sp_stuck sp)" "sp_input_needs_retry sp' = sp_input_needs_retry sp"
      using IH r1(1) len1 Suc.prems(3) by auto
    ultimately show ?thesis using f1 by blast
  qed
qed

section \<open>Invariant\<close>

abbreviation out_bytes :: "req_ref \<Rightarrow> splitter \<Rightarrow> sp_flight \<Rightarrow> nat" where
  "out_bytes p sp fl \<equiv> stuck_bytes p sp + flight_bytes p fl"

definition sp_mid :: "splitter_config \<Rightarrow> splitter \<Rightarrow> req_store \<Rightarrow> sp_flight \<Rightarrow> bool" where
  "sp_mid c sp st fl \<longleftrightarrow>
     length (sp_stuck sp) = sp_nb_outputs c \<and> sizes_pos sp fl \<and>
     (\<forall>p. out_bytes p sp fl > 0 \<longrightarrow> unat (r_remaining_size (st p)) = out_bytes p sp fl)"

definition sp_inv :: "splitter_config \<Rightarrow> splitter \<Rightarrow> req_store \<Rightarrow> sp_flight \<Rightarrow> bool" where
  "sp_inv c sp st fl \<longleftrightarrow> sp_mid c sp st fl \<and> (sp_input_needs_retry sp \<longrightarrow> sp_any_stuck sp)"

lemma not_stuck_bytes:
  assumes "\<not> sp_any_stuck sp"
  shows "stuck_bytes p sp = 0" "j < length (sp_stuck sp) \<Longrightarrow> sp_stuck sp ! j = None"
proof -
  have "map (\<lambda>x. case x of None \<Rightarrow> 0 | Some s \<Rightarrow> sub_bytes p s) (sp_stuck sp) =
      map (\<lambda>x. 0) (sp_stuck sp)"
    using assms by (auto simp: sp_any_stuck_def)
  then show "stuck_bytes p sp = 0" by (simp add: stuck_bytes_def)
  show "j < length (sp_stuck sp) \<Longrightarrow> sp_stuck sp ! j = None"
    using assms nth_mem[of j "sp_stuck sp"] by (fastforce simp: sp_any_stuck_def)
qed

lemma sizes_pos_append:
  "sizes_pos sp (fl @ fl') \<longleftrightarrow> sizes_pos sp fl \<and> sizes_pos sp fl'"
  by (auto simp: sizes_pos_def sp_subs_def)

lemma sizes_pos_flight: "sizes_pos sp fl \<Longrightarrow> sizes_pos sp' [] \<Longrightarrow> sizes_pos sp' fl"
  by (auto simp: sizes_pos_def sp_subs_def)

lemma sp_input_req_mid:
  assumes ok: "sp_ok c k" and outs: "keeps_size outs" and mid: "sp_mid c sp st fl"
    and free: "out_bytes p sp fl = 0" and nw: "sp_no_wrap k r"
    and res: "sp_input_req c outs fresh p (sp, st(p := r)) = Some ((sp', st'), fl', ack)"
  shows "sp_mid c sp' st' (fl @ fl')"
    "q \<noteq> p \<Longrightarrow> out_bytes q sp' (fl @ fl') = out_bytes q sp fl"
    "0 < out_bytes p sp' (fl @ fl') \<longleftrightarrow> ack = IO_REQ_GRANTED"
    "sp_input_needs_retry sp' \<Longrightarrow> sp_input_needs_retry sp \<or> sp_any_stuck sp'"
proof -
  consider (denied) "sp' = sp\<lparr>sp_input_needs_retry := True\<rparr>" "fl' = []" "ack = IO_REQ_DENIED" "sp_any_stuck sp" "st' = st(p := r)"
    | (empty) "sp' = sp" "fl' = []" "ack = IO_REQ_DONE" "st' = st(p := r\<lparr>r_resp_status := IO_RESP_OK\<rparr>)"
    | (issue) "\<not> sp_any_stuck sp" "r_size r \<noteq> 0"
        "\<not> (r_addr r AND (sp_output_width c - 1)) + r_size r > sp_input_width c"
        "sp_issue c outs fresh p (sp, st(p := r)) = ((sp', st'), fl', ack)"
    using res by (auto simp: sp_input_req_def split: if_splits)
  then have R: "sp_mid c sp' st' (fl @ fl') \<and> (\<forall>q. q \<noteq> p \<longrightarrow> out_bytes q sp' (fl @ fl') = out_bytes q sp fl) \<and>
    (0 < out_bytes p sp' (fl @ fl') \<longleftrightarrow> ack = IO_REQ_GRANTED) \<and>
    (sp_input_needs_retry sp' \<longrightarrow> sp_input_needs_retry sp \<or> sp_any_stuck sp')"
  proof cases
    case denied
    then show ?thesis using mid free
      by (auto simp: sp_mid_def sizes_pos_def sp_subs_def sp_any_stuck_def)
  next
    case empty
    then show ?thesis using mid free by (auto simp: sp_mid_def)
  next
    case issue
    let ?st1 = "st(p := r\<lparr>r_remaining_size := r_size r, r_latency := 0, r_resp_status := IO_RESP_OK\<rparr>)"
    have loop: "sp_issue_loop c outs fresh p (r_opcode r) (sp_nb_outputs c) 0 (r_addr r) (r_data r) (r_size r) (sp, ?st1)
        = ((sp', st'), fl')"
      and ack: "ack = (if r_remaining_size (st' p) = 0 then IO_REQ_DONE else IO_REQ_GRANTED)"
      using issue(4) by (auto simp: sp_issue_def Let_def split: prod.splits)
    have fits: "unat (r_addr r) mod 2 ^ k + unat (r_size r) \<le> sp_nb_outputs c * 2 ^ k"
      by (rule sp_guard_fits[OF ok nw issue(3)])
    have len: "0 + sp_nb_outputs c = length (sp_stuck sp)" using mid by (simp add: sp_mid_def)
    note L = sp_issue_loop_accounts[OF ok outs loop disjI2[OF fits] len, of 0]
    note n = not_stuck_bytes[OF issue(1)]
    have L': "unat (r_remaining_size (st' p)) = stuck_bytes p sp' + flight_bytes p fl'"
      "\<And>q. q \<noteq> p \<Longrightarrow> st' q = st q \<and> stuck_bytes q sp' = stuck_bytes q sp \<and> flight_bytes q fl' = 0"
      "length (sp_stuck sp') = length (sp_stuck sp)" "sizes_pos sp' fl'"
      "sp_input_needs_retry sp' = sp_input_needs_retry sp"
      using L n mid by (auto simp: sp_mid_def sizes_pos_def sp_subs_def)
    have sz: "sizes_pos sp' (fl @ fl')"
      using L'(4) mid sizes_pos_flight[of sp fl sp'] unfolding sizes_pos_append
      by (auto simp: sp_mid_def sizes_pos_def sp_subs_def)
    have fp: "flight_bytes p fl = 0" using free by simp
    have "unat (r_remaining_size (st' q)) = out_bytes q sp' (fl @ fl')" if "out_bytes q sp' (fl @ fl') > 0" for q
      using that L'(1,2) fp mid by (cases "q = p") (auto simp: sp_mid_def)
    then have "sp_mid c sp' st' (fl @ fl')" using sz L'(3) mid by (simp add: sp_mid_def)
    moreover have "0 < out_bytes p sp' (fl @ fl') \<longleftrightarrow> ack = IO_REQ_GRANTED"
    proof -
      have "0 < out_bytes p sp' (fl @ fl') \<longleftrightarrow> unat (r_remaining_size (st' p)) \<noteq> 0" using L'(1) fp by auto
      also have "\<dots> \<longleftrightarrow> ack = IO_REQ_GRANTED" using ack by (simp add: unat_eq_0)
      finally show ?thesis .
    qed
    ultimately show ?thesis using L'(2,5) by auto
  qed
  show "sp_mid c sp' st' (fl @ fl')" using R by (rule conjunct1)
  show "q \<noteq> p \<Longrightarrow> out_bytes q sp' (fl @ fl') = out_bytes q sp fl" using R by metis
  show "0 < out_bytes p sp' (fl @ fl') \<longleftrightarrow> ack = IO_REQ_GRANTED"
    by (rule conjunct1[OF conjunct2[OF conjunct2[OF R]]])
  show "sp_input_needs_retry sp' \<Longrightarrow> sp_input_needs_retry sp \<or> sp_any_stuck sp'"
    by (rule mp[OF conjunct2[OF conjunct2[OF conjunct2[OF R]]]])
qed

lemma sp_input_req_stuck:
  "sp_input_req c outs fresh p (sp, st) = Some ((sp', st'), fl', ack) \<Longrightarrow> sp_any_stuck sp \<Longrightarrow> sp_any_stuck sp'"
  by (auto simp: sp_input_req_def sp_any_stuck_def)

lemma sp_submit_mid:
  assumes ok: "sp_ok c k"
  shows "sp_submit c fresh rs (sp, st) = Some ((sp', st'), fl', es) \<Longrightarrow> sp_mid c sp st fl \<Longrightarrow>
    distinct (map fst rs) \<Longrightarrow>
    (\<And>p r outs. (p, r, outs) \<in> set rs \<Longrightarrow> out_bytes p sp fl = 0 \<and> sp_no_wrap k r \<and> keeps_size outs) \<Longrightarrow>
    sp_mid c sp' st' (fl @ fl') \<and>
    (\<forall>q. count_list es (Ev_Granted q) = (if out_bytes q sp' (fl @ fl') > 0 \<and> q \<in> fst ` set rs then 1 else 0)) \<and>
    (\<forall>q. count_list es (Ev_Resp q) = 0) \<and>
    (\<forall>q. q \<notin> fst ` set rs \<longrightarrow> out_bytes q sp' (fl @ fl') = out_bytes q sp fl) \<and>
    (sp_input_needs_retry sp' \<longrightarrow> sp_input_needs_retry sp \<or> sp_any_stuck sp') \<and>
    (sp_any_stuck sp \<longrightarrow> sp_any_stuck sp')"
proof (induction rs arbitrary: sp st fl fl' es)
  case Nil
  then show ?case by auto
next
  case (Cons x rs)
  obtain p r outs where x: "x = (p, r, outs)" by (metis prod.exhaust)
  obtain sp1 st1 fl1 ack where i: "sp_input_req c outs fresh p (sp, st(p := r)) = Some ((sp1, st1), fl1, ack)"
    using Cons.prems(1) x by (auto simp: bind_eq_Some_conv)
  obtain fl2 es2 where s: "sp_submit c fresh rs (sp1, st1) = Some ((sp', st'), fl2, es2)" "fl' = fl1 @ fl2"
    "es = (case ack of IO_REQ_DONE \<Rightarrow> Ev_Done p | IO_REQ_GRANTED \<Rightarrow> Ev_Granted p | IO_REQ_DENIED \<Rightarrow> Ev_Denied p) # es2"
    using Cons.prems(1) x i by (auto simp: bind_eq_Some_conv)
  have c: "out_bytes p sp fl = 0" "sp_no_wrap k r" "keeps_size outs" using Cons.prems(4)[of p r outs] x by auto
  note m = sp_input_req_mid[OF ok c(3) Cons.prems(2) c(1,2) i]
  have nin: "p \<notin> fst ` set rs" using Cons.prems(3) x by simp
  have "out_bytes q sp1 (fl @ fl1) = 0 \<and> sp_no_wrap k r' \<and> keeps_size o'" if "(q, r', o') \<in> set rs" for q r' o'
  proof -
    have "q \<noteq> p" using that nin by force
    then show ?thesis using m(2)[of q] Cons.prems(4)[of q r' o'] that by auto
  qed
  from Cons.IH[OF s(1) m(1) _ this] Cons.prems(3)
  have IH: "sp_mid c sp' st' ((fl @ fl1) @ fl2)"
    "\<forall>q. count_list es2 (Ev_Granted q) = (if out_bytes q sp' ((fl @ fl1) @ fl2) > 0 \<and> q \<in> fst ` set rs then 1 else 0)"
    "\<forall>q. count_list es2 (Ev_Resp q) = 0"
    "\<forall>q. q \<notin> fst ` set rs \<longrightarrow> out_bytes q sp' ((fl @ fl1) @ fl2) = out_bytes q sp1 (fl @ fl1)"
    "sp_input_needs_retry sp' \<longrightarrow> sp_input_needs_retry sp1 \<or> sp_any_stuck sp'"
    "sp_any_stuck sp1 \<longrightarrow> sp_any_stuck sp'" by auto
  have "count_list es (Ev_Granted q) = (if out_bytes q sp' (fl @ fl') > 0 \<and> q \<in> fst ` set (x # rs) then 1 else 0)" for q
  proof (cases "q = p")
    case True
    then have "count_list es2 (Ev_Granted q) = 0" "out_bytes q sp' (fl @ fl') = out_bytes p sp1 (fl @ fl1)"
      using IH(2,4) nin s(2) by auto
    then show ?thesis using True m(3) s(3) x by (cases ack) auto
  next
    case False
    then show ?thesis using IH(2) s(2,3) x by (cases ack) auto
  qed
  moreover have "\<forall>q. count_list es (Ev_Resp q) = 0" using IH(3) s(3) by (cases ack) auto
  moreover have "out_bytes q sp' (fl @ fl') = out_bytes q sp fl" if "q \<notin> fst ` set (x # rs)" for q
    using that IH(4) m(2)[of q] s(2) x by auto
  moreover have "sp_mid c sp' st' (fl @ fl')" using IH(1) s(2) by simp
  moreover have "sp_input_needs_retry sp' \<longrightarrow> sp_input_needs_retry sp \<or> sp_any_stuck sp'"
    using IH(5,6) m(4) by blast
  moreover have "sp_any_stuck sp \<longrightarrow> sp_any_stuck sp'" using IH(6) sp_input_req_stuck[OF i] by blast
  ultimately show ?case by blast
qed

section \<open>All interleavings\<close>

text \<open>
  The master submits a request object only while it is not in flight; the downstream keeps the
  size of a chunk, answers every granted chunk at most once and may signal retries at any time.
\<close>

definition sp_may_submit :: "nat \<Rightarrow> splitter \<Rightarrow> sp_flight \<Rightarrow> sp_submission list \<Rightarrow> bool" where
  "sp_may_submit k sp fl rs \<longleftrightarrow> distinct (map fst rs) \<and>
     (\<forall>(p, r, outs) \<in> set rs. out_bytes p sp fl = 0 \<and> sp_no_wrap k r \<and> keeps_size outs)"

inductive sp_run :: "splitter_config \<Rightarrow> nat \<Rightarrow> io_req \<Rightarrow> up_event list \<Rightarrow> sp_state \<Rightarrow> sp_flight \<Rightarrow> bool"
  for c k fresh where
  Init: "sp_run c k fresh [] (sp_init c, st) []"
| Submit: "sp_run c k fresh es (sp, st) fl \<Longrightarrow> sp_may_submit k sp fl rs \<Longrightarrow>
    sp_submit c fresh rs (sp, st) = Some (s', fl', es') \<Longrightarrow> sp_run c k fresh (es @ es') s' (fl @ fl')"
| Resp: "sp_run c k fresh es (sp, st) fl \<Longrightarrow> (i, sub) \<in> set fl \<Longrightarrow> r_size io' = r_size (sub_io sub) \<Longrightarrow>
    sp_output_resp (sub\<lparr>sub_io := io'\<rparr>) st = (st', es', ack) \<Longrightarrow>
    sp_run c k fresh (es @ es') (sp, st') (remove1 (i, sub) fl)"
| Retry: "sp_run c k fresh es (sp, st) fl \<Longrightarrow> i < sp_nb_outputs c \<Longrightarrow> keeps_size outs \<Longrightarrow>
    sp_may_submit k (sp\<lparr>sp_stuck := (sp_stuck sp)[i := None]\<rparr>) fl rs1 \<Longrightarrow>
    sp_output_retry c outs fresh rs1 i (sp, st) = Some (s', fl', es') \<Longrightarrow>
    sp_run c k fresh (es @ es') s' (fl @ fl')"

text \<open>Every granted request is answered once: the ledger of a parent.\<close>

definition sp_ledger :: "up_event list \<Rightarrow> splitter \<Rightarrow> sp_flight \<Rightarrow> bool" where
  "sp_ledger es sp fl \<longleftrightarrow> (\<forall>p. count_list es (Ev_Granted p) =
     count_list es (Ev_Resp p) + (if out_bytes p sp fl > 0 then 1 else 0))"

lemma flight_bytes_remove1:
  "(i, s) \<in> set fl \<Longrightarrow> flight_bytes p fl = sub_bytes p s + flight_bytes p (remove1 (i, s) fl)"
  by (induction fl) (auto simp: flight_bytes_def)

lemma sub_bytes_le: "(i, s) \<in> set fl \<Longrightarrow> sub_bytes p s \<le> flight_bytes p fl"
  using flight_bytes_remove1[of i s fl p] by simp

text \<open>Taking an outstanding chunk of parent \<open>p\<close> out and accounting for it.\<close>

lemma sp_account_mid:
  assumes rem: "\<forall>p. B p > 0 \<longrightarrow> unat (r_remaining_size (st p)) = B p"
    and split: "\<And>p. B p = sub_bytes p s + B' p" and pos: "r_size (sub_io s) > 0"
  shows "\<forall>p. B' p > 0 \<longrightarrow> unat (r_remaining_size (sp_account s st p)) = B' p"
    "r_remaining_size (sp_account s st (sub_parent s)) = 0 \<longleftrightarrow> B' (sub_parent s) = 0"
    "q \<noteq> sub_parent s \<Longrightarrow> B' q = B q" "0 < B (sub_parent s)"
proof -
  let ?p = "sub_parent s"
  have sb: "sub_bytes ?p s = unat (r_size (sub_io s))" "q \<noteq> ?p \<Longrightarrow> sub_bytes q s = 0" for q
    by (auto simp: sub_bytes_def)
  show b: "0 < B ?p" using pos sb(1) split[of ?p] by (simp add: word_less_nat_alt)
  then have r: "unat (r_remaining_size (st ?p)) = B ?p" using rem by simp
  have a: "unat (r_remaining_size (sp_account s st ?p)) = B' ?p"
    using sp_account_remaining[of s st] r split[of ?p] sb(1) by simp
  show "r_remaining_size (sp_account s st ?p) = 0 \<longleftrightarrow> B' ?p = 0" unfolding a[symmetric] by (simp add: unat_eq_0)
  show e: "q \<noteq> ?p \<Longrightarrow> B' q = B q" for q using split[of q] sb(2) by simp
  show "\<forall>p. B' p > 0 \<longrightarrow> unat (r_remaining_size (sp_account s st p)) = B' p"
  proof (intro allI impI)
    fix p assume "B' p > 0"
    then show "unat (r_remaining_size (sp_account s st p)) = B' p"
      using a e rem by (cases "p = ?p") auto
  qed
qed

lemma sp_resp_inv:
  assumes inv: "sp_inv c sp st fl" and led: "sp_ledger es sp fl" and mem: "(i, sub) \<in> set fl"
    and sz: "r_size io' = r_size (sub_io sub)"
    and res: "sp_output_resp (sub\<lparr>sub_io := io'\<rparr>) st = (st', es', ack)"
  shows "sp_inv c sp st' (remove1 (i, sub) fl) \<and> sp_ledger (es @ es') sp (remove1 (i, sub) fl)"
proof -
  let ?s = "sub\<lparr>sub_io := io'\<rparr>" and ?fl = "remove1 (i, sub) fl"
  have sb: "sub_bytes p ?s = sub_bytes p sub" for p using sz by (simp add: sub_bytes_def)
  have st': "st' = sp_account ?s st"
    and es': "es' = (if r_remaining_size (st' (sub_parent sub)) = 0 then [Ev_Resp (sub_parent sub)] else [])"
    using res by (auto simp: sp_output_resp_def Let_def)
  have split: "out_bytes p sp fl = sub_bytes p ?s + out_bytes p sp ?fl" for p
    using flight_bytes_remove1[OF mem, of p] sb by simp
  have rem: "\<forall>p. out_bytes p sp fl > 0 \<longrightarrow> unat (r_remaining_size (st p)) = out_bytes p sp fl"
    using inv by (simp add: sp_inv_def sp_mid_def)
  have pos: "r_size (sub_io ?s) > 0" using inv mem sz by (force simp: sp_inv_def sp_mid_def sizes_pos_def sp_subs_def)
  note A = sp_account_mid[of "\<lambda>p. out_bytes p sp fl" st ?s "\<lambda>p. out_bytes p sp ?fl", OF rem split pos]
  have "sizes_pos sp ?fl" using inv set_remove1_subset[of "(i, sub)" fl]
    by (auto simp: sp_inv_def sp_mid_def sizes_pos_def sp_subs_def)
  then have "sp_inv c sp st' ?fl" using A(1) inv st' by (simp add: sp_inv_def sp_mid_def)
  moreover have "sp_ledger (es @ es') sp ?fl"
    unfolding sp_ledger_def
  proof
    fix p
    show "count_list (es @ es') (Ev_Granted p) =
        count_list (es @ es') (Ev_Resp p) + (if out_bytes p sp ?fl > 0 then 1 else 0)"
    proof (cases "p = sub_parent sub")
      case True
      have "count_list es (Ev_Granted p) = count_list es (Ev_Resp p) + 1"
        using led A(4) True by (simp add: sp_ledger_def)
      then show ?thesis using A(2) True es' st' by auto
    next
      case False
      then show ?thesis using led A(3)[of p] es' by (simp add: sp_ledger_def)
    qed
  qed
  ultimately show ?thesis ..
qed

text \<open>
  The part of the retry handler after the chunk was answered, in the states it distinguishes: the
  chunk completed and its parent with it, the chunk completed, or it is in flight.
\<close>

lemma sp_retry_mid:
  assumes ok: "sp_ok c k" and inv: "sp_inv c sp st fl" and led: "sp_ledger es sp fl"
    and i: "i < sp_nb_outputs c" and outs: "keeps_size outs" and stuck: "sp_stuck sp ! i = Some sub"
    and sp1: "sp1 = sp\<lparr>sp_stuck := (sp_stuck sp)[i := None]\<rparr>"
    and may: "sp_may_submit k sp1 fl rs1"
    and ans: "outs i (sub_io sub) = (io', ack)" "ack \<noteq> IO_REQ_DENIED" "sub' = sub\<lparr>sub_io := io'\<rparr>"
    and res: "(if ack = IO_REQ_DONE then
        if r_remaining_size (sp_account sub' st (sub_parent sub)) = 0
        then do {
          (s, fl, es) \<leftarrow> sp_submit c fresh rs1 (sp1, sp_account sub' st);
          Some (s, fl, Ev_Resp (sub_parent sub) # es)
        }
        else Some ((sp1, sp_account sub' st), [], [])
      else Some ((sp1, st), [(i, sub')], [])) = Some ((sp2, st2), fl', es')"
  shows "sp_mid c sp2 st2 (fl @ fl') \<and> sp_ledger (es @ es') sp2 (fl @ fl')"
proof -
  have len: "i < length (sp_stuck sp)" using inv i by (simp add: sp_inv_def sp_mid_def)
  have sz: "r_size (sub_io sub') = r_size (sub_io sub)" "sub_parent sub' = sub_parent sub"
    using outs ans(1,3) by (auto simp: keeps_size_def dest!: spec[of _ i] spec[of _ "sub_io sub"])
  have sb: "sub_bytes p sub' = sub_bytes p sub" for p using sz by (simp add: sub_bytes_def)
  have split: "out_bytes p sp fl = sub_bytes p sub' + out_bytes p sp1 fl" for p
    using stuck_bytes_clear[OF len stuck, of p] sb sp1 by simp
  have rem: "\<forall>p. out_bytes p sp fl > 0 \<longrightarrow> unat (r_remaining_size (st p)) = out_bytes p sp fl"
    using inv by (simp add: sp_inv_def sp_mid_def)
  have mem: "Some sub \<in> set (sp_stuck sp)" using stuck len by (metis nth_mem)
  have pos: "r_size (sub_io sub') > 0"
    using inv mem sz by (force simp: sp_inv_def sp_mid_def sizes_pos_def sp_subs_def)
  have sz1: "sizes_pos sp1 fl"
    using inv sp1 by (auto simp: sp_inv_def sp_mid_def sizes_pos_def sp_subs_def
        dest!: set_update_subset_insert[THEN subsetD])
  have len1: "length (sp_stuck sp1) = sp_nb_outputs c" using inv sp1 by (simp add: sp_inv_def sp_mid_def)
  note A = sp_account_mid[of "\<lambda>p. out_bytes p sp fl" st sub' "\<lambda>p. out_bytes p sp1 fl", OF rem split pos]
  have out: "count_list es (Ev_Granted p) = count_list es (Ev_Resp p) + (if out_bytes p sp fl > 0 then 1 else 0)" for p
    using led by (simp add: sp_ledger_def)
  consider (granted) "ack = IO_REQ_GRANTED" "sp2 = sp1" "st2 = st" "fl' = [(i, sub')]" "es' = []"
    | (partial) "ack = IO_REQ_DONE" "out_bytes (sub_parent sub) sp1 fl \<noteq> 0" "sp2 = sp1" "st2 = sp_account sub' st"
        "fl' = []" "es' = []"
    | (full) es2 where "ack = IO_REQ_DONE" "out_bytes (sub_parent sub) sp1 fl = 0"
        "sp_submit c fresh rs1 (sp1, sp_account sub' st) = Some ((sp2, st2), fl', es2)"
        "es' = Ev_Resp (sub_parent sub) # es2"
  proof (cases "ack = IO_REQ_DONE")
    case False
    then have "ack = IO_REQ_GRANTED" using ans(2) by (cases ack) auto
    then show ?thesis by (rule granted) (use \<open>ack = IO_REQ_GRANTED\<close> res in simp_all)
  next
    case True
    then show ?thesis
    proof (cases "out_bytes (sub_parent sub) sp1 fl = 0")
      case False
      then have "r_remaining_size (sp_account sub' st (sub_parent sub)) \<noteq> 0" using A(2) unfolding sz(2) by metis
      with \<open>ack = IO_REQ_DONE\<close> res have e: "Some ((sp1, sp_account sub' st), [], []) = Some ((sp2, st2), fl', es')" by simp
      show ?thesis by (rule partial[OF \<open>ack = IO_REQ_DONE\<close> False]) (use e in auto)
    next
      case True
      then have "r_remaining_size (sp_account sub' st (sub_parent sub)) = 0" using A(2) unfolding sz(2) by metis
      with \<open>ack = IO_REQ_DONE\<close> res obtain es2
        where "sp_submit c fresh rs1 (sp1, sp_account sub' st) = Some ((sp2, st2), fl', es2)"
          "es' = Ev_Resp (sub_parent sub) # es2" by (auto simp: bind_eq_Some_conv)
      then show ?thesis by (rule full[OF \<open>ack = IO_REQ_DONE\<close> True])
    qed
  qed
  then show ?thesis
  proof cases
    case granted
    have e: "out_bytes p sp1 (fl @ [(i, sub')]) = out_bytes p sp fl" for p using split[of p] by simp
    have "sizes_pos sp1 (fl @ [(i, sub')])" using sz1 pos by (auto simp: sizes_pos_def sp_subs_def)
    then show ?thesis using granted len1 rem led unfolding sp_mid_def sp_ledger_def granted e by simp
  next
    case partial
    have "(0 < out_bytes p sp1 fl) = (0 < out_bytes p sp fl)" for p
      using A(3)[of p] A(4) partial(2) sz(2) by (cases "p = sub_parent sub") auto
    then show ?thesis using partial len1 sz1 A(1) led by (simp add: sp_mid_def sp_ledger_def)
  next
    case full
    have mid1: "sp_mid c sp1 (sp_account sub' st) fl" using len1 sz1 A(1) by (simp add: sp_mid_def)
    have d: "distinct (map fst rs1)" using may by (simp add: sp_may_submit_def)
    have cond: "\<And>p r outs. (p, r, outs) \<in> set rs1 \<Longrightarrow> out_bytes p sp1 fl = 0 \<and> sp_no_wrap k r \<and> keeps_size outs"
      using may by (force simp: sp_may_submit_def)
    note S = sp_submit_mid[OF ok full(3) mid1 d cond]
    have "count_list (es @ es') (Ev_Granted p) =
        count_list (es @ es') (Ev_Resp p) + (if out_bytes p sp2 (fl @ fl') > 0 then 1 else 0)" for p
    proof -
      have g: "count_list es2 (Ev_Granted p) = (if out_bytes p sp2 (fl @ fl') > 0 \<and> p \<in> fst ` set rs1 then 1 else 0)"
        "count_list es2 (Ev_Resp p) = 0" using S by auto
      have n: "p \<notin> fst ` set rs1 \<Longrightarrow> out_bytes p sp2 (fl @ fl') = out_bytes p sp1 fl" using S by blast
      have z: "p \<in> fst ` set rs1 \<Longrightarrow> out_bytes p sp1 fl = 0" using cond by force
      show ?thesis
      proof (cases "p = sub_parent sub")
        case True
        then show ?thesis using g n full(2,4) out[of p] A(4) sz(2) by (cases "p \<in> fst ` set rs1") auto
      next
        case False
        then have "out_bytes p sp1 fl = out_bytes p sp fl" using A(3)[of p] sz(2) by simp
        then show ?thesis using False g n z full(4) out[of p] by (cases "p \<in> fst ` set rs1") auto
      qed
    qed
    then show ?thesis using S unfolding sp_ledger_def by blast
  qed
qed

lemma sp_retry_denied:
  assumes inv: "sp_inv c sp st fl" and i: "i < sp_nb_outputs c" and outs: "keeps_size outs"
    and stuck: "sp_stuck sp ! i = Some sub" and ans: "outs i (sub_io sub) = (io', ack)"
    and sp': "sp' = sp\<lparr>sp_stuck := (sp_stuck sp)[i := Some (sub\<lparr>sub_io := io'\<rparr>)]\<rparr>"
  shows "sp_inv c sp' st fl" "out_bytes p sp' fl = out_bytes p sp fl"
proof -
  let ?s = "sub\<lparr>sub_io := io'\<rparr>" and ?sp1 = "sp\<lparr>sp_stuck := (sp_stuck sp)[i := None]\<rparr>"
  have len: "i < length (sp_stuck sp)" using inv i by (simp add: sp_inv_def sp_mid_def)
  have sz: "r_size io' = r_size (sub_io sub)" using outs ans by (auto simp: keeps_size_def dest!: spec[of _ i] spec[of _ "sub_io sub"])
  have sb: "sub_bytes p ?s = sub_bytes p sub" for p using sz by (simp add: sub_bytes_def)
  have e: "stuck_bytes p sp' = stuck_bytes p sp" for p
    using stuck_bytes_clear[OF len stuck, of p] stuck_bytes_update[of i ?sp1 p ?s] len sb sp' by simp
  then show "out_bytes p sp' fl = out_bytes p sp fl" by simp
  have "Some sub \<in> set (sp_stuck sp)" using stuck len by (metis nth_mem)
  then have "sizes_pos sp' fl"
    using inv sp' sz by (auto simp: sp_inv_def sp_mid_def sizes_pos_def sp_subs_def
        dest!: set_update_subset_insert[THEN subsetD])
  moreover have "sp_any_stuck sp'" using len sp' set_update_memI[OF len] by (auto simp: sp_any_stuck_def)
  ultimately show "sp_inv c sp' st fl" using inv e sp' by (simp add: sp_inv_def sp_mid_def)
qed

lemma sp_output_retry_cases:
  assumes "sp_output_retry c outs fresh rs1 i (sp, st) = Some ((sp', st'), fl', es')"
    and "sp_stuck sp ! i = Some sub" "outs i (sub_io sub) = (io', ack)" "ack \<noteq> IO_REQ_DENIED"
    and sp1: "sp1 = sp\<lparr>sp_stuck := (sp_stuck sp)[i := None]\<rparr>" and sub': "sub' = sub\<lparr>sub_io := io'\<rparr>"
  shows "\<exists>sp2 es2. (if ack = IO_REQ_DONE then
        if r_remaining_size (sp_account sub' st (sub_parent sub)) = 0
        then do {
          (s, fl, es) \<leftarrow> sp_submit c fresh rs1 (sp1, sp_account sub' st);
          Some (s, fl, Ev_Resp (sub_parent sub) # es)
        }
        else Some ((sp1, sp_account sub' st), [], [])
      else Some ((sp1, st), [(i, sub')], [])) = Some ((sp2, st'), fl', es2) \<and>
    (sp' = sp2\<lparr>sp_input_needs_retry := False\<rparr> \<and> es' = es2 @ [Ev_Retry] \<or>
     sp' = sp2 \<and> es' = es2 \<and> (sp_input_needs_retry sp2 \<longrightarrow> sp_any_stuck sp2))"
  using assms
  by (simp add: sp_output_retry_def Let_def bind_eq_Some_conv split: if_splits) (blast+)

lemma sp_retry_inv:
  assumes ok: "sp_ok c k" and inv: "sp_inv c sp st fl" and led: "sp_ledger es sp fl"
    and i: "i < sp_nb_outputs c" and outs: "keeps_size outs"
    and may: "sp_may_submit k (sp\<lparr>sp_stuck := (sp_stuck sp)[i := None]\<rparr>) fl rs1"
    and res: "sp_output_retry c outs fresh rs1 i (sp, st) = Some ((sp', st'), fl', es')"
  shows "sp_inv c sp' st' (fl @ fl') \<and> sp_ledger (es @ es') sp' (fl @ fl')"
proof (cases "sp_stuck sp ! i")
  case None
  then show ?thesis using res inv led by (simp add: sp_output_retry_def)
next
  case (Some sub)
  obtain io' ack where ans: "outs i (sub_io sub) = (io', ack)" by (metis prod.exhaust)
  show ?thesis
  proof (cases "ack = IO_REQ_DENIED")
    case True
    then have "sp' = sp\<lparr>sp_stuck := (sp_stuck sp)[i := Some (sub\<lparr>sub_io := io'\<rparr>)]\<rparr>" "st' = st" "fl' = []" "es' = []"
      using res Some ans by (auto simp: sp_output_retry_def Let_def)
    then show ?thesis using sp_retry_denied[OF inv i outs Some ans] led by (simp add: sp_ledger_def)
  next
    case False
    let ?sp1 = "sp\<lparr>sp_stuck := (sp_stuck sp)[i := None]\<rparr>"
    obtain sp2 es2 where r: "(if ack = IO_REQ_DONE then
        if r_remaining_size (sp_account (sub\<lparr>sub_io := io'\<rparr>) st (sub_parent sub)) = 0
        then do {
          (s, fl, es) \<leftarrow> sp_submit c fresh rs1 (?sp1, sp_account (sub\<lparr>sub_io := io'\<rparr>) st);
          Some (s, fl, Ev_Resp (sub_parent sub) # es)
        }
        else Some ((?sp1, sp_account (sub\<lparr>sub_io := io'\<rparr>) st), [], [])
      else Some ((?sp1, st), [(i, sub\<lparr>sub_io := io'\<rparr>)], [])) = Some ((sp2, st'), fl', es2)"
      and fin: "sp' = sp2\<lparr>sp_input_needs_retry := False\<rparr> \<and> es' = es2 @ [Ev_Retry] \<or>
     sp' = sp2 \<and> es' = es2 \<and> (sp_input_needs_retry sp2 \<longrightarrow> sp_any_stuck sp2)"
      using sp_output_retry_cases[OF res Some ans False refl refl] by (elim exE conjE) (rule that)
    from sp_retry_mid[OF ok inv led i outs Some refl may ans False refl r]
    show ?thesis using fin
      by (auto simp: sp_inv_def sp_mid_def sp_ledger_def sizes_pos_def sp_subs_def)
  qed
qed

lemma sp_run_inv:
  assumes ok: "sp_ok c k"
  shows "sp_run c k fresh es s fl \<Longrightarrow> sp_inv c (fst s) (snd s) fl \<and> sp_ledger es (fst s) fl"
proof (induction rule: sp_run.induct)
  case (Init st)
  have "\<not> sp_any_stuck (sp_init c)" by (simp add: sp_any_stuck_def sp_init_def)
  from not_stuck_bytes(1)[OF this] show ?case
    by (auto simp: sp_inv_def sp_mid_def sp_ledger_def sizes_pos_def sp_subs_def sp_init_def)
next
  case (Submit es sp st fl rs s' fl' es')
  obtain sp' st' where s': "s' = (sp', st')" by (metis prod.exhaust)
  have d: "distinct (map fst rs)" using Submit by (simp add: sp_may_submit_def)
  have cond: "\<And>p r outs. (p, r, outs) \<in> set rs \<Longrightarrow> out_bytes p sp fl = 0 \<and> sp_no_wrap k r \<and> keeps_size outs"
    using Submit.hyps(2) by (force simp: sp_may_submit_def)
  have mid: "sp_mid c sp st fl" and nr: "sp_input_needs_retry sp \<longrightarrow> sp_any_stuck sp"
    and led: "\<And>p. count_list es (Ev_Granted p) = count_list es (Ev_Resp p) + (if out_bytes p sp fl > 0 then 1 else 0)"
    using Submit.IH by (auto simp: sp_inv_def sp_ledger_def)
  note S = sp_submit_mid[OF ok Submit.hyps(3)[unfolded s'] mid d cond]
  have "count_list (es @ es') (Ev_Granted p) =
      count_list (es @ es') (Ev_Resp p) + (if out_bytes p sp' (fl @ fl') > 0 then 1 else 0)" for p
  proof -
    have g: "count_list es' (Ev_Granted p) = (if out_bytes p sp' (fl @ fl') > 0 \<and> p \<in> fst ` set rs then 1 else 0)"
      "count_list es' (Ev_Resp p) = 0" using S by auto
    have "p \<notin> fst ` set rs \<Longrightarrow> out_bytes p sp' (fl @ fl') = out_bytes p sp fl" using S by blast
    moreover have "p \<in> fst ` set rs \<Longrightarrow> out_bytes p sp fl = 0" using cond by force
    ultimately show ?thesis using g led[of p] by (cases "p \<in> fst ` set rs") auto
  qed
  then show ?case using S nr s' unfolding sp_inv_def sp_ledger_def by auto
next
  case (Resp es sp st fl i sub io' st' es' ack)
  then show ?case using sp_resp_inv[of c sp st fl es i sub io' st' es' ack] by simp
next
  case (Retry es sp st fl i outs rs1 s' fl' es')
  then show ?case
    using sp_retry_inv[OF ok, of sp st fl es i outs rs1 fresh "fst s'" "snd s'" fl' es'] by simp
qed

section \<open>The chunks of a request\<close>

fun sp_chunk_reqs :: "splitter_config \<Rightarrow> io_req \<Rightarrow> io_opcode \<Rightarrow> nat \<Rightarrow> u64 \<Rightarrow> ptr \<Rightarrow> u64 \<Rightarrow> io_req list" where
  "sp_chunk_reqs c fresh op 0 a d sz = []"
| "sp_chunk_reqs c fresh op (Suc n) a d sz =
     (if sz > 0 then
        fresh\<lparr>r_addr := a, r_size := sp_iter_size c a sz, r_data := d, r_opcode := op, r_resp_status := IO_RESP_OK\<rparr> #
        sp_chunk_reqs c fresh op n (a + sp_iter_size c a sz) (d + unat (sp_iter_size c a sz))
          (sz - sp_iter_size c a sz)
      else [])"

definition io_bytes :: "io_req \<Rightarrow> (u64 \<times> ptr) list" where
  "io_bytes r = map (\<lambda>j. (r_addr r + of_nat j, r_data r + j)) [0..<unat (r_size r)]"

lemma sp_chunks_tile:
  assumes ok: "sp_ok c k"
  shows "sz = 0 \<or> unat a mod 2 ^ k + unat sz \<le> n * 2 ^ k \<Longrightarrow>
    concat (map io_bytes (sp_chunk_reqs c fresh op n a d sz)) =
      map (\<lambda>j. (a + of_nat j, d + j)) [0..<unat sz] \<and>
    length (sp_chunk_reqs c fresh op n a d sz) \<le> n \<and>
    (\<forall>q \<in> set (sp_chunk_reqs c fresh op n a d sz). 0 < r_size q \<and> r_opcode q = op \<and>
       unat (r_addr q) mod 2 ^ k + unat (r_size q) \<le> 2 ^ k)"
proof (induction n arbitrary: a d sz)
  case 0
  then show ?case using assms by auto
next
  case (Suc n)
  show ?case
  proof (cases "sz > 0")
    case False
    then have "sz = 0" by (simp add: word_neq_0_conv[symmetric])
    then show ?thesis by simp
  next
    case True
    have fits: "unat a mod 2 ^ k + unat sz \<le> Suc n * 2 ^ k" using Suc.prems True by auto
    let ?it = "sp_iter_size c a sz" and ?f = "\<lambda>j. (a + of_nat j :: u64, d + j)"
    note it = sp_iter_step[OF ok True fits]
    have "[0..<unat sz] = [0..<unat ?it] @ map (\<lambda>j. unat ?it + j) [0..<unat (sz - ?it)]"
      using it(2,4) by (intro nth_equalityI) (auto simp: nth_append)
    then have "map ?f [0..<unat sz] = map ?f [0..<unat ?it] @
        map (\<lambda>j. (a + ?it + of_nat j, d + unat ?it + j)) [0..<unat (sz - ?it)]"
      by (simp add: algebra_simps)
    then show ?thesis using Suc.IH[OF it(5), of "d + unat ?it"] it(1,3) True
      by (auto simp: io_bytes_def word_less_nat_alt)
  qed
qed

lemma sp_issue_loop_granted:
  "sp_issue_loop c (\<lambda>i io. (io, IO_REQ_GRANTED)) fresh p op n i a d sz (sp, st) =
     ((sp, st), enumerate i (map (\<lambda>io. \<lparr>sub_parent = p, sub_io = io\<rparr>) (sp_chunk_reqs c fresh op n a d sz)))"
  by (induction n arbitrary: i a d sz) (simp_all add: Let_def)

lemma sp_issue_loop_done:
  "sp_issue_loop c (\<lambda>i io. (ans io, IO_REQ_DONE)) fresh p op n i a d sz (sp, st) =
     ((sp, fold (\<lambda>io st. sp_account \<lparr>sub_parent = p, sub_io = ans io\<rparr> st)
         (sp_chunk_reqs c fresh op n a d sz) st), [])"
  by (induction n arbitrary: i a d sz st) (simp_all add: Let_def)

text \<open>Folding chunk answers into a parent: worst latency, any error, sizes subtracted.\<close>

lemma sp_fold_account:
  "let st' = fold (\<lambda>io st. sp_account \<lparr>sub_parent = p, sub_io = ans io\<rparr> st) qs st in
     r_latency (st' p) = Max (insert (r_latency (st p)) ((r_latency \<circ> ans) ` set qs)) \<and>
     (r_resp_status (st' p) = IO_RESP_INVALID \<longleftrightarrow>
        r_resp_status (st p) = IO_RESP_INVALID \<or> (\<exists>q \<in> set qs. r_resp_status (ans q) = IO_RESP_INVALID))"
proof (induction qs arbitrary: st)
  case Nil
  then show ?case by simp
next
  case (Cons q qs)
  let ?st = "sp_account \<lparr>sub_parent = p, sub_io = ans q\<rparr> st"
  have lat: "r_latency (?st p) = max (r_latency (st p)) (r_latency (ans q))"
    and stat: "r_resp_status (?st p) = IO_RESP_INVALID \<longleftrightarrow>
      r_resp_status (st p) = IO_RESP_INVALID \<or> r_resp_status (ans q) = IO_RESP_INVALID"
    by (auto simp: sp_account_def Let_def max_def)
  have "Max (insert (max x y) S) = Max (insert x (insert y S))" if "finite S" for x y :: int and S
    using that by (cases "S = {}") (auto simp: max.assoc)
  then show ?case using Cons.IH[of ?st] lat stat by (auto simp: Let_def)
qed

section \<open>Properties\<close>

text \<open>
  C6. The splitter accounts for every byte, in any interleaving of submissions, chunk responses
  and retries: a parent with outstanding chunks has exactly their total size left, each granted
  parent is answered exactly once, namely when its last chunk completes, and a master is owed a
  retry only while some output holds a denied chunk.
\<close>

theorem sp_accounts:
  assumes "sp_ok c k" "sp_run c k fresh es (sp, st) fl"
  shows "(out_bytes p sp fl > 0 \<longrightarrow> unat (r_remaining_size (st p)) = out_bytes p sp fl) \<and>
    count_list es (Ev_Granted p) = count_list es (Ev_Resp p) + (if out_bytes p sp fl > 0 then 1 else 0) \<and>
    (sp_input_needs_retry sp \<longrightarrow> sp_any_stuck sp)"
  using sp_run_inv[OF assms(1) assms(2)] by (auto simp: sp_inv_def sp_mid_def sp_ledger_def)

definition sp_demo_cfg :: splitter_config where
  "sp_demo_cfg = \<lparr>sp_input_width = 8, sp_output_width = 4\<rparr>"

definition sp_demo_req :: io_req where
  "sp_demo_req = \<lparr>r_addr = 0x12, r_size = 6, r_data = 100, r_second_data = 0, r_strb = 0, r_is_write = False,
     r_opcode = OP_READ, r_initiator = 0, r_latency = 0, r_resp_status = IO_RESP_OK,
     r_remaining_size = 0, r_memcheck_data = 0, r_memcheck_data_id = 0\<rparr>"

lemma sp_demo_ok: "sp_ok sp_demo_cfg 2"
  by (simp add: sp_ok_def sp_demo_cfg_def sp_nb_outputs_def push_bit_eq_mult)

lemma sp_demo_chunks:
  "sp_chunk_reqs sp_demo_cfg sp_demo_req OP_READ (Suc (Suc 0)) 0x12 100 6 =
     [sp_demo_req\<lparr>r_size := 2\<rparr>, sp_demo_req\<lparr>r_addr := 0x14, r_size := 4, r_data := 102\<rparr>]"
  by (simp add: sp_iter_size_def sp_demo_cfg_def sp_demo_req_def min_def)

lemma sp_demo_nb: "sp_nb_outputs sp_demo_cfg = Suc (Suc 0)"
  by (simp add: sp_nb_outputs_def sp_demo_cfg_def)

text \<open>A run: output 0 grants its chunk of a 6-byte request, output 1 denies its one.\<close>

lemma sp_demo_run:
  "sp_run sp_demo_cfg 2 sp_demo_req [Ev_Granted 5]
     (\<lparr>sp_stuck = [None, Some \<lparr>sub_parent = 5, sub_io = sp_demo_req\<lparr>r_addr := 0x14, r_size := 4, r_data := 102\<rparr>\<rparr>],
       sp_input_needs_retry = False\<rparr>,
      (\<lambda>_. sp_demo_req)(5 := sp_demo_req\<lparr>r_remaining_size := 6\<rparr>))
     [(0, \<lparr>sub_parent = 5, sub_io = sp_demo_req\<lparr>r_size := 2\<rparr>\<rparr>)]"
proof -
  let ?outs = "\<lambda>i io. (io, if i = 0 then IO_REQ_GRANTED else IO_REQ_DENIED)"
  let ?st = "\<lambda>_ :: req_ref. sp_demo_req"
  have may: "sp_may_submit 2 (sp_init sp_demo_cfg) [] [(5, sp_demo_req, ?outs)]"
    by (simp add: sp_may_submit_def stuck_bytes_def sp_init_def sp_demo_nb sp_no_wrap_def sp_demo_req_def keeps_size_def)
  have "sp_submit sp_demo_cfg sp_demo_req [(5, sp_demo_req, ?outs)] (sp_init sp_demo_cfg, ?st) = Some
     ((\<lparr>sp_stuck = [None, Some \<lparr>sub_parent = 5, sub_io = sp_demo_req\<lparr>r_addr := 0x14, r_size := 4, r_data := 102\<rparr>\<rparr>],
       sp_input_needs_retry = False\<rparr>, ?st(5 := sp_demo_req\<lparr>r_remaining_size := 6\<rparr>)),
      [(0, \<lparr>sub_parent = 5, sub_io = sp_demo_req\<lparr>r_size := 2\<rparr>\<rparr>)], [Ev_Granted 5])"
    by (simp add: sp_input_req_def sp_any_stuck_def sp_init_def sp_demo_nb sp_issue_def Let_def)
       (simp add: sp_demo_cfg_def sp_demo_req_def sp_iter_size_def min_def)
  from sp_run.Submit[OF sp_run.Init may this] show ?thesis by simp
qed

theorem sp_accounts_witness:
  "\<exists>sp st fl. sp_run sp_demo_cfg 2 sp_demo_req [Ev_Granted 5] (sp, st) fl \<and> out_bytes 5 sp fl = 6 \<and>
     unat (r_remaining_size (st 5)) = 6"
proof -
  let ?sp = "\<lparr>sp_stuck = [None, Some \<lparr>sub_parent = 5, sub_io = sp_demo_req\<lparr>r_addr := 0x14, r_size := 4, r_data := 102\<rparr>\<rparr>],
       sp_input_needs_retry = False\<rparr>"
  let ?fl = "[(0, \<lparr>sub_parent = 5, sub_io = sp_demo_req\<lparr>r_size := 2\<rparr>\<rparr>)]"
  have b: "out_bytes 5 ?sp ?fl = 6" by (simp add: stuck_bytes_def sub_bytes_def)
  have "0 < out_bytes 5 ?sp ?fl" unfolding b by simp
  from mp[OF conjunct1[OF sp_accounts[OF sp_demo_ok sp_demo_run]] this]
  have "unat (r_remaining_size (((\<lambda>_. sp_demo_req)(5 := sp_demo_req\<lparr>r_remaining_size := 6\<rparr>)) (5 :: req_ref))) = 6"
    unfolding b .
  with sp_demo_run b show ?thesis by (intro exI conjI) assumption+
qed

text \<open>
  The chunks tile the request: a request the guard lets through is cut into at most one chunk
  per output, chunk \<open>i\<close> on output \<open>i\<close>; together the chunks carry every byte of the request exactly
  once, in order and at its own address and buffer position, and no chunk crosses a multiple of the
  output width.
\<close>

theorem sp_chunks_cover:
  assumes "sp_ok c k" "sp_no_wrap k r" "\<not> sp_any_stuck sp" "r_size r > 0"
    and "(r_addr r AND (sp_output_width c - 1)) + r_size r \<le> sp_input_width c"
  shows "\<exists>sp' st' fl ack. sp_input_req c (\<lambda>i io. (io, IO_REQ_GRANTED)) fresh p (sp, st(p := r)) =
      Some ((sp', st'), fl, ack) \<and> map fst fl = [0..<length fl] \<and> length fl \<le> sp_nb_outputs c \<and>
    concat (map (io_bytes \<circ> sub_io \<circ> snd) fl) = io_bytes r \<and>
    (\<forall>(i, s) \<in> set fl. sub_parent s = p \<and> 0 < r_size (sub_io s) \<and> r_opcode (sub_io s) = r_opcode r \<and>
       unat (r_addr (sub_io s)) mod 2 ^ k + unat (r_size (sub_io s)) \<le> 2 ^ k)"
proof -
  have g: "\<not> (r_addr r AND (sp_output_width c - 1)) + r_size r > sp_input_width c" using assms(5) by auto
  let ?q = "sp_chunk_reqs c fresh (r_opcode r) (sp_nb_outputs c) (r_addr r) (r_data r) (r_size r)"
  note T = sp_chunks_tile[OF assms(1) disjI2[OF sp_guard_fits[OF assms(1,2) g]], of fresh "r_opcode r" "r_data r"]
  let ?fl = "enumerate 0 (map (\<lambda>io. \<lparr>sub_parent = p, sub_io = io\<rparr>) ?q)"
  have "\<exists>st' ack. sp_input_req c (\<lambda>i io. (io, IO_REQ_GRANTED)) fresh p (sp, st(p := r)) = Some ((sp, st'), ?fl, ack)"
    using assms(3) assms(4)[unfolded word_neq_0_conv[symmetric]] g by (simp add: sp_input_req_def sp_issue_def sp_issue_loop_granted Let_def)
  moreover have "concat (map (io_bytes \<circ> sub_io \<circ> snd) ?fl) = concat (map io_bytes ?q)"
    by (subst map_map[symmetric], subst map_snd_enumerate) (simp add: o_def)
  moreover have "\<forall>(i, s) \<in> set ?fl. \<exists>q \<in> set ?q. s = \<lparr>sub_parent = p, sub_io = q\<rparr>"
    by (auto simp: in_set_enumerate_eq)
  ultimately show ?thesis using T
    by (intro exI[of _ sp]) (fastforce simp: io_bytes_def)
qed

theorem sp_chunks_cover_witness:
  "\<exists>sp' st' fl ack. sp_input_req sp_demo_cfg (\<lambda>i io. (io, IO_REQ_GRANTED)) sp_demo_req 5
      (sp_init sp_demo_cfg, (\<lambda>_. sp_demo_req)(5 := sp_demo_req)) = Some ((sp', st'), fl, ack) \<and>
    concat (map (io_bytes \<circ> sub_io \<circ> snd) fl) = io_bytes sp_demo_req \<and> map fst fl = [0..<length fl]"
proof -
  have "sp_no_wrap 2 sp_demo_req" "\<not> sp_any_stuck (sp_init sp_demo_cfg)" "r_size sp_demo_req > 0"
    "(r_addr sp_demo_req AND (sp_output_width sp_demo_cfg - 1)) + r_size sp_demo_req \<le> sp_input_width sp_demo_cfg"
    by (simp_all add: sp_no_wrap_def sp_demo_req_def sp_any_stuck_def sp_init_def sp_demo_cfg_def)
  from sp_chunks_cover[OF sp_demo_ok this] show ?thesis by blast
qed

text \<open>
  Synchronous completion: when every output completes its chunk inline, the request completes
  inline, its latency is the worst chunk latency (not below zero), and it is invalid exactly when
  some chunk was.
\<close>

theorem sp_sync_done:
  assumes ok: "sp_ok c k" and "sp_no_wrap k r" "\<not> sp_any_stuck sp" "r_size r > 0"
    and g: "(r_addr r AND (sp_output_width c - 1)) + r_size r \<le> sp_input_width c"
    and keep: "\<And>io. r_size (ans io) = r_size io"
    and qs: "qs = sp_chunk_reqs c fresh (r_opcode r) (sp_nb_outputs c) (r_addr r) (r_data r) (r_size r)"
    and len: "length (sp_stuck sp) = sp_nb_outputs c"
  shows "\<exists>st'. sp_input_req c (\<lambda>i io. (ans io, IO_REQ_DONE)) fresh p (sp, st(p := r)) =
      Some ((sp, st'), [], IO_REQ_DONE) \<and>
    r_latency (st' p) = Max (insert 0 ((r_latency \<circ> ans) ` set qs)) \<and>
    (r_resp_status (st' p) = IO_RESP_INVALID \<longleftrightarrow> (\<exists>q \<in> set qs. r_resp_status (ans q) = IO_RESP_INVALID))"
proof -
  have g': "\<not> (r_addr r AND (sp_output_width c - 1)) + r_size r > sp_input_width c" using g by auto
  let ?outs = "\<lambda>i io. (ans io, IO_REQ_DONE)"
  let ?st1 = "st(p := r\<lparr>r_remaining_size := r_size r, r_latency := 0, r_resp_status := IO_RESP_OK\<rparr>)"
  let ?st2 = "fold (\<lambda>io st. sp_account \<lparr>sub_parent = p, sub_io = ans io\<rparr> st) qs ?st1"
  have loop: "sp_issue_loop c ?outs fresh p (r_opcode r) (sp_nb_outputs c) 0 (r_addr r) (r_data r) (r_size r)
      (sp, ?st1) = ((sp, ?st2), [])" unfolding qs by (rule sp_issue_loop_done)
  have "sp_inv c (sp\<lparr>sp_input_needs_retry := False\<rparr>) st []"
    using not_stuck_bytes[OF assms(3)] len assms(3)
    by (auto simp: sp_inv_def sp_mid_def sizes_pos_def sp_subs_def sp_any_stuck_def)
  then have pos: "sizes_pos sp []" by (auto simp: sp_inv_def sp_mid_def sizes_pos_def sp_subs_def)
  have "keeps_size ?outs" using keep by (simp add: keeps_size_def)
  from sp_issue_loop_accounts[OF ok this loop disjI2[OF sp_guard_fits[OF ok assms(2) g']], of 0]
  have "unat (r_remaining_size (?st2 p)) = 0"
    using len pos not_stuck_bytes[OF assms(3)] by auto
  then have "r_remaining_size (?st2 p) = 0" by (simp add: unat_eq_0)
  then have "sp_input_req c ?outs fresh p (sp, st(p := r)) = Some ((sp, ?st2), [], IO_REQ_DONE)"
    using assms(3) assms(4)[unfolded word_neq_0_conv[symmetric]] g' loop
    by (simp add: sp_input_req_def sp_issue_def Let_def)
  then show ?thesis using sp_fold_account[of p ans qs ?st1] by (auto simp: Let_def)
qed

theorem sp_sync_done_witness:
  "\<exists>st'. sp_input_req sp_demo_cfg (\<lambda>i io. (io\<lparr>r_latency := int (unat (r_size io))\<rparr>, IO_REQ_DONE)) sp_demo_req 5
      (sp_init sp_demo_cfg, (\<lambda>_. sp_demo_req)(5 := sp_demo_req)) = Some ((sp_init sp_demo_cfg, st'), [], IO_REQ_DONE) \<and>
    r_latency (st' 5) = 4 \<and> r_resp_status (st' 5) \<noteq> IO_RESP_INVALID"
proof -
  have a: "sp_no_wrap 2 sp_demo_req" "\<not> sp_any_stuck (sp_init sp_demo_cfg)" "r_size sp_demo_req > 0"
    "(r_addr sp_demo_req AND (sp_output_width sp_demo_cfg - 1)) + r_size sp_demo_req \<le> sp_input_width sp_demo_cfg"
    by (simp_all add: sp_no_wrap_def sp_demo_req_def sp_any_stuck_def sp_init_def sp_demo_cfg_def)
  have q: "[sp_demo_req\<lparr>r_size := 2\<rparr>, sp_demo_req\<lparr>r_addr := 0x14, r_size := 4, r_data := 102\<rparr>] =
      sp_chunk_reqs sp_demo_cfg sp_demo_req (r_opcode sp_demo_req) (sp_nb_outputs sp_demo_cfg)
        (r_addr sp_demo_req) (r_data sp_demo_req) (r_size sp_demo_req)"
    unfolding sp_demo_nb by (subst sp_demo_chunks[symmetric]) (simp add: sp_demo_req_def)
  from sp_sync_done[OF sp_demo_ok a _ q, of "\<lambda>io. io\<lparr>r_latency := int (unat (r_size io))\<rparr>"]
  show ?thesis by (simp add: sp_init_def) (auto simp: sp_demo_req_def)
qed

end
