(* ===== verification/Plic.thy ===== *)
theory Plic
  imports Prelude
begin

text \<open>
  The platform-level interrupt controller of \<^verbatim>\<open>src/models/cpu/plic.cpp\<close>: per-source priorities and
  levels, per-context enable, pending and claimed bits, claim/complete, and the two interrupt wires
  of each hart. The value last driven on a wire is part of the state, so that what the core sees
  can be compared with what is pending.

  Identifiers and array indices are naturals; the arrays are lists of the declared extents, and
  the index of every access below is in range for \<open>plic_wf\<close> states.
\<close>

section \<open>State\<close>

abbreviation plic_max_devices :: nat where "plic_max_devices \<equiv> 1024"

record plic_context =
  cx_num :: nat
  cx_proc_id :: nat
  cx_mmode :: bool
  cx_priority_threshold :: byte
  cx_enable :: "u32 list"
  cx_pending :: "u32 list"
  cx_pending_priority :: "byte list"
  cx_claimed :: "u32 list"

record plic =
  pl_contexts :: "plic_context list"
  pl_num_ids :: nat
  pl_priority :: "byte list"
  pl_level :: "u32 list"
  pl_m_irq :: "nat \<Rightarrow> bool"
  pl_s_irq :: "nat \<Rightarrow> bool"

definition pl_num_ids_word :: "plic \<Rightarrow> nat" where
  "pl_num_ids_word p =
     (let w = pl_num_ids p div 32 in if w * 32 < pl_num_ids p then w + 1 else w)"

definition pl_max_prio :: nat where
  "pl_max_prio = push_bit 4 1 - 1"

text \<open>The state the constructor builds for \<open>ndev\<close> sources: one hart with an M and an S context.\<close>

definition plic_new_context :: "nat \<Rightarrow> plic_context" where
  "plic_new_context i =
     \<lparr>cx_num = i, cx_proc_id = i div 2, cx_mmode = (i mod 2 = 0), cx_priority_threshold = 0,
      cx_enable = replicate 32 0, cx_pending = replicate 32 0,
      cx_pending_priority = replicate plic_max_devices 0, cx_claimed = replicate 32 0\<rparr>"

definition plic_new :: "nat \<Rightarrow> plic" where
  "plic_new ndev =
     \<lparr>pl_contexts = map plic_new_context [0..<2], pl_num_ids = ndev + 1,
      pl_priority = replicate plic_max_devices 0, pl_level = replicate 32 0,
      pl_m_irq = (\<lambda>_. False), pl_s_irq = (\<lambda>_. False)\<rparr>"

section \<open>Arbitration\<close>

definition best_step :: "nat \<Rightarrow> plic_context \<Rightarrow> nat \<Rightarrow> nat \<Rightarrow> nat \<times> byte \<Rightarrow> nat \<times> byte" where
  "best_step num_ids c i j st =
     (case st of (best_id, best_id_prio) \<Rightarrow>
      let ident = i * 32 + j
      in if num_ids \<le> ident \<or> \<not> bit (cx_pending c ! i) j \<or> bit (cx_claimed c ! i) j then st
         else if best_id = 0 \<or> best_id_prio < cx_pending_priority c ! ident
         then (ident, cx_pending_priority c ! ident)
         else st)"

definition context_best_pending :: "plic \<Rightarrow> plic_context \<Rightarrow> nat" where
  "context_best_pending p c =
     fst (fold (\<lambda>i st. if cx_pending c ! i = 0 then st
                        else fold (best_step (pl_num_ids p) c i) [0..<32] st)
               [0..<pl_num_ids_word p] (0, 0))"

definition context_update :: "plic_context \<Rightarrow> plic \<Rightarrow> plic" where
  "context_update c p =
     (let active = (context_best_pending p c \<noteq> 0)
      in if cx_mmode c then p\<lparr>pl_m_irq := (pl_m_irq p)(cx_proc_id c := active)\<rparr>
         else p\<lparr>pl_s_irq := (pl_s_irq p)(cx_proc_id c := active)\<rparr>)"

text \<open>Write context \<open>k\<close> back and drive its wire.\<close>

definition put_context :: "nat \<Rightarrow> plic_context \<Rightarrow> plic \<Rightarrow> plic" where
  "put_context k c p = context_update c (p\<lparr>pl_contexts := (pl_contexts p)[k := c]\<rparr>)"

definition context_claim :: "nat \<Rightarrow> plic \<Rightarrow> plic \<times> nat" where
  "context_claim k p =
     (let c = pl_contexts p ! k;
          best_id = context_best_pending p c;
          w = best_id div 32;
          c' = (if best_id \<noteq> 0
                then c\<lparr>cx_claimed := (cx_claimed c)[w := set_bit (best_id mod 32) (cx_claimed c ! w)]\<rparr>
                else c)
      in (put_context k c' p, best_id))"

section \<open>Interrupt sources\<close>

text \<open>Only the first context that enables the source is informed.\<close>

fun first_enabled :: "plic_context list \<Rightarrow> nat \<Rightarrow> nat \<Rightarrow> nat \<Rightarrow> nat option" where
  "first_enabled [] k w b = None"
| "first_enabled (c # cs) k w b = (if bit (cx_enable c ! w) b then Some k else first_enabled cs (Suc k) w b)"

definition irq_sync :: "bool \<Rightarrow> nat \<Rightarrow> plic \<Rightarrow> plic" where
  "irq_sync active port p =
     (let ident = port + 1;
          id_prio = pl_priority p ! ident;
          w = ident div 32;
          b = ident mod 32;
          lv = (if active then set_bit b (pl_level p ! w) else unset_bit b (pl_level p ! w));
          p1 = p\<lparr>pl_level := (pl_level p)[w := lv]\<rparr>
      in case first_enabled (pl_contexts p1) 0 w b of
           None \<Rightarrow> p1
         | Some k \<Rightarrow>
             (let c = pl_contexts p1 ! k;
                  c' = (if active
                        then c\<lparr>cx_pending := (cx_pending c)[w := set_bit b (cx_pending c ! w)],
                               cx_pending_priority := (cx_pending_priority c)[ident := id_prio]\<rparr>
                        else c\<lparr>cx_pending := (cx_pending c)[w := unset_bit b (cx_pending c ! w)],
                               cx_pending_priority := (cx_pending_priority c)[ident := 0],
                               cx_claimed := (cx_claimed c)[w := unset_bit b (cx_claimed c ! w)]\<rparr>)
              in put_context k c' p1))"

section \<open>Registers\<close>

definition priority_read :: "nat \<Rightarrow> plic \<Rightarrow> u32" where
  "priority_read off p =
     (let ident = off div 4
      in if ident > 0 \<and> ident < pl_num_ids p then ucast (pl_priority p ! ident) else 0)"

definition priority_write :: "nat \<Rightarrow> u32 \<Rightarrow> plic \<Rightarrow> plic" where
  "priority_write off val p =
     (let ident = off div 4
      in if ident > 0 \<and> ident < pl_num_ids p
         then p\<lparr>pl_priority := (pl_priority p)[ident := ucast (val AND (push_bit 4 1 - 1))]\<rparr>
         else p)"

definition context_enable_read :: "nat \<Rightarrow> nat \<Rightarrow> plic \<Rightarrow> u32" where
  "context_enable_read k off p =
     (let w = off div 4 in if w < pl_num_ids_word p then cx_enable (pl_contexts p ! k) ! w else 0)"

text \<open>One iteration of the loop over the 32 sources of an enable word.\<close>

definition enable_step ::
  "byte list \<Rightarrow> u32 \<Rightarrow> nat \<Rightarrow> u32 \<Rightarrow> u32 \<Rightarrow> nat \<Rightarrow> plic_context \<Rightarrow> plic_context" where
  "enable_step prio level_w w xor_val new_val i c =
     (let ident = w * 32 + i
      in if \<not> bit xor_val i then c
         else if bit new_val i \<and> bit level_w i
         then c\<lparr>cx_pending := (cx_pending c)[w := set_bit i (cx_pending c ! w)],
                cx_pending_priority := (cx_pending_priority c)[ident := prio ! ident]\<rparr>
         else if \<not> bit new_val i
         then c\<lparr>cx_pending := (cx_pending c)[w := unset_bit i (cx_pending c ! w)],
                cx_pending_priority := (cx_pending_priority c)[ident := 0],
                cx_claimed := (cx_claimed c)[w := unset_bit i (cx_claimed c ! w)]\<rparr>
         else c)"

definition context_enable_write :: "nat \<Rightarrow> nat \<Rightarrow> u32 \<Rightarrow> plic \<Rightarrow> plic" where
  "context_enable_write k off val p =
     (let w = off div 4
      in if w \<ge> pl_num_ids_word p then p
         else
           let c = pl_contexts p ! k;
               old_val = cx_enable c ! w;
               new_val = (if w = 0 then val AND NOT 1 else val);
               xor_val = old_val XOR new_val;
               c1 = c\<lparr>cx_enable := (cx_enable c)[w := new_val]\<rparr>;
               c2 = fold (enable_step (pl_priority p) (pl_level p ! w) w xor_val new_val) [0..<32] c1
           in put_context k c2 p)"

definition context_read :: "nat \<Rightarrow> nat \<Rightarrow> plic \<Rightarrow> plic \<times> u32" where
  "context_read k off p =
     (if off = 0 then (p, ucast (cx_priority_threshold (pl_contexts p ! k)))
      else if off = 4 then (case context_claim k p of (p', ident) \<Rightarrow> (p', of_nat ident))
      else (p, 0))"

definition context_write :: "nat \<Rightarrow> nat \<Rightarrow> u32 \<Rightarrow> plic \<Rightarrow> plic \<times> bool" where
  "context_write k off val p =
     (let c = pl_contexts p ! k
      in if off = 0 then
           (let v = val AND (push_bit 4 1 - 1)
            in if unat v \<le> pl_max_prio
               then (p\<lparr>pl_contexts := (pl_contexts p)[k := c\<lparr>cx_priority_threshold := ucast v\<rparr>]\<rparr>, True)
               else (context_update c p, True))
         else if off = 4 then
           (let w = unat val div 32; b = unat val mod 32
            in if unat val < pl_num_ids p \<and> bit (cx_enable c ! w) b
               then (put_context k (c\<lparr>cx_claimed := (cx_claimed c)[w := unset_bit b (cx_claimed c ! w)]\<rparr>) p, True)
               else (p, True))
         else (context_update c p, False))"

text \<open>
  Word accesses, and double words as pairs of word accesses. \<open>plic_load\<close> also returns the bytes
  it has stored at the destination: after a double-word load that fails on its second half the
  first half is there.
\<close>

definition plic_load4 :: "nat \<Rightarrow> plic \<Rightarrow> plic \<times> byte list \<times> bool" where
  "plic_load4 addr p =
     (if addr < 0x2000 then (p, to_le 4 (priority_read addr p), True)
      else if addr < 0x200000 then
        (let cntx = (addr - 0x2000) div 0x80; off = addr - (cntx * 0x80 + 0x2000)
         in if cntx < length (pl_contexts p)
            then (p, to_le 4 (context_enable_read cntx off p), True) else (p, [], False))
      else if addr < 0x1000000 then
        (let cntx = (addr - 0x200000) div 0x1000; off = addr - (cntx * 0x1000 + 0x200000)
         in if cntx < length (pl_contexts p)
            then (case context_read cntx off p of (p', v) \<Rightarrow> (p', to_le 4 v, True)) else (p, [], False))
      else (p, [], False))"

definition plic_load :: "nat \<Rightarrow> nat \<Rightarrow> plic \<Rightarrow> plic \<times> byte list \<times> bool" where
  "plic_load addr len p =
     (if len = 4 then plic_load4 addr p
      else if len = 8 then
        (case plic_load4 addr p of (p1, bs1, ok1) \<Rightarrow>
          if ok1 then (case plic_load4 (addr + 4) p1 of (p2, bs2, ok2) \<Rightarrow> (p2, bs1 @ bs2, ok2))
          else (p1, bs1, False))
      else (p, [], False))"

definition plic_store4 :: "nat \<Rightarrow> u32 \<Rightarrow> plic \<Rightarrow> plic \<times> bool" where
  "plic_store4 addr val p =
     (if addr < 0x2000 then (priority_write addr val p, True)
      else if addr < 0x200000 then
        (let cntx = (addr - 0x2000) div 0x80; off = addr - (cntx * 0x80 + 0x2000)
         in if cntx < length (pl_contexts p)
            then (context_enable_write cntx off val p, True) else (p, False))
      else if addr < 0x1000000 then
        (let cntx = (addr - 0x200000) div 0x1000; off = addr - (cntx * 0x1000 + 0x200000)
         in if cntx < length (pl_contexts p) then context_write cntx off val p else (p, False))
      else (p, False))"

definition plic_store :: "nat \<Rightarrow> byte list \<Rightarrow> plic \<Rightarrow> plic \<times> bool" where
  "plic_store addr bytes p =
     (if length bytes = 4 then plic_store4 addr (from_le bytes) p
      else if length bytes = 8 then
        (case plic_store4 addr (from_le (take 4 bytes)) p of (p1, ok1) \<Rightarrow>
          if ok1 then plic_store4 (addr + 4) (from_le (drop 4 bytes)) p1 else (p1, False))
      else (p, False))"

definition plic_req :: "bool \<Rightarrow> nat \<Rightarrow> nat \<Rightarrow> byte list \<Rightarrow> plic \<Rightarrow> plic \<times> byte list \<times> bool" where
  "plic_req is_write addr sz wdata p =
     (if is_write then (case plic_store addr wdata p of (p', ok) \<Rightarrow> (p', [], ok))
      else plic_load addr sz p)"

end
