(* ===== verification/Plic_Props.thy ===== *)
theory Plic_Props
  imports Plic
begin

text \<open>
  Correctness of the interrupt controller: arbitration picks the highest-priority pending source,
  the bit vectors stay consistent and the interrupt wires always show whether something is
  claimable, claim and complete are inverse; and where the code departs from its own comments.
\<close>

section \<open>Bit vectors indexed by source\<close>

definition tst :: "u32 list \<Rightarrow> nat \<Rightarrow> bool" where
  "tst ws n \<longleftrightarrow> bit (ws ! (n div 32)) (n mod 32)"

lemma div_mod_32_eq: "n = w * 32 + b \<longleftrightarrow> n div 32 = w \<and> n mod 32 = b" if "b < (32::nat)"
  using that by auto

lemma tst_set_bit:
  assumes "w < length ws" "b < 32"
  shows "tst (ws[w := set_bit b (ws ! w)]) n \<longleftrightarrow> tst ws n \<or> n = w * 32 + b"
  using assms unfolding div_mod_32_eq[OF assms(2)]
  by (cases "n div 32 = w") (auto simp: tst_def bit_set_bit_iff)

lemma tst_unset_bit:
  assumes "w < length ws" "b < 32"
  shows "tst (ws[w := unset_bit b (ws ! w)]) n \<longleftrightarrow> tst ws n \<and> n \<noteq> w * 32 + b"
  using assms unfolding div_mod_32_eq[OF assms(2)]
  by (cases "n div 32 = w") (auto simp: tst_def bit_unset_bit_iff)

lemma tst_upd:
  assumes "w < length ws"
  shows "tst (ws[w := v]) n \<longleftrightarrow> (if n div 32 = w then bit v (n mod 32) else tst ws n)"
  using assms by (auto simp: tst_def)

section \<open>Well-formed states\<close>

definition ctx_wf :: "plic_context \<Rightarrow> bool" where
  "ctx_wf c \<longleftrightarrow>
     length (cx_enable c) = 32 \<and> length (cx_pending c) = 32 \<and> length (cx_claimed c) = 32 \<and>
     length (cx_pending_priority c) = plic_max_devices \<and>
     \<not> tst (cx_enable c) 0 \<and>
     (\<forall>n < plic_max_devices. tst (cx_pending c) n \<longrightarrow> tst (cx_enable c) n) \<and>
     (\<forall>n < plic_max_devices. tst (cx_claimed c) n \<longrightarrow> tst (cx_pending c) n) \<and>
     (\<forall>n < plic_max_devices. \<not> tst (cx_pending c) n \<longrightarrow> cx_pending_priority c ! n = 0)"

definition ctx_key :: "plic_context \<Rightarrow> bool \<times> nat" where
  "ctx_key c = (cx_mmode c, cx_proc_id c)"

definition plic_wf :: "plic \<Rightarrow> bool" where
  "plic_wf p \<longleftrightarrow>
     0 < pl_num_ids p \<and> pl_num_ids p \<le> plic_max_devices \<and>
     length (pl_priority p) = plic_max_devices \<and> length (pl_level p) = 32 \<and>
     (\<forall>c \<in> set (pl_contexts p). ctx_wf c) \<and> distinct (map ctx_key (pl_contexts p))"

definition ctx_line :: "plic \<Rightarrow> plic_context \<Rightarrow> bool" where
  "ctx_line p c = (if cx_mmode c then pl_m_irq p (cx_proc_id c) else pl_s_irq p (cx_proc_id c))"

definition lines_ok :: "plic \<Rightarrow> bool" where
  "lines_ok p \<longleftrightarrow> (\<forall>c \<in> set (pl_contexts p). ctx_line p c = (context_best_pending p c \<noteq> 0))"

lemma num_ids_word_bounds:
  "pl_num_ids p \<le> pl_num_ids_word p * 32" "pl_num_ids p \<le> plic_max_devices \<Longrightarrow> pl_num_ids_word p \<le> 32"
  by (auto simp: pl_num_ids_word_def Let_def)

section \<open>Arbitration\<close>

definition claimable :: "plic \<Rightarrow> plic_context \<Rightarrow> nat \<Rightarrow> bool" where
  "claimable p c n \<longleftrightarrow> n < pl_num_ids p \<and> tst (cx_pending c) n \<and> \<not> tst (cx_claimed c) n"

text \<open>What the loop has found among the sources below \<open>n\<close>.\<close>

definition best_upto :: "plic \<Rightarrow> plic_context \<Rightarrow> nat \<Rightarrow> nat \<times> byte \<Rightarrow> bool" where
  "best_upto p c n st \<longleftrightarrow>
     (fst st = 0 \<and> (\<forall>m < n. \<not> claimable p c m) \<or>
      fst st \<noteq> 0 \<and> fst st < n \<and> claimable p c (fst st) \<and> snd st = cx_pending_priority c ! fst st \<and>
      (\<forall>m < n. claimable p c m \<longrightarrow>
         cx_pending_priority c ! m \<le> snd st \<and> (m < fst st \<longrightarrow> cx_pending_priority c ! m < snd st)))"

lemma best_step_upto:
  assumes "\<not> claimable p c 0" "j < 32" "best_upto p c (i * 32 + j) st"
  shows "best_upto p c (i * 32 + Suc j) (best_step (pl_num_ids p) c i j st)"
proof -
  let ?n = "i * 32 + j"
  have d: "?n div 32 = i" "?n mod 32 = j" using assms(2) by auto
  have c: "claimable p c ?n \<longleftrightarrow> \<not> (pl_num_ids p \<le> ?n \<or> \<not> bit (cx_pending c ! i) j \<or> bit (cx_claimed c ! i) j)"
    unfolding claimable_def tst_def d by auto
  obtain b pr where st: "st = (b, pr)" by (cases st)
  show ?thesis
  proof (cases "claimable p c ?n")
    case False
    then have "best_step (pl_num_ids p) c i j st = st" using c st by (auto simp: best_step_def Let_def)
    moreover have "best_upto p c (Suc ?n) st" using assms(3) False st
      by (auto simp: best_upto_def less_Suc_eq)
    ultimately show ?thesis by simp
  next
    case True
    then have n0: "?n \<noteq> 0" using assms(1) by metis
    have bs: "best_step (pl_num_ids p) c i j st =
      (if b = 0 \<or> pr < cx_pending_priority c ! ?n then (?n, cx_pending_priority c ! ?n) else st)"
      using True c st by (auto simp: best_step_def Let_def)
    have "best_upto p c (Suc ?n) (best_step (pl_num_ids p) c i j st)"
      unfolding bs using assms(3) True n0 unfolding best_upto_def st less_Suc_eq
      by (auto simp: not_less intro: order.trans le_less_trans)
    then show ?thesis by simp
  qed
qed

lemma fold_upto:
  assumes "\<And>j st. j < n \<Longrightarrow> P j st \<Longrightarrow> P (Suc j) (f j st)" "P 0 st"
  shows "P n (fold f [0..<n] st)"
  using assms by (induction n) auto

lemma best_pending_upto:
  assumes "\<not> claimable p c 0"
  shows "\<exists>pr. best_upto p c (pl_num_ids_word p * 32) (context_best_pending p c, pr)"
proof -
  let ?f = "\<lambda>i st. if cx_pending c ! i = 0 then st else fold (best_step (pl_num_ids p) c i) [0..<32] st"
  have "best_upto p c (pl_num_ids_word p * 32) (fold ?f [0..<pl_num_ids_word p] (0, 0))"
  proof (rule fold_upto[where P = "\<lambda>i. best_upto p c (i * 32)"])
    fix i st assume st: "best_upto p c (i * 32) st"
    show "best_upto p c (Suc i * 32) (?f i st)"
    proof (cases "cx_pending c ! i = 0")
      case True
      have "\<not> claimable p c m" if "i * 32 \<le> m" "m < Suc i * 32" for m
      proof -
        have "m div 32 = i" using that by (simp add: div_nat_eqI)
        then show ?thesis using True by (simp add: claimable_def tst_def)
      qed
      then have "claimable p c m \<Longrightarrow> m < Suc i * 32 \<Longrightarrow> m < i * 32" for m by (meson not_less)
      then have "best_upto p c (Suc i * 32) st" using st unfolding best_upto_def by auto
      then show ?thesis using True by simp
    next
      case False
      have "best_upto p c (i * 32 + 32) (fold (best_step (pl_num_ids p) c i) [0..<32] st)"
        by (rule fold_upto[where P = "\<lambda>j. best_upto p c (i * 32 + j)"])
          (use st best_step_upto[OF assms] in auto)
      then show ?thesis using False by (simp add: add.commute)
    qed
  qed (simp add: best_upto_def)
  then show ?thesis unfolding context_best_pending_def
    by (intro exI[of _ "snd (fold ?f [0..<pl_num_ids_word p] (0, 0))"]) simp
qed

lemma not_claimable_0: "ctx_wf c \<Longrightarrow> \<not> claimable p c 0"
  by (auto simp: ctx_wf_def claimable_def)

lemma best_pending_zero_iff:
  assumes "ctx_wf c"
  shows "context_best_pending p c = 0 \<longleftrightarrow> (\<forall>n. \<not> claimable p c n)"
proof -
  obtain pr where b: "best_upto p c (pl_num_ids_word p * 32) (context_best_pending p c, pr)"
    using best_pending_upto[OF not_claimable_0[OF assms]] by blast
  have "claimable p c n \<Longrightarrow> n < pl_num_ids_word p * 32" for n
    using num_ids_word_bounds(1)[of p] by (simp add: claimable_def)
  then show ?thesis using b by (auto simp: best_upto_def)
qed

lemma best_pending_max:
  assumes "ctx_wf c" "context_best_pending p c \<noteq> 0"
  shows "claimable p c (context_best_pending p c)"
    "claimable p c n \<Longrightarrow> cx_pending_priority c ! n \<le> cx_pending_priority c ! context_best_pending p c"
    "claimable p c n \<Longrightarrow> n < context_best_pending p c \<Longrightarrow>
       cx_pending_priority c ! n < cx_pending_priority c ! context_best_pending p c"
proof -
  obtain pr where b: "best_upto p c (pl_num_ids_word p * 32) (context_best_pending p c, pr)"
    using best_pending_upto[OF not_claimable_0[OF assms(1)]] by blast
  have lt: "claimable p c n \<Longrightarrow> n < pl_num_ids_word p * 32" for n
    using num_ids_word_bounds(1)[of p] by (simp add: claimable_def)
  show "claimable p c (context_best_pending p c)" using b assms(2) by (simp add: best_upto_def)
  show "claimable p c n \<Longrightarrow> cx_pending_priority c ! n \<le> cx_pending_priority c ! context_best_pending p c"
    "claimable p c n \<Longrightarrow> n < context_best_pending p c \<Longrightarrow>
       cx_pending_priority c ! n < cx_pending_priority c ! context_best_pending p c"
    using b lt[of n] assms(2) by (auto simp: best_upto_def)
qed

text \<open>The winner is determined by what can be claimed and the recorded priorities.\<close>

lemma best_pending_unique:
  assumes "ctx_wf c" "claimable p c m" "m \<noteq> 0"
    and "\<And>n. claimable p c n \<Longrightarrow> cx_pending_priority c ! n \<le> cx_pending_priority c ! m"
    and "\<And>n. claimable p c n \<Longrightarrow> n < m \<Longrightarrow> cx_pending_priority c ! n < cx_pending_priority c ! m"
  shows "context_best_pending p c = m"
proof -
  have nz: "context_best_pending p c \<noteq> 0" using best_pending_zero_iff[OF assms(1), of p] assms(2) by auto
  note b = best_pending_max[OF assms(1) nz]
  show ?thesis
  proof (rule ccontr)
    assume "context_best_pending p c \<noteq> m"
    then consider "context_best_pending p c < m" | "m < context_best_pending p c" by linarith
    then show False
      by cases (use assms(4,5) b assms(2) in \<open>fastforce dest: leD\<close>)+
  qed
qed

lemma best_pending_cong:
  "pl_num_ids p = pl_num_ids q \<Longrightarrow> context_best_pending p c = context_best_pending q c"
  by (simp add: context_best_pending_def pl_num_ids_word_def cong: if_cong)

lemma best_pending_bound:
  "plic_wf p \<Longrightarrow> ctx_wf c \<Longrightarrow> context_best_pending p c < plic_max_devices"
  using best_pending_max(1)[of c p] by (cases "context_best_pending p c = 0") (auto simp: plic_wf_def claimable_def)

section \<open>Every operation keeps the state consistent and the wires true\<close>

lemma context_update_simps [simp]:
  "pl_contexts (context_update c p) = pl_contexts p" "pl_num_ids (context_update c p) = pl_num_ids p"
  "pl_priority (context_update c p) = pl_priority p" "pl_level (context_update c p) = pl_level p"
  by (simp_all add: context_update_def Let_def)

lemma put_context_simps [simp]:
  "pl_contexts (put_context k c p) = (pl_contexts p)[k := c]" "pl_num_ids (put_context k c p) = pl_num_ids p"
  "pl_priority (put_context k c p) = pl_priority p" "pl_level (put_context k c p) = pl_level p"
  by (simp_all add: put_context_def)

lemma ctx_line_update:
  "ctx_line (context_update c p) d =
     (if ctx_key d = ctx_key c then context_best_pending p c \<noteq> 0 else ctx_line p d)"
  by (auto simp: ctx_line_def context_update_def ctx_key_def Let_def)

definition plic_ok :: "plic \<Rightarrow> bool" where
  "plic_ok p \<longleftrightarrow> plic_wf p \<and> lines_ok p"

lemma put_context_ok:
  assumes ok: "plic_ok p" and k: "k < length (pl_contexts p)" and c: "ctx_wf c"
    and key: "ctx_key c = ctx_key (pl_contexts p ! k)"
  shows "plic_ok (put_context k c p)"
proof -
  have keys: "map ctx_key ((pl_contexts p)[k := c]) = map ctx_key (pl_contexts p)"
    using k key by (simp add: map_update list_update_same_conv)
  then have d: "distinct (map ctx_key ((pl_contexts p)[k := c]))" using ok by (simp add: plic_ok_def plic_wf_def)
  have wf: "plic_wf (put_context k c p)"
    using ok c d set_update_subset_insert[of "pl_contexts p" k c]
    by (auto simp: plic_ok_def plic_wf_def)
  have "ctx_line (put_context k c p) e = (context_best_pending (put_context k c p) e \<noteq> 0)"
    if e: "e \<in> set ((pl_contexts p)[k := c])" for e
  proof -
    obtain j where j: "j < length (pl_contexts p)" "e = (pl_contexts p)[k := c] ! j"
      using e by (metis in_set_conv_nth length_list_update)
    have b: "context_best_pending (put_context k c p) d = context_best_pending p d"
      "context_best_pending (p\<lparr>pl_contexts := cs\<rparr>) d = context_best_pending p d" for d cs
      by (rule best_pending_cong, simp)+
    show ?thesis
    proof (cases "j = k")
      case True
      then have "e = c" using j by simp
      then show ?thesis unfolding b unfolding put_context_def ctx_line_update b by simp
    next
      case False
      then have e': "e = pl_contexts p ! j" using j by simp
      have "map ctx_key ((pl_contexts p)[k := c]) ! j \<noteq> map ctx_key ((pl_contexts p)[k := c]) ! k"
        using nth_eq_iff_index_eq[OF d, of j k] False j(1) k by simp
      then have "ctx_key e \<noteq> ctx_key c" using j k by simp
      moreover have "ctx_line p e = (context_best_pending p e \<noteq> 0)"
        unfolding e' using ok nth_mem[OF j(1)] by (auto simp: plic_ok_def lines_ok_def)
      ultimately show ?thesis unfolding b unfolding put_context_def ctx_line_update b
        by (auto simp: ctx_line_def split: if_splits)
    qed
  qed
  then show ?thesis using wf by (simp add: plic_ok_def lines_ok_def)
qed

text \<open>Setting and clearing the bits of one source in a context.\<close>

lemma ctx_wf_claim:
  assumes "ctx_wf c" "n < plic_max_devices" "tst (cx_pending c) n"
  shows "ctx_wf (c\<lparr>cx_claimed := (cx_claimed c)[n div 32 := set_bit (n mod 32) (cx_claimed c ! (n div 32))]\<rparr>)"
proof -
  have w: "n div 32 < length (cx_claimed c)" using assms(1,2) by (auto simp: ctx_wf_def)
  show ?thesis using assms tst_set_bit[OF w, of "n mod 32"] by (auto simp: ctx_wf_def)
qed

lemma ctx_wf_complete:
  assumes "ctx_wf c" "n < plic_max_devices"
  shows "ctx_wf (c\<lparr>cx_claimed := (cx_claimed c)[n div 32 := unset_bit (n mod 32) (cx_claimed c ! (n div 32))]\<rparr>)"
proof -
  have w: "n div 32 < length (cx_claimed c)" using assms(1,2) by (auto simp: ctx_wf_def)
  show ?thesis using assms tst_unset_bit[OF w, of "n mod 32"] by (auto simp: ctx_wf_def)
qed

lemma ctx_wf_raise:
  assumes "ctx_wf c" "n < plic_max_devices" "tst (cx_enable c) n"
  shows "ctx_wf (c\<lparr>cx_pending := (cx_pending c)[n div 32 := set_bit (n mod 32) (cx_pending c ! (n div 32))],
    cx_pending_priority := (cx_pending_priority c)[n := v]\<rparr>)"
proof -
  have w: "n div 32 < length (cx_pending c)" using assms(1,2) by (auto simp: ctx_wf_def)
  show ?thesis using assms tst_set_bit[OF w, of "n mod 32"] by (auto simp: ctx_wf_def nth_list_update)
qed

text \<open>Lowering a source also keeps the invariant when its enable bit was just removed.\<close>

lemma ctx_wf_lower:
  assumes wf: "\<And>m. m < plic_max_devices \<Longrightarrow> m \<noteq> n \<Longrightarrow> tst (cx_pending c) m \<Longrightarrow> tst (cx_enable c) m"
    "\<And>m. m < plic_max_devices \<Longrightarrow> tst (cx_claimed c) m \<Longrightarrow> tst (cx_pending c) m"
    "\<And>m. m < plic_max_devices \<Longrightarrow> \<not> tst (cx_pending c) m \<Longrightarrow> cx_pending_priority c ! m = 0"
    "length (cx_enable c) = 32" "length (cx_pending c) = 32" "length (cx_claimed c) = 32"
    "length (cx_pending_priority c) = plic_max_devices" "\<not> tst (cx_enable c) 0"
    and n: "n < plic_max_devices"
  shows "ctx_wf (c\<lparr>cx_pending := (cx_pending c)[n div 32 := unset_bit (n mod 32) (cx_pending c ! (n div 32))],
    cx_pending_priority := (cx_pending_priority c)[n := 0],
    cx_claimed := (cx_claimed c)[n div 32 := unset_bit (n mod 32) (cx_claimed c ! (n div 32))]\<rparr>)"
proof -
  have w: "n div 32 < length (cx_pending c)" "n div 32 < length (cx_claimed c)" using wf n by auto
  show ?thesis using wf n tst_unset_bit[OF w(1), of "n mod 32"] tst_unset_bit[OF w(2), of "n mod 32"]
    by (auto simp: ctx_wf_def nth_list_update)
qed

lemma ctx_wf_in: "plic_ok p \<Longrightarrow> k < length (pl_contexts p) \<Longrightarrow> ctx_wf (pl_contexts p ! k)"
  by (simp add: plic_ok_def plic_wf_def)

lemma context_claim_ok:
  assumes ok: "plic_ok p" and k: "k < length (pl_contexts p)"
  shows "plic_ok (fst (context_claim k p))"
proof -
  let ?c = "pl_contexts p ! k"
  note wf = ctx_wf_in[OF ok k]
  have b: "context_best_pending p ?c < plic_max_devices"
    using ok wf by (intro best_pending_bound) (auto simp: plic_ok_def)
  have "ctx_wf (?c\<lparr>cx_claimed := (cx_claimed ?c)[context_best_pending p ?c div 32 :=
      set_bit (context_best_pending p ?c mod 32) (cx_claimed ?c ! (context_best_pending p ?c div 32))]\<rparr>)"
    if "context_best_pending p ?c \<noteq> 0"
    using ctx_wf_claim[OF wf b] best_pending_max(1)[OF wf that] by (simp add: claimable_def)
  then show ?thesis using wf
    by (auto simp: context_claim_def Let_def ctx_key_def intro!: put_context_ok[OF ok k])
qed

lemma first_enabled_Some:
  "first_enabled cs k w b = Some j \<Longrightarrow> k \<le> j \<and> j < k + length cs \<and> bit (cx_enable (cs ! (j - k)) ! w) b"
proof (induction cs arbitrary: k)
  case (Cons c cs)
  then show ?case
  proof (cases "bit (cx_enable c ! w) b")
    case False
    then have r: "first_enabled cs (Suc k) w b = Some j" using Cons.prems by simp
    from Cons.IH[OF r] have "j - k = Suc (j - Suc k)" by linarith
    then show ?thesis using Cons.IH[OF r] by simp
  qed auto
qed simp

lemma first_enabled_le:
  "i < length cs \<Longrightarrow> bit (cx_enable (cs ! i) ! w) b \<Longrightarrow> \<exists>j. first_enabled cs k w b = Some j \<and> j \<le> k + i"
proof (induction cs arbitrary: i k)
  case (Cons c cs)
  show ?case
  proof (cases "bit (cx_enable c ! w) b")
    case False
    then obtain i' where "i = Suc i'" using Cons.prems by (cases i) auto
    then show ?thesis using Cons.IH[of i' "Suc k"] Cons.prems False by auto
  qed simp
qed simp

lemma plic_ok_level:
  assumes "plic_ok p" "length l = 32"
  shows "plic_ok (p\<lparr>pl_level := l\<rparr>)"
proof -
  have "context_best_pending (p\<lparr>pl_level := l\<rparr>) c = context_best_pending p c" for c
    by (rule best_pending_cong) simp
  then show ?thesis using assms by (auto simp: plic_ok_def plic_wf_def lines_ok_def ctx_line_def split: if_splits)
qed

lemma plic_ok_priority:
  assumes "plic_ok p" "length l = plic_max_devices"
  shows "plic_ok (p\<lparr>pl_priority := l\<rparr>)"
proof -
  have "context_best_pending (p\<lparr>pl_priority := l\<rparr>) c = context_best_pending p c" for c
    by (rule best_pending_cong) simp
  then show ?thesis using assms by (auto simp: plic_ok_def plic_wf_def lines_ok_def ctx_line_def split: if_splits)
qed

lemma irq_sync_ok:
  assumes ok: "plic_ok p" and port: "port + 1 < pl_num_ids p"
  shows "plic_ok (irq_sync active port p)"
proof -
  let ?n = "port + 1"
  let ?lv = "(pl_level p)[?n div 32 := if active then set_bit (?n mod 32) (pl_level p ! (?n div 32))
    else unset_bit (?n mod 32) (pl_level p ! (?n div 32))]"
  let ?p1 = "p\<lparr>pl_level := ?lv\<rparr>"
  have n: "?n < plic_max_devices" using ok port by (auto simp: plic_ok_def plic_wf_def)
  have ok1: "plic_ok ?p1" using ok by (intro plic_ok_level) (auto simp: plic_ok_def plic_wf_def)
  show ?thesis
  proof (cases "first_enabled (pl_contexts p) 0 (?n div 32) (?n mod 32)")
    case None
    then show ?thesis using ok1 by (cases active) (simp_all add: irq_sync_def Let_def)
  next
    case (Some k)
    from first_enabled_Some[OF Some] have k: "k < length (pl_contexts ?p1)" "tst (cx_enable (pl_contexts p ! k)) ?n"
      by (auto simp: tst_def)
    let ?c = "pl_contexts p ! k"
    have wf: "ctx_wf ?c" using ctx_wf_in[OF ok1 k(1)] by simp
    have a: "plic_ok (put_context k (?c\<lparr>cx_pending := (cx_pending ?c)[?n div 32 := set_bit (?n mod 32) (cx_pending ?c ! (?n div 32))],
        cx_pending_priority := (cx_pending_priority ?c)[?n := pl_priority p ! ?n]\<rparr>) ?p1)"
      by (rule put_context_ok[OF ok1 k(1) ctx_wf_raise[OF wf n k(2)]]) (simp add: ctx_key_def)
    have b: "plic_ok (put_context k (?c\<lparr>cx_pending := (cx_pending ?c)[?n div 32 := unset_bit (?n mod 32) (cx_pending ?c ! (?n div 32))],
        cx_pending_priority := (cx_pending_priority ?c)[?n := 0],
        cx_claimed := (cx_claimed ?c)[?n div 32 := unset_bit (?n mod 32) (cx_claimed ?c ! (?n div 32))]\<rparr>) ?p1)"
      by (rule put_context_ok[OF ok1 k(1) ctx_wf_lower[OF _ _ _ _ _ _ _ _ n]])
        (use wf in \<open>auto simp: ctx_key_def ctx_wf_def\<close>)
    show ?thesis using a b Some by (cases active) (simp_all add: irq_sync_def Let_def)
  qed
qed

text \<open>
  Rewriting an enable word breaks the invariant for the sources whose enable bit fell; the loop
  over the changed bits repairs it. \<open>todo w x i\<close> are the changed sources the loop has not reached.
\<close>

definition todo :: "nat \<Rightarrow> u32 \<Rightarrow> nat \<Rightarrow> nat set" where
  "todo w x i = {w * 32 + j | j. i \<le> j \<and> j < 32 \<and> bit x j}"

definition ctx_wf_except :: "nat set \<Rightarrow> plic_context \<Rightarrow> bool" where
  "ctx_wf_except S c \<longleftrightarrow>
     length (cx_enable c) = 32 \<and> length (cx_pending c) = 32 \<and> length (cx_claimed c) = 32 \<and>
     length (cx_pending_priority c) = plic_max_devices \<and> \<not> tst (cx_enable c) 0 \<and>
     (\<forall>n < plic_max_devices. n \<notin> S \<longrightarrow> tst (cx_pending c) n \<longrightarrow> tst (cx_enable c) n) \<and>
     (\<forall>n < plic_max_devices. tst (cx_claimed c) n \<longrightarrow> tst (cx_pending c) n) \<and>
     (\<forall>n < plic_max_devices. \<not> tst (cx_pending c) n \<longrightarrow> cx_pending_priority c ! n = 0)"

lemma ctx_wf_except_empty: "ctx_wf_except {} c = ctx_wf c"
  by (simp add: ctx_wf_except_def ctx_wf_def)

lemma todo_step: "i < 32 \<Longrightarrow> todo w x i = (if bit x i then insert (w * 32 + i) (todo w x (Suc i)) else todo w x (Suc i))"
  by (auto simp: todo_def le_less Suc_le_eq)

lemma enable_step_wf:
  assumes i: "i < 32" and w: "w < 32" and c: "ctx_wf_except (todo w x i) c"
    and en: "\<And>j. j < 32 \<Longrightarrow> tst (cx_enable c) (w * 32 + j) = bit v j"
  shows "ctx_wf_except (todo w x (Suc i)) (enable_step pr lv w x v i c) \<and>
    cx_enable (enable_step pr lv w x v i c) = cx_enable c \<and> ctx_key (enable_step pr lv w x v i c) = ctx_key c"
proof -
  let ?n = "w * 32 + i"
  have len: "w < length (cx_pending c)" "w < length (cx_claimed c)" "?n < plic_max_devices"
    using c w i by (auto simp: ctx_wf_except_def)
  note b = tst_set_bit[OF len(1) i] tst_unset_bit[OF len(1) i] tst_unset_bit[OF len(2) i]
  consider "\<not> bit x i" | "bit x i" "bit v i" "bit lv i" | "bit x i" "\<not> bit v i" | "bit x i" "bit v i" "\<not> bit lv i" by blast
  then have "ctx_wf_except (todo w x (Suc i)) (enable_step pr lv w x v i c)"
  proof cases
    case 1
    then show ?thesis using c todo_step[OF i] by (simp add: enable_step_def)
  next
    case 2
    then show ?thesis using c todo_step[OF i, of w x] en[OF i] len
      by (auto simp: enable_step_def ctx_wf_except_def b nth_list_update Let_def)
  next
    case 3
    then show ?thesis using c todo_step[OF i, of w x] len
      by (auto simp: enable_step_def ctx_wf_except_def b nth_list_update Let_def)
  next
    case 4
    then show ?thesis using c todo_step[OF i, of w x] en[OF i]
      by (auto simp: enable_step_def ctx_wf_except_def Let_def)
  qed
  then show ?thesis by (simp add: enable_step_def ctx_key_def Let_def)
qed

lemma enable_loop_wf:
  assumes w: "w < 32" and c: "ctx_wf_except (todo w x 0) c"
    and en: "\<And>j. j < 32 \<Longrightarrow> tst (cx_enable c) (w * 32 + j) = bit v j"
  shows "ctx_wf (fold (enable_step pr lv w x v) [0..<32] c) \<and>
    ctx_key (fold (enable_step pr lv w x v) [0..<32] c) = ctx_key c"
proof -
  have "ctx_wf_except (todo w x 32) (fold (enable_step pr lv w x v) [0..<32] c) \<and>
    cx_enable (fold (enable_step pr lv w x v) [0..<32] c) = cx_enable c \<and>
    ctx_key (fold (enable_step pr lv w x v) [0..<32] c) = ctx_key c"
    by (rule fold_upto[where P = "\<lambda>i d. ctx_wf_except (todo w x i) d \<and> cx_enable d = cx_enable c \<and> ctx_key d = ctx_key c"])
      (use enable_step_wf[OF _ w] en c in auto)
  moreover have "todo w x 32 = {}" by (auto simp: todo_def)
  ultimately show ?thesis by (simp add: ctx_wf_except_empty)
qed

lemma context_enable_write_ok:
  assumes ok: "plic_ok p" and k: "k < length (pl_contexts p)"
  shows "plic_ok (context_enable_write k off val p)"
proof (cases "off div 4 \<ge> pl_num_ids_word p")
  case True
  then show ?thesis using ok by (simp add: context_enable_write_def)
next
  case False
  let ?w = "off div 4" and ?c = "pl_contexts p ! k"
  let ?v = "if ?w = 0 then val AND NOT 1 else val"
  let ?x = "cx_enable ?c ! ?w XOR ?v" and ?c1 = "?c\<lparr>cx_enable := (cx_enable ?c)[?w := ?v]\<rparr>"
  note wf = ctx_wf_in[OF ok k]
  have w: "?w < 32" using False num_ids_word_bounds(2)[of p] ok by (auto simp: plic_ok_def plic_wf_def)
  have l: "?w < length (cx_enable ?c)" using w wf by (simp add: ctx_wf_def)
  have en: "tst (cx_enable ?c1) (?w * 32 + j) = bit ?v j" if "j < 32" for j
    using that l by (simp add: tst_upd)
  have e0: "\<not> tst (cx_enable ?c1) 0"
    using wf l by (auto simp: tst_upd ctx_wf_def bit_and_iff bit_not_iff)
  have "tst (cx_enable ?c1) n"
    if n: "n < plic_max_devices" "n \<notin> todo ?w ?x 0" "tst (cx_pending ?c) n" for n
  proof -
    have o: "tst (cx_enable ?c) n" using wf n by (simp add: ctx_wf_def)
    show ?thesis
    proof (cases "n div 32 = ?w")
      case True
      then have "n = ?w * 32 + n mod 32" by (metis div_mult_mod_eq)
      then have "\<not> bit ?x (n mod 32)" using n(2) by (auto simp: todo_def)
      then show ?thesis using True o l by (simp add: tst_upd tst_def bit_xor_iff)
    next
      case False
      then show ?thesis using o l by (simp add: tst_upd)
    qed
  qed
  then have "ctx_wf_except (todo ?w ?x 0) ?c1" using wf e0 by (simp add: ctx_wf_except_def ctx_wf_def)
  from enable_loop_wf[OF w this, of ?v, OF en]
  have "plic_ok (put_context k (fold (enable_step (pl_priority p) (pl_level p ! ?w) ?w ?x ?v) [0..<32] ?c1) p)"
    by (intro put_context_ok[OF ok k]) (auto simp: ctx_key_def)
  then show ?thesis using False by (simp add: context_enable_write_def Let_def)
qed

lemma context_update_ok:
  assumes "plic_ok p" "k < length (pl_contexts p)"
  shows "plic_ok (context_update (pl_contexts p ! k) p)"
  using put_context_ok[OF assms ctx_wf_in[OF assms] refl] by (simp add: put_context_def)

lemma best_pending_threshold:
  "context_best_pending p (c\<lparr>cx_priority_threshold := v\<rparr>) = context_best_pending p c"
proof -
  have "best_step n (c\<lparr>cx_priority_threshold := v\<rparr>) = best_step n c" for n
    by (intro ext) (auto simp: best_step_def Let_def split: prod.splits)
  then show ?thesis by (simp add: context_best_pending_def cong: if_cong)
qed

lemma threshold_ok:
  assumes ok: "plic_ok p" and k: "k < length (pl_contexts p)"
  shows "plic_ok (p\<lparr>pl_contexts := (pl_contexts p)[k := (pl_contexts p ! k)\<lparr>cx_priority_threshold := v\<rparr>]\<rparr>)"
    (is "plic_ok ?p'")
proof -
  let ?c = "pl_contexts p ! k"
  have keys: "map ctx_key ((pl_contexts p)[k := ?c\<lparr>cx_priority_threshold := v\<rparr>]) = map ctx_key (pl_contexts p)"
    using k by (simp add: map_update list_update_same_conv ctx_key_def)
  have wf: "ctx_wf (?c\<lparr>cx_priority_threshold := v\<rparr>)" using ctx_wf_in[OF ok k] by (simp add: ctx_wf_def)
  have b: "context_best_pending ?p' d = context_best_pending p d" for d by (rule best_pending_cong) simp
  have l: "ctx_line p (?c\<lparr>cx_priority_threshold := v\<rparr>) = ctx_line p ?c" by (simp add: ctx_line_def)
  have "plic_wf ?p'"
    using ok wf keys set_update_subset_insert[of "pl_contexts p" k "?c\<lparr>cx_priority_threshold := v\<rparr>"]
    by (auto simp: plic_ok_def plic_wf_def)
  moreover have "ctx_line ?p' d = ctx_line p d" for d by (simp add: ctx_line_def)
  moreover have "ctx_line p d = (context_best_pending p d \<noteq> 0)"
    if d: "d \<in> set ((pl_contexts p)[k := ?c\<lparr>cx_priority_threshold := v\<rparr>])" for d
  proof -
    consider "d = ?c\<lparr>cx_priority_threshold := v\<rparr>" | "d \<in> set (pl_contexts p)"
      using subsetD[OF set_update_subset_insert d] by blast
    then show ?thesis
    proof cases
      case 1
      then show ?thesis using ok k l by (simp add: plic_ok_def lines_ok_def best_pending_threshold)
    next
      case 2
      then show ?thesis using ok by (simp add: plic_ok_def lines_ok_def)
    qed
  qed
  ultimately show ?thesis by (simp add: plic_ok_def lines_ok_def b)
qed

lemma context_write_ok:
  assumes ok: "plic_ok p" and k: "k < length (pl_contexts p)"
  shows "plic_ok (fst (context_write k off val p))"
proof -
  let ?c = "pl_contexts p ! k" and ?n = "unat val"
  have "plic_ok (put_context k (?c\<lparr>cx_claimed := (cx_claimed ?c)[?n div 32 := unset_bit (?n mod 32) (cx_claimed ?c ! (?n div 32))]\<rparr>) p)"
    if "?n < pl_num_ids p"
  proof -
    have "?n < plic_max_devices" using that ok by (simp add: plic_ok_def plic_wf_def)
    from ctx_wf_complete[OF ctx_wf_in[OF ok k] this] show ?thesis
      by (rule put_context_ok[OF ok k]) (simp add: ctx_key_def)
  qed
  then show ?thesis using ok threshold_ok[OF ok k] context_update_ok[OF ok k]
    by (auto simp: context_write_def Let_def)
qed

lemma plic_load4_ok: "plic_ok p \<Longrightarrow> plic_ok (fst (plic_load4 addr p))"
  using context_claim_ok[of p]
  by (auto simp: plic_load4_def context_read_def Let_def split: prod.splits if_splits) (metis fst_conv)

lemma plic_store4_ok: "plic_ok p \<Longrightarrow> plic_ok (fst (plic_store4 addr val p))"
  by (auto simp: plic_store4_def Let_def priority_write_def intro!: context_enable_write_ok context_write_ok plic_ok_priority)
    (auto simp: plic_ok_def plic_wf_def)

text \<open>Histories of bus accesses and source changes.\<close>

datatype plic_op = Op_Irq bool nat | Op_Req bool nat nat "byte list"

fun plic_apply :: "plic_op \<Rightarrow> plic \<Rightarrow> plic" where
  "plic_apply (Op_Irq active port) p = irq_sync active port p"
| "plic_apply (Op_Req is_write addr sz wdata) p = fst (plic_req is_write addr sz wdata p)"

fun op_in_range :: "nat \<Rightarrow> plic_op \<Rightarrow> bool" where
  "op_in_range ndev (Op_Irq active port) = (port < ndev)"
| "op_in_range ndev (Op_Req _ _ _ _) = True"

lemma num_ids_enable_write [simp]: "pl_num_ids (context_enable_write k off val p) = pl_num_ids p"
  by (cases "pl_num_ids_word p \<le> off div 4")
    (simp_all only: context_enable_write_def Let_def put_context_simps if_True if_False)

lemma num_ids_context_write [simp]: "pl_num_ids (fst (context_write k off val p)) = pl_num_ids p"
  by (simp add: context_write_def Let_def)

lemma num_ids_context_read [simp]: "pl_num_ids (fst (context_read k off p)) = pl_num_ids p"
  by (simp add: context_read_def context_claim_def Let_def)

lemma num_ids_kept [simp]:
  "pl_num_ids (irq_sync active port p) = pl_num_ids p"
  "pl_num_ids (fst (plic_load4 addr p)) = pl_num_ids p"
  "pl_num_ids (fst (plic_store4 addr val p)) = pl_num_ids p"
proof -
  show "pl_num_ids (irq_sync active port p) = pl_num_ids p"
    by (simp add: irq_sync_def Let_def split: option.splits)
  show "pl_num_ids (fst (plic_load4 addr p)) = pl_num_ids p"
    by (auto simp: plic_load4_def Let_def split: prod.splits) (metis fst_conv num_ids_context_read)
  show "pl_num_ids (fst (plic_store4 addr val p)) = pl_num_ids p"
    by (simp add: plic_store4_def priority_write_def Let_def)
qed

lemma plic_req_ok:
  "plic_ok p \<Longrightarrow> plic_ok (fst (plic_req is_write addr sz wdata p)) \<and>
     pl_num_ids (fst (plic_req is_write addr sz wdata p)) = pl_num_ids p"
proof -
  assume ok: "plic_ok p"
  have load: "plic_ok (fst (plic_load addr sz p)) \<and> pl_num_ids (fst (plic_load addr sz p)) = pl_num_ids p"
    using ok plic_load4_ok[OF ok, of addr] plic_load4_ok[OF plic_load4_ok[OF ok, of addr], of "addr + 4"]
      num_ids_kept(2)[of addr p] num_ids_kept(2)[of "addr + 4" "fst (plic_load4 addr p)"]
    by (cases "plic_load4 addr p"; cases "plic_load4 (addr + 4) (fst (plic_load4 addr p))") 
      (simp add: plic_load_def del: num_ids_kept)
  have store: "plic_ok (fst (plic_store addr wdata p)) \<and> pl_num_ids (fst (plic_store addr wdata p)) = pl_num_ids p"
    using ok plic_store4_ok[OF ok, of addr] plic_store4_ok[OF plic_store4_ok[OF ok, of addr], of "addr + 4"]
      num_ids_kept(3)
    by (cases "plic_store4 addr (from_le (take 4 wdata)) p")
      (simp add: plic_store_def del: num_ids_kept, metis fst_conv)
  show ?thesis using load store by (cases "plic_store addr wdata p") (simp add: plic_req_def)
qed

lemma plic_apply_ok:
  assumes "plic_ok p" "pl_num_ids p = ndev + 1" "op_in_range ndev x"
  shows "plic_ok (plic_apply x p) \<and> pl_num_ids (plic_apply x p) = ndev + 1"
  using assms irq_sync_ok[OF assms(1)] plic_req_ok[OF assms(1)] by (cases x) auto

lemma plic_new_ok:
  assumes "ndev < plic_max_devices"
  shows "plic_ok (plic_new ndev)"
proof -
  have z: "\<not> tst (replicate 32 0) n" if "n < plic_max_devices" for n
    using that by (simp add: tst_def)
  have wf: "ctx_wf (plic_new_context i)" for i
    using z z[of 0] by (auto simp: ctx_wf_def plic_new_context_def)
  have "\<not> claimable p (plic_new_context i) n" if "pl_num_ids p \<le> plic_max_devices" for p i n
    using z[of n] that by (auto simp: claimable_def plic_new_context_def)
  then have "context_best_pending (plic_new ndev) (plic_new_context i) = 0" for i
    using best_pending_zero_iff[OF wf, of "plic_new ndev" i] assms by (simp add: plic_new_def)
  then show ?thesis using assms wf
    by (auto simp: plic_ok_def plic_wf_def lines_ok_def ctx_line_def plic_new_def)
      (simp_all add: ctx_key_def plic_new_context_def upt_rec)
qed

lemma plic_run_ok:
  assumes "ndev < plic_max_devices" "\<forall>x \<in> set ops. op_in_range ndev x"
  shows "plic_ok (fold plic_apply ops (plic_new ndev)) \<and> pl_num_ids (fold plic_apply ops (plic_new ndev)) = ndev + 1"
  using assms(2)
proof (induction ops rule: rev_induct)
  case Nil
  then show ?case using plic_new_ok[OF assms(1)] by (simp add: plic_new_def)
next
  case (snoc x ops)
  then show ?case using plic_apply_ok[of "fold plic_apply ops (plic_new ndev)" ndev x] by simp
qed

section \<open>The wires and the levels of the sources\<close>

text \<open>
  What the register map promises: a context's wire is raised exactly when a source whose level is high is enabled in it, is not being
  served, and has a priority above the threshold of the context.
\<close>

definition plic_rule :: "plic \<Rightarrow> plic_context \<Rightarrow> bool" where
  "plic_rule p c \<longleftrightarrow> (\<exists>n < pl_num_ids p. tst (pl_level p) n \<and> tst (cx_enable c) n \<and> \<not> tst (cx_claimed c) n \<and>
     cx_priority_threshold c < pl_priority p ! n)"

text \<open>A source may change its level while at most one context enables it: the code informs only one.\<close>

definition sole :: "plic \<Rightarrow> nat \<Rightarrow> bool" where
  "sole p n \<longleftrightarrow> (\<forall>i < length (pl_contexts p). \<forall>j < length (pl_contexts p).
     tst (cx_enable (pl_contexts p ! i)) n \<and> tst (cx_enable (pl_contexts p ! j)) n \<longrightarrow> i = j)"

fun changes_ok :: "plic \<Rightarrow> plic_op list \<Rightarrow> bool" where
  "changes_ok p [] = True"
| "changes_ok p (Op_Irq active port # ops) =
     (port + 1 < pl_num_ids p \<and> sole p (port + 1) \<and> changes_ok (plic_apply (Op_Irq active port) p) ops)"
| "changes_ok p (Op_Req is_write addr sz wdata # ops) = changes_ok (plic_apply (Op_Req is_write addr sz wdata) p) ops"

definition ctx_lvl :: "u32 list \<Rightarrow> plic_context \<Rightarrow> bool" where
  "ctx_lvl lv c \<longleftrightarrow> (\<forall>n < plic_max_devices. tst (cx_pending c) n \<longleftrightarrow> tst (cx_enable c) n \<and> tst lv n)"

definition lvl_ok :: "plic \<Rightarrow> bool" where
  "lvl_ok p \<longleftrightarrow> (\<forall>c \<in> set (pl_contexts p). ctx_lvl (pl_level p) c)"

lemma lvl_ok_nth: "lvl_ok p \<Longrightarrow> k < length (pl_contexts p) \<Longrightarrow> ctx_lvl (pl_level p) (pl_contexts p ! k)"
  by (simp add: lvl_ok_def)

lemma put_context_lvl: "lvl_ok p \<Longrightarrow> ctx_lvl (pl_level p) c \<Longrightarrow> lvl_ok (put_context k c p)"
  using set_update_subset_insert[of "pl_contexts p" k c] by (auto simp: lvl_ok_def)

lemma context_claim_lvl:
  assumes "lvl_ok p" "k < length (pl_contexts p)"
  shows "lvl_ok (fst (context_claim k p))"
  using assms lvl_ok_nth[OF assms] by (simp add: context_claim_def Let_def put_context_lvl ctx_lvl_def)

lemma context_write_lvl:
  assumes "lvl_ok p" "k < length (pl_contexts p)"
  shows "lvl_ok (fst (context_write k off val p))"
proof -
  have c: "ctx_lvl (pl_level p) ((pl_contexts p ! k)\<lparr>cx_priority_threshold := v\<rparr>)" "ctx_lvl (pl_level p) ((pl_contexts p ! k)\<lparr>cx_claimed := x\<rparr>)" for v x
    using lvl_ok_nth[OF assms] by (simp_all add: ctx_lvl_def)
  have "lvl_ok (p\<lparr>pl_contexts := (pl_contexts p)[k := (pl_contexts p ! k)\<lparr>cx_priority_threshold := v\<rparr>]\<rparr>)" for v
    using put_context_lvl[OF assms(1) c(1), of k v] by (simp add: lvl_ok_def)
  moreover have "lvl_ok (context_update d p)" for d using assms(1) by (simp add: lvl_ok_def)
  ultimately show ?thesis using assms(1) put_context_lvl[OF assms(1) c(2)] by (simp add: context_write_def Let_def)
qed

text \<open>The loop over a changed enable word: the sources it has not reached still follow the old word.\<close>

definition lvl_todo :: "u32 list \<Rightarrow> nat set \<Rightarrow> plic_context \<Rightarrow> bool" where
  "lvl_todo lv S c \<longleftrightarrow> (\<forall>n < plic_max_devices. tst (cx_pending c) n \<longleftrightarrow> (tst (cx_enable c) n \<noteq> (n \<in> S)) \<and> tst lv n)"

lemma enable_step_lvl:
  assumes i: "i < 32" and w: "w < 32" and len: "length (cx_pending c) = 32" and c: "lvl_todo lv (todo w x i) c"
    and en: "tst (cx_enable c) (w * 32 + i) = bit v i"
  shows "lvl_todo lv (todo w x (Suc i)) (enable_step pr (lv ! w) w x v i c)"
proof -
  let ?n = "w * 32 + i"
  have l: "tst lv ?n = bit (lv ! w) i" using i by (simp add: tst_def)
  have nt: "?n \<notin> todo w x (Suc i)" by (auto simp: todo_def)
  have wl: "w < length (cx_pending c)" using w len by simp
  note b = tst_set_bit[OF wl i] tst_unset_bit[OF wl i]
  have nb: "?n < plic_max_devices" using w i by simp
  show ?thesis using c nt en l nb todo_step[OF i, of w x]
    by (auto simp: enable_step_def lvl_todo_def b Let_def)
qed

lemma enable_step_len [simp]:
  "length (cx_pending (enable_step pr l w x v i c)) = length (cx_pending c)" "cx_enable (enable_step pr l w x v i c) = cx_enable c"
  by (simp_all add: enable_step_def Let_def)

lemma enable_loop_lvl:
  assumes w: "w < 32" and len: "length (cx_pending c) = 32" and c: "lvl_todo lv (todo w x 0) c"
    and en: "\<And>j. j < 32 \<Longrightarrow> tst (cx_enable c) (w * 32 + j) = bit v j"
  shows "ctx_lvl lv (fold (enable_step pr (lv ! w) w x v) [0..<32] c)"
proof -
  let ?c = "fold (enable_step pr (lv ! w) w x v) [0..<32] c"
  have "lvl_todo lv (todo w x 32) ?c \<and> length (cx_pending ?c) = 32 \<and> cx_enable ?c = cx_enable c"
    by (rule fold_upto[where P = "\<lambda>i d. lvl_todo lv (todo w x i) d \<and> length (cx_pending d) = 32 \<and> cx_enable d = cx_enable c"])
      (use enable_step_lvl[OF _ w] c len en in auto)
  moreover have "todo w x 32 = {}" by (auto simp: todo_def)
  ultimately show ?thesis by (simp add: lvl_todo_def ctx_lvl_def)
qed

lemma context_enable_write_lvl:
  assumes ok: "plic_ok p" and lv: "lvl_ok p" and k: "k < length (pl_contexts p)"
  shows "lvl_ok (context_enable_write k off val p)"
proof (cases "off div 4 \<ge> pl_num_ids_word p")
  case True
  then show ?thesis using lv by (simp add: context_enable_write_def)
next
  case False
  let ?w = "off div 4" and ?c = "pl_contexts p ! k"
  let ?v = "if ?w = 0 then val AND NOT 1 else val"
  let ?x = "cx_enable ?c ! ?w XOR ?v" and ?c1 = "?c\<lparr>cx_enable := (cx_enable ?c)[?w := ?v]\<rparr>"
  have w: "?w < 32" using False num_ids_word_bounds(2)[of p] ok by (auto simp: plic_ok_def plic_wf_def)
  have len: "length (cx_enable ?c) = 32" "length (cx_pending ?c) = 32" using ctx_wf_in[OF ok k] by (simp_all add: ctx_wf_def)
  then have l: "?w < length (cx_enable ?c)" using w by simp
  have en: "tst (cx_enable ?c1) (?w * 32 + j) = bit ?v j" if "j < 32" for j
    using that l by (simp add: tst_upd)
  have "(tst (cx_enable ?c1) n \<noteq> (n \<in> todo ?w ?x 0)) = tst (cx_enable ?c) n" for n
  proof (cases "n div 32 = ?w")
    case True
    then have "n \<in> todo ?w ?x 0 \<longleftrightarrow> bit ?x (n mod 32)" by (auto simp: todo_def) (metis div_mult_mod_eq mod_less_divisor zero_less_numeral)
    then show ?thesis using True l by (auto simp: tst_upd tst_def bit_xor_iff)
  next
    case False
    then have "n \<notin> todo ?w ?x 0" by (auto simp: todo_def)
    then show ?thesis using False l by (simp add: tst_upd)
  qed
  then have "lvl_todo (pl_level p) (todo ?w ?x 0) ?c1" using lvl_ok_nth[OF lv k] by (simp add: lvl_todo_def ctx_lvl_def)
  then have "ctx_lvl (pl_level p) (fold (enable_step (pl_priority p) (pl_level p ! ?w) ?w ?x ?v) [0..<32] ?c1)"
    using enable_loop_lvl[OF w, of ?c1 "pl_level p" ?x ?v] en len by simp
  then show ?thesis using put_context_lvl[OF lv] False by (simp add: context_enable_write_def Let_def)
qed

lemma first_enabled_None: "first_enabled cs k w b = None \<Longrightarrow> c \<in> set cs \<Longrightarrow> \<not> bit (cx_enable c ! w) b"
  by (induction cs arbitrary: k) (auto split: if_splits)

lemma irq_sync_lvl:
  assumes ok: "plic_ok p" and lv: "lvl_ok p" and port: "port + 1 < pl_num_ids p" and sole: "sole p (port + 1)"
  shows "lvl_ok (irq_sync active port p)"
proof -
  let ?n = "port + 1"
  define l where "l = (pl_level p)[?n div 32 := if active then set_bit (?n mod 32) (pl_level p ! (?n div 32))
    else unset_bit (?n mod 32) (pl_level p ! (?n div 32))]"
  have n: "?n < plic_max_devices" "?n div 32 < length (pl_level p)" using ok port by (auto simp: plic_ok_def plic_wf_def)
  have tl: "tst l m = (if m = ?n then active else tst (pl_level p) m)" for m
    unfolding l_def using tst_set_bit[OF n(2), of "?n mod 32" m] tst_unset_bit[OF n(2), of "?n mod 32" m] by (cases active) auto
  have other: "ctx_lvl l c" if "ctx_lvl (pl_level p) c" "\<not> tst (cx_enable c) ?n" for c
    using that by (auto simp: ctx_lvl_def tl)
  show ?thesis
  proof (cases "first_enabled (pl_contexts p) 0 (?n div 32) (?n mod 32)")
    case None
    then have "\<not> tst (cx_enable c) ?n" if "c \<in> set (pl_contexts p)" for c
      using first_enabled_None[OF None that] by (simp add: tst_def)
    then have "lvl_ok (p\<lparr>pl_level := l\<rparr>)" using lv other by (auto simp: lvl_ok_def)
    then show ?thesis using None by (cases active) (simp_all add: irq_sync_def l_def Let_def)
  next
    case (Some k)
    from first_enabled_Some[OF Some] have k: "k < length (pl_contexts p)" "tst (cx_enable (pl_contexts p ! k)) ?n" by (auto simp: tst_def)
    let ?c = "pl_contexts p ! k"
    have wl: "?n div 32 < length (cx_pending ?c)" using ctx_wf_in[OF ok k(1)] n by (auto simp: ctx_wf_def)
    have new: "ctx_lvl l d" if "cx_enable d = cx_enable ?c" "cx_pending d = (cx_pending ?c)[?n div 32 :=
        if active then set_bit (?n mod 32) (cx_pending ?c ! (?n div 32)) else unset_bit (?n mod 32) (cx_pending ?c ! (?n div 32))]" for d
    proof -
      have "tst (cx_pending d) m = (if m = ?n then active else tst (cx_pending ?c) m)" for m
        unfolding that(2) using tst_set_bit[OF wl, of "?n mod 32" m] tst_unset_bit[OF wl, of "?n mod 32" m] by (cases active) auto
      then show ?thesis using lvl_ok_nth[OF lv k(1)] k(2) that(1) by (auto simp: ctx_lvl_def tl)
    qed
    have "ctx_lvl l e" if e: "e \<in> set ((pl_contexts p)[k := d])" and d: "ctx_lvl l d" for d e
    proof -
      obtain j where j: "j < length (pl_contexts p)" "e = (pl_contexts p)[k := d] ! j" using e by (auto simp: in_set_conv_nth)
      show ?thesis
      proof (cases "j = k")
        case True
        then show ?thesis using j d by simp
      next
        case False
        then have "\<not> tst (cx_enable (pl_contexts p ! j)) ?n" using sole k j(1) by (auto simp: sole_def)
        then show ?thesis using other lvl_ok_nth[OF lv j(1)] j(2) False by simp
      qed
    qed
    then have up: "lvl_ok (put_context k d (p\<lparr>pl_level := l\<rparr>))" if "ctx_lvl l d" for d using that by (simp add: lvl_ok_def)
    show ?thesis using Some up[OF new] by (cases active) (simp_all add: irq_sync_def l_def Let_def)
  qed
qed

lemma plic_load4_lvl: "lvl_ok p \<Longrightarrow> lvl_ok (fst (plic_load4 addr p))"
  using context_claim_lvl[of p]
  by (auto simp: plic_load4_def context_read_def Let_def split: prod.splits if_splits) (metis fst_conv)

lemma plic_store4_lvl: "plic_ok p \<Longrightarrow> lvl_ok p \<Longrightarrow> lvl_ok (fst (plic_store4 addr val p))"
  by (auto simp: plic_store4_def Let_def priority_write_def lvl_ok_def[of "_\<lparr>pl_priority := _\<rparr>"] intro!: context_enable_write_lvl context_write_lvl)
    (simp_all add: lvl_ok_def)

lemma plic_req_lvl:
  assumes ok: "plic_ok p" and lv: "lvl_ok p"
  shows "lvl_ok (fst (plic_req is_write addr sz wdata p))"
proof -
  have load: "lvl_ok (fst (plic_load addr sz p))"
    using lv plic_load4_lvl[OF lv, of addr] plic_load4_lvl[OF plic_load4_lvl[OF lv, of addr], of "addr + 4"]
    by (cases "plic_load4 addr p"; cases "plic_load4 (addr + 4) (fst (plic_load4 addr p))") (simp add: plic_load_def)
  have store: "lvl_ok (fst (plic_store addr wdata p))"
    using lv plic_store4_lvl[OF ok lv] plic_store4_lvl[OF plic_store4_ok[OF ok] plic_store4_lvl[OF ok lv]]
    by (cases "plic_store4 addr (from_le (take 4 wdata)) p") (simp add: plic_store_def, metis fst_conv)
  show ?thesis using load store by (cases "plic_store addr wdata p") (simp add: plic_req_def)
qed

lemma changes_ok_run:
  "plic_ok p \<Longrightarrow> lvl_ok p \<Longrightarrow> changes_ok p ops \<Longrightarrow> plic_ok (fold plic_apply ops p) \<and> lvl_ok (fold plic_apply ops p)"
proof (induction p ops rule: changes_ok.induct)
  case (2 p active port ops)
  then show ?case using irq_sync_ok irq_sync_lvl by simp
next
  case (3 p is_write addr sz wdata ops)
  then show ?case using plic_req_ok plic_req_lvl by simp
qed simp

lemma plic_new_lvl: "lvl_ok (plic_new ndev)"
  by (auto simp: lvl_ok_def ctx_lvl_def plic_new_def plic_new_context_def tst_def)

section \<open>Properties\<close>

text \<open>
  The wire of a context is raised exactly when that context has a source that is pending and not claimed, in the bits the code keeps,
  and only enabled sources are pending there. This holds of every history.
\<close>

theorem plic_lines_claimable:
  assumes "ndev < plic_max_devices" "\<forall>x \<in> set ops. op_in_range ndev x"
    and "p = fold plic_apply ops (plic_new ndev)" "c \<in> set (pl_contexts p)"
  shows "(ctx_line p c \<longleftrightarrow> (\<exists>n. claimable p c n)) \<and>
    (\<forall>n < plic_max_devices. tst (cx_pending c) n \<longrightarrow> tst (cx_enable c) n)"
proof -
  have ok: "plic_ok p" using plic_run_ok[OF assms(1,2)] assms(3) by simp
  then have wf: "ctx_wf c" using assms(4) by (simp add: plic_ok_def plic_wf_def)
  have "ctx_line p c \<longleftrightarrow> (\<exists>n. claimable p c n)"
    using ok assms(4) best_pending_zero_iff[OF wf, of p] by (auto simp: plic_ok_def lines_ok_def)
  then show ?thesis using wf by (simp add: ctx_wf_def)
qed



text \<open>
  Arbitration: reading the claim register of a context returns the pending unclaimed source
  with the highest recorded priority, the lowest-numbered one among equals, and marks it claimed;
  it returns 0 exactly when nothing can be claimed.
\<close>

theorem plic_claim_best:
  assumes "plic_wf p" "k < length (pl_contexts p)" "c = pl_contexts p ! k" "context_claim k p = (p', m)"
  shows "(m = 0 \<longleftrightarrow> (\<forall>n. \<not> claimable p c n)) \<and>
    (m \<noteq> 0 \<longrightarrow> claimable p c m \<and>
      (\<forall>n. claimable p c n \<longrightarrow> cx_pending_priority c ! n \<le> cx_pending_priority c ! m \<and>
         (n < m \<longrightarrow> cx_pending_priority c ! n < cx_pending_priority c ! m)) \<and>
      (\<forall>n. claimable p' (pl_contexts p' ! k) n \<longleftrightarrow> claimable p c n \<and> n \<noteq> m))"
proof -
  have wf: "ctx_wf c" using assms(1-3) by (simp add: plic_wf_def)
  have m: "m = context_best_pending p c" using assms(3,4) by (auto simp: context_claim_def Let_def)
  have "claimable p' (pl_contexts p' ! k) n \<longleftrightarrow> claimable p c n \<and> n \<noteq> m" if nz: "m \<noteq> 0" for n
  proof -
    have mb: "m < plic_max_devices" using best_pending_bound[OF assms(1) wf] m by simp
    have c': "pl_contexts p' ! k = c\<lparr>cx_claimed := (cx_claimed c)[m div 32 := set_bit (m mod 32) (cx_claimed c ! (m div 32))]\<rparr>"
      "pl_num_ids p' = pl_num_ids p"
      using assms nz m by (auto simp: context_claim_def Let_def)
    have "m div 32 < length (cx_claimed c)" using wf mb by (auto simp: ctx_wf_def)
    from tst_set_bit[OF this, of "m mod 32" n] show ?thesis unfolding c' claimable_def
      by (auto simp: c'(2))
  qed
  then show ?thesis using best_pending_zero_iff[OF wf, of p] best_pending_max[OF wf, of p] m by auto
qed

definition plic_demo :: plic where
  "plic_demo = (plic_new 3)\<lparr>pl_contexts :=
     [(plic_new_context 0)\<lparr>cx_enable := (replicate 32 0)[0 := 6], cx_pending := (replicate 32 0)[0 := 6],
        cx_pending_priority := (replicate plic_max_devices 0)[1 := 3, 2 := 5]\<rparr>, plic_new_context 1]\<rparr>"

lemma tst_demo: "n < plic_max_devices \<Longrightarrow> tst ((replicate 32 0)[0 := 6]) n \<longleftrightarrow> n = 1 \<or> n = 2"
proof -
  assume n: "n < plic_max_devices"
  have b: "bit (6 :: u32) m \<longleftrightarrow> m = 1 \<or> m = 2" for m
  proof -
    have e: "(6 :: u32) = set_bit 1 (set_bit 2 0)" by (simp add: set_bit_eq_or)
    show ?thesis unfolding e bit_set_bit_iff by auto
  qed
  have "tst ((replicate 32 0)[0 := 6]) n \<longleftrightarrow> (if n div 32 = 0 then bit (6 :: u32) (n mod 32) else tst (replicate 32 0) n)"
    by (rule tst_upd) simp
  then show ?thesis unfolding b using n by (auto simp: tst_def)
qed

lemma tst_zero: "n < plic_max_devices \<Longrightarrow> \<not> tst (replicate 32 0) n"
  by (simp add: tst_def)

lemma plic_demo_wf: "plic_wf plic_demo"
proof -
  have "ctx_wf (plic_new_context 1)" using tst_zero tst_zero[of 0] by (auto simp: ctx_wf_def plic_new_context_def)
  moreover have "ctx_wf (pl_contexts plic_demo ! 0)"
    using tst_demo tst_demo[of 0] tst_zero
    by (auto simp: ctx_wf_def plic_demo_def plic_new_context_def nth_list_update)
  ultimately show ?thesis
    by (auto simp: plic_wf_def plic_demo_def plic_new_def ctx_key_def plic_new_context_def)
qed

lemma plic_demo_claimable:
  "claimable plic_demo (pl_contexts plic_demo ! 0) n \<longleftrightarrow> n = 1 \<or> n = 2"
proof (cases "n < 4")
  case True
  then show ?thesis using tst_demo[of n] tst_zero[of n]
    by (simp add: claimable_def plic_demo_def plic_new_def plic_new_context_def)
next
  case False
  then show ?thesis by (auto simp: claimable_def plic_demo_def plic_new_def)
qed

theorem plic_claim_best_witness:
  "snd (context_claim 0 plic_demo) = 2 \<and>
   (\<forall>n. claimable (fst (context_claim 0 plic_demo)) (pl_contexts (fst (context_claim 0 plic_demo)) ! 0) n \<longleftrightarrow> n = 1)"
proof -
  let ?c = "pl_contexts plic_demo ! 0" and ?m = "snd (context_claim 0 plic_demo)"
  have len: "0 < length (pl_contexts plic_demo)" by (simp add: plic_demo_def)
  have pr: "cx_pending_priority ?c ! 1 = 3" "cx_pending_priority ?c ! 2 = 5" by (simp_all add: plic_demo_def)
  note B = plic_claim_best[OF plic_demo_wf len refl surjective_pairing, unfolded plic_demo_claimable]
  have m: "?m = 1 \<or> ?m = 2" using B by blast
  moreover have "?m \<noteq> 1"
  proof
    assume "?m = 1"
    then have "cx_pending_priority ?c ! 2 \<le> cx_pending_priority ?c ! 1" using B by (metis zero_neq_one)
    then show False unfolding pr by simp
  qed
  ultimately have "?m = 2" by blast
  moreover have "\<forall>n. claimable (fst (context_claim 0 plic_demo)) (pl_contexts (fst (context_claim 0 plic_demo)) ! 0) n \<longleftrightarrow> n = 1"
    using B \<open>?m = 2\<close> by (metis zero_neq_numeral one_eq_numeral_iff numeral_One semiring_norm(85))
  ultimately show ?thesis by blast
qed

text \<open>
  Claim and complete are inverse: completing the source that a claim returned, while it is
  enabled, restores the contexts as they were before the claim, so that a source whose level is
  still high is offered again.
\<close>

theorem plic_claim_complete:
  assumes ok: "plic_wf p" and k: "k < length (pl_contexts p)"
    and claim: "context_claim k p = (p1, m)" "m \<noteq> 0"
  shows "\<exists>p2. context_write k 4 (of_nat m) p1 = (p2, True) \<and> pl_contexts p2 = pl_contexts p \<and>
    snd (context_claim k p2) = m"
proof -
  let ?c = "pl_contexts p ! k"
  have wf: "ctx_wf ?c" using ok k by (simp add: plic_wf_def)
  have m: "m = context_best_pending p ?c" using claim(1) by (auto simp: context_claim_def Let_def)
  have mb: "m < plic_max_devices" using best_pending_bound[OF ok wf] m by simp
  have cl: "claimable p ?c m" using best_pending_max(1)[OF wf] claim(2) m by simp
  then have nc: "\<not> bit (cx_claimed ?c ! (m div 32)) (m mod 32)" and en: "bit (cx_enable ?c ! (m div 32)) (m mod 32)"
    and mi: "m < pl_num_ids p"
    using wf mb by (auto simp: claimable_def tst_def ctx_wf_def)
  have um: "unat (of_nat m :: u32) = m" using mb by (simp add: unat_of_nat)
  let ?w = "cx_claimed ?c ! (m div 32)"
  let ?c1 = "?c\<lparr>cx_claimed := (cx_claimed ?c)[m div 32 := set_bit (m mod 32) ?w]\<rparr>"
  have p1: "p1 = put_context k ?c1 p" using claim m by (auto simp: context_claim_def Let_def)
  have "m div 32 < length (cx_claimed ?c)" using wf mb by (auto simp: ctx_wf_def)
  moreover have "unset_bit (m mod 32) (set_bit (m mod 32) ?w) = ?w"
    using nc by (intro bit_word_eqI) (auto simp: bit_unset_bit_iff bit_set_bit_iff)
  ultimately have c2: "?c1\<lparr>cx_claimed := (cx_claimed ?c1)[m div 32 := unset_bit (m mod 32) (cx_claimed ?c1 ! (m div 32))]\<rparr> = ?c"
    by simp
  have w: "context_write k 4 (of_nat m) p1 = (put_context k ?c p1, True)"
    using k mi en c2 unfolding p1 by (simp add: context_write_def um Let_def)
  have ctx: "pl_contexts (put_context k ?c p1) = pl_contexts p" using k p1 by simp
  have "context_best_pending (put_context k ?c p1) ?c = context_best_pending p ?c"
    by (rule best_pending_cong) (simp add: p1)
  then have "snd (context_claim k (put_context k ?c p1)) = m" unfolding context_claim_def ctx by (simp add: Let_def m)
  then show ?thesis using w ctx by blast
qed

theorem plic_claim_complete_witness:
  "\<exists>p2. context_write 0 4 2 (fst (context_claim 0 plic_demo)) = (p2, True) \<and>
     pl_contexts p2 = pl_contexts plic_demo \<and> snd (context_claim 0 p2) = 2"
proof -
  let ?c = "pl_contexts plic_demo ! 0"
  have len: "0 < length (pl_contexts plic_demo)" by (simp add: plic_demo_def)
  have wf: "ctx_wf ?c" using plic_demo_wf len by (simp add: plic_wf_def)
  have pr: "cx_pending_priority ?c ! 1 = 3" "cx_pending_priority ?c ! 2 = 5" by (simp_all add: plic_demo_def)
  have "context_best_pending plic_demo ?c = 2"
    by (rule best_pending_unique[OF wf]) (use pr plic_demo_claimable in auto)
  then have c: "context_claim 0 plic_demo = (fst (context_claim 0 plic_demo), 2)"
    by (simp add: context_claim_def Let_def)
  from plic_claim_complete[OF plic_demo_wf len c] show ?thesis by simp
qed

text \<open>
  The priority threshold has no effect: whatever a context's threshold register is set to, the
  same source is then claimed and the same wire is driven, although the register map describes it as
  the priority over which the hart takes an interrupt.
\<close>

theorem plic_threshold_ignored:
  assumes "k < length (pl_contexts p)"
  shows "snd (context_claim k (fst (context_write k 0 v p))) = snd (context_claim k p) \<and>
    ctx_line (fst (context_claim k (fst (context_write k 0 v p)))) (pl_contexts p ! k) =
    ctx_line (fst (context_claim k p)) (pl_contexts p ! k)"
proof -
  let ?c = "pl_contexts p ! k"
  let ?v = "v AND (push_bit 4 1 - 1)"
  let ?c' = "?c\<lparr>cx_priority_threshold := ucast ?v\<rparr>"
  let ?p' = "p\<lparr>pl_contexts := (pl_contexts p)[k := ?c']\<rparr>"
  have "?v \<le> push_bit 4 1 - 1" by (rule word_and_le1)
  then have "unat ?v \<le> pl_max_prio" by (simp add: pl_max_prio_def word_le_nat_alt)
  then have w: "fst (context_write k 0 v p) = ?p'" by (simp add: context_write_def Let_def)
  have b: "context_best_pending ?p' d = context_best_pending p d" for d by (rule best_pending_cong) simp
  have bt: "context_best_pending p (?c\<lparr>cx_priority_threshold := t, cx_claimed := x\<rparr>) =
      context_best_pending p (?c\<lparr>cx_claimed := x\<rparr>)" for t x
  proof -
    have "?c\<lparr>cx_priority_threshold := t, cx_claimed := x\<rparr> = ?c\<lparr>cx_claimed := x\<rparr>\<lparr>cx_priority_threshold := t\<rparr>"
      by (cases ?c) simp
    then show ?thesis by (simp only: best_pending_threshold)
  qed
  have b': "context_best_pending (p\<lparr>pl_contexts := cs\<rparr>) d = context_best_pending p d" for d cs
    by (rule best_pending_cong) simp
  show ?thesis unfolding w using assms
    by (auto simp: context_claim_def put_context_def ctx_line_update ctx_key_def b b' bt best_pending_threshold Let_def)
qed

theorem plic_threshold_ignored_witness:
  "snd (context_claim 0 (fst (context_write 0 0 15 plic_demo))) = snd (context_claim 0 plic_demo)"
  using plic_threshold_ignored[of 0 plic_demo 15] by (simp add: plic_demo_def)

text \<open>
  A source change reaches only the first context that enables the source: when two contexts
  enable a source and it is pending in the later one, lowering the source leaves it pending there,
  although the source is level-triggered and its level is now low.
\<close>

theorem plic_lower_leaves_stale:
  assumes wf: "plic_wf p" and n: "port + 1 < pl_num_ids p"
    and ij: "i < j" "j < length (pl_contexts p)"
    and en: "tst (cx_enable (pl_contexts p ! i)) (port + 1)" "tst (cx_pending (pl_contexts p ! j)) (port + 1)"
  shows "\<not> tst (pl_level (irq_sync False port p)) (port + 1) \<and>
    tst (cx_pending (pl_contexts (irq_sync False port p) ! j)) (port + 1)"
proof -
  let ?n = "port + 1"
  have l: "?n div 32 < length (pl_level p)" using wf n by (auto simp: plic_wf_def)
  have "\<exists>k. first_enabled (pl_contexts p) 0 (?n div 32) (?n mod 32) = Some k \<and> k \<le> i"
    using first_enabled_le[of i "pl_contexts p" "?n div 32" "?n mod 32" 0] en(1) ij by (auto simp: tst_def)
  then obtain k where k: "first_enabled (pl_contexts p) 0 (?n div 32) (?n mod 32) = Some k" "k \<le> i" by blast
  have lev: "pl_level (irq_sync False port p) = (pl_level p)[?n div 32 := unset_bit (?n mod 32) (pl_level p ! (?n div 32))]"
    "pl_contexts (irq_sync False port p) ! j = pl_contexts p ! j"
    using k ij(1) by (simp_all add: irq_sync_def Let_def)
  show ?thesis unfolding lev using tst_unset_bit[OF l, of "?n mod 32" ?n] en(2) by simp
qed

definition plic_both :: plic where
  "plic_both = plic_demo\<lparr>pl_contexts := [pl_contexts plic_demo ! 0, (pl_contexts plic_demo ! 0)\<lparr>cx_mmode := False\<rparr>]\<rparr>"

theorem plic_lower_leaves_stale_witness:
  "\<not> tst (pl_level (irq_sync False 0 plic_both)) 1 \<and>
   tst (cx_pending (pl_contexts (irq_sync False 0 plic_both) ! 1)) 1"
proof -
  have c: "ctx_wf (pl_contexts plic_demo ! 0)" using plic_demo_wf by (simp add: plic_wf_def plic_demo_def)
  then have "ctx_wf ((pl_contexts plic_demo ! 0)\<lparr>cx_mmode := False\<rparr>)" by (simp add: ctx_wf_def)
  then have "plic_wf plic_both"
    using c plic_demo_wf unfolding plic_wf_def
    by (simp add: plic_both_def ctx_key_def) (simp add: plic_demo_def plic_new_context_def)
  from plic_lower_leaves_stale[OF this, of 0 0 1] tst_demo[of 1] show ?thesis
    by (simp add: plic_both_def plic_demo_def plic_new_def)
qed

text \<open>
  The pending registers of the documented map (0x1000 to 0x1FFF) are not there: any aligned or
  unaligned word load from that range succeeds with value 0, whatever is pending.
\<close>

theorem plic_pending_reads_zero:
  assumes "plic_wf p" "0x1000 \<le> addr" "addr < 0x2000"
  shows "plic_load addr 4 p = (p, [0, 0, 0, 0], True)"
proof -
  have "1024 \<le> addr div 4" using assms(2) by linarith
  then have "priority_read addr p = 0" using assms(1) by (auto simp: priority_read_def Let_def plic_wf_def)
  then show ?thesis using assms(3)
    by (simp add: plic_load_def plic_load4_def to_le_def upt_rec)
qed

theorem plic_pending_reads_zero_witness:
  "tst (cx_pending (pl_contexts plic_demo ! 0)) 1 \<and> plic_load 0x1000 4 plic_demo = (plic_demo, [0, 0, 0, 0], True)"
  using plic_pending_reads_zero[OF plic_demo_wf, of "0x1000"] tst_demo[of 1] by (simp add: plic_demo_def)

end
