(* ===== verification/Clint.thy ===== *)
theory Clint
  imports Prelude
begin

text \<open>
  The core-local interruptor of \<^verbatim>\<open>src/models/cpu/clint.cpp\<close>: software interrupt bits, the timer and
  its per-hart compare registers. The simulated time and the clock period (both 64-bit, in
  picoseconds) are arguments. The last value driven on each wire and the delay of the last event
  enqueued for each hart are part of the state.
\<close>

section \<open>Register files as byte arrays\<close>

text \<open>The handlers copy bytes from and to the register vectors.\<close>

definition array_bytes :: "nat \<Rightarrow> 'a::len word list \<Rightarrow> byte list" where
  "array_bytes n ws = concat (map (to_le n) ws)"

fun array_of :: "nat \<Rightarrow> nat \<Rightarrow> byte list \<Rightarrow> 'a::len word list" where
  "array_of n 0 bs = []"
| "array_of n (Suc k) bs = from_le (take n bs) # array_of n k (drop n bs)"

definition bytes_at :: "byte list \<Rightarrow> nat \<Rightarrow> nat \<Rightarrow> byte list" where
  "bytes_at bs off len = take len (drop off bs)"

definition bytes_put :: "byte list \<Rightarrow> nat \<Rightarrow> byte list \<Rightarrow> byte list" where
  "bytes_put bs off new = take off bs @ new @ drop (off + length new) bs"

section \<open>State\<close>

record clint =
  cl_msip :: "u32 list"
  cl_mtimecmp :: "u64 list"
  cl_start_time :: u64
  cl_sw_irq :: "bool list"
  cl_timer_irq :: "bool list"
  cl_event :: "u64 option list"

abbreviation cl_nb_cores :: "clint \<Rightarrow> nat" where
  "cl_nb_cores s \<equiv> length (cl_mtimecmp s)"

text \<open>Integer division of the C++ code on signed 64-bit values truncates toward zero.\<close>

definition int64_div :: "u64 \<Rightarrow> int \<Rightarrow> u64" where
  "int64_div a b = (if sint a < 0 then - word_of_int ((- sint a) div b) else word_of_int (sint a div b))"

definition get_mtime :: "u64 \<Rightarrow> clint \<Rightarrow> u64" where
  "get_mtime now s = int64_div (now - cl_start_time s) 100000"

section \<open>Operations\<close>

definition cl_reset :: "bool \<Rightarrow> u64 \<Rightarrow> clint \<Rightarrow> clint" where
  "cl_reset active now s =
     (if active
      then s\<lparr>cl_start_time := now, cl_msip := replicate (cl_nb_cores s) 0,
             cl_mtimecmp := replicate (cl_nb_cores s) 0\<rparr>
      else s)"

text \<open>Wires that are not bound have no value to drive; all are bound here.\<close>

definition check_mtime :: "u64 \<Rightarrow> clint \<Rightarrow> clint" where
  "check_mtime now s = s\<lparr>cl_timer_irq := map (\<lambda>cmp. get_mtime now s \<ge> cmp) (cl_mtimecmp s)\<rparr>"

definition cl_diff :: "u64 \<Rightarrow> u64 \<Rightarrow> clint \<Rightarrow> u64 \<Rightarrow> u64" where
  "cl_diff now period s cmp = (cmp - get_mtime now s) * 100000 div period"

definition check_event :: "u64 \<Rightarrow> u64 \<Rightarrow> clint \<Rightarrow> clint" where
  "check_event now period s =
     s\<lparr>cl_event := map (\<lambda>(cmp, ev). let diff = cl_diff now period s cmp
                                      in if diff > 0 then Some diff else ev)
                        (zip (cl_mtimecmp s) (cl_event s))\<rparr>"

definition cl_event_handler :: "u64 \<Rightarrow> u64 \<Rightarrow> clint \<Rightarrow> clint" where
  "cl_event_handler now period s = check_event now period (check_mtime now s)"

definition time_sync_back :: "u64 \<Rightarrow> clint \<Rightarrow> u64" where
  "time_sync_back now s = get_mtime now s"

definition cl_load :: "u64 \<Rightarrow> u32 \<Rightarrow> nat \<Rightarrow> clint \<Rightarrow> byte list option" where
  "cl_load now addr len s =
     (let a = unat addr
      in if a + len \<le> cl_nb_cores s * 4 then Some (bytes_at (array_bytes 4 (cl_msip s)) a len)
         else if a \<ge> 0x4000 \<and> a + len \<le> 0x4000 + cl_nb_cores s * 8
         then Some (bytes_at (array_bytes 8 (cl_mtimecmp s)) (a - 0x4000) len)
         else if a \<ge> 0xbff8 \<and> a + len \<le> 0xbff8 + 8
         then Some (bytes_at (to_le 8 (get_mtime now s)) (a - 0xbff8) len)
         else if a + len \<le> 0xc0000 then Some (replicate len 0)
         else None)"

definition cl_store :: "u64 \<Rightarrow> u64 \<Rightarrow> u32 \<Rightarrow> byte list \<Rightarrow> clint \<Rightarrow> clint option" where
  "cl_store now period addr bytes s =
     (let a = unat addr; len = length bytes
      in if a + len \<le> cl_nb_cores s * 4 then
           (let ms = array_of 4 (cl_nb_cores s) (bytes_put (array_bytes 4 (cl_msip s)) a bytes)
            in Some (s\<lparr>cl_msip := ms, cl_sw_irq := map (\<lambda>w. bit w 0) ms\<rparr>))
         else if a \<ge> 0x4000 \<and> a + len \<le> 0x4000 + cl_nb_cores s * 8 then
           (let s1 = s\<lparr>cl_mtimecmp := array_of 8 (cl_nb_cores s)
                        (bytes_put (array_bytes 8 (cl_mtimecmp s)) (a - 0x4000) bytes)\<rparr>
            in Some (check_event now period (check_mtime now s1)))
         else if a \<ge> 0xbff8 \<and> a + len \<le> 0xbff8 + 8 then
           (let mtime = from_le (bytes_put (to_le 8 (get_mtime now s)) (a - 0xbff8) bytes);
                s1 = s\<lparr>cl_start_time := now - mtime\<rparr>
            in Some (check_event now period (check_mtime now s1)))
         else if a + len \<le> 0xc0000 then Some s
         else None)"

text \<open>The vector index the trace message of a compare-register store evaluates.\<close>

definition cl_trace_index :: "u32 \<Rightarrow> nat" where
  "cl_trace_index addr = unat addr - 0x4000"

definition cl_req :: "u64 \<Rightarrow> u64 \<Rightarrow> bool \<Rightarrow> u64 \<Rightarrow> nat \<Rightarrow> byte list \<Rightarrow> clint \<Rightarrow> clint \<times> byte list \<times> bool" where
  "cl_req now period is_write addr sz wdata s =
     (if is_write then
        (case cl_store now period (ucast addr) wdata s of None \<Rightarrow> (s, [], False) | Some s' \<Rightarrow> (s', [], True))
      else
        (case cl_load now (ucast addr) sz s of None \<Rightarrow> (s, [], False) | Some bs \<Rightarrow> (s, bs, True)))"

definition cl_new :: "nat \<Rightarrow> clint" where
  "cl_new nb_cores =
     \<lparr>cl_msip = replicate nb_cores 0, cl_mtimecmp = replicate nb_cores 0, cl_start_time = 0,
      cl_sw_irq = replicate nb_cores False, cl_timer_irq = replicate nb_cores False,
      cl_event = replicate nb_cores None\<rparr>"

section \<open>Byte arrays of registers\<close>

lemma length_array_bytes [simp]: "length (array_bytes n ws) = n * length ws"
  by (induction ws) (simp_all add: array_bytes_def)

lemma length_array_of [simp]: "length (array_of n k bs) = k"
  by (induction n k bs rule: array_of.induct) simp_all

lemma length_bytes_put [simp]:
  "off + length new \<le> length bs \<Longrightarrow> length (bytes_put bs off new) = length bs"
  by (simp add: bytes_put_def)

lemma array_of_bytes:
  assumes "8 * n = LENGTH('a::len)"
  shows "array_of n (length ws) (array_bytes n (ws :: 'a word list)) = ws"
proof (induction ws)
  case Nil
  then show ?case by simp
next
  case (Cons w ws)
  have "array_bytes n (w # ws) = to_le n w @ array_bytes n ws" by (simp add: array_bytes_def)
  moreover have "take_bit (8 * n) w = w" using assms by simp
  ultimately show ?case using Cons by (simp add: from_le_to_le)
qed

lemma array_bytes_of:
  assumes "8 * n = LENGTH('a::len)"
  shows "length bs = n * k \<Longrightarrow> array_bytes n (array_of n k bs :: 'a word list) = bs"
proof (induction k arbitrary: bs)
  case 0
  then show ?case by (simp add: array_bytes_def)
next
  case (Suc k)
  then have "to_le n (from_le (take n bs) :: 'a word) = take n bs" using assms by (intro to_le_from_le) auto
  moreover have "array_bytes n (array_of n k (drop n bs) :: 'a word list) = drop n bs" using Suc by simp
  ultimately show ?case by (simp add: array_bytes_def)
qed

lemma bytes_at_put:
  assumes "off + length new \<le> length bs"
  shows "bytes_at (bytes_put bs off new) off (length new) = new"
  using assms by (simp add: bytes_at_def bytes_put_def)

text \<open>A whole-register write replaces that register only.\<close>

lemma array_of_put:
  assumes n: "8 * n = LENGTH('a::len)" and i: "i < length ws" and b: "length bs = n"
  shows "array_of n (length ws) (bytes_put (array_bytes n (ws :: 'a word list)) (n * i) bs) = ws[i := from_le bs]"
  using i
proof (induction ws arbitrary: i)
  case Nil
  then show ?case by simp
next
  case (Cons w ws)
  have e: "array_bytes n (w # ws) = to_le n w @ array_bytes n ws" by (simp add: array_bytes_def)
  show ?case
  proof (cases i)
    case 0
    then show ?thesis using b array_of_bytes[OF n, of ws] by (simp add: e bytes_put_def)
  next
    case (Suc j)
    have "bytes_put (array_bytes n (w # ws)) (n * i) bs = to_le n w @ bytes_put (array_bytes n ws) (n * j) bs"
      using Suc by (simp add: e bytes_put_def)
    moreover have "take_bit (8 * n) w = w" using n by simp
    ultimately show ?thesis using Suc Cons by (simp add: from_le_to_le)
  qed
qed

section \<open>Time arithmetic\<close>

text \<open>Elapsed times below \<open>2 ^ 63\<close> picoseconds are read without wrap-around.\<close>

lemma get_mtime_nat:
  assumes "unat (now - cl_start_time s) < 2 ^ 63"
  shows "unat (get_mtime now s) = unat (now - cl_start_time s) div 100000"
proof -
  let ?d = "now - cl_start_time s"
  have "int (unat ?d) < int (2 ^ 63)" using assms by (simp only: of_nat_less_iff)
  then have u: "uint ?d < 2 ^ 63" by (simp only: uint_nat of_nat_power of_nat_numeral)
  have "sint ?d = uint ?d" using u by (intro sint_small) simp
  moreover have "uint (word_of_int (uint ?d div 100000) :: u64) = uint ?d div 100000"
  proof -
    have "0 \<le> uint ?d div 100000" "uint ?d div 100000 \<le> uint ?d"
      using uint_ge_0[of ?d] by linarith+
    then show ?thesis using u by (simp add: uint_word_of_int)
  qed
  ultimately have "uint (get_mtime now s) = uint ?d div 100000"
    using uint_ge_0[of ?d] by (simp add: get_mtime_def int64_div_def)
  then have "int (unat (get_mtime now s)) = int (unat ?d div 100000)" by (simp add: zdiv_int)
  then show ?thesis by (simp only: of_nat_eq_iff)
qed

lemma cl_diff_nat:
  assumes "get_mtime now s \<le> cmp" "(unat cmp - unat (get_mtime now s)) * 100000 < 2 ^ 64"
  shows "unat (cl_diff now period s cmp) = (unat cmp - unat (get_mtime now s)) * 100000 div unat period"
proof -
  have "unat ((cmp - get_mtime now s) * 100000) = unat (cmp - get_mtime now s) * unat (100000 :: u64)"
    using assms by (intro unat_mult_nw) (simp add: unat_sub)
  then have "unat ((cmp - get_mtime now s) * 100000) = (unat cmp - unat (get_mtime now s)) * 100000"
    unfolding unat_sub[OF assms(1)] by simp
  then show ?thesis by (simp add: cl_diff_def unat_div)
qed

section \<open>Properties\<close>

definition cl_wf :: "clint \<Rightarrow> bool" where
  "cl_wf s \<longleftrightarrow> length (cl_msip s) = cl_nb_cores s \<and> length (cl_event s) = cl_nb_cores s \<and>
     length (cl_sw_irq s) = cl_nb_cores s \<and> length (cl_timer_irq s) = cl_nb_cores s \<and> cl_nb_cores s \<le> 4095"

lemma check_simps [simp]:
  "cl_mtimecmp (check_event now period s) = cl_mtimecmp s" "cl_mtimecmp (check_mtime now s) = cl_mtimecmp s"
  "cl_msip (check_event now period s) = cl_msip s" "cl_msip (check_mtime now s) = cl_msip s"
  "cl_start_time (check_event now period s) = cl_start_time s" "cl_start_time (check_mtime now s) = cl_start_time s"
  "cl_timer_irq (check_event now period s) = cl_timer_irq s"
  "cl_event (check_mtime now s) = cl_event s"
  by (simp_all add: check_event_def check_mtime_def)

text \<open>
  What is stored is read back: a store to the software-interrupt or compare registers followed
  by a load of the same range, at any later time, returns the stored bytes, for every offset and
  length inside the register file.
\<close>

theorem cl_store_load:
  assumes wf: "cl_wf s" and r: "unat addr + length bs \<le> cl_nb_cores s * 4 \<or>
      0x4000 \<le> unat addr \<and> unat addr + length bs \<le> 0x4000 + cl_nb_cores s * 8"
  shows "\<exists>s'. cl_store now period addr bs s = Some s' \<and> cl_load now' addr (length bs) s' = Some bs"
proof (cases "unat addr + length bs \<le> cl_nb_cores s * 4")
  case True
  let ?raw = "bytes_put (array_bytes 4 (cl_msip s)) (unat addr) bs"
  have "length ?raw = 4 * cl_nb_cores s" using wf True by (simp add: cl_wf_def)
  then have "array_bytes 4 (array_of 4 (cl_nb_cores s) ?raw :: u32 list) = ?raw" by (intro array_bytes_of) simp_all
  moreover have "bytes_at ?raw (unat addr) (length bs) = bs" using wf True by (intro bytes_at_put) (simp add: cl_wf_def)
  ultimately show ?thesis using True by (simp add: cl_store_def cl_load_def Let_def)
next
  case False
  then have g: "0x4000 \<le> unat addr" "unat addr + length bs \<le> 0x4000 + cl_nb_cores s * 8" using r by auto
  let ?raw = "bytes_put (array_bytes 8 (cl_mtimecmp s)) (unat addr - 0x4000) bs"
  have "length ?raw = 8 * cl_nb_cores s" using g by simp
  then have "array_bytes 8 (array_of 8 (cl_nb_cores s) ?raw :: u64 list) = ?raw" by (intro array_bytes_of) simp_all
  moreover have "bytes_at ?raw (unat addr - 0x4000) (length bs) = bs" using g by (intro bytes_at_put) simp
  ultimately show ?thesis using False g by (simp add: cl_store_def cl_load_def Let_def)
qed

theorem cl_store_load_witness:
  "\<exists>s'. cl_store 0 1000 0x4008 [1, 2, 3, 4] (cl_new 2) = Some s' \<and> cl_load 77 0x4008 4 s' = Some [1, 2, 3, 4]"
proof -
  have l: "length [1, 2, 3, 4 :: byte] = 4" by simp
  have n: "cl_wf (cl_new 2)" "cl_nb_cores (cl_new 2) = 2" by (simp_all add: cl_wf_def cl_new_def)
  from cl_store_load[OF n(1), of "0x4008" "[1, 2, 3, 4]" 0 1000 77] show ?thesis
    unfolding l n(2) by simp
qed

text \<open>
  A compare-register store takes effect at once and only for its hart: the register holds the
  stored value, the others keep theirs, and every timer wire shows whether the timer has reached
  that hart's compare value.
\<close>

theorem cl_write_mtimecmp:
  assumes wf: "cl_wf s" and h: "h < cl_nb_cores s"
  shows "\<exists>s'. cl_store now period (of_nat (0x4000 + 8 * h)) (to_le 8 v) s = Some s' \<and>
    cl_mtimecmp s' = (cl_mtimecmp s)[h := v] \<and> cl_msip s' = cl_msip s \<and>
    (\<forall>i < cl_nb_cores s. cl_timer_irq s' ! i \<longleftrightarrow> get_mtime now s \<ge> cl_mtimecmp s' ! i)"
proof -
  have a: "unat (of_nat (0x4000 + 8 * h) :: u32) = 0x4000 + 8 * h"
    using wf h by (subst unat_of_nat) (simp add: cl_wf_def)
  have e: "array_of 8 (cl_nb_cores s) (bytes_put (array_bytes 8 (cl_mtimecmp s)) (8 * h) (to_le 8 v)) =
      (cl_mtimecmp s)[h := from_le (to_le 8 v)]" using h by (intro array_of_put) simp_all
  have f: "from_le (to_le 8 v) = v" by (rule from_le_to_le_full) simp
  let ?s1 = "s\<lparr>cl_mtimecmp := (cl_mtimecmp s)[h := v]\<rparr>"
  have s': "cl_store now period (of_nat (0x4000 + 8 * h)) (to_le 8 v) s = Some (check_event now period (check_mtime now ?s1))"
    unfolding cl_store_def Let_def a using wf h e f by (simp add: cl_wf_def)
  have "get_mtime now ?s1 = get_mtime now s" by (simp add: get_mtime_def)
  then show ?thesis using s' by (simp add: check_mtime_def)
qed

theorem cl_write_mtimecmp_witness:
  "\<exists>s'. cl_store 500000 1000 0x4008 (to_le 8 (4 :: u64)) (cl_new 2) = Some s' \<and> cl_mtimecmp s' = [0, 4]"
proof -
  have wf: "cl_wf (cl_new 2)" "1 < cl_nb_cores (cl_new 2)" by (simp_all add: cl_wf_def cl_new_def)
  have l: "(cl_mtimecmp (cl_new 2))[1 := 4] = [0, 4]" by (simp add: cl_new_def numeral_2_eq_2)
  from cl_write_mtimecmp[OF wf, of 500000 1000 4] show ?thesis unfolding l by auto
qed

text \<open>
  The timer interrupt fires: when the clock period divides the timer resolution and nothing
  overflows, a hart whose compare value is ahead of the timer gets an event, and the handler of that
  event, run after that many cycles, raises the hart's wire.
\<close>

theorem cl_timer_fires:
  assumes wf: "cl_wf s" "i < cl_nb_cores s" and per: "0 < unat period" "unat period dvd 100000"
    and now: "unat (now - cl_start_time s) < 2 ^ 63" and ahead: "get_mtime now s < cl_mtimecmp s ! i"
    and no_ovf: "unat (now - cl_start_time s) + (unat (cl_mtimecmp s ! i) - unat (get_mtime now s)) * 100000 < 2 ^ 63"
  shows "\<exists>d. cl_event (check_event now period s) ! i = Some d \<and>
    cl_timer_irq (cl_event_handler (now + d * period) period (check_event now period s)) ! i"
proof -
  let ?cmp = "cl_mtimecmp s ! i" and ?m = "get_mtime now s" and ?d = "cl_diff now period s (cl_mtimecmp s ! i)"
  let ?t = "unat (now - cl_start_time s)"
  have le: "?m \<le> ?cmp" using ahead by auto
  have lt: "unat ?m < unat ?cmp" using ahead by (simp add: word_less_nat_alt)
  have d: "unat ?d = (unat ?cmp - unat ?m) * 100000 div unat period"
    using no_ovf by (intro cl_diff_nat[OF le]) simp
  have dvd: "unat period dvd (unat ?cmp - unat ?m) * 100000" using per(2) by simp
  then have dp: "unat ?d * unat period = (unat ?cmp - unat ?m) * 100000" using d by simp
  have "0 < unat ?d"
  proof (rule ccontr)
    assume "\<not> 0 < unat ?d"
    then show False using dp lt by simp
  qed
  then have ev: "cl_event (check_event now period s) ! i = Some ?d"
    using wf by (simp add: check_event_def cl_wf_def word_less_nat_alt)
  have "unat (?d * period) = unat ?d * unat period" using dp no_ovf by (intro unat_mult_nw) simp
  then have dpu: "unat (?d * period) = (unat ?cmp - unat ?m) * 100000" using dp by simp
  have el: "unat ((now + ?d * period) - cl_start_time s) = ?t + (unat ?cmp - unat ?m) * 100000"
  proof -
    have eq: "(now + ?d * period) - cl_start_time s = (now - cl_start_time s) + ?d * period" by simp
    have "unat ((now - cl_start_time s) + ?d * period) = ?t + unat (?d * period)"
      using no_ovf dpu by (intro unat_add_nw) simp
    then show ?thesis unfolding eq dpu .
  qed
  have "unat (get_mtime (now + ?d * period) s) = (?t + (unat ?cmp - unat ?m) * 100000) div 100000"
    using get_mtime_nat[of "now + ?d * period" s] no_ovf unfolding el by simp
  also have "\<dots> = ?t div 100000 + (unat ?cmp - unat ?m)" by simp
  also have "\<dots> = unat ?cmp" using get_mtime_nat[OF now] lt by simp
  finally have "?cmp \<le> get_mtime (now + ?d * period) (check_event now period s)"
    by (simp add: word_le_nat_alt get_mtime_def)
  then show ?thesis using ev wf by (simp add: cl_event_handler_def check_mtime_def)
qed

theorem cl_timer_fires_witness:
  "let s = (cl_new 1)\<lparr>cl_mtimecmp := [3]\<rparr> in
   \<exists>d. cl_event (check_event 100000 1000 s) ! 0 = Some d \<and>
     cl_timer_irq (cl_event_handler (100000 + d * 1000) 1000 (check_event 100000 1000 s)) ! 0"
proof -
  let ?s = "(cl_new 1)\<lparr>cl_mtimecmp := [3]\<rparr>"
  have m: "unat (get_mtime 100000 ?s) = 1" by (subst get_mtime_nat) (simp_all add: cl_new_def)
  have "unat (100000 - cl_start_time ?s) = 100000" by (simp add: cl_new_def)
  moreover have "cl_wf ?s" "0 < cl_nb_cores ?s" by (simp_all add: cl_wf_def cl_new_def)
  moreover have "get_mtime 100000 ?s < cl_mtimecmp ?s ! 0" using m by (simp add: word_less_nat_alt)
  ultimately show ?thesis unfolding Let_def
    by (intro cl_timer_fires) (simp_all add: m dvd_def exI[of _ 100])
qed

text \<open>
  Writing the timer does not set it: the store subtracts the new count from the time without
  scaling it by the resolution, so a doubleword store of \<open>v\<close> is read back, at the same instant, as
  \<open>v\<close> divided by 100000.
\<close>

theorem cl_write_mtime_scaled:
  fixes v :: u64
  assumes "cl_wf s" "unat v < 2 ^ 63"
  shows "\<exists>s'. cl_store now period 0xbff8 (to_le 8 v) s = Some s' \<and> unat (get_mtime now s') = unat v div 100000"
proof -
  have p: "bytes_put (to_le 8 (get_mtime now s)) 0 (to_le 8 v) = to_le 8 v" by (simp add: bytes_put_def)
  have f: "from_le (to_le 8 v) = v" by (rule from_le_to_le_full) simp
  let ?s1 = "s\<lparr>cl_start_time := now - v\<rparr>"
  have "cl_store now period 0xbff8 (to_le 8 v) s = Some (check_event now period (check_mtime now ?s1))"
    using assms(1) p f by (simp add: cl_store_def Let_def cl_wf_def)
  moreover have "unat (get_mtime now (check_event now period (check_mtime now ?s1))) = unat v div 100000"
    using assms(2) by (subst get_mtime_nat) simp_all
  ultimately show ?thesis by blast
qed

theorem cl_write_mtime_scaled_witness:
  "\<exists>s'. cl_store 5000000 1000 0xbff8 (to_le 8 (1234567 :: u64)) (cl_new 1) = Some s' \<and>
     unat (get_mtime 5000000 s') = 12"
  using cl_write_mtime_scaled[of "cl_new 1" 1234567 5000000 1000] by (simp add: cl_wf_def cl_new_def)

text \<open>
  With a clock slower than the timer resolution a timer interrupt can be lost: when less than
  one clock period remains until the compare value, no event is enqueued and the wire stays low, so
  nothing will look at the timer again.
\<close>

theorem cl_event_lost:
  assumes wf: "cl_wf s" "i < cl_nb_cores s" and ahead: "get_mtime now s < cl_mtimecmp s ! i"
    and short: "(unat (cl_mtimecmp s ! i) - unat (get_mtime now s)) * 100000 < unat period"
  shows "cl_event (check_event now period (check_mtime now s)) ! i = cl_event s ! i \<and>
    \<not> cl_timer_irq (check_event now period (check_mtime now s)) ! i"
proof -
  let ?s = "check_mtime now s" and ?cmp = "cl_mtimecmp s ! i"
  have m: "get_mtime now ?s = get_mtime now s" by (simp add: get_mtime_def)
  have le: "get_mtime now ?s \<le> ?cmp" using ahead m by auto
  have "unat period < 2 ^ 64" by simp
  then have "(unat ?cmp - unat (get_mtime now ?s)) * 100000 < 2 ^ 64" unfolding m
    using short by (rule less_trans[rotated])
  from cl_diff_nat[OF le this, of period] short m have "unat (cl_diff now period ?s ?cmp) = 0" by simp
  then have "cl_diff now period ?s ?cmp = 0" by (simp add: unat_eq_0)
  then show ?thesis using wf ahead by (auto simp: check_event_def check_mtime_def cl_wf_def)
qed

theorem cl_event_lost_witness:
  "cl_event (check_event 0 200000 (check_mtime 0 ((cl_new 1)\<lparr>cl_mtimecmp := [1]\<rparr>))) ! 0 = None"
proof -
  let ?s = "(cl_new 1)\<lparr>cl_mtimecmp := [1]\<rparr>"
  have m: "unat (get_mtime 0 ?s) = 0" by (subst get_mtime_nat) (simp_all add: cl_new_def)
  have "cl_wf ?s" "0 < cl_nb_cores ?s" by (simp_all add: cl_wf_def cl_new_def)
  moreover have "get_mtime 0 ?s < cl_mtimecmp ?s ! 0" using m by (simp add: word_less_nat_alt)
  ultimately have "cl_event (check_event 0 200000 (check_mtime 0 ?s)) ! 0 = cl_event ?s ! 0"
    using cl_event_lost[of ?s 0 0 200000] m by simp
  then show ?thesis by (simp add: cl_new_def)
qed

text \<open>
  The trace message of a compare-register store indexes the register vector with a byte offset:
  for every hart \<open>h > 0\<close> whose offset is not below the number of harts, in particular for every hart but the
  first when there are at most eight, the vector is read out of its bounds.
\<close>

theorem cl_trace_out_of_bounds:
  assumes "cl_wf s" "h < cl_nb_cores s" "0 < h" "cl_nb_cores s \<le> 8 * h"
  shows "cl_nb_cores s \<le> cl_trace_index (of_nat (0x4000 + 8 * h))"
proof -
  have "unat (of_nat (0x4000 + 8 * h) :: u32) = 0x4000 + 8 * h"
    using assms by (subst unat_of_nat) (simp add: cl_wf_def)
  then show ?thesis unfolding cl_trace_index_def using assms(4) by simp
qed

theorem cl_trace_out_of_bounds_witness: "cl_nb_cores (cl_new 2) \<le> cl_trace_index 0x4008"
  using cl_trace_out_of_bounds[of "cl_new 2" 1] by (simp add: cl_wf_def cl_new_def)

end
