(* ===== verification/Regfile_V2.thy ===== *)
theory Regfile_V2
  imports Prelude
begin

text \<open>
  The register file of the instruction-set simulator, \<^verbatim>\<open>src/models/cpu/iss_v2/include/regfile.hpp\<close> with
  \<^verbatim>\<open>regfile_implem.hpp\<close> and \<^verbatim>\<open>src/models/cpu/iss_v2/src/regfile.cpp\<close>: the registers, the memcheck shadow (a validity mask
  and a buffer identifier per register) and the scoreboard. The stack checker is not modelled.

  The register width \<^verbatim>\<open>iss_reg_t\<close> is the type parameter, so that the same definitions serve the 32-
  and the 64-bit builds. Slots are 64 bits wide in the code, but integer registers are cast to
  \<^verbatim>\<open>iss_reg_t\<close> on every write; the slots here have that width. Floating-point slots are not
  modelled. Index \<open>64\<close> is the dummy register that stands for \<open>x0\<close> as a destination.
\<close>

section \<open>State\<close>

datatype mc_fault_kind = Uninit_Branch | Uninit_Address

record 'w regfile =
  rf_regs :: "nat \<Rightarrow> 'w"
  rf_mc :: "nat \<Rightarrow> 'w"
  rf_mc_id :: "nat \<Rightarrow> u32"
  rf_fault :: "(nat \<times> mc_fault_kind) option"
  rf_pending_addr_buffer_id :: u32
  rf_mc_enabled :: bool

definition iss_dummy_reg :: nat where
  "iss_dummy_reg = 64"

definition rf_reset :: "bool \<Rightarrow> 'x::len word regfile \<Rightarrow> 'x word regfile" where
  "rf_reset active rf =
     (if active
      then rf\<lparr>rf_regs := (\<lambda>i. if 1 \<le> i \<and> i < 64 then 0x5757575757575757 else rf_regs rf i),
              rf_mc := (\<lambda>i. if i = 0 \<or> i = iss_dummy_reg then - 1 else 0),
              rf_mc_id := (\<lambda>i. 0), rf_fault := None\<rparr>
      else rf)"

definition get_reg :: "nat \<Rightarrow> 'x::len word regfile \<Rightarrow> 'x word" where
  "get_reg r rf = rf_regs rf r"

definition set_reg :: "nat \<Rightarrow> 'x word \<Rightarrow> 'x::len word regfile \<Rightarrow> 'x word regfile" where
  "set_reg r v rf = rf\<lparr>rf_regs := (rf_regs rf)(r := v)\<rparr>"

text \<open>Register pairs hold 64-bit values on the 32-bit build.\<close>

definition set_reg_pair :: "nat \<Rightarrow> u64 \<Rightarrow> u32 regfile \<Rightarrow> u32 regfile" where
  "set_reg_pair r v rf =
     (if r = 0 then rf else set_reg (r OR 1) (ucast (drop_bit 32 v)) (set_reg r (ucast v) rf))"

definition get_reg_pair :: "nat \<Rightarrow> u32 regfile \<Rightarrow> u64" where
  "get_reg_pair r rf =
     (if r = 0 then 0 else push_bit 32 (ucast (get_reg (r OR 1) rf)) + ucast (get_reg r rf))"

section \<open>The memcheck shadow\<close>

definition memcheck_set :: "nat \<Rightarrow> 'x word \<Rightarrow> 'x::len word regfile \<Rightarrow> 'x word regfile" where
  "memcheck_set r v rf = rf\<lparr>rf_mc := (rf_mc rf)(r := v), rf_mc_id := (rf_mc_id rf)(r := 0)\<rparr>"

definition memcheck_get_valid :: "nat \<Rightarrow> 'x::len word regfile \<Rightarrow> bool" where
  "memcheck_get_valid r rf \<longleftrightarrow> rf_mc rf r = - 1"

definition memcheck_set_valid :: "nat \<Rightarrow> bool \<Rightarrow> 'x::len word regfile \<Rightarrow> 'x word regfile" where
  "memcheck_set_valid r valid rf =
     rf\<lparr>rf_mc := (rf_mc rf)(r := if valid then - 1 else 0), rf_mc_id := (rf_mc_id rf)(r := 0)\<rparr>"

definition memcheck_id_combine :: "nat \<Rightarrow> nat \<Rightarrow> 'x::len word regfile \<Rightarrow> u32" where
  "memcheck_id_combine a b rf =
     (let id_0 = rf_mc_id rf a; id_1 = rf_mc_id rf b
      in if id_1 = 0 then id_0 else if id_0 = 0 then id_1 else if id_0 = id_1 then 0 else id_0)"

definition memcheck_merge :: "nat \<Rightarrow> nat \<Rightarrow> 'x::len word regfile \<Rightarrow> 'x word regfile" where
  "memcheck_merge out a rf =
     (let i = rf_mc_id rf a; rf1 = memcheck_set_valid out (memcheck_get_valid a rf) rf
      in rf1\<lparr>rf_mc_id := (rf_mc_id rf1)(out := i)\<rparr>)"

definition memcheck_merge2 :: "nat \<Rightarrow> nat \<Rightarrow> nat \<Rightarrow> 'x::len word regfile \<Rightarrow> 'x word regfile" where
  "memcheck_merge2 out a b rf =
     (let i = memcheck_id_combine a b rf;
          rf1 = memcheck_set_valid out (memcheck_get_valid a rf \<and> memcheck_get_valid b rf) rf
      in rf1\<lparr>rf_mc_id := (rf_mc_id rf1)(out := i)\<rparr>)"

definition memcheck_merge3 :: "nat \<Rightarrow> nat \<Rightarrow> nat \<Rightarrow> nat \<Rightarrow> 'x::len word regfile \<Rightarrow> 'x word regfile" where
  "memcheck_merge3 out a b c rf =
     memcheck_set_valid out
       (memcheck_get_valid a rf \<and> memcheck_get_valid b rf \<and> memcheck_get_valid c rf) rf"

definition memcheck_copy :: "nat \<Rightarrow> nat \<Rightarrow> 'x::len word regfile \<Rightarrow> 'x word regfile" where
  "memcheck_copy out a rf =
     rf\<lparr>rf_mc := (rf_mc rf)(out := rf_mc rf a), rf_mc_id := (rf_mc_id rf)(out := rf_mc_id rf a)\<rparr>"

definition memcheck_bitwise_and :: "nat \<Rightarrow> nat \<Rightarrow> nat \<Rightarrow> 'x::len word regfile \<Rightarrow> 'x word regfile" where
  "memcheck_bitwise_and out a b rf =
     (let rf1 = rf\<lparr>rf_mc := (rf_mc rf)(out := rf_mc rf a AND rf_mc rf b)\<rparr>
      in rf1\<lparr>rf_mc_id := (rf_mc_id rf1)(out := memcheck_id_combine a b rf1)\<rparr>)"

text \<open>
  The masks of the shifts; the right-shift masks shift by the register width when the amount is
  0, which the hosts the simulator runs on leave at \<open>0\<close> since the operand is \<open>0\<close>.
\<close>

definition memcheck_shift_left :: "nat \<Rightarrow> nat \<Rightarrow> nat \<Rightarrow> 'x::len word regfile \<Rightarrow> 'x word regfile" where
  "memcheck_shift_left out a sh rf =
     rf\<lparr>rf_mc := (rf_mc rf)(out := push_bit sh (rf_mc rf a) OR (push_bit sh 1 - 1)),
        rf_mc_id := (rf_mc_id rf)(out := 0)\<rparr>"

definition high_mask :: "nat \<Rightarrow> 'x::len word" where
  "high_mask sh = push_bit (LENGTH('x) - sh) (push_bit sh 1 - 1)"

definition memcheck_shift_right :: "nat \<Rightarrow> nat \<Rightarrow> nat \<Rightarrow> 'x::len word regfile \<Rightarrow> 'x word regfile" where
  "memcheck_shift_right out a sh rf =
     rf\<lparr>rf_mc := (rf_mc rf)(out := drop_bit sh (rf_mc rf a) OR high_mask sh),
        rf_mc_id := (rf_mc_id rf)(out := 0)\<rparr>"

definition memcheck_shift_right_signed :: "nat \<Rightarrow> nat \<Rightarrow> nat \<Rightarrow> 'x::len word regfile \<Rightarrow> 'x word regfile" where
  "memcheck_shift_right_signed out a sh rf =
     (let v = drop_bit sh (rf_mc rf a);
          v' = (if bit (rf_mc rf a) (LENGTH('x) - 1) then v OR high_mask sh else v)
      in rf\<lparr>rf_mc := (rf_mc rf)(out := v'), rf_mc_id := (rf_mc_id rf)(out := 0)\<rparr>)"

definition memcheck_reg :: "nat \<Rightarrow> 'x::len word regfile \<Rightarrow> bool" where
  "memcheck_reg r rf \<longleftrightarrow> rf_mc rf r \<noteq> - 1 \<and> rf_mc_enabled rf"

definition memcheck_branch_reg :: "nat \<Rightarrow> 'x::len word regfile \<Rightarrow> 'x word regfile" where
  "memcheck_branch_reg r rf =
     (if memcheck_reg r rf then rf\<lparr>rf_fault := Some (r, Uninit_Branch)\<rparr> else rf)"

definition memcheck_access_reg :: "nat \<Rightarrow> 'x::len word regfile \<Rightarrow> 'x word regfile" where
  "memcheck_access_reg r rf =
     (let rf1 = (if memcheck_reg r rf then rf\<lparr>rf_fault := Some (r, Uninit_Address)\<rparr> else rf)
      in rf1\<lparr>rf_pending_addr_buffer_id := rf_mc_id rf1 r\<rparr>)"

section \<open>Register pairs\<close>

lemma reg_pair_roundtrip:
  assumes "r \<noteq> 0" "even r"
  shows "get_reg_pair r (set_reg_pair r v rf) = v"
proof -
  have n: "r OR 1 = r + 1" using or_one_eq[of r] assms(2) by simp
  have "push_bit 32 (ucast (ucast (drop_bit 32 v) :: u32)) + ucast (ucast v :: u32) = v"
  proof -
    have d: "push_bit 32 (ucast (ucast (drop_bit 32 v) :: u32)) AND ucast (ucast v :: u32) = (0 :: u64)"
      by (rule bit_word_eqI) (auto simp: bit_simps)
    have "push_bit 32 (ucast (ucast (drop_bit 32 v) :: u32)) OR ucast (ucast v :: u32) = v"
      by (rule bit_word_eqI) (auto simp: bit_simps)
    then show ?thesis using disjunctive_add_eq_or[OF d] by simp
  qed
  then show ?thesis using assms n by (simp add: get_reg_pair_def set_reg_pair_def get_reg_def set_reg_def)
qed

section \<open>Scoreboard\<close>

text \<open>
  Registers with an in-flight producer, and the reason tag of each. \<open>__builtin_ctzll\<close> is the
  position of the lowest set bit of a non-zero word.
\<close>

record scoreboard =
  sb_reg_invalid :: u64
  sb_reason :: "nat \<Rightarrow> byte"
  sb_reason_set_mask :: u64
  sb_last_stall_pc :: u64
  sb_last_stall_cycle :: int

definition ctz :: "u64 \<Rightarrow> nat" where
  "ctz m = hd (filter (bit m) [0..<64])"

lemma ctz_least:
  assumes "m \<noteq> 0"
  shows "bit m (ctz m)" "ctz m < 64" "i < ctz m \<Longrightarrow> \<not> bit m i"
proof -
  have "\<exists>j < 64. bit m j"
  proof (rule ccontr)
    assume "\<not> (\<exists>j < 64. bit m j)"
    then have "m = 0" by (intro bit_word_eqI) auto
    then show False using assms by simp
  qed
  then obtain j where j: "bit m j" "j < 64" by blast
  let ?l = "filter (bit m) [0..<64]"
  have ne: "?l \<noteq> []" using j by (auto simp: filter_empty_conv)
  then have "hd ?l \<in> set ?l" by (rule hd_in_set)
  then show "bit m (ctz m)" "ctz m < 64" by (auto simp: ctz_def)
  have s: "sorted ?l" by (intro sorted_wrt_filter sorted_upt)
  show "i < ctz m \<Longrightarrow> \<not> bit m i"
  proof
    assume "i < ctz m" "bit m i"
    then have "i \<in> set ?l" using \<open>ctz m < 64\<close> by simp
    then have "hd ?l \<le> i" using s ne by (cases ?l) auto
    then show False using \<open>i < ctz m\<close> by (simp add: ctz_def)
  qed
qed

lemma clear_lowest_bit:
  assumes "m \<noteq> (0 :: u64)"
  shows "bit (m AND (m - 1)) i \<longleftrightarrow> bit m i \<and> i \<noteq> ctz m"
proof -
  let ?k = "ctz m"
  note c = ctz_least[OF assms]
  let ?h = "push_bit (Suc ?k) (drop_bit (Suc ?k) m)"
  have low: "take_bit (Suc ?k) m = push_bit ?k 1"
    using c by (intro bit_word_eqI) (auto simp: bit_simps less_Suc_eq)
  have m: "m = ?h + push_bit ?k 1"
    using bits_ident[of "Suc ?k" m] low by simp
  have mk: "push_bit ?k 1 - 1 = (mask ?k :: u64)" by (simp add: mask_eq_exp_minus_1 push_bit_eq_mult)
  have "m - 1 = ?h + mask ?k" using m mk by (metis add_diff_eq)
  moreover have "?h AND mask ?k = 0" by (intro bit_word_eqI) (auto simp: bit_simps)
  ultimately have e: "m - 1 = ?h OR mask ?k" by (metis disjunctive_add_eq_or)
  have h: "bit ?h i \<longleftrightarrow> ?k < i \<and> bit m i"
  proof (cases "?k < i")
    case True
    then obtain j where "i = Suc ?k + j" by (metis Suc_leI le_Suc_ex)
    then show ?thesis using bit_imp_le_length[of m i] by (auto simp only: bit_push_bit_iff bit_drop_bit_eq comp_apply) auto
  qed (auto simp only: bit_push_bit_iff)
  have "bit (m - 1) i \<longleftrightarrow> ?k < i \<and> bit m i \<or> i < ?k"
    unfolding e bit_or_iff h using c(2) by (auto simp: bit_mask_iff)
  then show ?thesis using c(3)[of i] by (auto simp: bit_and_iff)
qed

lemma clear_lowest_less: "m \<noteq> (0 :: u64) \<Longrightarrow> unat (m AND (m - 1)) < unat m"
proof -
  assume m: "m \<noteq> 0"
  have "m AND (m - 1) \<le> m - 1" by (rule word_and_le1)
  then have "unat (m AND (m - 1)) \<le> unat (m - 1)" by (simp add: word_le_nat_alt)
  also have "\<dots> < unat m" using m by (simp add: unat_minus_one unat_gt_0)
  finally show ?thesis .
qed

function sb_reason_loop :: "byte \<Rightarrow> u64 \<Rightarrow> (nat \<Rightarrow> byte) \<Rightarrow> nat \<Rightarrow> byte" where
  "sb_reason_loop v m reason =
     (if m = 0 then reason else sb_reason_loop v (m AND (m - 1)) (reason(ctz m := v)))"
  by pat_completeness auto
termination
  by (relation "measure (\<lambda>(v, m, reason). unat m)") (auto simp: clear_lowest_less)

declare sb_reason_loop.simps [simp del]

definition sb_reg_invalid_set :: "nat \<Rightarrow> scoreboard \<Rightarrow> scoreboard" where
  "sb_reg_invalid_set r sb = sb\<lparr>sb_reg_invalid := sb_reg_invalid sb OR scast (push_bit r 1 :: u32)\<rparr>"

definition sb_reg_invalid_clear :: "nat \<Rightarrow> scoreboard \<Rightarrow> scoreboard" where
  "sb_reg_invalid_clear r sb =
     sb\<lparr>sb_reg_invalid := sb_reg_invalid sb AND scast (NOT (push_bit r 1) :: u32)\<rparr>"

definition sb_reg_invalid_clear_mask :: "u64 \<Rightarrow> scoreboard \<Rightarrow> scoreboard" where
  "sb_reg_invalid_clear_mask msk sb =
     (let sb1 = sb\<lparr>sb_reg_invalid := sb_reg_invalid sb AND NOT msk\<rparr>;
          m = msk AND sb_reason_set_mask sb1
      in if m = 0 then sb1
         else sb1\<lparr>sb_reason_set_mask := sb_reason_set_mask sb1 AND NOT m,
                  sb_reason := sb_reason_loop 0 m (sb_reason sb1)\<rparr>)"

definition sb_set_reason :: "u64 \<Rightarrow> byte \<Rightarrow> scoreboard \<Rightarrow> scoreboard" where
  "sb_set_reason msk reason sb =
     sb\<lparr>sb_reason_set_mask := sb_reason_set_mask sb OR msk,
        sb_reason := sb_reason_loop reason msk (sb_reason sb)\<rparr>"

definition scoreboard_insn_start :: "u64 \<Rightarrow> scoreboard \<Rightarrow> scoreboard" where
  "scoreboard_insn_start out_mask sb = sb\<lparr>sb_reg_invalid := sb_reg_invalid sb OR out_mask\<rparr>"

definition scoreboard_insn_end :: "u64 \<Rightarrow> scoreboard \<Rightarrow> scoreboard" where
  "scoreboard_insn_end out_mask sb = sb_reg_invalid_clear_mask out_mask sb"

definition scoreboard_is_clean :: "scoreboard \<Rightarrow> bool" where
  "scoreboard_is_clean sb \<longleftrightarrow> sb_reg_invalid sb = 0"

text \<open>
  \<open>scoreboard_insn_check\<close>: whether the instruction has to wait, and the reason reported, if any.
\<close>

definition scoreboard_insn_check :: "u64 \<Rightarrow> u64 \<Rightarrow> int \<Rightarrow> scoreboard \<Rightarrow> scoreboard \<times> bool \<times> byte option" where
  "scoreboard_insn_check reg_mask addr cur_cycle sb =
     (let blocking = reg_mask AND sb_reg_invalid sb
      in if blocking = 0 then (sb, False, None)
         else
           let fresh = (addr \<noteq> sb_last_stall_pc sb \<or> cur_cycle \<noteq> sb_last_stall_cycle sb + 1)
           in (sb\<lparr>sb_last_stall_pc := addr, sb_last_stall_cycle := cur_cycle\<rparr>, True,
               if fresh then Some (sb_reason sb (ctz blocking)) else None))"

lemma sb_reason_loop_spec:
  "sb_reason_loop v m reason = (\<lambda>i. if bit m i then v else reason i)"
proof (induction "unat m" arbitrary: m reason rule: less_induct)
  case less
  show ?case
  proof (cases "m = 0")
    case True
    then show ?thesis by (simp add: sb_reason_loop.simps)
  next
    case False
    then have "sb_reason_loop v m reason = sb_reason_loop v (m AND (m - 1)) (reason(ctz m := v))"
      by (subst sb_reason_loop.simps) simp
    also have "\<dots> = (\<lambda>i. if bit (m AND (m - 1)) i then v else (reason(ctz m := v)) i)"
      by (rule less.hyps) (rule clear_lowest_less[OF False])
    also have "\<dots> = (\<lambda>i. if bit m i then v else reason i)"
      unfolding clear_lowest_bit[OF False] using ctz_least(1)[OF False] by auto
    finally show ?thesis .
  qed
qed

end
