(* ===== verification/Scoreboard_V2.thy ===== *)
theory Scoreboard_V2
  imports Regfile_V2
begin

text \<open>
  What the scoreboard of \<^verbatim>\<open>src/models/cpu/iss_v2/include/regfile.hpp\<close> promises: for every register whether a producer is
  in flight and the tag of that producer. The code keeps bit masks and clears tags lazily, only
  for registers in \<open>sb_reason_set_mask\<close>; the abstract board is a function of the register.
\<close>

section \<open>Operations\<close>

text \<open>The part of \<^verbatim>\<open>Regfile::reset\<close> that concerns the scoreboard.\<close>

definition sb_reset :: "scoreboard" where
  "sb_reset = \<lparr>sb_reg_invalid = 0, sb_reason = (\<lambda>_. 0), sb_reason_set_mask = 0,
               sb_last_stall_pc = - 1, sb_last_stall_cycle = - 2\<rparr>"

datatype sb_op = Insn_Start u64 | Insn_End u64 | Set_Reason u64 byte | Insn_Check u64 u64 int

fun sb_step :: "sb_op \<Rightarrow> scoreboard \<Rightarrow> scoreboard" where
  "sb_step (Insn_Start m) sb = scoreboard_insn_start m sb"
| "sb_step (Insn_End m) sb = scoreboard_insn_end m sb"
| "sb_step (Set_Reason m v) sb = sb_set_reason m v sb"
| "sb_step (Insn_Check m a c) sb = fst (scoreboard_insn_check m a c sb)"

section \<open>The abstract board\<close>

type_synonym board = "nat \<Rightarrow> bool \<times> byte"

fun board_step :: "sb_op \<Rightarrow> board \<Rightarrow> board" where
  "board_step (Insn_Start m) b = (\<lambda>r. if bit m r then (True, snd (b r)) else b r)"
| "board_step (Insn_End m) b = (\<lambda>r. if bit m r then (False, 0) else b r)"
| "board_step (Set_Reason m v) b = (\<lambda>r. if bit m r then (fst (b r), v) else b r)"
| "board_step (Insn_Check m a c) b = b"

definition board_of :: "scoreboard \<Rightarrow> board" where
  "board_of sb = (\<lambda>r. (bit (sb_reg_invalid sb) r, sb_reason sb r))"

text \<open>A tag other than \<open>0\<close> is remembered in the mask of tags to clear.\<close>

definition sb_inv :: "scoreboard \<Rightarrow> bool" where
  "sb_inv sb \<longleftrightarrow> (\<forall>r. sb_reason sb r \<noteq> 0 \<longrightarrow> bit (sb_reason_set_mask sb) r)"

lemma bit_not_u64: "bit (NOT m :: u64) i \<longleftrightarrow> i < 64 \<and> \<not> bit m i"
  by (auto simp: bit_not_iff_eq)

lemma clear_mask_board:
  assumes "sb_inv sb"
  shows "board_of (sb_reg_invalid_clear_mask m sb) = board_step (Insn_End m) (board_of sb)"
    "sb_inv (sb_reg_invalid_clear_mask m sb)"
proof -
  have z: "sb_reason sb r = 0" if "m AND sb_reason_set_mask sb = 0" "bit m r" for r
    using assms that by (metis bit_and_iff bit_0_eq bot_apply bot_bool_def sb_inv_def)
  have lt: "r < 64" if "sb_reason sb r \<noteq> 0" for r
    using assms that bit_imp_le_length[of "sb_reason_set_mask sb" r] by (simp add: sb_inv_def)
  show "board_of (sb_reg_invalid_clear_mask m sb) = board_step (Insn_End m) (board_of sb)"
    using assms z by (auto simp: sb_reg_invalid_clear_mask_def board_of_def Let_def sb_reason_loop_spec
        bit_and_iff bit_not_u64 fun_eq_iff sb_inv_def dest: bit_imp_le_length)
  show "sb_inv (sb_reg_invalid_clear_mask m sb)"
    using assms by (auto simp: sb_reg_invalid_clear_mask_def Let_def sb_reason_loop_spec sb_inv_def
        bit_and_iff bit_or_iff bit_not_u64 intro: lt)
qed

lemma sb_step_board:
  assumes "sb_inv sb"
  shows "board_of (sb_step a sb) = board_step a (board_of sb) \<and> sb_inv (sb_step a sb)"
proof (cases a)
  case (Insn_End m)
  then show ?thesis using clear_mask_board[OF assms] by (simp add: scoreboard_insn_end_def)
qed (use assms in \<open>auto simp: board_of_def scoreboard_insn_start_def sb_set_reason_def scoreboard_insn_check_def
      sb_inv_def sb_reason_loop_spec bit_or_iff Let_def fun_eq_iff\<close>)

lemma sb_run_board:
  "board_of (fold sb_step ops sb_reset) = fold board_step ops (\<lambda>_. (False, 0)) \<and> sb_inv (fold sb_step ops sb_reset)"
proof (induction ops rule: rev_induct)
  case Nil
  then show ?case by (simp add: sb_reset_def board_of_def sb_inv_def)
next
  case (snoc a ops)
  then show ?case using sb_step_board by simp
qed

text \<open>
  C27: After any sequence of instruction starts, ends, tag updates and checks from reset, the
  scoreboard is the abstract board, and a check makes an instruction wait exactly when one of
  its registers has a producer in flight; the tag it reports, on the first cycle of the stall
  only, is that of the lowest such register.
\<close>

theorem scoreboard_refines:
  "board_of (fold sb_step ops sb_reset) = fold board_step ops (\<lambda>_. (False, 0)) \<and>
   snd (scoreboard_insn_check regs addr cycle (fold sb_step ops sb_reset)) =
     (let sb = fold sb_step ops sb_reset;
          b = fold board_step ops (\<lambda>_. (False, 0));
          blocking = {r. bit regs r \<and> fst (b r)}
      in (blocking \<noteq> {},
          if blocking = {} \<or> (addr = sb_last_stall_pc sb \<and> cycle = sb_last_stall_cycle sb + 1) then None
          else Some (snd (b (Min blocking)))))"
proof -
  let ?sb = "fold sb_step ops sb_reset"
  let ?m = "regs AND sb_reg_invalid ?sb"
  have b: "fold board_step ops (\<lambda>_. (False, 0)) = board_of ?sb" using sb_run_board[of ops] by simp
  have s: "{r. bit regs r \<and> fst (board_of ?sb r)} = {r. bit ?m r}"
    by (simp add: board_of_def bit_and_iff)
  have e: "{r. bit ?m r} = {} \<longleftrightarrow> ?m = 0" by (auto intro: bit_word_eqI)
  have fin: "finite {r. bit ?m r}"
    by (rule finite_subset[of _ "{..<64}"]) (auto dest: bit_imp_le_length)
  have mn: "Min {r. bit ?m r} = ctz ?m" if "?m \<noteq> 0"
    using ctz_least[OF that] fin by (intro Min_eqI) (auto intro: leI)
  show ?thesis
    unfolding b s Let_def e using mn
    by (auto simp: scoreboard_insn_check_def Let_def board_of_def)
qed

end
