(* ===== verification/Isa_Rv32i.thy ===== *)
theory Isa_Rv32i
  imports Regfile_V2
begin

text \<open>
  The integer instructions of \<^verbatim>\<open>src/models/cpu/iss/include/isa/rv32i.hpp\<close> and the library functions of
  \<^verbatim>\<open>isa_lib/int.h\<close> they call, as the second-generation simulator compiles them
  (\<^verbatim>\<open>CONFIG_GVSOC_ISS_V2\<close>, with the macros of \<^verbatim>\<open>src/models/cpu/iss_v2/include/isa_lib/macros.h\<close>), for any register
  width. A handler takes the decoded instruction, the program counter and the core, and returns
  the core and the next program counter. Accounts to the timing object and the trace events are
  appended to \<open>cpu_events\<close> in the order the code makes them.
\<close>

section \<open>Decoded instructions and the core\<close>

text \<open>
  \<open>iss_insn_t\<close>: register indices are \<^verbatim>\<open>unsigned char\<close>, \<open>255\<close> when unset; \<open>sim\<close> and \<open>uim\<close> are the signed
  and unsigned immediates, both of the register width.
\<close>

record 'w iss_insn =
  in_regs :: "nat \<Rightarrow> nat"
  out_regs :: "nat \<Rightarrow> nat"
  sim :: "nat \<Rightarrow> 'w"
  uim :: "nat \<Rightarrow> 'w"
  insn_size :: nat
  nb_in_reg :: nat
  nb_out_reg :: nat
  sb_reg_mask :: u64
  sb_out_reg_mask :: u64
  sb_in_vreg_mask :: u32
  sb_out_vreg_mask :: u32

text \<open>
  \<open>Ev_Stall\<close> carries a number of cycles, \<open>None\<close> when the code computes it with \<^verbatim>\<open>__builtin_clz(0)\<close>,
  whose value is undefined.
\<close>

datatype 'w timing_event =
    Ev_Jump | Ev_Jalr nat | Ev_Taken_Branch | Ev_Branch | Ev_Trace_Jal | Ev_Trace_Jalr
  | Ev_Rvc nat | Ev_Stall "nat option" | Ev_Div 'w 'w bool bool

record 'w cpu =
  cpu_rf :: "'w regfile"
  cpu_events :: "'w timing_event list"

type_synonym 'w handler = "'w iss_insn \<Rightarrow> 'w \<Rightarrow> 'w cpu \<Rightarrow> 'w cpu \<times> 'w"

definition account :: "'x::len word timing_event \<Rightarrow> 'x word cpu \<Rightarrow> 'x word cpu" where
  "account e s = s\<lparr>cpu_events := cpu_events s @ [e]\<rparr>"

definition on_rf :: "('x::len word regfile \<Rightarrow> 'x word regfile) \<Rightarrow> 'x word cpu \<Rightarrow> 'x word cpu" where
  "on_rf f s = s\<lparr>cpu_rf := f (cpu_rf s)\<rparr>"

definition reg_get :: "'x::len word iss_insn \<Rightarrow> nat \<Rightarrow> 'x word cpu \<Rightarrow> 'x word" where
  "reg_get insn i s = get_reg (in_regs insn i) (cpu_rf s)"

definition reg_set :: "'x::len word iss_insn \<Rightarrow> nat \<Rightarrow> 'x word \<Rightarrow> 'x word cpu \<Rightarrow> 'x word cpu" where
  "reg_set insn i v s = on_rf (set_reg (out_regs insn i) v) s"

definition iss_insn_next :: "'x::len word iss_insn \<Rightarrow> 'x word \<Rightarrow> 'x word" where
  "iss_insn_next insn pc = pc + of_nat (insn_size insn)"

section \<open>Library functions\<close>

text \<open>Sign extension of a field of \<open>bits\<close> bits (\<^verbatim>\<open>utils.hpp\<close>).\<close>

definition iss_get_signed_value :: "'x::len word \<Rightarrow> nat \<Rightarrow> 'x word" where
  "iss_get_signed_value v bits =
     signed_drop_bit (LENGTH('x) - bits) (push_bit (LENGTH('x) - bits) v)"

text \<open>
  \<open>int_get_signed_value\<close> shifts left then right in the signed register type and returns a 32-bit
  \<^verbatim>\<open>int\<close>, which its callers convert back to the register type. \<open>bool_reg\<close> is the conversion of a
  comparison; \<open>shamt\<close> the value of \<^verbatim>\<open>REG_GET(1) & ((1 << ISS_REG_WIDTH_LOG2) - 1)\<close>.
\<close>

definition int_get_signed_value :: "'x::len word \<Rightarrow> nat \<Rightarrow> u32" where
  "int_get_signed_value v bits =
     scast (signed_drop_bit (LENGTH('x) - bits) (push_bit (LENGTH('x) - bits) v))"

definition getField :: "'x::len word \<Rightarrow> nat \<Rightarrow> nat \<Rightarrow> 'x word" where
  "getField v shift bits = ucast (ucast (drop_bit shift v) AND (push_bit bits 1 - 1 :: u64))"

definition lib_SLL :: "'x::len word \<Rightarrow> nat \<Rightarrow> 'x word" where
  "lib_SLL a b = push_bit b a"

definition lib_SRL :: "'x::len word \<Rightarrow> nat \<Rightarrow> 'x word" where
  "lib_SRL a b = drop_bit b a"

definition lib_SRA :: "'x::len word \<Rightarrow> nat \<Rightarrow> 'x word" where
  "lib_SRA a b = signed_drop_bit b a"

definition lib_XOR :: "'x::len word \<Rightarrow> 'x word \<Rightarrow> 'x word" where
  "lib_XOR a b = a XOR b"

definition lib_OR :: "'x::len word \<Rightarrow> 'x word \<Rightarrow> 'x word" where
  "lib_OR a b = a OR b"

definition lib_AND :: "'x::len word \<Rightarrow> 'x word \<Rightarrow> 'x word" where
  "lib_AND a b = a AND b"

definition lib_ADD :: "'x::len word \<Rightarrow> 'x word \<Rightarrow> 'x word" where
  "lib_ADD a b = a + b"

definition lib_SUB :: "'x::len word \<Rightarrow> 'x word \<Rightarrow> 'x word" where
  "lib_SUB a b = a - b"

definition bool_reg :: "bool \<Rightarrow> 'x::len word" where
  "bool_reg b = (if b then 1 else 0)"

definition iss_reg_width_log2 :: "'x::len itself \<Rightarrow> nat" where
  "iss_reg_width_log2 t = (if LENGTH('x) = 64 then 6 else 5)"

definition shamt :: "'x::len word \<Rightarrow> nat" where
  "shamt v = unat (v AND (push_bit (iss_reg_width_log2 TYPE('x)) 1 - 1))"

section \<open>Upper immediates and jumps\<close>

definition lui_decode :: "'x::len word iss_insn \<Rightarrow> 'x word iss_insn" where
  "lui_decode insn = insn\<lparr>uim := (uim insn)(0 := scast (int_get_signed_value (uim insn 0) 32))\<rparr>"

definition lui_exec :: "'x::len word handler" where
  "lui_exec insn pc s =
     (let s1 = on_rf (memcheck_set (out_regs insn 0) (- 1)) s;
          s2 = reg_set insn 0 (uim insn 0) s1
      in (s2, iss_insn_next insn pc))"

definition auipc_exec :: "'x::len word handler" where
  "auipc_exec insn pc s =
     (let s1 = on_rf (memcheck_set (out_regs insn 0) (- 1)) s;
          s2 = reg_set insn 0 (scast (int_get_signed_value (uim insn 0) 32) + pc) s1
      in (s2, iss_insn_next insn pc))"

definition jal_exec_common :: "bool \<Rightarrow> 'x::len word handler" where
  "jal_exec_common perf insn pc s =
     (let s1 = on_rf (memcheck_set (out_regs insn 0) (- 1)) s;
          s2 = (if out_regs insn 0 \<noteq> 0 then reg_set insn 0 (iss_insn_next insn pc) s1 else s1);
          s3 = account Ev_Jump s2;
          s4 = account Ev_Trace_Jal s3
      in (s4, pc + sim insn 0))"

definition jal_exec_fast :: "'x::len word handler" where
  "jal_exec_fast = jal_exec_common False"

definition jal_exec :: "'x::len word handler" where
  "jal_exec = jal_exec_common True"

definition jalr_exec_common :: "bool \<Rightarrow> 'x::len word handler" where
  "jalr_exec_common perf insn pc s =
     (let s1 = on_rf (memcheck_set (out_regs insn 0) (- 1)) s;
          s2 = on_rf (memcheck_branch_reg (in_regs insn 0)) s1;
          next_pc = (sim insn 0 + reg_get insn 0 s2) AND NOT 1;
          s3 = (if out_regs insn 0 \<noteq> 0 then reg_set insn 0 (iss_insn_next insn pc) s2 else s2);
          s4 = account (Ev_Jalr (in_regs insn 0)) s3;
          s5 = account Ev_Trace_Jalr s4
      in (s5, next_pc))"

definition jalr_exec_fast :: "'x::len word handler" where
  "jalr_exec_fast = jalr_exec_common False"

definition jalr_exec :: "'x::len word handler" where
  "jalr_exec = jalr_exec_common True"

section \<open>Conditional branches\<close>

text \<open>
  The six branches have the same text around their comparison: both operands are checked by
  memcheck, a taken branch is accounted and goes to \<^verbatim>\<open>pc + SIM_GET(0)\<close>, one that falls through is
  accounted only by the handler that is not the fast one.
\<close>

definition branch_common :: "bool \<Rightarrow> bool \<Rightarrow> 'x::len word iss_insn \<Rightarrow> 'x word \<Rightarrow> 'x word cpu \<Rightarrow> 'x word cpu \<times> 'x word" where
  "branch_common taken perf insn pc s =
     (if taken then (account Ev_Taken_Branch s, pc + sim insn 0)
      else (if perf then account Ev_Branch s else s, iss_insn_next insn pc))"

definition beq_exec_common :: "bool \<Rightarrow> 'x::len word handler" where
  "beq_exec_common perf insn pc s =
     (let s1 = on_rf (memcheck_branch_reg (in_regs insn 1)) (on_rf (memcheck_branch_reg (in_regs insn 0)) s)
      in branch_common (reg_get insn 0 s1 = reg_get insn 1 s1) perf insn pc s1)"

definition beq_exec_fast :: "'x::len word handler" where
  "beq_exec_fast = beq_exec_common False"

definition beq_exec :: "'x::len word handler" where
  "beq_exec = beq_exec_common True"

definition bne_exec_common :: "bool \<Rightarrow> 'x::len word handler" where
  "bne_exec_common perf insn pc s =
     (let s1 = on_rf (memcheck_branch_reg (in_regs insn 1)) (on_rf (memcheck_branch_reg (in_regs insn 0)) s)
      in branch_common (reg_get insn 0 s1 \<noteq> reg_get insn 1 s1) perf insn pc s1)"

definition bne_exec_fast :: "'x::len word handler" where
  "bne_exec_fast = bne_exec_common False"

definition bne_exec :: "'x::len word handler" where
  "bne_exec = bne_exec_common True"

definition blt_exec_common :: "bool \<Rightarrow> 'x::len word handler" where
  "blt_exec_common perf insn pc s =
     (let s1 = on_rf (memcheck_branch_reg (in_regs insn 1)) (on_rf (memcheck_branch_reg (in_regs insn 0)) s)
      in branch_common (reg_get insn 0 s1 <s reg_get insn 1 s1) perf insn pc s1)"

definition blt_exec_fast :: "'x::len word handler" where
  "blt_exec_fast = blt_exec_common False"

definition blt_exec :: "'x::len word handler" where
  "blt_exec = blt_exec_common True"

definition bge_exec_common :: "bool \<Rightarrow> 'x::len word handler" where
  "bge_exec_common perf insn pc s =
     (let s1 = on_rf (memcheck_branch_reg (in_regs insn 1)) (on_rf (memcheck_branch_reg (in_regs insn 0)) s)
      in branch_common (reg_get insn 1 s1 \<le>s reg_get insn 0 s1) perf insn pc s1)"

definition bge_exec_fast :: "'x::len word handler" where
  "bge_exec_fast = bge_exec_common False"

definition bge_exec :: "'x::len word handler" where
  "bge_exec = bge_exec_common True"

definition bltu_exec_common :: "bool \<Rightarrow> 'x::len word handler" where
  "bltu_exec_common perf insn pc s =
     (let s1 = on_rf (memcheck_branch_reg (in_regs insn 1)) (on_rf (memcheck_branch_reg (in_regs insn 0)) s)
      in branch_common (reg_get insn 0 s1 < reg_get insn 1 s1) perf insn pc s1)"

definition bltu_exec_fast :: "'x::len word handler" where
  "bltu_exec_fast = bltu_exec_common False"

definition bltu_exec :: "'x::len word handler" where
  "bltu_exec = bltu_exec_common True"

definition bgeu_exec_common :: "bool \<Rightarrow> 'x::len word handler" where
  "bgeu_exec_common perf insn pc s =
     (let s1 = on_rf (memcheck_branch_reg (in_regs insn 1)) (on_rf (memcheck_branch_reg (in_regs insn 0)) s)
      in branch_common (reg_get insn 0 s1 \<ge> reg_get insn 1 s1) perf insn pc s1)"

definition bgeu_exec_fast :: "'x::len word handler" where
  "bgeu_exec_fast = bgeu_exec_common False"

definition bgeu_exec :: "'x::len word handler" where
  "bgeu_exec = bgeu_exec_common True"

section \<open>Register-immediate instructions\<close>

definition addi_exec :: "'x::len word handler" where
  "addi_exec insn pc s =
     (let s1 = on_rf (memcheck_merge (out_regs insn 0) (in_regs insn 0)) s;
          s2 = reg_set insn 0 (lib_ADD (reg_get insn 0 s1) (sim insn 0)) s1
      in (s2, iss_insn_next insn pc))"

definition nop_exec :: "'x::len word handler" where
  "nop_exec insn pc s = (s, iss_insn_next insn pc)"

definition slti_exec :: "'x::len word handler" where
  "slti_exec insn pc s =
     (let s1 = on_rf (memcheck_merge (out_regs insn 0) (in_regs insn 0)) s;
          s2 = reg_set insn 0 (bool_reg (reg_get insn 0 s1 <s sim insn 0)) s1
      in (s2, iss_insn_next insn pc))"

definition sltiu_exec :: "'x::len word handler" where
  "sltiu_exec insn pc s =
     (let s1 = on_rf (memcheck_merge (out_regs insn 0) (in_regs insn 0)) s;
          s2 = reg_set insn 0 (bool_reg (reg_get insn 0 s1 < sim insn 0)) s1
      in (s2, iss_insn_next insn pc))"

definition xori_exec :: "'x::len word handler" where
  "xori_exec insn pc s =
     (let s1 = on_rf (memcheck_copy (out_regs insn 0) (in_regs insn 0)) s;
          s2 = reg_set insn 0 (lib_XOR (reg_get insn 0 s1) (sim insn 0)) s1
      in (s2, iss_insn_next insn pc))"

definition ori_exec :: "'x::len word handler" where
  "ori_exec insn pc s =
     (let s1 = on_rf (memcheck_copy (out_regs insn 0) (in_regs insn 0)) s;
          s2 = reg_set insn 0 (lib_OR (reg_get insn 0 s1) (sim insn 0)) s1
      in (s2, iss_insn_next insn pc))"

definition andi_exec :: "'x::len word handler" where
  "andi_exec insn pc s =
     (let s1 = on_rf (memcheck_copy (out_regs insn 0) (in_regs insn 0)) s;
          s2 = reg_set insn 0 (lib_AND (reg_get insn 0 s1) (sim insn 0)) s1
      in (s2, iss_insn_next insn pc))"

definition slli_exec :: "'x::len word handler" where
  "slli_exec insn pc s =
     (let s1 = on_rf (memcheck_shift_left (out_regs insn 0) (in_regs insn 0) (unat (uim insn 0))) s;
          s2 = reg_set insn 0 (lib_SLL (reg_get insn 0 s1) (unat (uim insn 0))) s1
      in (s2, iss_insn_next insn pc))"

definition srli_exec :: "'x::len word handler" where
  "srli_exec insn pc s =
     (let s1 = on_rf (memcheck_shift_right (out_regs insn 0) (in_regs insn 0) (unat (uim insn 0))) s;
          s2 = reg_set insn 0 (lib_SRL (reg_get insn 0 s1) (unat (uim insn 0))) s1
      in (s2, iss_insn_next insn pc))"

definition srai_exec :: "'x::len word handler" where
  "srai_exec insn pc s =
     (let s1 = on_rf (memcheck_shift_right_signed (out_regs insn 0) (in_regs insn 0) (unat (uim insn 0))) s;
          s2 = reg_set insn 0 (lib_SRA (reg_get insn 0 s1) (unat (uim insn 0))) s1
      in (s2, iss_insn_next insn pc))"

section \<open>Register-register instructions\<close>

definition add_exec :: "'x::len word handler" where
  "add_exec insn pc s =
     (let s1 = on_rf (memcheck_merge2 (out_regs insn 0) (in_regs insn 0) (in_regs insn 1)) s;
          s2 = reg_set insn 0 (lib_ADD (reg_get insn 0 s1) (reg_get insn 1 s1)) s1
      in (s2, iss_insn_next insn pc))"

definition sub_exec :: "'x::len word handler" where
  "sub_exec insn pc s =
     (let s1 = on_rf (memcheck_merge2 (out_regs insn 0) (in_regs insn 0) (in_regs insn 1)) s;
          s2 = reg_set insn 0 (lib_SUB (reg_get insn 0 s1) (reg_get insn 1 s1)) s1
      in (s2, iss_insn_next insn pc))"

definition sll_exec :: "'x::len word handler" where
  "sll_exec insn pc s =
     (let s1 = (if \<not> memcheck_get_valid (in_regs insn 1) (cpu_rf s)
                then on_rf (memcheck_set_valid (out_regs insn 0) False) s
                else on_rf (memcheck_shift_left (out_regs insn 0) (in_regs insn 0) (shamt (reg_get insn 1 s))) s);
          s2 = reg_set insn 0 (lib_SLL (reg_get insn 0 s1) (shamt (reg_get insn 1 s1))) s1
      in (s2, iss_insn_next insn pc))"

definition slt_exec :: "'x::len word handler" where
  "slt_exec insn pc s =
     (let s1 = on_rf (memcheck_merge2 (out_regs insn 0) (in_regs insn 0) (in_regs insn 1)) s;
          s2 = reg_set insn 0 (bool_reg (reg_get insn 0 s1 <s reg_get insn 1 s1)) s1
      in (s2, iss_insn_next insn pc))"

definition sltu_exec :: "'x::len word handler" where
  "sltu_exec insn pc s =
     (let s1 = on_rf (memcheck_merge2 (out_regs insn 0) (in_regs insn 0) (in_regs insn 1)) s;
          s2 = reg_set insn 0 (bool_reg (reg_get insn 0 s1 < reg_get insn 1 s1)) s1
      in (s2, iss_insn_next insn pc))"

definition xor_exec :: "'x::len word handler" where
  "xor_exec insn pc s =
     (let s1 = on_rf (memcheck_bitwise_and (out_regs insn 0) (in_regs insn 0) (in_regs insn 1)) s;
          s2 = reg_set insn 0 (lib_XOR (reg_get insn 0 s1) (reg_get insn 1 s1)) s1
      in (s2, iss_insn_next insn pc))"

definition srl_exec :: "'x::len word handler" where
  "srl_exec insn pc s =
     (let s1 = (if \<not> memcheck_get_valid (in_regs insn 1) (cpu_rf s)
                then on_rf (memcheck_set_valid (out_regs insn 0) False) s
                else on_rf (memcheck_shift_right (out_regs insn 0) (in_regs insn 0) (shamt (reg_get insn 1 s))) s);
          s2 = reg_set insn 0 (lib_SRL (reg_get insn 0 s1) (shamt (reg_get insn 1 s1))) s1
      in (s2, iss_insn_next insn pc))"

definition sra_exec :: "'x::len word handler" where
  "sra_exec insn pc s =
     (let s1 = (if \<not> memcheck_get_valid (in_regs insn 1) (cpu_rf s)
                then on_rf (memcheck_set_valid (out_regs insn 0) False) s
                else on_rf (memcheck_shift_right_signed (out_regs insn 0) (in_regs insn 0) (shamt (reg_get insn 1 s))) s);
          s2 = reg_set insn 0 (lib_SRA (reg_get insn 0 s1) (shamt (reg_get insn 1 s1))) s1
      in (s2, iss_insn_next insn pc))"

definition or_exec :: "'x::len word handler" where
  "or_exec insn pc s =
     (let s1 = on_rf (memcheck_bitwise_and (out_regs insn 0) (in_regs insn 0) (in_regs insn 1)) s;
          s2 = reg_set insn 0 (lib_OR (reg_get insn 0 s1) (reg_get insn 1 s1)) s1
      in (s2, iss_insn_next insn pc))"

definition and_exec :: "'x::len word handler" where
  "and_exec insn pc s =
     (let s1 = on_rf (memcheck_bitwise_and (out_regs insn 0) (in_regs insn 0) (in_regs insn 1)) s;
          s2 = reg_set insn 0 (lib_AND (reg_get insn 0 s1) (reg_get insn 1 s1)) s1
      in (s2, iss_insn_next insn pc))"

end
