(* ===== verification/Isa_Rv32m.thy ===== *)
theory Isa_Rv32m
  imports Isa_Rv32i "HOL-Library.Signed_Division"
begin

text \<open>
  The multiplication and division instructions of \<^verbatim>\<open>src/models/cpu/iss/include/isa/rv32m.hpp\<close> (the branches
  compiled without \<^verbatim>\<open>CONFIG_GVSOC_ISS_SNITCH\<close>), and that each computes what the RISC-V manual
  prescribes, the special cases of the division included.

  Products wider than a register are computed as the code does, in the type of twice the
  register width: \<^verbatim>\<open>iss_lsim_t\<close> and \<^verbatim>\<open>iss_luim_t\<close> are \<open>'x bit0 word\<close> for registers of type \<open>'x word\<close>.
\<close>

section \<open>Helpers\<close>

text \<open>
  \<open>__builtin_clz\<close> takes a 32-bit operand and is undefined for \<open>0\<close>.
\<close>

definition builtin_clz :: "'x::len word \<Rightarrow> nat option" where
  "builtin_clz v =
     (let n = (ucast v :: u32) in if n = 0 then None else Some (length (takeWhile (\<lambda>i. \<not> bit n i) (rev [0..<32]))))"

definition lib_MULU :: "u64 \<Rightarrow> u64 \<Rightarrow> u64" where
  "lib_MULU a b = a * b"

text \<open>The number of cycles the signed divisions stall for.\<close>

definition div_cycles :: "'x::len word \<Rightarrow> nat option" where
  "div_cycles divider =
     (if divider = 0 then Some 1
      else if 0 <s divider then map_option (\<lambda>n. n + 3) (builtin_clz divider)
      else map_option (\<lambda>n. n + 2) (builtin_clz (NOT divider + 1)))"

definition divu_cycles :: "'x::len word \<Rightarrow> nat option" where
  "divu_cycles divider = map_option (\<lambda>n. n + 3) (builtin_clz divider)"

section \<open>Multiplications\<close>

definition mul_exec :: "'x::len word handler" where
  "mul_exec insn pc s =
     (let s1 = on_rf (memcheck_merge2 (out_regs insn 0) (in_regs insn 0) (in_regs insn 1)) s;
          s2 = reg_set insn 0 (ucast (lib_MULU (ucast (reg_get insn 0 s1)) (ucast (reg_get insn 1 s1)))) s1
      in (s2, iss_insn_next insn pc))"

definition mulh_exec :: "'x::len word handler" where
  "mulh_exec insn pc s =
     (let s1 = on_rf (memcheck_merge2 (out_regs insn 0) (in_regs insn 0) (in_regs insn 1)) s;
          s2 = reg_set insn 0 (ucast (signed_drop_bit LENGTH('x)
                 (scast (reg_get insn 0 s1) * scast (reg_get insn 1 s1) :: 'x bit0 word))) s1
      in (s2, iss_insn_next insn pc))"

definition mulhsu_exec :: "'x::len word handler" where
  "mulhsu_exec insn pc s =
     (let s1 = on_rf (memcheck_merge2 (out_regs insn 0) (in_regs insn 0) (in_regs insn 1)) s;
          s2 = reg_set insn 0 (ucast (signed_drop_bit LENGTH('x)
                 (scast (reg_get insn 0 s1) * ucast (reg_get insn 1 s1) :: 'x bit0 word))) s1
      in (s2, iss_insn_next insn pc))"

definition mulhu_exec :: "'x::len word handler" where
  "mulhu_exec insn pc s =
     (let s1 = on_rf (memcheck_merge2 (out_regs insn 0) (in_regs insn 0) (in_regs insn 1)) s;
          s2 = reg_set insn 0 (ucast (drop_bit LENGTH('x)
                 (ucast (reg_get insn 0 s1) * ucast (reg_get insn 1 s1) :: 'x bit0 word))) s1
      in (s2, iss_insn_next insn pc))"

section \<open>Divisions\<close>

text \<open>
  The operands are read after the shadow of the destination has been updated. Signed division
  in C++ truncates towards zero: \<open>sdiv\<close> and \<open>smod\<close> on the signed values.
\<close>

definition iss_min :: "'x::len word" where
  "iss_min = push_bit (LENGTH('x) - 1) 1"

definition div_result :: "'x::len word \<Rightarrow> 'x word \<Rightarrow> 'x word" where
  "div_result dividend divider =
     (if divider = 0 then - 1
      else if divider = iss_min \<and> dividend = - 1 then 0
      else if dividend = iss_min \<and> divider = - 1 then iss_min
      else word_of_int (sint dividend sdiv sint divider))"

definition div_exec :: "'x::len word handler" where
  "div_exec insn pc s =
     (let s1 = on_rf (memcheck_merge2 (out_regs insn 0) (in_regs insn 0) (in_regs insn 1)) s;
          divider = reg_get insn 1 s1;
          dividend = reg_get insn 0 s1;
          s2 = reg_set insn 0 (div_result dividend divider) s1;
          s3 = account (Ev_Stall (div_cycles divider)) s2;
          s4 = account (Ev_Div dividend divider True False) s3
      in (s4, iss_insn_next insn pc))"

definition divu_result :: "'x::len word \<Rightarrow> 'x word \<Rightarrow> 'x word" where
  "divu_result dividend divider =
     (if divider = 0 then - 1 else dividend div divider)"

definition divu_exec :: "'x::len word handler" where
  "divu_exec insn pc s =
     (let s1 = on_rf (memcheck_merge2 (out_regs insn 0) (in_regs insn 0) (in_regs insn 1)) s;
          divider = reg_get insn 1 s1;
          dividend = reg_get insn 0 s1;
          s2 = reg_set insn 0 (divu_result dividend divider) s1;
          s3 = account (Ev_Stall (divu_cycles divider)) s2;
          s4 = account (Ev_Div dividend divider False False) s3
      in (s4, iss_insn_next insn pc))"

definition rem_result :: "'x::len word \<Rightarrow> 'x word \<Rightarrow> 'x word" where
  "rem_result dividend divider =
     (if divider = 0 then dividend
      else if divider = iss_min \<and> dividend = - 1 then - 1
      else if dividend = iss_min \<and> divider = - 1 then 0
      else word_of_int (sint dividend smod sint divider))"

definition rem_exec :: "'x::len word handler" where
  "rem_exec insn pc s =
     (let s1 = on_rf (memcheck_merge2 (out_regs insn 0) (in_regs insn 0) (in_regs insn 1)) s;
          divider = reg_get insn 1 s1;
          dividend = reg_get insn 0 s1;
          s2 = reg_set insn 0 (rem_result dividend divider) s1;
          s3 = account (Ev_Stall (div_cycles divider)) s2;
          s4 = account (Ev_Div dividend divider True True) s3
      in (s4, iss_insn_next insn pc))"

definition remu_result :: "'x::len word \<Rightarrow> 'x word \<Rightarrow> 'x word" where
  "remu_result dividend divider =
     (if divider = 0 then dividend else dividend mod divider)"

definition remu_exec :: "'x::len word handler" where
  "remu_exec insn pc s =
     (let s1 = on_rf (memcheck_merge2 (out_regs insn 0) (in_regs insn 0) (in_regs insn 1)) s;
          divider = reg_get insn 1 s1;
          dividend = reg_get insn 0 s1;
          s2 = reg_set insn 0 (remu_result dividend divider) s1;
          s3 = account (Ev_Stall (divu_cycles divider)) s2;
          s4 = account (Ev_Div dividend divider False True) s3
      in (s4, iss_insn_next insn pc))"

section \<open>What the manual prescribes\<close>

text \<open>
  The eight instructions, and their results over the integers: quotients truncate towards
  zero, the quotient of a division by zero has all bits set and its remainder is the dividend,
  and the one quotient that overflows wraps to the dividend.
\<close>

datatype m_op = MUL | MULH | MULHSU | MULHU | DIV | DIVU | REM | REMU

fun m_exec :: "m_op \<Rightarrow> 'x::len word handler" where
  "m_exec MUL = mul_exec"
| "m_exec MULH = mulh_exec"
| "m_exec MULHSU = mulhsu_exec"
| "m_exec MULHU = mulhu_exec"
| "m_exec DIV = div_exec"
| "m_exec DIVU = divu_exec"
| "m_exec REM = rem_exec"
| "m_exec REMU = remu_exec"

definition trunc_quot :: "int \<Rightarrow> int \<Rightarrow> int" where
  "trunc_quot a b = sgn a * sgn b * (\<bar>a\<bar> div \<bar>b\<bar>)"

fun m_spec :: "m_op \<Rightarrow> 'x::len word \<Rightarrow> 'x word \<Rightarrow> 'x word" where
  "m_spec MUL a b = word_of_int (sint a * sint b)"
| "m_spec MULH a b = word_of_int (sint a * sint b div 2 ^ LENGTH('x))"
| "m_spec MULHSU a b = word_of_int (sint a * uint b div 2 ^ LENGTH('x))"
| "m_spec MULHU a b = word_of_int (uint a * uint b div 2 ^ LENGTH('x))"
| "m_spec DIV a b = (if sint b = 0 then - 1 else word_of_int (trunc_quot (sint a) (sint b)))"
| "m_spec DIVU a b = (if uint b = 0 then - 1 else word_of_int (uint a div uint b))"
| "m_spec REM a b =
     (if sint b = 0 then a else word_of_int (sint a - sint b * trunc_quot (sint a) (sint b)))"
| "m_spec REMU a b = (if uint b = 0 then a else word_of_int (uint a mod uint b))"

lemma high_half:
  "ucast (signed_drop_bit LENGTH('x) (word_of_int z :: 'x::len bit0 word))
     = (word_of_int (z div 2 ^ LENGTH('x)) :: 'x word)"
  "ucast (drop_bit LENGTH('x) (word_of_int z :: 'x::len bit0 word))
     = (word_of_int (z div 2 ^ LENGTH('x)) :: 'x word)"
  by (rule bit_word_eqI; simp add: bit_simps bit_word_of_int_iff flip: drop_bit_eq_div)+

lemma mulh_result_spec:
  "ucast (signed_drop_bit LENGTH('x) (scast a * scast b :: 'x::len bit0 word)) = m_spec MULH a (b :: 'x word)"
  "ucast (signed_drop_bit LENGTH('x) (scast a * ucast b :: 'x::len bit0 word)) = m_spec MULHSU a (b :: 'x word)"
  "ucast (drop_bit LENGTH('x) (ucast a * ucast b :: 'x::len bit0 word)) = m_spec MULHU a (b :: 'x word)"
  using high_half(1)[of "sint a * sint b"] high_half(1)[of "sint a * uint b"]
    high_half(2)[of "uint a * uint b"] by simp_all

lemma twice_iss_min: "2 * (2 :: 'x::len word) ^ (LENGTH('x) - 1) = 0"
proof -
  have "2 * (2 :: 'x word) ^ (LENGTH('x) - 1) = 2 ^ LENGTH('x)" by (simp flip: power_Suc)
  then show ?thesis by simp
qed

lemma iss_min_eq: "(iss_min :: 'x::len word) = word_of_int (- (2 ^ (LENGTH('x) - 1)))"
proof -
  have "(2 :: 'x word) ^ (LENGTH('x) - 1) + 2 ^ (LENGTH('x) - 1) = 0"
    using twice_iss_min[where 'x = 'x] by (simp only: mult_2)
  then have "(2 :: 'x word) ^ (LENGTH('x) - 1) = - (2 ^ (LENGTH('x) - 1))"
    by (simp only: eq_neg_iff_add_eq_0)
  then show ?thesis by (simp add: iss_min_def push_bit_eq_mult)
qed

lemma sint_iss_min: "sint (iss_min :: 'x::len word) = - (2 ^ (LENGTH('x) - 1))"
  by (simp add: iss_min_eq sint_sbintrunc' signed_take_bit_int_eq_self del: of_int_minus of_int_power)

lemma minus_iss_min: "word_of_int (- sint (iss_min :: 'x::len word)) = (iss_min :: 'x word)"
  by (simp add: sint_iss_min) (simp add: iss_min_def push_bit_eq_mult)

lemma sint_eq_0: "sint b = 0 \<longleftrightarrow> b = 0"
  by (metis of_int_0 of_int_sint scast_id sint_0)

lemma sdiv_eq_trunc_quot: "a sdiv b = trunc_quot a b"
  by (simp add: trunc_quot_def signed_divide_int_def)

lemma smod_eq_trunc_rem: "a smod b = a - b * trunc_quot a b"
  by (simp add: minus_mult_sdiv_eq_smod flip: sdiv_eq_trunc_quot)

text \<open>The branches of the code that pick out the extreme operands agree with truncation.\<close>

lemma trunc_quot_minus_one: "trunc_quot a (- 1) = - a"
  by (simp add: trunc_quot_def linordered_idom_class.abs_sgn)

lemma trunc_quot_by_min:
  assumes "1 < LENGTH('x::len)"
  shows "trunc_quot (- 1) (sint (iss_min :: 'x word)) = 0"
proof -
  have "(1::int) < 2 ^ (LENGTH('x) - 1)" using assms by simp
  then have "1 div (2::int) ^ (LENGTH('x) - 1) = 0" by (intro div_pos_pos_trivial) simp_all
  then show ?thesis by (simp add: trunc_quot_def sint_iss_min)
qed

lemma div_result_spec:
  assumes "1 < LENGTH('x::len)"
  shows "div_result a (b :: 'x word) = m_spec DIV a b"
  using trunc_quot_by_min[OF assms] minus_iss_min[where 'x = 'x]
  by (auto simp: div_result_def sdiv_eq_trunc_quot trunc_quot_minus_one sint_eq_0)

lemma rem_result_spec:
  assumes "1 < LENGTH('x::len)"
  shows "rem_result a (b :: 'x word) = m_spec REM a b"
  using trunc_quot_by_min[OF assms]
  by (auto simp: rem_result_def smod_eq_trunc_rem trunc_quot_minus_one sint_eq_0)

lemma mul_result_spec:
  assumes "LENGTH('x::len) \<le> 64"
  shows "ucast (lib_MULU (ucast a) (ucast (b :: 'x word))) = m_spec MUL a b"
proof -
  have "ucast (ucast a * ucast b :: u64) = a * b"
    using assms by transfer (simp add: take_bit_mult take_bit_take_bit min_def)
  then show ?thesis by (simp add: lib_MULU_def)
qed

lemmas shadow_defs = memcheck_set_def memcheck_set_valid_def memcheck_merge_def memcheck_merge2_def
  memcheck_copy_def memcheck_bitwise_and_def memcheck_shift_left_def memcheck_shift_right_def
  memcheck_shift_right_signed_def memcheck_branch_reg_def memcheck_access_reg_def

lemmas cpu_defs = on_rf_def account_def reg_set_def reg_get_def get_reg_def set_reg_def

text \<open>
  C9: Every multiplication and division handler writes to its destination, and to no other
  register, what the RISC-V manual prescribes for its operands over the integers (high halves
  of signed, mixed and unsigned products, truncating division, division by zero and the
  overflowing quotient), on the 32- and on the 64-bit build, and goes to the next instruction.
\<close>

theorem m_exec_spec:
  assumes "LENGTH('x::len) = 32 \<or> LENGTH('x) = 64"
  shows "snd (m_exec op insn pc (s :: 'x word cpu)) = iss_insn_next insn pc \<and>
         rf_regs (cpu_rf (fst (m_exec op insn pc s)))
           = (rf_regs (cpu_rf s))(out_regs insn 0 := m_spec op (reg_get insn 0 s) (reg_get insn 1 s))"
proof -
  have l: "1 < LENGTH('x)" "LENGTH('x) \<le> 64" using assms by auto
  have u: "divu_result a b = m_spec DIVU a b" "remu_result a b = m_spec REMU a b" for a b :: "'x word"
    by (simp_all add: divu_result_def remu_result_def word_div_def word_mod_def uint_0_iff)
  show ?thesis
    using div_result_spec[OF l(1)] rem_result_spec[OF l(1)] mul_result_spec[OF l(2)] u
    by (cases op) (simp_all add: cpu_defs shadow_defs mul_exec_def mulh_exec_def mulhsu_exec_def
        mulhu_exec_def div_exec_def divu_exec_def rem_exec_def remu_exec_def Let_def mulh_result_spec)
qed

theorem m_exec_spec_witness:
  "(LENGTH(32) = 32 \<or> LENGTH(32) = 64) \<and>
   rf_regs (cpu_rf (fst (m_exec DIV
     \<lparr>in_regs = (\<lambda>i. 5 + i), out_regs = (\<lambda>_. 7), sim = (\<lambda>_. 0), uim = (\<lambda>_. 0), insn_size = 4,
      nb_in_reg = 2, nb_out_reg = 1, sb_reg_mask = 0, sb_out_reg_mask = 0, sb_in_vreg_mask = 0,
      sb_out_vreg_mask = 0\<rparr> 0x1000
     \<lparr>cpu_rf = \<lparr>rf_regs = (\<lambda>i. if i = 5 then 0x80000000 else - 1), rf_mc = (\<lambda>_. - 1), rf_mc_id = (\<lambda>_. 0),
      rf_fault = None, rf_pending_addr_buffer_id = 0, rf_mc_enabled = True\<rparr>, cpu_events = []\<rparr>))) 7
     = (0x80000000 :: u32)"
  by (subst m_exec_spec[THEN conjunct2]) (simp_all add: cpu_defs trunc_quot_def)

text \<open>
  Dividing by zero without sign asks \<^verbatim>\<open>__builtin_clz\<close> for the leading zeros of \<open>0\<close>, which is
  undefined, where the signed handlers stall for one cycle; on the 64-bit build the operand is
  cut to 32 bits, so that the cycles of a division by any multiple of \<open>2 ^ 32\<close> are undefined too.
\<close>

theorem divu_stall_undefined:
  "cpu_events (fst (m_exec op insn pc (s :: 'x::len word cpu))) =
     cpu_events s @ (case op of
       DIV \<Rightarrow> [Ev_Stall (div_cycles (reg_get insn 1 s)), Ev_Div (reg_get insn 0 s) (reg_get insn 1 s) True False]
     | DIVU \<Rightarrow> [Ev_Stall (divu_cycles (reg_get insn 1 s)), Ev_Div (reg_get insn 0 s) (reg_get insn 1 s) False False]
     | REM \<Rightarrow> [Ev_Stall (div_cycles (reg_get insn 1 s)), Ev_Div (reg_get insn 0 s) (reg_get insn 1 s) True True]
     | REMU \<Rightarrow> [Ev_Stall (divu_cycles (reg_get insn 1 s)), Ev_Div (reg_get insn 0 s) (reg_get insn 1 s) False True]
     | _ \<Rightarrow> []) \<and>
   divu_cycles (0 :: 'x word) = None \<and> div_cycles (0 :: 'x word) = Some 1 \<and>
   div_cycles (0x100000000 :: u64) = None"
  by (cases op) (simp_all add: cpu_defs shadow_defs mul_exec_def mulh_exec_def mulhsu_exec_def
        mulhu_exec_def div_exec_def divu_exec_def rem_exec_def remu_exec_def Let_def
        divu_cycles_def div_cycles_def builtin_clz_def)

end
