(* ===== verification/Isa_Rv32c.thy ===== *)
theory Isa_Rv32c
  imports Isa_Rv32m
begin

text \<open>
  The compressed instructions of \<^verbatim>\<open>src/models/cpu/iss/include/isa/rv32c.hpp\<close> that have no access to memory: each is the
  handler of the instruction it expands to, its fast variant included; the other variant first
  accounts one compressed instruction.
\<close>

section \<open>Handlers\<close>

definition c_addi4spn_exec_fast :: "'x::len word handler" where
  "c_addi4spn_exec_fast insn pc s = addi_exec insn pc s"

definition c_addi4spn_exec :: "'x::len word handler" where
  "c_addi4spn_exec insn pc s = addi_exec insn pc (account (Ev_Rvc 1) s)"

definition c_nop_exec_fast :: "'x::len word handler" where
  "c_nop_exec_fast insn pc s = nop_exec insn pc s"

definition c_nop_exec :: "'x::len word handler" where
  "c_nop_exec insn pc s = nop_exec insn pc (account (Ev_Rvc 1) s)"

definition c_addi_exec_fast :: "'x::len word handler" where
  "c_addi_exec_fast insn pc s = addi_exec insn pc s"

definition c_addi_exec :: "'x::len word handler" where
  "c_addi_exec insn pc s = addi_exec insn pc (account (Ev_Rvc 1) s)"

definition c_jal_exec_fast :: "'x::len word handler" where
  "c_jal_exec_fast insn pc s = jal_exec_fast insn pc s"

definition c_jal_exec :: "'x::len word handler" where
  "c_jal_exec insn pc s = jal_exec insn pc (account (Ev_Rvc 1) s)"

definition c_li_exec_fast :: "'x::len word handler" where
  "c_li_exec_fast insn pc s = addi_exec insn pc s"

definition c_li_exec :: "'x::len word handler" where
  "c_li_exec insn pc s = addi_exec insn pc (account (Ev_Rvc 1) s)"

definition c_addi16sp_exec_fast :: "'x::len word handler" where
  "c_addi16sp_exec_fast insn pc s = addi_exec insn pc s"

definition c_addi16sp_exec :: "'x::len word handler" where
  "c_addi16sp_exec insn pc s = addi_exec insn pc (account (Ev_Rvc 1) s)"

definition c_jalr_exec_fast :: "'x::len word handler" where
  "c_jalr_exec_fast insn pc s = jalr_exec_fast insn pc s"

definition c_jalr_exec :: "'x::len word handler" where
  "c_jalr_exec insn pc s = jalr_exec insn pc (account (Ev_Rvc 1) s)"

definition c_lui_exec_fast :: "'x::len word handler" where
  "c_lui_exec_fast insn pc s = lui_exec insn pc s"

definition c_lui_exec :: "'x::len word handler" where
  "c_lui_exec insn pc s = lui_exec insn pc (account (Ev_Rvc 1) s)"

definition c_srli_exec_fast :: "'x::len word handler" where
  "c_srli_exec_fast insn pc s = srli_exec insn pc s"

definition c_srli_exec :: "'x::len word handler" where
  "c_srli_exec insn pc s = srli_exec insn pc (account (Ev_Rvc 1) s)"

definition c_srai_exec_fast :: "'x::len word handler" where
  "c_srai_exec_fast insn pc s = srai_exec insn pc s"

definition c_srai_exec :: "'x::len word handler" where
  "c_srai_exec insn pc s = srai_exec insn pc (account (Ev_Rvc 1) s)"

definition c_andi_exec_fast :: "'x::len word handler" where
  "c_andi_exec_fast insn pc s = andi_exec insn pc s"

definition c_andi_exec :: "'x::len word handler" where
  "c_andi_exec insn pc s = andi_exec insn pc (account (Ev_Rvc 1) s)"

definition c_sub_exec_fast :: "'x::len word handler" where
  "c_sub_exec_fast insn pc s = sub_exec insn pc s"

definition c_sub_exec :: "'x::len word handler" where
  "c_sub_exec insn pc s = sub_exec insn pc (account (Ev_Rvc 1) s)"

definition c_xor_exec_fast :: "'x::len word handler" where
  "c_xor_exec_fast insn pc s = xor_exec insn pc s"

definition c_xor_exec :: "'x::len word handler" where
  "c_xor_exec insn pc s = xor_exec insn pc (account (Ev_Rvc 1) s)"

definition c_or_exec_fast :: "'x::len word handler" where
  "c_or_exec_fast insn pc s = or_exec insn pc s"

definition c_or_exec :: "'x::len word handler" where
  "c_or_exec insn pc s = or_exec insn pc (account (Ev_Rvc 1) s)"

definition c_and_exec_fast :: "'x::len word handler" where
  "c_and_exec_fast insn pc s = and_exec insn pc s"

definition c_and_exec :: "'x::len word handler" where
  "c_and_exec insn pc s = and_exec insn pc (account (Ev_Rvc 1) s)"

definition c_j_exec_fast :: "'x::len word handler" where
  "c_j_exec_fast insn pc s = jal_exec_fast insn pc s"

definition c_j_exec :: "'x::len word handler" where
  "c_j_exec insn pc s = jal_exec insn pc (account (Ev_Rvc 1) s)"

definition c_beqz_exec_fast :: "'x::len word handler" where
  "c_beqz_exec_fast insn pc s = beq_exec_fast insn pc s"

definition c_beqz_exec :: "'x::len word handler" where
  "c_beqz_exec insn pc s = beq_exec insn pc (account (Ev_Rvc 1) s)"

definition c_bnez_exec_fast :: "'x::len word handler" where
  "c_bnez_exec_fast insn pc s = bne_exec_fast insn pc s"

definition c_bnez_exec :: "'x::len word handler" where
  "c_bnez_exec insn pc s = bne_exec insn pc (account (Ev_Rvc 1) s)"

definition c_slli_exec_fast :: "'x::len word handler" where
  "c_slli_exec_fast insn pc s = slli_exec insn pc s"

definition c_slli_exec :: "'x::len word handler" where
  "c_slli_exec insn pc s = slli_exec insn pc (account (Ev_Rvc 1) s)"

definition c_jr_exec_fast :: "'x::len word handler" where
  "c_jr_exec_fast insn pc s = jalr_exec_fast insn pc s"

definition c_jr_exec :: "'x::len word handler" where
  "c_jr_exec insn pc s = jalr_exec insn pc (account (Ev_Rvc 1) s)"

definition c_mv_exec_fast :: "'x::len word handler" where
  "c_mv_exec_fast insn pc s = add_exec insn pc s"

definition c_mv_exec :: "'x::len word handler" where
  "c_mv_exec insn pc s = add_exec insn pc (account (Ev_Rvc 1) s)"

definition c_add_exec_fast :: "'x::len word handler" where
  "c_add_exec_fast insn pc s = add_exec insn pc s"

definition c_add_exec :: "'x::len word handler" where
  "c_add_exec insn pc s = add_exec insn pc (account (Ev_Rvc 1) s)"

definition c_sbreak_exec :: "'x::len word handler" where
  "c_sbreak_exec insn pc s = (account (Ev_Rvc 1) s, iss_insn_next insn pc)"

section \<open>Expansion\<close>

text \<open>
  The table of expansions: the handler that a compressed instruction stands for, its fast
  handler and its accounting handler.
\<close>

definition rvc_table :: "('x::len word handler \<times> 'x word handler \<times> 'x word handler) list" where
  "rvc_table =
    [(addi_exec, c_addi4spn_exec_fast, c_addi4spn_exec),
     (nop_exec, c_nop_exec_fast, c_nop_exec),
     (addi_exec, c_addi_exec_fast, c_addi_exec),
     (jal_exec, c_jal_exec_fast, c_jal_exec),
     (addi_exec, c_li_exec_fast, c_li_exec),
     (addi_exec, c_addi16sp_exec_fast, c_addi16sp_exec),
     (jalr_exec, c_jalr_exec_fast, c_jalr_exec),
     (lui_exec, c_lui_exec_fast, c_lui_exec),
     (srli_exec, c_srli_exec_fast, c_srli_exec),
     (srai_exec, c_srai_exec_fast, c_srai_exec),
     (andi_exec, c_andi_exec_fast, c_andi_exec),
     (sub_exec, c_sub_exec_fast, c_sub_exec),
     (xor_exec, c_xor_exec_fast, c_xor_exec),
     (or_exec, c_or_exec_fast, c_or_exec),
     (and_exec, c_and_exec_fast, c_and_exec),
     (jal_exec, c_j_exec_fast, c_j_exec),
     (beq_exec, c_beqz_exec_fast, c_beqz_exec),
     (bne_exec, c_bnez_exec_fast, c_bnez_exec),
     (slli_exec, c_slli_exec_fast, c_slli_exec),
     (jalr_exec, c_jr_exec_fast, c_jr_exec),
     (add_exec, c_mv_exec_fast, c_mv_exec),
     (add_exec, c_add_exec_fast, c_add_exec)]"

lemmas rvc_defs = c_addi4spn_exec_def c_addi4spn_exec_fast_def
  c_nop_exec_def c_nop_exec_fast_def
  c_addi_exec_def c_addi_exec_fast_def
  c_jal_exec_def c_jal_exec_fast_def
  c_li_exec_def c_li_exec_fast_def
  c_addi16sp_exec_def c_addi16sp_exec_fast_def
  c_jalr_exec_def c_jalr_exec_fast_def
  c_lui_exec_def c_lui_exec_fast_def
  c_srli_exec_def c_srli_exec_fast_def
  c_srai_exec_def c_srai_exec_fast_def
  c_andi_exec_def c_andi_exec_fast_def
  c_sub_exec_def c_sub_exec_fast_def
  c_xor_exec_def c_xor_exec_fast_def
  c_or_exec_def c_or_exec_fast_def
  c_and_exec_def c_and_exec_fast_def
  c_j_exec_def c_j_exec_fast_def
  c_beqz_exec_def c_beqz_exec_fast_def
  c_bnez_exec_def c_bnez_exec_fast_def
  c_slli_exec_def c_slli_exec_fast_def
  c_jr_exec_def c_jr_exec_fast_def
  c_mv_exec_def c_mv_exec_fast_def
  c_add_exec_def c_add_exec_fast_def

definition rvc :: "'x::len word handler \<Rightarrow> 'x word handler" where
  "rvc h = (\<lambda>insn pc s. h insn pc (account (Ev_Rvc 1) s))"

lemma rvc_fast:
  "c_addi4spn_exec_fast = addi_exec"
  "c_nop_exec_fast = nop_exec"
  "c_addi_exec_fast = addi_exec"
  "c_jal_exec_fast = jal_exec_fast"
  "c_li_exec_fast = addi_exec"
  "c_addi16sp_exec_fast = addi_exec"
  "c_jalr_exec_fast = jalr_exec_fast"
  "c_lui_exec_fast = lui_exec"
  "c_srli_exec_fast = srli_exec"
  "c_srai_exec_fast = srai_exec"
  "c_andi_exec_fast = andi_exec"
  "c_sub_exec_fast = sub_exec"
  "c_xor_exec_fast = xor_exec"
  "c_or_exec_fast = or_exec"
  "c_and_exec_fast = and_exec"
  "c_j_exec_fast = jal_exec_fast"
  "c_beqz_exec_fast = beq_exec_fast"
  "c_bnez_exec_fast = bne_exec_fast"
  "c_slli_exec_fast = slli_exec"
  "c_jr_exec_fast = jalr_exec_fast"
  "c_mv_exec_fast = add_exec"
  "c_add_exec_fast = add_exec"
  by (simp_all add: fun_eq_iff rvc_defs)

lemma rvc_accounting:
  "c_addi4spn_exec = rvc addi_exec"
  "c_nop_exec = rvc nop_exec"
  "c_addi_exec = rvc addi_exec"
  "c_jal_exec = rvc jal_exec"
  "c_li_exec = rvc addi_exec"
  "c_addi16sp_exec = rvc addi_exec"
  "c_jalr_exec = rvc jalr_exec"
  "c_lui_exec = rvc lui_exec"
  "c_srli_exec = rvc srli_exec"
  "c_srai_exec = rvc srai_exec"
  "c_andi_exec = rvc andi_exec"
  "c_sub_exec = rvc sub_exec"
  "c_xor_exec = rvc xor_exec"
  "c_or_exec = rvc or_exec"
  "c_and_exec = rvc and_exec"
  "c_j_exec = rvc jal_exec"
  "c_beqz_exec = rvc beq_exec"
  "c_bnez_exec = rvc bne_exec"
  "c_slli_exec = rvc slli_exec"
  "c_jr_exec = rvc jalr_exec"
  "c_mv_exec = rvc add_exec"
  "c_add_exec = rvc add_exec"
  by (simp_all add: fun_eq_iff rvc_defs rvc_def)

text \<open>The fast handler differs from the expansion only where that has a fast variant itself.\<close>

lemma rvc_table_rows:
  assumes "(b, f, c) \<in> set rvc_table"
  shows "c = rvc b"
    "f = b \<or> b = jal_exec \<and> f = jal_exec_fast \<or> b = jalr_exec \<and> f = jalr_exec_fast \<or>
     b = beq_exec \<and> f = beq_exec_fast \<or> b = bne_exec \<and> f = bne_exec_fast"
  using assms unfolding rvc_table_def rvc_fast rvc_accounting by auto

end
