(* ===== verification/Isa_Memcheck.thy ===== *)
theory Isa_Memcheck
  imports Isa_Rv32c
begin

text \<open>
  What the memcheck shadow of the register file promises: a bit whose shadow bit is set does not
  depend on any uninitialised bit. Two cores that agree on every bit marked valid keep agreeing,
  instruction after instruction, and take the same path until a fault is raised.
\<close>

section \<open>Agreement on the valid bits\<close>

definition same_bits :: "'x::len word \<Rightarrow> 'x word \<Rightarrow> 'x word \<Rightarrow> bool" where
  "same_bits m v w \<longleftrightarrow> (\<forall>i < LENGTH('x). bit m i \<longrightarrow> bit v i = bit w i)"

definition rf_agree :: "'x::len word regfile \<Rightarrow> 'x word regfile \<Rightarrow> bool" where
  "rf_agree rf1 rf2 \<longleftrightarrow>
     rf_mc rf1 = rf_mc rf2 \<and> rf_mc_id rf1 = rf_mc_id rf2 \<and> rf_fault rf1 = rf_fault rf2 \<and>
     rf_mc_enabled rf1 \<and> rf_mc_enabled rf2 \<and>
     (\<forall>r. same_bits (rf_mc rf1 r) (rf_regs rf1 r) (rf_regs rf2 r))"

definition agree :: "'x::len word cpu \<Rightarrow> 'x word cpu \<Rightarrow> bool" where
  "agree s1 s2 \<longleftrightarrow> rf_agree (cpu_rf s1) (cpu_rf s2)"

text \<open>
  A handler respects the shadow when it keeps agreement and either goes the same way on both
  cores or raises a fault.
\<close>

definition respects_shadow :: "'x::len word handler \<Rightarrow> 'x word iss_insn \<Rightarrow> bool" where
  "respects_shadow h insn \<longleftrightarrow>
     (\<forall>pc s1 s2. agree s1 s2 \<longrightarrow>
        agree (fst (h insn pc s1)) (fst (h insn pc s2)) \<and>
        (snd (h insn pc s1) = snd (h insn pc s2) \<or> rf_fault (cpu_rf (fst (h insn pc s1))) \<noteq> None))"

lemma same_bits_full: "same_bits (- 1) v w \<longleftrightarrow> v = w"
  unfolding same_bits_def by (auto intro: bit_word_eqI)

lemma same_bits_none [simp]: "same_bits 0 v w"
  by (simp add: same_bits_def)

lemma same_bits_refl [simp]: "same_bits m v v"
  by (simp add: same_bits_def)

lemma same_bits_valid: "same_bits m v w \<Longrightarrow> m = - 1 \<Longrightarrow> v = w"
  by (simp add: same_bits_full)

lemma same_bits_logic:
  assumes "same_bits m v w" "same_bits n x y"
  shows "same_bits (m AND n) (v AND x) (w AND y)"
    "same_bits (m AND n) (v OR x) (w OR y)"
    "same_bits (m AND n) (v XOR x) (w XOR y)"
  using assms by (auto simp: same_bits_def bit_simps)

lemma same_bits_const:
  assumes "same_bits m v w"
  shows "same_bits m (v AND c) (w AND c)" "same_bits m (v OR c) (w OR c)" "same_bits m (v XOR c) (w XOR c)"
  using assms by (auto simp: same_bits_def bit_simps)

lemma low_mask: "push_bit sh 1 - 1 = (mask sh :: 'x::len word)"
  by (simp add: mask_eq_exp_minus_1 push_bit_eq_mult)

lemma bit_high_mask: "bit (high_mask sh :: 'x::len word) i \<longleftrightarrow> i < LENGTH('x) \<and> LENGTH('x) - sh \<le> i"
  unfolding high_mask_def low_mask by (auto simp: bit_simps)

text \<open>The masks that the three shift operations of the shadow compute.\<close>

definition left_mask :: "nat \<Rightarrow> 'x::len word \<Rightarrow> 'x word" where
  "left_mask sh m = push_bit sh m OR (push_bit sh 1 - 1)"

definition right_mask :: "nat \<Rightarrow> 'x::len word \<Rightarrow> 'x word" where
  "right_mask sh m = drop_bit sh m OR high_mask sh"

definition right_signed_mask :: "nat \<Rightarrow> 'x::len word \<Rightarrow> 'x word" where
  "right_signed_mask sh m =
     (if bit m (LENGTH('x) - 1) then drop_bit sh m OR high_mask sh else drop_bit sh m)"

lemma same_bits_shifts:
  assumes "same_bits m v w"
  shows "same_bits (left_mask sh m) (push_bit sh v) (push_bit sh w)"
    "same_bits (right_mask sh m) (drop_bit sh v) (drop_bit sh w)"
    "same_bits (right_signed_mask sh m) (signed_drop_bit sh v) (signed_drop_bit sh w)"
proof -
  note d = assms[unfolded same_bits_def, rule_format]
  show "same_bits (left_mask sh m) (push_bit sh v) (push_bit sh w)"
    unfolding left_mask_def low_mask by (auto simp: same_bits_def bit_simps d)
  show "same_bits (right_mask sh m) (drop_bit sh v) (drop_bit sh w)"
    using d by (auto simp: right_mask_def same_bits_def bit_simps bit_high_mask dest: bit_imp_le_length)
  show "same_bits (right_signed_mask sh m) (signed_drop_bit sh v) (signed_drop_bit sh w)"
    using d by (auto simp: right_signed_mask_def same_bits_def bit_simps bit_high_mask dest: bit_imp_le_length)
qed

section \<open>Updates of one register and its shadow\<close>

text \<open>Every shadow operation writes the mask and the identifier of the destination only.\<close>

definition shadow_upd :: "nat \<Rightarrow> 'x word \<Rightarrow> u32 \<Rightarrow> 'x::len word regfile \<Rightarrow> 'x word regfile" where
  "shadow_upd r m i rf = rf\<lparr>rf_mc := (rf_mc rf)(r := m), rf_mc_id := (rf_mc_id rf)(r := i)\<rparr>"

lemma shadow_upd_memcheck:
  "memcheck_set r v rf = shadow_upd r v 0 rf"
  "memcheck_set_valid r b rf = shadow_upd r (if b then - 1 else 0) 0 rf"
  "memcheck_merge r a rf = shadow_upd r (if memcheck_get_valid a rf then - 1 else 0) (rf_mc_id rf a) rf"
  "memcheck_merge2 r a c rf =
     shadow_upd r (if memcheck_get_valid a rf \<and> memcheck_get_valid c rf then - 1 else 0) (memcheck_id_combine a c rf) rf"
  "memcheck_copy r a rf = shadow_upd r (rf_mc rf a) (rf_mc_id rf a) rf"
  "memcheck_bitwise_and r a c rf = shadow_upd r (rf_mc rf a AND rf_mc rf c) (memcheck_id_combine a c rf) rf"
  "memcheck_shift_left r a sh rf = shadow_upd r (left_mask sh (rf_mc rf a)) 0 rf"
  "memcheck_shift_right r a sh rf = shadow_upd r (right_mask sh (rf_mc rf a)) 0 rf"
  "memcheck_shift_right_signed r a sh rf = shadow_upd r (right_signed_mask sh (rf_mc rf a)) 0 rf"
  by (simp_all add: shadow_defs shadow_upd_def memcheck_id_combine_def left_mask_def right_mask_def
      right_signed_mask_def Let_def)

lemma agree_id_combine:
  "rf_agree rf1 rf2 \<Longrightarrow> memcheck_id_combine a c rf1 = memcheck_id_combine a c rf2"
  "rf_agree rf1 rf2 \<Longrightarrow> memcheck_get_valid a rf1 = memcheck_get_valid a rf2"
  by (simp_all add: rf_agree_def memcheck_id_combine_def memcheck_get_valid_def)

lemma agree_valid:
  "rf_agree rf1 rf2 \<Longrightarrow> memcheck_get_valid a rf1 \<Longrightarrow> rf_regs rf1 a = rf_regs rf2 a"
  unfolding rf_agree_def memcheck_get_valid_def by (metis same_bits_full)

lemma agree_bits: "rf_agree rf1 rf2 \<Longrightarrow> same_bits (rf_mc rf2 a) (rf_regs rf1 a) (rf_regs rf2 a)"
  unfolding rf_agree_def by metis

lemma agree_mc: "rf_agree rf1 rf2 \<Longrightarrow> rf_mc rf1 = rf_mc rf2 \<and> rf_mc_id rf1 = rf_mc_id rf2"
  by (simp add: rf_agree_def)

lemma agree_write:
  assumes "rf_agree rf1 rf2" "m1 = m2" "i1 = i2" "same_bits m2 v w"
  shows "rf_agree (set_reg r v (shadow_upd r m1 i1 rf1)) (set_reg r w (shadow_upd r m2 i2 rf2))"
  using assms by (auto simp: rf_agree_def set_reg_def shadow_upd_def)

lemma cpu_rf_updates [simp]:
  "cpu_rf (on_rf f s) = f (cpu_rf s)" "cpu_rf (account e s) = cpu_rf s"
  "cpu_rf (reg_set insn k v s) = set_reg (out_regs insn k) v (cpu_rf s)"
  "rf_regs (shadow_upd r m i rf) = rf_regs rf" "rf_fault (shadow_upd r m i rf) = rf_fault rf"
  "rf_fault (set_reg r v rf) = rf_fault rf"
  by (simp_all add: cpu_defs shadow_upd_def)

lemmas alu_defs = lui_exec_def auipc_exec_def addi_exec_def nop_exec_def slti_exec_def sltiu_exec_def xori_exec_def
  ori_exec_def andi_exec_def slli_exec_def srli_exec_def srai_exec_def add_exec_def sub_exec_def
  sll_exec_def slt_exec_def sltu_exec_def xor_exec_def srl_exec_def sra_exec_def or_exec_def and_exec_def
  mul_exec_def mulh_exec_def mulhsu_exec_def mulhu_exec_def div_exec_def divu_exec_def rem_exec_def remu_exec_def
  lib_XOR_def lib_OR_def lib_AND_def lib_SLL_def lib_SRL_def lib_SRA_def

section \<open>Instructions\<close>

lemma respects_pure:
  fixes h :: "'x::len word handler"
  assumes "\<And>pc s1 s2. rf_agree (cpu_rf s1) (cpu_rf s2) \<Longrightarrow>
     rf_agree (cpu_rf (fst (h insn pc s1))) (cpu_rf (fst (h insn pc s2))) \<and>
     snd (h insn pc s1) = snd (h insn pc s2)"
  shows "respects_shadow h insn"
  using assms by (simp add: respects_shadow_def agree_def)

lemma respects_const: "respects_shadow h insn" if "h \<in> {lui_exec, auipc_exec, nop_exec}"
proof (rule respects_pure, goal_cases)
  case (1 pc s1 s2)
  then show ?case using that by (auto simp: alu_defs Let_def shadow_upd_memcheck reg_get_def intro!: agree_write)
qed

lemma agree_merge:
  assumes "rf_agree rf1 rf2"
  shows "rf_agree (set_reg r (f (rf_regs rf1 a)) (memcheck_merge r a rf1))
                  (set_reg r (f (rf_regs rf2 a)) (memcheck_merge r a rf2))"
  using agree_valid[OF assms, of a] agree_mc[OF assms] agree_id_combine(2)[OF assms, of a] unfolding shadow_upd_memcheck
  by (intro agree_write[OF assms]) auto

lemma agree_merge2:
  assumes "rf_agree rf1 rf2"
  shows "rf_agree (set_reg r (f (rf_regs rf1 a) (rf_regs rf1 b)) (memcheck_merge2 r a b rf1))
                  (set_reg r (f (rf_regs rf2 a) (rf_regs rf2 b)) (memcheck_merge2 r a b rf2))"
  using agree_valid[OF assms, of a] agree_valid[OF assms, of b] agree_id_combine[OF assms] unfolding shadow_upd_memcheck
  by (intro agree_write[OF assms]) auto

lemma regs_merge [simp]: "rf_regs (memcheck_merge r a rf) = rf_regs rf" "rf_regs (memcheck_merge2 r a b rf) = rf_regs rf"
  by (simp_all add: shadow_upd_memcheck)

lemma respects_merge:
  assumes "h \<in> {addi_exec, slti_exec, sltiu_exec}"
  shows "respects_shadow h insn"
proof -
  note m = agree_merge[of _ _ "out_regs insn 0" _ "in_regs insn 0"]
  have "respects_shadow addi_exec insn"
    by (rule respects_pure) (simp add: addi_exec_def Let_def reg_get_def get_reg_def m[of _ _ "\<lambda>v. lib_ADD v c" for c])
  moreover have "respects_shadow slti_exec insn"
    by (rule respects_pure) (simp add: slti_exec_def Let_def reg_get_def get_reg_def m[of _ _ "\<lambda>v. bool_reg (v <s c)" for c])
  moreover have "respects_shadow sltiu_exec insn"
    by (rule respects_pure) (simp add: sltiu_exec_def Let_def reg_get_def get_reg_def m[of _ _ "\<lambda>v. bool_reg (v < c)" for c])
  ultimately show ?thesis using assms by blast
qed

text \<open>Instructions of two operands whose result is valid only if both are.\<close>

lemma respects_by_merge2:
  fixes h :: "'x::len word handler"
  assumes "\<And>pc s. cpu_rf (fst (h insn pc s)) =
      set_reg (out_regs insn 0) (f (rf_regs (cpu_rf s) (in_regs insn 0)) (rf_regs (cpu_rf s) (in_regs insn 1)))
        (memcheck_merge2 (out_regs insn 0) (in_regs insn 0) (in_regs insn 1) (cpu_rf s))"
    and "\<And>pc s. snd (h insn pc s) = iss_insn_next insn pc"
  shows "respects_shadow h insn"
  by (rule respects_pure) (simp add: assms agree_merge2)

lemma respects_merge2:
  fixes h :: "'x::len word handler"
  assumes "h \<in> {add_exec, sub_exec, slt_exec, sltu_exec, mul_exec, mulh_exec, mulhsu_exec, mulhu_exec,
                div_exec, divu_exec, rem_exec, remu_exec}"
  shows "respects_shadow h insn"
proof -
  note s = alu_defs Let_def reg_get_def get_reg_def
  have "respects_shadow add_exec insn"
    by (rule respects_by_merge2[of _ _ lib_ADD]) (simp_all add: s)
  moreover have "respects_shadow sub_exec insn"
    by (rule respects_by_merge2[of _ _ lib_SUB]) (simp_all add: s)
  moreover have "respects_shadow slt_exec insn"
    by (rule respects_by_merge2[of _ _ "\<lambda>a b. bool_reg (a <s b)"]) (simp_all add: s)
  moreover have "respects_shadow sltu_exec insn"
    by (rule respects_by_merge2[of _ _ "\<lambda>a b. bool_reg (a < b)"]) (simp_all add: s)
  moreover have "respects_shadow mul_exec insn"
    by (rule respects_by_merge2[of _ _ "\<lambda>a b. ucast (lib_MULU (ucast a) (ucast b))"]) (simp_all add: s)
  moreover have "respects_shadow mulh_exec insn"
    by (rule respects_by_merge2[of _ _ "m_spec MULH"]) (simp_all add: s mulh_result_spec)
  moreover have "respects_shadow mulhsu_exec insn"
    by (rule respects_by_merge2[of _ _ "m_spec MULHSU"]) (simp_all add: s mulh_result_spec)
  moreover have "respects_shadow mulhu_exec insn"
    by (rule respects_by_merge2[of _ _ "m_spec MULHU"]) (simp_all add: s mulh_result_spec)
  moreover have "respects_shadow div_exec insn"
    by (rule respects_by_merge2[of _ _ div_result]) (simp_all add: s)
  moreover have "respects_shadow divu_exec insn"
    by (rule respects_by_merge2[of _ _ divu_result]) (simp_all add: s)
  moreover have "respects_shadow rem_exec insn"
    by (rule respects_by_merge2[of _ _ rem_result]) (simp_all add: s)
  moreover have "respects_shadow remu_exec insn"
    by (rule respects_by_merge2[of _ _ remu_result]) (simp_all add: s)
  ultimately show ?thesis using assms by blast
qed

lemma respects_logic:
  "respects_shadow h insn"
  if "h \<in> {xori_exec, ori_exec, andi_exec, xor_exec, or_exec, and_exec}"
proof (rule respects_pure, goal_cases)
  case (1 pc s1 s2)
  then show ?case using that agree_id_combine(1)[OF 1] agree_mc[OF 1]
    by (auto simp: alu_defs Let_def shadow_upd_memcheck reg_get_def get_reg_def
        intro!: agree_write same_bits_logic same_bits_const agree_bits)
qed

lemma respects_shift_imm:
  "respects_shadow h insn" if "h \<in> {slli_exec, srli_exec, srai_exec}"
proof (rule respects_pure, goal_cases)
  case (1 pc s1 s2)
  then show ?case using that agree_mc[OF 1]
    by (auto simp: alu_defs Let_def shadow_upd_memcheck reg_get_def get_reg_def
        intro!: agree_write same_bits_shifts agree_bits)
qed

lemma respects_shift_reg:
  "respects_shadow h insn" if "h \<in> {sll_exec, srl_exec, sra_exec}"
proof (rule respects_pure, goal_cases)
  case (1 pc s1 s2)
  then show ?case using that agree_id_combine(2)[OF 1] agree_mc[OF 1] agree_valid[OF 1, of "in_regs insn 1"]
    by (auto simp: alu_defs Let_def shadow_upd_memcheck reg_get_def get_reg_def
        intro!: agree_write same_bits_shifts agree_bits)
qed

text \<open>Branches and jumps.\<close>

lemma regs_branch_reg [simp]: "rf_regs (memcheck_branch_reg r rf) = rf_regs rf"
  by (simp add: memcheck_branch_reg_def)

lemma agree_branch_reg:
  assumes "rf_agree rf1 rf2"
  shows "rf_agree (memcheck_branch_reg r rf1) (memcheck_branch_reg r rf2)"
    "rf_fault (memcheck_branch_reg r rf1) = None \<Longrightarrow> rf_fault rf1 = None \<and> rf_regs rf1 r = rf_regs rf2 r"
  using assms agree_valid[OF assms, of r]
  by (auto simp: memcheck_branch_reg_def memcheck_reg_def rf_agree_def memcheck_get_valid_def split: if_splits)

lemmas branch_defs = beq_exec_common_def bne_exec_common_def blt_exec_common_def bge_exec_common_def
  bltu_exec_common_def bgeu_exec_common_def branch_common_def

lemma respects_branch:
  fixes insn :: "'x::len word iss_insn"
  assumes "h \<in> {beq_exec_common p, bne_exec_common p, blt_exec_common p, bge_exec_common p, bltu_exec_common p, bgeu_exec_common p}"
  shows "respects_shadow h insn"
  unfolding respects_shadow_def agree_def
proof (intro allI impI, goal_cases)
  case (1 pc s1 s2)
  let ?b = "\<lambda>s. memcheck_branch_reg (in_regs insn 1) (memcheck_branch_reg (in_regs insn 0) (cpu_rf s))"
  note a0 = agree_branch_reg[OF 1, of "in_regs insn 0"]
  note a1 = agree_branch_reg[OF a0(1), of "in_regs insn 1"]
  have eq: "cpu_rf (fst (h insn pc s)) = ?b s" for s :: "'x word cpu"
    using assms by (auto simp: branch_defs Let_def)
  have "snd (h insn pc s1) = snd (h insn pc s2)" if "rf_fault (?b s1) = None"
    using that assms a0(2) a1(2) by (auto simp: branch_defs Let_def reg_get_def get_reg_def)
  then show ?case using a1(1) unfolding eq by blast
qed

lemma agree_jump:
  "rf_agree rf1 rf2 \<Longrightarrow> rf_agree (set_reg r v (shadow_upd r (- 1) 0 rf1)) (set_reg r v (shadow_upd r (- 1) 0 rf2))"
  by (rule agree_write) simp_all

lemma respects_jal:
  assumes "out_regs insn 0 \<noteq> 0"
  shows "respects_shadow (jal_exec_common p) insn"
  using assms by (intro respects_pure) (simp add: jal_exec_common_def Let_def shadow_upd_memcheck agree_jump)

text \<open>
  An indirect jump respects the shadow when it does not overwrite its own base register: the
  mask of the destination is set before the base register is checked.
\<close>

lemma respects_jalr:
  fixes insn :: "'x::len word iss_insn"
  assumes d: "out_regs insn 0 \<noteq> 0" "out_regs insn 0 \<noteq> in_regs insn 0"
  shows "respects_shadow (jalr_exec_common p) insn"
  unfolding respects_shadow_def agree_def
proof (intro allI impI, goal_cases)
  case (1 pc s1 s2)
  let ?rd = "out_regs insn 0" and ?rs = "in_regs insn 0" and ?n = "iss_insn_next insn pc"
  have comm: "memcheck_branch_reg ?rs (shadow_upd ?rd m i rf) = shadow_upd ?rd m i (memcheck_branch_reg ?rs rf)"
    for m i and rf :: "'x word regfile"
    using d by (simp add: memcheck_branch_reg_def memcheck_reg_def shadow_upd_def)
  have rf: "cpu_rf (fst (jalr_exec_common p insn pc s)) =
      set_reg ?rd ?n (shadow_upd ?rd (- 1) 0 (memcheck_branch_reg ?rs (cpu_rf s)))" for s :: "'x word cpu"
    using d by (simp add: jalr_exec_common_def Let_def shadow_upd_memcheck comm)
  have pc: "snd (jalr_exec_common p insn pc s) = (sim insn 0 + rf_regs (cpu_rf s) ?rs) AND NOT 1" for s :: "'x word cpu"
    by (simp add: jalr_exec_common_def Let_def shadow_upd_memcheck reg_get_def get_reg_def)
  note a = agree_branch_reg[OF 1, of ?rs]
  have f: "rf_fault (set_reg ?rd ?n (shadow_upd ?rd (- 1) 0 rf)) = rf_fault rf" for rf :: "'x word regfile"
    by simp
  show ?case unfolding rf pc f using agree_jump[OF a(1)] a(2) by metis
qed

section \<open>Programs\<close>

text \<open>
  A program gives the decoded instruction and its handler at each address. A run stops where
  there is none, or as soon as a fault is raised, which is where the execution loop calls
  \<^verbatim>\<open>memcheck_fault\<close>.
\<close>

type_synonym 'w program = "'w \<Rightarrow> ('w handler \<times> 'w iss_insn) option"

fun run :: "nat \<Rightarrow> 'x::len word program \<Rightarrow> 'x word cpu \<times> 'x word \<Rightarrow> 'x word cpu \<times> 'x word" where
  "run 0 prog (s, pc) = (s, pc)"
| "run (Suc n) prog (s, pc) =
     (if rf_fault (cpu_rf s) \<noteq> None then (s, pc)
      else case prog pc of None \<Rightarrow> (s, pc) | Some (h, insn) \<Rightarrow> run n prog (h insn pc s))"

lemma run_faulted: "rf_fault (cpu_rf s) \<noteq> None \<Longrightarrow> run n prog (s, pc) = (s, pc)"
  by (cases n) simp_all

text \<open>
  What an instruction set has to promise the execution loop: each of its decoded instructions
  respects the shadow.
\<close>

locale checked_isa =
  fixes supported :: "'x::len word handler \<Rightarrow> 'x word iss_insn \<Rightarrow> bool"
  assumes supported_respects: "supported h insn \<Longrightarrow> respects_shadow h insn"
begin

lemma run_agree:
  assumes "\<And>a h insn. prog a = Some (h, insn) \<Longrightarrow> supported h insn"
    and "agree s1 s2" "rf_fault (cpu_rf (fst (run n prog (s1, pc)))) = None"
  shows "agree (fst (run n prog (s1, pc))) (fst (run n prog (s2, pc))) \<and>
         snd (run n prog (s1, pc)) = snd (run n prog (s2, pc))"
  using assms(2,3)
proof (induction n arbitrary: s1 s2 pc)
  case 0
  then show ?case by simp
next
  case (Suc n)
  have f: "rf_fault (cpu_rf s1) = rf_fault (cpu_rf s2)"
    using Suc.prems(1) by (simp add: agree_def rf_agree_def)
  show ?case
  proof (cases "rf_fault (cpu_rf s1) = None \<and> prog pc \<noteq> None")
    case False
    then show ?thesis using Suc.prems f by (auto split: option.split)
  next
    case True
    then obtain h insn where p: "prog pc = Some (h, insn)" by auto
    obtain t1 pc1 t2 pc2 where h: "h insn pc s1 = (t1, pc1)" "h insn pc s2 = (t2, pc2)"
      by (metis surj_pair)
    have st: "agree t1 t2" "pc1 = pc2 \<or> rf_fault (cpu_rf t1) \<noteq> None"
      using supported_respects[OF assms(1)[OF p]] Suc.prems(1) h unfolding respects_shadow_def
      by (metis fst_conv snd_conv)+
    have r: "run (Suc n) prog (s1, pc) = run n prog (t1, pc1)" "run (Suc n) prog (s2, pc) = run n prog (t2, pc2)"
      using True p h f by simp_all
    have "rf_fault (cpu_rf t1) = None"
      using Suc.prems(2) run_faulted[of t1 n prog pc1] unfolding r by (cases "rf_fault (cpu_rf t1)") simp_all
    then have "pc1 = pc2" using st(2) by simp
    then show ?thesis using Suc.IH[OF st(1)] Suc.prems(2) unfolding r by simp
  qed
qed

end

section \<open>The integer, multiplication and compressed instructions\<close>

definition alu_handlers :: "'x::len word handler list" where
  "alu_handlers =
    [lui_exec, auipc_exec, nop_exec, addi_exec, slti_exec, sltiu_exec, xori_exec, ori_exec, andi_exec,
     slli_exec, srli_exec, srai_exec, add_exec, sub_exec, sll_exec, slt_exec, sltu_exec, xor_exec,
     srl_exec, sra_exec, or_exec, and_exec, mul_exec, mulh_exec, mulhsu_exec, mulhu_exec,
     div_exec, divu_exec, rem_exec, remu_exec, c_sbreak_exec]"

definition branch_handlers :: "'x::len word handler list" where
  "branch_handlers =
    [beq_exec, beq_exec_fast, bne_exec, bne_exec_fast, blt_exec, blt_exec_fast, bge_exec, bge_exec_fast,
     bltu_exec, bltu_exec_fast, bgeu_exec, bgeu_exec_fast, jal_exec, jal_exec_fast]"

text \<open>
  The instructions covered: a decoded instruction never has register \<open>0\<close> as destination, and an
  indirect jump must not link into its own base register.
\<close>

definition base_supported :: "'x::len word handler \<Rightarrow> 'x word iss_insn \<Rightarrow> bool" where
  "base_supported h insn \<longleftrightarrow> out_regs insn 0 \<noteq> 0 \<and>
     (h \<in> set alu_handlers \<or> h \<in> set branch_handlers \<or>
      (h = jalr_exec \<or> h = jalr_exec_fast) \<and> out_regs insn 0 \<noteq> in_regs insn 0)"

definition rv_supported :: "'x::len word handler \<Rightarrow> 'x word iss_insn \<Rightarrow> bool" where
  "rv_supported h insn \<longleftrightarrow> base_supported h insn \<or>
     (\<exists>b f c. (b, f, c) \<in> set rvc_table \<and> (h = f \<or> h = c) \<and> base_supported b insn)"

lemma respects_account:
  fixes h :: "'x::len word handler"
  assumes "respects_shadow h insn"
  shows "respects_shadow (\<lambda>insn pc s. h insn pc (account e s)) insn"
  using assms by (simp add: respects_shadow_def agree_def)

lemma respects_sbreak: "respects_shadow c_sbreak_exec insn"
  by (rule respects_pure) (simp add: c_sbreak_exec_def)

lemma alu_respects: "respects_shadow h insn" if "h \<in> set alu_handlers"
proof -
  have "set alu_handlers \<subseteq> {lui_exec, auipc_exec, nop_exec} \<union> {addi_exec, slti_exec, sltiu_exec}
    \<union> {add_exec, sub_exec, slt_exec, sltu_exec, mul_exec, mulh_exec, mulhsu_exec, mulhu_exec,
       div_exec, divu_exec, rem_exec, remu_exec}
    \<union> {xori_exec, ori_exec, andi_exec, xor_exec, or_exec, and_exec} \<union> {slli_exec, srli_exec, srai_exec}
    \<union> {sll_exec, srl_exec, sra_exec} \<union> {c_sbreak_exec}"
    by (simp add: alu_handlers_def)
  with that show ?thesis
    using respects_const[of h insn] respects_merge[of h insn] respects_merge2[of h insn] respects_logic[of h insn]
      respects_shift_imm[of h insn] respects_shift_reg[of h insn] respects_sbreak[of insn] by blast
qed

lemma branch_respects: "respects_shadow h insn" if "h \<in> set branch_handlers" "out_regs insn 0 \<noteq> 0"
proof -
  let ?B = "\<lambda>p. {beq_exec_common p, bne_exec_common p, blt_exec_common p, bge_exec_common p,
                  bltu_exec_common p, bgeu_exec_common p}"
  have "set branch_handlers \<subseteq> ?B True \<union> ?B False \<union> {jal_exec_common True, jal_exec_common False}"
    by (simp add: branch_handlers_def beq_exec_def beq_exec_fast_def bne_exec_def bne_exec_fast_def
        blt_exec_def blt_exec_fast_def bge_exec_def bge_exec_fast_def bltu_exec_def bltu_exec_fast_def
        bgeu_exec_def bgeu_exec_fast_def jal_exec_def jal_exec_fast_def)
  with that show ?thesis
    using respects_branch[of h True insn] respects_branch[of h False insn] respects_jal[of insn] by blast
qed

lemma base_supported_respects: "base_supported h insn \<Longrightarrow> respects_shadow h insn"
  using alu_respects branch_respects respects_jalr[of insn]
  unfolding base_supported_def jalr_exec_def jalr_exec_fast_def by blast

lemma rv_supported_respects:
  assumes s: "rv_supported h insn"
  shows "respects_shadow h insn"
proof (cases "base_supported h insn")
  case False
  then obtain b f c where t: "(b, f, c) \<in> set rvc_table" "h = f \<or> h = c" and b: "base_supported b insn"
    using s unfolding rv_supported_def by blast
  have "jalr_exec_fast = jalr_exec"
    by (simp add: jalr_exec_fast_def jalr_exec_def fun_eq_iff jalr_exec_common_def)
  then have "base_supported f insn"
    using b rvc_table_rows(2)[OF t(1)] by (auto simp: base_supported_def branch_handlers_def)
  moreover have "respects_shadow c insn"
    using respects_account[OF base_supported_respects[OF b]] rvc_table_rows(1)[OF t(1)] by (simp add: rvc_def)
  ultimately show ?thesis using t(2) base_supported_respects by blast
qed (rule base_supported_respects)

interpretation rv: checked_isa rv_supported
  by unfold_locales (rule rv_supported_respects)


text \<open>
  The example program adds an uninitialised register into another one, and branches on two
  initialised ones.
\<close>

definition ex_insn :: "nat \<Rightarrow> nat \<Rightarrow> nat \<Rightarrow> u32 iss_insn" where
  "ex_insn rd rs1 rs2 =
     \<lparr>in_regs = (\<lambda>i. if i = 0 then rs1 else rs2), out_regs = (\<lambda>_. rd), sim = (\<lambda>_. 16), uim = (\<lambda>_. 0),
      insn_size = 4, nb_in_reg = 2, nb_out_reg = 1, sb_reg_mask = 0, sb_out_reg_mask = 0,
      sb_in_vreg_mask = 0, sb_out_vreg_mask = 0\<rparr>"

definition ex_prog :: "u32 program" where
  "ex_prog a = (if a = 0 then Some (add_exec, ex_insn 7 8 5)
                else if a = 4 then Some (beq_exec, ex_insn 64 5 6) else None)"

definition ex_cpu :: "u32 \<Rightarrow> u32 cpu" where
  "ex_cpu v =
     \<lparr>cpu_rf = \<lparr>rf_regs = (\<lambda>r. if r = 8 then v else 3), rf_mc = (\<lambda>r. if r = 8 then 0 else - 1),
        rf_mc_id = (\<lambda>_. 0), rf_fault = None, rf_pending_addr_buffer_id = 0, rf_mc_enabled = True\<rparr>,
      cpu_events = []\<rparr>"

lemma ex_supported: "ex_prog a = Some (h, insn) \<Longrightarrow> rv_supported h insn"
  by (auto simp: ex_prog_def ex_insn_def rv_supported_def base_supported_def alu_handlers_def
      branch_handlers_def split: if_splits)

lemma ex_agree: "agree (ex_cpu v) (ex_cpu w)"
  by (simp add: agree_def rf_agree_def ex_cpu_def)

lemma ex_run: "rf_fault (cpu_rf (fst (run 2 ex_prog (ex_cpu 1, 0)))) = None \<and> snd (run 2 ex_prog (ex_cpu 1, 0)) = 20"
  unfolding numeral_2_eq_2 run.simps
  by (simp add: ex_prog_def ex_insn_def ex_cpu_def add_exec_def beq_exec_def branch_defs Let_def
      cpu_defs shadow_defs memcheck_get_valid_def memcheck_reg_def memcheck_id_combine_def iss_insn_next_def)


text \<open>
  An indirect jump that links into its base register (\<^verbatim>\<open>jalr ra, ra\<close>, or \<^verbatim>\<open>c.jalr ra\<close>) marks that register
  valid before it checks it, so that a jump to an uninitialised address raises no fault: two cores
  that agree on all the bits marked valid go to different addresses.
\<close>

theorem jalr_link_unchecked:
  "agree (ex_cpu v) (ex_cpu w) \<and>
   rf_fault (cpu_rf (fst (jalr_exec (ex_insn 8 8 0) pc (ex_cpu v)))) = None \<and>
   snd (jalr_exec (ex_insn 8 8 0) pc (ex_cpu v)) = (16 + v) AND NOT 1"
  by (simp add: ex_agree) (simp add: ex_cpu_def ex_insn_def jalr_exec_def jalr_exec_common_def Let_def cpu_defs shadow_defs
      memcheck_reg_def)

end
