(* ===== verification/Isa_Rv64.thy ===== *)
theory Isa_Rv64
  imports Isa_Memcheck
begin

text \<open>
  The 32-bit operations of the 64-bit build, \<^verbatim>\<open>src/models/cpu/iss/include/isa/rv64i.hpp\<close> and \<^verbatim>\<open>rv64m.hpp\<close> with the compressed forms of
  \<^verbatim>\<open>rv64c.hpp\<close> that have no access to memory. Each is shown to compute the sign extension of the 32-bit
  operation on the low halves; none of them updates the memcheck shadow.
\<close>

section \<open>Library functions\<close>

definition lib_SLLW :: "u64 \<Rightarrow> nat \<Rightarrow> u64" where
  "lib_SLLW a b = scast (int_get_signed_value (push_bit b a) 32)"

definition lib_SRLW :: "u64 \<Rightarrow> nat \<Rightarrow> u64" where
  "lib_SRLW a b = scast (int_get_signed_value (ucast (drop_bit b (ucast a :: u32)) :: u64) 32)"

definition lib_SRAW :: "u64 \<Rightarrow> nat \<Rightarrow> u64" where
  "lib_SRAW a b = scast (int_get_signed_value (scast (signed_drop_bit b (ucast a :: u32)) :: u64) 32)"

definition lib_ADDW :: "u64 \<Rightarrow> u64 \<Rightarrow> u64" where
  "lib_ADDW a b = scast (int_get_signed_value (a + b) 32)"

definition lib_SUBW :: "u64 \<Rightarrow> u64 \<Rightarrow> u64" where
  "lib_SUBW a b = scast (int_get_signed_value (a - b) 32)"

definition lib_MULW :: "u64 \<Rightarrow> u64 \<Rightarrow> u64" where
  "lib_MULW a b = scast (int_get_signed_value (a * b) 32)"

section \<open>Integer instructions\<close>

definition addiw_exec :: "u64 handler" where
  "addiw_exec insn pc s = (reg_set insn 0 (lib_ADDW (reg_get insn 0 s) (sim insn 0)) s, iss_insn_next insn pc)"

definition slliw_exec :: "u64 handler" where
  "slliw_exec insn pc s = (reg_set insn 0 (lib_SLLW (reg_get insn 0 s) (unat (uim insn 0))) s, iss_insn_next insn pc)"

definition srliw_exec :: "u64 handler" where
  "srliw_exec insn pc s = (reg_set insn 0 (lib_SRLW (reg_get insn 0 s) (unat (uim insn 0))) s, iss_insn_next insn pc)"

definition sraiw_exec :: "u64 handler" where
  "sraiw_exec insn pc s = (reg_set insn 0 (lib_SRAW (reg_get insn 0 s) (unat (uim insn 0))) s, iss_insn_next insn pc)"

definition addw_exec :: "u64 handler" where
  "addw_exec insn pc s = (reg_set insn 0 (lib_ADDW (reg_get insn 0 s) (reg_get insn 1 s)) s, iss_insn_next insn pc)"

definition subw_exec :: "u64 handler" where
  "subw_exec insn pc s = (reg_set insn 0 (lib_SUBW (reg_get insn 0 s) (reg_get insn 1 s)) s, iss_insn_next insn pc)"

definition sllw_exec :: "u64 handler" where
  "sllw_exec insn pc s = (reg_set insn 0 (lib_SLLW (reg_get insn 0 s) (unat (reg_get insn 1 s AND (push_bit 5 1 - 1)))) s, iss_insn_next insn pc)"

definition srlw_exec :: "u64 handler" where
  "srlw_exec insn pc s = (reg_set insn 0 (lib_SRLW (reg_get insn 0 s) (unat (reg_get insn 1 s AND (push_bit 5 1 - 1)))) s, iss_insn_next insn pc)"

definition sraw_exec :: "u64 handler" where
  "sraw_exec insn pc s = (reg_set insn 0 (lib_SRAW (reg_get insn 0 s) (unat (reg_get insn 1 s AND (push_bit 5 1 - 1)))) s, iss_insn_next insn pc)"

section \<open>Multiplication and division\<close>

definition mulw_exec :: "u64 handler" where
  "mulw_exec insn pc s = (reg_set insn 0 (lib_MULW (reg_get insn 0 s) (reg_get insn 1 s)) s, iss_insn_next insn pc)"

definition divw_exec :: "u64 handler" where
  "divw_exec insn pc s =
     (let divider = scast (int_get_signed_value (reg_get insn 1 s) 32) :: u64;
          dividend = scast (int_get_signed_value (reg_get insn 0 s) 32) :: u64;
          result = (if divider = 0 then - 1
                    else if divider = push_bit 63 1 \<and> dividend = - 1 then 0
                    else if dividend = push_bit 63 1 \<and> divider = - 1 then push_bit 63 1
                    else word_of_int (sint dividend sdiv sint divider)) :: u64;
          s1 = reg_set insn 0 (scast (int_get_signed_value result 32)) s;
          s2 = account (Ev_Stall (div_cycles divider)) s1
      in (s2, iss_insn_next insn pc))"

definition divuw_exec :: "u64 handler" where
  "divuw_exec insn pc s =
     (let divider = getField (reg_get insn 1 s) 0 32;
          dividend = getField (reg_get insn 0 s) 0 32;
          result = (if divider = 0 then - 1 else dividend div divider);
          s1 = reg_set insn 0 (scast (int_get_signed_value result 32)) s;
          s2 = account (Ev_Stall (divu_cycles divider)) s1
      in (s2, iss_insn_next insn pc))"

text \<open>The remainders are computed in 32-bit variables.\<close>

definition remw_exec :: "u64 handler" where
  "remw_exec insn pc s =
     (let divider = int_get_signed_value (reg_get insn 1 s) 32;
          dividend = int_get_signed_value (reg_get insn 0 s) 32;
          result = (if divider = 0 then dividend
                    else if divider = push_bit 31 1 \<and> dividend = - 1 then - 1
                    else if dividend = push_bit 31 1 \<and> divider = - 1 then 0
                    else word_of_int (sint dividend smod sint divider));
          s1 = reg_set insn 0 (scast (int_get_signed_value (scast result :: u64) 32)) s;
          s2 = account (Ev_Stall (div_cycles divider)) s1
      in (s2, iss_insn_next insn pc))"

definition remuw_exec :: "u64 handler" where
  "remuw_exec insn pc s =
     (let divider = ucast (getField (reg_get insn 1 s) 0 32) :: u32;
          dividend = ucast (getField (reg_get insn 0 s) 0 32) :: u32;
          result = (if divider = 0 then dividend else dividend mod divider);
          s1 = reg_set insn 0 (scast (int_get_signed_value (ucast result :: u64) 32)) s;
          s2 = account (Ev_Stall (divu_cycles divider)) s1
      in (s2, iss_insn_next insn pc))"

section \<open>Compressed forms\<close>

definition c_addiw_exec_fast :: "u64 handler" where
  "c_addiw_exec_fast insn pc s = addiw_exec insn pc s"

definition c_addiw_exec :: "u64 handler" where
  "c_addiw_exec insn pc s = addiw_exec insn pc (account (Ev_Rvc 1) s)"

definition c_subw_exec_fast :: "u64 handler" where
  "c_subw_exec_fast insn pc s = subw_exec insn pc s"

definition c_subw_exec :: "u64 handler" where
  "c_subw_exec insn pc s = subw_exec insn pc (account (Ev_Rvc 1) s)"

definition c_addw_exec_fast :: "u64 handler" where
  "c_addw_exec_fast insn pc s = addw_exec insn pc s"

definition c_addw_exec :: "u64 handler" where
  "c_addw_exec insn pc s = addw_exec insn pc (account (Ev_Rvc 1) s)"

section \<open>Sign-extended 32-bit results\<close>

text \<open>The 32-bit result of each operation on the low halves of its operands.\<close>

datatype w_op = ADDIW | SLLIW | SRLIW | SRAIW | ADDW | SUBW | SLLW | SRLW | SRAW | MULW | DIVW | DIVUW | REMW | REMUW

fun w_exec :: "w_op \<Rightarrow> u64 handler" where
  "w_exec ADDIW = addiw_exec"
| "w_exec SLLIW = slliw_exec"
| "w_exec SRLIW = srliw_exec"
| "w_exec SRAIW = sraiw_exec"
| "w_exec ADDW = addw_exec"
| "w_exec SUBW = subw_exec"
| "w_exec SLLW = sllw_exec"
| "w_exec SRLW = srlw_exec"
| "w_exec SRAW = sraw_exec"
| "w_exec MULW = mulw_exec"
| "w_exec DIVW = divw_exec"
| "w_exec DIVUW = divuw_exec"
| "w_exec REMW = remw_exec"
| "w_exec REMUW = remuw_exec"

fun w_spec :: "w_op \<Rightarrow> u64 iss_insn \<Rightarrow> u32 \<Rightarrow> u32 \<Rightarrow> u32" where
  "w_spec ADDIW insn a b = a + ucast (sim insn 0)"
| "w_spec SLLIW insn a b = push_bit (unat (uim insn 0)) a"
| "w_spec SRLIW insn a b = drop_bit (unat (uim insn 0)) a"
| "w_spec SRAIW insn a b = signed_drop_bit (unat (uim insn 0)) a"
| "w_spec ADDW insn a b = a + b"
| "w_spec SUBW insn a b = a - b"
| "w_spec SLLW insn a b = push_bit (unat b mod 32) a"
| "w_spec SRLW insn a b = drop_bit (unat b mod 32) a"
| "w_spec SRAW insn a b = signed_drop_bit (unat b mod 32) a"
| "w_spec MULW insn a b = m_spec MUL a b"
| "w_spec DIVW insn a b = m_spec DIV a b"
| "w_spec DIVUW insn a b = m_spec DIVU a b"
| "w_spec REMW insn a b = m_spec REM a b"
| "w_spec REMUW insn a b = m_spec REMU a b"

lemma int_get_signed_value_32 [simp]: "int_get_signed_value (v :: u64) 32 = ucast v"
  unfolding int_get_signed_value_def by (rule bit_word_eqI) (auto simp: bit_simps)

lemma getField_32 [simp]: "getField (v :: u64) 0 32 = ucast (ucast v :: u32)"
  unfolding getField_def low_mask by (rule bit_word_eqI) (auto simp: bit_simps)

lemma low_half_of_int: "ucast (word_of_int z :: u64) = (word_of_int z :: u32)"
  by (rule bit_word_eqI) (simp add: bit_simps bit_word_of_int_iff)

lemma low_half_arith:
  "ucast (a + b) = (ucast a + ucast b :: u32)" "ucast (a - b) = (ucast a - ucast b :: u32)"
  "ucast (a * b) = (ucast a * ucast b :: u32)" for a b :: u64
  using low_half_of_int[of "uint a + uint b"] low_half_of_int[of "uint a - uint b"]
    low_half_of_int[of "uint a * uint b"] by simp_all

lemma low_half_minus_1 [simp]: "ucast (- 1 :: u64) = (- 1 :: u32)"
  using low_half_of_int[of "- 1"] by simp

lemma low_half_shift: "ucast (push_bit n a) = (push_bit n (ucast a) :: u32)" for a :: u64
  by (rule bit_word_eqI) (auto simp: bit_simps)

lemma low_half_ext [simp]: "ucast (ucast a :: u64) = (a :: u32)" "ucast (scast a :: u64) = (a :: u32)"
  by (rule bit_word_eqI; auto simp: bit_simps)+

lemma ext_zero [simp]: "(scast a :: u64) = 0 \<longleftrightarrow> a = (0 :: u32)" "(ucast a :: u64) = 0 \<longleftrightarrow> a = (0 :: u32)"
  by (metis low_half_ext(2) scast_0 ucast_0) (metis low_half_ext(1) ucast_0)

lemma sint_ext: "sint (scast a :: u64) = sint (a :: u32)" "uint (ucast a :: u64) = uint (a :: u32)"
  by (simp_all add: sint_up_scast is_up uint_up_ucast)

lemma low_bits_5: "unat (v AND (push_bit 5 1 - 1) :: u64) = unat (ucast v :: u32) mod 32"
proof -
  have "v AND (push_bit 5 1 - 1) = take_bit 5 v" unfolding low_mask by (simp add: take_bit_eq_mask)
  then have "unat (v AND (push_bit 5 1 - 1)) = unat v mod 32"
    by (simp add: take_bit_eq_mod unat_mod)
  moreover have "unat (ucast v :: u32) mod 32 = unat v mod 32"
    by (simp add: unsigned_ucast_eq take_bit_eq_mod mod_mod_cancel)
  ultimately show ?thesis by simp
qed

lemmas w_defs = lib_SLLW_def lib_SRLW_def lib_SRAW_def lib_ADDW_def lib_SUBW_def lib_MULW_def
  addiw_exec_def slliw_exec_def srliw_exec_def sraiw_exec_def addw_exec_def subw_exec_def sllw_exec_def
  srlw_exec_def sraw_exec_def mulw_exec_def divw_exec_def divuw_exec_def remw_exec_def remuw_exec_def

text \<open>The 64-bit quotient of sign-extended operands, cut to 32 bits, is the 32-bit quotient.\<close>

lemma divw_low_half:
  fixes a b :: u32
  shows "(ucast (if scast b = (0 :: u64) then - 1
                 else if scast b = (push_bit 63 1 :: u64) \<and> scast a = (- 1 :: u64) then 0
                 else if scast a = (push_bit 63 1 :: u64) \<and> scast b = (- 1 :: u64) then push_bit 63 1
                 else word_of_int (sint (scast a :: u64) sdiv sint (scast b :: u64)) :: u64) :: u32)
         = m_spec DIV a b"
proof -
  have "div_result (scast a :: u64) (scast b) = m_spec DIV (scast a) (scast b)" by (rule div_result_spec) simp
  then have d: "div_result (scast a :: u64) (scast b) =
      (if b = 0 then - 1 else word_of_int (trunc_quot (sint a) (sint b)))"
    by (simp add: sint_ext sint_eq_0)
  have m: "iss_min = (push_bit 63 1 :: u64)" by (simp add: iss_min_def)
  have "ucast (div_result (scast a :: u64) (scast b)) = m_spec DIV a b"
    unfolding d by (simp add: low_half_of_int sint_eq_0)
  then show ?thesis unfolding div_result_def m .
qed

lemma remw_result: "(if b = 0 then a
                    else if b = push_bit 31 1 \<and> a = - 1 then - 1
                    else if a = push_bit 31 1 \<and> b = - 1 then 0
                    else word_of_int (sint a smod sint b)) = m_spec REM a (b :: u32)"
proof -
  have m: "iss_min = (push_bit 31 1 :: u32)" by (simp add: iss_min_def)
  show ?thesis unfolding rem_result_def[of a b, unfolded m, symmetric] by (rule rem_result_spec) simp
qed

lemma divuw_low_half:
  "ucast (if ucast b = (0 :: u64) then - 1 else ucast a div ucast b :: u64) = m_spec DIVU a (b :: u32)"
proof -
  have "(ucast a div ucast b :: u64) = word_of_int (uint a div uint b)"
    by (simp add: word_div_def sint_ext)
  then show ?thesis by (simp add: low_half_of_int uint_0_iff)
qed

lemma remu_result_32: "(if b = 0 then a else a mod b) = m_spec REMU a (b :: u32)"
  by (simp add: word_mod_def uint_0_iff)

lemma mulw_low: "ucast a * ucast b = m_spec MUL (ucast a) (ucast b :: u32)" for a b :: u64
  by simp

text \<open>
  C28: Every operation of the 64-bit build on 32-bit values writes to its destination the sign
  extension of the 32-bit result for the low halves of its operands (the RISC-V results for
  products, quotients and remainders included), changes no other register and no bit of the
  memcheck shadow, and goes to the next instruction.
\<close>

theorem w_exec_spec:
  "snd (w_exec op insn pc s) = iss_insn_next insn pc \<and>
   cpu_rf (fst (w_exec op insn pc s)) = set_reg (out_regs insn 0)
     (scast (w_spec op insn (ucast (reg_get insn 0 s)) (ucast (reg_get insn 1 s)))) (cpu_rf s)"
proof (cases op)
  case DIVW
  then show ?thesis by (simp only: w_exec.simps divw_exec_def w_spec.simps Let_def int_get_signed_value_32 divw_low_half) simp
next
  case DIVUW
  then show ?thesis by (simp only: w_exec.simps divuw_exec_def w_spec.simps Let_def getField_32 int_get_signed_value_32 divuw_low_half) simp
next
  case REMW
  then show ?thesis by (simp only: w_exec.simps remw_exec_def w_spec.simps Let_def int_get_signed_value_32 remw_result low_half_ext) simp
next
  case REMUW
  then show ?thesis by (simp only: w_exec.simps remuw_exec_def w_spec.simps Let_def getField_32 int_get_signed_value_32 remu_result_32 low_half_ext) simp
next
  case MULW
  then show ?thesis by (simp only: w_exec.simps mulw_exec_def lib_MULW_def w_spec.simps int_get_signed_value_32 low_half_arith mulw_low) simp
qed (simp_all add: w_defs low_half_arith low_half_shift low_bits_5[simplified])

text \<open>
  Because the operations on 32-bit values leave the memcheck shadow of their destination as
  it was, a value computed from an uninitialised register is marked valid when the register it
  replaces was, and a branch on it raises no fault: the shadow is not sound for them.
\<close>

theorem w_shadow_unsound:
  "\<not> respects_shadow addw_exec (insn\<lparr>in_regs := (\<lambda>i. 5 + i), out_regs := (\<lambda>_. 7)\<rparr>)"
proof
  let ?i = "insn\<lparr>in_regs := (\<lambda>i. 5 + i), out_regs := (\<lambda>_. 7)\<rparr>"
  assume r: "respects_shadow addw_exec ?i"
  let ?s = "\<lambda>v. \<lparr>cpu_rf = \<lparr>rf_regs = (\<lambda>r. if r = 5 then v else 0),
      rf_mc = (\<lambda>r. if r = 5 then 0 else - 1), rf_mc_id = (\<lambda>_. 0), rf_fault = None,
      rf_pending_addr_buffer_id = 0, rf_mc_enabled = True\<rparr>, cpu_events = []\<rparr> :: u64 cpu"
  have "agree (?s 0) (?s 1)" by (simp add: agree_def rf_agree_def)
  then have "agree (fst (addw_exec ?i 0 (?s 0))) (fst (addw_exec ?i 0 (?s 1)))"
    using r unfolding respects_shadow_def by blast
  then have "same_bits (- 1) (0 :: u64) 1"
    unfolding agree_def rf_agree_def by (auto simp: w_defs cpu_defs dest!: spec[of _ 7])
  then show False by (simp add: same_bits_full)
qed

end
