(* ===== verification/Decode_V2.thy ===== *)
theory Decode_V2
  imports Isa_Memcheck
begin

text \<open>
  The instruction decoder, \<^verbatim>\<open>src/models/cpu/iss_v2/src/decode.cpp\<close>: a tree of opcode groups that ends in instruction
  descriptors, and the extraction of register numbers, immediates and scoreboard masks from the
  opcode. The tree itself is generated from the instruction-set description and is an argument.

  \<open>D_Undef\<close> stands for undefined behaviour: the masks are computed with \<^verbatim>\<open>1 << reg\<close> in a 32-bit
  \<^verbatim>\<open>int\<close>, which has no defined value for the floating-point registers (\<open>32\<close> and above).
\<close>

section \<open>Fields of the opcode\<close>

record drange =
  rg_bit :: nat
  rg_width :: nat
  rg_shift :: nat

definition iss_get_field :: "'x::len word \<Rightarrow> nat \<Rightarrow> nat \<Rightarrow> 'x word" where
  "iss_get_field v sh bits = drop_bit sh v AND scast (push_bit bits 1 - 1 :: u32)"

text \<open>The loop over the ranges keeps the value so far and the position of its last bit.\<close>

fun ranges_loop :: "'x::len itself \<Rightarrow> u32 \<Rightarrow> drange list \<Rightarrow> u64 \<times> nat \<Rightarrow> u64 \<times> nat" where
  "ranges_loop T opcode [] (result, bits) = (result, bits)"
| "ranges_loop T opcode (r # rs) (result, bits) =
     (let result' = result OR
            ucast (push_bit (rg_shift r) (iss_get_field (ucast opcode :: 'x word) (rg_bit r) (rg_width r)));
          last_bit = rg_width r + rg_shift r
      in ranges_loop T opcode rs (result', if last_bit > bits then last_bit else bits))"

definition decode_ranges :: "'x::len itself \<Rightarrow> u32 \<Rightarrow> drange list \<Rightarrow> bool \<Rightarrow> u64" where
  "decode_ranges T opcode rs is_signed =
     (let (result, bits) = ranges_loop T opcode rs (0, 0)
      in if is_signed then ucast (iss_get_signed_value (ucast result :: 'x word) bits) else result)"

section \<open>Descriptors\<close>

record arg_flags =
  fl_compressed :: bool
  fl_freg :: bool
  fl_vreg :: bool

datatype 'w arg_info = Info_Range "drange list" | Info_Uim 'w | Info_Sim 'w

datatype 'w darg =
    In_Reg nat arg_flags "'w arg_info"
  | Out_Reg nat arg_flags "'w arg_info"
  | Uimm nat bool "drange list"
  | Simm nat bool "drange list"
  | Indirect_Imm nat arg_flags "'w arg_info" nat bool "'w arg_info"
  | Indirect_Reg nat arg_flags "'w arg_info" nat arg_flags "'w arg_info"
  | Other_Arg

record 'w idesc =
  id_size :: nat
  id_args :: "'w darg list"
  id_handler :: "'w handler"
  id_fast_handler :: "'w handler"
  id_stub_handler :: "'w handler option"
  id_decode :: "('w iss_insn \<Rightarrow> 'w \<Rightarrow> 'w iss_insn) option"

record 'w decoded =
  d_insn :: "'w iss_insn"
  d_handler :: "'w handler"
  d_fast_handler :: "'w handler"
  d_stub_handler :: "'w handler option"

datatype 'w dres = D_Undef | D_Unknown | D_Ok "'w decoded"

text \<open>
  What the decoder gets from the rest of the core: whether memcheck is enabled, and the
  debugger's hook, which may put a breakpoint stub in front of the handler.
\<close>

record 'w dec_env =
  env_memcheck :: bool
  env_gdb_decode_insn :: "'w \<Rightarrow> 'w decoded \<Rightarrow> 'w decoded"

section \<open>Arguments\<close>

definition get_reg_gid :: "nat \<Rightarrow> nat" where
  "get_reg_gid reg = reg + 32"

definition reg_bit :: "nat \<Rightarrow> u32 option" where
  "reg_bit reg = (if reg < 32 then Some (push_bit reg 1) else None)"

definition insn_set_in_reg :: "nat \<Rightarrow> arg_flags \<Rightarrow> nat \<Rightarrow> 'x::len word iss_insn \<Rightarrow> 'x word iss_insn option" where
  "insn_set_in_reg i fl reg insn =
     (let insn1 = insn\<lparr>in_regs := (in_regs insn)(i := reg mod 256)\<rparr>
      in do { b \<leftarrow> reg_bit reg;
              Some (if fl_vreg fl then insn1\<lparr>sb_in_vreg_mask := sb_in_vreg_mask insn1 OR b\<rparr>
                    else insn1\<lparr>sb_reg_mask := sb_reg_mask insn1 OR scast b\<rparr>) })"

definition insn_set_out_reg :: "nat \<Rightarrow> arg_flags \<Rightarrow> nat \<Rightarrow> 'x::len word iss_insn \<Rightarrow> 'x word iss_insn option" where
  "insn_set_out_reg i fl reg insn =
     (let insn1 = insn\<lparr>out_regs := (out_regs insn)(i := reg mod 256)\<rparr>
      in do { b \<leftarrow> reg_bit reg;
              Some (if fl_vreg fl then insn1\<lparr>sb_out_vreg_mask := sb_out_vreg_mask insn1 OR b\<rparr>
                    else insn1\<lparr>sb_reg_mask := sb_reg_mask insn1 OR scast b,
                               sb_out_reg_mask := sb_out_reg_mask insn1 OR scast b\<rparr>) })"

fun decode_info :: "u32 \<Rightarrow> 'x::len word arg_info \<Rightarrow> bool \<Rightarrow> u32" where
  "decode_info opcode (Info_Range rs) is_signed = ucast (decode_ranges TYPE('x) opcode rs is_signed)"
| "decode_info opcode (Info_Uim v) is_signed = ucast v"
| "decode_info opcode (Info_Sim v) is_signed = ucast v"

definition set_nb_in :: "nat \<Rightarrow> 'x::len word iss_insn \<Rightarrow> 'x word iss_insn" where
  "set_nb_in i insn = (if i \<ge> nb_in_reg insn then insn\<lparr>nb_in_reg := i + 1\<rparr> else insn)"

definition set_nb_out :: "nat \<Rightarrow> 'x::len word iss_insn \<Rightarrow> 'x word iss_insn" where
  "set_nb_out i insn = (if i \<ge> nb_out_reg insn then insn\<lparr>nb_out_reg := i + 1\<rparr> else insn)"

text \<open>The index of a register argument, and of a base or offset register of an address.\<close>

definition reg_index :: "u32 \<Rightarrow> arg_flags \<Rightarrow> 'x::len word arg_info \<Rightarrow> nat" where
  "reg_index opcode fl info =
     (let index = unat (decode_info opcode info False);
          index = (if fl_compressed fl then index + 8 else index)
      in if fl_freg fl \<and> \<not> fl_vreg fl then get_reg_gid index else index)"

definition indirect_index :: "u32 \<Rightarrow> arg_flags \<Rightarrow> 'x::len word arg_info \<Rightarrow> nat" where
  "indirect_index opcode fl info =
     (let index = unat (decode_info opcode info False)
      in if fl_compressed fl then index + 8 else index)"

definition set_indirect_reg :: "nat \<Rightarrow> nat \<Rightarrow> 'x::len word iss_insn \<Rightarrow> 'x word iss_insn option" where
  "set_indirect_reg i index insn =
     do { b \<leftarrow> reg_bit index;
          Some (set_nb_in i (insn\<lparr>in_regs := (in_regs insn)(i := index mod 256),
                                 sb_reg_mask := sb_reg_mask insn OR scast b\<rparr>)) }"

fun decode_arg :: "u32 \<Rightarrow> 'x::len word darg \<Rightarrow> 'x word iss_insn \<Rightarrow> 'x word iss_insn option" where
  "decode_arg opcode (In_Reg i fl info) insn =
     insn_set_in_reg i fl (reg_index opcode fl info) (set_nb_in i insn)"
| "decode_arg opcode (Out_Reg i fl info) insn =
     (let index = reg_index opcode fl info; insn1 = set_nb_out i insn
      in if index = 0 \<and> \<not> fl_vreg fl
         then Some (insn1\<lparr>out_regs := (out_regs insn1)(i := iss_dummy_reg)\<rparr>)
         else insn_set_out_reg i fl index insn1)"
| "decode_arg opcode (Uimm i is_signed rs) insn =
     Some (insn\<lparr>uim := (uim insn)(i := ucast (decode_ranges TYPE('x) opcode rs is_signed))\<rparr>)"
| "decode_arg opcode (Simm i is_signed rs) insn =
     Some (insn\<lparr>sim := (sim insn)(i := ucast (decode_ranges TYPE('x) opcode rs is_signed))\<rparr>)"
| "decode_arg opcode (Indirect_Imm ri rfl rinfo ii isg iinfo) insn =
     do { insn1 \<leftarrow> set_indirect_reg ri (indirect_index opcode rfl rinfo) insn;
          Some (insn1\<lparr>sim := (sim insn1)(ii := scast (decode_info opcode iinfo isg))\<rparr>) }"
| "decode_arg opcode (Indirect_Reg bi bfl binfo oi ofl oinfo) insn =
     do { insn1 \<leftarrow> set_indirect_reg bi (indirect_index opcode bfl binfo) insn;
          set_indirect_reg oi (indirect_index opcode ofl oinfo) insn1 }"
| "decode_arg opcode Other_Arg insn = Some insn"

fun decode_args :: "u32 \<Rightarrow> 'x::len word darg list \<Rightarrow> 'x word iss_insn \<Rightarrow> 'x word iss_insn option" where
  "decode_args opcode [] insn = Some insn"
| "decode_args opcode (a # as) insn = do { insn1 \<leftarrow> decode_arg opcode a insn; decode_args opcode as insn1 }"

section \<open>Instructions and groups\<close>

definition decode_insn :: "'x::len word dec_env \<Rightarrow> 'x word iss_insn \<Rightarrow> 'x word \<Rightarrow> u32 \<Rightarrow> bool \<Rightarrow> 'x word idesc \<Rightarrow> 'x word dres" where
  "decode_insn env insn pc opcode is_active desc =
     (if \<not> is_active then D_Unknown
      else
        let n = length (id_args desc);
            insn1 = insn\<lparr>insn_size := id_size desc,
                         out_regs := (\<lambda>i. if i < n then 255 else out_regs insn i),
                         in_regs := (\<lambda>i. if i < n then 255 else in_regs insn i)\<rparr>
        in case decode_args opcode (id_args desc) insn1 of
             None \<Rightarrow> D_Undef
           | Some insn2 \<Rightarrow>
               let fast = (if env_memcheck env then id_handler desc else id_fast_handler desc);
                   d1 = env_gdb_decode_insn env pc
                          \<lparr>d_insn = insn2, d_handler = id_handler desc, d_fast_handler = fast, d_stub_handler = None\<rparr>;
                   d2 = (case id_decode desc of None \<Rightarrow> d1 | Some f \<Rightarrow> d1\<lparr>d_insn := f (d_insn d1) pc\<rparr>)
               in D_Ok (case id_stub_handler desc of None \<Rightarrow> d2
                        | Some st \<Rightarrow> d2\<lparr>d_stub_handler := Some (d_handler d2), d_handler := st, d_fast_handler := st\<rparr>))"

datatype 'w item =
    Insn_Item (it_others: bool) (it_opcode: u32) bool "'w idesc"
  | Group_Item (it_others: bool) (it_opcode: u32) nat nat "'w item list"

text \<open>The loop over the items of a group remembers the last one that stands for the other opcodes.\<close>

fun group_loop :: "u32 \<Rightarrow> 'w item option \<Rightarrow> 'w item list \<Rightarrow> 'w item option" where
  "group_loop g other [] = other"
| "group_loop g other (it # its) =
     (if g = it_opcode it \<and> \<not> it_others it then Some it
      else group_loop g (if it_others it then Some it else other) its)"

definition group_opcode :: "u32 \<Rightarrow> nat \<Rightarrow> nat \<Rightarrow> u32" where
  "group_opcode opcode b width = ucast (ucast (drop_bit b opcode) AND (push_bit width 1 - 1 :: u64))"

lemma group_loop_mem: "group_loop g other its = Some it \<Longrightarrow> other = Some it \<or> it \<in> set its"
  by (induction g other its rule: group_loop.induct) (auto split: if_splits)

function decode_item :: "'x::len word dec_env \<Rightarrow> 'x word iss_insn \<Rightarrow> 'x word \<Rightarrow> u32 \<Rightarrow> 'x word item \<Rightarrow> 'x word dres" where
  "decode_item env insn pc opcode (Insn_Item others op is_active desc) = decode_insn env insn pc opcode is_active desc"
| "decode_item env insn pc opcode (Group_Item others op b width items) =
     (case group_loop (group_opcode opcode b width) None items of
        None \<Rightarrow> D_Unknown
      | Some it \<Rightarrow> decode_item env insn pc opcode it)"
  by pat_completeness auto
termination
  by (relation "measure (\<lambda>(_, _, _, _, it). size it)")
    (auto dest!: group_loop_mem simp: less_Suc_eq_le size_list_estimation')

definition insn_clear :: "'x::len word iss_insn \<Rightarrow> 'x word iss_insn" where
  "insn_clear insn = insn\<lparr>nb_out_reg := 0, nb_in_reg := 0, sb_reg_mask := 0, sb_out_reg_mask := 0,
                         sb_in_vreg_mask := 0, sb_out_vreg_mask := 0\<rparr>"

definition decode_opcode :: "'x::len word dec_env \<Rightarrow> 'x word iss_insn \<Rightarrow> 'x word \<Rightarrow> u32 \<Rightarrow> 'x word item \<Rightarrow> 'x word dres" where
  "decode_opcode env insn pc opcode isa_set = decode_item env (insn_clear insn) pc opcode isa_set"

text \<open>
  An opcode that is not found gets the handler that raises an illegal-instruction exception,
  \<^verbatim>\<open>iss_exec_insn_illegal\<close>; the fields cleared before the search stay cleared.
\<close>

definition decode_pc :: "'x::len word dec_env \<Rightarrow> 'x word handler \<Rightarrow> 'x word decoded \<Rightarrow> 'x word \<Rightarrow> u32 \<Rightarrow> 'x word item \<Rightarrow> 'x word dres" where
  "decode_pc env illegal d pc opcode isa_set =
     (case decode_opcode env (d_insn d) pc opcode isa_set of
        D_Unknown \<Rightarrow> D_Ok (d\<lparr>d_insn := insn_clear (d_insn d), d_handler := illegal, d_fast_handler := illegal\<rparr>)
      | r \<Rightarrow> r)"

section \<open>Immediates\<close>

definition last_bit :: "drange list \<Rightarrow> nat" where
  "last_bit rs = foldr (\<lambda>r. max (rg_width r + rg_shift r)) rs 0"

text \<open>The bit of the opcode that ends up at position \<open>i\<close> of the value.\<close>

definition range_bit :: "u32 \<Rightarrow> drange list \<Rightarrow> nat \<Rightarrow> bool" where
  "range_bit opcode rs i \<longleftrightarrow>
     (\<exists>r \<in> set rs. rg_shift r \<le> i \<and> i < rg_shift r + rg_width r \<and> bit opcode (rg_bit r + (i - rg_shift r)))"

lemma bit_iss_get_field:
  assumes "w < 32"
  shows "bit (iss_get_field v sh w :: 'x::len word) i \<longleftrightarrow> i < w \<and> i < LENGTH('x) \<and> bit v (sh + i)"
proof -
  have "bit (scast (push_bit w 1 - 1 :: u32) :: 'x word) i \<longleftrightarrow> i < w \<and> i < LENGTH('x)"
    unfolding low_mask using assms by (auto simp: bit_signed_iff bit_mask_iff min_def)
  then show ?thesis by (auto simp: iss_get_field_def bit_and_iff bit_drop_bit_eq)
qed

lemma ranges_loop_bits:
  fixes T :: "'x::len itself"
  assumes "LENGTH('x) = 32 \<or> LENGTH('x) = 64" "\<forall>r \<in> set rs. rg_width r < 32" "i < LENGTH('x)"
  shows "bit (fst (ranges_loop T opcode rs acc)) i \<longleftrightarrow> bit (fst acc) i \<or> range_bit opcode rs i"
  using assms(2)
proof (induction rs arbitrary: acc)
  case Nil
  then show ?case by (cases acc) (simp add: range_bit_def)
next
  case (Cons r rs)
  obtain res b where acc: "acc = (res, b)" by fastforce
  have l: "i < 64" "rg_width r < 32" using assms(1,3) Cons.prems by auto
  have "bit (ucast (push_bit (rg_shift r) (iss_get_field (ucast opcode :: 'x word) (rg_bit r) (rg_width r))) :: u64) i
      \<longleftrightarrow> rg_shift r \<le> i \<and> i < rg_shift r + rg_width r \<and> bit opcode (rg_bit r + (i - rg_shift r))"
    using l assms(1,3) bit_imp_le_length[of opcode "rg_bit r + (i - rg_shift r)"]
    by (auto simp: bit_ucast_iff bit_push_bit_iff bit_iss_get_field[OF l(2)] less_diff_conv2)
  then show ?case using Cons.IH Cons.prems by (auto simp: acc Let_def bit_or_iff range_bit_def)
qed

lemma ranges_loop_last: "snd (ranges_loop T opcode rs acc) = max (snd acc) (last_bit rs)"
proof (induction rs arbitrary: acc)
  case Nil
  then show ?case by (cases acc) (simp add: last_bit_def)
next
  case (Cons r rs)
  then show ?case by (cases acc) (auto simp: Let_def last_bit_def)
qed

text \<open>
  The immediate assembled from a list of bit ranges has at each position the opcode bit
  that the ranges place there; the signed form repeats the bit at the last position placed in
  every position above it, on the 32- and on the 64-bit build.
\<close>

theorem decode_ranges_bits:
  fixes T :: "'x::len itself"
  assumes "LENGTH('x) = 32 \<or> LENGTH('x) = 64" "list_all (\<lambda>r. rg_width r < 32) rs"
    "0 < last_bit rs" "last_bit rs \<le> LENGTH('x)" "i < LENGTH('x)"
  shows "bit (ucast (decode_ranges T opcode rs is_signed) :: 'x word) i
           \<longleftrightarrow> range_bit opcode rs (if is_signed then min i (last_bit rs - 1) else i)"
proof -
  have w: "\<forall>r \<in> set rs. rg_width r < 32" using assms(2) by (simp add: list_all_iff)
  obtain res bits where l: "ranges_loop T opcode rs (0, 0) = (res, bits)" by fastforce
  have b: "bits = last_bit rs" using ranges_loop_last[of T opcode rs "(0, 0)"] l by simp
  have r: "bit res j \<longleftrightarrow> range_bit opcode rs j" if "j < LENGTH('x)" for j
    using ranges_loop_bits[OF assms(1) w that, of T opcode "(0, 0)"] l by simp
  have len: "LENGTH('x) \<le> 64" using assms(1) by auto
  show ?thesis
  proof (cases is_signed)
    case False
    then show ?thesis using r[OF assms(5)] len assms(5) by (simp add: decode_ranges_def l bit_ucast_iff)
  next
    case True
    have "bit (iss_get_signed_value (ucast res :: 'x word) bits) i \<longleftrightarrow> bit res (min i (last_bit rs - 1))"
      using assms(3-5) len unfolding iss_get_signed_value_def b
      by (auto simp: bit_signed_drop_bit_iff bit_push_bit_iff bit_ucast_iff min_def not_less)
    also have "\<dots> = range_bit opcode rs (min i (last_bit rs - 1))"
      using assms(3,4) by (intro r) (auto simp: min_def)
    finally show ?thesis using True len assms(5) by (simp add: decode_ranges_def l bit_ucast_iff)
  qed
qed

text \<open>The ranges of the immediate of a conditional branch, and the branch \<^verbatim>\<open>beq x0, x0, -4\<close>.\<close>

definition branch_ranges :: "drange list" where
  "branch_ranges =
     [\<lparr>rg_bit = 7, rg_width = 1, rg_shift = 11\<rparr>, \<lparr>rg_bit = 8, rg_width = 4, rg_shift = 1\<rparr>,
      \<lparr>rg_bit = 25, rg_width = 6, rg_shift = 5\<rparr>, \<lparr>rg_bit = 31, rg_width = 1, rg_shift = 12\<rparr>]"

theorem decode_ranges_bits_witness:
  "list_all (\<lambda>r. rg_width r < 32) branch_ranges \<and> last_bit branch_ranges = 13 \<and>
   bit (ucast (decode_ranges TYPE(32) 0xfe000ee3 branch_ranges True) :: u32) 31 \<and>
   \<not> bit (ucast (decode_ranges TYPE(32) 0xfe000ee3 branch_ranges True) :: u32) 1"
proof -
  have h: "list_all (\<lambda>r. rg_width r < 32) branch_ranges" "last_bit branch_ranges = 13"
    by (simp_all add: branch_ranges_def last_bit_def)
  have "range_bit 0xfe000ee3 branch_ranges 12" "\<not> range_bit 0xfe000ee3 branch_ranges 1"
    by (simp_all add: branch_ranges_def range_bit_def bit_numeral_word_iff)
  then show ?thesis
    using h decode_ranges_bits[where T = "TYPE(32)" and rs = branch_ranges and i = 31 and opcode = "0xfe000ee3" and is_signed = True]
      decode_ranges_bits[where T = "TYPE(32)" and rs = branch_ranges and i = 1 and opcode = "0xfe000ee3" and is_signed = True] by simp
qed

section \<open>Destinations\<close>

fun descs :: "'w item \<Rightarrow> 'w idesc set" where
  "descs (Insn_Item others op is_active desc) = {desc}"
| "descs (Group_Item others op b width items) = (\<Union>it \<in> set items. descs it)"

definition int_handlers :: "'x::len word handler list" where
  "int_handlers = alu_handlers @ branch_handlers @ [jalr_exec, jalr_exec_fast] @
     map (\<lambda>(b, f, c). f) rvc_table @ map (\<lambda>(b, f, c). c) rvc_table"

fun scalar_arg :: "'w darg \<Rightarrow> bool" where
  "scalar_arg (Out_Reg i fl info) = (\<not> fl_vreg fl)"
| "scalar_arg a = True"

text \<open>
  The descriptors of an integer instruction: some argument, no vector destination, a handler
  from the list, no stub, and a decoding hook that leaves the destinations alone.
\<close>

definition int_desc :: "'x::len word idesc \<Rightarrow> bool" where
  "int_desc desc \<longleftrightarrow>
     id_args desc \<noteq> [] \<and> list_all scalar_arg (id_args desc) \<and>
     id_handler desc \<in> set int_handlers \<and> id_stub_handler desc = None \<and>
     (case id_decode desc of None \<Rightarrow> True | Some f \<Rightarrow> \<forall>insn pc. out_regs (f insn pc) = out_regs insn)"

lemma decode_arg_dest:
  assumes "decode_arg opcode a insn = Some insn'" "scalar_arg a" "out_regs insn 0 \<noteq> 0"
  shows "out_regs insn' 0 \<noteq> 0"
  using assms
  by (cases a)
    (auto simp: insn_set_in_reg_def insn_set_out_reg_def set_indirect_reg_def set_nb_in_def set_nb_out_def reg_bit_def
      iss_dummy_reg_def Let_def split: if_splits bind_splits)

lemma decode_args_dest:
  "decode_args opcode as insn = Some insn' \<Longrightarrow> list_all scalar_arg as \<Longrightarrow> out_regs insn 0 \<noteq> 0 \<Longrightarrow> out_regs insn' 0 \<noteq> 0"
  by (induction opcode as insn rule: decode_args.induct) (auto split: bind_splits dest: decode_arg_dest)

lemma decode_insn_dest:
  assumes "decode_insn env insn pc opcode act desc = D_Ok d" "int_desc desc" "env_gdb_decode_insn env = (\<lambda>_ d. d)"
  shows "out_regs (d_insn d) 0 \<noteq> 0 \<and> d_handler d \<in> set int_handlers"
proof -
  let ?n = "length (id_args desc)"
  let ?i = "insn\<lparr>insn_size := id_size desc, out_regs := (\<lambda>i. if i < ?n then 255 else out_regs insn i),
                 in_regs := (\<lambda>i. if i < ?n then 255 else in_regs insn i)\<rparr>"
  obtain insn2 where a: "decode_args opcode (id_args desc) ?i = Some insn2"
    using assms(1) by (auto simp: decode_insn_def Let_def split: if_splits option.splits)
  have "out_regs insn2 0 \<noteq> 0"
    using decode_args_dest[OF a] assms(2) by (auto simp: int_desc_def)
  then show ?thesis using assms a by (auto simp: decode_insn_def int_desc_def Let_def split: if_splits option.splits)
qed

lemma decode_item_dest:
  "decode_item env insn pc opcode it = D_Ok d \<Longrightarrow> \<forall>desc \<in> descs it. int_desc desc \<Longrightarrow> env_gdb_decode_insn env = (\<lambda>_ d. d)
     \<Longrightarrow> out_regs (d_insn d) 0 \<noteq> 0 \<and> d_handler d \<in> set int_handlers"
proof (induction env insn pc opcode it rule: decode_item.induct)
  case (1 env insn pc opcode others op is_active desc)
  then show ?case using decode_insn_dest[of env insn pc opcode is_active desc d] by simp
next
  case (2 env insn pc opcode others op b width items)
  then show ?case using group_loop_mem[of "group_opcode opcode b width" None items]
    by (fastforce split: option.splits)
qed

section \<open>Execution of decoded programs\<close>

text \<open>A handler that writes to no register but its destination.\<close>

definition writes_dest :: "'x::len word handler \<Rightarrow> bool" where
  "writes_dest h \<longleftrightarrow>
     (\<forall>insn pc s r. r \<noteq> out_regs insn 0 \<longrightarrow> rf_regs (cpu_rf (fst (h insn pc s))) r = rf_regs (cpu_rf s) r)"

lemma regs_updates:
  "rf_regs (set_reg r v rf) = (rf_regs rf)(r := v)"
  "rf_regs (memcheck_set r v rf) = rf_regs rf" "rf_regs (memcheck_set_valid r b rf) = rf_regs rf"
  "rf_regs (memcheck_copy r a rf) = rf_regs rf" "rf_regs (memcheck_bitwise_and r a c rf) = rf_regs rf"
  "rf_regs (memcheck_shift_left r a sh rf) = rf_regs rf" "rf_regs (memcheck_shift_right r a sh rf) = rf_regs rf"
  "rf_regs (memcheck_shift_right_signed r a sh rf) = rf_regs rf"
  by (simp_all add: set_reg_def shadow_defs Let_def)

lemma alu_writes_dest: "h \<in> set alu_handlers \<Longrightarrow> writes_dest h"
  unfolding alu_handlers_def list.set
  by (elim insertE emptyE) (simp_all add: writes_dest_def alu_defs c_sbreak_exec_def Let_def regs_updates)

lemma branch_writes_dest:
  "writes_dest (jal_exec_common p)" "writes_dest (jalr_exec_common p)" "writes_dest (beq_exec_common p)"
  "writes_dest (bne_exec_common p)" "writes_dest (blt_exec_common p)" "writes_dest (bge_exec_common p)"
  "writes_dest (bltu_exec_common p)" "writes_dest (bgeu_exec_common p)"
  by (simp_all add: writes_dest_def jal_exec_common_def jalr_exec_common_def branch_defs Let_def regs_updates)

lemmas plain_branch_defs = beq_exec_def beq_exec_fast_def bne_exec_def bne_exec_fast_def
  blt_exec_def blt_exec_fast_def bge_exec_def bge_exec_fast_def bltu_exec_def bltu_exec_fast_def
  bgeu_exec_def bgeu_exec_fast_def jal_exec_def jal_exec_fast_def jalr_exec_def jalr_exec_fast_def

lemma base_writes_dest:
  "h \<in> set (alu_handlers @ branch_handlers @ [jalr_exec, jalr_exec_fast]) \<Longrightarrow> writes_dest h"
  using alu_writes_dest[of h] branch_writes_dest
  by (auto simp: branch_handlers_def plain_branch_defs)

lemma writes_dest_rvc: "writes_dest h \<Longrightarrow> writes_dest (rvc h)"
  by (simp add: writes_dest_def rvc_def)

lemma rvc_base: "(b, f, c) \<in> set rvc_table \<Longrightarrow>
    {b, f} \<subseteq> set (alu_handlers @ branch_handlers @ [jalr_exec, jalr_exec_fast])"
  unfolding rvc_table_def rvc_fast rvc_accounting alu_handlers_def branch_handlers_def by auto

lemma int_writes_dest: "writes_dest h" if "h \<in> set int_handlers"
proof -
  from that consider "h \<in> set (alu_handlers @ branch_handlers @ [jalr_exec, jalr_exec_fast])"
    | b f c where "(b, f, c) \<in> set rvc_table" "h = f \<or> h = c"
    unfolding int_handlers_def by auto
  then show ?thesis
  proof cases
    case 1
    then show ?thesis by (rule base_writes_dest)
  next
    case (2 b f c)
    then show ?thesis using rvc_base[OF 2(1)] base_writes_dest writes_dest_rvc rvc_table_rows(1)[OF 2(1)]
      by (metis insert_subset)
  qed
qed

text \<open>The program that the execution loop sees: the opcode at an address, decoded with the tree.\<close>

definition decoded_program ::
  "'x::len word dec_env \<Rightarrow> 'x word iss_insn \<Rightarrow> ('x word \<Rightarrow> u32) \<Rightarrow> 'x word item \<Rightarrow> 'x word program" where
  "decoded_program env insn mem isa_set pc =
     (case decode_opcode env insn pc (mem pc) isa_set of
        D_Ok d \<Rightarrow> Some (d_handler d, d_insn d) | _ \<Rightarrow> None)"

lemma run_keeps_zero:
  assumes "\<And>a h insn. prog a = Some (h, insn) \<Longrightarrow> writes_dest h \<and> out_regs insn 0 \<noteq> 0"
  shows "rf_regs (cpu_rf (fst (run n prog (s, pc)))) 0 = rf_regs (cpu_rf s) 0"
proof (induction n arbitrary: s pc)
  case 0
  then show ?case by simp
next
  case (Suc n)
  show ?case
  proof (cases "prog pc")
    case (Some p)
    obtain h insn where p: "p = (h, insn)" by fastforce
    obtain s' pc' where h: "h insn pc s = (s', pc')" by fastforce
    have "rf_regs (cpu_rf s') 0 = rf_regs (cpu_rf s) 0"
      using assms[of pc h insn] Some p h unfolding writes_dest_def by (metis fst_conv)
    then show ?thesis using Suc.IH[of s' pc'] Some p h by simp
  qed simp
qed

text \<open>
  C26: Whatever the opcodes in memory, a program decoded with a tree of integer, multiplication
  and compressed instructions never changes register \<open>0\<close>: the decoder replaces it as a destination
  by the dummy register, and the handlers write to no register but their destination.
\<close>

theorem decoded_program_keeps_x0:
  assumes "\<forall>desc \<in> descs isa_set. int_desc desc" "env_gdb_decode_insn env = (\<lambda>_ d. d)"
  shows "rf_regs (cpu_rf (fst (run n (decoded_program env insn mem isa_set) (s, pc)))) 0 = rf_regs (cpu_rf s) 0"
proof (rule run_keeps_zero)
  fix a h i assume "decoded_program env insn mem isa_set a = Some (h, i)"
  then obtain d where "decode_item env (insn_clear insn) a (mem a) isa_set = D_Ok d" "h = d_handler d" "i = d_insn d"
    by (auto simp: decoded_program_def decode_opcode_def split: dres.splits)
  then show "writes_dest h \<and> out_regs i 0 \<noteq> 0"
    using decode_item_dest[of env "insn_clear insn" a "mem a" isa_set d] assms int_writes_dest by auto
qed

text \<open>A tree with one instruction, \<^verbatim>\<open>addi\<close>, and a memory full of \<^verbatim>\<open>addi x0, x0, 5\<close>.\<close>

definition addi_desc :: "u32 idesc" where
  "addi_desc =
     (let fl = \<lparr>fl_compressed = False, fl_freg = False, fl_vreg = False\<rparr>
      in \<lparr>id_size = 4,
          id_args = [Out_Reg 0 fl (Info_Range [\<lparr>rg_bit = 7, rg_width = 5, rg_shift = 0\<rparr>]),
                     In_Reg 0 fl (Info_Range [\<lparr>rg_bit = 15, rg_width = 5, rg_shift = 0\<rparr>]),
                     Simm 0 True [\<lparr>rg_bit = 20, rg_width = 12, rg_shift = 0\<rparr>]],
          id_handler = addi_exec, id_fast_handler = addi_exec, id_stub_handler = None, id_decode = None\<rparr>)"

definition addi_tree :: "u32 item" where
  "addi_tree = Group_Item False 0 0 7 [Insn_Item False 0x13 True addi_desc]"

definition plain_env :: "u32 dec_env" where
  "plain_env = \<lparr>env_memcheck = True, env_gdb_decode_insn = (\<lambda>_ d. d)\<rparr>"

lemma addi_desc_int: "int_desc addi_desc"
  by (simp add: int_desc_def addi_desc_def Let_def int_handlers_def alu_handlers_def)

theorem decoded_program_keeps_x0_witness:
  "env_gdb_decode_insn plain_env = (\<lambda>_ d. d) \<and>
   rf_regs (cpu_rf (fst (run 3 (decoded_program plain_env (ex_insn 0 0 0) (\<lambda>_. 0x00500013) addi_tree) (ex_cpu 1, 0)))) 0 = 3"
proof -
  have t: "\<forall>desc \<in> descs addi_tree. int_desc desc" by (simp add: addi_tree_def addi_desc_int)
  have e: "env_gdb_decode_insn plain_env = (\<lambda>_ d. d)" by (simp add: plain_env_def)
  show ?thesis using decoded_program_keeps_x0[OF t e] e by (simp add: ex_cpu_def)
qed

section \<open>Scoreboard masks\<close>

text \<open>
  The masks of the scoreboard are computed by shifting an \<^verbatim>\<open>int\<close>: for the registers below \<open>31\<close>
  the mask has their bit only, for register \<open>31\<close> sign extension also sets the bits of all the
  floating-point registers, and for a floating-point register the shift is undefined.
\<close>

theorem out_reg_mask:
  "map_option sb_out_reg_mask (insn_set_out_reg i fl reg (insn :: 'x::len word iss_insn)) =
     (if reg \<ge> 32 then None
      else if fl_vreg fl then Some (sb_out_reg_mask insn)
      else Some (sb_out_reg_mask insn OR (if reg = 31 then push_bit 31 (- 1) else push_bit reg 1)))"
proof -
  have one: "bit (push_bit k 1 :: 'a::len word) n \<longleftrightarrow> n = k \<and> n < LENGTH('a)" for k n
    by (auto simp: bit_exp_iff)
  have "(scast (push_bit reg 1 :: u32) :: u64) = (if reg = 31 then push_bit 31 (- 1) else push_bit reg 1)" if "reg < 32"
  proof (rule bit_word_eqI)
    fix n assume "n < LENGTH(64)"
    then show "bit (scast (push_bit reg 1 :: u32) :: u64) n =
        bit (if reg = 31 then push_bit 31 (- 1) else push_bit reg 1 :: u64) n"
      unfolding if_distrib[of "\<lambda>w. bit w n"] bit_signed_iff one bit_push_bit_iff
      using that by (auto simp: min_def bit_minus_1_iff bit_1_iff)
  qed
  then show ?thesis by (auto simp: insn_set_out_reg_def reg_bit_def Let_def)
qed

end
