(* ===== verification/Trap_V2.thy ===== *)
theory Trap_V2
  imports Prelude
begin

text \<open>
  Privilege modes, interrupts and exceptions of the simulated core: \<^verbatim>\<open>src/models/cpu/iss_v2/src/core.cpp\<close>,
  \<^verbatim>\<open>src/models/cpu/iss_v2/src/irq/irq_riscv.cpp\<close> and \<^verbatim>\<open>src/models/cpu/iss_v2/src/exception.cpp\<close> (built with \<^verbatim>\<open>CONFIG_GVSOC_ISS_RISCV_EXCEPTIONS\<close> and without
  \<^verbatim>\<open>CONFIG_GVSOC_ISS_RI5KY\<close>), for any register width.

  The calls into the execution loop, the instruction cache and the timing object are recorded
  in \<open>pv_log\<close> in the order they are made.
\<close>

section \<open>State\<close>

datatype priv_act =
    Act_Insn_Hold | Act_Insn_Terminate | Act_Mode_Flush | Act_Interrupt_Taken | Act_Full_Mode | Act_Stall nat

record 'w priv =
  pv_mode :: nat
  pv_mstatus :: 'w
  pv_mie :: 'w
  pv_mip :: 'w
  pv_mideleg :: 'w
  pv_medeleg :: 'w
  pv_mepc :: 'w
  pv_sepc :: 'w
  pv_mcause :: 'w
  pv_scause :: 'w
  pv_mtvec :: 'w
  pv_stvec :: 'w
  pv_depc :: 'w
  pv_irq_enable :: bool
  pv_req_debug :: bool
  pv_debug_mode :: bool
  pv_debug_saved_irq_enable :: bool
  pv_debug_handler :: 'w
  pv_current_insn :: 'w
  pv_irq_locked :: int
  pv_wfi :: bool
  pv_retained :: int
  pv_has_exception :: bool
  pv_exception_pc :: 'w
  pv_req_irq :: int
  pv_log :: "priv_act list"

definition PRIV_U :: nat where "PRIV_U = 0"
definition PRIV_S :: nat where "PRIV_S = 1"
definition PRIV_M :: nat where "PRIV_M = 3"

definition act :: "priv_act \<Rightarrow> 'x::len word priv \<Rightarrow> 'x word priv" where
  "act a s = s\<lparr>pv_log := pv_log s @ [a]\<rparr>"

text \<open>The bit fields of \<^verbatim>\<open>mstatus\<close> that the code uses.\<close>

definition put_bit :: "nat \<Rightarrow> bool \<Rightarrow> 'x::len word \<Rightarrow> 'x word" where
  "put_bit k b w = (if b then set_bit k w else unset_bit k w)"

abbreviation (input) SIE :: nat where "SIE \<equiv> 1"
abbreviation (input) MIE :: nat where "MIE \<equiv> 3"
abbreviation (input) SPIE :: nat where "SPIE \<equiv> 5"
abbreviation (input) MPIE :: nat where "MPIE \<equiv> 7"
abbreviation (input) SPP :: nat where "SPP \<equiv> 8"
abbreviation (input) TSR :: nat where "TSR \<equiv> 22"

definition mpp :: "'x::len word \<Rightarrow> nat" where
  "mpp w = unat (take_bit 2 (drop_bit 11 w))"

definition put_mpp :: "nat \<Rightarrow> 'x::len word \<Rightarrow> 'x word" where
  "put_mpp n w = (w AND NOT (push_bit 11 3)) OR push_bit 11 (take_bit 2 (of_nat n))"

definition mstatus_put :: "nat \<Rightarrow> bool \<Rightarrow> 'x::len word priv \<Rightarrow> 'x word priv" where
  "mstatus_put k b s = s\<lparr>pv_mstatus := put_bit k b (pv_mstatus s)\<rparr>"

definition mstatus_put_mpp :: "nat \<Rightarrow> 'x::len word priv \<Rightarrow> 'x word priv" where
  "mstatus_put_mpp n s = s\<lparr>pv_mstatus := put_mpp n (pv_mstatus s)\<rparr>"

section \<open>Core: modes and status registers\<close>

definition mode_set :: "nat \<Rightarrow> 'x::len word priv \<Rightarrow> 'x word priv" where
  "mode_set m s = act Act_Mode_Flush (s\<lparr>pv_mode := m\<rparr>)"

definition mstatus_write_mask :: "'x::len word" where
  "mstatus_write_mask =
     (let m0 = (if LENGTH('x) = 64 then 0x8000003F007FFFEA else 0x807FFFEA);
          m1 = m0 AND NOT (push_bit 9 3) AND NOT (push_bit 15 3) AND NOT (push_bit 63 1)
      in if LENGTH('x) = 64 then m1 AND NOT (push_bit 32 3) AND NOT (push_bit 34 3) else m1)"

definition sstatus_write_mask :: "'x::len word" where
  "sstatus_write_mask =
     mstatus_write_mask AND (if LENGTH('x) = 64 then 0x80000003000DE762 else 0x800DE762)"

definition global_enable :: "bool \<Rightarrow> 'x::len word priv \<Rightarrow> 'x word priv" where
  "global_enable en s = act Act_Full_Mode (s\<lparr>pv_irq_enable := en\<rparr>)"

text \<open>
  The accesses return the core and the value read; the callbacks of \<^verbatim>\<open>mstatus\<close> and \<^verbatim>\<open>sstatus\<close> do the update
  themselves.
\<close>

definition mstatus_update :: "bool \<Rightarrow> 'x::len word \<Rightarrow> 'x word priv \<Rightarrow> 'x word priv \<times> 'x word" where
  "mstatus_update is_write v s =
     (if is_write then
        let s1 = s\<lparr>pv_mstatus := (pv_mstatus s AND NOT mstatus_write_mask) OR (v AND mstatus_write_mask)\<rparr>
        in (global_enable (bit (pv_mstatus s1) MIE) (act (Act_Stall 4) s1), v)
      else (s, pv_mstatus s))"

definition sstatus_update :: "bool \<Rightarrow> 'x::len word \<Rightarrow> 'x word priv \<Rightarrow> 'x word priv \<times> 'x word" where
  "sstatus_update is_write v s =
     (let s0 = act (Act_Stall 4) s
      in if is_write then
           let s1 = s0\<lparr>pv_mstatus := (pv_mstatus s0 AND NOT sstatus_write_mask) OR (v AND sstatus_write_mask)\<rparr>
           in (if pv_mode s1 = PRIV_S then global_enable (bit (pv_mstatus s1) SIE) s1 else s1, v)
         else (s0, pv_mstatus s0))"

section \<open>Exceptions\<close>

text \<open>Exception numbers; the one that enters debug mode shares its value with misaligned fetches.\<close>

definition ISS_EXCEPT_DEBUG :: nat where "ISS_EXCEPT_DEBUG = 0"
definition ISS_EXCEPT_ILLEGAL :: nat where "ISS_EXCEPT_ILLEGAL = 2"

text \<open>Saving the context of a trap, the part that \<^verbatim>\<open>raise\<close> and \<^verbatim>\<open>check\<close> share.\<close>

definition trap_save_m :: "'x::len word \<Rightarrow> 'x word priv \<Rightarrow> 'x word priv" where
  "trap_save_m pc s =
     mstatus_put_mpp (pv_mode s)
       (mstatus_put MPIE (pv_irq_enable s) (mstatus_put MIE False (s\<lparr>pv_mepc := pc\<rparr>)))"

definition trap_save_s :: "'x::len word \<Rightarrow> 'x word priv \<Rightarrow> 'x word priv" where
  "trap_save_s pc s =
     mstatus_put SPP (odd (pv_mode s))
       (mstatus_put SPIE (pv_irq_enable s) (mstatus_put SIE False (s\<lparr>pv_sepc := pc\<rparr>)))"

definition raise_exception :: "'x::len word \<Rightarrow> nat \<Rightarrow> 'x word priv \<Rightarrow> 'x word priv" where
  "raise_exception pc i s0 =
     (let s = act Act_Full_Mode s0;
          (s', pc') =
            (if i = ISS_EXCEPT_DEBUG then
               (s\<lparr>pv_depc := pc, pv_debug_saved_irq_enable := pv_irq_enable s, pv_irq_enable := False\<rparr>,
                pv_debug_handler s)
             else
               let next_mode = (if bit (pv_medeleg s) i then PRIV_S else PRIV_M);
                   s1 = (if next_mode = PRIV_M then trap_save_m pc s else trap_save_s pc s);
                   s2 = (mode_set next_mode s1)\<lparr>pv_irq_enable := False\<rparr>
               in if next_mode = PRIV_M then (s2\<lparr>pv_mcause := of_nat i\<rparr>, pv_mtvec s2)
                  else (s2\<lparr>pv_scause := of_nat i\<rparr>, pv_stvec s2))
      in s'\<lparr>pv_has_exception := True, pv_exception_pc := pc'\<rparr>)"

section \<open>Returns\<close>

text \<open>\<open>user_mode\<close> is \<^verbatim>\<open>CONFIG_GVSOC_ISS_USER_MODE\<close>. The results are the core and the next program counter.\<close>

definition mret_handle :: "bool \<Rightarrow> 'x::len word priv \<Rightarrow> 'x word priv \<times> 'x word" where
  "mret_handle user_mode s0 =
     (let s1 = mode_set (mpp (pv_mstatus s0)) (act Act_Full_Mode s0);
          s2 = mstatus_put_mpp (if user_mode then PRIV_U else PRIV_M) s1;
          s3 = s2\<lparr>pv_irq_enable := bit (pv_mstatus s2) MPIE\<rparr>;
          s4 = mstatus_put MIE (bit (pv_mstatus s3) MPIE) s3;
          s5 = mstatus_put MPIE True s4;
          s6 = s5\<lparr>pv_mcause := 0\<rparr>
      in (s6, pv_mepc s6))"

definition sret_handle :: "'x::len word priv \<Rightarrow> 'x word priv \<times> 'x word" where
  "sret_handle s =
     (if pv_mode s = PRIV_S \<and> bit (pv_mstatus s) TSR
      then (raise_exception (pv_current_insn s) ISS_EXCEPT_ILLEGAL s, 0)
      else
        let s1 = mode_set (if bit (pv_mstatus s) SPP then 1 else 0) (act Act_Full_Mode s);
            s2 = mstatus_put SPP False s1;
            s3 = s2\<lparr>pv_irq_enable := bit (pv_mstatus s2) SPIE\<rparr>;
            s4 = mstatus_put SIE (bit (pv_mstatus s3) SPIE) s3;
            s5 = mstatus_put SPIE True s4;
            s6 = s5\<lparr>pv_scause := 0\<rparr>
        in (s6, pv_sepc s6))"

definition dret_handle :: "'x::len word priv \<Rightarrow> 'x word priv \<times> 'x word" where
  "dret_handle s =
     (let s1 = (act Act_Full_Mode s)\<lparr>pv_irq_enable := pv_debug_saved_irq_enable s, pv_debug_mode := False\<rparr>
      in (s1, pv_depc s1))"

section \<open>Interrupts\<close>

definition check_interrupts :: "'x::len word priv \<Rightarrow> 'x word priv" where
  "check_interrupts s =
     (if pv_mie s AND pv_mip s \<noteq> 0 \<and> pv_irq_locked s = 0 then
        let s1 = act Act_Full_Mode s
        in if pv_wfi s1
           then act Act_Insn_Terminate (s1\<lparr>pv_wfi := False, pv_retained := pv_retained s1 - 1\<rparr>)
           else s1
      else s)"

text \<open>
  The wires set their bit of \<^verbatim>\<open>mip\<close> with shifts of an \<^verbatim>\<open>int\<close>, which is sign-extended to the register.
\<close>

definition mip_wire :: "nat \<Rightarrow> bool \<Rightarrow> 'x::len word \<Rightarrow> 'x word" where
  "mip_wire k v w =
     (w AND scast (NOT (push_bit k 1) :: u32)) OR scast (push_bit k (if v then 1 else 0) :: u32)"

definition external_irq_sync :: "bool \<Rightarrow> nat \<Rightarrow> 'x::len word priv \<Rightarrow> 'x word priv" where
  "external_irq_sync v i s = check_interrupts (s\<lparr>pv_mip := mip_wire i v (pv_mip s)\<rparr>)"

definition msi_sync :: "bool \<Rightarrow> 'x::len word priv \<Rightarrow> 'x word priv" where
  "msi_sync v s = check_interrupts (s\<lparr>pv_mip := mip_wire 3 v (pv_mip s)\<rparr>)"

definition mti_sync :: "bool \<Rightarrow> 'x::len word priv \<Rightarrow> 'x word priv" where
  "mti_sync v s = check_interrupts (s\<lparr>pv_mip := mip_wire 7 v (pv_mip s)\<rparr>)"

definition mei_sync :: "bool \<Rightarrow> 'x::len word priv \<Rightarrow> 'x word priv" where
  "mei_sync v s = check_interrupts (s\<lparr>pv_mip := mip_wire 11 v (pv_mip s)\<rparr>)"

definition sei_sync :: "bool \<Rightarrow> 'x::len word priv \<Rightarrow> 'x word priv" where
  "sei_sync v s = check_interrupts (s\<lparr>pv_mip := mip_wire 9 v (pv_mip s)\<rparr>)"

definition mip_access :: "bool \<Rightarrow> 'x::len word \<Rightarrow> 'x word priv \<Rightarrow> 'x word priv \<times> 'x word" where
  "mip_access is_write v s =
     (if is_write then (check_interrupts (s\<lparr>pv_mip := v AND 0xAAA\<rparr>), v)
      else (check_interrupts s, pv_mip s))"

definition mie_access :: "bool \<Rightarrow> 'x::len word \<Rightarrow> 'x word priv \<Rightarrow> 'x word priv \<times> 'x word" where
  "mie_access is_write v s =
     (if is_write then (check_interrupts (s\<lparr>pv_mie := v\<rparr>), v)
      else (check_interrupts s, pv_mie s))"

definition sip_access :: "bool \<Rightarrow> 'x::len word \<Rightarrow> 'x word priv \<Rightarrow> 'x word priv \<times> 'x word" where
  "sip_access is_write v s =
     (if is_write then (check_interrupts (s\<lparr>pv_mip := (pv_mip s AND NOT 0x222) OR (v AND 0x222)\<rparr>), v)
      else (check_interrupts s, pv_mip s AND 0x222))"

definition sie_access :: "bool \<Rightarrow> 'x::len word \<Rightarrow> 'x word priv \<Rightarrow> 'x word priv \<times> 'x word" where
  "sie_access is_write v s =
     (if is_write then (check_interrupts (s\<lparr>pv_mie := (pv_mie s AND NOT 0x222) OR (v AND 0x222)\<rparr>), v)
      else (check_interrupts s, pv_mie s AND 0x222))"

definition mtvec_access :: "bool \<Rightarrow> 'x::len word \<Rightarrow> 'x word priv \<Rightarrow> 'x word priv \<times> 'x word" where
  "mtvec_access is_write v s = (if is_write then (s\<lparr>pv_mtvec := v AND NOT 1\<rparr>, v) else (s, pv_mtvec s))"

definition stvec_access :: "bool \<Rightarrow> 'x::len word \<Rightarrow> 'x word priv \<Rightarrow> 'x word priv \<times> 'x word" where
  "stvec_access is_write v s = (if is_write then (s\<lparr>pv_stvec := v AND NOT 1\<rparr>, v) else (s, pv_stvec s))"

definition irq_reset :: "bool \<Rightarrow> 'x word \<Rightarrow> 'x::len word priv \<Rightarrow> 'x word priv" where
  "irq_reset active debug_handler_addr s =
     (if active
      then s\<lparr>pv_irq_enable := False, pv_req_irq := - 1, pv_req_debug := False, pv_debug_handler := debug_handler_addr\<rparr>
      else s)"

definition wfi_handle :: "'x::len word priv \<Rightarrow> 'x word priv" where
  "wfi_handle s =
     (if pv_mie s AND pv_mip s = 0
      then act Act_Insn_Hold (s\<lparr>pv_wfi := True, pv_retained := pv_retained s + 1\<rparr>)
      else s)"

text \<open>
  The interrupts that can be taken now, with the mode that handles them: machine mode when some
  interrupt that is not delegated can be taken, otherwise supervisor mode.
\<close>

definition irq_candidates :: "'x::len word priv \<Rightarrow> nat \<times> 'x word" where
  "irq_candidates s =
     (let pending = pv_mie s AND pv_mip s;
          m_irqs = pending AND NOT (pv_mideleg s);
          m_enabled = (pv_mode s = PRIV_M \<and> bit (pv_mstatus s) MIE \<or> pv_mode s < PRIV_M)
      in if m_irqs = 0 \<or> \<not> m_enabled then
           let s_enabled = (pv_mode s = PRIV_S \<and> bit (pv_mstatus s) SIE \<or> pv_mode s < PRIV_S)
           in (PRIV_S, if s_enabled then pending AND pv_mideleg s else 0)
         else (PRIV_M, m_irqs))"

text \<open>\<^verbatim>\<open>ffs\<close> takes an \<^verbatim>\<open>int\<close> and counts from 1, \<open>0\<close> when no bit is set.\<close>

definition ffs :: "u32 \<Rightarrow> int" where
  "ffs w = (if w = 0 then 0 else int (hd (filter (bit w) [0..<32])) + 1)"

definition irq_select :: "'x::len word \<Rightarrow> int" where
  "irq_select e =
     (if bit e 11 then 11 else if bit e 3 then 3 else if bit e 7 then 7
      else if bit e 9 then 9 else if bit e 1 then 1 else if bit e 5 then 5
      else ffs (ucast e) - 1)"

definition irq_cause :: "int \<Rightarrow> 'x::len word" where
  "irq_cause i = push_bit (LENGTH('x) - 1) 1 OR ucast (word_of_int i :: u32)"

definition irq_check :: "'x::len word priv \<Rightarrow> 'x word priv \<times> bool" where
  "irq_check s =
     (if pv_req_debug s \<and> \<not> pv_debug_mode s then
        (s\<lparr>pv_debug_mode := True, pv_depc := pv_current_insn s, pv_debug_saved_irq_enable := pv_irq_enable s,
           pv_irq_enable := False, pv_req_debug := False, pv_current_insn := pv_debug_handler s\<rparr>, True)
      else if pv_mie s AND pv_mip s = 0 then (s, False)
      else case irq_candidates s of (next_mode, irqs) \<Rightarrow>
        if irqs = 0 then (s, False)
        else
          let irq = irq_select irqs;
              s1 = act Act_Interrupt_Taken s;
              s2 = mstatus_put MIE False (mstatus_put MPIE (pv_irq_enable s1) (s1\<lparr>pv_mepc := pv_current_insn s1\<rparr>));
              s3 = (if next_mode = PRIV_M
                    then (trap_save_m (pv_current_insn s2) s2)
                           \<lparr>pv_current_insn := pv_mtvec s2, pv_mcause := irq_cause irq\<rparr>
                    else (trap_save_s (pv_current_insn s2) s2)
                           \<lparr>pv_current_insn := pv_stvec s2, pv_scause := irq_cause irq\<rparr>);
              s4 = (mode_set next_mode s3)\<lparr>pv_irq_enable := False\<rparr>
          in (act (Act_Stall 4) s4, True))"

section \<open>Bit fields\<close>

lemma bit_put_bit: "bit (put_bit k b w) i \<longleftrightarrow> (if i = k then b \<and> k < LENGTH('x) else bit w i)"
  for w :: "'x::len word"
  by (auto simp: put_bit_def bit_set_bit_iff bit_unset_bit_iff dest: bit_imp_le_length)

lemma mpp_eq: "mpp w = of_bool (bit w 11) + 2 * of_bool (bit w 12)" for w :: "'x::len word"
proof -
  let ?n = "unat (drop_bit 11 w)"
  have u: "bit ?n k \<longleftrightarrow> bit (drop_bit 11 w) k" for k by (simp add: bit_unsigned_iff)
  have "mpp w = take_bit (Suc (Suc 0)) ?n"
    by (simp add: mpp_def unsigned_take_bit_eq numeral_2_eq_2)
  also have "\<dots> = of_bool (odd ?n) + 2 * of_bool (odd (?n div 2))"
    by (simp add: take_bit_Suc mod_2_eq_odd)
  finally have "mpp w = of_bool (odd ?n) + 2 * of_bool (odd (?n div 2))" .
  moreover have "odd ?n \<longleftrightarrow> bit w 11" "odd (?n div 2) \<longleftrightarrow> bit w 12"
    using u[of 0] u[of 1] by (simp_all add: bit_drop_bit_eq bit_iff_odd[where ?'a = nat])
  ultimately show ?thesis by simp
qed

lemma bit_put_mpp:
  "bit (put_mpp n w) i \<longleftrightarrow> (if i = 11 \<or> i = 12 then i < LENGTH('x) \<and> bit n (i - 11) else bit w i)"
  for w :: "'x::len word"
proof -
  have m: "(3 :: 'x word) = mask 2" by (simp add: mask_eq_exp_minus_1)
  show ?thesis unfolding put_mpp_def m
    by (auto simp: bit_or_iff bit_and_iff bit_not_iff_eq bit_push_bit_iff bit_mask_iff bit_take_bit_iff bit_of_nat_iff
        dest: bit_imp_le_length)
qed

lemma mpp_put_mpp: "mpp (put_mpp n w) = n" if "n < 4" "13 \<le> LENGTH('x)" for w :: "'x::len word"
proof -
  have "n = 0 \<or> n = 1 \<or> n = 2 \<or> n = 3" using that(1) by auto
  then have "n = of_bool (odd n) + 2 * of_bool (odd (n div 2))" by auto
  then show ?thesis using that(2) by (simp add: mpp_eq bit_put_mpp bit_0 bit_iff_odd[where ?'a = nat])
qed

lemma mpp_put_bit: "k \<noteq> 11 \<Longrightarrow> k \<noteq> 12 \<Longrightarrow> mpp (put_bit k b w) = mpp w"
  by (simp add: mpp_eq bit_put_bit)

text \<open>What each operation on the status register leaves alone.\<close>

lemma mstatus_put_simps [simp]:
  "pv_mstatus (mstatus_put k b s) = put_bit k b (pv_mstatus s)"
  "pv_mstatus (mstatus_put_mpp n s) = put_mpp n (pv_mstatus s)"
  "pv_mstatus (act a s) = pv_mstatus s"
  "pv_mode (mstatus_put k b s) = pv_mode s" "pv_mode (mstatus_put_mpp n s) = pv_mode s" "pv_mode (act a s) = pv_mode s"
  "pv_irq_enable (mstatus_put k b s) = pv_irq_enable s" "pv_irq_enable (mstatus_put_mpp n s) = pv_irq_enable s"
  "pv_irq_enable (act a s) = pv_irq_enable s"
  "pv_mepc (mstatus_put k b s) = pv_mepc s" "pv_mepc (mstatus_put_mpp n s) = pv_mepc s" "pv_mepc (act a s) = pv_mepc s"
  "pv_sepc (mstatus_put k b s) = pv_sepc s" "pv_sepc (mstatus_put_mpp n s) = pv_sepc s" "pv_sepc (act a s) = pv_sepc s"
  "pv_mtvec (mstatus_put k b s) = pv_mtvec s" "pv_mtvec (mstatus_put_mpp n s) = pv_mtvec s" "pv_mtvec (act a s) = pv_mtvec s"
  "pv_stvec (mstatus_put k b s) = pv_stvec s" "pv_stvec (mstatus_put_mpp n s) = pv_stvec s" "pv_stvec (act a s) = pv_stvec s"
  "pv_medeleg (act a s) = pv_medeleg s"
  "pv_current_insn (mstatus_put k b s) = pv_current_insn s" "pv_current_insn (mstatus_put_mpp n s) = pv_current_insn s"
  "pv_current_insn (act a s) = pv_current_insn s"
  by (simp_all add: mstatus_put_def mstatus_put_mpp_def act_def)

lemma mode_set_simps [simp]:
  "pv_mode (mode_set m s) = m" "pv_mstatus (mode_set m s) = pv_mstatus s" "pv_irq_enable (mode_set m s) = pv_irq_enable s"
  "pv_mepc (mode_set m s) = pv_mepc s" "pv_sepc (mode_set m s) = pv_sepc s"
  "pv_mtvec (mode_set m s) = pv_mtvec s" "pv_stvec (mode_set m s) = pv_stvec s"
  "pv_current_insn (mode_set m s) = pv_current_insn s"
  by (simp_all add: mode_set_def act_def)

lemmas trap_defs = trap_save_m_def trap_save_s_def raise_exception_def mret_handle_def sret_handle_def
  PRIV_M_def PRIV_S_def PRIV_U_def ISS_EXCEPT_DEBUG_def

section \<open>Interrupt selection\<close>

text \<open>The order in which the standard interrupts are preferred; the others follow by number.\<close>

definition irq_order :: "nat list" where
  "irq_order = [11, 3, 7, 9, 1, 5]"

definition irq_rank :: "nat \<Rightarrow> nat" where
  "irq_rank i = (if i = 11 then 0 else if i = 3 then 1 else if i = 7 then 2 else if i = 9 then 3
                 else if i = 1 then 4 else if i = 5 then 5 else 6 + i)"

lemma ffs_spec:
  assumes "w \<noteq> 0"
  shows "\<exists>i. ffs w = int i + 1 \<and> bit w i \<and> (\<forall>j. bit w j \<longrightarrow> i \<le> j)"
proof -
  let ?l = "filter (bit w) [0..<32]"
  obtain k where k: "bit w k" using assms by (metis bit_eq_iff bit_0_eq bot_apply bot_bool_def)
  have k32: "k < 32" using bit_imp_le_length[OF k] by simp
  have ne: "?l \<noteq> []" using k k32 by (auto simp: filter_empty_conv)
  have "bit w (hd ?l)" using hd_in_set[OF ne] by simp
  moreover have "hd ?l \<le> j" if "bit w j" for j
  proof -
    have "j < 32" using bit_imp_le_length[OF that] by simp
    then have "j \<in> set ?l" using that by simp
    moreover have "sorted ?l" by (intro sorted_wrt_filter sorted_upt)
    ultimately show ?thesis by (cases ?l) auto
  qed
  ultimately show ?thesis using assms by (auto simp: ffs_def)
qed

lemma irq_select_best:
  fixes e :: "'x::len word"
  assumes "ucast e \<noteq> (0 :: u32)" "LENGTH('x) \<ge> 32"
  shows "\<exists>i. irq_select e = int i \<and> bit e i \<and> (\<forall>j < 32. bit e j \<longrightarrow> irq_rank i \<le> irq_rank j)"
proof (cases "\<exists>k \<in> set irq_order. bit e k")
  case True
  then show ?thesis by (auto simp: irq_select_def irq_rank_def irq_order_def)
next
  case False
  obtain i where i: "ffs (ucast e) = int i + 1" "bit (ucast e :: u32) i"
      "\<And>j. bit (ucast e :: u32) j \<Longrightarrow> i \<le> j" using ffs_spec[OF assms(1)] by blast
  have n: "\<not> bit e 11" "\<not> bit e 3" "\<not> bit e 7" "\<not> bit e 9" "\<not> bit e 1" "\<not> bit e 5"
    using False by (auto simp: irq_order_def)
  have "irq_select e = int i" using n i(1) by (simp add: irq_select_def)
  moreover have "bit e i" using i(2) by (simp add: bit_ucast_iff)
  moreover have "irq_rank i \<le> irq_rank j" if "j < 32" "bit e j" for j
  proof -
    have "i \<le> j" using i(3)[of j] that by (simp add: bit_ucast_iff)
    then show ?thesis using n that \<open>bit e i\<close> by (auto simp: irq_rank_def)
  qed
  ultimately show ?thesis by blast
qed

text \<open>
  Interrupt \<open>i\<close> can be taken in mode \<open>m\<close>: it is enabled and pending, \<open>m\<close> is the mode it is
  delegated to, and the core is in a less privileged mode, or in that mode with its global
  enable bit set.
\<close>

definition can_take :: "'x::len word priv \<Rightarrow> nat \<Rightarrow> nat \<Rightarrow> bool" where
  "can_take s m i \<longleftrightarrow> bit (pv_mie s) i \<and> bit (pv_mip s) i \<and>
     (if bit (pv_mideleg s) i
      then m = PRIV_S \<and> (pv_mode s < PRIV_S \<or> pv_mode s = PRIV_S \<and> bit (pv_mstatus s) SIE)
      else m = PRIV_M \<and> (pv_mode s < PRIV_M \<or> pv_mode s = PRIV_M \<and> bit (pv_mstatus s) MIE))"

lemma candidates_bits:
  assumes "irq_candidates s = (m, irqs)"
  shows "bit irqs i \<longleftrightarrow> can_take s m i" "m = PRIV_M \<or> m = PRIV_S \<and> \<not> can_take s PRIV_M j"
    "irqs = 0 \<Longrightarrow> \<not> can_take s m' j"
proof -
  let ?mi = "(pv_mie s AND pv_mip s) AND NOT (pv_mideleg s)"
  have z: "?mi = 0 \<longleftrightarrow> (\<forall>j. \<not> bit ?mi j)" by (metis bit_eq_iff bit_0_eq bot_apply bot_bool_def)
  have b: "bit ?mi j \<longleftrightarrow> bit (pv_mie s) j \<and> bit (pv_mip s) j \<and> \<not> bit (pv_mideleg s) j" for j
    by (auto simp: bit_simps dest: bit_imp_le_length)
  show bits: "bit irqs i \<longleftrightarrow> can_take s m i"
    using assms b[of i] by (auto simp: irq_candidates_def can_take_def Let_def bit_and_iff PRIV_M_def PRIV_S_def split: if_splits)
  show m: "m = PRIV_M \<or> m = PRIV_S \<and> \<not> can_take s PRIV_M j"
    using assms z b[of j] by (auto simp: irq_candidates_def can_take_def Let_def PRIV_M_def PRIV_S_def split: if_splits)
  show "\<not> can_take s m' j" if "irqs = 0"
  proof
    assume c: "can_take s m' j"
    then consider "m' = PRIV_M" | "m' = PRIV_S" by (auto simp: can_take_def split: if_splits)
    then show False
    proof cases
      case 1
      then have cm: "can_take s 3 j" using c by (simp add: PRIV_M_def)
      then have nd: "\<not> bit (pv_mideleg s) j" by (simp add: can_take_def PRIV_S_def split: if_splits)
      have mi: "bit ?mi j" "pv_mode s < PRIV_M \<or> pv_mode s = PRIV_M \<and> bit (pv_mstatus s) MIE"
        using cm nd unfolding b can_take_def by (simp_all add: PRIV_M_def)
      then have "?mi \<noteq> 0" using z by blast
      then have "irq_candidates s = (PRIV_M, ?mi)" using mi(2) unfolding irq_candidates_def Let_def by auto
      then show ?thesis using assms that \<open>?mi \<noteq> 0\<close> by simp
    next
      case 2
      then have cs: "can_take s 1 j" using c by (simp add: PRIV_S_def)
      then have d: "bit (pv_mideleg s) j" by (simp add: can_take_def PRIV_M_def split: if_splits)
      have sj: "bit ((pv_mie s AND pv_mip s) AND pv_mideleg s) j"
          "pv_mode s = PRIV_S \<and> bit (pv_mstatus s) SIE \<or> pv_mode s < PRIV_S"
        using cs d unfolding can_take_def bit_and_iff by (auto simp: PRIV_S_def)
      then have "irqs = (pv_mie s AND pv_mip s) AND pv_mideleg s \<or> irqs = ?mi \<and> ?mi \<noteq> 0"
        using assms unfolding irq_candidates_def Let_def by (simp split: if_splits)
      then show ?thesis using that sj(1) by auto
    qed
  qed
qed

text \<open>
  C15: Without a debug request, an interrupt is taken exactly when one can be taken. The mode
  entered is machine mode whenever a machine-mode interrupt can be taken and is never less
  privileged than the current one; the interrupt is the preferred one of that mode, its number
  is written to the cause register and execution continues at the vector of the mode. When
  none can be taken, nothing changes.
\<close>

theorem irq_check_takes:
  assumes "pv_req_debug s = False" "irq_check (s :: u32 priv) = (s', taken)"
  shows "(taken \<longleftrightarrow> (\<exists>m i. can_take s m i)) \<and>
         (if taken then
            pv_mode s \<le> pv_mode s' \<and> \<not> pv_irq_enable s' \<and>
            ((\<exists>i. can_take s PRIV_M i) \<longleftrightarrow> pv_mode s' = PRIV_M) \<and>
            (\<exists>i. can_take s (pv_mode s') i \<and> irq_rank i = (LEAST n. \<exists>j. can_take s (pv_mode s') j \<and> n = irq_rank j) \<and>
                 (if pv_mode s' = PRIV_M
                  then pv_mcause s' = irq_cause (int i) \<and> pv_current_insn s' = pv_mtvec s
                  else pv_scause s' = irq_cause (int i) \<and> pv_current_insn s' = pv_stvec s))
          else s' = s)"
proof -
  obtain m irqs where c: "irq_candidates s = (m, irqs)" by fastforce
  note cb = candidates_bits[OF c]
  have none: "\<not> can_take s m' i" if "pv_mie s AND pv_mip s = 0" for m' i
    using that by (metis bit_0_eq bit_and_iff bot_apply bot_bool_def can_take_def)
  show ?thesis
  proof (cases "pv_mie s AND pv_mip s = 0 \<or> irqs = 0")
    case True
    then have "s' = s" "taken = False" using assms by (auto simp: irq_check_def c split: if_splits)
    then show ?thesis using True none cb(3) by auto
  next
    case False
    have ne: "ucast irqs \<noteq> (0 :: u32)" using False by simp
    obtain i where i: "irq_select irqs = int i" "bit irqs i" "\<And>j. j < 32 \<Longrightarrow> bit irqs j \<Longrightarrow> irq_rank i \<le> irq_rank j"
      using irq_select_best[OF ne] by auto
    have best: "irq_rank i \<le> irq_rank j" if "can_take s m j" for j
      using i(3)[of j] that bit_imp_le_length[of irqs j] by (simp add: cb(1))
    have tk: "can_take s m i" using i(2) cb(1) by simp
    have l: "irq_rank i = (LEAST n. \<exists>j. can_take s m j \<and> n = irq_rank j)"
      by (rule Least_equality[symmetric]) (use tk best in auto)
    have s': "taken" "pv_mode s' = m" "\<not> pv_irq_enable s'"
      "if m = PRIV_M then pv_mcause s' = irq_cause (int i) \<and> pv_current_insn s' = pv_mtvec s
       else pv_scause s' = irq_cause (int i) \<and> pv_current_insn s' = pv_stvec s"
      using assms c False i(1) by (auto simp: irq_check_def Let_def trap_save_m_def trap_save_s_def act_def mstatus_put_def
          mstatus_put_mpp_def mode_set_def split: if_splits)
    have md: "pv_mode s \<le> m" using tk by (auto simp: can_take_def PRIV_M_def PRIV_S_def split: if_splits)
    have mm: "(\<exists>i. can_take s PRIV_M i) \<longleftrightarrow> m = PRIV_M" using cb(2) tk by blast
    show ?thesis using s' md mm l tk by auto
  qed
qed

definition ex_priv :: "nat \<Rightarrow> u32 priv" where
  "ex_priv mode =
     \<lparr>pv_mode = mode, pv_mstatus = 0x8, pv_mie = 0x888, pv_mip = 0x80, pv_mideleg = 0, pv_medeleg = 4,
      pv_mepc = 0, pv_sepc = 0, pv_mcause = 0, pv_scause = 0, pv_mtvec = 0x100, pv_stvec = 0x200, pv_depc = 0,
      pv_irq_enable = True, pv_req_debug = False, pv_debug_mode = False, pv_debug_saved_irq_enable = False,
      pv_debug_handler = 0, pv_current_insn = 0x40, pv_irq_locked = 0, pv_wfi = False, pv_retained = 0,
      pv_has_exception = False, pv_exception_pc = 0, pv_req_irq = 0, pv_log = []\<rparr>"

lemma ex_priv_can_take: "can_take (ex_priv 0) PRIV_M 7"
  by (simp add: can_take_def ex_priv_def PRIV_M_def PRIV_S_def bit_numeral_word_iff)

theorem irq_check_takes_witness:
  "pv_req_debug (ex_priv 0) = False \<and> snd (irq_check (ex_priv 0)) \<and> pv_mode (fst (irq_check (ex_priv 0))) = PRIV_M"
proof -
  obtain s' tk where c: "irq_check (ex_priv 0) = (s', tk)" by fastforce
  have r: "pv_req_debug (ex_priv 0) = False" by (simp add: ex_priv_def)
  have "tk" "pv_mode s' = PRIV_M" using irq_check_takes[OF r c] ex_priv_can_take by (auto split: if_splits)
  then show ?thesis using r c by simp
qed

section \<open>Traps and returns\<close>

lemma raise_m:
  assumes "i \<noteq> ISS_EXCEPT_DEBUG" "\<not> bit (pv_medeleg s) i"
  shows "pv_mode (raise_exception pc i s) = PRIV_M" "pv_mepc (raise_exception pc i s) = pc"
    "pv_mstatus (raise_exception pc i s) =
       put_mpp (pv_mode s) (put_bit MPIE (pv_irq_enable s) (put_bit MIE False (pv_mstatus s)))"
  using assms by (simp_all add: raise_exception_def trap_save_m_def Let_def)

lemma raise_s:
  assumes "i \<noteq> ISS_EXCEPT_DEBUG" "bit (pv_medeleg s) i"
  shows "pv_mode (raise_exception pc i s) = PRIV_S" "pv_sepc (raise_exception pc i s) = pc"
    "pv_mstatus (raise_exception pc i s) =
       put_bit SPP (odd (pv_mode s)) (put_bit SPIE (pv_irq_enable s) (put_bit SIE False (pv_mstatus s)))"
  using assms by (simp_all add: raise_exception_def trap_save_s_def Let_def PRIV_S_def PRIV_M_def)

lemma mret_fields:
  fixes s :: "'x::len word priv"
  assumes "8 \<le> LENGTH('x)"
  shows "pv_mode (fst (mret_handle um s)) = mpp (pv_mstatus s)" "snd (mret_handle um s) = pv_mepc s"
    "pv_irq_enable (fst (mret_handle um s)) = bit (pv_mstatus s) MPIE"
  using assms by (simp_all add: mret_handle_def Let_def bit_put_mpp)

lemma sret_fields:
  fixes s :: "'x::len word priv"
  assumes "9 \<le> LENGTH('x)" "\<not> bit (pv_mstatus s) TSR"
  shows "pv_mode (fst (sret_handle s)) = (if bit (pv_mstatus s) SPP then 1 else 0)" "snd (sret_handle s) = pv_sepc s"
    "pv_irq_enable (fst (sret_handle s)) = bit (pv_mstatus s) SPIE"
  using assms by (simp_all add: sret_handle_def Let_def bit_put_bit)

text \<open>
  The traps: exceptions other than the entry of debug mode, a delegated one not from machine mode, and interrupts that the check takes
  while no debug request is waiting. \<open>trap_enters s pc e\<close>: the trap takes the core from \<open>s\<close>, about to execute \<open>pc\<close>, to \<open>e\<close>.
\<close>

inductive trap_enters :: "'x::len word priv \<Rightarrow> 'x word \<Rightarrow> 'x word priv \<Rightarrow> bool" where
  exception: "i \<noteq> ISS_EXCEPT_DEBUG \<Longrightarrow> bit (pv_medeleg s) i \<longrightarrow> pv_mode s \<le> PRIV_S \<Longrightarrow> trap_enters s pc (raise_exception pc i s)"
| interrupt: "pv_req_debug s = False \<Longrightarrow> irq_check s = (e, True) \<Longrightarrow> trap_enters s (pv_current_insn s) e"

text \<open>The return that ends a handler running in the mode of \<open>h\<close>, with user mode configured.\<close>

definition trap_ret :: "'x::len word priv \<Rightarrow> 'x word priv \<times> 'x word" where
  "trap_ret h = (if pv_mode h = PRIV_M then mret_handle True h else sret_handle h)"

text \<open>What a trap leaves for its return.\<close>

definition saved_m :: "'x::len word priv \<Rightarrow> 'x word \<Rightarrow> 'x word priv \<Rightarrow> bool" where
  "saved_m s pc e \<longleftrightarrow> pv_mode e = PRIV_M \<and> pv_mepc e = pc \<and> mpp (pv_mstatus e) = pv_mode s \<and> bit (pv_mstatus e) MPIE = pv_irq_enable s"

definition saved_s :: "'x::len word priv \<Rightarrow> 'x word \<Rightarrow> 'x word priv \<Rightarrow> bool" where
  "saved_s s pc e \<longleftrightarrow> pv_mode e = PRIV_S \<and> pv_sepc e = pc \<and> pv_mode s \<le> PRIV_S \<and> bit (pv_mstatus e) SPP = odd (pv_mode s) \<and>
     bit (pv_mstatus e) SPIE = pv_irq_enable s \<and> bit (pv_mstatus e) TSR = bit (pv_mstatus s) TSR"

lemma irq_entry:
  assumes "pv_req_debug s = False" "irq_check s = (e, True)" "23 \<le> LENGTH('x)" "pv_mode s < 4"
  shows "saved_m s (pv_current_insn s) e \<or> saved_s s (pv_current_insn (s :: 'x::len word priv)) e"
proof -
  obtain m irqs where c: "irq_candidates s = (m, irqs)" by fastforce
  have nz: "irqs \<noteq> 0" using assms(1,2) by (auto simp: irq_check_def c split: if_splits)
  then obtain i where "bit irqs i" by (metis bit_eq_iff bit_0_eq bot_apply bot_bool_def)
  then have md: "m = PRIV_M \<or> m = PRIV_S \<and> pv_mode s \<le> PRIV_S"
    using candidates_bits(1)[OF c, of i] candidates_bits(2)[OF c] by (auto simp: can_take_def split: if_splits)
  have l: "13 \<le> LENGTH('x)" using assms(3) by simp
  have n: "pv_mie s AND pv_mip s \<noteq> 0" using assms(1,2) by (auto simp: irq_check_def split: if_splits)
  show ?thesis
  proof (cases "m = PRIV_M")
    case True
    then have "saved_m s (pv_current_insn s) e" using assms(1-3) n nz mpp_put_mpp[OF assms(4) l]
      by (auto simp: irq_check_def c Let_def trap_save_m_def saved_m_def bit_put_mpp bit_put_bit)
    then show ?thesis ..
  next
    case False
    then have "saved_s s (pv_current_insn s) e" using assms(1-3) n nz md
      by (auto simp: irq_check_def c Let_def trap_save_s_def saved_s_def bit_put_bit PRIV_S_def PRIV_M_def)
    then show ?thesis ..
  qed
qed

lemma exception_entry:
  assumes "i \<noteq> ISS_EXCEPT_DEBUG" "bit (pv_medeleg s) i \<longrightarrow> pv_mode s \<le> PRIV_S" "23 \<le> LENGTH('x)" "pv_mode s < 4"
  shows "saved_m s pc (raise_exception pc i s) \<or> saved_s s pc (raise_exception pc i (s :: 'x::len word priv))"
proof (cases "bit (pv_medeleg s) i")
  case True
  then have "saved_s s pc (raise_exception pc i s)" using raise_s[OF assms(1) True, of pc] assms(2,3) by (simp add: saved_s_def bit_put_bit)
  then show ?thesis ..
next
  case False
  have l: "13 \<le> LENGTH('x)" using assms(3) by simp
  have "saved_m s pc (raise_exception pc i s)" using raise_m[OF assms(1) False, of pc] assms(3) mpp_put_mpp[OF assms(4) l]
    by (simp add: saved_m_def bit_put_mpp bit_put_bit)
  then show ?thesis ..
qed



text \<open>
  An interrupt handled in supervisor mode also overwrites the machine-mode context: the
  machine exception program counter is lost and machine interrupts are disabled, which the
  return from supervisor mode does not undo.
\<close>

theorem irq_s_clobbers_m:
  assumes "irq_check s = (s', True)" "pv_req_debug s = False" "pv_mode s' = PRIV_S" "8 \<le> LENGTH('x)"
  shows "pv_mepc s' = pv_current_insn s \<and> \<not> bit (pv_mstatus s') MIE \<and>
         bit (pv_mstatus s') MPIE = pv_irq_enable (s :: 'x::len word priv)"
proof -
  obtain m irqs where c: "irq_candidates s = (m, irqs)" by fastforce
  have "m = PRIV_S" using assms(1-3)
    by (auto simp: irq_check_def c Let_def act_def mode_set_def split: if_splits)
  then show ?thesis using assms
    by (auto simp: irq_check_def c Let_def trap_save_s_def bit_put_bit PRIV_S_def PRIV_M_def split: if_splits)
qed

lemma ex_priv_deleg:
  "irq_check ((ex_priv 0)\<lparr>pv_mideleg := 0x80\<rparr>) = (fst (irq_check ((ex_priv 0)\<lparr>pv_mideleg := 0x80\<rparr>)), True) \<and>
   pv_mode (fst (irq_check ((ex_priv 0)\<lparr>pv_mideleg := 0x80\<rparr>))) = PRIV_S"
  by (simp add: irq_check_def irq_candidates_def ex_priv_def PRIV_M_def PRIV_S_def Let_def mode_set_def act_def)

theorem irq_s_clobbers_m_witness:
  "pv_mode (fst (irq_check ((ex_priv 0)\<lparr>pv_mideleg := 0x80\<rparr>))) = PRIV_S \<and>
   bit (pv_mstatus (ex_priv 0)) MIE \<and>
   \<not> bit (pv_mstatus (fst (irq_check ((ex_priv 0)\<lparr>pv_mideleg := 0x80\<rparr>)))) MIE"
proof -
  let ?s = "(ex_priv 0)\<lparr>pv_mideleg := 0x80\<rparr>"
  have r: "pv_req_debug ?s = False" "8 \<le> LENGTH(32)" "bit (pv_mstatus (ex_priv 0)) MIE"
    by (simp_all add: ex_priv_def bit_numeral_word_iff)
  show ?thesis using irq_s_clobbers_m[OF conjunct1[OF ex_priv_deleg] r(1) conjunct2[OF ex_priv_deleg] r(2)]
      ex_priv_deleg r(3) by simp
qed

text \<open>
  An exception whose number is set in the delegation register is handled in supervisor
  mode whatever the current mode is: raised in machine mode it lowers the privilege, and the
  return from it goes to supervisor mode, because the saved mode has one bit only.
\<close>

theorem exception_lowers_privilege:
  "pv_mode (raise_exception pc 2 (ex_priv 3)) = PRIV_S \<and>
   pv_mode (fst (sret_handle (raise_exception pc 2 (ex_priv 3)))) = PRIV_S \<and>
   pv_mode (ex_priv 3) = PRIV_M"
proof -
  have d: "2 \<noteq> ISS_EXCEPT_DEBUG" "bit (pv_medeleg (ex_priv 3)) 2" "\<not> bit (pv_mstatus (ex_priv 3)) TSR" "pv_mode (ex_priv 3) = 3"
    by (simp_all add: ISS_EXCEPT_DEBUG_def ex_priv_def bit_numeral_word_iff)
  note r = raise_s[OF d(1,2), of pc]
  have t: "\<not> bit (pv_mstatus (raise_exception pc 2 (ex_priv 3))) TSR" using d(3) r by (simp add: bit_put_bit)
  have l: "9 \<le> LENGTH(32)" by simp
  show ?thesis using r sret_fields(1)[OF l t] d(4) by (simp add: bit_put_bit PRIV_S_def PRIV_M_def)
qed

end
