(* ===== verification/Mmu.thy ===== *)
theory Mmu
  imports Prelude
begin

text \<open>
  The memory-management unit, \<^verbatim>\<open>src/models/cpu/iss/src/mmu.cpp\<close> and \<^verbatim>\<open>src/models/cpu/iss/include/mmu_implem.hpp\<close>, as built for a 64-bit core with
  \<^verbatim>\<open>CONFIG_GVSOC_ISS_MMU\<close>: the translation look-aside buffer, the page-table walk as the state machine it is
  (one page-table entry read per step), and \<^verbatim>\<open>satp\<close>.

  A step returns the unit and what it asks of the rest of the core: a read of a page-table
  entry, an exception with the value for \<^verbatim>\<open>stval\<close>, or that the stalled instruction is executed again.
\<close>

section \<open>State\<close>

datatype access_type = ACCESS_INSN | ACCESS_LOAD | ACCESS_STORE

datatype mmu_act = Mm_Read_Pte u64 | Mm_Raise nat u64 | Mm_Resume

record mmu =
  mm_satp :: u64
  mm_pt_base :: u64
  mm_asid :: u64
  mm_mode :: u64
  mm_nb_levels :: int
  mm_pte_size :: int
  mm_vpn_width :: int
  tlb_insn_tag :: "nat \<Rightarrow> u64"
  tlb_insn_phys_addr :: "nat \<Rightarrow> u64"
  tlb_load_tag :: "nat \<Rightarrow> u64"
  tlb_load_use_mem_array :: "nat \<Rightarrow> bool"
  tlb_store_tag :: "nat \<Rightarrow> u64"
  tlb_ls_phys_addr :: "nat \<Rightarrow> u64"
  mm_current_level :: int
  mm_current_vpn_bit :: int
  mm_current_virt_addr :: u64
  mm_pte_value :: u64
  mm_access_type :: access_type
  mm_stall_insn :: u64
  mm_irq_locked :: int

text \<open>What the unit reads of the rest of the core.\<close>

record mmu_env =
  me_mode :: nat
  me_mprv :: bool
  me_mpp :: nat
  me_tvm :: bool
  me_memory_start :: u64
  me_memory_end :: u64
  me_current_insn :: u64

definition MMU_MODE_SV39 :: u64 where "MMU_MODE_SV39 = 8"
definition MMU_PTE_ATTR :: u64 where "MMU_PTE_ATTR = 0xFFC0000000000000"

definition mmu_get_field :: "u64 \<Rightarrow> int \<Rightarrow> int \<Rightarrow> u64" where
  "mmu_get_field field b width = drop_bit (nat b) field AND (push_bit (nat width) 1 - 1)"

section \<open>Look-aside buffer and satp\<close>

definition mmu_flush :: "mmu \<Rightarrow> mmu" where
  "mmu_flush m =
     (let inval = (\<lambda>tags i. if i < 256 then - 1 else tags i)
      in m\<lparr>tlb_insn_tag := inval (tlb_insn_tag m), tlb_load_tag := inval (tlb_load_tag m),
           tlb_store_tag := inval (tlb_store_tag m)\<rparr>)"

definition mmu_reset :: "bool \<Rightarrow> mmu \<Rightarrow> mmu" where
  "mmu_reset active m = (if active then mmu_flush (m\<lparr>mm_satp := 0, mm_mode := 0\<rparr>) else m)"

text \<open>
  \<open>satp_update\<close> returns whether the access goes on to the register, and whether an
  illegal-instruction exception is raised.
\<close>

definition satp_update :: "mmu_env \<Rightarrow> bool \<Rightarrow> u64 \<Rightarrow> mmu \<Rightarrow> mmu \<times> bool \<times> bool" where
  "satp_update env is_write v m =
     (if me_mode env = 1 \<and> me_tvm env then (m, False, True)
      else
        let pt_base = push_bit 12 (mmu_get_field v 0 44);
            asid = mmu_get_field v 44 16;
            mode = mmu_get_field v 60 4
        in if is_write \<and> mode \<noteq> 0 \<and> mode \<noteq> MMU_MODE_SV39 then (m, False, False)
           else
             let m1 = (if is_write then m\<lparr>mm_satp := v, mm_asid := asid, mm_mode := mode, mm_pt_base := pt_base\<rparr> else m);
                 m2 = (if is_write \<and> mm_mode m1 = MMU_MODE_SV39
                       then m1\<lparr>mm_nb_levels := 3, mm_pte_size := 8, mm_vpn_width := 9\<rparr> else m1)
             in (mmu_flush m2, True, False))"

section \<open>Page-table walk\<close>

fun fault_id :: "access_type \<Rightarrow> nat" where
  "fault_id ACCESS_LOAD = 13"
| "fault_id ACCESS_STORE = 15"
| "fault_id ACCESS_INSN = 12"

definition mmu_raise_exception :: "mmu \<Rightarrow> mmu \<times> mmu_act" where
  "mmu_raise_exception m =
     (m\<lparr>mm_irq_locked := mm_irq_locked m - 1\<rparr>, Mm_Raise (fault_id (mm_access_type m)) (mm_current_virt_addr m))"

abbreviation (input) PTE_V :: nat where "PTE_V \<equiv> 0"
abbreviation (input) PTE_R :: nat where "PTE_R \<equiv> 1"
abbreviation (input) PTE_W :: nat where "PTE_W \<equiv> 2"
abbreviation (input) PTE_X :: nat where "PTE_X \<equiv> 3"
abbreviation (input) PTE_A :: nat where "PTE_A \<equiv> 6"
abbreviation (input) PTE_D :: nat where "PTE_D \<equiv> 7"

definition pte_page :: "u64 \<Rightarrow> u64" where
  "pte_page pte = push_bit 12 (drop_bit 10 (pte AND NOT MMU_PTE_ATTR))"

definition tlb_index :: "u64 \<Rightarrow> nat" where
  "tlb_index va = unat (drop_bit 12 va AND 0xff)"

definition handle_leaf :: "mmu_env \<Rightarrow> mmu \<Rightarrow> mmu \<times> mmu_act" where
  "handle_leaf env m =
     (let pte = mm_pte_value m;
          va = mm_current_virt_addr m;
          phys_base = pte_page pte;
          misaligned = (mm_current_level m > 0 \<and>
             mmu_get_field phys_base 12 (mm_pte_size m * mm_current_level m) \<noteq> 0)
      in if misaligned then mmu_raise_exception m
         else
           let phys_base = (if mm_current_level m > 0
                            then phys_base + push_bit 12 (mmu_get_field va 12 (mm_vpn_width m)) else phys_base);
               virt_base = push_bit 12 (drop_bit 12 va);
               tag = drop_bit 12 va;
               index = tlb_index va;
               done = (\<lambda>m. (m\<lparr>mm_irq_locked := mm_irq_locked m - 1\<rparr>, Mm_Resume))
           in if mm_access_type m = ACCESS_INSN then
                if \<not> bit pte PTE_A \<or> \<not> bit pte PTE_X then mmu_raise_exception m
                else done (m\<lparr>tlb_insn_tag := (tlb_insn_tag m)(index := tag),
                             tlb_insn_phys_addr := (tlb_insn_phys_addr m)(index := phys_base - virt_base)\<rparr>)
              else if \<not> bit pte PTE_A \<or> mm_access_type m = ACCESS_LOAD \<and> \<not> bit pte PTE_R \<or>
                      mm_access_type m = ACCESS_STORE \<and> (\<not> bit pte PTE_W \<or> \<not> bit pte PTE_D)
              then mmu_raise_exception m
              else done (m\<lparr>tlb_load_tag := (tlb_load_tag m)(index := if bit pte PTE_R then tag else - 1),
                           tlb_store_tag := (tlb_store_tag m)(index := if bit pte PTE_W \<and> bit pte PTE_D then tag else - 1),
                           tlb_load_use_mem_array := (tlb_load_use_mem_array m)
                             (index := phys_base \<ge> me_memory_start env \<and> phys_base < me_memory_end env),
                           tlb_ls_phys_addr := (tlb_ls_phys_addr m)(index := phys_base - virt_base)\<rparr>))"

definition handle_pte :: "mmu_env \<Rightarrow> mmu \<Rightarrow> mmu \<times> mmu_act" where
  "handle_pte env m =
     (let pte = mm_pte_value m
      in if \<not> bit pte PTE_V \<or> (\<not> bit pte PTE_R \<and> bit pte PTE_W) \<or> pte AND MMU_PTE_ATTR \<noteq> 0
         then mmu_raise_exception m
         else if bit pte PTE_R \<or> bit pte PTE_X then handle_leaf env m
         else
           let m1 = m\<lparr>mm_current_level := mm_current_level m - 1,
                      mm_current_vpn_bit := mm_current_vpn_bit m - mm_vpn_width m\<rparr>
           in if mm_current_level m1 < 0 then mmu_raise_exception m1
              else (m1, Mm_Read_Pte (pte_page pte +
                          mmu_get_field (mm_current_virt_addr m1) (mm_current_vpn_bit m1) (mm_vpn_width m1)
                            * word_of_int (mm_pte_size m1))))"

definition walk_pgtab :: "mmu_env \<Rightarrow> u64 \<Rightarrow> mmu \<Rightarrow> mmu \<times> mmu_act" where
  "walk_pgtab env va m =
     (let vpn_bit = 12 + mm_nb_levels m * mm_vpn_width m - mm_vpn_width m;
          m1 = m\<lparr>mm_irq_locked := mm_irq_locked m + 1, mm_stall_insn := me_current_insn env,
                 mm_current_virt_addr := va, mm_current_level := mm_nb_levels m - 1, mm_current_vpn_bit := vpn_bit\<rparr>
      in (m1, Mm_Read_Pte (mm_pt_base m1 + mmu_get_field va vpn_bit (mm_vpn_width m1) * word_of_int (mm_pte_size m1))))"

text \<open>
  The loop through the memory: each entry asked for is read (\<^verbatim>\<open>read_pte\<close>) and handled, when the memory
  answers. The number of steps is bounded by the first argument.
\<close>

fun walk_steps :: "nat \<Rightarrow> mmu_env \<Rightarrow> (u64 \<Rightarrow> u64) \<Rightarrow> mmu \<times> mmu_act \<Rightarrow> mmu \<times> mmu_act" where
  "walk_steps (Suc n) env mem (m, Mm_Read_Pte a) = walk_steps n env mem (handle_pte env (m\<lparr>mm_pte_value := mem a\<rparr>))"
| "walk_steps n env mem r = r"

section \<open>Translation\<close>

text \<open>
  The result is the unit, the physical address when the look-up succeeds and otherwise the
  first step of the walk. The page number of a miss is kept in a 32-bit \<^verbatim>\<open>int\<close>.
\<close>

datatype xlate = Phys u64 | Stalled mmu_act

definition virt_to_phys_miss :: "mmu_env \<Rightarrow> u64 \<Rightarrow> mmu \<Rightarrow> mmu \<times> xlate" where
  "virt_to_phys_miss env va m =
     (let mode = (if me_mprv env \<and> mm_access_type m \<noteq> ACCESS_INSN then me_mpp env else me_mode env);
          tag = (ucast (drop_bit 12 va) :: u32);
          index = unat (tag AND 0xff);
          page_virt_addr = (scast (push_bit 12 tag) :: u64);
          page_phys_addr = page_virt_addr
      in if mode = 3 \<or> mm_mode m = 0 then
           let phys_addr = va + page_phys_addr - page_virt_addr
           in (if mm_access_type m = ACCESS_INSN
               then m\<lparr>tlb_insn_phys_addr := (tlb_insn_phys_addr m)(index := page_phys_addr - page_virt_addr),
                      tlb_insn_tag := (tlb_insn_tag m)(index := scast tag)\<rparr>
               else m\<lparr>tlb_ls_phys_addr := (tlb_ls_phys_addr m)(index := page_phys_addr - page_virt_addr),
                      tlb_load_tag := (tlb_load_tag m)(index := scast tag),
                      tlb_load_use_mem_array := (tlb_load_use_mem_array m)
                        (index := phys_addr \<ge> me_memory_start env \<and> phys_addr < me_memory_end env),
                      tlb_store_tag := (tlb_store_tag m)(index := scast tag)\<rparr>,
               Phys phys_addr)
         else case walk_pgtab env va m of (m1, a) \<Rightarrow> (m1, Stalled a))"

definition insn_virt_to_phys :: "mmu_env \<Rightarrow> u64 \<Rightarrow> mmu \<Rightarrow> mmu \<times> xlate" where
  "insn_virt_to_phys env va m =
     (if tlb_insn_tag m (tlb_index va) = drop_bit 12 va
      then (m, Phys (va + tlb_insn_phys_addr m (tlb_index va)))
      else virt_to_phys_miss env va (m\<lparr>mm_access_type := ACCESS_INSN\<rparr>))"

definition load_virt_to_phys :: "mmu_env \<Rightarrow> u64 \<Rightarrow> mmu \<Rightarrow> mmu \<times> xlate" where
  "load_virt_to_phys env va m =
     (if tlb_load_tag m (tlb_index va) = drop_bit 12 va
      then (m, Phys (va + tlb_ls_phys_addr m (tlb_index va)))
      else virt_to_phys_miss env va (m\<lparr>mm_access_type := ACCESS_LOAD\<rparr>))"

definition store_virt_to_phys :: "mmu_env \<Rightarrow> u64 \<Rightarrow> mmu \<Rightarrow> mmu \<times> xlate" where
  "store_virt_to_phys env va m =
     (if tlb_store_tag m (tlb_index va) = drop_bit 12 va
      then (m, Phys (va + tlb_ls_phys_addr m (tlb_index va)))
      else virt_to_phys_miss env va (m\<lparr>mm_access_type := ACCESS_STORE\<rparr>))"

end
