(* ===== verification/Mmu_Props.thy ===== *)
theory Mmu_Props
  imports Mmu
begin

text \<open>
  The walk of the memory-management unit against the Sv39 translation of the RISC-V manual: it
  finds the same leaf entry, in at most three reads, and the buffer it fills translates pages
  of 4 kB and aligned pages of 2 MB as the manual says. Superpages of 1 GB, the alignment check of
  superpages and stale entries after a change of mode are shown to go wrong.
\<close>

section \<open>Sv39 as the manual has it\<close>

text \<open>
  The address translation of the privileged architecture, sections 4.3.2 and 4.4, without the extensions for contiguous pages and page-based
  memory types, and with a page fault where the accessed and dirty bits are not set. The mode is 0 (user) or 1 (supervisor);
  \<open>su\<close> and \<open>mxr\<close> are the bits \<^verbatim>\<open>SUM\<close> and \<^verbatim>\<open>MXR\<close> of \<^verbatim>\<open>mstatus\<close>. \<open>None\<close> is a page fault.
\<close>

definition vpn :: "u64 \<Rightarrow> nat \<Rightarrow> u64" where
  "vpn va l = take_bit 9 (drop_bit (12 + 9 * l) va)"

definition pte_ppn :: "u64 \<Rightarrow> u64" where
  "pte_ppn pte = take_bit 44 (drop_bit 10 pte)"

text \<open>Bits 63 to 38 are all equal.\<close>

definition canonical :: "u64 \<Rightarrow> bool" where
  "canonical va \<longleftrightarrow> drop_bit 38 va = 0 \<or> drop_bit 38 va = 0x3FFFFFF"

fun sv39_lookup :: "(u64 \<Rightarrow> u64) \<Rightarrow> u64 \<Rightarrow> nat \<Rightarrow> u64 \<Rightarrow> (nat \<times> u64) option" where
  "sv39_lookup mem va l a =
     (let pte = mem (a + vpn va l * 8)
      in if \<not> bit pte 0 \<or> \<not> bit pte 1 \<and> bit pte 2 \<or> drop_bit 54 pte \<noteq> 0 then None
         else if bit pte 1 \<or> bit pte 3 then Some (l, pte)
         else case l of 0 \<Rightarrow> None | Suc k \<Rightarrow> sv39_lookup mem va k (push_bit 12 (pte_ppn pte)))"

definition user_allows :: "nat \<Rightarrow> bool \<Rightarrow> access_type \<Rightarrow> u64 \<Rightarrow> bool" where
  "user_allows mode su t pte = (if bit pte 4 then mode = 0 \<or> su \<and> t \<noteq> ACCESS_INSN else mode \<noteq> 0)"

fun kind_allows :: "bool \<Rightarrow> access_type \<Rightarrow> u64 \<Rightarrow> bool" where
  "kind_allows mxr ACCESS_INSN pte = bit pte 3"
| "kind_allows mxr ACCESS_LOAD pte = (bit pte 1 \<or> mxr \<and> bit pte 3)"
| "kind_allows mxr ACCESS_STORE pte = bit pte 2"

definition sv39_translate :: "access_type \<Rightarrow> nat \<Rightarrow> bool \<Rightarrow> bool \<Rightarrow> (u64 \<Rightarrow> u64) \<Rightarrow> u64 \<Rightarrow> u64 \<Rightarrow> u64 option" where
  "sv39_translate t mode su mxr mem root va =
     (if \<not> canonical va then None
      else case sv39_lookup mem va 2 root of
          None \<Rightarrow> None
        | Some (l, pte) \<Rightarrow>
            if user_allows mode su t pte \<and> kind_allows mxr t pte \<and> take_bit (9 * l) (pte_ppn pte) = 0 \<and> bit pte 6 \<and> (t = ACCESS_STORE \<longrightarrow> bit pte 7)
            then Some (push_bit (12 + 9 * l) (drop_bit (9 * l) (pte_ppn pte)) OR take_bit (12 + 9 * l) va)
            else None)"

text \<open>
  The accesses for which the unit is meant to be right. It looks neither at the upper bits of the address nor at the user, \<^verbatim>\<open>SUM\<close> and \<^verbatim>\<open>MXR\<close> bits, it
  does not check the last bit of the alignment of a page of 2 MB, and it makes a wrong address of a page of 1 GB; an access that depends on
  one of these is outside (\<open>manual_faults_missed\<close> and \<open>superpage_translation_wrong\<close> below show each of them).
\<close>

definition within_unit :: "access_type \<Rightarrow> nat \<Rightarrow> bool \<Rightarrow> bool \<Rightarrow> (u64 \<Rightarrow> u64) \<Rightarrow> u64 \<Rightarrow> u64 \<Rightarrow> bool" where
  "within_unit t mode su mxr mem root va \<longleftrightarrow> canonical va \<and>
     (case sv39_lookup mem va 2 root of
        None \<Rightarrow> True
      | Some (l, pte) \<Rightarrow> user_allows mode su t pte \<and> (kind_allows mxr t pte \<longrightarrow> kind_allows False t pte) \<and> l \<le> 1 \<and> (l = 1 \<longrightarrow> \<not> bit pte 18))"

section \<open>What the unit does with an entry\<close>

definition bad_pte :: "u64 \<Rightarrow> bool" where
  "bad_pte pte \<longleftrightarrow> \<not> bit pte 0 \<or> (\<not> bit pte 1 \<and> bit pte 2) \<or> pte AND MMU_PTE_ATTR \<noteq> 0"

definition leaf_pte :: "u64 \<Rightarrow> bool" where
  "leaf_pte pte \<longleftrightarrow> bit pte 1 \<or> bit pte 3"

text \<open>The leaf entry for an address, looked up from level \<open>l\<close> in the table at \<open>base\<close>.\<close>

primrec sv39_leaf :: "(u64 \<Rightarrow> u64) \<Rightarrow> u64 \<Rightarrow> nat \<Rightarrow> u64 \<Rightarrow> (nat \<times> u64) option" where
  "sv39_leaf mem va 0 base =
     (let pte = mem (base + vpn va 0 * 8)
      in if bad_pte pte \<or> \<not> leaf_pte pte then None else Some (0, pte))"
| "sv39_leaf mem va (Suc l) base =
     (let pte = mem (base + vpn va (Suc l) * 8)
      in if bad_pte pte then None else if leaf_pte pte then Some (Suc l, pte)
         else sv39_leaf mem va l (pte_page pte))"

fun leaf_checks :: "access_type \<Rightarrow> u64 \<Rightarrow> bool" where
  "leaf_checks ACCESS_INSN pte = (bit pte 6 \<and> bit pte 3)"
| "leaf_checks ACCESS_LOAD pte = (bit pte 6 \<and> bit pte 1)"
| "leaf_checks ACCESS_STORE pte = (bit pte 6 \<and> bit pte 2 \<and> bit pte 7)"

definition unit_aligned :: "nat \<Rightarrow> u64 \<Rightarrow> bool" where
  "unit_aligned l pte \<longleftrightarrow> mmu_get_field (pte_page pte) 12 (8 * int l) = 0"

definition sv39_pa :: "nat \<Rightarrow> u64 \<Rightarrow> u64 \<Rightarrow> u64" where
  "sv39_pa l pte va = pte_page pte + take_bit (12 + 9 * l) va"

definition sv39_cfg :: "mmu \<Rightarrow> bool" where
  "sv39_cfg m \<longleftrightarrow> mm_mode m = MMU_MODE_SV39 \<and> mm_nb_levels m = 3 \<and> mm_pte_size m = 8 \<and> mm_vpn_width m = 9"

text \<open>Its look-up is the manual's, and so is the address it makes of a leaf of a page of 4 kB or an aligned page of 2 MB.\<close>

lemma mmu_get_field_take_bit: "mmu_get_field w 12 (int n) = take_bit n (drop_bit 12 w)"
  by (simp add: mmu_get_field_def take_bit_eq_mask mask_eq_exp_minus_1)

lemma attr_bits: "bit MMU_PTE_ATTR i \<longleftrightarrow> 54 \<le> i \<and> i < 64"
proof -
  have "MMU_PTE_ATTR = NOT (mask 54)" by (simp add: MMU_PTE_ATTR_def mask_eq_exp_minus_1)
  then have "bit MMU_PTE_ATTR i = bit (NOT (mask 54) :: u64) i" by (rule arg_cong)
  then show ?thesis unfolding bit_not_iff bit_mask_iff by auto
qed

lemma pte_page_ppn: "pte_page pte = push_bit 12 (pte_ppn pte)"
  unfolding pte_page_def pte_ppn_def
  by (rule bit_word_eqI) (auto simp: bit_simps attr_bits dest: bit_imp_le_length)

lemma attr_drop: "pte AND MMU_PTE_ATTR \<noteq> 0 \<longleftrightarrow> drop_bit 54 pte \<noteq> 0"
proof -
  have "pte AND MMU_PTE_ATTR = push_bit 54 (drop_bit 54 pte)"
    by (rule bit_word_eqI) (auto simp: bit_simps attr_bits)
  moreover have "drop_bit 54 (push_bit 54 (drop_bit 54 pte)) = drop_bit 54 pte"
    by (rule bit_word_eqI) (auto simp: bit_simps dest: bit_imp_le_length)
  ultimately show ?thesis by (metis drop_bit_of_0 push_bit_of_0)
qed

lemma lookup_leaf: "sv39_lookup mem va l a = sv39_leaf mem va l a"
proof (induction l arbitrary: a)
  case 0
  show ?case by (subst sv39_lookup.simps) (simp add: bad_pte_def leaf_pte_def attr_drop Let_def)
next
  case (Suc l)
  show ?case by (subst sv39_lookup.simps) (simp add: Suc.IH bad_pte_def leaf_pte_def attr_drop pte_page_ppn Let_def del: sv39_lookup.simps)
qed

declare lookup_leaf [code]

lemma unit_aligned_ppn: "unit_aligned l pte \<longleftrightarrow> take_bit (8 * l) (pte_ppn pte) = 0"
proof -
  have "drop_bit 12 (pte_page pte) = pte_ppn pte"
    unfolding pte_page_ppn pte_ppn_def by (rule bit_word_eqI) (auto simp: bit_simps)
  then show ?thesis using mmu_get_field_take_bit[of "pte_page pte" "8 * l"] by (simp add: unit_aligned_def)
qed

lemma aligned_iff:
  assumes "l \<le> 1" "l = 1 \<longrightarrow> \<not> bit pte 18"
  shows "take_bit (9 * l) (pte_ppn pte) = 0 \<longleftrightarrow> unit_aligned l pte"
proof (cases "l = 0")
  case False
  then have l: "l = 1" using assms(1) by simp
  have "take_bit 9 (pte_ppn pte) = take_bit 8 (pte_ppn pte)"
  proof (rule bit_word_eqI)
    fix n
    have "m < 9 \<Longrightarrow> m < 8 \<or> m = 8" for m :: nat by linarith
    then show "bit (take_bit 9 (pte_ppn pte)) n \<longleftrightarrow> bit (take_bit 8 (pte_ppn pte)) n"
      using assms(2) l by (fastforce simp: bit_simps pte_ppn_def)
  qed
  then show ?thesis using l by (simp add: unit_aligned_ppn)
qed (simp add: unit_aligned_ppn)

lemma manual_pa:
  assumes "take_bit (9 * l) (pte_ppn pte) = 0"
  shows "push_bit (12 + 9 * l) (drop_bit (9 * l) (pte_ppn pte)) OR take_bit (12 + 9 * l) va = sv39_pa l pte va"
proof -
  have "push_bit (9 * l) (drop_bit (9 * l) (pte_ppn pte)) = pte_ppn pte" using bits_ident[of "9 * l" "pte_ppn pte"] assms by simp
  then have p: "push_bit (12 + 9 * l) (drop_bit (9 * l) (pte_ppn pte)) = pte_page pte"
    by (metis pte_page_ppn push_bit_push_bit)
  have "pte_page pte AND take_bit (12 + 9 * l) va = 0"
    unfolding p[symmetric] by (rule bit_word_eqI) (auto simp: bit_simps)
  then show ?thesis unfolding p sv39_pa_def by (simp add: disjunctive_add_eq_or)
qed

section \<open>The walk\<close>

lemma field_vpn: "mmu_get_field va (12 + 9 * int l) 9 = vpn va l"
proof -
  have "nat (12 + 9 * int l) = 12 + 9 * l" by simp
  then show ?thesis by (simp add: mmu_get_field_def vpn_def take_bit_eq_mask mask_eq_exp_minus_1)
qed

lemma handle_pte_cases:
  assumes "pte = mm_pte_value m"
  shows "bad_pte pte \<Longrightarrow> handle_pte env m = mmu_raise_exception m"
    "\<not> bad_pte pte \<Longrightarrow> leaf_pte pte \<Longrightarrow> handle_pte env m = handle_leaf env m"
  using assms by (auto simp: handle_pte_def bad_pte_def leaf_pte_def Let_def)

lemma handle_pte_next:
  assumes "\<not> bad_pte (mm_pte_value m)" "\<not> leaf_pte (mm_pte_value m)"
    "mm_current_level m = int (Suc l)" "mm_current_vpn_bit m = 12 + 9 * int (Suc l)" "mm_pte_size m = 8" "mm_vpn_width m = 9"
  shows "handle_pte env m =
     (m\<lparr>mm_current_level := int l, mm_current_vpn_bit := 12 + 9 * int l\<rparr>,
      Mm_Read_Pte (pte_page (mm_pte_value m) + vpn (mm_current_virt_addr m) l * 8))"
proof -
  have v: "mm_current_vpn_bit m - 9 = 12 + 9 * int l" using assms(4) by simp
  show ?thesis using assms(1-3,5,6) field_vpn[of "mm_current_virt_addr m" l]
    by (simp add: handle_pte_def bad_pte_def leaf_pte_def Let_def v)
qed

lemma handle_pte_last:
  assumes "\<not> bad_pte (mm_pte_value m)" "\<not> leaf_pte (mm_pte_value m)" "mm_current_level m = 0"
  shows "handle_pte env m =
     mmu_raise_exception (m\<lparr>mm_current_level := - 1, mm_current_vpn_bit := mm_current_vpn_bit m - mm_vpn_width m\<rparr>)"
  using assms by (simp add: handle_pte_def bad_pte_def leaf_pte_def Let_def)

lemma raise_ends: "\<nexists>a. snd (mmu_raise_exception m) = Mm_Read_Pte a"
  by (simp add: mmu_raise_exception_def)

lemma walk_steps_done: "\<nexists>a. snd r = Mm_Read_Pte a \<Longrightarrow> walk_steps n env mem r = r"
  by (cases r; cases n; cases "snd r") auto

lemma handle_leaf_ends: "\<nexists>a. snd (handle_leaf env m) = Mm_Read_Pte a"
  by (simp add: handle_leaf_def Let_def mmu_raise_exception_def)

text \<open>From level \<open>l\<close>, \<open>l + 1\<close> steps end the walk, at the leaf of the specification or with a fault.\<close>

definition walk_result :: "mmu_env \<Rightarrow> (nat \<times> u64) option \<Rightarrow> mmu \<Rightarrow> mmu \<times> mmu_act \<Rightarrow> bool" where
  "walk_result env lf m r =
     (case lf of
        None \<Rightarrow> \<exists>pte l b. r = mmu_raise_exception (m\<lparr>mm_pte_value := pte, mm_current_level := l, mm_current_vpn_bit := b\<rparr>)
      | Some (l, pte) \<Rightarrow> r = handle_leaf env (m\<lparr>mm_pte_value := pte, mm_current_level := int l, mm_current_vpn_bit := 12 + 9 * int l\<rparr>))"

lemma walk_result_here:
  assumes "mm_current_level m = int l" "mm_current_vpn_bit m = 12 + 9 * int l"
    "pte = mm_pte_value m"
  shows "bad_pte pte \<Longrightarrow> walk_result env None m (walk_steps n env mem (handle_pte env m))"
    "\<not> bad_pte pte \<Longrightarrow> leaf_pte pte \<Longrightarrow> walk_result env (Some (l, pte)) m (walk_steps n env mem (handle_pte env m))"
proof -
  have eq: "m\<lparr>mm_pte_value := pte, mm_current_level := int l, mm_current_vpn_bit := 12 + 9 * int l\<rparr> = m"
    using assms by simp
  show "walk_result env None m (walk_steps n env mem (handle_pte env m))" if "bad_pte pte"
  proof -
    have "walk_steps n env mem (handle_pte env m) =
        mmu_raise_exception (m\<lparr>mm_pte_value := pte, mm_current_level := int l, mm_current_vpn_bit := 12 + 9 * int l\<rparr>)"
      unfolding handle_pte_cases(1)[OF assms(3) that] eq by (rule walk_steps_done[OF raise_ends])
    then show ?thesis by (auto simp: walk_result_def)
  qed
  show "walk_result env (Some (l, pte)) m (walk_steps n env mem (handle_pte env m))" if "\<not> bad_pte pte" "leaf_pte pte"
    using eq handle_pte_cases(2)[OF assms(3) that, of env] walk_steps_done[OF handle_leaf_ends]
    by (simp add: walk_result_def)
qed

lemma walk_result_upd: "walk_result env lf (m\<lparr>mm_pte_value := x\<rparr>) r = walk_result env lf m r"
  "walk_result env lf (m\<lparr>mm_current_level := y, mm_current_vpn_bit := z\<rparr>) r = walk_result env lf m r"
  by (simp_all add: walk_result_def split: option.splits prod.splits)

lemma walk_steps_leaf:
  assumes "mm_current_level m = int l" "mm_current_vpn_bit m = 12 + 9 * int l"
    "mm_pte_size m = 8" "mm_vpn_width m = 9" "mm_current_virt_addr m = va" "l \<le> n"
  shows "walk_result env (sv39_leaf mem va l base) m (walk_steps (Suc n) env mem (m, Mm_Read_Pte (base + vpn va l * 8)))"
  using assms
proof (induction l arbitrary: m base n)
  case 0
  let ?pte = "mem (base + vpn va 0 * 8)"
  let ?m = "m\<lparr>mm_pte_value := ?pte\<rparr>"
  have w: "walk_result env (sv39_leaf mem va 0 base) ?m (walk_steps n env mem (handle_pte env ?m))"
  proof (cases "bad_pte ?pte \<or> leaf_pte ?pte")
    case True
    then show ?thesis using walk_result_here[of ?m 0 ?pte env n mem] 0 by (auto simp: Let_def)
  next
    case False
    then have "handle_pte env ?m = mmu_raise_exception (m\<lparr>mm_pte_value := ?pte, mm_current_level := - 1, mm_current_vpn_bit := 3\<rparr>)"
      using handle_pte_last[of ?m env] 0 by simp
    then show ?thesis using False by (auto simp: walk_result_def walk_steps_done[OF raise_ends])
  qed
  then show ?case by (simp add: walk_result_upd del: sv39_leaf.simps)
next
  case (Suc l)
  let ?pte = "mem (base + vpn va (Suc l) * 8)"
  let ?m = "m\<lparr>mm_pte_value := ?pte\<rparr>"
  have w: "walk_result env (sv39_leaf mem va (Suc l) base) ?m (walk_steps n env mem (handle_pte env ?m))"
  proof (cases "bad_pte ?pte \<or> leaf_pte ?pte")
    case True
    then show ?thesis using walk_result_here[of ?m "Suc l" ?pte env n mem] Suc.prems by (auto simp: Let_def)
  next
    case False
    obtain k where n: "n = Suc k" "l \<le> k" using Suc.prems(6) by (cases n) auto
    let ?m1 = "?m\<lparr>mm_current_level := int l, mm_current_vpn_bit := 12 + 9 * int l\<rparr>"
    have h: "handle_pte env ?m = (?m1, Mm_Read_Pte (pte_page ?pte + vpn va l * 8))"
      using handle_pte_next[of ?m l env] False Suc.prems by simp
    have "walk_result env (sv39_leaf mem va l (pte_page ?pte)) ?m1
        (walk_steps (Suc k) env mem (?m1, Mm_Read_Pte (pte_page ?pte + vpn va l * 8)))"
      by (rule Suc.IH) (use Suc.prems n in simp_all)
    then have "walk_result env (sv39_leaf mem va l (pte_page ?pte)) ?m
        (walk_steps (Suc k) env mem (?m1, Mm_Read_Pte (pte_page ?pte + vpn va l * 8)))"
      by (simp only: walk_result_upd)
    then show ?thesis unfolding h n(1) using False by (simp del: walk_steps.simps)
  qed
  then show ?case by (simp add: walk_result_upd del: sv39_leaf.simps)
qed

section \<open>From a miss to the next hit\<close>

text \<open>The three look-ups of the unit by the kind of access, and the mode an access is translated in.\<close>

fun virt_to_phys :: "access_type \<Rightarrow> mmu_env \<Rightarrow> u64 \<Rightarrow> mmu \<Rightarrow> mmu \<times> xlate" where
  "virt_to_phys ACCESS_INSN = insn_virt_to_phys"
| "virt_to_phys ACCESS_LOAD = load_virt_to_phys"
| "virt_to_phys ACCESS_STORE = store_virt_to_phys"

fun access_mode :: "access_type \<Rightarrow> mmu_env \<Rightarrow> nat" where
  "access_mode ACCESS_INSN env = me_mode env"
| "access_mode t env = (if me_mprv env then me_mpp env else me_mode env)"

fun tlb_tag :: "access_type \<Rightarrow> mmu \<Rightarrow> nat \<Rightarrow> u64" where
  "tlb_tag ACCESS_INSN m = tlb_insn_tag m"
| "tlb_tag ACCESS_LOAD m = tlb_load_tag m"
| "tlb_tag ACCESS_STORE m = tlb_store_tag m"

definition tlb_hit :: "access_type \<Rightarrow> u64 \<Rightarrow> mmu \<Rightarrow> bool" where
  "tlb_hit t va m \<longleftrightarrow> tlb_tag t m (tlb_index va) = drop_bit 12 va"

text \<open>An access that misses, with the walk the memory then answers.\<close>

definition access_walk :: "access_type \<Rightarrow> mmu_env \<Rightarrow> (u64 \<Rightarrow> u64) \<Rightarrow> u64 \<Rightarrow> mmu \<Rightarrow> mmu \<times> mmu_act" where
  "access_walk t env mem va m =
     (case virt_to_phys t env va m of (m1, Stalled a) \<Rightarrow> walk_steps 3 env mem (m1, a)
      | (m1, Phys _) \<Rightarrow> (m1, Mm_Resume))"

lemma virt_to_phys_walks:
  assumes "\<not> tlb_hit t va m" "access_mode t env \<noteq> 3" "mm_mode m \<noteq> 0"
  shows "virt_to_phys t env va m =
     (case walk_pgtab env va (m\<lparr>mm_access_type := t\<rparr>) of (m1, a) \<Rightarrow> (m1, Stalled a))"
  using assms by (cases t) (auto simp: insn_virt_to_phys_def load_virt_to_phys_def store_virt_to_phys_def
      virt_to_phys_miss_def tlb_hit_def Let_def)

lemma page_offset: "va - push_bit 12 (drop_bit 12 va) = take_bit 12 (va :: u64)"
  by (metis add_diff_cancel_right' bits_ident add.commute)

lemma superpage_offset:
  "push_bit 12 (take_bit 9 (drop_bit 12 va)) + take_bit 12 va = take_bit 21 (va :: u64)"
proof -
  have "push_bit 12 (drop_bit 12 (take_bit 21 va)) + take_bit 12 (take_bit 21 va) = take_bit 21 va" by (rule bits_ident)
  then show ?thesis by (simp add: drop_bit_take_bit)
qed

lemma leaf_phys:
  assumes "l \<le> 2"
  shows "va + ((if 0 < int l then pte_page pte + push_bit 12 (mmu_get_field va 12 9) else pte_page pte)
       - push_bit 12 (drop_bit 12 va)) = sv39_pa (min l 1) pte va"
proof -
  have e: "va + (x - push_bit 12 (drop_bit 12 va)) = x + take_bit 12 va" for x
    using page_offset[of va] by (simp add: algebra_simps)
  show ?thesis unfolding e using superpage_offset[of va] mmu_get_field_take_bit[of va 9] assms
    by (cases l) (simp_all add: sv39_pa_def add.assoc min_def)
qed

text \<open>A permitted, aligned leaf fills the buffer so that the access then hits.\<close>

lemma handle_leaf_fills:
  assumes "leaf_checks (mm_access_type m) (mm_pte_value m)" "unit_aligned l (mm_pte_value m)" "l \<le> 2"
    "mm_current_level m = int l" "mm_pte_size m = 8" "mm_vpn_width m = 9" "mm_current_virt_addr m = va"
    "handle_leaf env m = (m', act)"
  shows "act = Mm_Resume" "virt_to_phys (mm_access_type m) env' va m' = (m', Phys (sv39_pa (min l 1) (mm_pte_value m) va))"
    "mm_irq_locked m' = mm_irq_locked m - 1"
proof -
  have a: "mmu_get_field (pte_page (mm_pte_value m)) 12 (8 * int l) = 0" using assms(2) by (simp add: unit_aligned_def)
  note leaf_phys[OF assms(3), of va "mm_pte_value m"]
  then show "act = Mm_Resume" "virt_to_phys (mm_access_type m) env' va m' = (m', Phys (sv39_pa (min l 1) (mm_pte_value m) va))"
    "mm_irq_locked m' = mm_irq_locked m - 1"
    using assms a by (cases "mm_access_type m"; auto simp: handle_leaf_def Let_def insn_virt_to_phys_def load_virt_to_phys_def
        store_virt_to_phys_def tlb_index_def)+
qed


lemma handle_leaf_faults:
  assumes "\<not> leaf_checks (mm_access_type m) (mm_pte_value m) \<or> \<not> unit_aligned l (mm_pte_value m)" "mm_current_level m = int l" "mm_pte_size m = 8"
  shows "snd (handle_leaf env m) = Mm_Raise (fault_id (mm_access_type m)) (mm_current_virt_addr m)"
proof -
  have "0 < l" if "\<not> unit_aligned l (mm_pte_value m)" using that by (cases l) (simp_all add: unit_aligned_ppn)
  then show ?thesis using assms
    by (cases "mm_access_type m") (auto simp: handle_leaf_def unit_aligned_def[symmetric] Let_def mmu_raise_exception_def)
qed

text \<open>The walk of a miss is the look-up of the specification followed by the check of the leaf.\<close>

definition walk_start :: "access_type \<Rightarrow> mmu_env \<Rightarrow> u64 \<Rightarrow> mmu \<Rightarrow> mmu" where
  "walk_start t env va m =
     m\<lparr>mm_access_type := t, mm_irq_locked := mm_irq_locked m + 1, mm_stall_insn := me_current_insn env,
       mm_current_virt_addr := va, mm_current_level := 2, mm_current_vpn_bit := 30\<rparr>"

lemma access_walk_leaf:
  assumes "sv39_cfg m" "\<not> tlb_hit t va m" "access_mode t env \<noteq> 3"
  shows "walk_result env (sv39_leaf mem va 2 (mm_pt_base m)) (walk_start t env va m) (access_walk t env mem va m)"
proof -
  have md: "mm_mode m \<noteq> 0" using assms(1) by (simp add: sv39_cfg_def MMU_MODE_SV39_def)
  have "walk_pgtab env va (m\<lparr>mm_access_type := t\<rparr>) = (walk_start t env va m, Mm_Read_Pte (mm_pt_base m + vpn va 2 * 8))"
    using assms(1) field_vpn[of va 2] by (simp add: walk_pgtab_def walk_start_def sv39_cfg_def Let_def)
  then have "access_walk t env mem va m =
      walk_steps (Suc 2) env mem (walk_start t env va m, Mm_Read_Pte (mm_pt_base m + vpn va 2 * 8))"
    unfolding access_walk_def virt_to_phys_walks[OF assms(2,3) md] by (simp add: eval_nat_numeral)
  then show ?thesis
    by (simp only:) (rule walk_steps_leaf, use assms(1) in \<open>simp_all add: sv39_cfg_def walk_start_def\<close>)
qed

lemma sv39_leaf_level: "sv39_leaf mem va l base = Some (l', pte) \<Longrightarrow> l' \<le> l \<and> \<not> bad_pte pte \<and> leaf_pte pte"
  by (induction l arbitrary: base) (auto simp: Let_def le_Suc_eq split: if_splits)

section \<open>The look-aside buffer agrees with the page table\<close>

text \<open>
  What a hit stands for: without translation the address itself; with Sv39 a permitted leaf of the
  table, and the address the unit makes of it.
\<close>

fun tlb_offset :: "access_type \<Rightarrow> mmu \<Rightarrow> nat \<Rightarrow> u64" where
  "tlb_offset ACCESS_INSN m = tlb_insn_phys_addr m"
| "tlb_offset t m = tlb_ls_phys_addr m"

definition entry_ok :: "(u64 \<Rightarrow> u64) \<Rightarrow> mmu \<Rightarrow> access_type \<Rightarrow> u64 \<Rightarrow> u64 \<Rightarrow> bool" where
  "entry_ok mem m t va pa =
     (if mm_mode m = 0 then pa = va
      else case sv39_leaf mem va 2 (mm_pt_base m) of None \<Rightarrow> False
           | Some (l, pte) \<Rightarrow> leaf_checks t pte \<and> unit_aligned l pte \<and> pa = sv39_pa (min l 1) pte va)"

definition tlb_sound :: "(u64 \<Rightarrow> u64) \<Rightarrow> mmu \<Rightarrow> bool" where
  "tlb_sound mem m \<longleftrightarrow> (\<forall>t va. tlb_hit t va m \<longrightarrow> entry_ok mem m t va (va + tlb_offset t m (tlb_index va)))"

definition mmu_inv :: "(u64 \<Rightarrow> u64) \<Rightarrow> mmu \<Rightarrow> bool" where
  "mmu_inv mem m \<longleftrightarrow> (mm_mode m = 0 \<or> sv39_cfg m) \<and> tlb_sound mem m"

lemma virt_to_phys_hit:
  "tlb_hit t va m \<Longrightarrow> virt_to_phys t env va m = (m, Phys (va + tlb_offset t m (tlb_index va)))"
  by (cases t) (simp_all add: tlb_hit_def insn_virt_to_phys_def load_virt_to_phys_def store_virt_to_phys_def)

lemma tag_not_invalid: "drop_bit 12 (va :: u64) \<noteq> - 1"
proof
  assume "drop_bit 12 va = - 1"
  then have "bit (drop_bit 12 va) 63" by simp
  then show False using bit_imp_le_length[of va 75] by (simp add: bit_drop_bit_eq)
qed

lemma tlb_index_bound: "tlb_index va < 256"
proof -
  have "tlb_index va = unat (take_bit 8 (drop_bit 12 va))" by (simp add: tlb_index_def take_bit_eq_mask mask_eq_exp_minus_1)
  then show ?thesis using take_bit_nat_less_exp[of 8 "unat (drop_bit 12 va)"] by (simp add: unsigned_take_bit_eq)
qed

lemma flush_no_hit: "\<not> tlb_hit t va (mmu_flush m)"
  using tag_not_invalid[of va] by (cases t) (auto simp: tlb_hit_def mmu_flush_def tlb_index_bound)

text \<open>The walk and the page of an entry depend on the page number only.\<close>

lemma same_page_vpn:
  assumes "drop_bit 12 va = drop_bit 12 va'"
  shows "vpn va l = vpn va' l"
proof -
  have "drop_bit (12 + 9 * l) va = drop_bit (12 + 9 * l) va'"
    using arg_cong[OF assms, of "drop_bit (9 * l)"] by (simp add: add.commute)
  then show ?thesis by (simp add: vpn_def)
qed

lemma same_page_leaf:
  assumes "drop_bit 12 va = drop_bit 12 va'"
  shows "sv39_leaf mem va l base = sv39_leaf mem va' l base"
  using same_page_vpn[OF assms] by (induction l arbitrary: base) (simp_all add: Let_def)

lemma leaf_fill_phys:
  assumes "l \<le> 2" "drop_bit 12 va = drop_bit 12 va'"
  shows "va' + ((if 0 < int l then pte_page pte + push_bit 12 (mmu_get_field va 12 9) else pte_page pte)
       - push_bit 12 (drop_bit 12 va)) = sv39_pa (min l 1) pte va'"
proof -
  have "mmu_get_field va 12 9 = mmu_get_field va' 12 9" using assms(2) by (simp add: mmu_get_field_def)
  then show ?thesis using leaf_phys[OF assms(1), of va' pte] assms(2) by (simp only:)
qed

text \<open>A fill keeps every other entry and adds sound ones.\<close>

lemma handle_leaf_sound:
  assumes "tlb_sound mem m" "sv39_cfg m" "sv39_leaf mem (mm_current_virt_addr m) 2 (mm_pt_base m) = Some (l, mm_pte_value m)"
    "mm_current_level m = int l"
  shows "tlb_sound mem (fst (handle_leaf env m))"
proof -
  let ?va = "mm_current_virt_addr m" and ?pte = "mm_pte_value m"
  have md: "mm_mode m \<noteq> 0" using assms(2) by (simp add: sv39_cfg_def MMU_MODE_SV39_def)
  have l: "l \<le> 2" using sv39_leaf_level[OF assms(3)] by simp
  have new: "entry_ok mem m t va' (va' + ((if 0 < int l then pte_page ?pte + push_bit 12 (mmu_get_field ?va 12 9) else pte_page ?pte)
       - push_bit 12 (drop_bit 12 ?va)))" if "drop_bit 12 ?va = drop_bit 12 va'" "leaf_checks t ?pte" "unit_aligned l ?pte" for t va'
    unfolding leaf_fill_phys[OF l that(1)] using md same_page_leaf[OF that(1), of mem 2] assms(3) that(2,3)
    by (simp add: entry_ok_def)
  have al: "unit_aligned l ?pte \<longleftrightarrow> (0 < int l \<longrightarrow> mmu_get_field (pte_page ?pte) 12 (8 * int l) = 0)"
    using unit_aligned_ppn[of 0 ?pte] by (cases l) (simp, simp add: unit_aligned_def)
  show ?thesis unfolding tlb_sound_def
  proof (intro allI impI)
    fix t va' assume hit: "tlb_hit t va' (fst (handle_leaf env m))"
    have e: "entry_ok mem (fst (handle_leaf env m)) = entry_ok mem m"
      by (intro ext) (simp add: entry_ok_def handle_leaf_def Let_def mmu_raise_exception_def split: option.splits)
    have old: "tlb_hit t va' m \<Longrightarrow> entry_ok mem m t va' (va' + tlb_offset t m (tlb_index va'))"
      using assms(1) by (simp add: tlb_sound_def)
    show "entry_ok mem (fst (handle_leaf env m)) t va' (va' + tlb_offset t (fst (handle_leaf env m)) (tlb_index va'))"
      unfolding e using hit old new[of va' t] al tag_not_invalid[of va'] assms(2,4)
      by (cases t; cases "mm_access_type m")
         (auto simp: handle_leaf_def Let_def mmu_raise_exception_def tlb_hit_def sv39_cfg_def split: if_splits)
  qed
qed

text \<open>
  The operations of the core on the unit: an access (with the walk when it misses), a write of \<^verbatim>\<open>satp\<close> and
  the flush of \<^verbatim>\<open>sfence.vma\<close>.
\<close>

datatype mmu_op = Op_Access access_type mmu_env u64 | Op_Satp mmu_env u64 | Op_Flush | Op_Tables "u64 \<Rightarrow> u64"

text \<open>The page tables are in memory, which the program may change at any time.\<close>

fun mmu_op_step :: "mmu_op \<Rightarrow> mmu \<times> (u64 \<Rightarrow> u64) \<Rightarrow> mmu \<times> (u64 \<Rightarrow> u64)" where
  "mmu_op_step (Op_Access t env va) (m, mem) = (fst (access_walk t env mem va m), mem)"
| "mmu_op_step (Op_Satp env v) (m, mem) = (fst (satp_update env True v m), mem)"
| "mmu_op_step Op_Flush (m, mem) = (mmu_flush m, mem)"
| "mmu_op_step (Op_Tables mem') (m, mem) = (m, mem')"

text \<open>Whether the tables have changed since the last \<^verbatim>\<open>sfence.vma\<close>.\<close>

fun tables_dirty :: "mmu_op \<Rightarrow> bool \<Rightarrow> bool" where
  "tables_dirty (Op_Tables mem') d = True"
| "tables_dirty Op_Flush d = False"
| "tables_dirty (Op_Access t env va) d = d"
| "tables_dirty (Op_Satp env v) d = d"

fun no_mmode :: "mmu_op \<Rightarrow> bool" where
  "no_mmode (Op_Access t env va) \<longleftrightarrow> access_mode t env \<noteq> 3"
| "no_mmode _ \<longleftrightarrow> True"

lemma flush_inv: "mm_mode m = 0 \<or> sv39_cfg m \<Longrightarrow> mmu_inv mem (mmu_flush m)"
  by (auto simp: mmu_inv_def tlb_sound_def flush_no_hit) (auto simp: mmu_flush_def sv39_cfg_def)

lemma satp_inv:
  assumes "mmu_inv mem m"
  shows "mmu_inv mem (fst (satp_update env True v m))"
  using assms flush_inv by (auto simp: satp_update_def Let_def sv39_cfg_def MMU_MODE_SV39_def mmu_inv_def)

lemma virt_to_phys_bare:
  assumes "mm_mode m = 0" "\<not> tlb_hit t va m"
  shows "snd (virt_to_phys t env va m) = Phys va" "mm_mode (fst (virt_to_phys t env va m)) = 0"
  using assms by (cases t; simp add: insn_virt_to_phys_def load_virt_to_phys_def store_virt_to_phys_def virt_to_phys_miss_def
      tlb_hit_def Let_def)+

lemma bare_sound:
  assumes "mm_mode m = 0" "\<not> tlb_hit t va m" "tlb_sound mem m"
  shows "tlb_sound mem (fst (virt_to_phys t env va m))"
proof -
  have s: "tlb_hit t' va' m \<Longrightarrow> tlb_offset t' m (tlb_index va') = 0" for t' va'
    using assms(1,3) by (simp add: tlb_sound_def entry_ok_def)
  show ?thesis unfolding tlb_sound_def
  proof (intro allI impI)
    fix t' va' assume "tlb_hit t' va' (fst (virt_to_phys t env va m))"
    then have "tlb_offset t' (fst (virt_to_phys t env va m)) (tlb_index va') = 0"
      using assms(1,2) s[of t' va'] by (cases t; cases t')
        (auto simp: insn_virt_to_phys_def load_virt_to_phys_def store_virt_to_phys_def virt_to_phys_miss_def
           tlb_hit_def Let_def split: if_splits)
    then show "entry_ok mem (fst (virt_to_phys t env va m)) t' va' (va' + tlb_offset t' (fst (virt_to_phys t env va m)) (tlb_index va'))"
      using virt_to_phys_bare(2)[OF assms(1,2)] by (simp add: entry_ok_def)
  qed
qed

lemma tlb_sound_cong:
  assumes "tlb_insn_tag m' = tlb_insn_tag m" "tlb_load_tag m' = tlb_load_tag m" "tlb_store_tag m' = tlb_store_tag m"
    "tlb_insn_phys_addr m' = tlb_insn_phys_addr m" "tlb_ls_phys_addr m' = tlb_ls_phys_addr m"
    "mm_mode m' = mm_mode m" "mm_pt_base m' = mm_pt_base m"
  shows "tlb_sound mem m' = tlb_sound mem m"
proof -
  have "tlb_tag t m' = tlb_tag t m" "tlb_offset t m' = tlb_offset t m" for t using assms by (cases t; simp)+
  then show ?thesis using assms(6,7) by (simp add: tlb_sound_def tlb_hit_def entry_ok_def)
qed

lemma handle_leaf_cfg: "sv39_cfg (fst (handle_leaf env m)) = sv39_cfg m"
  by (simp add: handle_leaf_def Let_def mmu_raise_exception_def sv39_cfg_def)

lemma walk_inv:
  assumes "sv39_cfg m" "tlb_sound mem m" "\<not> tlb_hit t va m" "access_mode t env \<noteq> 3"
  shows "mmu_inv mem (fst (access_walk t env mem va m))"
proof -
  note w = access_walk_leaf[OF assms(1,3,4), of mem]
  show ?thesis
  proof (cases "sv39_leaf mem va 2 (mm_pt_base m)")
    case None
    then obtain pte l b where r: "access_walk t env mem va m =
        mmu_raise_exception ((walk_start t env va m)\<lparr>mm_pte_value := pte, mm_current_level := l, mm_current_vpn_bit := b\<rparr>)"
      using w by (auto simp: walk_result_def)
    have "tlb_sound mem (fst (access_walk t env mem va m)) = tlb_sound mem m"
      unfolding r by (rule tlb_sound_cong) (simp_all add: mmu_raise_exception_def walk_start_def)
    moreover have "sv39_cfg (fst (access_walk t env mem va m))"
      unfolding r using assms(1) by (simp add: mmu_raise_exception_def walk_start_def sv39_cfg_def)
    ultimately show ?thesis using assms(2) by (simp add: mmu_inv_def)
  next
    case (Some lp)
    obtain l pte where lp: "lp = (l, pte)" by (cases lp)
    let ?m = "(walk_start t env va m)\<lparr>mm_pte_value := pte, mm_current_level := int l, mm_current_vpn_bit := 12 + 9 * int l\<rparr>"
    have h: "access_walk t env mem va m = handle_leaf env ?m" using w Some lp by (simp add: walk_result_def)
    have c: "sv39_cfg ?m" using assms(1) by (simp add: walk_start_def sv39_cfg_def)
    have "tlb_sound mem ?m = tlb_sound mem m" by (rule tlb_sound_cong) (simp_all add: walk_start_def)
    then have "tlb_sound mem (fst (handle_leaf env ?m))"
      using handle_leaf_sound[of mem ?m l env] c assms(2) Some lp by (simp add: walk_start_def)
    then show ?thesis using c by (simp add: h mmu_inv_def handle_leaf_cfg)
  qed
qed

lemma access_inv:
  assumes "mmu_inv mem m" "access_mode t env \<noteq> 3"
  shows "mmu_inv mem (fst (access_walk t env mem va m))"
proof (cases "tlb_hit t va m")
  case True
  then show ?thesis using assms(1) by (simp add: access_walk_def virt_to_phys_hit)
next
  case False
  show ?thesis
  proof (cases "mm_mode m = 0")
    case True
    have "fst (access_walk t env mem va m) = fst (virt_to_phys t env va m)"
      using virt_to_phys_bare(1)[OF True False, of env]
      by (cases "virt_to_phys t env va m") (simp add: access_walk_def)
    then show ?thesis using bare_sound[OF True False, of mem env] virt_to_phys_bare(2)[OF True False, of env] assms(1)
      by (simp add: mmu_inv_def)
  next
    case f: False
    then show ?thesis using walk_inv[OF _ _ False assms(2)] assms(1) by (simp add: mmu_inv_def)
  qed
qed

text \<open>The configuration alone is kept by every access, whatever the buffer holds.\<close>

lemma virt_to_phys_cfg:
  assumes "mm_mode m = 0 \<or> sv39_cfg m"
  shows "mm_mode (fst (virt_to_phys t env va m)) = 0 \<or> sv39_cfg (fst (virt_to_phys t env va m))"
  using assms by (cases t) (auto simp: insn_virt_to_phys_def load_virt_to_phys_def store_virt_to_phys_def virt_to_phys_miss_def
      walk_pgtab_def sv39_cfg_def Let_def split: prod.splits if_splits)

lemma handle_pte_cfg:
  "mm_mode (fst (handle_pte env m)) = mm_mode m" "sv39_cfg (fst (handle_pte env m)) = sv39_cfg m"
  by (simp_all add: handle_pte_def handle_leaf_def mmu_raise_exception_def sv39_cfg_def Let_def)

lemma walk_steps_cfg:
  "mm_mode (fst (walk_steps n env mem r)) = mm_mode (fst r) \<and> sv39_cfg (fst (walk_steps n env mem r)) = sv39_cfg (fst r)"
proof (induction n env mem r rule: walk_steps.induct)
  case (1 n env mem m a)
  then show ?case by (simp add: handle_pte_cfg) (simp add: sv39_cfg_def)
qed simp_all

lemma access_cfg:
  assumes "mm_mode m = 0 \<or> sv39_cfg m"
  shows "mm_mode (fst (access_walk t env mem va m)) = 0 \<or> sv39_cfg (fst (access_walk t env mem va m))"
proof (cases "virt_to_phys t env va m")
  case (Pair m1 x)
  then have "mm_mode m1 = 0 \<or> sv39_cfg m1" using virt_to_phys_cfg[OF assms, of t env va] by simp
  then show ?thesis using Pair walk_steps_cfg[of 3 env mem] by (cases x) (auto simp: access_walk_def)
qed

lemma satp_cfg: "mm_mode m = 0 \<or> sv39_cfg m \<Longrightarrow> mm_mode (fst (satp_update env True v m)) = 0 \<or> sv39_cfg (fst (satp_update env True v m))"
  by (auto simp: satp_update_def mmu_flush_def sv39_cfg_def MMU_MODE_SV39_def Let_def)

definition mmu_inv_unless :: "bool \<Rightarrow> mmu \<times> (u64 \<Rightarrow> u64) \<Rightarrow> bool" where
  "mmu_inv_unless d = (\<lambda>(m, mem). (mm_mode m = 0 \<or> sv39_cfg m) \<and> (\<not> d \<longrightarrow> mmu_inv mem m))"

lemma mmu_op_inv: "mmu_inv_unless d s \<Longrightarrow> no_mmode op \<Longrightarrow> mmu_inv_unless (tables_dirty op d) (mmu_op_step op s)"
proof (cases s)
  case (Pair m mem)
  assume "mmu_inv_unless d s" "no_mmode op"
  then show ?thesis using Pair flush_inv[of m mem] access_inv[of mem m] access_cfg[of m] satp_inv[of mem m] satp_cfg[of m]
    by (cases op) (auto simp: mmu_inv_unless_def mmu_inv_def mmu_flush_def sv39_cfg_def)
qed

lemma mmu_ops_inv: "mmu_inv_unless d s \<Longrightarrow> list_all no_mmode ops \<Longrightarrow> mmu_inv_unless (fold tables_dirty ops d) (fold mmu_op_step ops s)"
  by (induction ops arbitrary: s d) (auto simp: mmu_op_inv)

text \<open>An entry of the buffer is the manual's translation, within the accesses the unit is right for.\<close>

lemma leaf_checks_kind:
  "leaf_checks t pte \<longleftrightarrow> kind_allows False t pte \<and> bit pte 6 \<and> (t = ACCESS_STORE \<longrightarrow> bit pte 7)"
  by (cases t) auto

lemma within_unit_translate:
  assumes "within_unit t mode su mxr mem root va"
  shows "sv39_translate t mode su mxr mem root va =
    (case sv39_leaf mem va 2 root of None \<Rightarrow> None | Some (l, pte) \<Rightarrow> if leaf_checks t pte \<and> unit_aligned l pte then Some (sv39_pa l pte va) else None)"
    "sv39_leaf mem va 2 root = Some (l, pte) \<Longrightarrow> l \<le> 1"
proof -
  have k: "kind_allows False t pte \<Longrightarrow> kind_allows mxr t pte" for pte by (cases t) auto
  show "sv39_translate t mode su mxr mem root va =
    (case sv39_leaf mem va 2 root of None \<Rightarrow> None | Some (l, pte) \<Rightarrow> if leaf_checks t pte \<and> unit_aligned l pte then Some (sv39_pa l pte va) else None)"
  proof (cases "sv39_leaf mem va 2 root")
    case None
    then show ?thesis by (simp add: sv39_translate_def lookup_leaf del: sv39_lookup.simps)
  next
    case (Some lp)
    obtain l pte where lp: "lp = (l, pte)" by (cases lp)
    have w: "canonical va" "user_allows mode su t pte" "kind_allows mxr t pte \<longrightarrow> kind_allows False t pte" "l \<le> 1" "l = 1 \<longrightarrow> \<not> bit pte 18"
      using assms Some lp by (simp_all add: within_unit_def lookup_leaf del: sv39_lookup.simps)
    show ?thesis using w(1-3) k[of pte] Some lp aligned_iff[OF w(4,5)] manual_pa[of l pte va]
      by (auto simp: sv39_translate_def lookup_leaf leaf_checks_kind simp del: sv39_lookup.simps)
  qed
  show "sv39_leaf mem va 2 root = Some (l, pte) \<Longrightarrow> l \<le> 1" using assms by (simp add: within_unit_def lookup_leaf del: sv39_lookup.simps)
qed



section \<open>Examples\<close>

definition env0 :: mmu_env where
  "env0 = \<lparr>me_mode = 1, me_mprv = False, me_mpp = 0, me_tvm = False, me_memory_start = 0, me_memory_end = 0, me_current_insn = 0\<rparr>"

definition mmu0 :: mmu where
  "mmu0 = \<lparr>mm_satp = 0, mm_pt_base = 0x1000, mm_asid = 0, mm_mode = 8, mm_nb_levels = 3, mm_pte_size = 8, mm_vpn_width = 9,
     tlb_insn_tag = (\<lambda>_. - 1), tlb_insn_phys_addr = (\<lambda>_. 0), tlb_load_tag = (\<lambda>_. - 1), tlb_load_use_mem_array = (\<lambda>_. False),
     tlb_store_tag = (\<lambda>_. - 1), tlb_ls_phys_addr = (\<lambda>_. 0), mm_current_level = 0, mm_current_vpn_bit = 0,
     mm_current_virt_addr = 0, mm_pte_value = 0, mm_access_type = ACCESS_LOAD, mm_stall_insn = 0, mm_irq_locked = 0\<rparr>"

text \<open>A root table at \<open>0x1000\<close> that leads to one at \<open>0x2000\<close>, whose entry 1 is a page of 2 MB at \<open>0x80200000\<close>.\<close>

definition pgtab0 :: "u64 \<Rightarrow> u64" where
  "pgtab0 a = (if a = 0x1000 then 0x801 else if a = 0x2008 then 0x200800CF else 0)"



text \<open>The tables are changed and the buffer flushed after a first access, before the second one fills it again.\<close>

definition ops0 :: "mmu_op list" where
  "ops0 = [Op_Satp env0 0x8000000000000001, Op_Access ACCESS_LOAD env0 0x212345, Op_Tables (\<lambda>a. if a = 0x2008 then 0x300800CF else pgtab0 a), Op_Flush,
     Op_Access ACCESS_LOAD env0 0x212345]"


section \<open>Where the unit departs from the manual\<close>

definition env_m :: mmu_env where "env_m = env0\<lparr>me_mode := 3\<rparr>"

text \<open>
  An access in machine mode leaves an identity entry that later accesses in supervisor mode hit: the page
  table, which here maps nothing, is not looked at.
\<close>

theorem machine_entry_survives:
  "snd (virt_to_phys ACCESS_LOAD env0 0x5000 (fst (virt_to_phys ACCESS_LOAD env_m 0x5000 mmu0))) = Phys 0x5000 \<and>
   sv39_leaf (\<lambda>_. 0) 0x5000 2 (mm_pt_base mmu0) = None"
  by code_simp

text \<open>The root table maps a page of 1 GB at \<open>0x80000000\<close>; and the second table a misaligned page of 2 MB.\<close>

definition pgtab1 :: "u64 \<Rightarrow> u64" where
  "pgtab1 a = (if a = 0x1000 then 0x200000CF else 0)"

definition pgtab2 :: "u64 \<Rightarrow> u64" where
  "pgtab2 a = (if a = 0x1000 then 0x801 else if a = 0x2000 then 0x200400CF else 0)"

text \<open>
  A page of 1 GB is translated with the lowest page number of the address only, so that all its pages of 2 MB
  are the first one; and a page of 2 MB at an address that is a multiple of 1 MB only is not refused.
\<close>

theorem superpage_translation_wrong:
  "sv39_translate ACCESS_LOAD 1 False False pgtab1 0x1000 0x212345 = Some 0x80212345 \<and>
   snd (virt_to_phys ACCESS_LOAD env0 0x212345 (fst (access_walk ACCESS_LOAD env0 pgtab1 0x212345 mmu0))) = Phys 0x80012345 \<and>
   sv39_translate ACCESS_LOAD 1 False False pgtab2 0x1000 0x12345 = None \<and> snd (access_walk ACCESS_LOAD env0 pgtab2 0x12345 mmu0) = Mm_Resume"
  by code_simp

text \<open>
  The rest of what the manual checks and the unit does not: a load in user mode from a page without the user bit, and a load from an address whose upper bits are
  not copies of bit 38, are answered although the manual has a page fault; a load from an executable page with \<^verbatim>\<open>MXR\<close> set faults although it is allowed.
\<close>

definition pgtab3 :: "u64 \<Rightarrow> u64" where
  "pgtab3 a = (if a = 0x1000 then 0x801 else if a = 0x2008 then 0x200800C9 else 0)"

theorem manual_faults_missed:
  "sv39_translate ACCESS_LOAD 0 False False pgtab0 0x1000 0x212345 = None \<and>
   snd (access_walk ACCESS_LOAD (env0\<lparr>me_mode := 0\<rparr>) pgtab0 0x212345 mmu0) = Mm_Resume \<and>
   sv39_translate ACCESS_LOAD 1 False False pgtab0 0x1000 0x8000000000212345 = None \<and>
   snd (access_walk ACCESS_LOAD env0 pgtab0 0x8000000000212345 mmu0) = Mm_Resume \<and>
   sv39_translate ACCESS_LOAD 1 False True pgtab3 0x1000 0x212345 = Some 0x80212345 \<and>
   snd (access_walk ACCESS_LOAD env0 pgtab3 0x212345 mmu0) = Mm_Raise 13 0x212345"
  by code_simp

section \<open>Every walk ends\<close>

lemma handle_pte_ends:
  "(\<nexists>a. snd (handle_pte env m) = Mm_Read_Pte a) \<and> mm_irq_locked (fst (handle_pte env m)) = mm_irq_locked m - 1 \<or>
   (\<exists>a. snd (handle_pte env m) = Mm_Read_Pte a) \<and> mm_irq_locked (fst (handle_pte env m)) = mm_irq_locked m \<and>
   0 \<le> mm_current_level (fst (handle_pte env m)) \<and> mm_current_level (fst (handle_pte env m)) = mm_current_level m - 1"
  by (auto simp: handle_pte_def handle_leaf_def mmu_raise_exception_def Let_def)

lemma walk_ends:
  assumes "mm_current_level m = int n"
  shows "(\<nexists>b. snd (walk_steps (Suc n) env mem (m, Mm_Read_Pte a)) = Mm_Read_Pte b) \<and>
    mm_irq_locked (fst (walk_steps (Suc n) env mem (m, Mm_Read_Pte a))) = mm_irq_locked m - 1"
  using assms
proof (induction n arbitrary: m a)
  case (0 m a)
  then show ?case using handle_pte_ends [of env "m\<lparr>mm_pte_value := mem a\<rparr>"] by (auto simp: walk_steps_done)
next
  case (Suc n m a)
  let ?m = "m\<lparr>mm_pte_value := mem a\<rparr>"
  show ?case
  proof (cases "\<exists>b. snd (handle_pte env ?m) = Mm_Read_Pte b")
    case True
    then obtain m1 b where h: "handle_pte env ?m = (m1, Mm_Read_Pte b)" by (cases "handle_pte env ?m") auto
    then have "mm_current_level m1 = int n" "mm_irq_locked m1 = mm_irq_locked m"
      using handle_pte_ends [of env ?m] Suc.prems by auto
    then show ?thesis using Suc.IH [of m1 b] h by (simp del: walk_steps.simps(1) add: walk_steps.simps(1) [of "Suc n"])
  next
    case False
    then show ?thesis using handle_pte_ends [of env ?m] by (auto simp: walk_steps_done)
  qed
qed

text \<open>
  C35: A page-table walk ends after at most as many entries as there are levels, whatever the tables in memory hold, even when they form a cycle; its end, a filled entry or a page fault, releases the lock on
  interrupts that its start had taken.
\<close>

theorem walk_terminates:
  assumes "0 < mm_nb_levels m"
  shows "(\<forall>b. snd (walk_steps (nat (mm_nb_levels m)) env mem (walk_pgtab env va m)) \<noteq> Mm_Read_Pte b) \<and>
    mm_irq_locked (fst (walk_steps (nat (mm_nb_levels m)) env mem (walk_pgtab env va m))) = mm_irq_locked m"
proof -
  obtain n where n: "nat (mm_nb_levels m) = Suc n" "mm_nb_levels m - 1 = int n" using assms by (cases "nat (mm_nb_levels m)") auto
  obtain m1 a where w: "walk_pgtab env va m = (m1, Mm_Read_Pte a)" "mm_current_level m1 = int n" "mm_irq_locked m1 = mm_irq_locked m + 1"
    using n(2) by (auto simp: walk_pgtab_def Let_def)
  show ?thesis unfolding n(1) w(1) using walk_ends [OF w(2), of env mem a] w(3) by auto
qed

text \<open>A root table whose entry leads back to it: the walk reads three entries and ends with a page fault.\<close>

theorem walk_terminates_witness:
  "snd (walk_steps 3 env0 (\<lambda>_. 0x401) (walk_pgtab env0 0x212345 mmu0)) = Mm_Raise 13 0x212345 \<and>
   mm_irq_locked (fst (walk_steps 3 env0 (\<lambda>_. 0x401) (walk_pgtab env0 0x212345 mmu0))) = 0"
proof -
  have "0 < mm_nb_levels mmu0" by (simp add: mmu0_def)
  moreover have "nat (mm_nb_levels mmu0) = 3" "mm_irq_locked mmu0 = 0" by (simp_all add: mmu0_def)
  moreover have "snd (walk_steps 3 env0 (\<lambda>_. 0x401) (walk_pgtab env0 0x212345 mmu0)) = Mm_Raise 13 0x212345" by code_simp
  ultimately show ?thesis using walk_terminates [of mmu0 env0 "\<lambda>_. 0x401" "0x212345"] by simp
qed

end
