(* ===== verification/Hwloop_V2.thy ===== *)
theory Hwloop_V2
  imports Prelude
begin

text \<open>
  The hardware loops, \<^verbatim>\<open>src/models/cpu/iss_v2/src/hwloop/hwloop.cpp\<close> and \<^verbatim>\<open>include/hwloop/hwloop_implem.hpp\<close>: after each instruction
  the execution loop asks whether a loop body has just ended. The number of loops
  (\<^verbatim>\<open>CONFIG_GVSOC_ISS_NB_HWLOOP\<close>) is an argument. Shown: a loop set up with a count runs its body that many times,
  and loops that share their last instruction do not nest.
\<close>

section \<open>State and operations\<close>

record 'w hwloop =
  hl_start :: "nat \<Rightarrow> 'w"
  hl_end :: "nat \<Rightarrow> 'w"
  hl_count :: "nat \<Rightarrow> 'w"
  hl_active :: u32

definition hwloop_reset :: "nat \<Rightarrow> bool \<Rightarrow> 'x::len word hwloop \<Rightarrow> 'x word hwloop" where
  "hwloop_reset nb active h =
     (if active
      then let zero = (\<lambda>f i. if i < nb then 0 else f i)
           in h\<lparr>hl_start := zero (hl_start h), hl_end := zero (hl_end h), hl_count := zero (hl_count h), hl_active := 0\<rparr>
      else h)"

definition set_start :: "nat \<Rightarrow> 'x::len word \<Rightarrow> 'x word hwloop \<Rightarrow> 'x word hwloop" where
  "set_start idx pc h = h\<lparr>hl_start := (hl_start h)(idx := pc)\<rparr>"

definition set_end :: "nat \<Rightarrow> 'x::len word \<Rightarrow> 'x word hwloop \<Rightarrow> 'x word hwloop" where
  "set_end idx pc h = h\<lparr>hl_end := (hl_end h)(idx := pc)\<rparr>"

definition set_count :: "nat \<Rightarrow> 'x::len word \<Rightarrow> 'x word hwloop \<Rightarrow> 'x word hwloop" where
  "set_count idx n h =
     (let h1 = h\<lparr>hl_count := (hl_count h)(idx := n)\<rparr>
      in if n = 0 then h1\<lparr>hl_active := hl_active h1 AND NOT (push_bit idx 1)\<rparr>
         else h1\<lparr>hl_active := hl_active h1 OR push_bit idx 1\<rparr>)"

text \<open>One iteration of the loop of \<^verbatim>\<open>check\<close>, on the loops and the target so far.\<close>

definition check_loop :: "'x::len word \<Rightarrow> 'x word \<Rightarrow> nat \<Rightarrow> 'x word hwloop \<times> 'x word \<Rightarrow> 'x word hwloop \<times> 'x word" where
  "check_loop pc next_pc i s =
     (case s of (h, target) \<Rightarrow>
        if hl_active h AND push_bit i 1 \<noteq> 0 \<and> hl_end h i = pc then
          let n = hl_count h i - 1;
              h1 = h\<lparr>hl_count := (hl_count h)(i := n)\<rparr>
          in if n = 0 then (h1\<lparr>hl_active := hl_active h1 AND NOT (push_bit i 1)\<rparr>, target)
             else (h1, if target = next_pc then hl_start h1 i else target)
        else (h, target))"

definition hwloop_check :: "nat \<Rightarrow> 'x::len word \<Rightarrow> 'x word \<Rightarrow> 'x word hwloop \<Rightarrow> 'x word hwloop \<times> 'x word" where
  "hwloop_check nb pc next_pc h =
     (if hl_active h = 0 then (h, next_pc) else fold (check_loop pc next_pc) [0..<nb] (h, next_pc))"

section \<open>The invariant\<close>

text \<open>A bit of \<^verbatim>\<open>active\<close> is set exactly when the counter is not zero; there are at most 32 loops.\<close>

definition hwloop_inv :: "nat \<Rightarrow> 'x::len word hwloop \<Rightarrow> bool" where
  "hwloop_inv nb h \<longleftrightarrow> nb \<le> 32 \<and> (\<forall>i < nb. bit (hl_active h) i \<longleftrightarrow> hl_count h i \<noteq> 0)"

lemma active_test: "w AND 2 ^ i \<noteq> 0 \<longleftrightarrow> bit w i" "w AND 2 ^ i = 0 \<longleftrightarrow> \<not> bit w i" for w :: u32
  by (simp_all add: and_exp_eq_0_iff_not_bit)

lemma bit_clear: "bit (w AND NOT (2 ^ i)) j \<longleftrightarrow> bit w j \<and> j \<noteq> i" for w :: u32
  by (auto simp: bit_and_iff bit_not_iff_eq bit_exp_iff dest: bit_imp_le_length)

lemma bit_setb: "bit (w OR 2 ^ i) j \<longleftrightarrow> bit w j \<or> (j = i \<and> i < 32)" for w :: u32
  by (auto simp: bit_or_iff bit_exp_iff)

lemma hwloop_reset_inv: "nb \<le> 32 \<Longrightarrow> hwloop_inv nb (hwloop_reset nb True h)"
  by (simp add: hwloop_inv_def hwloop_reset_def)

lemma set_count_inv: "hwloop_inv nb h \<Longrightarrow> idx < nb \<Longrightarrow> hwloop_inv nb (set_count idx n h)"
  by (auto simp: hwloop_inv_def set_count_def Let_def bit_clear bit_setb)

lemma check_loop_inv: "hwloop_inv nb h \<Longrightarrow> i < nb \<Longrightarrow> hwloop_inv nb (fst (check_loop pc npc i (h, t)))"
  by (auto simp: hwloop_inv_def check_loop_def Let_def active_test bit_clear)

section \<open>A loop iterates\<close>

text \<open>The effect of one visit of \<open>pc\<close> on a single loop.\<close>

definition ends_at :: "'x::len word hwloop \<Rightarrow> 'x word \<Rightarrow> nat \<Rightarrow> bool" where
  "ends_at h pc i \<longleftrightarrow> hl_count h i \<noteq> 0 \<and> hl_end h i = pc"

definition visit :: "nat \<Rightarrow> 'x::len word \<Rightarrow> 'x word hwloop \<Rightarrow> 'x word hwloop" where
  "visit nb pc h = fst (hwloop_check nb pc 0 h)"

lemma check_loop_eq:
  assumes "hwloop_inv nb h" "i < nb"
  shows "check_loop pc npc i (h, t) =
    (if ends_at h pc i
     then (h\<lparr>hl_count := (hl_count h)(i := hl_count h i - 1),
             hl_active := if hl_count h i = 1 then hl_active h AND NOT (push_bit i 1) else hl_active h\<rparr>,
           if hl_count h i \<noteq> 1 \<and> t = npc then hl_start h i else t)
     else (h, t))"
  using assms by (auto simp: check_loop_def Let_def active_test ends_at_def hwloop_inv_def)

lemma fold_check:
  assumes "hwloop_inv nb h" "k \<le> nb"
  shows "hwloop_inv nb (fst (fold (check_loop pc npc) [0..<k] (h, t))) \<and>
    hl_start (fst (fold (check_loop pc npc) [0..<k] (h, t))) = hl_start h \<and>
    hl_end (fst (fold (check_loop pc npc) [0..<k] (h, t))) = hl_end h \<and>
    hl_count (fst (fold (check_loop pc npc) [0..<k] (h, t))) =
      (\<lambda>i. if i < k \<and> ends_at h pc i then hl_count h i - 1 else hl_count h i)"
  using assms(2)
proof (induction k)
  case 0
  then show ?case using assms(1) by simp
next
  case (Suc k)
  obtain h1 t1 where f: "fold (check_loop pc npc) [0..<k] (h, t) = (h1, t1)" by fastforce
  have IH: "hwloop_inv nb h1" "hl_start h1 = hl_start h" "hl_end h1 = hl_end h"
      "hl_count h1 = (\<lambda>i. if i < k \<and> ends_at h pc i then hl_count h i - 1 else hl_count h i)"
    using Suc f by simp_all
  have e: "ends_at h1 pc k = ends_at h pc k" "hl_count h1 k = hl_count h k" using IH(3,4) by (simp_all add: ends_at_def)
  have inv: "hwloop_inv nb (fst (check_loop pc npc k (h1, t1)))" using check_loop_inv[OF IH(1)] Suc.prems by simp
  have "hl_count (fst (check_loop pc npc k (h1, t1))) =
      (\<lambda>i. if i < Suc k \<and> ends_at h pc i then hl_count h i - 1 else hl_count h i)"
    using check_loop_eq[OF IH(1), of k pc npc t1] Suc.prems e IH(4) by (auto simp: less_Suc_eq fun_eq_iff)
  then show ?case using inv check_loop_eq[OF IH(1), of k pc npc t1] Suc.prems IH(2,3) by (simp add: f)
qed

lemma fold_check_step:
  assumes "hwloop_inv nb h" "k < nb"
  shows "snd (fold (check_loop pc npc) [0..<Suc k] (h, t)) =
    (let t1 = snd (fold (check_loop pc npc) [0..<k] (h, t))
     in if ends_at h pc k \<and> hl_count h k \<noteq> 1 \<and> t1 = npc then hl_start h k else t1)"
proof -
  obtain h1 t1 where f: "fold (check_loop pc npc) [0..<k] (h, t) = (h1, t1)" by fastforce
  note c = fold_check[OF assms(1), of k pc npc t]
  have "hwloop_inv nb h1" "ends_at h1 pc k = ends_at h pc k" "hl_count h1 k = hl_count h k" "hl_start h1 k = hl_start h k"
    using c assms(2) f by (simp_all add: ends_at_def)
  then show ?thesis using check_loop_eq[of nb h1 k pc npc t1] assms(2) f by (simp add: Let_def)
qed

lemma fold_check_none:
  assumes "hwloop_inv nb h" "k \<le> nb" "\<And>j. j < k \<Longrightarrow> ends_at h pc j \<Longrightarrow> hl_count h j = 1"
  shows "snd (fold (check_loop pc npc) [0..<k] (h, t)) = t"
  using assms(2,3) by (induction k) (auto simp: fold_check_step[OF assms(1)] Let_def simp del: upt_Suc)

lemma fold_check_one:
  assumes "hwloop_inv nb h" "k \<le> nb" "\<And>j. j < nb \<Longrightarrow> ends_at h pc j \<Longrightarrow> j = i"
    "i < k" "ends_at h pc i" "hl_count h i \<noteq> 1"
  shows "snd (fold (check_loop pc npc) [0..<k] (h, npc)) = hl_start h i"
  using assms(2,4)
proof (induction k)
  case (Suc k)
  show ?case
  proof (cases "i = k")
    case True
    have "snd (fold (check_loop pc npc) [0..<k] (h, npc)) = npc"
    proof (rule fold_check_none[OF assms(1)])
      show "k \<le> nb" using Suc.prems by simp
      show "hl_count h j = 1" if "j < k" "ends_at h pc j" for j using assms(3)[of j] that Suc.prems True by simp
    qed
    then show ?thesis using True assms(5,6) Suc.prems by (simp add: fold_check_step[OF assms(1)] del: upt_Suc)
  next
    case False
    then have "\<not> ends_at h pc k" "i < k" using assms(3)[of k] Suc.prems by auto
    then show ?thesis using Suc by (simp add: fold_check_step[OF assms(1)] Let_def del: upt_Suc)
  qed
qed simp

lemma idle_ends: "hwloop_inv nb h \<Longrightarrow> hl_active h = 0 \<Longrightarrow> i < nb \<Longrightarrow> \<not> ends_at h pc i"
  by (auto simp: hwloop_inv_def ends_at_def)

lemma check_state:
  assumes "hwloop_inv nb h"
  shows "hwloop_inv nb (fst (hwloop_check nb pc npc h)) \<and> hl_start (fst (hwloop_check nb pc npc h)) = hl_start h \<and>
    hl_end (fst (hwloop_check nb pc npc h)) = hl_end h \<and>
    hl_count (fst (hwloop_check nb pc npc h)) = (\<lambda>i. if i < nb \<and> ends_at h pc i then hl_count h i - 1 else hl_count h i)"
  using fold_check[OF assms order.refl, of pc npc npc] idle_ends[OF assms] assms by (auto simp: hwloop_check_def)

text \<open>The program counters of a run of instructions, each with its successor in program order.\<close>

definition visits :: "nat \<Rightarrow> ('x::len word \<times> 'x word) list \<Rightarrow> 'x word hwloop \<Rightarrow> 'x word hwloop" where
  "visits nb = fold (\<lambda>(pc, npc) h. fst (hwloop_check nb pc npc h))"

lemma visits_count:
  assumes "hwloop_inv nb h" "i < nb" "k = length (filter (\<lambda>p. fst p = hl_end h i) ps)" "k < unat (hl_count h i)"
  shows "hwloop_inv nb (visits nb ps h) \<and> hl_start (visits nb ps h) = hl_start h \<and> hl_end (visits nb ps h) = hl_end h \<and>
    unat (hl_count (visits nb ps h) i) = unat (hl_count h i) - k"
  using assms
proof (induction ps arbitrary: h k)
  case Nil
  then show ?case by (simp add: visits_def)
next
  case (Cons p ps)
  obtain pc npc where p: "p = (pc, npc)" by (cases p)
  let ?h = "fst (hwloop_check nb pc npc h)"
  note c = check_state[OF Cons.prems(1), of pc npc]
  let ?k = "length (filter (\<lambda>p. fst p = hl_end h i) ps)"
  have pos: "hl_count h i \<noteq> 0" using Cons.prems(4) by auto
  have n: "unat (hl_count ?h i) = unat (hl_count h i) - (if pc = hl_end h i then 1 else 0)"
    using c Cons.prems(2) pos by (auto simp: ends_at_def unat_minus_one)
  have k: "k = ?k + (if pc = hl_end h i then 1 else 0)" using Cons.prems(3) p by simp
  have "hwloop_inv nb (visits nb ps ?h) \<and> hl_start (visits nb ps ?h) = hl_start ?h \<and> hl_end (visits nb ps ?h) = hl_end ?h \<and>
      unat (hl_count (visits nb ps ?h) i) = unat (hl_count ?h i) - ?k"
    by (rule Cons.IH) (use c Cons.prems(2,4) n k in \<open>auto split: if_splits\<close>)
  moreover have "visits nb (p # ps) h = visits nb ps ?h" by (simp add: visits_def p)
  ultimately show ?case using c n k by auto
qed

text \<open>
  A hardware loop runs its body as often as its counter says. After a run of instructions that has
  passed the end of the loop \<open>k\<close> times, fewer than the counter, the next pass of the end
  continues at the start of the loop while iterations remain, and after the last one in program order,
  provided that no other loop ends at the same instruction.
\<close>

theorem hwloop_iterates:
  assumes "hwloop_inv nb h" "i < nb" "k = length (filter (\<lambda>p. fst p = hl_end h i) ps)" "k < unat (hl_count h i)"
    "inj_on (hl_end h) {..<nb}"
  shows "snd (hwloop_check nb (hl_end h i) npc (visits nb ps h)) = (if k + 1 < unat (hl_count h i) then hl_start h i else npc)"
proof -
  let ?h = "visits nb ps h"
  note v = visits_count[OF assms(1-4)]
  have u: "j = i" if "j < nb" "ends_at ?h (hl_end h i) j" for j
    using that assms(2,5) v by (auto simp: ends_at_def inj_on_def)
  have act: "hl_active ?h \<noteq> 0" "ends_at ?h (hl_end h i) i" using v assms(2,4) by (auto simp: hwloop_inv_def ends_at_def)
  show ?thesis
  proof (cases "k + 1 < unat (hl_count h i)")
    case True
    then have "hl_count ?h i \<noteq> 1" using v by auto
    then show ?thesis using fold_check_one[OF _ order.refl u assms(2) act(2), of npc] v act(1) True
      by (simp add: hwloop_check_def)
  next
    case False
    then have "unat (hl_count ?h i) = 1" using v assms(4) by auto
    then have "hl_count ?h i = 1" by (metis unat_1 word_unat_eq_iff)
    then have "snd (fold (check_loop (hl_end h i) npc) [0..<nb] (?h, npc)) = npc"
      by (intro fold_check_none) (use v u in auto)
    then show ?thesis using act(1) False by (simp add: hwloop_check_def)
  qed
qed

definition loop0 :: "u32 hwloop" where
  "loop0 = set_count 0 3 (set_end 0 0x20 (set_start 0 0x10 (set_count 1 2 (set_end 1 0x30 (hwloop_reset 2 True
     \<lparr>hl_start = (\<lambda>_. 0), hl_end = (\<lambda>_. 0), hl_count = (\<lambda>_. 0), hl_active = 0\<rparr>)))))"

theorem hwloop_iterates_witness:
  "snd (hwloop_check 2 0x20 0x24 (visits 2 [(0x10, 0x14), (0x20, 0x24)] loop0)) = 0x10 \<and>
   snd (hwloop_check 2 0x20 0x24 (visits 2 [(0x20, 0x24), (0x20, 0x24)] loop0)) = 0x24"
proof -
  have i: "hwloop_inv 2 loop0" unfolding loop0_def by (intro set_count_inv) (auto simp: hwloop_inv_def hwloop_reset_def set_start_def set_end_def set_count_def bit_setb less_2_cases_iff)
  have "hl_end loop0 0 = 0x20" "unat (hl_count loop0 0) = 3" "hl_start loop0 0 = 0x10" by code_simp+
  moreover have "inj_on (hl_end loop0) {..<2}"
    by (auto simp: inj_on_def loop0_def set_count_def set_end_def set_start_def hwloop_reset_def Let_def less_2_cases_iff)
  ultimately show ?thesis using hwloop_iterates[OF i, of 0 1 "[(0x10, 0x14), (0x20, 0x24)]" "0x24"]
      hwloop_iterates[OF i, of 0 2 "[(0x20, 0x24), (0x20, 0x24)]" "0x24"] by simp
qed

text \<open>
  Loops that end at the same instruction: a comment says that loop 1 waits for loop 0 and is checked the next time;
  the code counts down both, so that two loops of two iterations run the shared body twice and not four times.
\<close>

theorem shared_end_counts_both:
  assumes "h = set_count 1 2 (set_end 1 0x20 (set_start 1 0x08 (set_count 0 2 (set_end 0 0x20 (set_start 0 0x10
     (hwloop_reset 2 True (h0 :: u32 hwloop)))))))"
  shows "snd (hwloop_check 2 0x20 0x24 h) = 0x10 \<and> snd (hwloop_check 2 0x20 0x24 (fst (hwloop_check 2 0x20 0x24 h))) = 0x24"
proof -
  have "[0..<2] = [0, 1::nat]" by (simp add: upt_rec)
  then show ?thesis using assms
    by (simp add: hwloop_check_def set_count_def set_end_def set_start_def hwloop_reset_def check_loop_def Let_def active_test bit_setb bit_clear)
qed

end
