(* ===== verification/Exec_V2.thy ===== *)
theory Exec_V2
  imports Scoreboard_V2 Hwloop_V2 Isa_Rv32i
begin

text \<open>
  The execution loop, \<^verbatim>\<open>src/models/cpu/iss_v2/src/exec/exec_inorder.cpp\<close> with \<^verbatim>\<open>include/exec/exec_inorder_implem.hpp\<close>: one instruction per
  cycle, stalls, tasks, held instructions with the in-order commit queue and the delayed
  release of the scoreboard (built with \<^verbatim>\<open>CONFIG_GVSOC_ISS_EXEC_INORDER_COMMIT\<close>, \<^verbatim>\<open>CONFIG_GVSOC_ISS_REGFILE_SCOREBOARD\<close>
  and \<^verbatim>\<open>CONFIG_GVSOC_ISS_TIMED\<close>).

  \<open>'s\<close> is the rest of the core (registers, caches, load-store unit); the functions of the other
  units that the loop calls are fields of \<open>xenv\<close>. Instruction entries are objects, named
  by numbers. Calls to the outside (traces, wires, clock event) are in \<open>xc_log\<close>.
\<close>

section \<open>State\<close>

datatype task = T_Unblock | T_Unit nat

datatype 'w exec_act =
    X_Dump 'w | X_Stall_Account | X_Busy bool | X_Flush_Req | X_Mtvec 'w | X_Signal | X_Event_Enable | X_Event_Disable

record 'w insn_entry =
  ie_addr :: 'w
  ie_opcode :: 'w
  ie_ready :: bool

record 'w exec =
  xc_current_insn :: 'w
  xc_bootaddr :: u32
  xc_stall_cycles :: int
  xc_pending_flush :: bool
  xc_clock_active :: bool
  xc_skip_irq_check :: bool
  xc_has_exception :: bool
  xc_exception_pc :: 'w
  xc_irq_locked :: int
  xc_cache_sync :: bool
  xc_is_insn_stalled :: bool
  xc_is_insn_hold :: bool
  xc_tasks :: "task list"
  xc_instr_disabled :: bool
  xc_retained :: int
  xc_fetch_enable :: bool
  xc_halted :: bool
  xc_step_mode :: bool
  xc_debug_mode :: bool
  xc_wfi :: bool
  xc_wfi_entry :: nat
  xc_full_mode :: bool
  xc_free :: "nat list"
  xc_fresh :: nat
  xc_entry :: "nat \<Rightarrow> 'w insn_entry"
  xc_queue :: "nat list"
  xc_unblock_mask :: u64
  xc_unblock_timestamp :: int
  xc_unblock_valid :: bool
  xc_unblock_pending :: bool
  xc_sb :: scoreboard
  xc_log :: "'w exec_act list"

definition x_act :: "'w exec_act \<Rightarrow> 'w exec \<Rightarrow> 'w exec" where
  "x_act a x = x\<lparr>xc_log := xc_log x @ [a]\<rparr>"

section \<open>Retaining the core\<close>

definition retain_check :: "'w exec \<Rightarrow> 'w exec" where
  "retain_check x =
     (if xc_retained x = 0 then
        if xc_instr_disabled x then x_act X_Event_Enable (x\<lparr>xc_instr_disabled := False\<rparr>) else x
      else if \<not> xc_instr_disabled x \<and> xc_tasks x = []
           then x_act X_Event_Disable (x\<lparr>xc_instr_disabled := True\<rparr>) else x)"

definition retain_inc :: "'w exec \<Rightarrow> 'w exec" where
  "retain_inc x = retain_check (x\<lparr>xc_retained := xc_retained x + 1\<rparr>)"

definition retain_dec :: "'w exec \<Rightarrow> 'w exec" where
  "retain_dec x = retain_check (x\<lparr>xc_retained := xc_retained x - 1\<rparr>)"

definition pc_set :: "'w \<Rightarrow> 'w exec \<Rightarrow> 'w exec" where
  "pc_set v x = x\<lparr>xc_current_insn := v\<rparr>"

text \<open>The boot address is a 32-bit register; its low 8 bits are cleared for \<^verbatim>\<open>mtvec\<close>.\<close>

definition bootaddr_apply :: "'x::len word exec \<Rightarrow> 'x word exec" where
  "bootaddr_apply x = x_act (X_Mtvec (ucast (xc_bootaddr x AND NOT 0xFF))) x"

definition bootaddr_sync :: "u32 \<Rightarrow> 'x::len word exec \<Rightarrow> 'x word exec" where
  "bootaddr_sync v x = bootaddr_apply (x\<lparr>xc_bootaddr := v\<rparr>)"

definition fetchen_sync :: "bool \<Rightarrow> 'x::len word exec \<Rightarrow> 'x word exec" where
  "fetchen_sync active x =
     (let old_val = xc_fetch_enable x; x1 = x\<lparr>xc_fetch_enable := active\<rparr>
      in if \<not> old_val \<and> active then retain_dec (pc_set (ucast (xc_bootaddr x1)) x1)
         else if old_val \<and> \<not> active then retain_inc x1 else x1)"

definition clock_sync :: "bool \<Rightarrow> 'w exec \<Rightarrow> 'w exec" where
  "clock_sync active x = x\<lparr>xc_clock_active := active\<rparr>"

definition exec_reset :: "bool \<Rightarrow> bool \<Rightarrow> 'x::len word exec \<Rightarrow> 'x word exec" where
  "exec_reset active fetch_enable x =
     (if active then
        let x1 = x\<lparr>xc_stall_cycles := 0, xc_pending_flush := False, xc_clock_active := False, xc_skip_irq_check := True,
                   xc_has_exception := False\<rparr>;
            x2 = pc_set (ucast (xc_bootaddr x1)) (bootaddr_apply x1);
            x3 = x2\<lparr>xc_irq_locked := 0, xc_cache_sync := False, xc_is_insn_stalled := False, xc_is_insn_hold := False,
                    xc_tasks := [], xc_instr_disabled := False, xc_queue := [], xc_unblock_valid := False,
                    xc_unblock_pending := False\<rparr>
        in retain_inc x3
      else fetchen_sync fetch_enable x)"

definition busy_enter :: "'w exec \<Rightarrow> 'w exec" where "busy_enter x = x_act (X_Busy True) x"
definition busy_exit :: "'w exec \<Rightarrow> 'w exec" where "busy_exit x = x_act (X_Busy False) x"

definition switch_to_full_mode :: "'w exec \<Rightarrow> 'w exec" where
  "switch_to_full_mode x = x\<lparr>xc_full_mode := True\<rparr>"

definition icache_flush :: "bool \<Rightarrow> 'w exec \<Rightarrow> 'w exec" where
  "icache_flush bound x =
     (let x1 = (if bound then x_act X_Flush_Req (retain_inc (x\<lparr>xc_cache_sync := True\<rparr>)) else x)
      in switch_to_full_mode (x1\<lparr>xc_pending_flush := True\<rparr>))"

definition flush_cache_ack_sync :: "'w exec \<Rightarrow> 'w exec" where
  "flush_cache_ack_sync x = (if xc_cache_sync x then retain_dec (x\<lparr>xc_cache_sync := False\<rparr>) else x)"

definition dbg_unit_step_check :: "bool \<Rightarrow> 'w exec \<Rightarrow> 'w exec" where
  "dbg_unit_step_check gdb x =
     (if gdb \<and> xc_step_mode x \<and> \<not> xc_debug_mode x
      then x_act X_Signal ((retain_inc x)\<lparr>xc_step_mode := False, xc_halted := True\<rparr>) else x)"

section \<open>Held instructions and commit\<close>

definition get_entry :: "'w exec \<Rightarrow> 'w exec \<times> nat" where
  "get_entry x =
     (case xc_free x of e # es \<Rightarrow> (x\<lparr>xc_free := es\<rparr>, e) | [] \<Rightarrow> (x\<lparr>xc_fresh := Suc (xc_fresh x)\<rparr>, xc_fresh x))"

definition release_entry :: "nat \<Rightarrow> 'w exec \<Rightarrow> 'w exec" where
  "release_entry e x = x\<lparr>xc_free := e # xc_free x\<rparr>"

definition enqueue_task :: "task \<Rightarrow> 'w exec \<Rightarrow> 'w exec" where
  "enqueue_task t x = x\<lparr>xc_tasks := t # xc_tasks x\<rparr>"

definition insn_stall :: "'w exec \<Rightarrow> 'w exec" where
  "insn_stall x = x\<lparr>xc_is_insn_stalled := True\<rparr>"

text \<open>An entry is appended to the commit queue, ready when the instruction has been executed already.\<close>

definition append_entry :: "'w \<Rightarrow> 'w \<Rightarrow> bool \<Rightarrow> 'w exec \<Rightarrow> 'w exec \<times> nat" where
  "append_entry addr opcode ready x =
     (case get_entry x of (x1, e) \<Rightarrow>
        (x1\<lparr>xc_entry := (xc_entry x1)(e := \<lparr>ie_addr = addr, ie_opcode = opcode, ie_ready = ready\<rparr>),
            xc_queue := xc_queue x1 @ [e]\<rparr>, e))"

definition insn_hold :: "'w \<Rightarrow> 'w \<Rightarrow> 'w exec \<Rightarrow> 'w exec \<times> nat" where
  "insn_hold addr opcode x = append_entry addr opcode False (x\<lparr>xc_is_insn_hold := True\<rparr>)"

definition drain_entry :: "nat \<Rightarrow> 'w exec \<Rightarrow> 'w exec" where
  "drain_entry e x = x_act X_Stall_Account (release_entry e (x_act (X_Dump (ie_addr (xc_entry x e))) x))"

fun drain_ready :: "nat list \<Rightarrow> 'w exec \<Rightarrow> 'w exec" where
  "drain_ready [] x = x"
| "drain_ready (e # es) x =
     (if ie_ready (xc_entry x e) then drain_ready es (drain_entry e (x\<lparr>xc_queue := es\<rparr>)) else x)"

text \<open>\<open>out_mask\<close> gives the scoreboard mask of the instruction at an address (\<^verbatim>\<open>get_insn\<close> decodes it again).\<close>

definition insn_terminate :: "('w \<Rightarrow> u64) \<Rightarrow> nat \<Rightarrow> bool \<Rightarrow> 'w exec \<Rightarrow> 'w exec" where
  "insn_terminate out_mask e defer_scoreboard_release x =
     (let x1 = (if defer_scoreboard_release then x
                else x\<lparr>xc_sb := scoreboard_insn_end (out_mask (ie_addr (xc_entry x e))) (xc_sb x)\<rparr>);
          x2 = x1\<lparr>xc_entry := (xc_entry x1)(e := (xc_entry x1 e)\<lparr>ie_ready := True\<rparr>)\<rparr>
      in drain_ready (xc_queue x2) x2)"

definition sleep_enter :: "'w \<Rightarrow> 'w \<Rightarrow> 'w exec \<Rightarrow> 'w exec" where
  "sleep_enter addr opcode x =
     (let x1 = retain_inc ((busy_exit x)\<lparr>xc_wfi := True\<rparr>)
      in case insn_hold addr opcode x1 of (x2, e) \<Rightarrow> x2\<lparr>xc_wfi_entry := e\<rparr>)"

definition sleep_exit :: "('w \<Rightarrow> u64) \<Rightarrow> 'w exec \<Rightarrow> 'w exec" where
  "sleep_exit out_mask x =
     (let x1 = retain_dec ((busy_enter x)\<lparr>xc_wfi := False\<rparr>) in insn_terminate out_mask (xc_wfi_entry x1) False x1)"

section \<open>Delayed scoreboard release\<close>

definition schedule_scoreboard_release :: "int \<Rightarrow> u64 \<Rightarrow> 'w exec \<Rightarrow> 'w exec" where
  "schedule_scoreboard_release cycles msk x =
     (if msk = 0 then x
      else
        let x1 = (if xc_unblock_valid x
                  then x\<lparr>xc_sb := sb_reg_invalid_clear_mask (xc_unblock_mask x) (xc_sb x), xc_unblock_valid := False\<rparr> else x);
            x2 = x1\<lparr>xc_unblock_mask := msk, xc_unblock_timestamp := cycles + 1, xc_unblock_valid := True\<rparr>
        in if xc_unblock_pending x2 then x2 else (enqueue_task T_Unblock x2)\<lparr>xc_unblock_pending := True\<rparr>)"

definition task_unblock_handle :: "int \<Rightarrow> 'w exec \<Rightarrow> 'w exec" where
  "task_unblock_handle cycles x =
     (let x1 = x\<lparr>xc_unblock_pending := False\<rparr>;
          x2 = (if xc_unblock_valid x1 \<and> cycles \<ge> xc_unblock_timestamp x1
                then x1\<lparr>xc_sb := sb_reg_invalid_clear_mask (xc_unblock_mask x1) (xc_sb x1), xc_unblock_valid := False\<rparr> else x1)
      in if xc_unblock_valid x2 then (enqueue_task T_Unblock x2)\<lparr>xc_unblock_pending := True\<rparr> else x2)"

section \<open>One cycle\<close>

record ('w, 's) xinsn =
  xi_insn :: "'w iss_insn"
  xi_addr :: 'w
  xi_opcode :: 'w
  xi_handler :: "'w iss_insn \<Rightarrow> 'w \<Rightarrow> 'w exec \<times> 's \<Rightarrow> ('w exec \<times> 's) \<times> 'w"
  xi_fast_handler :: "'w iss_insn \<Rightarrow> 'w \<Rightarrow> 'w exec \<times> 's \<Rightarrow> ('w exec \<times> 's) \<times> 'w"

record ('w, 's) xenv =
  xe_cycles :: int
  xe_flush :: "'s \<Rightarrow> 's"
  xe_fast_ok :: bool
  xe_irq_check :: "'w exec \<times> 's \<Rightarrow> 'w exec \<times> 's"
  xe_unit_task :: "nat \<Rightarrow> 'w exec \<times> 's \<Rightarrow> 'w exec \<times> 's"
  xe_fetch :: "'w \<Rightarrow> 's \<Rightarrow> 's \<times> bool"
  xe_get_insn :: "'w \<Rightarrow> 's \<Rightarrow> 's \<times> ('w, 's) xinsn option"
  xe_hwloop_check :: "'w \<Rightarrow> 'w \<Rightarrow> 's \<Rightarrow> 's \<times> 'w"
  xe_retire :: "'w iss_insn \<Rightarrow> 's \<Rightarrow> 's"
  xe_memcheck_fault :: "'s \<Rightarrow> 's"
  xe_trace :: bool
  xe_gdb :: bool

fun run_tasks :: "('w, 's) xenv \<Rightarrow> task list \<Rightarrow> 'w exec \<times> 's \<Rightarrow> 'w exec \<times> 's" where
  "run_tasks env [] st = st"
| "run_tasks env (T_Unblock # ts) (x, s) = run_tasks env ts (task_unblock_handle (xe_cycles env) x, s)"
| "run_tasks env (T_Unit n # ts) st = run_tasks env ts (xe_unit_task env n st)"

definition handle_tasks :: "('w, 's) xenv \<Rightarrow> 'w exec \<times> 's \<Rightarrow> ('w exec \<times> 's) \<times> bool" where
  "handle_tasks env st =
     (case st of (x, s) \<Rightarrow>
        if xc_tasks x = [] then (st, False)
        else case run_tasks env (xc_tasks x) (x\<lparr>xc_tasks := []\<rparr>, s) of (x1, s1) \<Rightarrow>
          if xc_retained x1 \<noteq> 0 then ((retain_check x1, s1), True) else ((x1, s1), False))"

definition commit_insn :: "bool \<Rightarrow> 'x::len word iss_insn \<Rightarrow> 'x word \<Rightarrow> 'x word \<Rightarrow> 'x word \<Rightarrow> 'x word exec \<Rightarrow> 'x word exec" where
  "commit_insn tr insn addr opcode pc x =
     (if \<not> xc_is_insn_hold x \<and> xc_queue x \<noteq> [] then
        let x1 = fst (append_entry addr opcode True x)
        in x1\<lparr>xc_sb := scoreboard_insn_end (sb_out_reg_mask insn) (xc_sb x1)\<rparr>
      else if \<not> xc_is_insn_hold x then
        let x1 = x\<lparr>xc_sb := scoreboard_insn_end (sb_out_reg_mask insn) (xc_sb x)\<rparr>
        in if tr then x_act (X_Dump pc) x1 else x1
      else x)"

text \<open>The part of a cycle after the instruction has been fetched and decoded.\<close>

definition dispatch_insn :: "('x::len word, 's) xenv \<Rightarrow> ('x word, 's) xinsn \<Rightarrow> 'x word \<Rightarrow> 'x word exec \<times> 's \<Rightarrow> 'x word exec \<times> 's" where
  "dispatch_insn env xi pc st =
     (case st of (x, s) \<Rightarrow>
        let insn = xi_insn xi
        in case scoreboard_insn_check (sb_reg_mask insn) (ucast (xi_addr xi)) (xe_cycles env) (xc_sb x) of (sb, wait, _) \<Rightarrow>
          if wait then (x\<lparr>xc_sb := sb\<rparr>, s)
          else
            let x1 = x\<lparr>xc_sb := scoreboard_insn_start (sb_out_reg_mask insn) sb\<rparr>
            in case xi_handler xi insn pc (x1, s) of ((x2, s2), next_pc) \<Rightarrow>
              if xc_is_insn_stalled x2 then
                (x2\<lparr>xc_is_insn_stalled := False, xc_sb := sb_reg_invalid_clear_mask (sb_out_reg_mask insn) (xc_sb x2)\<rparr>, s2)
              else case xe_hwloop_check env pc next_pc s2 of (s3, next_pc') \<Rightarrow>
                let x3 = (commit_insn (xe_trace env) insn (xi_addr xi) (xi_opcode xi) pc
                            (x2\<lparr>xc_current_insn := next_pc'\<rparr>))\<lparr>xc_is_insn_hold := False\<rparr>
                in (dbg_unit_step_check (xe_gdb env) x3, xe_memcheck_fault env (xe_retire env insn s3)))"

definition exec_instr_check_all :: "('x::len word, 's) xenv \<Rightarrow> 'x word exec \<times> 's \<Rightarrow> 'x word exec \<times> 's" where
  "exec_instr_check_all env st =
     (case st of (x, s) \<Rightarrow>
        if xc_stall_cycles x > 0 then (x\<lparr>xc_stall_cycles := xc_stall_cycles x - 1\<rparr>, s)
        else
          let (x1, s1) = (if xc_pending_flush x then (x\<lparr>xc_pending_flush := False\<rparr>, xe_flush env s) else (x, s));
              x2 = (if xc_has_exception x1
                    then x1\<lparr>xc_current_insn := xc_exception_pc x1, xc_has_exception := False\<rparr> else x1);
              x3 = (if xe_fast_ok env then x2\<lparr>xc_full_mode := False\<rparr> else x2);
              st4 = (if \<not> xc_skip_irq_check x3 then xe_irq_check env (x3, s1) else (x3\<lparr>xc_skip_irq_check := False\<rparr>, s1))
          in case handle_tasks env st4 of ((x5, s5), leave) \<Rightarrow>
            if leave then (x5, s5)
            else
              let pc = xc_current_insn x5
              in case xe_fetch env pc s5 of (s6, fetched) \<Rightarrow>
                if \<not> fetched then (x5, xe_memcheck_fault env s6)
                else case xe_get_insn env pc s6 of
                    (s7, None) \<Rightarrow> (x5, s7)
                  | (s7, Some xi) \<Rightarrow> dispatch_insn env xi pc (x5, s7))"

text \<open>The cycle in fast mode has no interrupt check, no exception, no flush and no commit queue.\<close>

definition exec_instr :: "('x::len word, 's) xenv \<Rightarrow> 'x word exec \<times> 's \<Rightarrow> 'x word exec \<times> 's" where
  "exec_instr env st =
     (case st of (x, s) \<Rightarrow>
        if xc_stall_cycles x > 0 then (x\<lparr>xc_stall_cycles := xc_stall_cycles x - 1\<rparr>, s)
        else case handle_tasks env (x, s) of ((x1, s1), leave) \<Rightarrow>
          if leave then (x1, s1)
          else
            let pc = xc_current_insn x1
            in case xe_fetch env pc s1 of (s2, fetched) \<Rightarrow>
              if \<not> fetched then (x1, xe_memcheck_fault env s2)
              else case xe_get_insn env pc s2 of
                  (s3, None) \<Rightarrow> (x1, s3)
                | (s3, Some xi) \<Rightarrow>
                    let insn = xi_insn xi
                    in case scoreboard_insn_check (sb_reg_mask insn) (ucast (xi_addr xi)) (xe_cycles env) (xc_sb x1) of (sb, wait, _) \<Rightarrow>
                      if wait then (x1\<lparr>xc_sb := sb\<rparr>, s3)
                      else
                        let x4 = x1\<lparr>xc_sb := scoreboard_insn_start (sb_out_reg_mask insn) sb\<rparr>
                        in case xi_fast_handler xi insn pc (x4, s3) of ((x5, s5), next_pc) \<Rightarrow>
                          if xc_is_insn_stalled x5 then
                            (x5\<lparr>xc_is_insn_stalled := False, xc_sb := sb_reg_invalid_clear_mask (sb_out_reg_mask insn) (xc_sb x5)\<rparr>, s5)
                          else case xe_hwloop_check env pc next_pc s5 of (s6, next_pc') \<Rightarrow>
                            let x6 = x5\<lparr>xc_current_insn := next_pc'\<rparr>;
                                x7 = (if \<not> xc_is_insn_hold x6
                                      then x6\<lparr>xc_sb := scoreboard_insn_end (sb_out_reg_mask insn) (xc_sb x6)\<rparr> else x6)
                            in (x7\<lparr>xc_is_insn_hold := False\<rparr>, xe_memcheck_fault env (xe_retire env insn s6)))"

end
