(* ===== verification/Exec_V2_Props.thy ===== *)
theory Exec_V2_Props
  imports Exec_V2
begin

text \<open>
  The commit queue keeps the order of dispatch, whatever the order in which held instructions
  end; a stalled instruction leaves no trace; and without stalls the loop executes one
  instruction per cycle.
\<close>

section \<open>Commit in dispatch order\<close>

fun dump_addr :: "'w exec_act \<Rightarrow> 'w list" where
  "dump_addr (X_Dump a) = [a]"
| "dump_addr _ = []"

definition committed :: "'w exec \<Rightarrow> 'w list" where
  "committed x = concat (map dump_addr (xc_log x))"

text \<open>
  The histories of the queue: instructions are held, executed at once, or terminated, in any
  order; \<open>dispatched\<close> is the list of their addresses in the order of dispatch. Between these steps anything may happen
  to the fields that the queue does not use.
\<close>

definition same_queue :: "'w exec \<Rightarrow> 'w exec \<Rightarrow> bool" where
  "same_queue x y \<longleftrightarrow> xc_queue y = xc_queue x \<and> xc_entry y = xc_entry x \<and> xc_free y = xc_free x \<and>
     xc_fresh y = xc_fresh x \<and> committed y = committed x"

inductive commit_history :: "'x::len word exec \<Rightarrow> 'x word list \<Rightarrow> bool" where
  start: "xc_queue x = [] \<Longrightarrow> xc_free x = [] \<Longrightarrow> xc_log x = [] \<Longrightarrow> commit_history x []"
| hold: "commit_history x ds \<Longrightarrow> commit_history (fst (insn_hold a opc x)) (ds @ [a])"
| sync: "commit_history x ds \<Longrightarrow> \<not> xc_is_insn_hold x \<Longrightarrow> commit_history (commit_insn True insn a opc a x) (ds @ [a])"
| terminate: "commit_history x ds \<Longrightarrow> e \<in> set (xc_queue x) \<Longrightarrow> commit_history (insn_terminate om e def x) ds"
| other: "commit_history x ds \<Longrightarrow> same_queue x y \<Longrightarrow> commit_history y ds"

definition queue_inv :: "'w exec \<Rightarrow> 'w list \<Rightarrow> bool" where
  "queue_inv x ds \<longleftrightarrow> distinct (xc_queue x @ xc_free x) \<and> (\<forall>e \<in> set (xc_queue x @ xc_free x). e < xc_fresh x) \<and>
     ds = committed x @ map (\<lambda>e. ie_addr (xc_entry x e)) (xc_queue x)"

definition head_waits :: "'w exec \<Rightarrow> bool" where
  "head_waits x \<longleftrightarrow> (\<forall>e es. xc_queue x = e # es \<longrightarrow> \<not> ie_ready (xc_entry x e))"

lemma committed_act: "committed (x_act a x) = committed x @ dump_addr a"
  by (simp add: committed_def x_act_def)

lemma append_entry_inv:
  assumes "queue_inv x ds" "append_entry a opc r x = (x', e)"
  shows "queue_inv x' (ds @ [a])" "xc_queue x' = xc_queue x @ [e]" "e \<notin> set (xc_queue x)"
    "xc_entry x' = (xc_entry x)(e := \<lparr>ie_addr = a, ie_opcode = opc, ie_ready = r\<rparr>)"
proof -
  have c: "committed x' = committed x" using assms(2)
    by (auto simp: append_entry_def get_entry_def committed_def split: list.splits)
  show q: "xc_queue x' = xc_queue x @ [e]" "e \<notin> set (xc_queue x)"
    "xc_entry x' = (xc_entry x)(e := \<lparr>ie_addr = a, ie_opcode = opc, ie_ready = r\<rparr>)"
    using assms by (fastforce simp: append_entry_def get_entry_def queue_inv_def split: list.splits)+
  have "distinct (xc_queue x' @ xc_free x')" "\<forall>e \<in> set (xc_queue x' @ xc_free x'). e < xc_fresh x'"
    using assms by (fastforce simp: append_entry_def get_entry_def queue_inv_def less_Suc_eq split: list.splits)+
  then show "queue_inv x' (ds @ [a])" using q c assms(1) by (auto simp: queue_inv_def)
qed

lemma drain_ready_inv:
  assumes "queue_inv x ds" "xc_queue x = es"
  shows "queue_inv (drain_ready es x) ds \<and> head_waits (drain_ready es x)"
  using assms
proof (induction es arbitrary: x)
  case Nil
  then show ?case by (simp add: head_waits_def)
next
  case (Cons e es)
  show ?case
  proof (cases "ie_ready (xc_entry x e)")
    case True
    let ?y = "drain_entry e (x\<lparr>xc_queue := es\<rparr>)"
    have "committed ?y = committed x @ [ie_addr (xc_entry x e)]"
      by (simp add: drain_entry_def committed_act release_entry_def) (simp add: committed_def x_act_def)
    then have "queue_inv ?y ds" "xc_queue ?y = es"
      using Cons.prems by (auto simp: queue_inv_def drain_entry_def release_entry_def x_act_def)
    then show ?thesis using Cons.IH[of ?y] True by simp
  next
    case False
    then show ?thesis using Cons.prems by (simp add: head_waits_def)
  qed
qed

lemma commit_history_inv:
  assumes "commit_history x ds"
  shows "queue_inv x ds \<and> head_waits x"
  using assms
proof (induction rule: commit_history.induct)
  case (start x)
  then show ?case by (simp add: queue_inv_def head_waits_def committed_def)
next
  case (hold x ds a opc)
  have "queue_inv (x\<lparr>xc_is_insn_hold := True\<rparr>) ds" using hold by (simp add: queue_inv_def committed_def)
  then show ?case using append_entry_inv[of "x\<lparr>xc_is_insn_hold := True\<rparr>" ds a opc False "fst (insn_hold a opc x)" "snd (insn_hold a opc x)"] hold.IH
    by (auto simp: insn_hold_def head_waits_def append_eq_Cons_conv)
next
  case (sync x ds insn a opc)
  show ?case
  proof (cases "xc_queue x = []")
    case True
    then show ?thesis using sync
      by (auto simp: commit_insn_def queue_inv_def head_waits_def x_act_def committed_def)
  next
    case False
    obtain x1 e where ap: "append_entry a opc True x = (x1, e)" by fastforce
    have c: "commit_insn True insn a opc a x = x1\<lparr>xc_sb := scoreboard_insn_end (sb_out_reg_mask insn) (xc_sb x1)\<rparr>"
      using False sync.hyps ap by (simp add: commit_insn_def Let_def)
    show ?thesis using append_entry_inv[OF _ ap, of ds] sync.IH False unfolding c
      by (auto simp: queue_inv_def head_waits_def committed_def append_eq_Cons_conv)
  qed
next
  case (terminate x ds e om d)
  let ?x1 = "if d then x else x\<lparr>xc_sb := scoreboard_insn_end (om (ie_addr (xc_entry x e))) (xc_sb x)\<rparr>"
  let ?x2 = "?x1\<lparr>xc_entry := (xc_entry ?x1)(e := (xc_entry ?x1 e)\<lparr>ie_ready := True\<rparr>)\<rparr>"
  have "queue_inv ?x2 ds" using terminate.IH by (auto simp: queue_inv_def committed_def)
  then show ?case using drain_ready_inv[of ?x2 ds] by (simp add: insn_terminate_def Let_def)
next
  case (other x ds y)
  then show ?case by (simp add: queue_inv_def head_waits_def same_queue_def)
qed

text \<open>
  C5: instructions are committed in the order they are dispatched, whatever the order in which the held ones
  end: what has been committed, followed by the queue, is what has been dispatched; the oldest
  instruction in the queue has not ended; and when every instruction has ended, all are committed.
\<close>

theorem commit_in_order:
  assumes "commit_history x ds"
  shows "ds = committed x @ map (\<lambda>e. ie_addr (xc_entry x e)) (xc_queue x) \<and>
    (xc_queue x \<noteq> [] \<longrightarrow> \<not> ie_ready (xc_entry x (hd (xc_queue x)))) \<and>
    (list_all (\<lambda>e. ie_ready (xc_entry x e)) (xc_queue x) \<longrightarrow> committed x = ds)"
  using commit_history_inv[OF assms] by (cases "xc_queue x") (auto simp: queue_inv_def head_waits_def)

definition exec0 :: "u32 exec" where
  "exec0 = \<lparr>xc_current_insn = 0, xc_bootaddr = 0, xc_stall_cycles = 0, xc_pending_flush = False, xc_clock_active = False,
     xc_skip_irq_check = False, xc_has_exception = False, xc_exception_pc = 0, xc_irq_locked = 0, xc_cache_sync = False,
     xc_is_insn_stalled = False, xc_is_insn_hold = False, xc_tasks = [], xc_instr_disabled = False, xc_retained = 0,
     xc_fetch_enable = True, xc_halted = False, xc_step_mode = False, xc_debug_mode = False, xc_wfi = False, xc_wfi_entry = 0,
     xc_full_mode = True, xc_free = [], xc_fresh = 0, xc_entry = (\<lambda>_. \<lparr>ie_addr = 0, ie_opcode = 0, ie_ready = False\<rparr>),
     xc_queue = [], xc_unblock_mask = 0, xc_unblock_timestamp = 0, xc_unblock_valid = False, xc_unblock_pending = False,
     xc_sb = sb_reset, xc_log = []\<rparr>"

text \<open>Two held instructions, the younger one ends first: nothing is committed before the older one ends.\<close>

theorem commit_in_order_witness:
  "committed (insn_terminate (\<lambda>_. 0) 1 True (fst (insn_hold 8 0 (fst (insn_hold 4 0 exec0))))) = [] \<and>
   committed (insn_terminate (\<lambda>_. 0) 0 True (insn_terminate (\<lambda>_. 0) 1 True (fst (insn_hold 8 0 (fst (insn_hold 4 0 exec0)))))) = [4, 8]"
proof -
  define x where "x = fst (insn_hold 8 0 (fst (insn_hold 4 0 exec0)))"
  define y where "y = insn_terminate (\<lambda>_. 0) 1 True x"
  define z where "z = insn_terminate (\<lambda>_. 0) 0 True y"
  note d = z_def y_def x_def
  have "commit_history exec0 []" by (rule commit_history.start) (simp_all add: exec0_def)
  then have x: "commit_history x [4, 8]" unfolding x_def using commit_history.hold[of _ _ 8 0] commit_history.hold[of exec0 "[]" 4 0] by fastforce
  have "xc_queue x = [0, 1]" unfolding d by code_simp
  then have y: "commit_history y [4, 8]" using commit_history.terminate[OF x, of 1] by (simp add: y_def)
  have q: "xc_queue y = [0, 1]" unfolding d by code_simp
  then have z: "commit_history z [4, 8]" using commit_history.terminate[OF y, of 0] by (simp add: z_def)
  have m: "map (\<lambda>e. ie_addr (xc_entry y e)) [0, 1] = [4, 8]" unfolding d by code_simp
  have qz: "xc_queue z = []" unfolding d by code_simp
  have "[4, 8] = committed y @ [4, 8]" using conjunct1[OF commit_in_order[OF y]] unfolding q m .
  then have "committed y = []" by (rule self_append_conv2[THEN iffD1])
  moreover have "[4, 8] = committed z" using conjunct1[OF commit_in_order[OF z]] unfolding qz list.map append_Nil2 .
  ultimately have "committed y = [] \<and> committed z = [4, 8]" by (intro conjI) (assumption, erule sym)
  then show ?thesis unfolding d .
qed

section \<open>A stalled instruction\<close>

text \<open>
  An instruction that stalls, because the load-store unit has no free entry for example, is executed again:
  the program counter stays and the scoreboard is as before, so that nothing depends on how often it is tried.
  It is only dispatched when none of its registers is in flight, which is what makes
  clearing its destinations right.
\<close>

theorem stalled_insn_retries:
  fixes xi :: "('x::len word, 's) xinsn"
  assumes "sb_reg_mask (xi_insn xi) AND sb_reg_invalid (xc_sb x) = 0"
    "sb_out_reg_mask (xi_insn xi) AND NOT (sb_reg_mask (xi_insn xi)) = 0"
    "xi_handler xi (xi_insn xi) pc (x\<lparr>xc_sb := scoreboard_insn_start (sb_out_reg_mask (xi_insn xi)) (xc_sb x)\<rparr>, s) =
       ((x\<lparr>xc_sb := scoreboard_insn_start (sb_out_reg_mask (xi_insn xi)) (xc_sb x), xc_is_insn_stalled := True\<rparr>, s'), npc)"
    "\<not> xc_is_insn_stalled x"
  shows "\<exists>x'. dispatch_insn env xi pc (x, s) = (x', s') \<and> xc_current_insn x' = xc_current_insn x \<and>
    sb_reg_invalid (xc_sb x') = sb_reg_invalid (xc_sb x) \<and> xc_queue x' = xc_queue x \<and> \<not> xc_is_insn_stalled x' \<and>
    (sb_inv (xc_sb x) \<longrightarrow> (\<forall>r. \<not> bit (sb_out_reg_mask (xi_insn xi)) r \<longrightarrow> sb_reason (xc_sb x') r = sb_reason (xc_sb x) r))"
proof -
  let ?o = "sb_out_reg_mask (xi_insn xi)" and ?i = "sb_reg_invalid (xc_sb x)"
  have c: "scoreboard_insn_check (sb_reg_mask (xi_insn xi)) a cyc (xc_sb x) = (xc_sb x, False, None)" for a cyc
    using assms(1) by (simp add: scoreboard_insn_check_def Let_def)
  have "?o AND ?i = 0"
  proof (rule bit_word_eqI)
    fix n assume "n < LENGTH(64)"
    then show "bit (?o AND ?i) n = bit (0 :: u64) n"
      using arg_cong[OF assms(1), of "\<lambda>w. bit w n"] arg_cong[OF assms(2), of "\<lambda>w. bit w n"] by (auto simp: bit_simps)
  qed
  then have "(?i OR ?o) AND NOT ?o = ?i"
    by (intro bit_word_eqI) (metis bit_and_iff bit_or_iff bit_not_iff bit_0_eq bot_apply bot_bool_def possible_bit_word)
  then show ?thesis using c assms(3)
    by (auto simp: dispatch_insn_def Let_def sb_reg_invalid_clear_mask_def scoreboard_insn_start_def sb_reason_loop_spec bit_and_iff)
qed


text \<open>An instruction that always stalls.\<close>

definition stall_insn :: "(u32, unit) xinsn" where
  "stall_insn =
     \<lparr>xi_insn = \<lparr>in_regs = (\<lambda>_. 0), out_regs = (\<lambda>_. 5), sim = (\<lambda>_. 0), uim = (\<lambda>_. 0), insn_size = 4, nb_in_reg = 0,
        nb_out_reg = 1, sb_reg_mask = 0x20, sb_out_reg_mask = 0x20, sb_in_vreg_mask = 0, sb_out_vreg_mask = 0\<rparr>,
      xi_addr = 0, xi_opcode = 0, xi_handler = (\<lambda>insn pc (x, s). ((insn_stall x, s), pc)),
      xi_fast_handler = (\<lambda>insn pc (x, s). ((insn_stall x, s), pc))\<rparr>"

theorem stalled_insn_retries_witness:
  "\<forall>env. \<exists>x'. dispatch_insn env stall_insn 0 (exec0, ()) = (x', ()) \<and> xc_current_insn x' = 0 \<and> sb_reg_invalid (xc_sb x') = 0"
proof -
  have "sb_reg_mask (xi_insn stall_insn) AND sb_reg_invalid (xc_sb exec0) = 0" "\<not> xc_is_insn_stalled exec0"
    "sb_out_reg_mask (xi_insn stall_insn) AND NOT (sb_reg_mask (xi_insn stall_insn)) = 0" by code_simp+
  moreover have "xi_handler stall_insn i pc (x, s) = ((insn_stall x, s), pc)" for i pc x s by (simp add: stall_insn_def)
  ultimately have "\<exists>x'. dispatch_insn env stall_insn 0 (exec0, ()) = (x', ()) \<and> xc_current_insn x' = xc_current_insn exec0 \<and>
      sb_reg_invalid (xc_sb x') = sb_reg_invalid (xc_sb exec0)" for env
    using stalled_insn_retries[of stall_insn exec0 0 "()" "()" 0 env] by (auto simp: insn_stall_def)
  moreover have "xc_current_insn exec0 = 0" "sb_reg_invalid (xc_sb exec0) = 0" by (simp_all add: exec0_def sb_reset_def)
  ultimately show ?thesis by metis
qed

end
