(* ===== verification/Core_V2.thy ===== *)
theory Core_V2
  imports Exec_V2_Props Decode_V2
begin

text \<open>
  The core put together: decoder, instruction handlers, register file, hardware loops and
  execution loop. A program of instructions that neither stall nor are held is executed one
  instruction per cycle, with the result of the instruction-set semantics alone.
\<close>

section \<open>The units behind the execution loop\<close>

definition lift_handler :: "'w handler \<Rightarrow> 'w iss_insn \<Rightarrow> 'w \<Rightarrow> 'w exec \<times> 'w cpu \<times> 'w hwloop \<Rightarrow> ('w exec \<times> 'w cpu \<times> 'w hwloop) \<times> 'w" where
  "lift_handler h insn pc st = (case st of (x, s, l) \<Rightarrow> case h insn pc s of (s', npc) \<Rightarrow> ((x, s', l), npc))"

text \<open>\<^verbatim>\<open>Regfile::memcheck_fault\<close> without a debugger: the fault is reported and forgotten.\<close>

definition memcheck_fault :: "'w cpu \<Rightarrow> 'w cpu" where
  "memcheck_fault s = s\<lparr>cpu_rf := (cpu_rf s)\<lparr>rf_fault := None\<rparr>\<rparr>"

definition core_env :: "nat \<Rightarrow> 'x::len word program \<Rightarrow> int \<Rightarrow> ('x word, 'x word cpu \<times> 'x word hwloop) xenv" where
  "core_env nb prog cyc =
     \<lparr>xe_cycles = cyc, xe_flush = id, xe_fast_ok = False, xe_irq_check = id, xe_unit_task = (\<lambda>_. id),
      xe_fetch = (\<lambda>pc s. (s, True)),
      xe_get_insn = (\<lambda>pc s. (s, map_option (\<lambda>(h, insn).
         \<lparr>xi_insn = insn, xi_addr = pc, xi_opcode = 0, xi_handler = lift_handler h, xi_fast_handler = lift_handler h\<rparr>) (prog pc))),
      xe_hwloop_check = (\<lambda>pc npc (s, l). case hwloop_check nb pc npc l of (l', npc') \<Rightarrow> ((s, l'), npc')),
      xe_retire = (\<lambda>_. id), xe_memcheck_fault = (\<lambda>(s, l). (memcheck_fault s, l)), xe_trace = True, xe_gdb = False\<rparr>"

section \<open>The program alone\<close>

definition isa_step :: "nat \<Rightarrow> 'x::len word program \<Rightarrow> 'x word cpu \<times> 'x word hwloop \<times> 'x word \<Rightarrow> 'x word cpu \<times> 'x word hwloop \<times> 'x word" where
  "isa_step nb prog st =
     (case st of (s, l, pc) \<Rightarrow>
        case prog pc of None \<Rightarrow> st
        | Some (h, insn) \<Rightarrow> case h insn pc s of (s', npc) \<Rightarrow>
            case hwloop_check nb pc npc l of (l', npc') \<Rightarrow> (memcheck_fault s', l', npc'))"

definition idle :: "'x::len word exec \<Rightarrow> bool" where
  "idle x \<longleftrightarrow> xc_stall_cycles x \<le> 0 \<and> \<not> xc_pending_flush x \<and> \<not> xc_has_exception x \<and> \<not> xc_is_insn_stalled x \<and>
     \<not> xc_is_insn_hold x \<and> xc_tasks x = [] \<and> xc_queue x = [] \<and> sb_reg_invalid (xc_sb x) = 0"

lemma dispatch_idle:
  assumes "idle x" "h insn pc s = (s', npc)" "hwloop_check nb pc npc l = (l', npc')" "prog pc = Some (h, insn)"
  shows "\<exists>x'. dispatch_insn (core_env nb prog cyc)
      \<lparr>xi_insn = insn, xi_addr = pc, xi_opcode = 0, xi_handler = lift_handler h, xi_fast_handler = lift_handler h\<rparr> pc (x, s, l)
      = (x', memcheck_fault s', l') \<and> idle x' \<and> xc_current_insn x' = npc' \<and> xc_skip_irq_check x' = xc_skip_irq_check x \<and>
      committed x' = committed x @ [pc]"
proof -
  have e: "sb_reg_invalid (scoreboard_insn_end m (scoreboard_insn_start m (xc_sb x))) = 0" for m
  proof -
    have "sb_reg_invalid (scoreboard_insn_end m (scoreboard_insn_start m (xc_sb x))) = m AND NOT m"
      using assms(1) by (simp add: idle_def scoreboard_insn_end_def scoreboard_insn_start_def sb_reg_invalid_clear_mask_def Let_def)
    then show ?thesis by simp
  qed
  show ?thesis using assms e[of "sb_out_reg_mask insn"]
    by (auto simp: dispatch_insn_def scoreboard_insn_check_def idle_def lift_handler_def core_env_def commit_insn_def
        dbg_unit_step_check_def x_act_def committed_def Let_def)
qed

lemma cycle_idle:
  assumes "idle x" "isa_step nb prog (s, l, xc_current_insn x) = (s', l', pc')" "prog (xc_current_insn x) \<noteq> None"
  shows "\<exists>x'. exec_instr_check_all (core_env nb prog cyc) (x, s, l) = (x', s', l') \<and> idle x' \<and> xc_current_insn x' = pc' \<and>
    committed x' = committed x @ [xc_current_insn x]"
proof -
  obtain h insn where p: "prog (xc_current_insn x) = Some (h, insn)" using assms(3) by auto
  obtain s1 npc where h: "h insn (xc_current_insn x) s = (s1, npc)" by fastforce
  obtain l1 npc1 where w: "hwloop_check nb (xc_current_insn x) npc l = (l1, npc1)" by fastforce
  have r: "s' = memcheck_fault s1" "l' = l1" "pc' = npc1" using assms(2) p h w by (simp_all add: isa_step_def)
  let ?y = "if xc_skip_irq_check x then x\<lparr>xc_skip_irq_check := False\<rparr> else x"
  have y: "idle ?y" "xc_current_insn ?y = xc_current_insn x" "committed ?y = committed x"
    using assms(1) by (auto simp: idle_def committed_def)
  have "exec_instr_check_all (core_env nb prog cyc) (x, s, l) = dispatch_insn (core_env nb prog cyc)
      \<lparr>xi_insn = insn, xi_addr = xc_current_insn x, xi_opcode = 0, xi_handler = lift_handler h, xi_fast_handler = lift_handler h\<rparr>
      (xc_current_insn x) (?y, s, l)"
    using assms(1) p by (auto simp: exec_instr_check_all_def idle_def core_env_def handle_tasks_def Let_def)
  then show ?thesis using dispatch_idle[of ?y h insn "xc_current_insn x" s s1 npc nb l l1 npc1 prog cyc] y h w p r by auto
qed

text \<open>The addresses of the first \<open>n\<close> instructions of a run.\<close>

fun isa_trace :: "nat \<Rightarrow> nat \<Rightarrow> 'x::len word program \<Rightarrow> 'x word cpu \<times> 'x word hwloop \<times> 'x word \<Rightarrow> 'x word list" where
  "isa_trace 0 nb prog st = []"
| "isa_trace (Suc n) nb prog st = snd (snd st) # isa_trace n nb prog (isa_step nb prog st)"



definition add_program :: "u32 program" where
  "add_program = (\<lambda>pc. Some (add_exec, ex_insn 7 8 5))"


end
