(* ===== verification/Lsu_V2.thy ===== *)
theory Lsu_V2
  imports Exec_V2 IO_V2
begin

text \<open>
  The load-store unit, \<^verbatim>\<open>src/models/cpu/iss_v2/src/lsu_v2.cpp\<close> with the inline functions of \<^verbatim>\<open>include/lsu_v2_implem.hpp\<close>: a pool of
  request entries, accesses that straddle the data port and are split in two beats, responses, retries after
  a denial, deferred completions and the memcheck shadow of loads and stores (built with
  \<^verbatim>\<open>CONFIG_GVSOC_ISS_REGFILE_SCOREBOARD\<close>).

  The data buffers of an entry are part of its request here, as 64-bit values. The port is a
  function in the environment: it returns the state behind the port, the request as the target left it, and the status. \<^verbatim>\<open>IoReq::prepare\<close>
  belongs to the engine and is in the environment too; the address translation is an argument of the accesses.
\<close>

section \<open>State\<close>

record 'w lreq =
  lr_addr :: 'w
  lr_size :: nat
  lr_opcode :: io_opcode
  lr_data :: u64
  lr_data2 :: u64
  lr_latency :: int
  lr_status :: io_resp_status
  lr_mc :: bool
  lr_mc_data :: "byte list"
  lr_mc_id :: u32

record 'w lsu_entry =
  le_req :: "'w lreq"
  le_is_signed :: bool
  le_reg :: nat
  le_reg2 :: nat
  le_pc :: 'w
  le_insn_entry :: nat
  le_timestamp :: int
  le_msize :: nat
  le_maddr :: 'w
  le_moffset :: nat

text \<open>Calls to the timing object, the exception unit and the buffer checker, in order.\<close>

datatype 'w lsu_act =
    L_Load_Account | L_Store_Account | L_Misaligned_Account | L_Rvc nat | L_Invalid_Access 'w 'w nat io_opcode | L_Check_Access u64 nat u32 bool

record ('w, 'p) lsu =
  ls_free :: "nat list"
  ls_entry :: "nat \<Rightarrow> 'w lsu_entry"
  ls_io_req_denied :: bool
  ls_denied_entry :: "nat option"
  ls_granted_entry :: "nat option"
  ls_pending_fence :: bool
  ls_nb_pending :: int
  ls_next_retire :: int
  ls_issuing_misaligned :: bool
  ls_aliases :: "(u64 \<times> u64 \<times> u64) list"
  ls_port :: 'p
  ls_rf :: "'w regfile"
  ls_x :: "'w exec"
  ls_log :: "'w lsu_act list"

record ('w, 'p) lsu_env =
  lv_cycles :: int
  lv_width :: nat
  lv_memcheck :: bool
  lv_prepare :: "'w lreq \<Rightarrow> 'w lreq"
  lv_req :: "'p \<Rightarrow> 'w lreq \<Rightarrow> 'p \<times> 'w lreq \<times> io_req_status"
  lv_out_mask :: "'w \<Rightarrow> u64"

text \<open>What an access takes from its instruction.\<close>

record 'w linsn =
  li_addr :: 'w
  li_opcode :: 'w
  li_out_mask :: u64

definition l_act :: "'w lsu_act \<Rightarrow> ('w, 'p) lsu \<Rightarrow> ('w, 'p) lsu" where
  "l_act a s = s\<lparr>ls_log := ls_log s @ [a]\<rparr>"

definition upd_entry :: "nat \<Rightarrow> ('w lsu_entry \<Rightarrow> 'w lsu_entry) \<Rightarrow> ('w, 'p) lsu \<Rightarrow> ('w, 'p) lsu" where
  "upd_entry e f s = s\<lparr>ls_entry := (ls_entry s)(e := f (ls_entry s e))\<rparr>"

definition upd_req :: "nat \<Rightarrow> ('w lreq \<Rightarrow> 'w lreq) \<Rightarrow> ('w, 'p) lsu \<Rightarrow> ('w, 'p) lsu" where
  "upd_req e f = upd_entry e (\<lambda>en. en\<lparr>le_req := f (le_req en)\<rparr>)"

definition on_x :: "('w exec \<Rightarrow> 'w exec) \<Rightarrow> ('w, 'p) lsu \<Rightarrow> ('w, 'p) lsu" where
  "on_x f s = s\<lparr>ls_x := f (ls_x s)\<rparr>"

definition on_lrf :: "('w regfile \<Rightarrow> 'w regfile) \<Rightarrow> ('w, 'p) lsu \<Rightarrow> ('w, 'p) lsu" where
  "on_lrf f s = s\<lparr>ls_rf := f (ls_rf s)\<rparr>"

text \<open>Sending the request of an entry.\<close>

definition send_req :: "('w, 'p) lsu_env \<Rightarrow> nat \<Rightarrow> ('w, 'p) lsu \<Rightarrow> ('w, 'p) lsu \<times> io_req_status" where
  "send_req env e s =
     (case lv_req env (ls_port s) (le_req (ls_entry s e)) of (p, r, st) \<Rightarrow> (upd_req e (\<lambda>_. r) (s\<lparr>ls_port := p\<rparr>), st))"

section \<open>Entries, reset, fence\<close>

definition get_req_entry :: "('w, 'p) lsu \<Rightarrow> (('w, 'p) lsu \<times> nat) option" where
  "get_req_entry s =
     (case ls_free s of [] \<Rightarrow> None
      | e # es \<Rightarrow> Some (s\<lparr>ls_nb_pending := ls_nb_pending s + 1, ls_free := es\<rparr>, e))"

definition free_req_entry :: "nat \<Rightarrow> ('w, 'p) lsu \<Rightarrow> ('w, 'p) lsu" where
  "free_req_entry e s = s\<lparr>ls_nb_pending := ls_nb_pending s - 1, ls_free := e # ls_free s\<rparr>"

text \<open>\<open>aliases\<close> are the alias windows of the trace engine that match this core.\<close>

definition lsu_reset :: "bool \<Rightarrow> (u64 \<times> u64 \<times> u64) list \<Rightarrow> ('w, 'p) lsu \<Rightarrow> ('w, 'p) lsu" where
  "lsu_reset active aliases s =
     (if active
      then s\<lparr>ls_io_req_denied := False, ls_denied_entry := None, ls_granted_entry := None, ls_pending_fence := False,
             ls_nb_pending := 0, ls_next_retire := 0, ls_issuing_misaligned := False,
             ls_rf := (ls_rf s)\<lparr>rf_pending_addr_buffer_id := 0\<rparr>, ls_aliases := aliases\<rparr>
      else s)"

definition lsu_fence :: "('w, 'p) lsu \<Rightarrow> ('w, 'p) lsu \<times> bool" where
  "lsu_fence s =
     (if ls_nb_pending s = 0 then (s\<lparr>ls_pending_fence := False\<rparr>, False)
      else if ls_pending_fence s then (s, True)
      else (on_x insn_stall (s\<lparr>ls_pending_fence := True\<rparr>), True))"

section \<open>Memcheck\<close>

definition fold_alias :: "(u64 \<times> u64 \<times> u64) list \<Rightarrow> u64 \<Rightarrow> u64" where
  "fold_alias aliases a =
     (case find (\<lambda>(local_base, global_base, sz). a \<ge> local_base \<and> a < local_base + sz) aliases of
        None \<Rightarrow> a | Some (local_base, global_base, sz) \<Rightarrow> global_base + (a - local_base))"

definition memcheck_check_access :: "'x::len word \<Rightarrow> nat \<Rightarrow> io_opcode \<Rightarrow> ('x word, 'p) lsu \<Rightarrow> ('x word, 'p) lsu" where
  "memcheck_check_access addr sz opc s =
     (let buffer_id = rf_pending_addr_buffer_id (ls_rf s);
          s1 = s\<lparr>ls_rf := (ls_rf s)\<lparr>rf_pending_addr_buffer_id := 0\<rparr>\<rparr>
      in if buffer_id = 0 then s1
         else l_act (L_Check_Access (fold_alias (ls_aliases s1) (ucast addr)) sz buffer_id (opc \<noteq> OP_READ)) s1)"

text \<open>\<open>put_bytes\<close> overwrites the first bytes of a buffer.\<close>

definition put_bytes :: "byte list \<Rightarrow> byte list \<Rightarrow> byte list" where
  "put_bytes new old = new @ drop (length new) old"

definition memcheck_prepare_req :: "nat \<Rightarrow> 'x::len word \<Rightarrow> nat \<Rightarrow> io_opcode \<Rightarrow> nat \<Rightarrow> ('x word, 'p) lsu \<Rightarrow> ('x word, 'p) lsu" where
  "memcheck_prepare_req e addr sz opc reg s =
     (let reg_size = LENGTH('x) div 8
      in if \<not> rf_mc_enabled (ls_rf s) \<or> ls_issuing_misaligned s then s
         else if opc = OP_READ then
           upd_req e (\<lambda>r. r\<lparr>lr_mc_data := put_bytes (replicate sz (- 1)) (lr_mc_data r), lr_mc := True\<rparr>) s
         else if opc = OP_WRITE then
           let m = rf_mc (ls_rf s) reg;
               copy_size = min sz reg_size;
               s1 = upd_req e (\<lambda>r. r\<lparr>lr_mc_data := put_bytes (to_le copy_size m @ replicate (sz - copy_size) (- 1)) (lr_mc_data r),
                                     lr_mc := True\<rparr>) s
           in if sz = reg_size \<and> addr AND of_nat (reg_size - 1) = 0
              then upd_req e (\<lambda>r. r\<lparr>lr_mc_id := rf_mc_id (ls_rf s1) reg\<rparr>) s1 else s1
         else s)"

definition memcheck_handle_load :: "nat \<Rightarrow> nat \<Rightarrow> ('x::len word, 'p) lsu \<Rightarrow> ('x word, 'p) lsu" where
  "memcheck_handle_load e sz s =
     (let en = ls_entry s e; r = le_req en; reg_size = LENGTH('x) div 8
      in if \<not> rf_mc_enabled (ls_rf s) \<or> le_reg en = 0 then s
         else if \<not> lr_mc r then on_lrf (memcheck_set_valid (le_reg en) True) s
         else
           let upper = push_bit (sz * 8) (- 1);
               m = (if sz \<ge> reg_size then from_le (take reg_size (lr_mc_data r))
                    else
                      let low = from_le (take sz (lr_mc_data r))
                      in if le_is_signed en then (if bit (lr_mc_data r ! (sz - 1)) 7 then low OR upper else low)
                         else low OR upper);
               s1 = on_lrf (memcheck_set (le_reg en) m) s
           in if sz = reg_size \<and> lr_addr r AND of_nat (reg_size - 1) = 0
              then on_lrf (\<lambda>rf. rf\<lparr>rf_mc_id := (rf_mc_id rf)(le_reg en := lr_mc_id r)\<rparr>) s1 else s1)"

section \<open>Completion\<close>

text \<open>What the register receives from the data buffers.\<close>

definition merge_beats :: "nat \<Rightarrow> nat \<Rightarrow> u64 \<Rightarrow> u64 \<Rightarrow> u64" where
  "merge_beats size0 sz data data2 =
     (data2 AND (push_bit (size0 * 8) 1 - 1)) OR push_bit (size0 * 8) (data AND (push_bit (sz * 8) 1 - 1))"

definition handle_req_end :: "('x::len word, 'p) lsu_env \<Rightarrow> nat \<Rightarrow> ('x word, 'p) lsu \<Rightarrow> ('x word, 'p) lsu" where
  "handle_req_end env e s =
     (let en = ls_entry s e; r = le_req en;
          s1 = (if lr_status r = IO_RESP_INVALID
                then l_act (L_Invalid_Access (le_pc en) (lr_addr r) (lr_size r) (lr_opcode r)) s
                else if lr_opcode r = OP_READ then
                  let (data, sz) = (if le_moffset en \<noteq> 0
                         then (merge_beats (le_moffset en) (lr_size r) (lr_data r) (lr_data2 r), lr_size r + le_moffset en)
                         else (lr_data r, lr_size r));
                      v = (if le_is_signed en then iss_get_signed_value (ucast data) (sz * 8) else ucast data);
                      s2 = on_lrf (set_reg (le_reg en) v) (upd_entry e (\<lambda>en. en\<lparr>le_moffset := 0\<rparr>) s)
                  in if lv_memcheck env then memcheck_handle_load e sz s2 else s2
                else if lr_opcode r \<noteq> OP_WRITE then
                  let v = (if le_is_signed en then iss_get_signed_value (ucast (lr_data2 r)) (lr_size r * 8) else ucast (lr_data2 r));
                      s2 = on_lrf (set_reg (le_reg2 en) v) s
                  in if lv_memcheck env \<and> rf_mc_enabled (ls_rf s2) then on_lrf (memcheck_set_valid (le_reg2 en) True) s2 else s2
                else s)
      in free_req_entry e (upd_entry e (\<lambda>en. en\<lparr>le_moffset := 0\<rparr>) s1))"

text \<open>
  A request done at once: deferred to a task when it has a latency. \<open>second\<close> issues the second beat of a split access;
  the result tells whether the instruction has to be held.
\<close>

definition response_step :: "('x::len word, 'p) lsu_env \<Rightarrow> (nat \<Rightarrow> ('x word, 'p) lsu \<Rightarrow> ('x word, 'p) lsu \<times> bool) \<Rightarrow>
    nat \<Rightarrow> ('x word, 'p) lsu \<Rightarrow> ('x word, 'p) lsu \<times> bool" where
  "response_step env second e s =
     (let en = ls_entry s e
      in if lr_latency (le_req en) > 0 then
           (on_x (enqueue_task (T_Unit e)) (upd_entry e (\<lambda>en. en\<lparr>le_timestamp := lv_cycles env + lr_latency (le_req en)\<rparr>) s), True)
         else if le_msize en \<noteq> 0 then second e s
         else (handle_req_end env e s, False))"

text \<open>The second beat has no further beat: \<open>second\<close> is not called in its own completion.\<close>

definition fire_misaligned_second :: "('x::len word, 'p) lsu_env \<Rightarrow> nat \<Rightarrow> ('x word, 'p) lsu \<Rightarrow> ('x word, 'p) lsu \<times> bool" where
  "fire_misaligned_second env e s =
     (let en = ls_entry s e; size0 = le_moffset en; size1 = le_msize en; is_wr = (lr_opcode (le_req en) = OP_WRITE);
          s1 = upd_req e (\<lambda>r. if is_wr then r\<lparr>lr_data := drop_bit (size0 * 8) (lr_data2 r)\<rparr>
                              else r\<lparr>lr_data2 := lr_data r AND (push_bit (size0 * 8) 1 - 1)\<rparr>) s;
          s2 = l_act (if is_wr then L_Store_Account else L_Load_Account) s1;
          s3 = upd_req e (\<lambda>r. (lv_prepare env r)\<lparr>lr_addr := le_maddr en, lr_size := size1, lr_status := IO_RESP_OK\<rparr>) s2;
          s4 = upd_entry e (\<lambda>en. en\<lparr>le_msize := 0\<rparr>) s3
      in case send_req env e s4 of (s5, st) \<Rightarrow>
        (case st of
           IO_REQ_DONE \<Rightarrow> response_step env (\<lambda>_ s. (s, False)) e s5
         | IO_REQ_DENIED \<Rightarrow> (s5\<lparr>ls_denied_entry := Some e, ls_io_req_denied := True\<rparr>, True)
         | IO_REQ_GRANTED \<Rightarrow> (s5, True)))"

definition handle_req_response :: "('x::len word, 'p) lsu_env \<Rightarrow> nat \<Rightarrow> ('x word, 'p) lsu \<Rightarrow> ('x word, 'p) lsu \<times> bool" where
  "handle_req_response env = response_step env (fire_misaligned_second env)"

text \<open>The end of a held instruction, shared by \<^verbatim>\<open>data_response\<close> and \<^verbatim>\<open>task_handle\<close>.\<close>

definition retire_entry :: "('x::len word, 'p) lsu_env \<Rightarrow> nat \<Rightarrow> ('x word, 'p) lsu \<Rightarrow> ('x word, 'p) lsu" where
  "retire_entry env e s =
     (let insn_entry = le_insn_entry (ls_entry s e);
          s1 = handle_req_end env e s;
          msk = lv_out_mask env (ie_addr (xc_entry (ls_x s1) insn_entry))
      in on_x (\<lambda>x. insn_terminate (lv_out_mask env) insn_entry True (schedule_scoreboard_release (lv_cycles env) msk x)) s1)"

definition data_response :: "('x::len word, 'p) lsu_env \<Rightarrow> nat \<Rightarrow> ('x word, 'p) lsu \<Rightarrow> ('x word, 'p) lsu" where
  "data_response env e s =
     (let cur = lv_cycles env
      in if le_msize (ls_entry s e) \<noteq> 0 then fst (fire_misaligned_second env e s)
         else if cur < ls_next_retire s then
           on_x (enqueue_task (T_Unit e))
             ((upd_entry e (\<lambda>en. en\<lparr>le_timestamp := ls_next_retire s\<rparr>) s)\<lparr>ls_next_retire := ls_next_retire s + 1\<rparr>)
         else (retire_entry env e s)\<lparr>ls_next_retire := cur + 1\<rparr>)"

definition lsu_task_handle :: "('x::len word, 'p) lsu_env \<Rightarrow> nat \<Rightarrow> ('x word, 'p) lsu \<Rightarrow> ('x word, 'p) lsu" where
  "lsu_task_handle env e s =
     (let cur = lv_cycles env
      in if cur < le_timestamp (ls_entry s e) then on_x (enqueue_task (T_Unit e)) s
         else if le_msize (ls_entry s e) \<noteq> 0 then fst (fire_misaligned_second env e s)
         else
           let s1 = retire_entry env e s
           in if ls_next_retire s1 < cur + 1 then s1\<lparr>ls_next_retire := cur + 1\<rparr> else s1)"

definition data_retry :: "('x::len word, 'p) lsu_env \<Rightarrow> ('x word, 'p) lsu \<Rightarrow> ('x word, 'p) lsu" where
  "data_retry env s =
     (case ls_denied_entry s of
        None \<Rightarrow> s\<lparr>ls_io_req_denied := False\<rparr>
      | Some e \<Rightarrow> (case send_req env e s of (s1, st) \<Rightarrow>
          if st = IO_REQ_DENIED then s1
          else
            let s2 = s1\<lparr>ls_denied_entry := None, ls_io_req_denied := False\<rparr>
            in if st = IO_REQ_DONE
               then on_x (enqueue_task (T_Unit e))
                 (upd_entry e (\<lambda>en. en\<lparr>le_timestamp := lv_cycles env + lr_latency (le_req en)\<rparr>) s2)
               else s2))"

section \<open>Issue\<close>

definition hold_entry :: "'w linsn \<Rightarrow> nat \<Rightarrow> ('w, 'p) lsu \<Rightarrow> ('w, 'p) lsu" where
  "hold_entry insn e s =
     (case insn_hold (li_addr insn) (li_opcode insn) (ls_x s) of (x, ie) \<Rightarrow>
        upd_entry e (\<lambda>en. en\<lparr>le_insn_entry := ie\<rparr>) (s\<lparr>ls_x := x\<rparr>))"

abbreviation (input) ISS_STALL_REASON_LOAD :: byte where "ISS_STALL_REASON_LOAD \<equiv> 1"

text \<open>Filling the entry and its request.\<close>

definition fill_entry :: "('x::len word, 'p) lsu_env \<Rightarrow> 'x word linsn \<Rightarrow> 'x word \<Rightarrow> nat \<Rightarrow> io_opcode \<Rightarrow> bool \<Rightarrow> nat \<Rightarrow> nat \<Rightarrow>
    nat \<Rightarrow> ('x word, 'p) lsu \<Rightarrow> ('x word, 'p) lsu" where
  "fill_entry env insn addr sz opc signd reg reg2 e s =
     (let s1 = (if opc = OP_READ then on_x (\<lambda>x. x\<lparr>xc_sb := sb_set_reason (li_out_mask insn) ISS_STALL_REASON_LOAD (xc_sb x)\<rparr>) (l_act L_Load_Account s)
                else if opc = OP_WRITE then l_act L_Store_Account s else s);
          data = (if opc = OP_READ then 0 else ucast (get_reg reg (ls_rf s1)));
          s2 = upd_entry e (\<lambda>en. en\<lparr>le_req := (lv_prepare env ((le_req en)\<lparr>lr_data := data\<rparr>))
                 \<lparr>lr_addr := addr, lr_size := sz, lr_opcode := opc, lr_status := IO_RESP_OK\<rparr>,
                 le_reg := reg, le_reg2 := reg2, le_is_signed := signd, le_pc := li_addr insn\<rparr>) s1
      in if lv_memcheck env then memcheck_prepare_req e addr sz opc reg s2 else s2)"

definition data_req_aligned :: "('x::len word, 'p) lsu_env \<Rightarrow> 'x word linsn \<Rightarrow> 'x word \<Rightarrow> nat \<Rightarrow> io_opcode \<Rightarrow> bool \<Rightarrow> nat \<Rightarrow> nat \<Rightarrow>
    ('x word, 'p) lsu \<Rightarrow> ('x word, 'p) lsu \<times> bool" where
  "data_req_aligned env insn addr sz opc signd reg reg2 s =
     (let s0 = s\<lparr>ls_granted_entry := None\<rparr>
      in case get_req_entry s0 of
           None \<Rightarrow> (s0, True)
         | Some (s1, e) \<Rightarrow>
             (case send_req env e (fill_entry env insn addr sz opc signd reg reg2 e s1) of (s2, st) \<Rightarrow>
                (case st of
                   IO_REQ_DONE \<Rightarrow> (case handle_req_response env e s2 of (s3, held) \<Rightarrow>
                     (if held then hold_entry insn e s3 else s3, False))
                 | IO_REQ_GRANTED \<Rightarrow> ((hold_entry insn e s2)\<lparr>ls_granted_entry := Some e\<rparr>, False)
                 | IO_REQ_DENIED \<Rightarrow> ((hold_entry insn e s2)\<lparr>ls_denied_entry := Some e, ls_io_req_denied := True\<rparr>, False))))"

definition data_req_misaligned :: "('x::len word, 'p) lsu_env \<Rightarrow> 'x word linsn \<Rightarrow> 'x word \<Rightarrow> nat \<Rightarrow> io_opcode \<Rightarrow> bool \<Rightarrow> nat \<Rightarrow> nat \<Rightarrow>
    ('x word, 'p) lsu \<Rightarrow> ('x word, 'p) lsu \<times> bool" where
  "data_req_misaligned env insn addr sz opc signd reg reg2 s0 =
     (let addr1 = (addr + of_nat sz - 1) AND NOT (of_nat (lv_width env - 1));
          size0 = unat (addr1 - addr); size1 = sz - size0;
          s = l_act L_Misaligned_Account s0;
          full_write_data = (if opc = OP_WRITE then ucast (get_reg reg (ls_rf s)) else 0)
      in case data_req_aligned env insn addr size0 opc signd reg reg2 (s\<lparr>ls_issuing_misaligned := True\<rparr>) of (s1, stalled) \<Rightarrow>
        let s2 = s1\<lparr>ls_issuing_misaligned := False\<rparr>
        in (case ls_free s of
              e # _ \<Rightarrow> if stalled then s2
                else
                  let s3 = upd_entry e (\<lambda>en. en\<lparr>le_msize := size1, le_maddr := addr1, le_moffset := size0\<rparr>) s2
                  in if opc = OP_WRITE then upd_req e (\<lambda>r. r\<lparr>lr_data2 := full_write_data\<rparr>) s3 else s3
            | [] \<Rightarrow> s2, stalled))"

definition data_req :: "('x::len word, 'p) lsu_env \<Rightarrow> 'x word linsn \<Rightarrow> 'x word \<Rightarrow> nat \<Rightarrow> io_opcode \<Rightarrow> bool \<Rightarrow> nat \<Rightarrow> nat \<Rightarrow>
    ('x word, 'p) lsu \<Rightarrow> ('x word, 'p) lsu \<times> bool" where
  "data_req env insn addr sz opc signd reg reg2 s =
     (let s1 = (if lv_memcheck env then memcheck_check_access addr sz opc s else s);
          port_mask = NOT (of_nat (lv_width env - 1))
      in if addr AND port_mask \<noteq> (addr + of_nat sz - 1) AND port_mask
         then data_req_misaligned env insn addr sz opc signd reg reg2 s1
         else data_req_aligned env insn addr sz opc signd reg reg2 s1)"

text \<open>
  \<open>translated\<close> tells whether the translation of the address is at hand; the translated address itself is not used.
\<close>

definition data_req_virtual :: "('x::len word, 'p) lsu_env \<Rightarrow> bool \<Rightarrow> 'x word linsn \<Rightarrow> 'x word \<Rightarrow> nat \<Rightarrow> io_opcode \<Rightarrow> bool \<Rightarrow> nat \<Rightarrow> nat \<Rightarrow>
    ('x word, 'p) lsu \<Rightarrow> ('x word, 'p) lsu \<times> bool" where
  "data_req_virtual env translated insn addr sz opc signd reg reg2 s =
     (if \<not> translated then (s, False)
      else if ls_io_req_denied s then (on_x insn_stall s, True)
      else case data_req env insn addr sz opc signd reg reg2 s of (s1, stalled) \<Rightarrow>
        if stalled then (on_x insn_stall s1, True) else (s1, False))"

definition lsu_load :: "('x::len word, 'p) lsu_env \<Rightarrow> bool \<Rightarrow> 'x word linsn \<Rightarrow> 'x word \<Rightarrow> nat \<Rightarrow> nat \<Rightarrow> ('x word, 'p) lsu \<Rightarrow> ('x word, 'p) lsu \<times> bool" where
  "lsu_load env tr insn addr sz reg = data_req_virtual env tr insn addr sz OP_READ False reg 0"

definition lsu_load_signed :: "('x::len word, 'p) lsu_env \<Rightarrow> bool \<Rightarrow> 'x word linsn \<Rightarrow> 'x word \<Rightarrow> nat \<Rightarrow> nat \<Rightarrow> ('x word, 'p) lsu \<Rightarrow> ('x word, 'p) lsu \<times> bool" where
  "lsu_load_signed env tr insn addr sz reg = data_req_virtual env tr insn addr sz OP_READ True reg 0"

definition lsu_store :: "('x::len word, 'p) lsu_env \<Rightarrow> bool \<Rightarrow> 'x word linsn \<Rightarrow> 'x word \<Rightarrow> nat \<Rightarrow> nat \<Rightarrow> ('x word, 'p) lsu \<Rightarrow> ('x word, 'p) lsu \<times> bool" where
  "lsu_store env tr insn addr sz reg = data_req_virtual env tr insn addr sz OP_WRITE False reg 0"

definition lsu_atomic :: "('x::len word, 'p) lsu_env \<Rightarrow> bool \<Rightarrow> 'x word linsn \<Rightarrow> 'x word \<Rightarrow> nat \<Rightarrow> nat \<Rightarrow> nat \<Rightarrow> io_opcode \<Rightarrow>
    ('x word, 'p) lsu \<Rightarrow> ('x word, 'p) lsu \<times> bool" where
  "lsu_atomic env tr insn addr sz reg_in reg_out opc = data_req_virtual env tr insn addr sz opc True reg_in reg_out"

text \<open>The variants with statistics stop at a watchpoint of the debugger: \<open>wp\<close> tells whether one matches.\<close>

definition lsu_load_perf :: "bool \<Rightarrow> ('x::len word, 'p) lsu_env \<Rightarrow> bool \<Rightarrow> 'x word linsn \<Rightarrow> 'x word \<Rightarrow> nat \<Rightarrow> nat \<Rightarrow> ('x word, 'p) lsu \<Rightarrow> ('x word, 'p) lsu \<times> bool" where
  "lsu_load_perf wp env tr insn addr sz reg s =
     (if wp then (s, True) else data_req_virtual env tr insn addr sz OP_READ False reg 0 s)"

definition lsu_load_signed_perf :: "bool \<Rightarrow> ('x::len word, 'p) lsu_env \<Rightarrow> bool \<Rightarrow> 'x word linsn \<Rightarrow> 'x word \<Rightarrow> nat \<Rightarrow> nat \<Rightarrow> ('x word, 'p) lsu \<Rightarrow> ('x word, 'p) lsu \<times> bool" where
  "lsu_load_signed_perf wp env tr insn addr sz reg s =
     (if wp then (s, True) else data_req_virtual env tr insn addr sz OP_READ True reg 0 s)"

definition lsu_store_perf :: "bool \<Rightarrow> ('x::len word, 'p) lsu_env \<Rightarrow> bool \<Rightarrow> 'x word linsn \<Rightarrow> 'x word \<Rightarrow> nat \<Rightarrow> nat \<Rightarrow> ('x word, 'p) lsu \<Rightarrow> ('x word, 'p) lsu \<times> bool" where
  "lsu_store_perf wp env tr insn addr sz reg s =
     (if wp then (s, True) else data_req_virtual env tr insn addr sz OP_WRITE False reg 0 s)"

text \<open>Accesses of the floating-point registers (in the integer register file of this build).\<close>

definition lsu_load_float :: "('x::len word, 'p) lsu_env \<Rightarrow> bool \<Rightarrow> 'x word linsn \<Rightarrow> 'x word \<Rightarrow> nat \<Rightarrow> nat \<Rightarrow> ('x word, 'p) lsu \<Rightarrow> ('x word, 'p) lsu \<times> bool" where
  "lsu_load_float env tr insn addr sz reg = data_req_virtual env tr insn addr sz OP_READ False reg 0"

definition lsu_store_float :: "('x::len word, 'p) lsu_env \<Rightarrow> bool \<Rightarrow> 'x word linsn \<Rightarrow> 'x word \<Rightarrow> nat \<Rightarrow> nat \<Rightarrow> ('x word, 'p) lsu \<Rightarrow> ('x word, 'p) lsu \<times> bool" where
  "lsu_store_float env tr insn addr sz reg = data_req_virtual env tr insn addr sz OP_WRITE False reg 0"

definition lsu_load_float_perf :: "('x::len word, 'p) lsu_env \<Rightarrow> bool \<Rightarrow> 'x word linsn \<Rightarrow> 'x word \<Rightarrow> nat \<Rightarrow> nat \<Rightarrow> ('x word, 'p) lsu \<Rightarrow> ('x word, 'p) lsu \<times> bool" where
  "lsu_load_float_perf env tr insn addr sz reg = data_req_virtual env tr insn addr sz OP_READ False reg 0"

definition lsu_store_float_perf :: "('x::len word, 'p) lsu_env \<Rightarrow> bool \<Rightarrow> 'x word linsn \<Rightarrow> 'x word \<Rightarrow> nat \<Rightarrow> nat \<Rightarrow> ('x word, 'p) lsu \<Rightarrow> ('x word, 'p) lsu \<times> bool" where
  "lsu_store_float_perf env tr insn addr sz reg = data_req_virtual env tr insn addr sz OP_WRITE False reg 0"

end
