(* ===== verification/Isa_Mem.thy ===== *)
theory Isa_Mem
  imports Lsu_V2
begin

text \<open>
  The handlers of instructions that access memory: \<^verbatim>\<open>src/models/cpu/iss/include/isa/rv32i.hpp\<close>, \<^verbatim>\<open>rv32c.hpp\<close>, \<^verbatim>\<open>rv32a.hpp\<close>,
  \<^verbatim>\<open>rv64i.hpp\<close>, \<^verbatim>\<open>rv64c.hpp\<close> and \<^verbatim>\<open>rv64a.hpp\<close>, as the second-generation simulator compiles them. A handler takes the environment of
  the load-store unit, whether the address is translated and whether a watchpoint of the debugger matches, the instruction, its
  opcode and address, and the core as the load-store unit sees it; it returns the core and the next
  program counter, which is the address of the instruction itself when the access has to be retried.
\<close>

section \<open>Common parts\<close>

record ('w, 'p) menv =
  me_lsu :: "('w, 'p) lsu_env"
  me_tr :: bool
  me_wp :: bool

type_synonym ('w, 'p) mhandler = "('w, 'p) menv \<Rightarrow> 'w iss_insn \<Rightarrow> 'w \<Rightarrow> 'w \<Rightarrow> ('w, 'p) lsu \<Rightarrow> ('w, 'p) lsu \<times> 'w"

definition linsn_of :: "'x::len word iss_insn \<Rightarrow> 'x word \<Rightarrow> 'x word \<Rightarrow> 'x word linsn" where
  "linsn_of insn opcode pc = \<lparr>li_addr = pc, li_opcode = opcode, li_out_mask = sb_out_reg_mask insn\<rparr>"

definition mem_addr :: "'x::len word iss_insn \<Rightarrow> ('x word, 'p) lsu \<Rightarrow> 'x word" where
  "mem_addr insn s = get_reg (in_regs insn 0) (ls_rf s) + sim insn 0"

definition after_lsu :: "'x::len word iss_insn \<Rightarrow> 'x word \<Rightarrow> ('x word, 'p) lsu \<times> bool \<Rightarrow> ('x word, 'p) lsu \<times> 'x word" where
  "after_lsu insn pc r = (case r of (s, stalled) \<Rightarrow> (s, if stalled then pc else iss_insn_next insn pc))"

definition access_reg :: "('x::len word, 'p) menv \<Rightarrow> 'x word iss_insn \<Rightarrow> ('x word, 'p) lsu \<Rightarrow> ('x word, 'p) lsu" where
  "access_reg env insn s = (if lv_memcheck (me_lsu env) then on_lrf (memcheck_access_reg (in_regs insn 0)) s else s)"

section \<open>RV32I\<close>

definition lb_exec_fast :: "('x::len word, 'p) mhandler" where
  "lb_exec_fast env insn opcode pc s =
     after_lsu insn pc (lsu_load_signed (me_lsu env) (me_tr env) (linsn_of insn opcode pc) (mem_addr insn s) 1 (out_regs insn 0) s)"

definition lb_exec :: "('x::len word, 'p) mhandler" where
  "lb_exec env insn opcode pc s =
     (let s1 = access_reg env insn s
      in after_lsu insn pc (lsu_load_signed_perf (me_wp env) (me_lsu env) (me_tr env) (linsn_of insn opcode pc) (mem_addr insn s1) 1 (out_regs insn 0) s1))"

definition lh_exec_fast :: "('x::len word, 'p) mhandler" where
  "lh_exec_fast env insn opcode pc s =
     after_lsu insn pc (lsu_load_signed (me_lsu env) (me_tr env) (linsn_of insn opcode pc) (mem_addr insn s) 2 (out_regs insn 0) s)"

definition lh_exec :: "('x::len word, 'p) mhandler" where
  "lh_exec env insn opcode pc s =
     (let s1 = access_reg env insn s
      in after_lsu insn pc (lsu_load_signed_perf (me_wp env) (me_lsu env) (me_tr env) (linsn_of insn opcode pc) (mem_addr insn s1) 2 (out_regs insn 0) s1))"

definition lw_exec_fast :: "('x::len word, 'p) mhandler" where
  "lw_exec_fast env insn opcode pc s =
     after_lsu insn pc (lsu_load_signed (me_lsu env) (me_tr env) (linsn_of insn opcode pc) (mem_addr insn s) 4 (out_regs insn 0) s)"

definition lw_exec :: "('x::len word, 'p) mhandler" where
  "lw_exec env insn opcode pc s =
     (let s1 = access_reg env insn s
      in after_lsu insn pc (lsu_load_signed_perf (me_wp env) (me_lsu env) (me_tr env) (linsn_of insn opcode pc) (mem_addr insn s1) 4 (out_regs insn 0) s1))"

definition lbu_exec_fast :: "('x::len word, 'p) mhandler" where
  "lbu_exec_fast env insn opcode pc s =
     after_lsu insn pc (lsu_load (me_lsu env) (me_tr env) (linsn_of insn opcode pc) (mem_addr insn s) 1 (out_regs insn 0) s)"

definition lbu_exec :: "('x::len word, 'p) mhandler" where
  "lbu_exec env insn opcode pc s =
     (let s1 = access_reg env insn s
      in after_lsu insn pc (lsu_load_perf (me_wp env) (me_lsu env) (me_tr env) (linsn_of insn opcode pc) (mem_addr insn s1) 1 (out_regs insn 0) s1))"

definition lhu_exec_fast :: "('x::len word, 'p) mhandler" where
  "lhu_exec_fast env insn opcode pc s =
     after_lsu insn pc (lsu_load (me_lsu env) (me_tr env) (linsn_of insn opcode pc) (mem_addr insn s) 2 (out_regs insn 0) s)"

definition lhu_exec :: "('x::len word, 'p) mhandler" where
  "lhu_exec env insn opcode pc s =
     (let s1 = access_reg env insn s
      in after_lsu insn pc (lsu_load_perf (me_wp env) (me_lsu env) (me_tr env) (linsn_of insn opcode pc) (mem_addr insn s1) 2 (out_regs insn 0) s1))"

definition sb_exec_fast :: "('x::len word, 'p) mhandler" where
  "sb_exec_fast env insn opcode pc s =
     after_lsu insn pc (lsu_store (me_lsu env) (me_tr env) (linsn_of insn opcode pc) (mem_addr insn s) 1 (in_regs insn 1) s)"

definition sb_exec :: "('x::len word, 'p) mhandler" where
  "sb_exec env insn opcode pc s =
     (let s1 = access_reg env insn s
      in after_lsu insn pc (lsu_store_perf (me_wp env) (me_lsu env) (me_tr env) (linsn_of insn opcode pc) (mem_addr insn s1) 1 (in_regs insn 1) s1))"

definition sh_exec_fast :: "('x::len word, 'p) mhandler" where
  "sh_exec_fast env insn opcode pc s =
     after_lsu insn pc (lsu_store (me_lsu env) (me_tr env) (linsn_of insn opcode pc) (mem_addr insn s) 2 (in_regs insn 1) s)"

definition sh_exec :: "('x::len word, 'p) mhandler" where
  "sh_exec env insn opcode pc s =
     (let s1 = access_reg env insn s
      in after_lsu insn pc (lsu_store_perf (me_wp env) (me_lsu env) (me_tr env) (linsn_of insn opcode pc) (mem_addr insn s1) 2 (in_regs insn 1) s1))"

definition sw_exec_fast :: "('x::len word, 'p) mhandler" where
  "sw_exec_fast env insn opcode pc s =
     after_lsu insn pc (lsu_store (me_lsu env) (me_tr env) (linsn_of insn opcode pc) (mem_addr insn s) 4 (in_regs insn 1) s)"

definition sw_exec :: "('x::len word, 'p) mhandler" where
  "sw_exec env insn opcode pc s =
     (let s1 = access_reg env insn s
      in after_lsu insn pc (lsu_store_perf (me_wp env) (me_lsu env) (me_tr env) (linsn_of insn opcode pc) (mem_addr insn s1) 4 (in_regs insn 1) s1))"

text \<open>A fence waits until no access is in flight.\<close>

definition fence_exec :: "('x::len word, 'p) mhandler" where
  "fence_exec env insn opcode pc s = after_lsu insn pc (lsu_fence s)"

text \<open>\<open>bound\<close> tells whether the wire to an external instruction cache is connected.\<close>

definition fence_i_exec :: "bool \<Rightarrow> ('x::len word, 'p) mhandler" where
  "fence_i_exec bound env insn opcode pc s = (on_x (icache_flush bound) s, iss_insn_next insn pc)"

section \<open>RV64I\<close>

definition lwu_exec_fast :: "('x::len word, 'p) mhandler" where
  "lwu_exec_fast env insn opcode pc s =
     after_lsu insn pc (lsu_load (me_lsu env) (me_tr env) (linsn_of insn opcode pc) (mem_addr insn s) 4 (out_regs insn 0) s)"

definition lwu_exec :: "('x::len word, 'p) mhandler" where
  "lwu_exec env insn opcode pc s =
     after_lsu insn pc (lsu_load_perf (me_wp env) (me_lsu env) (me_tr env) (linsn_of insn opcode pc) (mem_addr insn s) 4 (out_regs insn 0) s)"

definition ld_exec_fast :: "('x::len word, 'p) mhandler" where
  "ld_exec_fast env insn opcode pc s =
     after_lsu insn pc (lsu_load_signed (me_lsu env) (me_tr env) (linsn_of insn opcode pc) (mem_addr insn s) 8 (out_regs insn 0) s)"

definition ld_exec :: "('x::len word, 'p) mhandler" where
  "ld_exec env insn opcode pc s =
     after_lsu insn pc (lsu_load_signed_perf (me_wp env) (me_lsu env) (me_tr env) (linsn_of insn opcode pc) (mem_addr insn s) 8 (out_regs insn 0) s)"

definition sd_exec_fast :: "('x::len word, 'p) mhandler" where
  "sd_exec_fast env insn opcode pc s =
     after_lsu insn pc (lsu_store (me_lsu env) (me_tr env) (linsn_of insn opcode pc) (mem_addr insn s) 8 (in_regs insn 1) s)"

definition sd_exec :: "('x::len word, 'p) mhandler" where
  "sd_exec env insn opcode pc s =
     after_lsu insn pc (lsu_store_perf (me_wp env) (me_lsu env) (me_tr env) (linsn_of insn opcode pc) (mem_addr insn s) 8 (in_regs insn 1) s)"

section \<open>Compressed instructions\<close>

text \<open>The compressed forms account their size and are otherwise the full ones.\<close>

definition rvc_account :: "('w, 'p) lsu \<Rightarrow> ('w, 'p) lsu" where
  "rvc_account s = l_act (L_Rvc 1) s"

definition c_lw_exec_fast :: "('x::len word, 'p) mhandler" where
  "c_lw_exec_fast env insn opcode pc s =
     lw_exec_fast env insn opcode pc s"

definition c_lw_exec :: "('x::len word, 'p) mhandler" where
  "c_lw_exec env insn opcode pc s =
     lw_exec env insn opcode pc (rvc_account s)"

definition c_sw_exec_fast :: "('x::len word, 'p) mhandler" where
  "c_sw_exec_fast env insn opcode pc s =
     sw_exec_fast env insn opcode pc s"

definition c_sw_exec :: "('x::len word, 'p) mhandler" where
  "c_sw_exec env insn opcode pc s =
     sw_exec env insn opcode pc (rvc_account s)"

definition c_swsp_exec_fast :: "('x::len word, 'p) mhandler" where
  "c_swsp_exec_fast env insn opcode pc s =
     sw_exec_fast env insn opcode pc s"

definition c_swsp_exec :: "('x::len word, 'p) mhandler" where
  "c_swsp_exec env insn opcode pc s =
     sw_exec env insn opcode pc (rvc_account s)"

definition c_lwsp_exec_fast :: "('x::len word, 'p) mhandler" where
  "c_lwsp_exec_fast env insn opcode pc s =
     lw_exec_fast env insn opcode pc s"

definition c_lwsp_exec :: "('x::len word, 'p) mhandler" where
  "c_lwsp_exec env insn opcode pc s =
     lw_exec env insn opcode pc (rvc_account s)"

definition c_ld_exec_fast :: "('x::len word, 'p) mhandler" where
  "c_ld_exec_fast env insn opcode pc s =
     ld_exec_fast env insn opcode pc s"

definition c_ld_exec :: "('x::len word, 'p) mhandler" where
  "c_ld_exec env insn opcode pc s =
     ld_exec env insn opcode pc (rvc_account s)"

definition c_sd_exec_fast :: "('x::len word, 'p) mhandler" where
  "c_sd_exec_fast env insn opcode pc s =
     sd_exec_fast env insn opcode pc s"

definition c_sd_exec :: "('x::len word, 'p) mhandler" where
  "c_sd_exec env insn opcode pc s =
     sd_exec env insn opcode pc (rvc_account s)"

definition c_ldsp_exec_fast :: "('x::len word, 'p) mhandler" where
  "c_ldsp_exec_fast env insn opcode pc s =
     ld_exec_fast env insn opcode pc s"

definition c_ldsp_exec :: "('x::len word, 'p) mhandler" where
  "c_ldsp_exec env insn opcode pc s =
     ld_exec env insn opcode pc (rvc_account s)"

definition c_sdsp_exec_fast :: "('x::len word, 'p) mhandler" where
  "c_sdsp_exec_fast env insn opcode pc s =
     sd_exec_fast env insn opcode pc s"

definition c_sdsp_exec :: "('x::len word, 'p) mhandler" where
  "c_sdsp_exec env insn opcode pc s =
     sd_exec env insn opcode pc (rvc_account s)"

section \<open>Atomics\<close>

definition lr_w_exec :: "('x::len word, 'p) mhandler" where
  "lr_w_exec env insn opcode pc s =
     (let s1 = access_reg env insn s
      in after_lsu insn pc (lsu_atomic (me_lsu env) (me_tr env) (linsn_of insn opcode pc)
           (get_reg (in_regs insn 0) (ls_rf s1)) 4 0 (out_regs insn 0) OP_LR s1))"

definition sc_w_exec :: "('x::len word, 'p) mhandler" where
  "sc_w_exec env insn opcode pc s =
     (let s1 = access_reg env insn s
      in after_lsu insn pc (lsu_atomic (me_lsu env) (me_tr env) (linsn_of insn opcode pc)
           (get_reg (in_regs insn 0) (ls_rf s1)) 4 (in_regs insn 1) (out_regs insn 0) OP_SC s1))"

definition amoswap_w_exec :: "('x::len word, 'p) mhandler" where
  "amoswap_w_exec env insn opcode pc s =
     (let s1 = access_reg env insn s
      in after_lsu insn pc (lsu_atomic (me_lsu env) (me_tr env) (linsn_of insn opcode pc)
           (get_reg (in_regs insn 0) (ls_rf s1)) 4 (in_regs insn 1) (out_regs insn 0) OP_SWAP s1))"

definition amoadd_w_exec :: "('x::len word, 'p) mhandler" where
  "amoadd_w_exec env insn opcode pc s =
     (let s1 = access_reg env insn s
      in after_lsu insn pc (lsu_atomic (me_lsu env) (me_tr env) (linsn_of insn opcode pc)
           (get_reg (in_regs insn 0) (ls_rf s1)) 4 (in_regs insn 1) (out_regs insn 0) OP_ADD s1))"

definition amoxor_w_exec :: "('x::len word, 'p) mhandler" where
  "amoxor_w_exec env insn opcode pc s =
     (let s1 = access_reg env insn s
      in after_lsu insn pc (lsu_atomic (me_lsu env) (me_tr env) (linsn_of insn opcode pc)
           (get_reg (in_regs insn 0) (ls_rf s1)) 4 (in_regs insn 1) (out_regs insn 0) OP_XOR s1))"

definition amoand_w_exec :: "('x::len word, 'p) mhandler" where
  "amoand_w_exec env insn opcode pc s =
     (let s1 = access_reg env insn s
      in after_lsu insn pc (lsu_atomic (me_lsu env) (me_tr env) (linsn_of insn opcode pc)
           (get_reg (in_regs insn 0) (ls_rf s1)) 4 (in_regs insn 1) (out_regs insn 0) OP_AND s1))"

definition amoor_w_exec :: "('x::len word, 'p) mhandler" where
  "amoor_w_exec env insn opcode pc s =
     (let s1 = access_reg env insn s
      in after_lsu insn pc (lsu_atomic (me_lsu env) (me_tr env) (linsn_of insn opcode pc)
           (get_reg (in_regs insn 0) (ls_rf s1)) 4 (in_regs insn 1) (out_regs insn 0) OP_OR s1))"

definition amomin_w_exec :: "('x::len word, 'p) mhandler" where
  "amomin_w_exec env insn opcode pc s =
     (let s1 = access_reg env insn s
      in after_lsu insn pc (lsu_atomic (me_lsu env) (me_tr env) (linsn_of insn opcode pc)
           (get_reg (in_regs insn 0) (ls_rf s1)) 4 (in_regs insn 1) (out_regs insn 0) OP_MIN s1))"

definition amomax_w_exec :: "('x::len word, 'p) mhandler" where
  "amomax_w_exec env insn opcode pc s =
     (let s1 = access_reg env insn s
      in after_lsu insn pc (lsu_atomic (me_lsu env) (me_tr env) (linsn_of insn opcode pc)
           (get_reg (in_regs insn 0) (ls_rf s1)) 4 (in_regs insn 1) (out_regs insn 0) OP_MAX s1))"

definition amominu_w_exec :: "('x::len word, 'p) mhandler" where
  "amominu_w_exec env insn opcode pc s =
     (let s1 = access_reg env insn s
      in after_lsu insn pc (lsu_atomic (me_lsu env) (me_tr env) (linsn_of insn opcode pc)
           (get_reg (in_regs insn 0) (ls_rf s1)) 4 (in_regs insn 1) (out_regs insn 0) OP_MINU s1))"

definition amomaxu_w_exec :: "('x::len word, 'p) mhandler" where
  "amomaxu_w_exec env insn opcode pc s =
     (let s1 = access_reg env insn s
      in after_lsu insn pc (lsu_atomic (me_lsu env) (me_tr env) (linsn_of insn opcode pc)
           (get_reg (in_regs insn 0) (ls_rf s1)) 4 (in_regs insn 1) (out_regs insn 0) OP_MAXU s1))"

definition lr_d_exec :: "('x::len word, 'p) mhandler" where
  "lr_d_exec env insn opcode pc s =
     after_lsu insn pc (lsu_atomic (me_lsu env) (me_tr env) (linsn_of insn opcode pc)
           (get_reg (in_regs insn 0) (ls_rf s)) 8 0 (out_regs insn 0) OP_LR s)"

definition sc_d_exec :: "('x::len word, 'p) mhandler" where
  "sc_d_exec env insn opcode pc s =
     after_lsu insn pc (lsu_atomic (me_lsu env) (me_tr env) (linsn_of insn opcode pc)
           (get_reg (in_regs insn 0) (ls_rf s)) 8 (in_regs insn 1) (out_regs insn 0) OP_SC s)"

definition amoswap_d_exec :: "('x::len word, 'p) mhandler" where
  "amoswap_d_exec env insn opcode pc s =
     after_lsu insn pc (lsu_atomic (me_lsu env) (me_tr env) (linsn_of insn opcode pc)
           (get_reg (in_regs insn 0) (ls_rf s)) 8 (in_regs insn 1) (out_regs insn 0) OP_SWAP s)"

definition amoadd_d_exec :: "('x::len word, 'p) mhandler" where
  "amoadd_d_exec env insn opcode pc s =
     after_lsu insn pc (lsu_atomic (me_lsu env) (me_tr env) (linsn_of insn opcode pc)
           (get_reg (in_regs insn 0) (ls_rf s)) 8 (in_regs insn 1) (out_regs insn 0) OP_ADD s)"

definition amoxor_d_exec :: "('x::len word, 'p) mhandler" where
  "amoxor_d_exec env insn opcode pc s =
     after_lsu insn pc (lsu_atomic (me_lsu env) (me_tr env) (linsn_of insn opcode pc)
           (get_reg (in_regs insn 0) (ls_rf s)) 8 (in_regs insn 1) (out_regs insn 0) OP_XOR s)"

definition amoand_d_exec :: "('x::len word, 'p) mhandler" where
  "amoand_d_exec env insn opcode pc s =
     after_lsu insn pc (lsu_atomic (me_lsu env) (me_tr env) (linsn_of insn opcode pc)
           (get_reg (in_regs insn 0) (ls_rf s)) 8 (in_regs insn 1) (out_regs insn 0) OP_AND s)"

definition amoor_d_exec :: "('x::len word, 'p) mhandler" where
  "amoor_d_exec env insn opcode pc s =
     after_lsu insn pc (lsu_atomic (me_lsu env) (me_tr env) (linsn_of insn opcode pc)
           (get_reg (in_regs insn 0) (ls_rf s)) 8 (in_regs insn 1) (out_regs insn 0) OP_OR s)"

definition amomin_d_exec :: "('x::len word, 'p) mhandler" where
  "amomin_d_exec env insn opcode pc s =
     after_lsu insn pc (lsu_atomic (me_lsu env) (me_tr env) (linsn_of insn opcode pc)
           (get_reg (in_regs insn 0) (ls_rf s)) 8 (in_regs insn 1) (out_regs insn 0) OP_MIN s)"

definition amomax_d_exec :: "('x::len word, 'p) mhandler" where
  "amomax_d_exec env insn opcode pc s =
     after_lsu insn pc (lsu_atomic (me_lsu env) (me_tr env) (linsn_of insn opcode pc)
           (get_reg (in_regs insn 0) (ls_rf s)) 8 (in_regs insn 1) (out_regs insn 0) OP_MAX s)"

definition amominu_d_exec :: "('x::len word, 'p) mhandler" where
  "amominu_d_exec env insn opcode pc s =
     after_lsu insn pc (lsu_atomic (me_lsu env) (me_tr env) (linsn_of insn opcode pc)
           (get_reg (in_regs insn 0) (ls_rf s)) 8 (in_regs insn 1) (out_regs insn 0) OP_MINU s)"

definition amomaxu_d_exec :: "('x::len word, 'p) mhandler" where
  "amomaxu_d_exec env insn opcode pc s =
     after_lsu insn pc (lsu_atomic (me_lsu env) (me_tr env) (linsn_of insn opcode pc)
           (get_reg (in_regs insn 0) (ls_rf s)) 8 (in_regs insn 1) (out_regs insn 0) OP_MAXU s)"

end
