(* ===== verification/Lsu_V2_Props.thy ===== *)
theory Lsu_V2_Props
  imports Lsu_V2
begin

text \<open>
  The load-store unit in front of a byte-addressed target with a latency: the locale \<open>byte_port\<close> is what the
  unit relies on, and under it every load writes to its register the extended value of the
  bytes it names, and every store writes the bytes of its register, also when the access straddles the data port.
\<close>

section \<open>Bytes and words\<close>

lemma bit_from_le_u64: "bit (from_le bs :: u64) k \<longleftrightarrow> k < 64 \<and> k div 8 < length bs \<and> bit (bs ! (k div 8)) (k mod 8)"
  by (simp add: bit_from_le)

lemma mask_shift: "(push_bit n 1 - 1 :: u64) = mask n"
  by (simp add: mask_eq_exp_minus_1 push_bit_eq_mult)

text \<open>A read replaces the low bytes of the data buffer.\<close>

definition put_low :: "nat \<Rightarrow> u64 \<Rightarrow> u64 \<Rightarrow> u64" where
  "put_low n new old = (old AND NOT (mask (8 * n))) OR new"

lemma bit_put_low:
  assumes "length bs = n"
  shows "bit (put_low n (from_le bs) old) k \<longleftrightarrow> k < 64 \<and> (if k < 8 * n then bit (from_le bs :: u64) k else bit old k)"
proof -
  have "k div 8 < n \<longleftrightarrow> k < 8 * n" by (simp add: div_less_iff_less_mult mult.commute)
  then show ?thesis using assms
    by (auto simp: put_low_def bit_or_iff bit_and_iff bit_not_iff_eq bit_mask_iff bit_from_le_u64 dest: bit_imp_le_length)
qed

lemma put_low_zero: "length bs = n \<Longrightarrow> put_low n (from_le bs) 0 = from_le bs"
  by (simp add: put_low_def)

lemma merge_beats_bytes:
  assumes "length xs = m" "length ys = n"
  shows "merge_beats m n (put_low n (from_le ys) old) (put_low m (from_le xs) old' AND (push_bit (m * 8) 1 - 1)) = from_le (xs @ ys)"
proof (rule bit_word_eqI)
  fix k assume k: "k < LENGTH(64)"
  show "bit (merge_beats m n (put_low n (from_le ys) old) (put_low m (from_le xs) old' AND (push_bit (m * 8) 1 - 1))) k
      = bit (from_le (xs @ ys) :: u64) k"
  proof (cases "k < 8 * m")
    case True
    then have "k div 8 < m" by (simp add: div_less_iff_less_mult mult.commute)
    then show ?thesis using True assms k unfolding merge_beats_def mask_shift
      by (auto simp: bit_or_iff bit_and_iff bit_push_bit_iff bit_mask_iff bit_put_low bit_from_le_u64 nth_append mult.commute)
  next
    case False
    then obtain j where j: "k = 8 * m + j" by (metis le_add_diff_inverse not_le)
    have d: "k div 8 = m + j div 8" "k mod 8 = j mod 8" by (simp_all add: j)
    have "bit (merge_beats m n (put_low n (from_le ys) old) (put_low m (from_le xs) old' AND (push_bit (m * 8) 1 - 1))) k
        \<longleftrightarrow> j < 8 * n \<and> bit (put_low n (from_le ys) old) j"
      using k j unfolding merge_beats_def mask_shift
      by (auto simp: bit_or_iff bit_and_iff bit_push_bit_iff bit_mask_iff mult.commute)
    also have "\<dots> \<longleftrightarrow> j < 8 * n \<and> bit (from_le ys :: u64) j" using assms(2) k j by (auto simp: bit_put_low)
    also have "\<dots> \<longleftrightarrow> bit (from_le (xs @ ys) :: u64) k"
      using assms k j d by (auto simp: bit_from_le_u64 nth_append div_less_iff_less_mult mult.commute)
    finally show ?thesis .
  qed
qed

section \<open>Steps of an access\<close>

text \<open>The request that an access sends, and the entry once the answer is deferred to a task.\<close>

definition sent_req :: "('x::len word, 'p) lsu_env \<Rightarrow> 'x word \<Rightarrow> nat \<Rightarrow> io_opcode \<Rightarrow> nat \<Rightarrow> nat \<Rightarrow> ('x word, 'p) lsu \<Rightarrow> 'x word lreq" where
  "sent_req env addr sz opc reg e s =
     (lv_prepare env ((le_req (ls_entry s e))\<lparr>lr_data := if opc = OP_READ then 0 else ucast (get_reg reg (ls_rf s))\<rparr>))
       \<lparr>lr_addr := addr, lr_size := sz, lr_opcode := opc, lr_status := IO_RESP_OK\<rparr>"

lemmas lsu_defs = upd_entry_def upd_req_def on_x_def on_lrf_def l_act_def hold_entry_def free_req_entry_def

definition deferred :: "('x::len word, 'p) lsu_env \<Rightarrow> ('x word, 'p) lsu \<Rightarrow> nat \<Rightarrow> bool \<Rightarrow> nat \<Rightarrow> 'p \<Rightarrow> 'x word lreq \<Rightarrow> ('x word, 'p) lsu \<Rightarrow> bool" where
  "deferred env s e signd reg p' r' s1 \<longleftrightarrow>
     ls_free s1 = tl (ls_free s) \<and> ls_nb_pending s1 = ls_nb_pending s + 1 \<and> ls_rf s1 = ls_rf s \<and> ls_port s1 = p' \<and>
     ls_io_req_denied s1 = ls_io_req_denied s \<and> T_Unit e \<in> set (xc_tasks (ls_x s1)) \<and>
     le_req (ls_entry s1 e) = r' \<and> le_is_signed (ls_entry s1 e) = signd \<and> le_reg (ls_entry s1 e) = reg \<and>
     le_timestamp (ls_entry s1 e) = lv_cycles env + lr_latency r' \<and> le_msize (ls_entry s1 e) = le_msize (ls_entry s e) \<and>
     le_moffset (ls_entry s1 e) = le_moffset (ls_entry s e)"

lemma data_req_aligned_deferred:
  assumes "ls_free s = e # es" "\<not> lv_memcheck env"
    "lv_req env (ls_port s) (sent_req env addr sz opc reg e s) = (p', r', IO_REQ_DONE)" "0 < lr_latency r'"
  shows "\<exists>s1. data_req_aligned env insn addr sz opc signd reg reg2 s = (s1, False) \<and> deferred env s e signd reg p' r' s1"
proof -
  let ?s1 = "s\<lparr>ls_granted_entry := None, ls_nb_pending := ls_nb_pending s + 1, ls_free := es\<rparr>"
  let ?f = "fill_entry env insn addr sz opc signd reg reg2 e ?s1"
  have f: "le_req (ls_entry ?f e) = sent_req env addr sz opc reg e s" "ls_port ?f = ls_port s"
    using assms(2) by (auto simp: fill_entry_def sent_req_def lsu_defs Let_def)
  have sr: "send_req env e ?f = (upd_req e (\<lambda>_. r') (?f\<lparr>ls_port := p'\<rparr>), IO_REQ_DONE)"
    unfolding send_req_def f assms(3) by simp
  let ?s2 = "upd_req e (\<lambda>_. r') (?f\<lparr>ls_port := p'\<rparr>)"
  let ?s3 = "on_x (enqueue_task (T_Unit e)) (upd_entry e (\<lambda>en. en\<lparr>le_timestamp := lv_cycles env + lr_latency (le_req en)\<rparr>) ?s2)"
  have h: "handle_req_response env e ?s2 = (?s3, True)"
    using assms(4) by (simp add: handle_req_response_def response_step_def upd_req_def upd_entry_def Let_def)
  have r: "data_req_aligned env insn addr sz opc signd reg reg2 s = (hold_entry insn e ?s3, False)"
    unfolding data_req_aligned_def Let_def using assms(1) sr h by (simp add: get_req_entry_def)
  have "deferred env s e signd reg p' r' (hold_entry insn e ?s3)"
    using assms(1,2) by (auto simp: deferred_def fill_entry_def lsu_defs Let_def insn_hold_def append_entry_def get_entry_def
        enqueue_task_def split: prod.splits list.splits)
  then show ?thesis using r by blast
qed

text \<open>The task of an entry without a further beat ends the access.\<close>

lemma task_retires:
  assumes "le_timestamp (ls_entry s e) \<le> lv_cycles env" "le_msize (ls_entry s e) = 0"
    "lr_status (le_req (ls_entry s e)) = IO_RESP_OK" "\<not> lv_memcheck env"
    "lr_opcode (le_req (ls_entry s e)) = OP_READ \<or> lr_opcode (le_req (ls_entry s e)) = OP_WRITE"
  shows "ls_free (lsu_task_handle env e s) = e # ls_free s" "ls_nb_pending (lsu_task_handle env e s) = ls_nb_pending s - 1"
    "ls_port (lsu_task_handle env e s) = ls_port s" "le_msize (ls_entry (lsu_task_handle env e s) e) = 0"
    "le_moffset (ls_entry (lsu_task_handle env e s) e) = 0" "ls_io_req_denied (lsu_task_handle env e s) = ls_io_req_denied s"
    "e' \<noteq> e \<Longrightarrow> ls_entry (lsu_task_handle env e s) e' = ls_entry s e'"
  using assms by (auto simp: lsu_task_handle_def retire_entry_def handle_req_end_def lsu_defs Let_def)

lemma task_retires_read:
  assumes "le_timestamp (ls_entry s e) \<le> lv_cycles env" "le_msize (ls_entry s e) = 0"
    "lr_status (le_req (ls_entry s e)) = IO_RESP_OK" "\<not> lv_memcheck env" "lr_opcode (le_req (ls_entry s e)) = OP_READ"
    "en = ls_entry s e" "r = le_req en"
    "(data, n) = (if le_moffset en \<noteq> 0 then (merge_beats (le_moffset en) (lr_size r) (lr_data r) (lr_data2 r), lr_size r + le_moffset en)
                  else (lr_data r, lr_size r))"
  shows "ls_rf (lsu_task_handle env e s) =
    set_reg (le_reg en) (if le_is_signed en then iss_get_signed_value (ucast data) (n * 8) else ucast data) (ls_rf s)"
  using assms by (auto simp: lsu_task_handle_def retire_entry_def handle_req_end_def lsu_defs Let_def split: if_splits)

lemma task_retires_write:
  assumes "le_timestamp (ls_entry s e) \<le> lv_cycles env" "le_msize (ls_entry s e) = 0"
    "lr_status (le_req (ls_entry s e)) = IO_RESP_OK" "lr_opcode (le_req (ls_entry s e)) = OP_WRITE"
  shows "ls_rf (lsu_task_handle env e s) = ls_rf s"
  using assms by (auto simp: lsu_task_handle_def retire_entry_def handle_req_end_def lsu_defs Let_def)

text \<open>The task of the first beat sends the second one.\<close>

definition second_req :: "('x::len word, 'p) lsu_env \<Rightarrow> 'x word lsu_entry \<Rightarrow> 'x word lreq" where
  "second_req env en =
     (let r = le_req en
      in (lv_prepare env (if lr_opcode r = OP_WRITE then r\<lparr>lr_data := drop_bit (le_moffset en * 8) (lr_data2 r)\<rparr>
                          else r\<lparr>lr_data2 := lr_data r AND (push_bit (le_moffset en * 8) 1 - 1)\<rparr>))
         \<lparr>lr_addr := le_maddr en, lr_size := le_msize en, lr_status := IO_RESP_OK\<rparr>)"

lemma task_second_beat:
  assumes "le_timestamp (ls_entry s e) \<le> lv_cycles env" "le_msize (ls_entry s e) \<noteq> 0"
    "lv_req env (ls_port s) (second_req env (ls_entry s e)) = (p', r', IO_REQ_DONE)" "0 < lr_latency r'"
  shows "ls_free (lsu_task_handle env e s) = ls_free s" "ls_nb_pending (lsu_task_handle env e s) = ls_nb_pending s"
    "ls_rf (lsu_task_handle env e s) = ls_rf s" "ls_port (lsu_task_handle env e s) = p'"
    "ls_io_req_denied (lsu_task_handle env e s) = ls_io_req_denied s" "T_Unit e \<in> set (xc_tasks (ls_x (lsu_task_handle env e s)))"
    "ls_entry (lsu_task_handle env e s) e = (ls_entry s e)\<lparr>le_req := r', le_msize := 0, le_timestamp := lv_cycles env + lr_latency r'\<rparr>"
proof -
  have r: "lsu_task_handle env e s = fst (fire_misaligned_second env e s)" using assms(1,2) by (simp add: lsu_task_handle_def Let_def)
  show "ls_free (lsu_task_handle env e s) = ls_free s" "ls_nb_pending (lsu_task_handle env e s) = ls_nb_pending s"
    "ls_rf (lsu_task_handle env e s) = ls_rf s" "ls_port (lsu_task_handle env e s) = p'"
    "ls_io_req_denied (lsu_task_handle env e s) = ls_io_req_denied s" "T_Unit e \<in> set (xc_tasks (ls_x (lsu_task_handle env e s)))"
    "ls_entry (lsu_task_handle env e s) e = (ls_entry s e)\<lparr>le_req := r', le_msize := 0, le_timestamp := lv_cycles env + lr_latency r'\<rparr>"
    unfolding r using assms(3,4)
    by (auto simp: fire_misaligned_second_def second_req_def send_req_def response_step_def lsu_defs enqueue_task_def Let_def split: if_splits)
qed

section \<open>The target\<close>

definition bytes_at :: "('x::len word \<Rightarrow> byte) \<Rightarrow> 'x word \<Rightarrow> nat \<Rightarrow> byte list" where
  "bytes_at mem a n = map (\<lambda>i. mem (a + of_nat i)) [0..<n]"

definition write_at :: "'x::len word \<Rightarrow> byte list \<Rightarrow> ('x word \<Rightarrow> byte) \<Rightarrow> 'x word \<Rightarrow> byte" where
  "write_at a bs mem = (\<lambda>b. let i = unat (b - a) in if i < length bs then bs ! i else mem b)"

lemma length_bytes_at [simp]: "length (bytes_at mem a n) = n"
  by (simp add: bytes_at_def)

lemma bytes_at_append: "bytes_at mem a (m + n) = bytes_at mem a m @ bytes_at mem (a + of_nat m) n"
  by (rule nth_equalityI) (auto simp: bytes_at_def nth_append add.assoc of_nat_diff algebra_simps)

lemma merge_split_bytes:
  assumes "m \<le> n"
  shows "merge_beats m (n - m) (put_low (n - m) (from_le (bytes_at mem (a + of_nat m) (n - m))) old)
      (from_le (bytes_at mem a m) AND (push_bit (m * 8) 1 - 1)) = from_le (bytes_at mem a n)"
proof -
  have "merge_beats m (n - m) (put_low (n - m) (from_le (bytes_at mem (a + of_nat m) (n - m))) old)
      (put_low m (from_le (bytes_at mem a m)) 0 AND (push_bit (m * 8) 1 - 1)) =
      from_le (bytes_at mem a m @ bytes_at mem (a + of_nat m) (n - m))"
    by (rule merge_beats_bytes) simp_all
  then show ?thesis using bytes_at_append[of mem a m "n - m"] assms by (simp add: put_low_zero)
qed

lemma to_le_split: "m \<le> n \<Longrightarrow> to_le n (w :: u64) = to_le m w @ to_le (n - m) (drop_bit (m * 8) w)"
  by (rule nth_equalityI) (auto simp: nth_append algebra_simps)

lemma write_at_split:
  assumes "length xs = m" "m + length ys \<le> 2 ^ LENGTH('x)"
  shows "write_at (a + of_nat m) ys (write_at (a :: 'x::len word) xs mem) = write_at a (xs @ ys) mem"
proof
  fix b :: "'x word"
  show "write_at (a + of_nat m) ys (write_at a xs mem) b = write_at a (xs @ ys) mem b"
  proof (cases "m \<le> unat (b - a)")
    case True
    have "m < 2 ^ LENGTH('x)" using True unsigned_less[of "b - a"] by (meson le_less_trans)
    then have u: "unat (of_nat m :: 'x word) = m" by (simp only: unat_of_nat mod_less)
    then have "of_nat m \<le> b - a" using True by (simp add: word_le_nat_alt)
    then have "unat (b - a - of_nat m) = unat (b - a) - m" using unat_sub[of "of_nat m" "b - a"] u by simp
    then have "unat (b - (a + of_nat m)) = unat (b - a) - m" by (simp only: diff_diff_eq)
    then show ?thesis using True assms(1) by (auto simp: write_at_def Let_def nth_append)
  next
    case False
    have "\<not> unat (b - (a + of_nat m)) < length ys"
    proof
      assume l: "unat (b - (a + of_nat m)) < length ys"
      have "m < 2 ^ LENGTH('x)" using assms(2) l by linarith
      then have u: "unat (of_nat m :: 'x word) = m" by (simp only: unat_of_nat mod_less)
      have "b - a = (b - (a + of_nat m)) + of_nat m" by simp
      then have "unat (b - a) = unat (b - (a + of_nat m)) + m"
        using l assms(2) u by (simp only: unat_word_ariths) simp
      then show False using False by simp
    qed
    then show ?thesis using False assms(1) by (simp add: write_at_def Let_def nth_append)
  qed
qed

text \<open>\<open>IoReq::prepare\<close> clears what the target annotated and keeps the rest of the request and its buffers.\<close>

definition prepare_ok :: "('w lreq \<Rightarrow> 'w lreq) \<Rightarrow> bool" where
  "prepare_ok f \<longleftrightarrow> (\<forall>r. lr_latency (f r) = 0 \<and> \<not> lr_mc (f r) \<and> lr_data (f r) = lr_data r \<and> lr_data2 (f r) = lr_data2 r \<and>
     lr_opcode (f r) = lr_opcode r)"

locale byte_port =
  fixes req :: "'p \<Rightarrow> 'x::len word lreq \<Rightarrow> 'p \<times> 'x word lreq \<times> io_req_status"
    and inv :: "'p \<Rightarrow> bool"
    and mem :: "'p \<Rightarrow> 'x word \<Rightarrow> byte"
    and fits :: "'x word \<Rightarrow> nat \<Rightarrow> bool"
    and lat :: int
  assumes lat_pos: "0 < lat"
    and fits_split: "fits a (m + n) \<Longrightarrow> 0 < m \<Longrightarrow> 0 < n \<Longrightarrow> fits a m \<and> fits (a + of_nat m) n"
    and read: "inv p \<Longrightarrow> fits (lr_addr r) (lr_size r) \<Longrightarrow> 0 < lr_size r \<Longrightarrow> lr_size r \<le> 8 \<Longrightarrow> lr_opcode r = OP_READ \<Longrightarrow> \<not> lr_mc r \<Longrightarrow>
      \<exists>p'. req p r = (p', r\<lparr>lr_data := put_low (lr_size r) (from_le (bytes_at (mem p) (lr_addr r) (lr_size r))) (lr_data r),
                            lr_latency := lr_latency r + lat\<rparr>, IO_REQ_DONE) \<and> inv p' \<and> mem p' = mem p"
    and "write": "inv p \<Longrightarrow> fits (lr_addr r) (lr_size r) \<Longrightarrow> 0 < lr_size r \<Longrightarrow> lr_size r \<le> 8 \<Longrightarrow> lr_opcode r = OP_WRITE \<Longrightarrow> \<not> lr_mc r \<Longrightarrow>
      \<exists>p'. req p r = (p', r\<lparr>lr_latency := lr_latency r + lat\<rparr>, IO_REQ_DONE) \<and> inv p' \<and>
        mem p' = write_at (lr_addr r) (to_le (lr_size r) (lr_data r)) (mem p)"


section \<open>Split accesses\<close>

definition straddles :: "nat \<Rightarrow> 'x::len word \<Rightarrow> nat \<Rightarrow> bool" where
  "straddles w addr sz \<longleftrightarrow> addr AND NOT (of_nat (w - 1)) \<noteq> (addr + of_nat sz - 1) AND NOT (of_nat (w - 1))"

definition beat1_addr :: "nat \<Rightarrow> 'x::len word \<Rightarrow> nat \<Rightarrow> 'x word" where
  "beat1_addr w addr sz = (addr + of_nat sz - 1) AND NOT (of_nat (w - 1))"

definition beat0_size :: "nat \<Rightarrow> 'x::len word \<Rightarrow> nat \<Rightarrow> nat" where
  "beat0_size w addr sz = unat (beat1_addr w addr sz - addr)"

lemma unat_align_down: "unat (a AND NOT (of_nat (2 ^ k - 1))) = 2 ^ k * (unat a div 2 ^ k)" if "k < LENGTH('x)" for a :: "'x::len word"
proof -
  have m: "of_nat (2 ^ k - 1) = (mask k :: 'x word)" by (simp add: mask_eq_exp_minus_1 of_nat_diff)
  have "a AND NOT (mask k) = push_bit k (drop_bit k a)"
    by (rule bit_word_eqI) (auto simp: bit_and_iff bit_not_iff_eq bit_mask_iff bit_push_bit_iff bit_drop_bit_eq)
  moreover have "push_bit k (drop_bit k a) = a - take_bit k a" using bits_ident[of k a] by (metis add_diff_cancel_right')
  moreover have "take_bit k a \<le> a" by (simp add: take_bit_eq_mask word_and_le2)
  ultimately have "unat (a AND NOT (mask k)) = unat a - unat (take_bit k a)" by (simp add: unat_sub)
  also have "unat (take_bit k a) = unat a mod 2 ^ k" using take_bit_eq_mod[of k "unat a"] by (simp add: unsigned_take_bit_eq)
  finally show ?thesis unfolding m by (simp add: minus_mod_eq_mult_div)
qed

text \<open>The two beats are not empty and adjacent.\<close>

lemma straddle_sizes:
  assumes "w = 2 ^ k" "k < LENGTH('x)" "straddles w (addr :: 'x::len word) sz" "0 < sz" "unat addr + sz \<le> 2 ^ LENGTH('x)"
  shows "0 < beat0_size w addr sz" "beat0_size w addr sz < sz" "beat1_addr w addr sz = addr + of_nat (beat0_size w addr sz)"
proof -
  let ?last = "addr + of_nat sz - 1"
  have lt: "sz - 1 < 2 ^ LENGTH('x)" using assms(4,5) by linarith
  have u: "unat (of_nat (sz - 1) :: 'x word) = sz - 1" by (simp only: unat_of_nat mod_less[OF lt])
  have e: "?last = addr + of_nat (sz - 1)" using assms(4) by (simp add: of_nat_diff)
  have "unat addr + (sz - 1) < 2 ^ LENGTH('x)" using assms(4,5) by linarith
  then have last: "unat ?last = unat addr + (sz - 1)" unfolding e by (simp only: unat_word_ariths u mod_less)
  have up: "unat (beat1_addr w addr sz) = 2 ^ k * (unat ?last div 2 ^ k)"
    using unat_align_down[OF assms(2)] assms(1) by (simp add: beat1_addr_def)
  have ne: "unat addr div 2 ^ k \<noteq> unat ?last div 2 ^ k"
    using assms(3) unat_align_down[OF assms(2)] unfolding straddles_def assms(1) by (metis word_unat_eq_iff)
  then have "unat addr div 2 ^ k < unat ?last div 2 ^ k" using div_le_mono[of "unat addr" "unat ?last" "2 ^ k"] last by linarith
  then have gt: "unat addr < unat (beat1_addr w addr sz)"
    unfolding up by (metis div_less_iff_less_mult mult.commute zero_less_numeral zero_less_power)
  have le: "unat (beat1_addr w addr sz) \<le> unat ?last" unfolding up by simp
  have b: "beat0_size w addr sz = unat (beat1_addr w addr sz) - unat addr"
    using gt by (simp add: beat0_size_def unat_sub word_le_nat_alt)
  then show "0 < beat0_size w addr sz" "beat0_size w addr sz < sz" using gt le last assms(4) by linarith+
  show "beat1_addr w addr sz = addr + of_nat (beat0_size w addr sz)" by (simp add: beat0_size_def)
qed


section \<open>Whole accesses\<close>

text \<open>The tasks of an access after its issue, each at the cycle the answer of its beat is due.\<close>

definition complete :: "('x::len word, 'p) lsu_env \<Rightarrow> int \<Rightarrow> nat \<Rightarrow> bool \<Rightarrow> ('x word, 'p) lsu \<Rightarrow> ('x word, 'p) lsu" where
  "complete env lat e split s =
     (let s1 = lsu_task_handle (env\<lparr>lv_cycles := lv_cycles env + lat\<rparr>) e s
      in if split then lsu_task_handle (env\<lparr>lv_cycles := lv_cycles env + lat + lat\<rparr>) e s1 else s1)"

text \<open>The unit can take an access: there is an entry, it is clean, and no denial is pending.\<close>

definition can_issue :: "('x::len word, 'p) lsu \<Rightarrow> nat \<Rightarrow> bool" where
  "can_issue s e \<longleftrightarrow> \<not> ls_io_req_denied s \<and> ls_free s \<noteq> [] \<and> hd (ls_free s) = e \<and>
     le_msize (ls_entry s e) = 0 \<and> le_moffset (ls_entry s e) = 0"

definition access_ok :: "('x::len word, 'p) lsu_env \<Rightarrow> 'x word \<Rightarrow> nat \<Rightarrow> bool" where
  "access_ok env addr sz \<longleftrightarrow> \<not> lv_memcheck env \<and> prepare_ok (lv_prepare env) \<and> (\<exists>k < LENGTH('x). lv_width env = 2 ^ k) \<and>
     0 < sz \<and> sz \<le> 8 \<and> unat addr + sz \<le> 2 ^ LENGTH('x)"

text \<open>The registers and the state of the unit after an access.\<close>

definition access_effect :: "('x::len word, 'p) lsu \<Rightarrow> nat \<Rightarrow> 'x word regfile \<Rightarrow> ('x word, 'p) lsu \<Rightarrow> bool" where
  "access_effect s e rf s' \<longleftrightarrow> ls_rf s' = rf \<and> ls_free s' = ls_free s \<and> ls_nb_pending s' = ls_nb_pending s \<and> can_issue s' e"

definition reg_value :: "bool \<Rightarrow> byte list \<Rightarrow> 'x::len word" where
  "reg_value signd bs = (if signd then iss_get_signed_value (ucast (from_le bs :: u64)) (length bs * 8) else ucast (from_le bs :: u64))"

lemma data_req_misaligned_unfold:
  assumes "ls_free s = e # es"
    "data_req_aligned env insn addr (beat0_size (lv_width env) addr sz) opc signd reg reg2
       ((l_act L_Misaligned_Account s)\<lparr>ls_issuing_misaligned := True\<rparr>) = (s1, False)"
    "le_msize (ls_entry s1 e) = 0"
  obtains s2 where "data_req_misaligned env insn addr sz opc signd reg reg2 s = (s2, False)"
    "ls_free s2 = ls_free s1" "ls_nb_pending s2 = ls_nb_pending s1" "ls_rf s2 = ls_rf s1" "ls_port s2 = ls_port s1" "ls_io_req_denied s2 = ls_io_req_denied s1"
    "ls_entry s2 e = (ls_entry s1 e)\<lparr>le_msize := sz - beat0_size (lv_width env) addr sz, le_maddr := beat1_addr (lv_width env) addr sz,
       le_moffset := beat0_size (lv_width env) addr sz,
       le_req := if opc = OP_WRITE then (le_req (ls_entry s1 e))\<lparr>lr_data2 := ucast (get_reg reg (ls_rf s))\<rparr> else le_req (ls_entry s1 e)\<rparr>"
proof -
  let ?s2 = "upd_entry e (\<lambda>en. en\<lparr>le_msize := sz - beat0_size (lv_width env) addr sz, le_maddr := beat1_addr (lv_width env) addr sz,
       le_moffset := beat0_size (lv_width env) addr sz\<rparr>) (s1\<lparr>ls_issuing_misaligned := False\<rparr>)"
  let ?s3 = "if opc = OP_WRITE then upd_req e (\<lambda>r. r\<lparr>lr_data2 := ucast (get_reg reg (ls_rf s))\<rparr>) ?s2 else ?s2"
  have "data_req_misaligned env insn addr sz opc signd reg reg2 s = (?s3, False)"
    unfolding data_req_misaligned_def beat1_addr_def[symmetric] beat0_size_def[symmetric] Let_def
    using assms(1,2) by (simp add: l_act_def)
  then show thesis by (rule that) (auto simp: lsu_defs)
qed

lemma data_req_aligned_or_split:
  assumes "\<not> lv_memcheck env"
  shows "data_req env insn addr sz opc signd reg reg2 s =
    (if straddles (lv_width env) addr sz then data_req_misaligned env insn addr sz opc signd reg reg2 s
     else data_req_aligned env insn addr sz opc signd reg reg2 s)"
  using assms by (simp add: data_req_def straddles_def Let_def)

context byte_port
begin

lemma issue_read:
  assumes "access_ok env addr n" "ls_free s = e # es" "inv (ls_port s)" "fits addr n" "lv_req env = req"
  shows "\<exists>s1 p' r'. data_req_aligned env insn addr n OP_READ signd reg reg2 s = (s1, False) \<and> deferred env s e signd reg p' r' s1 \<and>
    inv p' \<and> mem p' = mem (ls_port s) \<and> lr_data r' = from_le (bytes_at (mem (ls_port s)) addr n) \<and> lr_latency r' = lat \<and>
    lr_opcode r' = OP_READ \<and> lr_size r' = n \<and> lr_status r' = IO_RESP_OK"
proof -
  let ?r = "sent_req env addr n OP_READ reg e s"
  let ?r' = "?r\<lparr>lr_data := from_le (bytes_at (mem (ls_port s)) addr n), lr_latency := lat\<rparr>"
  have p: "prepare_ok (lv_prepare env)" "\<not> lv_memcheck env" "0 < n" "n \<le> 8" using assms(1) by (simp_all add: access_ok_def)
  have r: "lr_addr ?r = addr" "lr_size ?r = n" "lr_opcode ?r = OP_READ" "\<not> lr_mc ?r" "lr_latency ?r = 0" "lr_data ?r = 0" "lr_status ?r = IO_RESP_OK"
    using p(1) by (simp_all add: sent_req_def prepare_ok_def)
  obtain p' where q: "lv_req env (ls_port s) ?r = (p', ?r', IO_REQ_DONE)" "inv p'" "mem p' = mem (ls_port s)"
    using read[of "ls_port s" ?r] assms(3-5) r p by (auto simp: put_low_zero)
  have l: "0 < lr_latency ?r'" using lat_pos by simp
  from data_req_aligned_deferred[OF assms(2) p(2) q(1) l, of insn signd reg2] obtain s1 where
    "data_req_aligned env insn addr n OP_READ signd reg reg2 s = (s1, False)" "deferred env s e signd reg p' ?r' s1" by blast
  moreover have "lr_data ?r' = from_le (bytes_at (mem (ls_port s)) addr n)" "lr_latency ?r' = lat" "lr_opcode ?r' = OP_READ"
      "lr_size ?r' = n" "lr_status ?r' = IO_RESP_OK" using r by simp_all
  ultimately show ?thesis using q(2,3) by blast
qed

lemma issue_write:
  assumes "access_ok env addr n" "ls_free s = e # es" "inv (ls_port s)" "fits addr n" "lv_req env = req"
  shows "\<exists>s1 p' r'. data_req_aligned env insn addr n OP_WRITE signd reg reg2 s = (s1, False) \<and> deferred env s e signd reg p' r' s1 \<and>
    inv p' \<and> mem p' = write_at addr (to_le n (ucast (get_reg reg (ls_rf s)) :: u64)) (mem (ls_port s)) \<and> lr_latency r' = lat \<and>
    lr_opcode r' = OP_WRITE \<and> lr_size r' = n \<and> lr_status r' = IO_RESP_OK"
proof -
  let ?r = "sent_req env addr n OP_WRITE reg e s"
  let ?r' = "?r\<lparr>lr_latency := lat\<rparr>"
  have p: "prepare_ok (lv_prepare env)" "\<not> lv_memcheck env" "0 < n" "n \<le> 8" using assms(1) by (simp_all add: access_ok_def)
  have r: "lr_addr ?r = addr" "lr_size ?r = n" "lr_opcode ?r = OP_WRITE" "\<not> lr_mc ?r" "lr_latency ?r = 0"
      "lr_data ?r = ucast (get_reg reg (ls_rf s))" "lr_status ?r = IO_RESP_OK"
    using p(1) by (simp_all add: sent_req_def prepare_ok_def)
  obtain p' where q: "lv_req env (ls_port s) ?r = (p', ?r', IO_REQ_DONE)" "inv p'"
      "mem p' = write_at addr (to_le n (ucast (get_reg reg (ls_rf s)) :: u64)) (mem (ls_port s))"
    using "write"[of "ls_port s" ?r] assms(3-5) r p by auto
  have l: "0 < lr_latency ?r'" using lat_pos by simp
  from data_req_aligned_deferred[OF assms(2) p(2) q(1) l, of insn signd reg2] obtain s1 where
    "data_req_aligned env insn addr n OP_WRITE signd reg reg2 s = (s1, False)" "deferred env s e signd reg p' ?r' s1" by blast
  moreover have "lr_latency ?r' = lat" "lr_opcode ?r' = OP_WRITE" "lr_size ?r' = n" "lr_status ?r' = IO_RESP_OK" using r by simp_all
  ultimately show ?thesis using q(2,3) by blast
qed

lemma load_one_beat:
  assumes "access_ok env addr sz" "can_issue s e" "inv (ls_port s)" "fits addr sz" "lv_req env = req"
    "\<not> straddles (lv_width env) addr sz"
  shows "\<exists>s1. data_req env insn addr sz OP_READ signd reg reg2 s = (s1, False) \<and>
    access_effect s e (set_reg reg (reg_value signd (bytes_at (mem (ls_port s)) addr sz)) (ls_rf s)) (complete env lat e False s1) \<and>
    inv (ls_port (complete env lat e False s1)) \<and> mem (ls_port (complete env lat e False s1)) = mem (ls_port s)"
proof -
  obtain es where f: "ls_free s = e # es" using assms(2) by (cases "ls_free s") (auto simp: can_issue_def)
  have p: "\<not> lv_memcheck env" using assms(1) by (simp add: access_ok_def)
  obtain s1 p' r' where s1: "data_req_aligned env insn addr sz OP_READ signd reg reg2 s = (s1, False)" "deferred env s e signd reg p' r' s1"
    and r: "inv p'" "mem p' = mem (ls_port s)" "lr_data r' = from_le (bytes_at (mem (ls_port s)) addr sz)" "lr_latency r' = lat"
      "lr_opcode r' = OP_READ" "lr_size r' = sz" "lr_status r' = IO_RESP_OK"
    using issue_read[OF assms(1) f assms(3-5), of insn signd reg reg2] by blast
  let ?env = "env\<lparr>lv_cycles := lv_cycles env + lat\<rparr>"
  have c: "le_msize (ls_entry s e) = 0" "le_moffset (ls_entry s e) = 0" "\<not> ls_io_req_denied s" using assms(2) by (simp_all add: can_issue_def)
  have d: "ls_free s1 = es" "ls_nb_pending s1 = ls_nb_pending s + 1" "ls_rf s1 = ls_rf s" "ls_port s1 = p'" "\<not> ls_io_req_denied s1"
      "le_req (ls_entry s1 e) = r'" "le_is_signed (ls_entry s1 e) = signd" "le_reg (ls_entry s1 e) = reg"
      "le_timestamp (ls_entry s1 e) \<le> lv_cycles ?env" "le_msize (ls_entry s1 e) = 0" "le_moffset (ls_entry s1 e) = 0" "\<not> lv_memcheck ?env"
    using s1(2) c f r(4) p by (simp_all add: deferred_def)
  have m: "lr_status (le_req (ls_entry s1 e)) = IO_RESP_OK" "lr_opcode (le_req (ls_entry s1 e)) = OP_READ" using d(6) r by simp_all
  note t = task_retires(1-6)[OF d(9,10) m(1) d(12) disjI1[OF m(2)]]
  have "ls_rf (lsu_task_handle ?env e s1) = set_reg reg (reg_value signd (bytes_at (mem (ls_port s)) addr sz)) (ls_rf s)"
    using task_retires_read[OF d(9,10) m(1) d(12) m(2) refl refl, of "lr_data r'" sz] d(3,6-8,11) r(3,6)
    by (simp add: reg_value_def)
  then show ?thesis using t s1(1) d(1,2,4,5) r(1,2) f data_req_aligned_or_split[OF p] assms(6)
    by (simp add: complete_def access_effect_def can_issue_def)
qed

lemma access_ok_beats:
  assumes "access_ok env addr sz" "straddles (lv_width env) addr sz" "fits addr sz"
  defines "m \<equiv> beat0_size (lv_width env) addr sz"
  shows "0 < m" "m < sz" "beat1_addr (lv_width env) addr sz = addr + of_nat m" "access_ok env addr m" "fits addr m" "fits (addr + of_nat m) (sz - m)"
proof -
  obtain k where k: "lv_width env = 2 ^ k" "k < LENGTH('x)" using assms(1) by (auto simp: access_ok_def)
  have s: "0 < sz" "unat addr + sz \<le> 2 ^ LENGTH('x)" "sz \<le> 8" using assms(1) by (auto simp: access_ok_def)
  note b = straddle_sizes[OF k assms(2) s(1,2), folded m_def]
  show "0 < m" "m < sz" "beat1_addr (lv_width env) addr sz = addr + of_nat m" by (fact b)+
  show "access_ok env addr m" using assms(1) b s by (auto simp: access_ok_def)
  show "fits addr m" "fits (addr + of_nat m) (sz - m)" using fits_split[of addr m "sz - m"] assms(3) b by auto
qed

text \<open>The state after the first beat of a split access has been issued.\<close>

lemma split_issue:
  assumes "ls_free s = e # es" "le_msize (ls_entry s e) = 0"
    "data_req_aligned env insn addr (beat0_size (lv_width env) addr sz) opc signd reg reg2
       ((l_act L_Misaligned_Account s)\<lparr>ls_issuing_misaligned := True\<rparr>) = (s1, False)"
    "deferred env ((l_act L_Misaligned_Account s)\<lparr>ls_issuing_misaligned := True\<rparr>) e signd reg p' r' s1" "lr_latency r' = lat"
  defines "m \<equiv> beat0_size (lv_width env) addr sz"
  shows "\<exists>s2. data_req_misaligned env insn addr sz opc signd reg reg2 s = (s2, False) \<and> ls_free s2 = es \<and> ls_nb_pending s2 = ls_nb_pending s + 1 \<and>
    ls_rf s2 = ls_rf s \<and> ls_port s2 = p' \<and> ls_io_req_denied s2 = ls_io_req_denied s \<and>
    le_req (ls_entry s2 e) = (if opc = OP_WRITE then r'\<lparr>lr_data2 := ucast (get_reg reg (ls_rf s))\<rparr> else r') \<and>
    le_is_signed (ls_entry s2 e) = signd \<and> le_reg (ls_entry s2 e) = reg \<and> le_timestamp (ls_entry s2 e) = lv_cycles env + lat \<and>
    le_msize (ls_entry s2 e) = sz - m \<and> le_maddr (ls_entry s2 e) = beat1_addr (lv_width env) addr sz \<and> le_moffset (ls_entry s2 e) = m"
proof -
  have d: "le_msize (ls_entry s1 e) = 0" "ls_free s1 = es" "ls_nb_pending s1 = ls_nb_pending s + 1" "ls_rf s1 = ls_rf s" "ls_port s1 = p'"
      "ls_io_req_denied s1 = ls_io_req_denied s" "le_req (ls_entry s1 e) = r'" "le_is_signed (ls_entry s1 e) = signd"
      "le_reg (ls_entry s1 e) = reg" "le_timestamp (ls_entry s1 e) = lv_cycles env + lat"
    using assms(1,2,4,5) by (simp_all add: deferred_def l_act_def)
  show ?thesis
    by (rule data_req_misaligned_unfold[OF assms(1,3) d(1)]) (use d in \<open>simp add: m_def\<close>)
qed

lemma load_two_beats:
  assumes "access_ok env addr sz" "can_issue s e" "inv (ls_port s)" "fits addr sz" "lv_req env = req"
    "straddles (lv_width env) addr sz"
  shows "\<exists>s1. data_req env insn addr sz OP_READ signd reg reg2 s = (s1, False) \<and>
    access_effect s e (set_reg reg (reg_value signd (bytes_at (mem (ls_port s)) addr sz)) (ls_rf s)) (complete env lat e True s1) \<and>
    inv (ls_port (complete env lat e True s1)) \<and> mem (ls_port (complete env lat e True s1)) = mem (ls_port s)"
proof -
  let ?m = "beat0_size (lv_width env) addr sz" and ?n = "sz - beat0_size (lv_width env) addr sz"
  let ?s0 = "(l_act L_Misaligned_Account s)\<lparr>ls_issuing_misaligned := True\<rparr>"
  note b = access_ok_beats[OF assms(1,6,4)]
  have p: "\<not> lv_memcheck env" "prepare_ok (lv_prepare env)" "sz \<le> 8" using assms(1) by (simp_all add: access_ok_def)
  obtain es where f: "ls_free s = e # es" using assms(2) by (cases "ls_free s") (auto simp: can_issue_def)
  have c: "le_msize (ls_entry s e) = 0" "\<not> ls_io_req_denied s" using assms(2) by (simp_all add: can_issue_def)
  have s0: "ls_free ?s0 = e # es" "ls_port ?s0 = ls_port s" using f by (simp_all add: l_act_def)
  obtain s1 p1 r1 where i1: "data_req_aligned env insn addr ?m OP_READ signd reg reg2 ?s0 = (s1, False)" "deferred env ?s0 e signd reg p1 r1 s1"
    and r1: "inv p1" "mem p1 = mem (ls_port s)" "lr_data r1 = from_le (bytes_at (mem (ls_port s)) addr ?m)" "lr_latency r1 = lat" "lr_opcode r1 = OP_READ"
    using issue_read[OF b(4) s0(1) _ b(5) assms(5), of insn signd reg reg2] assms(3) unfolding s0(2) by blast
  obtain s2 where s2: "data_req_misaligned env insn addr sz OP_READ signd reg reg2 s = (s2, False)" "ls_free s2 = es"
      "ls_nb_pending s2 = ls_nb_pending s + 1" "ls_rf s2 = ls_rf s" "ls_port s2 = p1" "\<not> ls_io_req_denied s2" "le_req (ls_entry s2 e) = r1"
      "le_is_signed (ls_entry s2 e) = signd" "le_reg (ls_entry s2 e) = reg" "le_timestamp (ls_entry s2 e) = lv_cycles env + lat"
      "le_msize (ls_entry s2 e) = ?n" "le_maddr (ls_entry s2 e) = addr + of_nat ?m" "le_moffset (ls_entry s2 e) = ?m"
    using split_issue[OF f c(1) i1 r1(4)] c(2) b(3) by auto
  let ?env1 = "env\<lparr>lv_cycles := lv_cycles env + lat\<rparr>" and ?env2 = "env\<lparr>lv_cycles := lv_cycles env + lat + lat\<rparr>"
  let ?q = "second_req ?env1 (ls_entry s2 e)"
  have q: "lr_addr ?q = addr + of_nat ?m" "lr_size ?q = ?n" "lr_opcode ?q = OP_READ" "\<not> lr_mc ?q" "lr_latency ?q = 0"
      "lr_data ?q = lr_data r1" "lr_data2 ?q = lr_data r1 AND (push_bit (?m * 8) 1 - 1)" "lr_status ?q = IO_RESP_OK"
    using p(2) s2(7,11-13) r1(5) by (simp_all add: second_req_def prepare_ok_def Let_def)
  let ?r2 = "?q\<lparr>lr_data := put_low ?n (from_le (bytes_at (mem (ls_port s)) (addr + of_nat ?m) ?n)) (lr_data r1), lr_latency := lat\<rparr>"
  obtain p2 where p2: "lv_req ?env1 (ls_port s2) ?q = (p2, ?r2, IO_REQ_DONE)" "inv p2" "mem p2 = mem (ls_port s)"
    using read[of p1 ?q] q r1(1,2) b le_trans[OF diff_le_self p(3)] s2(5) assms(5) by auto
  have l: "0 < lr_latency ?r2" and ne: "le_msize (ls_entry s2 e) \<noteq> 0" and le: "le_timestamp (ls_entry s2 e) \<le> lv_cycles ?env1"
    using lat_pos b(2) s2(10,11) by simp_all
  define s3 where "s3 = lsu_task_handle ?env1 e s2"
  have s3: "ls_free s3 = es" "ls_nb_pending s3 = ls_nb_pending s + 1" "ls_rf s3 = ls_rf s" "ls_port s3 = p2" "\<not> ls_io_req_denied s3"
      "ls_entry s3 e = (ls_entry s2 e)\<lparr>le_req := ?r2, le_msize := 0, le_timestamp := lv_cycles env + lat + lat\<rparr>"
    unfolding s3_def using task_second_beat[OF le ne p2(1) l] s2(2-6) by simp_all
  have e3: "le_timestamp (ls_entry s3 e) \<le> lv_cycles ?env2" "le_msize (ls_entry s3 e) = 0" "lr_status (le_req (ls_entry s3 e)) = IO_RESP_OK"
      "\<not> lv_memcheck ?env2" "lr_opcode (le_req (ls_entry s3 e)) = OP_READ" using s3(6) q(3,8) p(1) by simp_all
  note t = task_retires(1-6)[OF e3(1-4) disjI1[OF e3(5)]]
  have v: "merge_beats ?m ?n (lr_data ?r2) (lr_data2 ?r2) = from_le (bytes_at (mem (ls_port s)) addr sz)"
    using merge_split_bytes[of ?m sz "mem (ls_port s)" addr "lr_data r1"] q(7) r1(3) b(2) by simp
  let ?en = "ls_entry s3 e"
  have d: "(from_le (bytes_at (mem (ls_port s)) addr sz), sz) = (if le_moffset ?en \<noteq> 0 then
      (merge_beats (le_moffset ?en) (lr_size (le_req ?en)) (lr_data (le_req ?en)) (lr_data2 (le_req ?en)), lr_size (le_req ?en) + le_moffset ?en)
      else (lr_data (le_req ?en), lr_size (le_req ?en)))"
    using v s3(6) s2(13) b(1,2) q(2) by simp
  have "ls_rf (lsu_task_handle ?env2 e s3) = set_reg reg (reg_value signd (bytes_at (mem (ls_port s)) addr sz)) (ls_rf s)"
    using task_retires_read[OF e3 refl refl d] s3(3,6) s2(8,9) by (simp add: reg_value_def)
  then show ?thesis using t s3(1,2,4,5) s2(1) p2(2,3) f data_req_aligned_or_split[OF p(1)] assms(6)
    by (simp add: complete_def access_effect_def can_issue_def s3_def[symmetric])
qed

lemma store_one_beat:
  assumes "access_ok env addr sz" "can_issue s e" "inv (ls_port s)" "fits addr sz" "lv_req env = req"
    "\<not> straddles (lv_width env) addr sz"
  shows "\<exists>s1. data_req env insn addr sz OP_WRITE signd reg reg2 s = (s1, False) \<and>
    access_effect s e (ls_rf s) (complete env lat e False s1) \<and> inv (ls_port (complete env lat e False s1)) \<and>
    mem (ls_port (complete env lat e False s1)) = write_at addr (to_le sz (ucast (get_reg reg (ls_rf s)) :: u64)) (mem (ls_port s))"
proof -
  obtain es where f: "ls_free s = e # es" using assms(2) by (cases "ls_free s") (auto simp: can_issue_def)
  have p: "\<not> lv_memcheck env" using assms(1) by (simp add: access_ok_def)
  obtain s1 p' r' where s1: "data_req_aligned env insn addr sz OP_WRITE signd reg reg2 s = (s1, False)" "deferred env s e signd reg p' r' s1"
    and r: "inv p'" "mem p' = write_at addr (to_le sz (ucast (get_reg reg (ls_rf s)) :: u64)) (mem (ls_port s))" "lr_latency r' = lat"
      "lr_opcode r' = OP_WRITE" "lr_status r' = IO_RESP_OK"
    using issue_write[OF assms(1) f assms(3-5), of insn signd reg reg2] by blast
  let ?env = "env\<lparr>lv_cycles := lv_cycles env + lat\<rparr>"
  have d: "ls_free s1 = es" "ls_nb_pending s1 = ls_nb_pending s + 1" "ls_rf s1 = ls_rf s" "ls_port s1 = p'" "\<not> ls_io_req_denied s1"
      "le_req (ls_entry s1 e) = r'" "le_timestamp (ls_entry s1 e) \<le> lv_cycles ?env" "le_msize (ls_entry s1 e) = 0" "\<not> lv_memcheck ?env"
    using s1(2) assms(2) f r(3) p by (simp_all add: deferred_def can_issue_def)
  have m: "lr_status (le_req (ls_entry s1 e)) = IO_RESP_OK" "lr_opcode (le_req (ls_entry s1 e)) = OP_WRITE" using d(6) r by simp_all
  note t = task_retires(1-6)[OF d(7,8) m(1) d(9) disjI2[OF m(2)]] task_retires_write[OF d(7,8) m]
  show ?thesis using t s1(1) d(1-5) r(1,2) f data_req_aligned_or_split[OF p] assms(6)
    by (simp add: complete_def access_effect_def can_issue_def)
qed

lemma store_two_beats:
  assumes "access_ok env addr sz" "can_issue s e" "inv (ls_port s)" "fits addr sz" "lv_req env = req"
    "straddles (lv_width env) addr sz"
  shows "\<exists>s1. data_req env insn addr sz OP_WRITE signd reg reg2 s = (s1, False) \<and>
    access_effect s e (ls_rf s) (complete env lat e True s1) \<and> inv (ls_port (complete env lat e True s1)) \<and>
    mem (ls_port (complete env lat e True s1)) = write_at addr (to_le sz (ucast (get_reg reg (ls_rf s)) :: u64)) (mem (ls_port s))"
proof -
  let ?m = "beat0_size (lv_width env) addr sz" and ?n = "sz - beat0_size (lv_width env) addr sz"
  let ?s0 = "(l_act L_Misaligned_Account s)\<lparr>ls_issuing_misaligned := True\<rparr>" and ?w = "ucast (get_reg reg (ls_rf s)) :: u64"
  note b = access_ok_beats[OF assms(1,6,4)]
  have p: "\<not> lv_memcheck env" "prepare_ok (lv_prepare env)" "sz \<le> 8" "unat addr + sz \<le> 2 ^ LENGTH('x)" using assms(1) by (simp_all add: access_ok_def)
  obtain es where f: "ls_free s = e # es" using assms(2) by (cases "ls_free s") (auto simp: can_issue_def)
  have c: "le_msize (ls_entry s e) = 0" "\<not> ls_io_req_denied s" using assms(2) by (simp_all add: can_issue_def)
  have s0: "ls_free ?s0 = e # es" "ls_port ?s0 = ls_port s" "ls_rf ?s0 = ls_rf s" using f by (simp_all add: l_act_def)
  obtain s1 p1 r1 where i1: "data_req_aligned env insn addr ?m OP_WRITE signd reg reg2 ?s0 = (s1, False)" "deferred env ?s0 e signd reg p1 r1 s1"
    and r1: "inv p1" "mem p1 = write_at addr (to_le ?m ?w) (mem (ls_port s))" "lr_latency r1 = lat" "lr_opcode r1 = OP_WRITE"
    using issue_write[OF b(4) s0(1) _ b(5) assms(5), of insn signd reg reg2] assms(3) unfolding s0(2,3) by blast
  obtain s2 where s2: "data_req_misaligned env insn addr sz OP_WRITE signd reg reg2 s = (s2, False)" "ls_free s2 = es"
      "ls_nb_pending s2 = ls_nb_pending s + 1" "ls_rf s2 = ls_rf s" "ls_port s2 = p1" "\<not> ls_io_req_denied s2" "le_req (ls_entry s2 e) = r1\<lparr>lr_data2 := ?w\<rparr>"
      "le_timestamp (ls_entry s2 e) = lv_cycles env + lat" "le_msize (ls_entry s2 e) = ?n" "le_maddr (ls_entry s2 e) = addr + of_nat ?m"
      "le_moffset (ls_entry s2 e) = ?m"
    using split_issue[OF f c(1) i1 r1(3)] c(2) b(3) by auto
  let ?env1 = "env\<lparr>lv_cycles := lv_cycles env + lat\<rparr>" and ?env2 = "env\<lparr>lv_cycles := lv_cycles env + lat + lat\<rparr>"
  let ?q = "second_req ?env1 (ls_entry s2 e)"
  have q: "lr_addr ?q = addr + of_nat ?m" "lr_size ?q = ?n" "lr_opcode ?q = OP_WRITE" "\<not> lr_mc ?q" "lr_latency ?q = 0"
      "lr_data ?q = drop_bit (?m * 8) ?w" "lr_status ?q = IO_RESP_OK"
    using p(2) s2(7,9-11) r1(4) by (simp_all add: second_req_def prepare_ok_def Let_def)
  obtain p2 where p2: "lv_req ?env1 (ls_port s2) ?q = (p2, ?q\<lparr>lr_latency := lat\<rparr>, IO_REQ_DONE)" "inv p2"
      "mem p2 = write_at (addr + of_nat ?m) (to_le ?n (drop_bit (?m * 8) ?w)) (mem p1)"
    using "write"[of p1 ?q] q r1(1) b le_trans[OF diff_le_self p(3)] s2(5) assms(5) by auto
  have v: "mem p2 = write_at addr (to_le sz ?w) (mem (ls_port s))"
    unfolding p2(3) r1(2) to_le_split[OF less_imp_le[OF b(2)], of ?w] by (rule write_at_split) (use b(2) p(4) in simp_all)
  have l: "0 < lr_latency (?q\<lparr>lr_latency := lat\<rparr>)" and ne: "le_msize (ls_entry s2 e) \<noteq> 0" and le: "le_timestamp (ls_entry s2 e) \<le> lv_cycles ?env1"
    using lat_pos b(2) s2(8,9) by simp_all
  define s3 where "s3 = lsu_task_handle ?env1 e s2"
  have s3: "ls_free s3 = es" "ls_nb_pending s3 = ls_nb_pending s + 1" "ls_rf s3 = ls_rf s" "ls_port s3 = p2" "\<not> ls_io_req_denied s3"
      "ls_entry s3 e = (ls_entry s2 e)\<lparr>le_req := ?q\<lparr>lr_latency := lat\<rparr>, le_msize := 0, le_timestamp := lv_cycles env + lat + lat\<rparr>"
    unfolding s3_def using task_second_beat[OF le ne p2(1) l] s2(2-6) by simp_all
  have e3: "le_timestamp (ls_entry s3 e) \<le> lv_cycles ?env2" "le_msize (ls_entry s3 e) = 0" "lr_status (le_req (ls_entry s3 e)) = IO_RESP_OK"
      "\<not> lv_memcheck ?env2" "lr_opcode (le_req (ls_entry s3 e)) = OP_WRITE" using s3(6) q(3,7) p(1) by simp_all
  note t = task_retires(1-6)[OF e3(1-4) disjI2[OF e3(5)]] task_retires_write[OF e3(1-3,5)]
  show ?thesis using t s3(1-5) s2(1) p2(2) v f data_req_aligned_or_split[OF p(1)] assms(6)
    by (simp add: complete_def access_effect_def can_issue_def s3_def[symmetric])
qed

lemmas load_access = load_one_beat load_two_beats
lemmas store_access = store_one_beat store_two_beats

end

end
