(* ===== verification/Lsu_Memory.thy ===== *)
theory Lsu_Memory
  imports Lsu_V2_Props Exec_V2_Props Memory_V3_Props
begin

text \<open>
  The load-store unit connected to the SRAM model. The data buffers of an entry are placed in host memory, the request
  goes through \<open>mem_req\<close>, and the buffers are read back. The memory interprets \<open>byte_port\<close>, so loads and stores of the core
  act on the bytes of the memory array, also when they straddle the data port.
\<close>

section \<open>The connection\<close>

text \<open>The buffers \<^verbatim>\<open>data\<close>, \<^verbatim>\<open>data2\<close> and \<^verbatim>\<open>memcheck_data\<close> of the entry are at 8, 16 and 24.\<close>

definition lsu_heap :: "'w lreq \<Rightarrow> heap" where
  "lsu_heap r = heap_write (heap_write (heap_write (\<lambda>_. 0) 8 (to_le 8 (lr_data r))) 16 (to_le 8 (lr_data2 r))) 24 (lr_mc_data r)"

definition lsu_io_req :: "'x::len word lreq \<Rightarrow> io_req" where
  "lsu_io_req r = \<lparr>r_addr = ucast (lr_addr r), r_size = of_nat (lr_size r), r_data = 8, r_second_data = 16, r_strb = 0,
     r_is_write = (lr_opcode r = OP_WRITE), r_opcode = lr_opcode r, r_initiator = 0, r_latency = lr_latency r,
     r_resp_status = lr_status r, r_remaining_size = 0, r_memcheck_data = (if lr_mc r then 24 else 0),
     r_memcheck_data_id = lr_mc_id r\<rparr>"

text \<open>The state behind the port is \<open>None\<close> once the memory has run into undefined behaviour.\<close>

definition lsu_mem_req :: "int \<Rightarrow> bool \<Rightarrow> memory option \<Rightarrow> 'x::len word lreq \<Rightarrow> memory option \<times> 'x word lreq \<times> io_req_status" where
  "lsu_mem_req cyc pe p r =
     (case Option.bind p (\<lambda>m. mem_req cyc pe m (lsu_heap r) (lsu_io_req r)) of
        None \<Rightarrow> (None, r, IO_REQ_DONE)
      | Some (m, h, q, st) \<Rightarrow>
          (Some m, r\<lparr>lr_data := from_le (heap_read h 8 8), lr_data2 := from_le (heap_read h 16 8), lr_latency := r_latency q,
                     lr_status := r_resp_status q, lr_mc_data := heap_read h 24 (length (lr_mc_data r)), lr_mc_id := r_memcheck_data_id q\<rparr>, st))"

definition mem_serves :: "mem_config \<Rightarrow> memory option \<Rightarrow> bool" where
  "mem_serves c p \<longleftrightarrow> (\<exists>m. p = Some m \<and> mem_wf m \<and> powered_up m \<and> cfg m = c \<and> \<not> (c_memcheck c \<and> memcheck_enabled m) \<and> \<not> c_truncate c)"

definition mem_byte :: "memory option \<Rightarrow> 'x::len word \<Rightarrow> byte" where
  "mem_byte p a = (case p of None \<Rightarrow> 0 | Some m \<Rightarrow> if unat a < length (mem_data m) then mem_data m ! unat a else 0)"

definition addr_fits :: "mem_config \<Rightarrow> 'x::len word \<Rightarrow> nat \<Rightarrow> bool" where
  "addr_fits c a n \<longleftrightarrow> LENGTH('x) \<le> 64 \<and> unat a + n \<le> unat (c_size c) \<and> unat a + n \<le> 2 ^ LENGTH('x) \<and> unat a + n < 2 ^ 64"

section \<open>The laws\<close>

lemma mem_req_plain:
  assumes "mem_wf m" "mem_accepts r" "mem_fits m r" "\<not> (c_memcheck (cfg m) \<and> memcheck_enabled m)"
  shows "\<exists>m2. mem_core m2 = mem_core m \<and>
    mem_req cyc pe m h r = mem_dispatch m2 h r (r\<lparr>r_latency := r_latency r + c_latency (cfg m)\<rparr>) (mem_off m r)"
proof -
  let ?m1 = "account_energy pe r (log_access cyc (count_access r m))" and ?r1 = "r\<lparr>r_latency := r_latency r + c_latency (cfg m)\<rparr>"
  have "r_data ?r1 \<noteq> 0" using assms(2) by (simp add: mem_accepts_def)
  from power_trigger_core[OF this, of h "mem_off m r" ?m1] obtain m2 where
    m2: "power_trigger h ?r1 (mem_off m r) ?m1 = Some m2" "mem_core m2 = mem_core m" by auto
  have c2: "cfg m2 = cfg m" "memcheck_enabled m2 = memcheck_enabled m" using m2(2) by (simp_all add: mem_core_def)
  have g: "\<not> c_size (cfg m2) < mem_off m r + r_size r" "\<not> (c_memcheck (cfg m2) \<and> memcheck_enabled m2)"
    using c2 assms(3,4) mem_fits_guard[OF assms(2), of m] by simp_all
  have "mem_req cyc pe m h r = mem_dispatch m2 h r ?r1 (mem_off m r)"
    unfolding mem_req_def mem_dispatch_def Let_def m2(1) bind.bind_lunit if_not_P[OF g(1)] if_not_P[OF g(2)] prod.case by (rule refl)
  then show ?thesis using m2(2) by blast
qed

lemma lsu_heap_bufs:
  "heap_read (lsu_heap r) 8 8 = to_le 8 (lr_data r)" "heap_read (lsu_heap r) 16 8 = to_le 8 (lr_data2 r)"
  "heap_read (lsu_heap r) 24 (length (lr_mc_data r)) = lr_mc_data r"
  by (simp_all add: lsu_heap_def heap_read_write_same heap_read_write_other)

lemma to_le_take: "m \<le> n \<Longrightarrow> take m (to_le n w) = to_le m w"
  by (rule nth_equalityI) auto

lemma heap_read_take: "m \<le> n \<Longrightarrow> heap_read h p m = take m (heap_read h p n)"
  by (rule nth_equalityI) auto

lemma lsu_heap_data: "n \<le> 8 \<Longrightarrow> heap_read (lsu_heap r) 8 n = to_le n (lr_data r)"
  by (simp add: heap_read_take[of n 8] lsu_heap_bufs to_le_take)

text \<open>Reading back the data buffer after \<open>n\<close> of its bytes were replaced.\<close>

lemma put_low_heap:
  assumes "length bs = n" "n \<le> 8"
  shows "from_le (heap_read (heap_write (lsu_heap r) 8 bs) 8 8) = put_low n (from_le bs) (lr_data r)"
proof (rule bit_word_eqI)
  fix k assume k: "k < LENGTH(64)"
  have d: "k div 8 < n \<longleftrightarrow> k < 8 * n" by (simp add: div_less_iff_less_mult mult.commute)
  have l: "k div 8 < 8" using k by (simp add: div_less_iff_less_mult)
  have o: "lsu_heap r (8 + k div 8) = to_le 8 (lr_data r) ! (k div 8)"
    using lsu_heap_bufs(1)[of r] l by (metis nth_heap_read)
  have b: "bit (to_le 8 (lr_data r) ! (k div 8)) (k mod 8) = bit (lr_data r) k"
    using l by (simp add: bit_ucast_iff bit_drop_bit_eq)
  have "bit (from_le (heap_read (heap_write (lsu_heap r) 8 bs) 8 8) :: u64) k \<longleftrightarrow>
      bit (heap_write (lsu_heap r) 8 bs (8 + k div 8)) (k mod 8)" using k l by (simp add: bit_from_le_u64)
  also have "\<dots> \<longleftrightarrow> (if k < 8 * n then bit (bs ! (k div 8)) (k mod 8) else bit (lr_data r) k)"
    using d b o assms(1) by (simp add: heap_write_def)
  also have "\<dots> \<longleftrightarrow> bit (put_low n (from_le bs) (lr_data r)) k"
    using d k assms(1) by (simp add: bit_put_low bit_from_le_u64)
  finally show "bit (from_le (heap_read (heap_write (lsu_heap r) 8 bs) 8 8) :: u64) k = bit (put_low n (from_le bs) (lr_data r)) k" .
qed

lemma unat_plus_nat: "unat a + m < 2 ^ LENGTH('x) \<Longrightarrow> unat (a + of_nat m) = unat a + m" for a :: "'x::len word"
proof -
  assume lt: "unat a + m < 2 ^ LENGTH('x)"
  then have "m < 2 ^ LENGTH('x)" by linarith
  then have "unat (of_nat m :: 'x word) = m" by (simp only: unat_of_nat mod_less)
  then show ?thesis using lt by (simp only: unat_word_ariths mod_less)
qed

text \<open>A write of bytes that do not wrap around the address space, by position.\<close>

lemma write_at_list:
  assumes "unat (a :: 'x::len word) + n \<le> 2 ^ LENGTH('x)" "length bs = n"
  shows "write_at a bs f b = (if unat a \<le> unat b \<and> unat b < unat a + n then bs ! (unat b - unat a) else f b)"
proof (cases "a \<le> b")
  case True
  then have "unat (b - a) = unat b - unat a" by (rule unat_sub)
  then show ?thesis using True assms(2) by (auto simp: write_at_def word_le_nat_alt Let_def)
next
  case False
  then have lt: "unat b < unat a" by (simp add: word_less_nat_alt not_le)
  have "\<not> unat (b - a) < n"
  proof
    assume "unat (b - a) < n"
    then have "unat a + unat (b - a) < 2 ^ LENGTH('x)" using assms(1) by linarith
    then have "unat (a + (b - a)) = unat a + unat (b - a)" by (simp only: unat_word_ariths mod_less)
    then show False using lt by simp
  qed
  then show ?thesis using lt assms(2) by (simp add: write_at_def Let_def)
qed

lemma addr_fits_split:
  assumes "addr_fits c (a :: 'x::len word) (m + n)" "0 < n"
  shows "addr_fits c a m \<and> addr_fits c (a + of_nat m) n"
proof -
  have "unat (a + of_nat m) = unat a + m" by (rule unat_plus_nat) (use assms in \<open>simp add: addr_fits_def\<close>)
  then show ?thesis using assms by (simp add: addr_fits_def)
qed

lemma lsu_io_req_in_range:
  assumes "mem_serves c (Some m)" "addr_fits c (lr_addr r) (lr_size r)" "0 < lr_size r" "lr_size r \<le> 8"
  shows "mem_accepts (lsu_io_req r)" "mem_fits m (lsu_io_req r)" "unat (mem_off m (lsu_io_req r)) = unat (lr_addr r)"
    "unat (r_size (lsu_io_req r)) = lr_size r"
proof -
  have c: "cfg m = c" "\<not> c_truncate c" using assms(1) by (auto simp: mem_serves_def)
  have n: "lr_size r < 2 ^ 64" using assms(4) by simp
  have sz: "unat (of_nat (lr_size r) :: u64) = lr_size r" using n by (simp add: unat_of_nat)
  have ua: "unat (ucast (lr_addr r) :: u64) = unat (lr_addr r)"
    using assms(2,3) by (simp add: addr_fits_def unsigned_ucast_eq take_bit_nat_eq_self)
  show "unat (r_size (lsu_io_req r)) = lr_size r" using sz by (simp add: lsu_io_req_def)
  show off: "unat (mem_off m (lsu_io_req r)) = unat (lr_addr r)" using c ua by (simp add: lsu_io_req_def truncate_mask_def)
  show "mem_accepts (lsu_io_req r)" "mem_fits m (lsu_io_req r)"
    using assms(2-4) sz ua off c by (auto simp: mem_accepts_def mem_fits_def lsu_io_req_def addr_fits_def word_le_nat_alt simp flip: unat_gt_0)
qed

lemma mem_serves_core:
  assumes "mem_serves c (Some m)" "mem_core m2 = mem_core m"
  shows "mem_serves c (Some m2)" "mem_data m2 = mem_data m" "powered_up m2"
  using assms mem_core_wf[OF assms(2)] by (auto simp: mem_serves_def mem_core_def)

lemma mem_byte_bytes:
  assumes "addr_fits c (a :: 'x::len word) n" "length (mem_data m) = unat (c_size c)"
  shows "take n (drop (unat a) (mem_data m)) = bytes_at (mem_byte (Some m)) a n"
proof (rule nth_equalityI)
  show "length (take n (drop (unat a) (mem_data m))) = length (bytes_at (mem_byte (Some m)) a n)"
    using assms by (auto simp: addr_fits_def)
next
  fix i assume "i < length (take n (drop (unat a) (mem_data m)))"
  then have i: "i < n" "unat a + i < length (mem_data m)" using assms by (auto simp: addr_fits_def)
  then have "unat a + i < 2 ^ LENGTH('x)" using assms(1) by (simp add: addr_fits_def)
  then have "unat (a + of_nat i) = unat a + i" by (rule unat_plus_nat)
  then show "take n (drop (unat a) (mem_data m)) ! i = bytes_at (mem_byte (Some m)) a n ! i"
    using i by (simp add: bytes_at_def mem_byte_def)
qed

lemma lsu_mem_read:
  assumes "mem_serves c p" "addr_fits c (lr_addr r) (lr_size r)" "0 < lr_size r" "lr_size r \<le> 8" "lr_opcode r = OP_READ" "\<not> lr_mc r"
  shows "\<exists>p'. lsu_mem_req cyc pe p r = (p', r\<lparr>lr_data := put_low (lr_size r) (from_le (bytes_at (mem_byte p) (lr_addr r) (lr_size r))) (lr_data r),
      lr_latency := lr_latency r + c_latency c\<rparr>, IO_REQ_DONE) \<and> mem_serves c p' \<and> mem_byte p' = (mem_byte p :: 'x::len word \<Rightarrow> byte)"
proof -
  obtain m where m: "p = Some m" "mem_wf m" "cfg m = c" "\<not> (c_memcheck c \<and> memcheck_enabled m)"
    using assms(1) by (auto simp: mem_serves_def)
  let ?q = "lsu_io_req r" and ?bs = "bytes_at (mem_byte p) (lr_addr r) (lr_size r)"
  note q = lsu_io_req_in_range[OF assms(1)[unfolded m(1)] assms(2-4)]
  obtain m2 where m2: "mem_core m2 = mem_core m"
    "mem_req cyc pe m (lsu_heap r) ?q = mem_dispatch m2 (lsu_heap r) ?q (?q\<lparr>r_latency := r_latency ?q + c_latency c\<rparr>) (mem_off m ?q)"
    using mem_req_plain[OF m(2) q(1,2)] m(3,4) by blast
  note s2 = mem_serves_core[OF assms(1)[unfolded m(1)] m2(1)]
  have len: "length (mem_data m) = unat (c_size c)" using m(2,3) by (simp add: mem_wf_def)
  have rd: "handle_read m2 (lsu_heap r) (mem_off m ?q) (r_size ?q) 8 = Some (heap_write (lsu_heap r) 8 ?bs)"
    using s2(2,3) q(3,4) len assms(2) mem_byte_bytes[OF assms(2) len]
    by (simp add: handle_read_def handle_read_bytes_def arr_read_def addr_fits_def m(1))
  have "mem_req cyc pe m (lsu_heap r) ?q =
      Some (m2, heap_write (lsu_heap r) 8 ?bs, ?q\<lparr>r_latency := r_latency ?q + c_latency c\<rparr>, IO_REQ_DONE)"
    unfolding m2(2) using rd assms(5) by (simp add: mem_dispatch_def lsu_io_req_def)
  then have "lsu_mem_req cyc pe p r = (Some m2, r\<lparr>lr_data := put_low (lr_size r) (from_le ?bs) (lr_data r),
      lr_latency := lr_latency r + c_latency c\<rparr>, IO_REQ_DONE)"
    using put_low_heap[of ?bs "lr_size r" r] assms(4)
    by (simp add: lsu_mem_req_def m(1) heap_read_write_other lsu_heap_bufs from_le_to_le_full lsu_io_req_def)
  moreover have "mem_byte (Some m2) = (mem_byte p :: 'x word \<Rightarrow> byte)" using s2(2) m(1) by (simp add: mem_byte_def fun_eq_iff)
  ultimately show ?thesis using s2(1) by blast
qed

lemma lsu_mem_write:
  assumes "mem_serves c p" "addr_fits c (lr_addr r) (lr_size r)" "0 < lr_size r" "lr_size r \<le> 8" "lr_opcode r = OP_WRITE" "\<not> lr_mc r"
  shows "\<exists>p'. lsu_mem_req cyc pe p r = (p', r\<lparr>lr_latency := lr_latency r + c_latency c\<rparr>, IO_REQ_DONE) \<and> mem_serves c p' \<and>
    mem_byte p' = write_at (lr_addr r) (to_le (lr_size r) (lr_data r)) (mem_byte p :: 'x::len word \<Rightarrow> byte)"
proof -
  obtain m where m: "p = Some m" "mem_wf m" "cfg m = c" "\<not> (c_memcheck c \<and> memcheck_enabled m)"
    using assms(1) by (auto simp: mem_serves_def)
  let ?q = "lsu_io_req r" and ?a = "lr_addr r" and ?n = "lr_size r"
  note q = lsu_io_req_in_range[OF assms(1)[unfolded m(1)] assms(2-4)]
  obtain m2 where m2: "mem_core m2 = mem_core m"
    "mem_req cyc pe m (lsu_heap r) ?q = mem_dispatch m2 (lsu_heap r) ?q (?q\<lparr>r_latency := r_latency ?q + c_latency c\<rparr>) (mem_off m ?q)"
    using mem_req_plain[OF m(2) q(1,2)] m(3,4) by blast
  note s2 = mem_serves_core[OF assms(1)[unfolded m(1)] m2(1)]
  have len: "length (mem_data m) = unat (c_size c)" using m(2,3) by (simp add: mem_wf_def)
  obtain md where md: "arr_write (mem_data m) (unat ?a) (to_le ?n (lr_data r)) = Some md"
    using len assms(2) by (simp add: arr_write_def addr_fits_def)
  have wr: "handle_write m2 (lsu_heap r) (mem_off m ?q) (r_size ?q) 8 0 = Some (m2\<lparr>mem_data := md\<rparr>)"
    using s2(2,3) q(3,4) md lsu_heap_data[OF assms(4), of r] by (simp add: handle_write_def handle_write_bytes_def)
  have "mem_req cyc pe m (lsu_heap r) ?q =
      Some (m2\<lparr>mem_data := md\<rparr>, lsu_heap r, ?q\<lparr>r_latency := r_latency ?q + c_latency c\<rparr>, IO_REQ_DONE)"
    unfolding m2(2) using wr assms(5) by (simp add: mem_dispatch_def lsu_io_req_def)
  then have "lsu_mem_req cyc pe p r = (Some (m2\<lparr>mem_data := md\<rparr>), r\<lparr>lr_latency := lr_latency r + c_latency c\<rparr>, IO_REQ_DONE)"
    by (simp add: lsu_mem_req_def m(1) lsu_heap_bufs from_le_to_le_full lsu_io_req_def)
  moreover have "mem_serves c (Some (m2\<lparr>mem_data := md\<rparr>))"
    using s2(1,2) length_arr_write[OF md] by (auto simp: mem_serves_def mem_wf_def)
  moreover have "mem_byte (Some (m2\<lparr>mem_data := md\<rparr>)) b = write_at ?a (to_le ?n (lr_data r)) (mem_byte p) b" for b :: "'x word"
    using write_at_list[OF assms(2)[unfolded addr_fits_def, THEN conjunct2, THEN conjunct2, THEN conjunct1], of "to_le ?n (lr_data r)" "mem_byte p" b]
      nth_arr_write[OF md, of "unat b"] length_arr_write[OF md] len assms(2) m(1)
    by (auto simp: mem_byte_def addr_fits_def)
  ultimately show ?thesis by blast
qed

text \<open>A memory with a latency is a byte port of the load-store unit.\<close>

definition timed_mem :: "mem_config \<Rightarrow> memory option \<Rightarrow> bool" where
  "timed_mem c p \<longleftrightarrow> mem_serves c p \<and> 0 < c_latency c"

interpretation lsu_mem: byte_port "lsu_mem_req cyc pe" "timed_mem c" mem_byte "addr_fits c" "max 1 (c_latency c)"
  for cyc pe c
proof unfold_locales
  fix p and r :: "'x::len word lreq"
  assume a: "timed_mem c p" "addr_fits c (lr_addr r) (lr_size r)" "0 < lr_size r" "lr_size r \<le> 8" "\<not> lr_mc r"
  then have m: "mem_serves c p" "max 1 (c_latency c) = c_latency c" "0 < c_latency c" by (simp_all add: timed_mem_def)
  show "\<exists>p'. lsu_mem_req cyc pe p r = (p', r\<lparr>lr_data := put_low (lr_size r) (from_le (bytes_at (mem_byte p) (lr_addr r) (lr_size r))) (lr_data r),
      lr_latency := lr_latency r + max 1 (c_latency c)\<rparr>, IO_REQ_DONE) \<and> timed_mem c p' \<and> mem_byte p' = (mem_byte p :: 'x word \<Rightarrow> byte)"
    if "lr_opcode r = OP_READ"
    unfolding m(2) timed_mem_def using lsu_mem_read[OF m(1) a(2-4) that a(5), of cyc pe] m(3) by simp
  show "\<exists>p'. lsu_mem_req cyc pe p r = (p', r\<lparr>lr_latency := lr_latency r + max 1 (c_latency c)\<rparr>, IO_REQ_DONE) \<and> timed_mem c p' \<and>
      mem_byte p' = write_at (lr_addr r) (to_le (lr_size r) (lr_data r)) (mem_byte p :: 'x word \<Rightarrow> byte)"
    if "lr_opcode r = OP_WRITE"
    unfolding m(2) timed_mem_def using lsu_mem_write[OF m(1) a(2-4) that a(5), of cyc pe] m(3) by simp
qed (use addr_fits_split in auto)

section \<open>Loads and stores of the core\<close>

text \<open>The value of a load: the bytes in little-endian order, extended to the register.\<close>

definition load_value :: "bool \<Rightarrow> byte list \<Rightarrow> 'x::len word" where
  "load_value signd bs = (if signd then signed_take_bit (8 * length bs - 1) (from_le bs) else from_le bs)"

lemma ucast_from_le: "length bs \<le> 8 \<Longrightarrow> ucast (from_le bs :: u64) = (from_le bs :: 'x::len word)"
proof (rule bit_word_eqI)
  fix k assume k: "length bs \<le> 8" "k < LENGTH('x)"
  have "k div 8 < length bs \<Longrightarrow> k < 64" using k(1) by linarith
  then show "bit (ucast (from_le bs :: u64) :: 'x word) k = bit (from_le bs :: 'x word) k"
    using k(2) by (auto simp: bit_ucast_iff bit_from_le)
qed

lemma iss_get_signed_value_extends:
  assumes "0 < n" "n \<le> LENGTH('x)"
  shows "iss_get_signed_value (v :: 'x::len word) n = signed_take_bit (n - 1) v"
proof (rule bit_word_eqI)
  fix k assume "k < LENGTH('x)"
  moreover have "min k (n - 1) = (if k < n then k else n - 1)" using assms(1) by (auto simp: min_def)
  ultimately show "bit (iss_get_signed_value v n) k = bit (signed_take_bit (n - 1) v) k"
    using assms by (auto simp: iss_get_signed_value_def bit_signed_drop_bit_iff bit_push_bit_iff bit_signed_take_bit_iff)
qed

lemma reg_value_value:
  assumes "0 < length bs" "length bs \<le> 8" "8 * length bs \<le> LENGTH('x)"
  shows "(reg_value signd bs :: 'x::len word) = load_value signd bs"
  using assms by (simp add: reg_value_def load_value_def ucast_from_le iss_get_signed_value_extends mult.commute)

text \<open>The state after an access: its beats answered after the latency of the memory.\<close>

abbreviation after_access :: "('x::len word, memory option) lsu_env \<Rightarrow> mem_config \<Rightarrow> 'x word \<Rightarrow> nat \<Rightarrow> nat \<Rightarrow> ('x word, memory option) lsu \<Rightarrow> ('x word, memory option) lsu" where
  "after_access env c addr sz e \<equiv> complete env (max 1 (c_latency c)) e (straddles (lv_width env) addr sz)"

lemma virtual_issues:
  assumes "can_issue s e" "data_req env insn addr sz opc signd reg reg2 s = (s1, False)"
  shows "data_req_virtual env True insn addr sz opc signd reg reg2 s = (s1, False)"
  using assms by (simp add: data_req_virtual_def can_issue_def)

definition load_op :: "bool \<Rightarrow> ('x::len word, 'p) lsu_env \<Rightarrow> 'x word linsn \<Rightarrow> 'x word \<Rightarrow> nat \<Rightarrow> nat \<Rightarrow> ('x word, 'p) lsu \<Rightarrow> ('x word, 'p) lsu \<times> bool" where
  "load_op signd env = (if signd then lsu_load_signed env True else lsu_load env True)"

lemma load_done:
  fixes addr :: "'x::len word"
  assumes "access_ok env addr sz" "can_issue s e" "timed_mem c (ls_port s)" "addr_fits c addr sz" "lv_req env = lsu_mem_req cyc pe"
    "8 * sz \<le> LENGTH('x)"
  shows "\<exists>s1. load_op signd env insn addr sz reg s = (s1, False) \<and>
    access_effect s e (set_reg reg (load_value signd (bytes_at (mem_byte (ls_port s)) addr sz)) (ls_rf s)) (after_access env c addr sz e s1) \<and>
    timed_mem c (ls_port (after_access env c addr sz e s1)) \<and>
    mem_byte (ls_port (after_access env c addr sz e s1)) = (mem_byte (ls_port s) :: 'x word \<Rightarrow> byte)"
proof -
  have sz: "0 < sz" "sz \<le> 8" using assms(1) by (auto simp: access_ok_def)
  obtain s1 where s1: "data_req env insn addr sz OP_READ signd reg 0 s = (s1, False)"
      "access_effect s e (set_reg reg (reg_value signd (bytes_at (mem_byte (ls_port s)) addr sz)) (ls_rf s)) (after_access env c addr sz e s1)"
      "timed_mem c (ls_port (after_access env c addr sz e s1))" "mem_byte (ls_port (after_access env c addr sz e s1)) = (mem_byte (ls_port s) :: 'x word \<Rightarrow> byte)"
    using lsu_mem.load_access(1)[OF assms(1-5), of insn signd reg 0] lsu_mem.load_access(2)[OF assms(1-5), of insn signd reg 0]
    by (cases "straddles (lv_width env) addr sz") auto
  have "load_op signd env insn addr sz reg s = (s1, False)"
    using virtual_issues[OF assms(2) s1(1)] by (cases signd) (simp_all add: load_op_def lsu_load_def lsu_load_signed_def)
  moreover have "(reg_value signd (bytes_at (mem_byte (ls_port s)) addr sz) :: 'x word) = load_value signd (bytes_at (mem_byte (ls_port s)) addr sz)"
    by (rule reg_value_value) (use sz assms(6) in simp_all)
  ultimately show ?thesis using s1(2-4) by auto
qed

lemma store_done:
  fixes addr :: "'x::len word"
  assumes "access_ok env addr sz" "can_issue s e" "timed_mem c (ls_port s)" "addr_fits c addr sz" "lv_req env = lsu_mem_req cyc pe"
  shows "\<exists>s1. lsu_store env True insn addr sz reg s = (s1, False) \<and> access_effect s e (ls_rf s) (after_access env c addr sz e s1) \<and>
    timed_mem c (ls_port (after_access env c addr sz e s1)) \<and>
    mem_byte (ls_port (after_access env c addr sz e s1)) = write_at addr (to_le sz (ucast (get_reg reg (ls_rf s)) :: u64)) (mem_byte (ls_port s) :: 'x word \<Rightarrow> byte)"
proof -
  obtain s1 where s1: "data_req env insn addr sz OP_WRITE False reg 0 s = (s1, False)" "access_effect s e (ls_rf s) (after_access env c addr sz e s1)"
      "timed_mem c (ls_port (after_access env c addr sz e s1))"
      "mem_byte (ls_port (after_access env c addr sz e s1)) = write_at addr (to_le sz (ucast (get_reg reg (ls_rf s)) :: u64)) (mem_byte (ls_port s) :: 'x word \<Rightarrow> byte)"
    using lsu_mem.store_access(1)[OF assms(1-5), of insn False reg 0] lsu_mem.store_access(2)[OF assms(1-5), of insn False reg 0]
    by (cases "straddles (lv_width env) addr sz") auto
  then show ?thesis using virtual_issues[OF assms(2) s1(1)] by (auto simp: lsu_store_def)
qed

text \<open>A 32-bit core in front of a memory of 16 bytes, each holding its own address, with a data port of 4 bytes.\<close>

definition lsu_cfg :: "int \<Rightarrow> mem_config" where
  "lsu_cfg l = demo_cfg\<lparr>c_latency := l\<rparr>"

definition lsu_demo_mem :: "int \<Rightarrow> memory" where
  "lsu_demo_mem l = demo_mem\<lparr>cfg := lsu_cfg l, mem_data := map of_nat [0..<16], memcheck_enabled := False\<rparr>"

definition lsu_env0 :: "int \<Rightarrow> (u32, memory option) lsu_env" where
  "lsu_env0 cyc = \<lparr>lv_cycles = cyc, lv_width = 4, lv_memcheck = False, lv_prepare = (\<lambda>r. r\<lparr>lr_latency := 0, lr_mc := False\<rparr>),
     lv_req = lsu_mem_req 0 False, lv_out_mask = (\<lambda>_. 0x20)\<rparr>"

definition linsn0 :: "u32 linsn" where
  "linsn0 = \<lparr>li_addr = 0, li_opcode = 0, li_out_mask = 0x20\<rparr>"

definition lsu0 :: "int \<Rightarrow> (u32, memory option) lsu" where
  "lsu0 l = \<lparr>ls_free = [0, 1], ls_entry = (\<lambda>_. \<lparr>le_req = \<lparr>lr_addr = 0, lr_size = 0, lr_opcode = OP_READ, lr_data = 0, lr_data2 = 0, lr_latency = 0,
       lr_status = IO_RESP_OK, lr_mc = False, lr_mc_data = [], lr_mc_id = 0\<rparr>, le_is_signed = False, le_reg = 0, le_reg2 = 0, le_pc = 0,
       le_insn_entry = 0, le_timestamp = 0, le_msize = 0, le_maddr = 0, le_moffset = 0\<rparr>),
     ls_io_req_denied = False, ls_denied_entry = None, ls_granted_entry = None, ls_pending_fence = False, ls_nb_pending = 0, ls_next_retire = 0,
     ls_issuing_misaligned = False, ls_aliases = [], ls_port = Some (lsu_demo_mem l),
     ls_rf = \<lparr>rf_regs = (\<lambda>i. if i = 7 then 0x89ABCDEF else 0), rf_mc = (\<lambda>_. 0), rf_mc_id = (\<lambda>_. 0), rf_fault = None,
       rf_pending_addr_buffer_id = 0, rf_mc_enabled = False\<rparr>, ls_x = exec0, ls_log = []\<rparr>"

lemma lsu_demo_ok:
  "access_ok (lsu_env0 cyc) 6 4" "can_issue (lsu0 l) 0" "mem_serves (lsu_cfg l) (ls_port (lsu0 l))" "addr_fits (lsu_cfg l) (6 :: u32) 4"
  "lv_req (lsu_env0 cyc) = lsu_mem_req 0 False" "straddles (lv_width (lsu_env0 cyc)) (6 :: u32) 4" "beat0_size (lv_width (lsu_env0 cyc)) (6 :: u32) 4 = 2"
proof -
  show "access_ok (lsu_env0 cyc) 6 4"
    by (auto simp: access_ok_def lsu_env0_def prepare_ok_def intro!: exI[of _ "2 :: nat"])
  show "can_issue (lsu0 l) 0" by (simp add: can_issue_def lsu0_def)
  show "mem_serves (lsu_cfg l) (ls_port (lsu0 l))"
    by (simp add: mem_serves_def lsu0_def lsu_demo_mem_def lsu_cfg_def demo_mem_def demo_cfg_def mem_wf_def)
  show "addr_fits (lsu_cfg l) (6 :: u32) 4" by (simp add: addr_fits_def lsu_cfg_def demo_cfg_def)
  show "lv_req (lsu_env0 cyc) = lsu_mem_req 0 False" by (simp add: lsu_env0_def)
  show "straddles (lv_width (lsu_env0 cyc)) (6 :: u32) 4" "beat0_size (lv_width (lsu_env0 cyc)) (6 :: u32) 4 = 2"
    by (simp_all add: lsu_env0_def straddles_def beat0_size_def beat1_addr_def)
qed

lemma lsu_demo_bytes: "bytes_at (mem_byte (ls_port (lsu0 l))) (6 :: u32) 4 = [6, 7, 8, 9]" "bytes_at (mem_byte (ls_port (lsu0 l))) (6 :: u32) 2 = [6, 7]"
  by (simp_all add: bytes_at_def mem_byte_def lsu0_def lsu_demo_mem_def upt_rec)

lemma lsu_demo_timed: "timed_mem (lsu_cfg 2) (ls_port (lsu0 2))"
  using lsu_demo_ok(3)[of 2] by (simp add: timed_mem_def lsu_cfg_def)

lemma bytes_at_write_at:
  assumes "length bs = n" "n \<le> 2 ^ LENGTH('x)"
  shows "bytes_at (write_at (a :: 'x::len word) bs f) a n = bs"
proof (rule nth_equalityI)
  fix i assume "i < length (bytes_at (write_at a bs f) a n)"
  then have i: "i < n" by simp
  then have "i < 2 ^ LENGTH('x)" using assms(2) by linarith
  then have "unat (of_nat i :: 'x word) = i" by (simp only: unat_of_nat mod_less)
  then show "bytes_at (write_at a bs f) a n ! i = bs ! i" using i assms(1) by (simp add: bytes_at_def write_at_def Let_def)
qed (use assms in simp)

lemma load_value_stored:
  assumes "LENGTH('x) \<le> 64" "0 < n"
  shows "load_value signd (to_le n (ucast (v :: 'x::len word) :: u64)) = (if signd then signed_take_bit (8 * n - 1) v else take_bit (8 * n) v)"
proof -
  have f: "from_le (to_le n (ucast v :: u64)) = take_bit (8 * n) v"
  proof (rule bit_word_eqI)
    fix k assume k: "k < LENGTH('x)"
    have d: "k div 8 < n \<longleftrightarrow> k < 8 * n" by (simp add: div_less_iff_less_mult mult.commute)
    then show "bit (from_le (to_le n (ucast v :: u64)) :: 'x word) k = bit (take_bit (8 * n) v) k"
      using k assms(1) by (auto simp: bit_from_le bit_take_bit_iff bit_ucast_iff bit_drop_bit_eq)
  qed
  have "signed_take_bit (8 * n - 1) (take_bit (8 * n) v) = signed_take_bit (8 * n - 1) v"
    by (rule bit_word_eqI) (use assms(2) in \<open>auto simp: bit_signed_take_bit_iff bit_take_bit_iff min_def\<close>)
  then show ?thesis by (simp add: load_value_def f)
qed



section \<open>A memory without latency\<close>

text \<open>A beat that is done at once retires its entry before the issue returns.\<close>

lemma data_req_aligned_immediate:
  assumes "ls_free s = e # es" "\<not> lv_memcheck env" "le_msize (ls_entry s e) = 0" "le_moffset (ls_entry s e) = 0"
    "lv_req env (ls_port s) (sent_req env addr sz OP_READ reg e s) = (p', r', IO_REQ_DONE)" "lr_latency r' = 0"
    "lr_status r' = IO_RESP_OK" "lr_opcode r' = OP_READ"
  shows "\<exists>s1. data_req_aligned env insn addr sz OP_READ False reg reg2 s = (s1, False) \<and> ls_free s1 = ls_free s \<and>
    ls_rf s1 = set_reg reg (ucast (lr_data r')) (ls_rf s) \<and> ls_port s1 = p'"
proof -
  let ?s1 = "s\<lparr>ls_granted_entry := None, ls_nb_pending := ls_nb_pending s + 1, ls_free := es\<rparr>"
  let ?f = "fill_entry env insn addr sz OP_READ False reg reg2 e ?s1"
  have f: "le_req (ls_entry ?f e) = sent_req env addr sz OP_READ reg e s" "ls_port ?f = ls_port s"
    using assms(2) by (auto simp: fill_entry_def sent_req_def lsu_defs Let_def)
  let ?s2 = "upd_req e (\<lambda>_. r') (?f\<lparr>ls_port := p'\<rparr>)"
  have sr: "send_req env e ?f = (?s2, IO_REQ_DONE)" unfolding send_req_def f assms(5) by simp
  have h: "handle_req_response env e ?s2 = (handle_req_end env e ?s2, False)"
    using assms(2,3,6) by (simp add: handle_req_response_def response_step_def fill_entry_def lsu_defs Let_def)
  have r: "data_req_aligned env insn addr sz OP_READ False reg reg2 s = (handle_req_end env e ?s2, False)"
    unfolding data_req_aligned_def Let_def using assms(1) sr h by (simp add: get_req_entry_def)
  have "ls_free (handle_req_end env e ?s2) = ls_free s" "ls_port (handle_req_end env e ?s2) = p'"
    "ls_rf (handle_req_end env e ?s2) = set_reg reg (ucast (lr_data r')) (ls_rf s)"
    using assms by (simp_all add: handle_req_end_def fill_entry_def lsu_defs Let_def)
  then show ?thesis using r by blast
qed

text \<open>
  C36: on a memory without latency, which is what every memory is in functional simulation, a load that
  straddles the data port writes only the bytes of its first beat to its register, and its entry is put back on the free list
  still marked as waiting for a second beat.
\<close>

theorem split_load_truncated:
  fixes addr :: "'x::len word"
  assumes "access_ok env addr sz" "can_issue s e" "mem_serves c (ls_port s)" "addr_fits c addr sz" "lv_req env = lsu_mem_req cyc pe"
    "c_latency c = 0" "straddles (lv_width env) addr sz"
  defines "m \<equiv> beat0_size (lv_width env) addr sz"
  shows "\<exists>s1. lsu_load env True insn addr sz reg s = (s1, False) \<and> 0 < m \<and> m < sz \<and>
    ls_rf s1 = set_reg reg (load_value False (bytes_at (mem_byte (ls_port s)) addr m)) (ls_rf s) \<and>
    ls_free s1 = ls_free s \<and> le_msize (ls_entry s1 e) = sz - m"
proof -
  obtain k where k: "lv_width env = 2 ^ k" "k < LENGTH('x)" using assms(1) by (auto simp: access_ok_def)
  have p: "\<not> lv_memcheck env" "prepare_ok (lv_prepare env)" "0 < sz" "sz \<le> 8" "unat addr + sz \<le> 2 ^ LENGTH('x)"
    using assms(1) by (simp_all add: access_ok_def)
  note b = straddle_sizes[OF k assms(7) p(3,5), folded m_def]
  obtain es where f: "ls_free s = e # es" using assms(2) by (cases "ls_free s") (auto simp: can_issue_def)
  let ?s0 = "(l_act L_Misaligned_Account s)\<lparr>ls_issuing_misaligned := True\<rparr>"
  let ?r = "sent_req env addr m OP_READ reg e ?s0" and ?bs = "bytes_at (mem_byte (ls_port s)) addr m"
  have s0: "ls_free ?s0 = e # es" "le_msize (ls_entry ?s0 e) = 0" "le_moffset (ls_entry ?s0 e) = 0" "ls_port ?s0 = ls_port s" "ls_rf ?s0 = ls_rf s"
    using f assms(2) by (simp_all add: l_act_def can_issue_def)
  have r: "lr_addr ?r = addr" "lr_size ?r = m" "lr_opcode ?r = OP_READ" "\<not> lr_mc ?r" "lr_latency ?r = 0" "lr_data ?r = 0" "lr_status ?r = IO_RESP_OK"
    using p(2) by (simp_all add: sent_req_def prepare_ok_def)
  have fit: "addr_fits c addr m" using addr_fits_split[of c addr m "sz - m"] assms(4) b by simp
  obtain p' where q: "lv_req env (ls_port ?s0) ?r = (p', ?r\<lparr>lr_data := from_le ?bs, lr_latency := 0\<rparr>, IO_REQ_DONE)"
    using lsu_mem_read[OF assms(3), of ?r cyc pe] r fit b p(4) assms(5,6) unfolding s0(4) by (auto simp: put_low_zero)
  obtain s1 where s1: "data_req_aligned env insn addr m OP_READ False reg 0 ?s0 = (s1, False)" "ls_free s1 = ls_free s"
      "ls_rf s1 = set_reg reg (ucast (from_le ?bs :: u64)) (ls_rf s)"
    using data_req_aligned_immediate[OF s0(1) p(1) s0(2,3) q, of insn 0] r(3,7) s0(1,5) f by auto
  have "\<exists>s2. data_req_misaligned env insn addr sz OP_READ False reg 0 s = (s2, False) \<and> ls_free s2 = ls_free s1 \<and> ls_rf s2 = ls_rf s1 \<and>
      le_msize (ls_entry s2 e) = sz - m"
    unfolding data_req_misaligned_def beat1_addr_def[symmetric] beat0_size_def[symmetric] m_def[symmetric] Let_def
    using f s1(1) by (simp add: lsu_defs)
  then obtain s2 where s2: "data_req env insn addr sz OP_READ False reg 0 s = (s2, False)" "ls_free s2 = ls_free s1" "ls_rf s2 = ls_rf s1"
      "le_msize (ls_entry s2 e) = sz - m"
    using data_req_aligned_or_split[OF p(1)] assms(7) by auto
  have "lsu_load env True insn addr sz reg s = (s2, False)" using virtual_issues[OF assms(2) s2(1)] by (simp add: lsu_load_def)
  moreover have "ls_rf s2 = set_reg reg (load_value False ?bs) (ls_rf s)"
    unfolding s2(3) s1(3) using b(2) p(4) by (simp add: load_value_def ucast_from_le)
  ultimately show ?thesis using b(1,2) s2(2,4) s1(2) by auto
qed

theorem split_load_truncated_witness:
  "\<exists>s1. lsu_load (lsu_env0 0) True linsn0 6 4 5 (lsu0 0) = (s1, False) \<and> get_reg 5 (ls_rf s1) = 0x0706 \<and>
     0 \<in> set (ls_free s1) \<and> le_msize (ls_entry s1 0) = 2"
proof -
  have "(load_value False [6, 7] :: u32) = 0x0706" by (simp add: load_value_def)
  moreover have "ls_free (lsu0 0) = [0, 1]" by (simp add: lsu0_def)
  ultimately show ?thesis
    using split_load_truncated[OF lsu_demo_ok(1)[of 0] lsu_demo_ok(2-5) _ lsu_demo_ok(6), where insn = linsn0 and reg = 5, of 0]
    by (auto simp: lsu_demo_bytes lsu_demo_ok(7) get_reg_def set_reg_def lsu_cfg_def)
qed

text \<open>
  A second beat that is done at once frees the entry, but the held instruction is not terminated: the execution loop is left
  as it was, and nothing refers to the instruction any more.
\<close>

lemma second_beat_never_commits:
  assumes "le_timestamp (ls_entry s e) \<le> lv_cycles env" "le_msize (ls_entry s e) \<noteq> 0" "\<not> lv_memcheck env"
    "lv_req env (ls_port s) (second_req env (ls_entry s e)) = (p', r', IO_REQ_DONE)" "lr_latency r' = 0"
  shows "ls_x (lsu_task_handle env e s) = ls_x s" "ls_free (lsu_task_handle env e s) = e # ls_free s"
proof -
  have r: "lsu_task_handle env e s = fst (fire_misaligned_second env e s)" using assms(1,2) by (simp add: lsu_task_handle_def Let_def)
  show "ls_x (lsu_task_handle env e s) = ls_x s" "ls_free (lsu_task_handle env e s) = e # ls_free s"
    unfolding r using assms(3-5)
    by (auto simp: fire_misaligned_second_def second_req_def send_req_def response_step_def handle_req_end_def lsu_defs Let_def split: if_splits)
qed

end
