(* ===== verification/Isa_Mem_Props.thy ===== *)
theory Isa_Mem_Props
  imports Isa_Mem Lsu_Memory
begin

text \<open>
  Loads and stores of the instruction set on the memory, through the load-store unit: every handler, in its plain and
  its fast form, full or compressed, has the effect the manual prescribes.
\<close>

section \<open>Loads\<close>

datatype load_kind = LB | LH | LW | LBU | LHU | LWU | LD | C_LW | C_LWSP | C_LD | C_LDSP

fun load_size :: "load_kind \<Rightarrow> nat" where
  "load_size LB = 1" | "load_size LBU = 1" | "load_size LH = 2" | "load_size LHU = 2"
| "load_size LD = 8" | "load_size C_LD = 8" | "load_size C_LDSP = 8" | "load_size _ = 4"

fun load_signed :: "load_kind \<Rightarrow> bool" where
  "load_signed LBU = False" | "load_signed LHU = False" | "load_signed LWU = False" | "load_signed _ = True"

fun load_exec :: "bool \<Rightarrow> load_kind \<Rightarrow> ('x::len word, 'p) mhandler" where
  "load_exec fast LB = (if fast then lb_exec_fast else lb_exec)"
| "load_exec fast LH = (if fast then lh_exec_fast else lh_exec)"
| "load_exec fast LW = (if fast then lw_exec_fast else lw_exec)"
| "load_exec fast LBU = (if fast then lbu_exec_fast else lbu_exec)"
| "load_exec fast LHU = (if fast then lhu_exec_fast else lhu_exec)"
| "load_exec fast LWU = (if fast then lwu_exec_fast else lwu_exec)"
| "load_exec fast LD = (if fast then ld_exec_fast else ld_exec)"
| "load_exec fast C_LW = (if fast then c_lw_exec_fast else c_lw_exec)"
| "load_exec fast C_LWSP = (if fast then c_lwsp_exec_fast else c_lwsp_exec)"
| "load_exec fast C_LD = (if fast then c_ld_exec_fast else c_ld_exec)"
| "load_exec fast C_LDSP = (if fast then c_ldsp_exec_fast else c_ldsp_exec)"

lemmas load_exec_defs = lb_exec_fast_def lb_exec_def lh_exec_fast_def lh_exec_def lw_exec_fast_def lw_exec_def
  lbu_exec_fast_def lbu_exec_def lhu_exec_fast_def lhu_exec_def lwu_exec_fast_def lwu_exec_def ld_exec_fast_def ld_exec_def
  c_lw_exec_fast_def c_lw_exec_def c_lwsp_exec_fast_def c_lwsp_exec_def c_ld_exec_fast_def c_ld_exec_def c_ldsp_exec_fast_def c_ldsp_exec_def

definition mem_ready :: "('x::len word, memory option) menv \<Rightarrow> mem_config \<Rightarrow> 'x word \<Rightarrow> nat \<Rightarrow> nat \<Rightarrow> ('x word, memory option) lsu \<Rightarrow> bool" where
  "mem_ready env c addr sz e s \<longleftrightarrow> me_tr env \<and> \<not> me_wp env \<and> access_ok (me_lsu env) addr sz \<and> can_issue s e \<and> timed_mem c (ls_port s) \<and>
     addr_fits c addr sz \<and> (\<exists>cyc pe. lv_req (me_lsu env) = lsu_mem_req cyc pe) \<and> 8 * sz \<le> LENGTH('x)"

lemma load_perf_plain: "lsu_load_perf False env True = lsu_load env True" "lsu_load_signed_perf False env True = lsu_load_signed env True"
  "lsu_store_perf False env True = lsu_store env True"
  by (simp_all add: fun_eq_iff lsu_load_perf_def lsu_load_signed_perf_def lsu_store_perf_def lsu_load_def lsu_load_signed_def lsu_store_def)

text \<open>The account of a compressed instruction is not seen by the access.\<close>

definition pre_account :: "bool \<Rightarrow> ('w, 'p) lsu \<Rightarrow> ('w, 'p) lsu" where
  "pre_account c s = (if c then rvc_account s else s)"

lemma pre_account_simps [simp]: "ls_rf (pre_account c s) = ls_rf s" "ls_port (pre_account c s) = ls_port s" "mem_addr insn (pre_account c s) = mem_addr insn s"
  "access_effect (pre_account c s) e rf s' = access_effect s e rf s'" "can_issue (pre_account c s) e = can_issue s e"
  "pre_account False s = s" "pre_account True s = rvc_account s"
  by (simp_all add: pre_account_def rvc_account_def l_act_def mem_addr_def access_effect_def can_issue_def)

fun load_compressed :: "load_kind \<Rightarrow> bool" where
  "load_compressed C_LW = True" | "load_compressed C_LWSP = True" | "load_compressed C_LD = True" | "load_compressed C_LDSP = True" | "load_compressed _ = False"

lemma load_exec_op:
  assumes "me_tr env" "\<not> me_wp env" "\<not> lv_memcheck (me_lsu env)"
  shows "load_exec fast k env insn opcode pc s =
    after_lsu insn pc (load_op (load_signed k) (me_lsu env) (linsn_of insn opcode pc) (mem_addr insn s) (load_size k) (out_regs insn 0)
      (pre_account (load_compressed k \<and> \<not> fast) s))"
  using assms pre_account_simps(3)[of insn True s]
  by (cases k; cases fast) (simp_all add: load_exec_defs access_reg_def load_op_def load_perf_plain Let_def)

lemma load_exec_done:
  fixes s :: "('x::len word, memory option) lsu"
  assumes "mem_ready env c (mem_addr insn s) (load_size k) e s"
  defines "addr \<equiv> mem_addr insn s" and "fin \<equiv> after_access (me_lsu env) c (mem_addr insn s) (load_size k) e"
  shows "\<exists>s1. load_exec fast k env insn opcode pc s = (s1, iss_insn_next insn pc) \<and>
    access_effect s e (set_reg (out_regs insn 0) (load_value (load_signed k) (bytes_at (mem_byte (ls_port s)) addr (load_size k))) (ls_rf s)) (fin s1) \<and>
    timed_mem c (ls_port (fin s1)) \<and> mem_byte (ls_port (fin s1)) = (mem_byte (ls_port s) :: 'x word \<Rightarrow> byte)"
proof -
  let ?s0 = "pre_account (load_compressed k \<and> \<not> fast) s"
  have p: "me_tr env" "\<not> me_wp env" "\<not> lv_memcheck (me_lsu env)" using assms(1) by (simp_all add: mem_ready_def access_ok_def)
  obtain cyc pe where r: "access_ok (me_lsu env) addr (load_size k)" "can_issue ?s0 e" "timed_mem c (ls_port ?s0)" "addr_fits c addr (load_size k)"
      "lv_req (me_lsu env) = lsu_mem_req cyc pe" "8 * load_size k \<le> LENGTH('x)"
    using assms(1) unfolding mem_ready_def addr_def[symmetric] pre_account_simps by blast
  obtain s1 where "load_op (load_signed k) (me_lsu env) (linsn_of insn opcode pc) addr (load_size k) (out_regs insn 0) ?s0 = (s1, False)"
      "access_effect s e (set_reg (out_regs insn 0) (load_value (load_signed k) (bytes_at (mem_byte (ls_port s)) addr (load_size k))) (ls_rf s)) (fin s1)"
      "timed_mem c (ls_port (fin s1))" "mem_byte (ls_port (fin s1)) = (mem_byte (ls_port s) :: 'x word \<Rightarrow> byte)"
    using load_done[OF r, of "load_signed k" "linsn_of insn opcode pc" "out_regs insn 0"] unfolding pre_account_simps fin_def addr_def by blast
  then show ?thesis using load_exec_op[OF p, of fast k insn opcode pc s] unfolding addr_def[symmetric] by (simp add: after_lsu_def)
qed


definition menv0 :: "(u32, memory option) menv" where
  "menv0 = \<lparr>me_lsu = lsu_env0 0, me_tr = True, me_wp = False\<rparr>"

definition minsn0 :: "u32 iss_insn" where
  "minsn0 = \<lparr>in_regs = (\<lambda>i. if i = 0 then 0 else 7), out_regs = (\<lambda>_. 5), sim = (\<lambda>_. 6), uim = (\<lambda>_. 0), insn_size = 4, nb_in_reg = 2,
     nb_out_reg = 1, sb_reg_mask = 0x20, sb_out_reg_mask = 0x20, sb_in_vreg_mask = 0, sb_out_vreg_mask = 0\<rparr>"

lemma mem_demo_ready: "mem_ready menv0 (lsu_cfg 2) 6 4 0 (lsu0 2)"
  using lsu_demo_ok(1,2,4,5) lsu_demo_timed by (auto simp: mem_ready_def menv0_def)

lemma mem_demo_addr: "get_reg (in_regs minsn0 0) (ls_rf (lsu0 2)) + sim minsn0 0 = 6" "get_reg (in_regs minsn0 1) (ls_rf (lsu0 2)) = 0x89ABCDEF"
  by (simp_all add: minsn0_def get_reg_def lsu0_def)


section \<open>Stores\<close>

datatype store_kind = SB | SH | SW | SD | C_SW | C_SWSP | C_SD | C_SDSP

fun store_size :: "store_kind \<Rightarrow> nat" where
  "store_size SB = 1" | "store_size SH = 2" | "store_size SD = 8" | "store_size C_SD = 8" | "store_size C_SDSP = 8" | "store_size _ = 4"

fun store_exec :: "bool \<Rightarrow> store_kind \<Rightarrow> ('x::len word, 'p) mhandler" where
  "store_exec fast SB = (if fast then sb_exec_fast else sb_exec)"
| "store_exec fast SH = (if fast then sh_exec_fast else sh_exec)"
| "store_exec fast SW = (if fast then sw_exec_fast else sw_exec)"
| "store_exec fast SD = (if fast then sd_exec_fast else sd_exec)"
| "store_exec fast C_SW = (if fast then c_sw_exec_fast else c_sw_exec)"
| "store_exec fast C_SWSP = (if fast then c_swsp_exec_fast else c_swsp_exec)"
| "store_exec fast C_SD = (if fast then c_sd_exec_fast else c_sd_exec)"
| "store_exec fast C_SDSP = (if fast then c_sdsp_exec_fast else c_sdsp_exec)"

lemmas store_exec_defs = sb_exec_fast_def sb_exec_def sh_exec_fast_def sh_exec_def sw_exec_fast_def sw_exec_def sd_exec_fast_def sd_exec_def
  c_sw_exec_fast_def c_sw_exec_def c_swsp_exec_fast_def c_swsp_exec_def c_sd_exec_fast_def c_sd_exec_def c_sdsp_exec_fast_def c_sdsp_exec_def

fun store_compressed :: "store_kind \<Rightarrow> bool" where
  "store_compressed C_SW = True" | "store_compressed C_SWSP = True" | "store_compressed C_SD = True" | "store_compressed C_SDSP = True" | "store_compressed _ = False"

lemma store_exec_op:
  assumes "me_tr env" "\<not> me_wp env" "\<not> lv_memcheck (me_lsu env)"
  shows "store_exec fast k env insn opcode pc s =
    after_lsu insn pc (lsu_store (me_lsu env) True (linsn_of insn opcode pc) (mem_addr insn s) (store_size k) (in_regs insn 1)
      (pre_account (store_compressed k \<and> \<not> fast) s))"
  using assms pre_account_simps(3)[of insn True s]
  by (cases k; cases fast) (simp_all add: store_exec_defs access_reg_def load_perf_plain Let_def)

text \<open>
  Every store instruction writes to the memory array, at base plus offset, the low bytes of its source register in little-endian order, and
  no other byte; the registers stay.
\<close>

theorem store_exec_spec:
  fixes s :: "('x::len word, memory option) lsu"
  assumes "mem_ready env c (get_reg (in_regs insn 0) (ls_rf s) + sim insn 0) (store_size k) e s"
    and "addr = get_reg (in_regs insn 0) (ls_rf s) + sim insn 0" and "sz = store_size k"
  shows "\<exists>s1. store_exec fast k env insn opcode pc s = (s1, pc + of_nat (insn_size insn)) \<and>
    access_effect s e (ls_rf s) (after_access (me_lsu env) c addr sz e s1) \<and>
    mem_byte (ls_port (after_access (me_lsu env) c addr sz e s1)) =
      write_at addr (to_le sz (get_reg (in_regs insn 1) (ls_rf s))) (mem_byte (ls_port s) :: 'x word \<Rightarrow> byte)"
proof -
  let ?s0 = "pre_account (store_compressed k \<and> \<not> fast) s"
  have p: "me_tr env" "\<not> me_wp env" "\<not> lv_memcheck (me_lsu env)" using assms(1) by (simp_all add: mem_ready_def access_ok_def)
  obtain cyc pe where r: "access_ok (me_lsu env) addr sz" "can_issue ?s0 e" "timed_mem c (ls_port ?s0)" "addr_fits c addr sz"
      "lv_req (me_lsu env) = lsu_mem_req cyc pe" "8 * sz \<le> LENGTH('x)"
    using assms(1) unfolding mem_ready_def assms(2,3)[symmetric] pre_account_simps by blast
  have le: "to_le sz (ucast v :: u64) = to_le sz v" for v :: "'x word"
    by (rule nth_equalityI) (use r(4,6) in \<open>auto intro!: bit_word_eqI simp: bit_ucast_iff bit_drop_bit_eq addr_fits_def\<close>)
  obtain s1 where "lsu_store (me_lsu env) True (linsn_of insn opcode pc) addr sz (in_regs insn 1) ?s0 = (s1, False)"
      "access_effect s e (ls_rf s) (after_access (me_lsu env) c addr sz e s1)"
      "mem_byte (ls_port (after_access (me_lsu env) c addr sz e s1)) =
        write_at addr (to_le sz (get_reg (in_regs insn 1) (ls_rf s))) (mem_byte (ls_port s) :: 'x word \<Rightarrow> byte)"
    using store_done[OF r(1-5), of "linsn_of insn opcode pc" "in_regs insn 1"] unfolding pre_account_simps le by blast
  then show ?thesis using store_exec_op[OF p, of fast k insn opcode pc s] assms(2,3) by (simp add: after_lsu_def mem_addr_def iss_insn_next_def)
qed

theorem store_exec_spec_witness:
  "\<exists>s1. store_exec True SW menv0 minsn0 0 0x100 (lsu0 2) = (s1, 0x104) \<and>
     bytes_at (mem_byte (ls_port (after_access (lsu_env0 0) (lsu_cfg 2) 6 4 0 s1))) (6 :: u32) 4 = [0xEF, 0xCD, 0xAB, 0x89]"
proof -
  have "to_le 4 (0x89ABCDEF :: u32) = [0xEF, 0xCD, 0xAB, 0x89]" by code_simp
  then have v: "bytes_at (write_at (6 :: u32) (to_le 4 (0x89ABCDEF :: u32)) f) 6 4 = [0xEF, 0xCD, 0xAB, 0x89]" for f
    using bytes_at_write_at[where 'x = 32, of "to_le 4 (0x89ABCDEF :: u32)" 4 6 f] by simp
  have "mem_ready menv0 (lsu_cfg 2) (get_reg (in_regs minsn0 0) (ls_rf (lsu0 2)) + sim minsn0 0) (store_size SW) 0 (lsu0 2)"
    unfolding mem_demo_addr using mem_demo_ready by simp
  from store_exec_spec[OF this, of 6 4 True 0 "0x100"] obtain s1 where
    "store_exec True SW menv0 minsn0 0 0x100 (lsu0 2) = (s1, 0x100 + of_nat (insn_size minsn0))"
    "mem_byte (ls_port (after_access (lsu_env0 0) (lsu_cfg 2) 6 4 0 s1)) = write_at 6 (to_le 4 (0x89ABCDEF :: u32)) (mem_byte (ls_port (lsu0 2)) :: u32 \<Rightarrow> byte)"
    using mem_demo_addr by (auto simp: menv0_def)
  then show ?thesis using v by (auto simp: minsn0_def)
qed

end
