(* ===== verification/Isa_Amo.thy ===== *)
theory Isa_Amo
  imports Isa_Mem_Props Memory_Atomics
begin

text \<open>
  The atomic memory operations of the instruction set on the memory, through the load-store unit: the handlers of \<^verbatim>\<open>rv32a.hpp\<close>
  and \<^verbatim>\<open>rv64a.hpp\<close>, against the operations of the manual at the width of the operand.
\<close>

section \<open>An atomic request\<close>

lemma lsu_mem_amo:
  fixes r :: "'x::len word lreq" and v :: "'a::len word"
  assumes "mem_serves c p" "addr_fits c (lr_addr r) (lr_size r)" "0 < lr_size r" "lr_size r \<le> 8" "\<not> lr_mc r" "c_atomics c"
    "LENGTH('a) = 8 * lr_size r"
    "amo_spec (lr_opcode r) (from_le (bytes_at (mem_byte p) (lr_addr r) (lr_size r)) :: 'a word) (ucast (lr_data r)) = Some v"
  shows "\<exists>p' d2. lsu_mem_req cyc pe p r = (p', r\<lparr>lr_data2 := d2, lr_latency := lr_latency r + c_latency c\<rparr>, IO_REQ_DONE) \<and>
    to_le (lr_size r) d2 = bytes_at (mem_byte p) (lr_addr r) (lr_size r) \<and> mem_serves c p' \<and>
    mem_byte p' = write_at (lr_addr r) (to_le (lr_size r) v) (mem_byte p :: 'x word \<Rightarrow> byte)"
proof -
  obtain m where m: "p = Some m" "mem_wf m" "cfg m = c" "\<not> (c_memcheck c \<and> memcheck_enabled m)"
    using assms(1) by (auto simp: mem_serves_def)
  let ?q = "lsu_io_req r" and ?a = "lr_addr r" and ?n = "lr_size r" and ?old = "bytes_at (mem_byte p) (lr_addr r) (lr_size r)"
  note q = lsu_io_req_in_range[OF assms(1)[unfolded m(1)] assms(2-4)]
  obtain m2 where m2: "mem_core m2 = mem_core m"
    "mem_req cyc pe m (lsu_heap r) ?q = mem_dispatch m2 (lsu_heap r) ?q (?q\<lparr>r_latency := r_latency ?q + c_latency c\<rparr>) (mem_off m ?q)"
    using mem_req_plain[OF m(2) q(1,2)] m(3,4) by blast
  note s2 = mem_serves_core[OF assms(1)[unfolded m(1)] m2(1)]
  have c2: "mem_wf m2" "cfg m2 = c" using s2(1) by (auto simp: mem_serves_def)
  have len: "length (mem_data m) = unat (c_size c)" using m(2,3) by (simp add: mem_wf_def)
  have rd: "arr_read (mem_data m2) (unat (mem_off m ?q)) (unat (r_size ?q)) = Some ?old"
    unfolding q(3,4) s2(2) using mem_byte_bytes[OF assms(2) len] assms(2) len by (simp add: arr_read_def addr_fits_def m(1))
  have opnd: "from_le (heap_read (lsu_heap r) 8 (unat (r_size ?q))) = (ucast (lr_data r) :: 'a word)"
  proof -
    have "from_le (to_le ?n (lr_data r)) = (from_le (to_le ?n (ucast (lr_data r) :: 'a word)) :: 'a word)"
      using to_le_ucast[where 'a = 'a and 'b = 64, of ?n "lr_data r"] assms(4,7) by simp
    also have "\<dots> = ucast (lr_data r)" using assms(7) by (intro from_le_to_le_full) simp
    finally show ?thesis unfolding q(4) lsu_heap_data[OF assms(4)] .
  qed
  have b2: "unat (mem_off m ?q) + unat (r_size ?q) \<le> unat (c_size (cfg m2))" using q(3,4) c2 assms(2) by (simp add: addr_fits_def)
  have szq: "r_size ?q \<noteq> 0" "r_size ?q \<le> 8" using q(4) assms(3,4) by (auto simp: word_le_nat_alt simp flip: unat_gt_0)
  obtain md where md: "handle_atomic m2 (lsu_heap r) (mem_off m ?q) (r_size ?q) 8 16 (lr_opcode r) 0 =
      Some (m2\<lparr>mem_data := md\<rparr>, heap_write (lsu_heap r) 16 ?old)" "arr_write (mem_data m2) (unat (mem_off m ?q)) (to_le (unat (r_size ?q)) v) = Some md"
    using handle_atomic_amo[where 'a = 'a, OF c2(1) b2 szq _ s2(3) _ rd, of 8 "lr_opcode r" "lsu_heap r" v 16 0] assms(7,8) opnd q(4) by auto
  have op: "lr_opcode r \<notin> {OP_READ, OP_WRITE}" using assms(8) by (cases "lr_opcode r") auto
  let ?h = "heap_write (lsu_heap r) 16 ?old"
  have "mem_req cyc pe m (lsu_heap r) ?q = Some (m2\<lparr>mem_data := md\<rparr>, ?h, ?q\<lparr>r_latency := r_latency ?q + c_latency c\<rparr>, IO_REQ_DONE)"
    unfolding m2(2) using md(1) op c2(2) assms(6) by (cases "lr_opcode r") (simp_all add: mem_dispatch_def lsu_io_req_def)
  then have e: "lsu_mem_req cyc pe p r = (Some (m2\<lparr>mem_data := md\<rparr>), r\<lparr>lr_data2 := from_le (heap_read ?h 16 8),
      lr_latency := lr_latency r + c_latency c\<rparr>, IO_REQ_DONE)"
    using assms(4) by (simp add: lsu_mem_req_def m(1) heap_read_write_other lsu_heap_bufs from_le_to_le_full lsu_io_req_def)
  have d2: "to_le ?n (from_le (heap_read ?h 16 8) :: u64) = ?old"
  proof -
    have "to_le 8 (from_le (heap_read ?h 16 8) :: u64) = heap_read ?h 16 8" by (rule to_le_from_le) simp_all
    then have "to_le ?n (from_le (heap_read ?h 16 8) :: u64) = take ?n (heap_read ?h 16 8)" using to_le_take[OF assms(4)] by metis
    also have "\<dots> = heap_read ?h 16 ?n" by (rule heap_read_take[OF assms(4), symmetric])
    finally show ?thesis by (simp add: heap_read_write_same)
  qed
  have sv: "mem_serves c (Some (m2\<lparr>mem_data := md\<rparr>))" using s2(1) length_arr_write[OF md(2)] by (auto simp: mem_serves_def mem_wf_def)
  have "mem_byte (Some (m2\<lparr>mem_data := md\<rparr>)) b = write_at ?a (to_le ?n v) (mem_byte p) b" for b :: "'x word"
    using write_at_list[OF assms(2)[unfolded addr_fits_def, THEN conjunct2, THEN conjunct2, THEN conjunct1], of "to_le ?n v" "mem_byte p" b]
      nth_arr_write[OF md(2), of "unat b"] length_arr_write[OF md(2)] len s2(2) assms(2) m(1) q(3,4)
    by (auto simp: mem_byte_def addr_fits_def)
  then show ?thesis using e d2 sv by blast
qed

section \<open>An atomic access\<close>

lemma data_req_aligned_reg2:
  assumes "ls_free s = e # es" "\<not> lv_memcheck env"
    "lv_req env (ls_port s) (sent_req env addr sz opc reg e s) = (p', r', IO_REQ_DONE)" "0 < lr_latency r'"
  shows "le_reg2 (ls_entry (fst (data_req_aligned env insn addr sz opc signd reg reg2 s)) e) = reg2"
proof -
  let ?s1 = "s\<lparr>ls_granted_entry := None, ls_nb_pending := ls_nb_pending s + 1, ls_free := es\<rparr>"
  let ?f = "fill_entry env insn addr sz opc signd reg reg2 e ?s1"
  have f: "le_req (ls_entry ?f e) = sent_req env addr sz opc reg e s" "ls_port ?f = ls_port s" "le_reg2 (ls_entry ?f e) = reg2"
    using assms(2) by (auto simp: fill_entry_def sent_req_def lsu_defs Let_def)
  have sr: "send_req env e ?f = (upd_req e (\<lambda>_. r') (?f\<lparr>ls_port := p'\<rparr>), IO_REQ_DONE)"
    unfolding send_req_def f assms(3) by simp
  let ?s2 = "upd_req e (\<lambda>_. r') (?f\<lparr>ls_port := p'\<rparr>)"
  let ?s3 = "on_x (enqueue_task (T_Unit e)) (upd_entry e (\<lambda>en. en\<lparr>le_timestamp := lv_cycles env + lr_latency (le_req en)\<rparr>) ?s2)"
  have h: "handle_req_response env e ?s2 = (?s3, True)"
    using assms(4) by (simp add: handle_req_response_def response_step_def upd_req_def upd_entry_def Let_def)
  have "data_req_aligned env insn addr sz opc signd reg reg2 s = (hold_entry insn e ?s3, False)"
    unfolding data_req_aligned_def Let_def using assms(1) sr h by (simp add: get_req_entry_def)
  then show ?thesis using f(3) by (simp add: lsu_defs split: prod.split)
qed

lemma task_retires_atomic:
  assumes "le_timestamp (ls_entry s e) \<le> lv_cycles env" "le_msize (ls_entry s e) = 0"
    "lr_status (le_req (ls_entry s e)) = IO_RESP_OK" "\<not> lv_memcheck env"
    "lr_opcode (le_req (ls_entry s e)) \<notin> {OP_READ, OP_WRITE}" "le_is_signed (ls_entry s e)"
  shows "ls_free (lsu_task_handle env e s) = e # ls_free s" "ls_nb_pending (lsu_task_handle env e s) = ls_nb_pending s - 1"
    "ls_port (lsu_task_handle env e s) = ls_port s" "le_msize (ls_entry (lsu_task_handle env e s) e) = 0"
    "le_moffset (ls_entry (lsu_task_handle env e s) e) = 0" "ls_io_req_denied (lsu_task_handle env e s) = ls_io_req_denied s"
    "ls_rf (lsu_task_handle env e s) = set_reg (le_reg2 (ls_entry s e))
       (iss_get_signed_value (ucast (lr_data2 (le_req (ls_entry s e)))) (lr_size (le_req (ls_entry s e)) * 8)) (ls_rf s)"
  using assms by (auto simp: lsu_task_handle_def retire_entry_def handle_req_end_def lsu_defs Let_def)

lemma atomic_done:
  fixes addr :: "'x::len word" and v :: "'a::len word"
  assumes "access_ok env addr sz" "can_issue s e" "timed_mem c (ls_port s)" "addr_fits c addr sz" "lv_req env = lsu_mem_req cyc pe"
    "8 * sz \<le> LENGTH('x)" "\<not> straddles (lv_width env) addr sz" "c_atomics c" "LENGTH('a) = 8 * sz"
    "amo_spec opc (from_le (bytes_at (mem_byte (ls_port s)) addr sz) :: 'a word) (ucast (get_reg reg (ls_rf s))) = Some v"
  shows "\<exists>s1. lsu_atomic env True insn addr sz reg reg2 opc s = (s1, False) \<and>
    access_effect s e (set_reg reg2 (load_value True (bytes_at (mem_byte (ls_port s)) addr sz)) (ls_rf s)) (after_access env c addr sz e s1) \<and>
    mem_byte (ls_port (after_access env c addr sz e s1)) = write_at addr (to_le sz v) (mem_byte (ls_port s) :: 'x word \<Rightarrow> byte)"
proof -
  have p: "\<not> lv_memcheck env" "prepare_ok (lv_prepare env)" "0 < sz" "sz \<le> 8" using assms(1) by (simp_all add: access_ok_def)
  have l: "mem_serves c (ls_port s)" "max 1 (c_latency c) = c_latency c" "0 < c_latency c" using assms(3) by (simp_all add: timed_mem_def)
  obtain es where f: "ls_free s = e # es" using assms(2) by (cases "ls_free s") (auto simp: can_issue_def)
  let ?r = "sent_req env addr sz opc reg e s" and ?old = "bytes_at (mem_byte (ls_port s)) addr sz"
  have op: "opc \<notin> {OP_READ, OP_WRITE}" using assms(10) by (cases opc) auto
  have r: "lr_addr ?r = addr" "lr_size ?r = sz" "lr_opcode ?r = opc" "\<not> lr_mc ?r" "lr_latency ?r = 0"
      "lr_data ?r = ucast (get_reg reg (ls_rf s))" "lr_status ?r = IO_RESP_OK"
    using p(2) op by (simp_all add: sent_req_def prepare_ok_def)
  have u: "ucast (ucast w :: u64) = (ucast w :: 'a word)" for w :: "'x word"
    using assms(9,6) p(4) by (intro bit_word_eqI) (auto simp: bit_ucast_iff)
  obtain p' d2 where q: "lv_req env (ls_port s) ?r = (p', ?r\<lparr>lr_data2 := d2, lr_latency := c_latency c\<rparr>, IO_REQ_DONE)" "to_le sz d2 = ?old"
      "mem_byte p' = write_at addr (to_le sz v) (mem_byte (ls_port s) :: 'x word \<Rightarrow> byte)"
    using lsu_mem_amo[of c "ls_port s" ?r v cyc pe] l(1) assms(4,5,8-10) p(3,4) r u by auto
  let ?r' = "?r\<lparr>lr_data2 := d2, lr_latency := c_latency c\<rparr>"
  have lat: "0 < lr_latency ?r'" using l(3) by simp
  obtain s1 where s1: "data_req_aligned env insn addr sz opc True reg reg2 s = (s1, False)" "deferred env s e True reg p' ?r' s1"
    using data_req_aligned_deferred[OF f p(1) q(1) lat] by blast
  have g2: "le_reg2 (ls_entry s1 e) = reg2" using data_req_aligned_reg2[OF f p(1) q(1) lat, of insn True reg2] s1(1) by simp
  let ?env = "env\<lparr>lv_cycles := lv_cycles env + c_latency c\<rparr>"
  have d: "ls_free s1 = es" "ls_nb_pending s1 = ls_nb_pending s + 1" "ls_rf s1 = ls_rf s" "ls_port s1 = p'" "\<not> ls_io_req_denied s1"
      "le_req (ls_entry s1 e) = ?r'" "le_is_signed (ls_entry s1 e)" "le_timestamp (ls_entry s1 e) \<le> lv_cycles ?env" "le_msize (ls_entry s1 e) = 0" "\<not> lv_memcheck ?env"
    using s1(2) assms(2) f p(1) by (simp_all add: deferred_def can_issue_def)
  have o: "lr_status (le_req (ls_entry s1 e)) = IO_RESP_OK" "lr_opcode (le_req (ls_entry s1 e)) \<notin> {OP_READ, OP_WRITE}" using d(6) r(3,7) op by simp_all
  note t = task_retires_atomic[OF d(8,9) o(1) d(10) o(2) d(7)]
  have val: "iss_get_signed_value (ucast d2 :: 'x word) (sz * 8) = load_value True ?old"
  proof -
    have "from_le ?old = take_bit (8 * sz) (ucast d2 :: 'x word)"
      unfolding q(2)[symmetric] using assms(6) by (intro bit_word_eqI) (auto simp: bit_from_le bit_take_bit_iff bit_ucast_iff bit_drop_bit_eq div_less_iff_less_mult mult.commute)
    moreover have "signed_take_bit (8 * sz - 1) (take_bit (8 * sz) w) = signed_take_bit (8 * sz - 1) w" for w :: "'x word"
      by (rule bit_word_eqI) (use p(3) in \<open>auto simp: bit_signed_take_bit_iff bit_take_bit_iff min_def\<close>)
    ultimately show ?thesis using p(3) assms(6) by (simp add: load_value_def iss_get_signed_value_extends mult.commute)
  qed
  have "data_req env insn addr sz opc True reg reg2 s = (s1, False)" using data_req_aligned_or_split[OF p(1)] assms(7) s1(1) by simp
  then have i: "lsu_atomic env True insn addr sz reg reg2 opc s = (s1, False)" using virtual_issues[OF assms(2)] by (simp add: lsu_atomic_def)
  have c: "after_access env c addr sz e s1 = lsu_task_handle ?env e s1" using assms(7) l(2) by (simp add: complete_def)
  have "access_effect s e (set_reg reg2 (load_value True ?old) (ls_rf s)) (after_access env c addr sz e s1)"
    unfolding c using t d(1-6) g2 r(2) f val by (simp add: access_effect_def can_issue_def)
  moreover have "ls_port (after_access env c addr sz e s1) = p'" unfolding c using t(3) d(4) by simp
  ultimately show ?thesis using i q(3) by auto
qed

section \<open>The handlers\<close>

fun amo_w_exec :: "io_opcode \<Rightarrow> ('x::len word, 'p) mhandler" where
  "amo_w_exec OP_SWAP = amoswap_w_exec" | "amo_w_exec OP_ADD = amoadd_w_exec" | "amo_w_exec OP_XOR = amoxor_w_exec"
| "amo_w_exec OP_AND = amoand_w_exec" | "amo_w_exec OP_OR = amoor_w_exec" | "amo_w_exec OP_MIN = amomin_w_exec"
| "amo_w_exec OP_MAX = amomax_w_exec" | "amo_w_exec OP_MINU = amominu_w_exec" | "amo_w_exec OP_MAXU = amomaxu_w_exec"
| "amo_w_exec OP_LR = lr_w_exec" | "amo_w_exec OP_SC = sc_w_exec" | "amo_w_exec OP_READ = lw_exec" | "amo_w_exec OP_WRITE = sw_exec"

fun amo_d_exec :: "io_opcode \<Rightarrow> ('x::len word, 'p) mhandler" where
  "amo_d_exec OP_SWAP = amoswap_d_exec" | "amo_d_exec OP_ADD = amoadd_d_exec" | "amo_d_exec OP_XOR = amoxor_d_exec"
| "amo_d_exec OP_AND = amoand_d_exec" | "amo_d_exec OP_OR = amoor_d_exec" | "amo_d_exec OP_MIN = amomin_d_exec"
| "amo_d_exec OP_MAX = amomax_d_exec" | "amo_d_exec OP_MINU = amominu_d_exec" | "amo_d_exec OP_MAXU = amomaxu_d_exec"
| "amo_d_exec OP_LR = lr_d_exec" | "amo_d_exec OP_SC = sc_d_exec" | "amo_d_exec OP_READ = ld_exec" | "amo_d_exec OP_WRITE = sd_exec"

lemmas amo_exec_defs = amoswap_w_exec_def amoadd_w_exec_def amoxor_w_exec_def amoand_w_exec_def amoor_w_exec_def amomin_w_exec_def
  amomax_w_exec_def amominu_w_exec_def amomaxu_w_exec_def amoswap_d_exec_def amoadd_d_exec_def amoxor_d_exec_def amoand_d_exec_def
  amoor_d_exec_def amomin_d_exec_def amomax_d_exec_def amominu_d_exec_def amomaxu_d_exec_def

definition amo_exec :: "io_opcode \<Rightarrow> nat \<Rightarrow> ('x::len word, 'p) mhandler" where
  "amo_exec opc sz = (if sz = 4 then amo_w_exec opc else amo_d_exec opc)"

lemma amo_exec_op:
  assumes "me_tr env" "\<not> lv_memcheck (me_lsu env)" "amo_spec opc a b = Some v" "sz = 4 \<or> sz = 8"
  shows "amo_exec opc sz env insn opcode pc s =
    after_lsu insn pc (lsu_atomic (me_lsu env) True (linsn_of insn opcode pc) (get_reg (in_regs insn 0) (ls_rf s)) sz (in_regs insn 1) (out_regs insn 0) opc s)"
  using assms by (cases opc) (auto simp: amo_exec_def amo_exec_defs access_reg_def Let_def)



section \<open>Atomic operations that are split\<close>

text \<open>
  The data port has 4 bytes unless the core is configured otherwise, so that every \<^verbatim>\<open>amo*.d\<close> crosses it and is split: each half is
  an atomic operation of its own, both with the low half of the source register, and the destination is left with the upper half of the
  old value only. Here 1 is added to \<open>0x0F0E0D0C0B0A0908\<close>: both halves are incremented.
\<close>

definition menv64 :: "(u64, memory option) menv" where
  "menv64 = \<lparr>me_lsu = \<lparr>lv_cycles = 0, lv_width = 4, lv_memcheck = False, lv_prepare = (\<lambda>r. r\<lparr>lr_latency := 0, lr_mc := False\<rparr>),
     lv_req = lsu_mem_req 0 False, lv_out_mask = (\<lambda>_. 0x20)\<rparr>, me_tr = True, me_wp = False\<rparr>"

definition minsn64 :: "u64 iss_insn" where
  "minsn64 = \<lparr>in_regs = (\<lambda>i. if i = 0 then 6 else 7), out_regs = (\<lambda>_. 5), sim = (\<lambda>_. 0), uim = (\<lambda>_. 0), insn_size = 4, nb_in_reg = 2,
     nb_out_reg = 1, sb_reg_mask = 0x20, sb_out_reg_mask = 0x20, sb_in_vreg_mask = 0, sb_out_vreg_mask = 0\<rparr>"

definition exec64 :: "u64 exec" where
  "exec64 = \<lparr>xc_current_insn = 0, xc_bootaddr = 0, xc_stall_cycles = 0, xc_pending_flush = False, xc_clock_active = False,
     xc_skip_irq_check = False, xc_has_exception = False, xc_exception_pc = 0, xc_irq_locked = 0, xc_cache_sync = False,
     xc_is_insn_stalled = False, xc_is_insn_hold = False, xc_tasks = [], xc_instr_disabled = False, xc_retained = 0,
     xc_fetch_enable = True, xc_halted = False, xc_step_mode = False, xc_debug_mode = False, xc_wfi = False, xc_wfi_entry = 0,
     xc_full_mode = True, xc_free = [], xc_fresh = 0, xc_entry = (\<lambda>_. \<lparr>ie_addr = 0, ie_opcode = 0, ie_ready = False\<rparr>),
     xc_queue = [], xc_unblock_mask = 0, xc_unblock_timestamp = 0, xc_unblock_valid = False, xc_unblock_pending = False,
     xc_sb = sb_reset, xc_log = []\<rparr>"

definition lsu64 :: "(u64, memory option) lsu" where
  "lsu64 = \<lparr>ls_free = [0, 1], ls_entry = (\<lambda>_. \<lparr>le_req = \<lparr>lr_addr = 0, lr_size = 0, lr_opcode = OP_READ, lr_data = 0, lr_data2 = 0, lr_latency = 0,
       lr_status = IO_RESP_OK, lr_mc = False, lr_mc_data = [], lr_mc_id = 0\<rparr>, le_is_signed = False, le_reg = 0, le_reg2 = 0, le_pc = 0,
       le_insn_entry = 0, le_timestamp = 0, le_msize = 0, le_maddr = 0, le_moffset = 0\<rparr>),
     ls_io_req_denied = False, ls_denied_entry = None, ls_granted_entry = None, ls_pending_fence = False, ls_nb_pending = 0, ls_next_retire = 0,
     ls_issuing_misaligned = False, ls_aliases = [], ls_port = Some (lsu_demo_mem 2),
     ls_rf = \<lparr>rf_regs = (\<lambda>i. if i = 6 then 8 else if i = 7 then 1 else 0), rf_mc = (\<lambda>_. 0), rf_mc_id = (\<lambda>_. 0), rf_fault = None,
       rf_pending_addr_buffer_id = 0, rf_mc_enabled = False\<rparr>, ls_x = exec64, ls_log = []\<rparr>"

theorem amo_split_in_two:
  "straddles (lv_width (me_lsu menv64)) (8 :: u64) 8 \<and>
   (let s = complete (me_lsu menv64) 2 0 True (fst (amo_exec OP_ADD 8 menv64 minsn64 0 0x100 lsu64))
    in from_le (bytes_at (mem_byte (ls_port lsu64)) (8 :: u64) 8) = (0x0F0E0D0C0B0A0908 :: u64) \<and>
       from_le (bytes_at (mem_byte (ls_port s)) (8 :: u64) 8) = (0x0F0E0D0D0B0A0909 :: u64) \<and>
       get_reg 5 (ls_rf s) = 0x0F0E0D0C)"
  by code_simp

end
