(* ===== verification/Router_V2.thy ===== *)
theory Router_V2
  imports IO_V2 "HOL-Library.Signed_Division" "HOL-Library.Multiset"
begin

text \<open>
  Two address-decoding routers, \<^verbatim>\<open>src/models/interco/router/router_v2_bandwidth.cpp\<close> and \<^verbatim>\<open>router_v2_untimed.cpp\<close>. The bandwidth router annotates
  requests with latency and duration from watermarks of its ports, absorbs denials of its outputs into queues of its inputs and
  drains them on a retry. It finds the way back of a response through an in-flight record in the field \<^verbatim>\<open>initiator\<close> of
  the request; the untimed router uses a map.

  Requests and in-flight records are objects, shared between components: they live in \<open>world\<close>. The address map
  (\<^verbatim>\<open>vp::MappingTree\<close>) belongs to the engine and is an argument, \<open>lookup\<close>; so are the components behind the outputs,
  with their state \<open>'d\<close>. Masters submit requests from their own events, not from inside a response.
\<close>

section \<open>State\<close>

record rreq = io_req +
  r_duration :: int
  r_is_last :: bool

record ifl =
  if_input :: "nat \<times> nat"
  if_saved :: initiator

record world =
  w_req :: "req_ref \<Rightarrow> rreq"
  w_ifl :: "nat \<Rightarrow> ifl"
  w_next :: nat

record mapping =
  mp_base :: u64
  mp_size :: u64
  mp_remove :: u64
  mp_add :: u64
  mp_latency :: int

record router_config =
  rc_bandwidth :: int
  rc_latency :: int
  rc_error :: "nat option"
  rc_maps :: "mapping list"
  rc_bound :: "nat \<Rightarrow> bool"
  rc_inputs :: nat

record out_port =
  op_next :: int
  op_stalled :: bool
  op_last_logged :: int
  op_nb_logged :: nat

record in_port =
  ip_next :: int
  ip_queue :: "(req_ref \<times> nat) list"

record router =
  rt_id :: nat
  rt_in :: "nat \<Rightarrow> in_port"
  rt_out :: "nat \<Rightarrow> out_port"
  rt_free :: "nat list"
  rt_reads :: nat
  rt_writes :: nat
  rt_bytes_read :: nat
  rt_bytes_written :: nat
  rt_errors :: nat

type_synonym 'd rdown = "nat \<Rightarrow> 'd \<Rightarrow> world \<Rightarrow> req_ref \<Rightarrow> 'd \<times> world \<times> io_req_status"

type_synonym rlookup = "u64 \<Rightarrow> u64 \<Rightarrow> bool \<Rightarrow> nat option"

text \<open>
  A response on an input: the request with the initiator it has then, and whether it completes the request. An input is named by its
  router and its index, because an in-flight record points to an \<^verbatim>\<open>InputPort\<close> of any router.
\<close>

record rresp =
  rs_input :: "nat \<times> nat"
  rs_req :: req_ref
  rs_initiator :: initiator
  rs_last :: bool

definition upd_rreq :: "req_ref \<Rightarrow> (rreq \<Rightarrow> rreq) \<Rightarrow> world \<Rightarrow> world" where
  "upd_rreq r f w = w\<lparr>w_req := (w_req w)(r := f (w_req w r))\<rparr>"

definition upd_in :: "nat \<Rightarrow> (in_port \<Rightarrow> in_port) \<Rightarrow> router \<Rightarrow> router" where
  "upd_in p f rt = rt\<lparr>rt_in := (rt_in rt)(p := f (rt_in rt p))\<rparr>"

definition upd_out :: "nat \<Rightarrow> (out_port \<Rightarrow> out_port) \<Rightarrow> router \<Rightarrow> router" where
  "upd_out p f rt = rt\<lparr>rt_out := (rt_out rt)(p := f (rt_out rt p))\<rparr>"

section \<open>The bandwidth router\<close>

definition rb_log_access :: "int \<Rightarrow> out_port \<Rightarrow> out_port" where
  "rb_log_access cycles po =
     (let nb = (if cycles > op_last_logged po then 0 else op_nb_logged po)
      in po\<lparr>op_nb_logged := Suc nb, op_last_logged := cycles\<rparr>)"

definition alloc_inflight :: "router \<Rightarrow> world \<Rightarrow> router \<times> world \<times> nat" where
  "alloc_inflight rt w =
     (case rt_free rt of k # ks \<Rightarrow> (rt\<lparr>rt_free := ks\<rparr>, w, k) | [] \<Rightarrow> (rt, w\<lparr>w_next := Suc (w_next w)\<rparr>, w_next w))"

definition free_inflight :: "nat \<Rightarrow> router \<Rightarrow> router" where
  "free_inflight k rt = rt\<lparr>rt_free := k # rt_free rt\<rparr>"

definition burst_duration :: "router_config \<Rightarrow> u64 \<Rightarrow> int" where
  "burst_duration c sz = (if rc_bandwidth c > 0 then (sint sz + rc_bandwidth c - 1) sdiv rc_bandwidth c else 0)"

definition rb_wait :: "router \<Rightarrow> nat \<Rightarrow> nat \<Rightarrow> int \<Rightarrow> int" where
  "rb_wait rt p po now = max (max 0 (ip_next (rt_in rt p) - now)) (max 0 (op_next (rt_out rt po) - now))"

text \<open>Address translation, and the annotation of an accepted request with the advance of both watermarks.\<close>

definition rb_translate :: "mapping \<Rightarrow> rreq \<Rightarrow> rreq" where
  "rb_translate m q = q\<lparr>r_addr := r_addr q - mp_remove m + mp_add m\<rparr>"

definition rb_annotate :: "int \<Rightarrow> int \<Rightarrow> rreq \<Rightarrow> rreq" where
  "rb_annotate head dur q = q\<lparr>r_latency := r_latency q + head, r_duration := max (r_duration q) dur\<rparr>"

definition rb_advance :: "nat \<Rightarrow> nat \<Rightarrow> int \<Rightarrow> router \<Rightarrow> router" where
  "rb_advance p po t rt = upd_out po (\<lambda>x. x\<lparr>op_next := t\<rparr>) (upd_in p (\<lambda>x. x\<lparr>ip_next := t\<rparr>) rt)"

definition forward_inline :: "router_config \<Rightarrow> 'd rdown \<Rightarrow> nat \<Rightarrow> req_ref \<Rightarrow> nat \<Rightarrow> int \<Rightarrow> router \<times> 'd \<times> world \<Rightarrow>
    (router \<times> 'd \<times> world) \<times> io_req_status" where
  "forward_inline c down p r po now s =
     (case s of (rt, d, w) \<Rightarrow>
        let m = rc_maps c ! po;
            addr = r_addr (w_req w r);
            wt = rb_wait rt p po now;
            dur = burst_duration c (r_size (w_req w r));
            head = wt + rc_latency c + mp_latency m;
            rt1 = upd_out po (rb_log_access now) rt
        in case down po d (upd_rreq r (rb_translate m) w) r of (d1, w1, st) \<Rightarrow>
          (case st of
             IO_REQ_DONE \<Rightarrow> ((rb_advance p po (now + wt + dur) rt1, d1, upd_rreq r (rb_annotate head dur) w1), IO_REQ_DONE)
           | IO_REQ_GRANTED \<Rightarrow>
               (case alloc_inflight rt1 w1 of (rt2, w2, k) \<Rightarrow>
                  let ini = r_initiator (w_req w2 r);
                      w3 = w2\<lparr>w_ifl := (w_ifl w2)(k := \<lparr>if_input = (rt_id rt, p), if_saved = ini\<rparr>)\<rparr>;
                      w4 = upd_rreq r (rb_annotate head dur) (upd_rreq r (\<lambda>q. q\<lparr>r_initiator := k\<rparr>) w3)
                  in ((rb_advance p po (now + wt + dur) rt2, d1, w4), IO_REQ_GRANTED))
           | IO_REQ_DENIED \<Rightarrow>
               ((upd_out po (\<lambda>x. x\<lparr>op_stalled := True\<rparr>) rt1, d1, upd_rreq r (\<lambda>q. q\<lparr>r_addr := addr\<rparr>) w1), IO_REQ_DENIED)))"

text \<open>Whether the request reaches an output.\<close>

definition route :: "router_config \<Rightarrow> rlookup \<Rightarrow> rreq \<Rightarrow> nat option" where
  "route c lookup q =
     (case lookup (r_addr q) (r_size q) (r_is_write q) of
        None \<Rightarrow> None
      | Some po \<Rightarrow>
          let m = rc_maps c ! po;
              straddles = (mp_size m \<noteq> 0 \<and> r_addr q + r_size q > mp_base m + mp_size m)
          in if rc_error c = Some po \<or> straddles \<or> \<not> rc_bound c po then None else Some po)"

definition rb_count :: "rreq \<Rightarrow> router \<Rightarrow> router" where
  "rb_count q rt =
     (if r_is_write q then rt\<lparr>rt_writes := Suc (rt_writes rt), rt_bytes_written := rt_bytes_written rt + unat (r_size q)\<rparr>
      else rt\<lparr>rt_reads := Suc (rt_reads rt), rt_bytes_read := rt_bytes_read rt + unat (r_size q)\<rparr>)"

definition rb_enqueue :: "nat \<Rightarrow> req_ref \<Rightarrow> nat \<Rightarrow> router \<Rightarrow> router" where
  "rb_enqueue p r po = upd_in p (\<lambda>x. x\<lparr>ip_queue := ip_queue x @ [(r, po)]\<rparr>)"

definition rb_req_muxed :: "router_config \<Rightarrow> rlookup \<Rightarrow> 'd rdown \<Rightarrow> nat \<Rightarrow> req_ref \<Rightarrow> int \<Rightarrow> router \<times> 'd \<times> world \<Rightarrow>
    (router \<times> 'd \<times> world) \<times> io_req_status" where
  "rb_req_muxed c lookup down p r now s =
     (case s of (rt, d, w) \<Rightarrow>
        case route c lookup (w_req w r) of
          None \<Rightarrow> ((rt\<lparr>rt_errors := Suc (rt_errors rt)\<rparr>, d, upd_rreq r (\<lambda>q. q\<lparr>r_resp_status := IO_RESP_INVALID\<rparr>) w), IO_REQ_DONE)
        | Some po \<Rightarrow>
            let rt1 = rb_count (w_req w r) rt
            in if op_stalled (rt_out rt1 po) then ((rb_enqueue p r po rt1, d, w), IO_REQ_GRANTED)
               else case forward_inline c down p r po now (rt1, d, w) of ((rt2, d2, w2), st) \<Rightarrow>
                 if st = IO_REQ_DENIED then ((rb_enqueue p r po rt2, d2, w2), IO_REQ_GRANTED)
                 else ((rt2, d2, w2), st))"

text \<open>The loop of \<^verbatim>\<open>drain_queue\<close>, on the requests that are left in the queue.\<close>

definition set_queue :: "nat \<Rightarrow> (req_ref \<times> nat) list \<Rightarrow> router \<Rightarrow> router" where
  "set_queue p qs = upd_in p (\<lambda>x. x\<lparr>ip_queue := qs\<rparr>)"

fun rb_drain :: "router_config \<Rightarrow> 'd rdown \<Rightarrow> nat \<Rightarrow> int \<Rightarrow> (req_ref \<times> nat) list \<Rightarrow> router \<times> 'd \<times> world \<Rightarrow>
    (router \<times> 'd \<times> world) \<times> rresp list" where
  "rb_drain c down p now [] s = (s, [])"
| "rb_drain c down p now ((r, po) # qs) s =
     (case s of (rt, d, w) \<Rightarrow>
        if op_stalled (rt_out rt po) then (s, [])
        else case forward_inline c down p r po now (set_queue p qs rt, d, w) of ((rt1, d1, w1), st) \<Rightarrow>
          (case st of
             IO_REQ_DONE \<Rightarrow>
               (case rb_drain c down p now qs (rt1, d1, w1) of (s2, es2) \<Rightarrow>
                  (s2, \<lparr>rs_input = (rt_id rt, p), rs_req = r, rs_initiator = r_initiator (w_req w1 r), rs_last = True\<rparr> # es2))
           | IO_REQ_GRANTED \<Rightarrow> rb_drain c down p now qs (rt1, d1, w1)
           | IO_REQ_DENIED \<Rightarrow> ((set_queue p ((r, po) # qs) rt1, d1, w1), [])))"

definition drain_queue :: "router_config \<Rightarrow> 'd rdown \<Rightarrow> int \<Rightarrow> nat \<Rightarrow> router \<times> 'd \<times> world \<Rightarrow> (router \<times> 'd \<times> world) \<times> rresp list" where
  "drain_queue c down now p s = rb_drain c down p now (ip_queue (rt_in (fst s) p)) s"

definition rb_resp_muxed :: "req_ref \<Rightarrow> router \<Rightarrow> world \<Rightarrow> router \<times> world \<times> rresp" where
  "rb_resp_muxed r rt w =
     (let k = r_initiator (w_req w r);
          input = if_input (w_ifl w k);
          burst_done = r_is_last (w_req w r);
          w1 = upd_rreq r (\<lambda>q. q\<lparr>r_initiator := if_saved (w_ifl w k)\<rparr>) w;
          e = \<lparr>rs_input = input, rs_req = r, rs_initiator = r_initiator (w_req w1 r), rs_last = burst_done\<rparr>
      in if burst_done then (free_inflight k rt, w1, e)
         else (rt, upd_rreq r (\<lambda>q. q\<lparr>r_initiator := k\<rparr>) w1, e))"

fun rb_retry_loop :: "router_config \<Rightarrow> 'd rdown \<Rightarrow> int \<Rightarrow> nat \<Rightarrow> nat list \<Rightarrow> router \<times> 'd \<times> world \<Rightarrow> (router \<times> 'd \<times> world) \<times> rresp list" where
  "rb_retry_loop c down now po [] s = (s, [])"
| "rb_retry_loop c down now po (p # ps) s =
     (case (case ip_queue (rt_in (fst s) p) of
              [] \<Rightarrow> (s, [])
            | (r, po') # _ \<Rightarrow> if po' = po then drain_queue c down now p s else (s, [])) of (s1, es1) \<Rightarrow>
        case rb_retry_loop c down now po ps s1 of (s2, es2) \<Rightarrow> (s2, es1 @ es2))"

definition rb_retry_muxed :: "router_config \<Rightarrow> 'd rdown \<Rightarrow> int \<Rightarrow> nat \<Rightarrow> router \<times> 'd \<times> world \<Rightarrow> (router \<times> 'd \<times> world) \<times> rresp list" where
  "rb_retry_muxed c down now po s =
     (case s of (rt, d, w) \<Rightarrow> rb_retry_loop c down now po [0..<rc_inputs c] (upd_out po (\<lambda>x. x\<lparr>op_stalled := False\<rparr>) rt, d, w))"

section \<open>The untimed router\<close>

record urouter =
  ur_inflight :: "req_ref \<rightharpoonup> nat"
  ur_out :: "nat \<Rightarrow> out_port"

definition ur_req_muxed :: "router_config \<Rightarrow> rlookup \<Rightarrow> 'd rdown \<Rightarrow> nat \<Rightarrow> req_ref \<Rightarrow> int \<Rightarrow> urouter \<times> 'd \<times> world \<Rightarrow>
    (urouter \<times> 'd \<times> world) \<times> io_req_status" where
  "ur_req_muxed c lookup down p r now s =
     (case s of (rt, d, w) \<Rightarrow>
        case route c lookup (w_req w r) of
          None \<Rightarrow> ((rt, d, upd_rreq r (\<lambda>q. q\<lparr>r_resp_status := IO_RESP_INVALID\<rparr>) w), IO_REQ_DONE)
        | Some po \<Rightarrow>
            let addr = r_addr (w_req w r);
                rt1 = rt\<lparr>ur_out := (ur_out rt)(po := rb_log_access now (ur_out rt po))\<rparr>
            in case down po d (upd_rreq r (rb_translate (rc_maps c ! po)) w) r of (d1, w1, st) \<Rightarrow>
              (case st of
                 IO_REQ_DONE \<Rightarrow> ((rt1, d1, w1), IO_REQ_DONE)
               | IO_REQ_GRANTED \<Rightarrow> ((rt1\<lparr>ur_inflight := (ur_inflight rt1)(r \<mapsto> p)\<rparr>, d1, w1), IO_REQ_GRANTED)
               | IO_REQ_DENIED \<Rightarrow> ((rt1, d1, upd_rreq r (\<lambda>q. q\<lparr>r_addr := addr\<rparr>) w1), IO_REQ_DENIED)))"

text \<open>The input the response goes to; \<open>None\<close> is the failed assertion.\<close>

definition ur_resp_muxed :: "req_ref \<Rightarrow> urouter \<Rightarrow> world \<Rightarrow> (urouter \<times> nat) option" where
  "ur_resp_muxed r rt w =
     map_option (\<lambda>p. (if r_is_last (w_req w r) then rt\<lparr>ur_inflight := (ur_inflight rt)(r := None)\<rparr> else rt, p)) (ur_inflight rt r)"

definition ur_retry_muxed :: "router_config \<Rightarrow> nat list" where
  "ur_retry_muxed c = [0..<rc_inputs c]"

section \<open>The debug map\<close>

text \<open>Windows of addresses, with saturating ends. A region is forwarded to the component behind an output (\<open>rc_bound\<close>, with a debug interface, \<open>has_if\<close>).\<close>

record dregion =
  dr_out :: nat
  dr_local :: u64
  dr_size :: u64
  dr_entry :: u64

definition window_end :: "u64 \<Rightarrow> u64 \<Rightarrow> u64" where
  "window_end base sz = (let e = base + sz in if e < base then - 1 else e)"

definition region_of :: "router_config \<Rightarrow> (nat \<Rightarrow> bool) \<Rightarrow> u64 \<Rightarrow> u64 \<Rightarrow> u64 \<Rightarrow> bool \<Rightarrow> nat \<Rightarrow> dregion list" where
  "region_of c has_if local_base win_size entry_base second_pass po =
     (let m = rc_maps c ! po; catch_all = (mp_size m = 0)
      in if catch_all \<noteq> second_pass \<or> rc_error c = Some po then []
         else
           let map_end = (if catch_all then - 1 else window_end (mp_base m) (mp_size m));
               i_base = max (mp_base m) local_base;
               i_end = min map_end (window_end local_base win_size)
           in if i_base \<ge> i_end \<or> \<not> rc_bound c po \<or> \<not> has_if po then []
              else [\<lparr>dr_out = po, dr_local = i_base - mp_remove m + mp_add m, dr_size = i_end - i_base,
                     dr_entry = entry_base + (i_base - local_base)\<rparr>])"

definition collect_regions :: "router_config \<Rightarrow> (nat \<Rightarrow> bool) \<Rightarrow> u64 \<Rightarrow> u64 \<Rightarrow> u64 \<Rightarrow> nat \<Rightarrow> nat \<Rightarrow> dregion list" where
  "collect_regions c has_if local_base win_size entry_base depth max_depth =
     (if depth \<ge> max_depth then []
      else concat (map (\<lambda>pass. concat (map (region_of c has_if local_base win_size entry_base pass) [0..<length (rc_maps c)])) [False, True]))"

end
