(* ===== verification/Router_V2_Props.thy ===== *)
theory Router_V2_Props
  imports Router_V2
begin

text \<open>
  The bandwidth router over all interleavings of submissions, responses and retries (\<open>rb_step\<close>): it implements a table of pending requests,
  keyed by request, that remembers the input and the initiator.
\<close>

section \<open>The table of pending requests\<close>

type_synonym pending = "req_ref \<rightharpoonup> nat \<times> initiator"

definition retire :: "pending \<Rightarrow> rresp \<Rightarrow> pending" where
  "retire pend e = (if rs_last e then pend(rs_req e := None) else pend)"

text \<open>A response is right when its request is pending, and goes to the input of the request with the initiator of the master.\<close>

fun resps_ok :: "nat \<Rightarrow> pending \<Rightarrow> rresp list \<Rightarrow> bool" where
  "resps_ok n pend [] = True"
| "resps_ok n pend (e # es) =
     ((\<exists>p. rs_input e = (n, p) \<and> pend (rs_req e) = Some (p, rs_initiator e)) \<and> resps_ok n (retire pend e) es)"

definition queued :: "router \<Rightarrow> req_ref set" where
  "queued rt = (\<Union>p. fst ` set (ip_queue (rt_in rt p)))"

section \<open>Steps\<close>

text \<open>
  A request that is pending and not queued is with the component behind an output, which may answer it. Between two steps of the router
  the other components may change the world, but not the initiator of a pending request.
\<close>

definition env_ok :: "pending \<Rightarrow> world \<Rightarrow> world \<Rightarrow> bool" where
  "env_ok pend w w' \<longleftrightarrow> w_ifl w' = w_ifl w \<and> w_next w' = w_next w \<and> (\<forall>r\<in>dom pend. r_initiator (w_req w' r) = r_initiator (w_req w r))"

inductive rb_step :: "router_config \<Rightarrow> rlookup \<Rightarrow> 'd rdown \<Rightarrow> (router \<times> 'd \<times> world) \<times> pending \<Rightarrow> rresp list \<Rightarrow>
    (router \<times> 'd \<times> world) \<times> pending \<Rightarrow> bool" for c lookup down where
  submit: "\<lbrakk>p < rc_inputs c; pend r = None; rb_req_muxed c lookup down p r now (rt, d, w) = (s', st)\<rbrakk> \<Longrightarrow>
     rb_step c lookup down ((rt, d, w), pend) []
       (s', if st = IO_REQ_GRANTED then pend(r \<mapsto> (p, r_initiator (w_req w r))) else pend)"
| respond: "\<lbrakk>r \<in> dom pend; r \<notin> queued rt; rb_resp_muxed r rt w = (rt', w', e)\<rbrakk> \<Longrightarrow>
     rb_step c lookup down ((rt, d, w), pend) [e] ((rt', d, w'), retire pend e)"
| retry: "rb_retry_muxed c down now po s = (s', es) \<Longrightarrow>
     rb_step c lookup down (s, pend) es (s', fold (\<lambda>e f. retire f e) es pend)"
| env: "env_ok pend w w' \<Longrightarrow> rb_step c lookup down ((rt, d, w), pend) [] ((rt, d', w'), pend)"

definition rb_init :: "nat \<Rightarrow> router \<Rightarrow> bool" where
  "rb_init n rt \<longleftrightarrow> rt_id rt = n \<and> rt_free rt = [] \<and> (\<forall>p. ip_queue (rt_in rt p) = []) \<and> (\<forall>po. \<not> op_stalled (rt_out rt po))"

inductive rb_reach :: "router_config \<Rightarrow> rlookup \<Rightarrow> 'd rdown \<Rightarrow> nat \<Rightarrow> (router \<times> 'd \<times> world) \<times> pending \<Rightarrow> bool" for c lookup down n where
  start: "rb_init n rt \<Longrightarrow> rb_reach c lookup down n ((rt, d, w), Map.empty)"
| more: "\<lbrakk>rb_reach c lookup down n s; rb_step c lookup down s es s'\<rbrakk> \<Longrightarrow> rb_reach c lookup down n s'"

section \<open>Invariant\<close>

text \<open>The in-flight records: those of the requests \<open>F\<close> are installed, allocated and not shared.\<close>

definition ifl_inv :: "nat \<Rightarrow> nat list \<Rightarrow> world \<Rightarrow> pending \<Rightarrow> bool" where
  "ifl_inv n free w F \<longleftrightarrow>
     distinct free \<and> (\<forall>k\<in>set free. k < w_next w) \<and> inj_on (\<lambda>r. r_initiator (w_req w r)) (dom F) \<and>
     (\<forall>r p i. F r = Some (p, i) \<longrightarrow>
        r_initiator (w_req w r) < w_next w \<and> r_initiator (w_req w r) \<notin> set free \<and>
        w_ifl w (r_initiator (w_req w r)) = \<lparr>if_input = (n, p), if_saved = i\<rparr>)"

definition queue_inv :: "router_config \<Rightarrow> router \<Rightarrow> world \<Rightarrow> pending \<Rightarrow> bool" where
  "queue_inv c rt w pend \<longleftrightarrow>
     (\<forall>p. distinct (map fst (ip_queue (rt_in rt p))) \<and>
        (\<forall>r\<in>fst ` set (ip_queue (rt_in rt p)). p < rc_inputs c \<and> pend r = Some (p, r_initiator (w_req w r))))"

definition rb_inv :: "router_config \<Rightarrow> nat \<Rightarrow> router \<Rightarrow> world \<Rightarrow> pending \<Rightarrow> bool" where
  "rb_inv c n rt w pend \<longleftrightarrow> rt_id rt = n \<and> queue_inv c rt w pend \<and> ifl_inv n (rt_free rt) w (pend |` (- queued rt))"

text \<open>The head of a queue waits for an output that is stalled.\<close>

definition head_waits :: "router \<Rightarrow> nat \<Rightarrow> bool" where
  "head_waits rt p \<longleftrightarrow> (case ip_queue (rt_in rt p) of [] \<Rightarrow> True | (r, po) # _ \<Rightarrow> op_stalled (rt_out rt po))"

definition down_ok :: "'d rdown \<Rightarrow> bool" where
  "down_ok down \<longleftrightarrow> (\<forall>po d w r d' w' st. down po d w r = (d', w', st) \<longrightarrow>
     w_ifl w' = w_ifl w \<and> w_next w' = w_next w \<and> (\<forall>x. r_initiator (w_req w' x) = r_initiator (w_req w x)))"

section \<open>Forwarding\<close>

lemma down_okD:
  assumes "down_ok down" "down po d w r = (d', w', st)"
  shows "w_ifl w' = w_ifl w" "w_next w' = w_next w" "r_initiator (w_req w' x) = r_initiator (w_req w x)"
  using assms unfolding down_ok_def by blast+

lemma upd_rreq_simps [simp]:
  "w_ifl (upd_rreq r f w) = w_ifl w" "w_next (upd_rreq r f w) = w_next w" "w_req (upd_rreq r f w) = (w_req w)(r := f (w_req w r))"
  by (simp_all add: upd_rreq_def)

lemma port_upd_simps [simp]:
  "rt_id (upd_in p f rt) = rt_id rt" "rt_free (upd_in p f rt) = rt_free rt" "rt_out (upd_in p f rt) = rt_out rt"
  "rt_in (upd_in p f rt) = (rt_in rt)(p := f (rt_in rt p))"
  "rt_id (upd_out p g rt) = rt_id rt" "rt_free (upd_out p g rt) = rt_free rt" "rt_in (upd_out p g rt) = rt_in rt"
  "rt_out (upd_out p g rt) = (rt_out rt)(p := g (rt_out rt p))"
  by (simp_all add: upd_in_def upd_out_def)

lemma rreq_upd_simps [simp]:
  "r_initiator (rb_translate m q) = r_initiator q" "r_initiator (rb_annotate h l q) = r_initiator q"
  "op_stalled (rb_log_access t x) = op_stalled x"
  by (simp_all add: rb_translate_def rb_annotate_def rb_log_access_def Let_def)

text \<open>The part of a router that matters for the way back of a response.\<close>

definition same_way :: "router \<Rightarrow> router \<Rightarrow> bool" where
  "same_way rt rt' \<longleftrightarrow> rt_id rt' = rt_id rt \<and> (\<forall>q. ip_queue (rt_in rt' q) = ip_queue (rt_in rt q))"

lemma forward_inline_down:
  assumes "forward_inline c down p r po now (rt, d, w) = ((rt', d', w'), st)" "down_ok down"
  obtains w1 where "w_ifl w1 = w_ifl w" "w_next w1 = w_next w" "\<And>x. r_initiator (w_req w1 x) = r_initiator (w_req w x)"
    "down po d (upd_rreq r (rb_translate (rc_maps c ! po)) w) r = (d', w1, st)"
proof -
  obtain d1 w1 st1 where dn: "down po d (upd_rreq r (rb_translate (rc_maps c ! po)) w) r = (d1, w1, st1)"
    by (metis prod_cases3)
  have "d1 = d'" "st1 = st"
    using assms(1) dn by (auto simp: forward_inline_def Let_def split: io_req_status.splits prod.splits)
  then show thesis using dn down_okD [OF assms(2) dn] by (intro that [of w1]) auto
qed

lemma forward_inline_frame:
  assumes f: "forward_inline c down p r po now (rt, d, w) = ((rt', d', w'), st)" and d: "down_ok down"
  shows "same_way rt rt'" "\<And>x. x \<noteq> r \<Longrightarrow> r_initiator (w_req w' x) = r_initiator (w_req w x)"
    "\<And>x. op_stalled (rt_out rt x) \<Longrightarrow> op_stalled (rt_out rt' x)" "st = IO_REQ_DENIED \<Longrightarrow> op_stalled (rt_out rt' po)"
proof -
  obtain w1 where w1: "\<And>x. r_initiator (w_req w1 x) = r_initiator (w_req w x)"
    "down po d (upd_rreq r (rb_translate (rc_maps c ! po)) w) r = (d', w1, st)"
    using forward_inline_down [OF f d] by metis
  note fs = f [unfolded forward_inline_def Let_def w1(2) prod.case]
  show "same_way rt rt'" using fs
    by (cases st) (auto simp: same_way_def rb_advance_def alloc_inflight_def split: list.splits prod.splits)
  show "r_initiator (w_req w' x) = r_initiator (w_req w x)" if "x \<noteq> r" for x using fs that w1(1)
    by (cases st) (auto simp: alloc_inflight_def split: list.splits prod.splits)
  show "op_stalled (rt_out rt' x)" if "op_stalled (rt_out rt x)" for x using fs that
    by (cases st) (auto simp: rb_advance_def alloc_inflight_def split: list.splits prod.splits)
  show "op_stalled (rt_out rt' po)" if "st = IO_REQ_DENIED" using fs that by auto
qed

lemma forward_inline_not_granted:
  assumes f: "forward_inline c down p r po now (rt, d, w) = ((rt', d', w'), st)" and d: "down_ok down" and st: "st \<noteq> IO_REQ_GRANTED"
  shows "r_initiator (w_req w' x) = r_initiator (w_req w x)" "rt_free rt' = rt_free rt" "w_ifl w' = w_ifl w" "w_next w' = w_next w"
proof -
  obtain w1 where w1: "w_ifl w1 = w_ifl w" "w_next w1 = w_next w" "\<And>x. r_initiator (w_req w1 x) = r_initiator (w_req w x)"
    "down po d (upd_rreq r (rb_translate (rc_maps c ! po)) w) r = (d', w1, st)"
    using forward_inline_down [OF f d] by metis
  note fs = f [unfolded forward_inline_def Let_def w1(4) prod.case]
  have all: "r_initiator (w_req w' x) = r_initiator (w_req w1 x) \<and> rt_free rt' = rt_free rt \<and> w_ifl w' = w_ifl w1 \<and> w_next w' = w_next w1"
    using fs st by (cases st) (auto simp: rb_advance_def)
  then show "r_initiator (w_req w' x) = r_initiator (w_req w x)" "rt_free rt' = rt_free rt" "w_ifl w' = w_ifl w" "w_next w' = w_next w"
    by (simp_all add: w1)
qed

text \<open>A fresh record for a request keeps the records of the others.\<close>

lemma ifl_inv_install:
  assumes i: "ifl_inv n free w F" "F r = None" and al: "alloc_inflight rt w = (rt', w', k)" "rt_free rt = free"
    and q: "\<And>x. x \<noteq> r \<Longrightarrow> r_initiator (w_req v x) = r_initiator (w_req w x)" "r_initiator (w_req v r) = k"
    and m: "w_ifl v = (w_ifl w)(k := \<lparr>if_input = (n, p), if_saved = i\<rparr>)" "w_next v = w_next w'"
  shows "ifl_inv n (rt_free rt') v (F(r \<mapsto> (p, i)))"
proof -
  have k: "k \<notin> set (rt_free rt')" "k < w_next v" "w_next w \<le> w_next v" "distinct (rt_free rt')"
    "\<forall>j\<in>set (rt_free rt'). j < w_next v" "set (rt_free rt') \<subseteq> set free"
    using i(1) al m(2) by (auto simp: ifl_inv_def alloc_inflight_def split: list.splits)
  have kF: "r_initiator (w_req w x) \<noteq> k" if x: "x \<in> dom F" for x
  proof -
    obtain p' j where "F x = Some (p', j)" using x by auto
    then have "r_initiator (w_req w x) < w_next w" "r_initiator (w_req w x) \<notin> set free" using i(1) unfolding ifl_inv_def by blast+
    then show ?thesis using al by (auto simp: alloc_inflight_def split: list.splits)
  qed
  have rF: "x \<noteq> r" if "x \<in> dom F" for x using i(2) that by auto
  have inj: "inj_on (\<lambda>x. r_initiator (w_req v x)) (insert r (dom F))"
    unfolding inj_on_insert
  proof (intro conjI)
    show "inj_on (\<lambda>x. r_initiator (w_req v x)) (dom F)"
      using i(1) by (simp add: ifl_inv_def inj_on_def q(1) rF cong: ball_cong)
    show "r_initiator (w_req v r) \<notin> (\<lambda>x. r_initiator (w_req v x)) ` (dom F - {r})"
      using kF by (auto simp: q)
  qed
  have each: "r_initiator (w_req v x) < w_next v \<and> r_initiator (w_req v x) \<notin> set (rt_free rt') \<and>
      w_ifl v (r_initiator (w_req v x)) = \<lparr>if_input = (n, p'), if_saved = j\<rparr>" if x: "F x = Some (p', j)" for x p' j
  proof -
    have "x \<in> dom F" using x by auto
    then have "r_initiator (w_req v x) = r_initiator (w_req w x)" "r_initiator (w_req w x) \<noteq> k" using q(1) rF kF by auto
    moreover have "r_initiator (w_req w x) < w_next w \<and> r_initiator (w_req w x) \<notin> set free \<and>
      w_ifl w (r_initiator (w_req w x)) = \<lparr>if_input = (n, p'), if_saved = j\<rparr>" using i(1) x unfolding ifl_inv_def by blast
    ultimately show ?thesis using k by (auto simp: m(1))
  qed
  show ?thesis using k inj each by (auto simp: ifl_inv_def q(2) m(1))
qed

lemma forward_inline_granted:
  assumes f: "forward_inline c down p r po now (rt, d, w) = ((rt', d', w'), IO_REQ_GRANTED)" and d: "down_ok down"
    and i: "ifl_inv (rt_id rt) (rt_free rt) w F" "F r = None"
  shows "ifl_inv (rt_id rt) (rt_free rt') w' (F(r \<mapsto> (p, r_initiator (w_req w r))))"
proof -
  obtain w1 where w1: "w_ifl w1 = w_ifl w" "w_next w1 = w_next w" "\<And>x. r_initiator (w_req w1 x) = r_initiator (w_req w x)"
    "down po d (upd_rreq r (rb_translate (rc_maps c ! po)) w) r = (d', w1, IO_REQ_GRANTED)"
    using forward_inline_down [OF f d] by metis
  obtain rt2 w2 k where al: "alloc_inflight (upd_out po (rb_log_access now) rt) w1 = (rt2, w2, k)" by (metis prod_cases3)
  have w2: "w_req w2 = w_req w1" "w_ifl w2 = w_ifl w1" using al by (auto simp: alloc_inflight_def split: list.splits)
  note fs = f [unfolded forward_inline_def Let_def w1(4) prod.case io_req_status.case al]
  have i1: "ifl_inv (rt_id rt) (rt_free (upd_out po (rb_log_access now) rt)) w1 F"
    using i(1) by (simp add: ifl_inv_def w1)
  have "rt_free rt' = rt_free rt2" using fs by (auto simp: rb_advance_def)
  then show ?thesis using fs
    by (simp, intro ifl_inv_install [OF i1 i(2) al refl]) (auto simp: w2 w1)
qed

section \<open>Draining a queue\<close>

lemma ifl_inv_cong:
  assumes "ifl_inv n free w F" "w_ifl w' = w_ifl w" "w_next w' = w_next w"
    "\<And>x. x \<in> dom F \<Longrightarrow> r_initiator (w_req w' x) = r_initiator (w_req w x)"
  shows "ifl_inv n free w' F"
  using assms(1) unfolding ifl_inv_def assms(2,3) inj_on_def
  by (simp add: assms(4) domI cong: ball_cong)

lemma same_way_inv:
  assumes "same_way rt rt'" "rb_inv c n rt w pend" "rt_free rt' = rt_free rt" "w_ifl w' = w_ifl w" "w_next w' = w_next w"
    "\<And>x. x \<in> dom pend \<Longrightarrow> r_initiator (w_req w' x) = r_initiator (w_req w x)"
  shows "rb_inv c n rt' w' pend"
proof -
  have q: "queued rt' = queued rt" using assms(1) by (simp add: queued_def same_way_def)
  have d: "x \<in> dom pend" if "x \<in> dom (pend |` (- queued rt))" for x using that by auto
  have "ifl_inv n (rt_free rt') w' (pend |` (- queued rt'))"
    unfolding q assms(3) using assms(4,5) assms(6) [OF d]
    by (rule ifl_inv_cong [of n "rt_free rt" w, rotated]) (use assms(2) in \<open>simp_all add: rb_inv_def\<close>)
  moreover have "queue_inv c rt' w' pend"
    unfolding queue_inv_def
  proof (intro allI conjI ballI)
    fix p
    have qq: "ip_queue (rt_in rt' p) = ip_queue (rt_in rt p)" using assms(1) by (simp add: same_way_def)
    have qi: "distinct (map fst (ip_queue (rt_in rt p)))"
      "\<And>r. r \<in> fst ` set (ip_queue (rt_in rt p)) \<Longrightarrow> p < rc_inputs c \<and> pend r = Some (p, r_initiator (w_req w r))"
      using assms(2) unfolding rb_inv_def queue_inv_def by blast+
    show "distinct (map fst (ip_queue (rt_in rt' p)))" by (simp add: qq qi)
    fix r assume "r \<in> fst ` set (ip_queue (rt_in rt' p))"
    then have "p < rc_inputs c" "pend r = Some (p, r_initiator (w_req w r))" using qi(2) [of r] by (simp_all add: qq)
    then show "p < rc_inputs c" "pend r = Some (p, r_initiator (w_req w' r))" using assms(6) [of r] by (simp_all add: domI)
  qed
  ultimately show ?thesis using assms(1,2) by (simp add: rb_inv_def same_way_def)
qed

text \<open>Taking the head off a queue, and putting a request at its end.\<close>

lemma queued_iff: "r \<in> queued rt \<longleftrightarrow> (\<exists>p po. (r, po) \<in> set (ip_queue (rt_in rt p)))"
  by (force simp: queued_def)

lemma queue_invD:
  assumes "queue_inv c rt w pend" "(r, po) \<in> set (ip_queue (rt_in rt p))"
  shows "p < rc_inputs c" "pend r = Some (p, r_initiator (w_req w r))"
  using assms unfolding queue_inv_def by (auto dest!: spec [of _ p] bspec [where x = r] intro: image_eqI [of _ fst "(r, po)"])

lemma set_queue_simps [simp]:
  "rt_id (set_queue p qs rt) = rt_id rt" "rt_free (set_queue p qs rt) = rt_free rt" "rt_out (set_queue p qs rt) = rt_out rt"
  "ip_queue (rt_in (set_queue p qs rt) q) = (if q = p then qs else ip_queue (rt_in rt q))"
  by (simp_all add: set_queue_def)

lemma queued_split: "queued rt = fst ` set (ip_queue (rt_in rt p)) \<union> (\<Union>q\<in>- {p}. fst ` set (ip_queue (rt_in rt q)))"
  by (auto simp: queued_def)

lemma queued_pop:
  assumes "queue_inv c rt w pend" "ip_queue (rt_in rt p) = (r, po) # qs"
  shows "queued (set_queue p qs rt) = queued rt - {r}"
proof -
  have pr: "pend r = Some (p, r_initiator (w_req w r))" using queue_invD [OF assms(1), of r po p] assms(2) by simp
  have "r \<notin> fst ` set qs" using assms by (simp add: queue_inv_def) (metis distinct.simps(2) list.simps(9) fst_conv list.set_map)
  moreover have "q = p" if "(r, o') \<in> set (ip_queue (rt_in rt q))" for q o' using queue_invD(2) [OF assms(1) that] pr by simp
  ultimately show ?thesis using assms(2) by (auto simp: queued_split [of _ p])
qed

lemma same_way_queued: "same_way rt rt' \<Longrightarrow> queued rt' = queued rt"
  by (simp add: queued_def same_way_def)

lemma queue_inv_pop:
  assumes q: "queue_inv c rt w pend" "ip_queue (rt_in rt p) = (r, po) # qs" "same_way (set_queue p qs rt) rt'"
    and w: "\<And>x. x \<noteq> r \<Longrightarrow> r_initiator (w_req w' x) = r_initiator (w_req w x)" and pn: "\<And>x. x \<noteq> r \<Longrightarrow> pend' x = pend x"
  shows "queue_inv c rt' w' pend'"
  unfolding queue_inv_def
proof (intro allI conjI ballI)
  fix q
  have qq: "ip_queue (rt_in rt' q) = (if q = p then qs else ip_queue (rt_in rt q))" using q(3) by (simp add: same_way_def)
  have dis: "distinct (map fst (ip_queue (rt_in rt q)))" for q using q(1) by (simp add: queue_inv_def)
  show "distinct (map fst (ip_queue (rt_in rt' q)))" using dis [of q] dis [of p] by (simp add: qq q(2))
  fix x assume "x \<in> fst ` set (ip_queue (rt_in rt' q))"
  then obtain po' where m: "(x, po') \<in> set (ip_queue (rt_in rt' q))" by auto
  have "x \<in> queued rt'" using m unfolding queued_iff by blast
  then have "x \<in> queued (set_queue p qs rt)" by (simp add: same_way_queued [OF q(3)])
  then have "x \<noteq> r" using queued_pop [OF q(1,2)] by auto
  moreover have "(x, po') \<in> set (ip_queue (rt_in rt q))" using m by (auto simp: qq q(2) split: if_splits)
  ultimately show "q < rc_inputs c" "pend' x = Some (q, r_initiator (w_req w' x))"
    using queue_invD [OF q(1)] w pn by auto
qed

text \<open>One iteration of the loop.\<close>

lemma drain_step:
  assumes f: "forward_inline c down p r po now (set_queue p qs rt, d, w) = ((rt', d', w'), st)" and d: "down_ok down"
    and i: "rb_inv c n rt w pend" and q: "ip_queue (rt_in rt p) = (r, po) # qs"
  shows "pend r = Some (p, r_initiator (w_req w r))"
    "st = IO_REQ_DONE \<Longrightarrow> rb_inv c n rt' w' (pend(r := None)) \<and> r_initiator (w_req w' r) = r_initiator (w_req w r)"
    "st = IO_REQ_GRANTED \<Longrightarrow> rb_inv c n rt' w' pend"
    "st = IO_REQ_DENIED \<Longrightarrow> rb_inv c n (set_queue p ((r, po) # qs) rt') w' pend"
proof -
  note fr = forward_inline_frame [OF f d] and ng = forward_inline_not_granted [OF f d]
  have qi: "queue_inv c rt w pend" and ii: "ifl_inv n (rt_free rt) w (pend |` (- queued rt))" and id: "rt_id rt = n"
    using i by (simp_all add: rb_inv_def)
  have id': "rt_id rt' = n" and qd: "queued rt' = queued rt - {r}"
    using fr(1) id queued_pop [OF qi q] same_way_queued [OF fr(1)] by (simp_all add: same_way_def)
  show pr: "pend r = Some (p, r_initiator (w_req w r))" using queue_invD(2) [OF qi, of r po p] q by simp
  have rq: "r \<in> queued rt" using q unfolding queued_iff by (metis list.set_intros(1))
  show "rb_inv c n rt' w' (pend(r := None)) \<and> r_initiator (w_req w' r) = r_initiator (w_req w r)" if st: "st = IO_REQ_DONE"
  proof -
    have "pend(r := None) |` (- queued rt') = pend |` (- queued rt)" using rq by (auto simp: qd restrict_map_def fun_eq_iff)
    moreover have "ifl_inv n (rt_free rt') w' (pend |` (- queued rt))"
      using ii ng st by (auto intro!: ifl_inv_cong [of n _ w])
    ultimately show ?thesis using ng(1) st id' queue_inv_pop [OF qi q fr(1,2)] by (simp add: rb_inv_def)
  qed
  show "rb_inv c n rt' w' pend" if st: "st = IO_REQ_GRANTED"
  proof -
    have "pend |` (- queued rt') = (pend |` (- queued rt))(r \<mapsto> (p, r_initiator (w_req w r)))"
      using rq pr by (auto simp: qd restrict_map_def fun_eq_iff)
    moreover have "ifl_inv n (rt_free rt') w' ((pend |` (- queued rt))(r \<mapsto> (p, r_initiator (w_req w r))))"
      using forward_inline_granted [OF f [unfolded st] d, of "pend |` (- queued rt)"] ii id rq by simp
    ultimately show ?thesis using id' queue_inv_pop [OF qi q fr(1,2)] by (simp add: rb_inv_def)
  qed
  show "rb_inv c n (set_queue p ((r, po) # qs) rt') w' pend" if st: "st = IO_REQ_DENIED"
    by (rule same_way_inv [OF _ i]) (use fr(1) ng st q in \<open>auto simp: same_way_def\<close>)
qed

text \<open>What the loops keep, and what they deliver.\<close>

abbreviation retires :: "rresp list \<Rightarrow> pending \<Rightarrow> pending" where
  "retires es pend \<equiv> fold (\<lambda>e f. retire f e) es pend"

lemma resps_ok_append: "resps_ok n pend (es @ fs) \<longleftrightarrow> resps_ok n pend es \<and> resps_ok n (retires es pend) fs"
  by (induction es arbitrary: pend) auto

lemma rb_drain_inv:
  assumes "rb_drain c down p now qs (rt, d, w) = ((rt', d', w'), es)" "down_ok down" "rb_inv c n rt w pend" "ip_queue (rt_in rt p) = qs"
  shows "rb_inv c n rt' w' (retires es pend) \<and> resps_ok n pend es \<and> head_waits rt' p \<and>
    (\<forall>q. q \<noteq> p \<longrightarrow> ip_queue (rt_in rt' q) = ip_queue (rt_in rt q)) \<and> (\<forall>x. op_stalled (rt_out rt x) \<longrightarrow> op_stalled (rt_out rt' x))"
  using assms
proof (induction qs arbitrary: rt d w es pend)
  case Nil
  then show ?case by (simp add: head_waits_def)
next
  case (Cons h qs)
  obtain r po where h: "h = (r, po)" by fastforce
  show ?case
  proof (cases "op_stalled (rt_out rt po)")
    case True
    then show ?thesis using Cons.prems by (auto simp: h head_waits_def)
  next
    case False
    obtain rt1 d1 w1 st where f: "forward_inline c down p r po now (set_queue p qs rt, d, w) = ((rt1, d1, w1), st)"
      by (metis surj_pair)
    note q = Cons.prems(4) [unfolded h]
    note fr = forward_inline_frame [OF f Cons.prems(2)] and st = drain_step [OF f Cons.prems(2,3) q]
    have q1: "ip_queue (rt_in rt1 p) = qs" "\<forall>q. q \<noteq> p \<longrightarrow> ip_queue (rt_in rt1 q) = ip_queue (rt_in rt q)"
      "\<forall>x. op_stalled (rt_out rt x) \<longrightarrow> op_stalled (rt_out rt1 x)"
      using fr(1,3) by (auto simp: same_way_def)
    note dr = Cons.prems(1) [unfolded h rb_drain.simps prod.case f]
    have id: "rt_id rt = n" using Cons.prems(3) by (simp add: rb_inv_def)
    show ?thesis
    proof (cases st)
      case IO_REQ_DONE
      obtain es2 where d2: "rb_drain c down p now qs (rt1, d1, w1) = ((rt', d', w'), es2)"
        "es = \<lparr>rs_input = (rt_id rt, p), rs_req = r, rs_initiator = r_initiator (w_req w1 r), rs_last = True\<rparr> # es2"
        using dr False IO_REQ_DONE by (auto split: prod.splits)
      have "retires es pend = retires es2 (pend(r := None))" "resps_ok n pend es \<longleftrightarrow> resps_ok n (pend(r := None)) es2"
        using st(1) st(2) [OF IO_REQ_DONE] id by (simp_all add: d2(2) retire_def)
      then show ?thesis using Cons.IH [OF d2(1) Cons.prems(2) conjunct1 [OF st(2) [OF IO_REQ_DONE]] q1(1)] q1 by metis
    next
      case IO_REQ_GRANTED
      have d2: "rb_drain c down p now qs (rt1, d1, w1) = ((rt', d', w'), es)" using dr False IO_REQ_GRANTED by simp
      show ?thesis using Cons.IH [OF d2 Cons.prems(2) st(3) [OF IO_REQ_GRANTED] q1(1)] q1 by simp
    next
      case IO_REQ_DENIED
      then show ?thesis using dr False st(4) [OF IO_REQ_DENIED] q1 fr(4) by (auto simp: head_waits_def)
    qed
  qed
qed

lemma rb_retry_loop_inv:
  assumes "rb_retry_loop c down now po ps (rt, d, w) = ((rt', d', w'), es)" "down_ok down" "rb_inv c n rt w pend"
    "\<forall>p. p \<notin> set ps \<or> (\<exists>r po' qs. ip_queue (rt_in rt p) = (r, po') # qs \<and> po' \<noteq> po) \<longrightarrow> head_waits rt p"
  shows "rb_inv c n rt' w' (retires es pend) \<and> resps_ok n pend es \<and> (\<forall>p. head_waits rt' p)"
  using assms
proof (induction ps arbitrary: rt d w es pend)
  case Nil
  then show ?case by simp
next
  case (Cons p ps)
  let ?go = "case ip_queue (rt_in rt p) of [] \<Rightarrow> False | (r, po') # _ \<Rightarrow> po' = po"
  obtain rt1 d1 w1 es1 es2 where
    s1: "(if ?go then rb_drain c down p now (ip_queue (rt_in rt p)) (rt, d, w) else ((rt, d, w), [])) = ((rt1, d1, w1), es1)"
    and s2: "rb_retry_loop c down now po ps (rt1, d1, w1) = ((rt', d', w'), es2)" "es = es1 @ es2"
    using Cons.prems(1) by (auto simp: drain_queue_def split: prod.splits list.splits if_splits)
  have one: "rb_inv c n rt1 w1 (retires es1 pend) \<and> resps_ok n pend es1 \<and> head_waits rt1 p \<and>
    (\<forall>q. q \<noteq> p \<longrightarrow> ip_queue (rt_in rt1 q) = ip_queue (rt_in rt q)) \<and> (\<forall>x. op_stalled (rt_out rt x) \<longrightarrow> op_stalled (rt_out rt1 x))"
  proof (cases ?go)
    case True
    then show ?thesis using rb_drain_inv [OF _ Cons.prems(2,3) refl] s1 by simp
  next
    case False
    have "head_waits rt p"
    proof (cases "ip_queue (rt_in rt p)")
      case (Cons h qs)
      then show ?thesis using False Cons.prems(4) [rule_format, of p] by (cases h) auto
    qed (simp add: head_waits_def)
    then show ?thesis using False s1 Cons.prems(3) by simp
  qed
  have keep: "head_waits rt1 q" if "head_waits rt q" "q \<noteq> p" for q
    using that one by (auto simp: head_waits_def split: list.splits)
  have "\<forall>q. q \<notin> set ps \<or> (\<exists>r po' qs. ip_queue (rt_in rt1 q) = (r, po') # qs \<and> po' \<noteq> po) \<longrightarrow> head_waits rt1 q"
    using Cons.prems(4) one keep by (metis set_ConsD)
  then show ?case using Cons.IH [OF s2(1) Cons.prems(2), of "retires es1 pend"] one by (simp add: s2(2) resps_ok_append)
qed

section \<open>Every step keeps the invariant\<close>

lemma rb_retry_muxed_inv:
  assumes r: "rb_retry_muxed c down now po (rt, d, w) = ((rt', d', w'), es)" and d: "down_ok down"
    and i: "rb_inv c n rt w pend" and h: "\<forall>p. head_waits rt p"
  shows "rb_inv c n rt' w' (retires es pend) \<and> resps_ok n pend es \<and> (\<forall>p. head_waits rt' p)"
proof (rule rb_retry_loop_inv [OF _ d])
  let ?rt = "upd_out po (\<lambda>x. x\<lparr>op_stalled := False\<rparr>) rt"
  show "rb_retry_loop c down now po [0..<rc_inputs c] (?rt, d, w) = ((rt', d', w'), es)" using r by (simp add: rb_retry_muxed_def)
  show "rb_inv c n ?rt w pend" by (rule same_way_inv [OF _ i]) (simp_all add: same_way_def)
  show "\<forall>p. p \<notin> set [0..<rc_inputs c] \<or> (\<exists>r po' qs. ip_queue (rt_in ?rt p) = (r, po') # qs \<and> po' \<noteq> po) \<longrightarrow> head_waits ?rt p"
  proof (intro allI impI)
    fix p assume p: "p \<notin> set [0..<rc_inputs c] \<or> (\<exists>r po' qs. ip_queue (rt_in ?rt p) = (r, po') # qs \<and> po' \<noteq> po)"
    show "head_waits ?rt p"
    proof (cases "ip_queue (rt_in rt p)")
      case (Cons h qs)
      then have "p < rc_inputs c" using i queue_invD(1) [of c rt w pend "fst h" "snd h" p] by (simp add: rb_inv_def)
      then show ?thesis using p h Cons by (cases h) (auto simp: head_waits_def split: list.splits dest: spec [of _ p])
    qed (simp add: head_waits_def)
  qed
qed

lemma rb_enqueue_simps [simp]:
  "rt_id (rb_enqueue p r po rt) = rt_id rt" "rt_free (rb_enqueue p r po rt) = rt_free rt" "rt_out (rb_enqueue p r po rt) = rt_out rt"
  "ip_queue (rt_in (rb_enqueue p r po rt) q) = (if q = p then ip_queue (rt_in rt q) @ [(r, po)] else ip_queue (rt_in rt q))"
  by (simp_all add: rb_enqueue_def)

lemma queue_inv_queued: "queue_inv c rt w pend \<Longrightarrow> pend r = None \<Longrightarrow> r \<notin> queued rt"
  by (auto simp: queued_iff dest: queue_invD)

lemma rb_enqueue_inv:
  assumes i: "rb_inv c n rt w pend" and r: "pend r = None" "p < rc_inputs c"
  shows "rb_inv c n (rb_enqueue p r po rt) w (pend(r \<mapsto> (p, r_initiator (w_req w r))))"
proof -
  have qi: "queue_inv c rt w pend" using i by (simp add: rb_inv_def)
  note nq = queue_inv_queued [OF qi r(1)]
  have "queued (rb_enqueue p r po rt) = insert r (queued rt)" by (auto simp: queued_split [of _ p])
  then have eq: "pend(r \<mapsto> (p, r_initiator (w_req w r))) |` (- queued (rb_enqueue p r po rt)) = pend |` (- queued rt)"
    using r(1) by (auto simp: restrict_map_def fun_eq_iff)
  have "queue_inv c (rb_enqueue p r po rt) w (pend(r \<mapsto> (p, r_initiator (w_req w r))))"
    unfolding queue_inv_def
  proof (intro allI conjI ballI)
    fix q
    have "r \<notin> fst ` set (ip_queue (rt_in rt q))" using nq by (auto simp: queued_def)
    moreover have "distinct (map fst (ip_queue (rt_in rt q)))" using qi by (simp add: queue_inv_def)
    ultimately show "distinct (map fst (ip_queue (rt_in (rb_enqueue p r po rt) q)))" by (cases "q = p") auto
    fix x assume "x \<in> fst ` set (ip_queue (rt_in (rb_enqueue p r po rt) q))"
    then obtain po' where x: "(x, po') \<in> set (ip_queue (rt_in (rb_enqueue p r po rt) q))" by auto
    show "q < rc_inputs c" "(pend(r \<mapsto> (p, r_initiator (w_req w r)))) x = Some (q, r_initiator (w_req w x))"
      using x queue_invD [OF qi, of x po' q] nq r by (auto split: if_splits simp: queued_iff)
  qed
  then show ?thesis using i unfolding rb_inv_def eq by simp
qed

lemma head_waits_mono:
  assumes "same_way rt rt'" "\<And>x. op_stalled (rt_out rt x) \<Longrightarrow> op_stalled (rt_out rt' x)" "head_waits rt p"
  shows "head_waits rt' p"
  using assms by (auto simp: head_waits_def same_way_def split: list.splits)

lemma head_waits_enqueue: "\<lbrakk>head_waits rt q; op_stalled (rt_out rt po)\<rbrakk> \<Longrightarrow> head_waits (rb_enqueue p r po rt) q"
  by (auto simp: head_waits_def split: list.splits)

lemma rb_count_way: "same_way rt (rb_count q rt)" "rt_free (rb_count q rt) = rt_free rt" "rt_out (rb_count q rt) = rt_out rt"
  by (simp_all add: same_way_def rb_count_def)

text \<open>A request that is forwarded at once.\<close>

lemma submit_forward:
  assumes f: "forward_inline c down p r po now (rt, d, w) = ((rt', d', w'), st)" and d: "down_ok down"
    and i: "rb_inv c n rt w pend" and r: "pend r = None" "p < rc_inputs c"
  shows "st = IO_REQ_GRANTED \<Longrightarrow> rb_inv c n rt' w' (pend(r \<mapsto> (p, r_initiator (w_req w r))))"
    "st \<noteq> IO_REQ_GRANTED \<Longrightarrow> rb_inv c n rt' w' pend \<and> r_initiator (w_req w' r) = r_initiator (w_req w r)"
proof -
  note fr = forward_inline_frame [OF f d] and ng = forward_inline_not_granted [OF f d]
  have qi: "queue_inv c rt w pend" and ii: "ifl_inv (rt_id rt) (rt_free rt) w (pend |` (- queued rt))" and id: "rt_id rt = n"
    using i by (simp_all add: rb_inv_def)
  note nq = queue_inv_queued [OF qi r(1)]
  show "rb_inv c n rt' w' pend \<and> r_initiator (w_req w' r) = r_initiator (w_req w r)" if "st \<noteq> IO_REQ_GRANTED"
    using same_way_inv [OF fr(1) i] ng that by simp
  show "rb_inv c n rt' w' (pend(r \<mapsto> (p, r_initiator (w_req w r))))" if st: "st = IO_REQ_GRANTED"
  proof -
    have "(pend(r \<mapsto> (p, r_initiator (w_req w r)))) |` (- queued rt') = (pend |` (- queued rt))(r \<mapsto> (p, r_initiator (w_req w r)))"
      using nq by (auto simp: same_way_queued [OF fr(1)] restrict_map_def fun_eq_iff)
    moreover have "ifl_inv n (rt_free rt') w' ((pend |` (- queued rt))(r \<mapsto> (p, r_initiator (w_req w r))))"
      using forward_inline_granted [OF f [unfolded st] d ii] r(1) id by (simp add: restrict_map_def)
    moreover have "queue_inv c rt' w' (pend(r \<mapsto> (p, r_initiator (w_req w r))))"
      unfolding queue_inv_def
    proof (intro allI conjI ballI)
      fix q
      have qq: "ip_queue (rt_in rt' q) = ip_queue (rt_in rt q)" using fr(1) by (simp add: same_way_def)
      show "distinct (map fst (ip_queue (rt_in rt' q)))" using qi by (simp add: queue_inv_def qq)
      fix x assume x: "x \<in> fst ` set (ip_queue (rt_in rt' q))"
      then have "x \<noteq> r" using nq by (auto simp: queued_def qq)
      then show "q < rc_inputs c" "(pend(r \<mapsto> (p, r_initiator (w_req w r)))) x = Some (q, r_initiator (w_req w' x))"
        using x queue_invD [OF qi, of x _ q] fr(2) by (auto simp: qq)
    qed
    ultimately show ?thesis using id fr(1) by (simp add: rb_inv_def same_way_def)
  qed
qed

lemma rb_req_muxed_inv:
  assumes q: "rb_req_muxed c lookup down p r now (rt, d, w) = ((rt', d', w'), st)" and d: "down_ok down"
    and i: "rb_inv c n rt w pend" and h: "\<forall>p. head_waits rt p" and r: "pend r = None" "p < rc_inputs c"
  shows "rb_inv c n rt' w' (if st = IO_REQ_GRANTED then pend(r \<mapsto> (p, r_initiator (w_req w r))) else pend) \<and>
    (\<forall>p. head_waits rt' p) \<and> st \<noteq> IO_REQ_DENIED"
proof (cases "route c lookup (w_req w r)")
  case None
  have e: "rt' = rt\<lparr>rt_errors := Suc (rt_errors rt)\<rparr>" "w' = upd_rreq r (\<lambda>q. q\<lparr>r_resp_status := IO_RESP_INVALID\<rparr>) w" "st = IO_REQ_DONE"
    using q None by (auto simp: rb_req_muxed_def)
  have "rb_inv c n rt' w' pend" by (rule same_way_inv [OF _ i]) (auto simp: e same_way_def)
  moreover have "head_waits rt' x" for x by (rule head_waits_mono [of rt]) (use h in \<open>simp_all add: e same_way_def\<close>)
  ultimately show ?thesis by (simp add: e)
next
  case (Some po)
  define rt1 where "rt1 = rb_count (w_req w r) rt"
  have i1: "rb_inv c n rt1 w pend" unfolding rt1_def by (rule same_way_inv [OF rb_count_way(1) i]) (simp_all add: rb_count_way)
  have h1: "head_waits rt1 x" for x
    unfolding rt1_def by (rule head_waits_mono [OF rb_count_way(1)]) (use h in \<open>simp_all add: rb_count_way\<close>)
  show ?thesis
  proof (cases "op_stalled (rt_out rt1 po)")
    case True
    then have "rt' = rb_enqueue p r po rt1" "w' = w" "st = IO_REQ_GRANTED" using q Some by (auto simp: rb_req_muxed_def rt1_def Let_def)
    then show ?thesis using rb_enqueue_inv [OF i1 r] head_waits_enqueue [OF h1 True] by simp
  next
    case False
    obtain rt2 d2 w2 st2 where f: "forward_inline c down p r po now (rt1, d, w) = ((rt2, d2, w2), st2)" by (metis surj_pair)
    note s = submit_forward [OF f d i1 r] and fr = forward_inline_frame [OF f d]
    have h2: "head_waits rt2 x" for x by (rule head_waits_mono [OF fr(1,3) h1])
    show ?thesis
    proof (cases "st2 = IO_REQ_DENIED")
      case True
      then have e: "rt' = rb_enqueue p r po rt2" "w' = w2" "st = IO_REQ_GRANTED"
        using q Some False f by (simp_all add: rb_req_muxed_def rt1_def Let_def)
      then show ?thesis using rb_enqueue_inv [of c n rt2 w2 pend r p po] s(2) r True head_waits_enqueue [OF h2 fr(4)] by simp
    next
      case nd: False
      then have "rt' = rt2" "w' = w2" "st = st2" using q Some False f by (auto simp: rb_req_muxed_def rt1_def Let_def)
      then show ?thesis using s h2 nd by auto
    qed
  qed
qed

lemma ifl_inv_release:
  assumes i: "ifl_inv n free w F" "F r = Some (p, j)" and k: "k = r_initiator (w_req w r)"
    and v: "w_ifl v = w_ifl w" "w_next v = w_next w" "\<And>x. x \<noteq> r \<Longrightarrow> r_initiator (w_req v x) = r_initiator (w_req w x)"
  shows "ifl_inv n (k # free) v (F(r := None))"
proof -
  have other: "r_initiator (w_req w x) \<noteq> k" if "F x = Some y" "x \<noteq> r" for x y
    using i(1) that i(2) by (auto simp: ifl_inv_def k inj_on_def dom_def)
  have fk: "k \<notin> set free" "k < w_next w" using i by (auto simp: ifl_inv_def k)
  have "inj_on (\<lambda>x. r_initiator (w_req v x)) (dom F - {r})"
    using i(1) unfolding ifl_inv_def inj_on_def by (metis DiffD1 DiffD2 insertI1 v(3))
  then show ?thesis using i(1) fk other by (auto simp: ifl_inv_def v)
qed

lemma rb_resp_muxed_inv:
  assumes q: "rb_resp_muxed r rt w = (rt', w', e)" and i: "rb_inv c n rt w pend" and h: "\<forall>p. head_waits rt p"
    and r: "r \<in> dom pend" "r \<notin> queued rt"
  shows "rb_inv c n rt' w' (retire pend e) \<and> resps_ok n pend [e] \<and> (\<forall>p. head_waits rt' p)"
proof -
  obtain p j where pr: "pend r = Some (p, j)" using r(1) by auto
  have ii: "ifl_inv n (rt_free rt) w (pend |` (- queued rt))" and qi: "queue_inv c rt w pend" and id: "rt_id rt = n"
    using i by (simp_all add: rb_inv_def)
  have F: "(pend |` (- queued rt)) r = Some (p, j)" using pr r(2) by simp
  have rec: "w_ifl w (r_initiator (w_req w r)) = \<lparr>if_input = (n, p), if_saved = j\<rparr>" using ii F unfolding ifl_inv_def by blast
  have e: "rs_input e = (n, p)" "rs_req e = r" "rs_initiator e = j" "rs_last e = r_is_last (w_req w r)"
    using q rec by (auto simp: rb_resp_muxed_def Let_def split: if_splits)
  have ok: "resps_ok n pend [e]" by (simp add: e pr)
  show ?thesis
  proof (cases "r_is_last (w_req w r)")
    case True
    have out: "rt' = free_inflight (r_initiator (w_req w r)) rt" "w' = upd_rreq r (\<lambda>q. q\<lparr>r_initiator := j\<rparr>) w"
      using q rec True by (auto simp: rb_resp_muxed_def Let_def)
    have sw: "same_way rt rt'" by (simp add: out same_way_def free_inflight_def)
    have eq: "pend(r := None) |` (- queued rt') = (pend |` (- queued rt))(r := None)"
      by (auto simp: same_way_queued [OF sw] restrict_map_def fun_eq_iff)
    have "ifl_inv n (rt_free rt') w' (pend(r := None) |` (- queued rt'))"
      unfolding eq using ifl_inv_release [OF ii F refl, of w'] by (simp add: out free_inflight_def)
    moreover have "queue_inv c rt' w' (pend(r := None))"
      using qi r(2) by (auto simp: queue_inv_def out free_inflight_def queued_def)
    moreover have "head_waits rt' x" for x by (rule head_waits_mono [OF sw]) (use h in \<open>simp_all add: out free_inflight_def\<close>)
    ultimately show ?thesis using ok id sw True by (simp add: rb_inv_def retire_def e same_way_def)
  next
    case False
    have out: "rt' = rt" "w' = upd_rreq r (\<lambda>q. q\<lparr>r_initiator := r_initiator (w_req w r)\<rparr>) (upd_rreq r (\<lambda>q. q\<lparr>r_initiator := j\<rparr>) w)"
      using q rec False by (auto simp: rb_resp_muxed_def Let_def)
    have "rb_inv c n rt' w' pend" by (rule same_way_inv [OF _ i]) (auto simp: out same_way_def)
    then show ?thesis using ok h False by (simp add: retire_def e out)
  qed
qed

lemma rb_step_inv:
  assumes "rb_step c lookup down ((rt, d, w), pend) es ((rt', d', w'), pend')" "down_ok down"
    and i: "rb_inv c n rt w pend" and h: "\<forall>p. head_waits rt p"
  shows "rb_inv c n rt' w' pend' \<and> resps_ok n pend es \<and> (\<forall>p. head_waits rt' p)"
  using assms(1)
proof cases
  case (submit p r now st)
  then show ?thesis using rb_req_muxed_inv [OF _ assms(2) i h] by simp
next
  case (respond r e)
  then show ?thesis using rb_resp_muxed_inv [OF _ i h] by simp
next
  case (retry now po)
  then show ?thesis using rb_retry_muxed_inv [OF _ assms(2) i h] by simp
next
  case env
  then show ?thesis using h same_way_inv [OF _ i, of rt' w'] by (simp add: env_ok_def same_way_def)
qed

lemma rb_reach_inv:
  assumes "rb_reach c lookup down n s" "down_ok down"
  shows "rb_inv c n (fst (fst s)) (snd (snd (fst s))) (snd s) \<and> (\<forall>p. head_waits (fst (fst s)) p)"
  using assms
proof (induction rule: rb_reach.induct)
  case (start rt d w)
  then show ?case by (simp add: rb_init_def rb_inv_def queue_inv_def ifl_inv_def queued_def head_waits_def)
next
  case (more s es s')
  obtain rt d w pend rt' d' w' pend' where "s = ((rt, d, w), pend)" "s' = ((rt', d', w'), pend')" by (metis surj_pair)
  then show ?case using rb_step_inv [of c lookup down rt d w pend es rt' d' w' pend' n] more by auto
qed

section \<open>Responses and progress\<close>

text \<open>
  C16: whatever the order of submissions, responses of the components behind the outputs and retries, a response that the bandwidth router
  gives is for a request that it accepted and did not complete, goes to the input that submitted it and carries the initiator that the master
  had set; the last one completes the request. So the router implements the table of pending requests.
\<close>

theorem router_responses:
  assumes "rb_reach c lookup down n s" "rb_step c lookup down s es s'" "down_ok down"
  shows "resps_ok n (snd s) es"
proof -
  obtain rt d w pend rt' d' w' pend' where "s = ((rt, d, w), pend)" "s' = ((rt', d', w'), pend')" by (metis surj_pair)
  then show ?thesis using rb_reach_inv [OF assms(1,3)] rb_step_inv [of c lookup down rt d w pend es rt' d' w' pend' n] assms(2,3) by auto
qed

text \<open>
  C17: no accepted request is lost or left behind. A pending request is in the queue of its input with its initiator, or in the hands of a component behind
  an output with a record that leads back to its input; and the head of a queue waits for an output that a downstream denied and has not yet retried.
\<close>

theorem router_no_request_lost:
  assumes "rb_reach c lookup down n ((rt, d, w), pend)" "down_ok down"
  shows "(pend r = Some (p, i) \<longrightarrow>
      (\<exists>po. (r, po) \<in> set (ip_queue (rt_in rt p)) \<and> r_initiator (w_req w r) = i) \<or> w_ifl w (r_initiator (w_req w r)) = \<lparr>if_input = (n, p), if_saved = i\<rparr>)
    \<and> (ip_queue (rt_in rt p) = (r, po) # qs \<longrightarrow> op_stalled (rt_out rt po) \<and> pend r = Some (p, r_initiator (w_req w r)))"
proof -
  have i: "queue_inv c rt w pend" "ifl_inv n (rt_free rt) w (pend |` (- queued rt))" "head_waits rt p"
    using rb_reach_inv [OF assms] by (auto simp: rb_inv_def)
  have "(\<exists>po. (r, po) \<in> set (ip_queue (rt_in rt p)) \<and> r_initiator (w_req w r) = i) \<or> w_ifl w (r_initiator (w_req w r)) = \<lparr>if_input = (n, p), if_saved = i\<rparr>"
    if pr: "pend r = Some (p, i)"
  proof (cases "r \<in> queued rt")
    case True
    then obtain q po where "(r, po) \<in> set (ip_queue (rt_in rt q))" by (auto simp: queued_iff)
    then show ?thesis using queue_invD(2) [OF i(1), of r po q] pr by auto
  next
    case False
    then have "(pend |` (- queued rt)) r = Some (p, i)" using pr by simp
    then show ?thesis using i(2) unfolding ifl_inv_def by blast
  qed
  moreover have "op_stalled (rt_out rt po) \<and> pend r = Some (p, r_initiator (w_req w r))" if "ip_queue (rt_in rt p) = (r, po) # qs"
    using i(3) queue_invD(2) [OF i(1), of r po p] that by (simp add: head_waits_def)
  ultimately show ?thesis by blast
qed

section \<open>Retries empty the queues\<close>

definition accepts :: "'d rdown \<Rightarrow> bool" where
  "accepts down \<longleftrightarrow> (\<forall>po d w r. snd (snd (down po d w r)) \<noteq> IO_REQ_DENIED)"

lemma forward_accepts:
  assumes "accepts down" "forward_inline c down p r po now (rt, d, w) = ((rt', d', w'), st)"
  shows "st \<noteq> IO_REQ_DENIED" "op_stalled (rt_out rt' x) = op_stalled (rt_out rt x)"
proof -
  obtain d1 w1 st1 where dn: "down po d (upd_rreq r (rb_translate (rc_maps c ! po)) w) r = (d1, w1, st1)" by (metis prod_cases3)
  have n: "st1 \<noteq> IO_REQ_DENIED" using assms(1) dn unfolding accepts_def by (metis snd_conv)
  note fs = assms(2) [unfolded forward_inline_def Let_def dn prod.case]
  show "st \<noteq> IO_REQ_DENIED" using fs n by (cases st1) (auto split: prod.splits)
  show "op_stalled (rt_out rt' x) = op_stalled (rt_out rt x)"
    using fs n by (cases st1) (auto simp: rb_advance_def alloc_inflight_def split: prod.splits list.splits if_splits)
qed

lemma rb_drain_accepts:
  assumes "accepts down" "rb_drain c down p now qs (rt, d, w) = ((rt', d', w'), es)"
  shows "op_stalled (rt_out rt' x) = op_stalled (rt_out rt x)"
  using assms(2)
proof (induction qs arbitrary: rt d w es)
  case (Cons h qs)
  obtain r po where h: "h = (r, po)" by fastforce
  obtain rt1 d1 w1 st where f: "forward_inline c down p r po now (set_queue p qs rt, d, w) = ((rt1, d1, w1), st)" by (metis surj_pair)
  have st: "op_stalled (rt_out rt1 x) = op_stalled (rt_out rt x)" "st \<noteq> IO_REQ_DENIED" using forward_accepts [OF assms(1) f] by auto
  show ?case using Cons.prems Cons.IH [of rt1 d1 w1] st f by (cases st) (auto simp: h split: if_splits prod.splits)
qed simp

lemma rb_retry_loop_accepts:
  assumes "accepts down" "rb_retry_loop c down now po ps (rt, d, w) = ((rt', d', w'), es)"
  shows "op_stalled (rt_out rt' x) = op_stalled (rt_out rt x)"
  using assms(2)
proof (induction ps arbitrary: rt d w es)
  case (Cons p ps)
  obtain rt1 d1 w1 es1 es2 where
    s1: "(case ip_queue (rt_in rt p) of [] \<Rightarrow> ((rt, d, w), []) | (r, po') # _ \<Rightarrow>
      if po' = po then rb_drain c down p now (ip_queue (rt_in rt p)) (rt, d, w) else ((rt, d, w), [])) = ((rt1, d1, w1), es1)"
    and s2: "rb_retry_loop c down now po ps (rt1, d1, w1) = ((rt', d', w'), es2)"
    using Cons.prems by (auto simp: drain_queue_def split: prod.splits list.splits if_splits)
  have "rb_drain c down p now (ip_queue (rt_in rt p)) (rt, d, w) = ((rt1, d1, w1), es1) \<or> rt1 = rt"
    using s1 by (auto simp del: rb_drain.simps split: list.splits if_splits)
  then have "op_stalled (rt_out rt1 x) = op_stalled (rt_out rt x)" using rb_drain_accepts [OF assms(1)] by metis
  then show ?case using Cons.IH [OF s2] by simp
qed simp

text \<open>
  When the output that stalls the router is retried and the components behind the outputs accept again, the queues of all inputs become empty: every
  request that the router had taken over is forwarded.
\<close>

theorem retry_empties_queues:
  assumes "rb_reach c lookup down0 n ((rt, d, w), pend)" "down_ok down0" "down_ok down" "accepts down"
    and "\<forall>x. op_stalled (rt_out rt x) \<longrightarrow> x = po" "rb_retry_muxed c down now po (rt, d, w) = ((rt', d', w'), es)"
  shows "ip_queue (rt_in rt' p) = []"
proof -
  have "head_waits rt' p" using rb_retry_muxed_inv [OF assms(6,3)] rb_reach_inv [OF assms(1,2)] by auto
  moreover have "\<not> op_stalled (rt_out rt' x)" for x
    using rb_retry_loop_accepts [OF assms(4), of c now po "[0..<rc_inputs c]"] assms(5,6) by (auto simp: rb_retry_muxed_def split: if_splits)
  ultimately show ?thesis by (auto simp: head_waits_def split: list.splits)
qed

section \<open>Bandwidth\<close>

lemma burst_duration_covers:
  assumes "0 < rc_bandwidth c" "0 \<le> sint sz"
  shows "sint sz \<le> rc_bandwidth c * burst_duration c sz"
proof -
  have eq: "burst_duration c sz = (sint sz + rc_bandwidth c - 1) div rc_bandwidth c"
    using assms by (auto simp: burst_duration_def signed_divide_int_def sgn_if)
  have "sint sz + rc_bandwidth c - 1 = rc_bandwidth c * ((sint sz + rc_bandwidth c - 1) div rc_bandwidth c) + (sint sz + rc_bandwidth c - 1) mod rc_bandwidth c"
    by simp
  moreover have "(sint sz + rc_bandwidth c - 1) mod rc_bandwidth c < rc_bandwidth c" using assms by simp
  ultimately show ?thesis unfolding eq by linarith
qed

lemma rb_wait_bounds:
  "0 \<le> rb_wait rt p po now" "ip_next (rt_in rt p) \<le> now + rb_wait rt p po now" "op_next (rt_out rt po) \<le> now + rb_wait rt p po now"
  by (auto simp: rb_wait_def)

text \<open>
  C30: neither an input nor an output moves more bytes than its bandwidth allows: an accepted request of \<open>size\<close> bytes occupies both ports from a cycle
  that is neither in the past nor before the end of an earlier transfer of either port, for at least \<open>size / bandwidth\<close> cycles, and the next
  transfer of either port starts after it. The cycles that the request waits are added to its latency with those of the router and the mapping.
\<close>

theorem router_bandwidth:
  assumes "0 < rc_bandwidth c" "0 \<le> sint (r_size (w_req w r))"
    and f: "forward_inline c down p r po now (rt, d, w) = ((rt', d', w'), st)" "st \<noteq> IO_REQ_DENIED"
  shows "\<exists>start. now \<le> start \<and> ip_next (rt_in rt p) \<le> start \<and> op_next (rt_out rt po) \<le> start \<and>
      sint (r_size (w_req w r)) \<le> rc_bandwidth c * (op_next (rt_out rt' po) - start) \<and> ip_next (rt_in rt' p) = op_next (rt_out rt' po) \<and>
      r_latency (w_req w' r) = r_latency (w_req (fst (snd (down po d (upd_rreq r (rb_translate (rc_maps c ! po)) w) r))) r)
        + (start - now) + rc_latency c + mp_latency (rc_maps c ! po)"
proof -
  obtain d1 w1 st1 where dn: "down po d (upd_rreq r (rb_translate (rc_maps c ! po)) w) r = (d1, w1, st1)" by (metis prod_cases3)
  note fs = f(1) [unfolded forward_inline_def Let_def dn prod.case]
  let ?till = "now + rb_wait rt p po now + burst_duration c (r_size (w_req w r))"
  have "op_next (rt_out rt' po) = ?till \<and> ip_next (rt_in rt' p) = ?till \<and>
      r_latency (w_req w' r) = r_latency (w_req w1 r) + rb_wait rt p po now + rc_latency c + mp_latency (rc_maps c ! po)"
    using fs f(2) by (cases st1) (auto simp: rb_advance_def alloc_inflight_def rb_annotate_def split: prod.splits list.splits)
  then show ?thesis using burst_duration_covers [OF assms(1,2)] dn
      rb_wait_bounds [where rt = rt and p = p and po = po and now = now] by (intro exI [of _ "now + rb_wait rt p po now"]) simp
qed

section \<open>Two bandwidth routers in series\<close>

text \<open>The second router as the component behind the outputs of the first, on its input \<open>q\<close>.\<close>

definition series :: "router_config \<Rightarrow> rlookup \<Rightarrow> 'd rdown \<Rightarrow> nat \<Rightarrow> int \<Rightarrow> (router \<times> 'd) rdown" where
  "series c lookup down q now = (\<lambda>po (rt, d) w r. case rb_req_muxed c lookup down q r now (rt, d, w) of ((rt', d', w'), st) \<Rightarrow> ((rt', d'), w', st))"

text \<open>
  C37: the record of the outer router is installed after the forward, so it lies on top of the record of the inner one. When two bandwidth routers are in
  series and the inner one hands the request over, the response that the inner router gives goes to the input of the outer router, past the outer
  router, and carries the inner router's own record as initiator, in place of the initiator of the master.
\<close>

theorem series_response_misrouted:
  assumes "rb_req_muxed co lo (series ci li down q now) p r now (rto, (rti, d), w) = ((rto', (rti', d'), w'), IO_REQ_GRANTED)"
    and "route co lo (w_req w r) = Some po" "\<not> op_stalled (rt_out rto po)"
    and "route ci li (rb_translate (rc_maps co ! po) (w_req w r)) = Some pi" "\<not> op_stalled (rt_out rti pi)"
    and "\<forall>x d w r. down x d w r = (d, w, IO_REQ_GRANTED)" "rt_free rto = []" "rt_free rti = []"
  shows "\<exists>e. snd (snd (rb_resp_muxed r rti' w')) = e \<and> rs_input e = (rt_id rto, p) \<and>
    w_ifl w' (rs_initiator e) = \<lparr>if_input = (rt_id rti, q), if_saved = r_initiator (w_req w r)\<rparr>"
  using assms
  by (auto simp: rb_req_muxed_def series_def forward_inline_def Let_def alloc_inflight_def rb_resp_muxed_def rb_count_def rb_annotate_def rb_advance_def
      split: if_splits prod.splits)

section \<open>A router with two outputs\<close>

text \<open>
  The component behind the outputs denies the outputs \<open>fst d\<close> and notes in \<open>snd d\<close> the requests that it takes over, with the output; requests go to output 1 from address \<open>256\<close> on.
\<close>

definition two_maps :: router_config where
  "two_maps = \<lparr>rc_bandwidth = 4, rc_latency = 1, rc_error = None,
     rc_maps = [\<lparr>mp_base = 0, mp_size = 256, mp_remove = 0, mp_add = 0, mp_latency = 0\<rparr>,
                \<lparr>mp_base = 256, mp_size = 256, mp_remove = 256, mp_add = 0, mp_latency = 2\<rparr>],
     rc_bound = (\<lambda>_. True), rc_inputs = 2\<rparr>"

definition two_lookup :: rlookup where
  "two_lookup a sz wr = (if a < 256 then Some 0 else if a < 512 then Some 1 else None)"

definition two_down :: "(nat list \<times> (nat \<times> req_ref) list) rdown" where
  "two_down = (\<lambda>po (deny, log) w r. if po \<in> set deny then ((deny, log), w, IO_REQ_DENIED) else ((deny, log @ [(po, r)]), w, IO_REQ_GRANTED))"

definition two_req :: "u64 \<Rightarrow> initiator \<Rightarrow> rreq" where
  "two_req a i = \<lparr>r_addr = a, r_size = 8, r_data = 0, r_second_data = 0, r_strb = 0, r_is_write = False, r_opcode = OP_READ, r_initiator = i,
     r_latency = 0, r_resp_status = IO_RESP_OK, r_remaining_size = 0, r_memcheck_data = 0, r_memcheck_data_id = 0,
     r_duration = 0, r_is_last = True\<rparr>"

definition two_router :: "nat \<Rightarrow> router" where
  "two_router n = \<lparr>rt_id = n, rt_in = (\<lambda>_. \<lparr>ip_next = 0, ip_queue = []\<rparr>),
     rt_out = (\<lambda>_. \<lparr>op_next = 0, op_stalled = False, op_last_logged = - 1, op_nb_logged = 0\<rparr>),
     rt_free = [], rt_reads = 0, rt_writes = 0, rt_bytes_read = 0, rt_bytes_written = 0, rt_errors = 0\<rparr>"

definition two_world :: world where
  "two_world = \<lparr>w_req = (\<lambda>r. if r = 2 then two_req 264 71 else two_req 16 72), w_ifl = (\<lambda>_. \<lparr>if_input = (0, 0), if_saved = 0\<rparr>), w_next = 100\<rparr>"

lemma two_down_ok: "down_ok two_down"
  by (auto simp: down_ok_def two_down_def split: if_splits)

definition two_submit :: "req_ref \<Rightarrow> router \<times> (nat list \<times> (nat \<times> req_ref) list) \<times> world \<Rightarrow> router \<times> (nat list \<times> (nat \<times> req_ref) list) \<times> world" where
  "two_submit r s = fst (rb_req_muxed two_maps two_lookup two_down 0 r 0 s)"

lemma two_submit_reach:
  assumes "rb_reach two_maps two_lookup two_down n (s, pend)" "pend r = None" "snd (rb_req_muxed two_maps two_lookup two_down 0 r 0 s) = IO_REQ_GRANTED"
  shows "rb_reach two_maps two_lookup two_down n (two_submit r s, pend(r \<mapsto> (0, r_initiator (w_req (snd (snd s)) r))))"
proof -
  obtain rt d w where s: "s = (rt, d, w)" by (metis prod_cases3)
  have "rb_req_muxed two_maps two_lookup two_down 0 r 0 (rt, d, w) = (two_submit r s, IO_REQ_GRANTED)"
    using assms(3) by (simp add: two_submit_def s prod_eq_iff)
  then have "rb_step two_maps two_lookup two_down ((rt, d, w), pend) [] (two_submit r s, pend(r \<mapsto> (0, r_initiator (w_req w r))))"
    using rb_step.submit [of 0 two_maps pend r two_lookup two_down 0 rt d w "two_submit r s" IO_REQ_GRANTED] assms(2) by (simp add: two_maps_def)
  then show ?thesis using assms(1) by (auto simp: s intro: rb_reach.more)
qed

definition two_s2 :: "router \<times> (nat list \<times> (nat \<times> req_ref) list) \<times> world" where
  "two_s2 = two_submit 3 (two_submit 2 (two_router 7, ([0, 1], []), two_world))"

definition two_s3 :: "router \<times> (nat list \<times> (nat \<times> req_ref) list) \<times> world" where
  "two_s3 = fst (rb_retry_muxed two_maps two_down 0 0 (fst two_s2, ([1], []), snd (snd two_s2)))"

definition two_s4 :: "router \<times> (nat list \<times> (nat \<times> req_ref) list) \<times> world" where
  "two_s4 = two_submit 4 two_s3"

lemma two_s2_reach: "rb_reach two_maps two_lookup two_down 7 (two_s2, [2 \<mapsto> (0, 71), 3 \<mapsto> (0, 72)])"
proof -
  have 0: "rb_reach two_maps two_lookup two_down 7 ((two_router 7, ([0, 1], []), two_world), Map.empty)"
    by (rule rb_reach.start) (simp add: rb_init_def two_router_def)
  have 1: "snd (rb_req_muxed two_maps two_lookup two_down 0 2 0 (two_router 7, ([0, 1], []), two_world)) = IO_REQ_GRANTED"
    "r_initiator (w_req two_world 2) = 71"
    by code_simp+
  have 2: "snd (rb_req_muxed two_maps two_lookup two_down 0 3 0 (two_submit 2 (two_router 7, ([0, 1], []), two_world))) = IO_REQ_GRANTED"
    "r_initiator (w_req (snd (snd (two_submit 2 (two_router 7, ([0, 1], []), two_world)))) 3) = 72"
    by code_simp+
  show ?thesis using two_submit_reach [OF two_submit_reach [OF 0 _ 1(1)] _ 2(1)] 1(2) 2(2) by (simp add: two_s2_def)
qed

lemma two_s3_reach: "rb_reach two_maps two_lookup two_down 7 (two_s3, [2 \<mapsto> (0, 71), 3 \<mapsto> (0, 72)])"
proof -
  obtain rt d w where s: "two_s2 = (rt, d, w)" by (metis prod_cases3)
  have "rb_reach two_maps two_lookup two_down 7 ((rt, ([1], []), w), [2 \<mapsto> (0, 71), 3 \<mapsto> (0, 72)])"
    by (rule rb_reach.more [OF two_s2_reach]) (auto simp: s env_ok_def intro: rb_step.env)
  moreover have "snd (rb_retry_muxed two_maps two_down 0 0 (fst two_s2, ([1], []), snd (snd two_s2))) = []" by code_simp
  then have "rb_retry_muxed two_maps two_down 0 0 (rt, ([1], []), w) = (two_s3, [])" by (simp add: two_s3_def s prod_eq_iff)
  then have "rb_step two_maps two_lookup two_down ((rt, ([1], []), w), [2 \<mapsto> (0, 71), 3 \<mapsto> (0, 72)]) [] (two_s3, [2 \<mapsto> (0, 71), 3 \<mapsto> (0, 72)])"
    using rb_step.retry [where es = "[]" and c = two_maps and lookup = two_lookup and pend = "[2 \<mapsto> (0, 71), 3 \<mapsto> (0, 72)]"] by simp
  ultimately show ?thesis by (rule rb_reach.more)
qed

text \<open>
  A request overtakes an earlier one of the same input to the same output. Input 0 submits request 2 to output 1 and request 3 to output 0, and both outputs
  deny; when output 0 is retried, the queue is not drained, because request 2 is at its head. Request 4 of input 0 to output 0 is then forwarded at once,
  and request 3 still waits.
\<close>

theorem router_overtakes:
  "\<exists>rt w pend. rb_reach two_maps two_lookup two_down 7 ((rt, ([1], [(0, 4)]), w), pend) \<and>
     ip_queue (rt_in rt 0) = [(2, 1), (3, 0)] \<and> \<not> op_stalled (rt_out rt 0) \<and> pend 3 = Some (0, 72) \<and> pend 4 = Some (0, 72)"
proof -
  have "snd (rb_req_muxed two_maps two_lookup two_down 0 4 0 two_s3) = IO_REQ_GRANTED" "r_initiator (w_req (snd (snd two_s3)) 4) = 72"
    by code_simp+
  then have "rb_reach two_maps two_lookup two_down 7 (two_s4, [2 \<mapsto> (0, 71), 3 \<mapsto> (0, 72), 4 \<mapsto> (0, 72)])"
    using two_submit_reach [OF two_s3_reach, of 4] by (simp add: two_s4_def)
  moreover have "ip_queue (rt_in (fst two_s4) 0) = [(2, 1), (3, 0)]" "fst (snd two_s4) = ([1], [(0, 4)])" "\<not> op_stalled (rt_out (fst two_s4) 0)"
    by code_simp+
  moreover obtain rt d w where s: "two_s4 = (rt, d, w)" by (metis prod_cases3)
  ultimately have "rb_reach two_maps two_lookup two_down 7 ((rt, ([1], [(0, 4)]), w), [2 \<mapsto> (0, 71), 3 \<mapsto> (0, 72), 4 \<mapsto> (0, 72)]) \<and>
     ip_queue (rt_in rt 0) = [(2, 1), (3, 0)] \<and> \<not> op_stalled (rt_out rt 0)" unfolding s by simp
  then show ?thesis by (intro exI [of _ rt] exI [of _ w] exI [of _ "[2 \<mapsto> (0, 71), 3 \<mapsto> (0, 72), 4 \<mapsto> (0, 72)]"]) simp
qed

section \<open>Witnesses\<close>

lemma two_start_reach: "rb_reach two_maps two_lookup two_down 7 ((two_router 7, d, two_world), Map.empty)"
  by (rule rb_reach.start) (simp add: rb_init_def two_router_def)

theorem router_no_request_lost_witness:
  "op_stalled (rt_out (fst two_s2) 1) \<and> [2 \<mapsto> (0, 71), 3 \<mapsto> (0, 72)] (2 :: nat) = Some (0 :: nat, r_initiator (w_req (snd (snd two_s2)) 2))"
proof -
  obtain rt d w where s: "two_s2 = (rt, d, w)" by (metis prod_cases3)
  have "ip_queue (rt_in (fst two_s2) 0) = [(2, 1), (3, 0)]" by code_simp
  then show ?thesis
    using router_no_request_lost [OF two_s2_reach [unfolded s] two_down_ok, of 2 0 71 1 "[(3, 0)]"] by (simp add: s)
qed

theorem router_bandwidth_witness:
  "\<exists>start. (0 :: int) \<le> start \<and> 8 \<le> 4 * (op_next (rt_out (fst (fst (forward_inline two_maps two_down 0 3 0 0 (two_router 7, ([], []), two_world)))) 0) - start)"
proof -
  obtain rt d w st where s: "forward_inline two_maps two_down 0 3 0 0 (two_router 7, ([], []), two_world) = ((rt, d, w), st)" by (metis surj_pair)
  have "snd (forward_inline two_maps two_down 0 3 0 0 (two_router 7, ([], []), two_world)) = IO_REQ_GRANTED" by code_simp
  then have st: "st \<noteq> IO_REQ_DENIED" by (simp add: s)
  have sz: "sint (r_size (w_req two_world 3)) = 8" "rc_bandwidth two_maps = 4" by code_simp+
  show ?thesis using router_bandwidth [OF _ _ s st] by (auto simp: s sz)
qed

theorem router_responses_witness:
  "resps_ok 7 [2 \<mapsto> (0, 71)] [\<lparr>rs_input = (7, 0), rs_req = 2, rs_initiator = 71, rs_last = True\<rparr>]"
proof -
  let ?s = "two_submit 2 (two_router 7, ([], []), two_world)" and ?e = "\<lparr>rs_input = (7, 0), rs_req = 2, rs_initiator = 71, rs_last = True\<rparr>"
  obtain rt d w where s: "?s = (rt, d, w)" by (metis prod_cases3)
  have "snd (rb_req_muxed two_maps two_lookup two_down 0 2 0 (two_router 7, ([], []), two_world)) = IO_REQ_GRANTED"
    "r_initiator (w_req two_world 2) = 71"
    by code_simp+
  then have re: "rb_reach two_maps two_lookup two_down 7 ((rt, d, w), [2 \<mapsto> (0, 71)])"
    using two_submit_reach [OF two_start_reach, of 2 "([], [])"] by (simp add: s)
  have "r_initiator (w_req (snd (snd ?s)) 2) = 100" by code_simp
  then have nq: "2 \<notin> queued rt"
    using rb_reach_inv [OF re two_down_ok] queue_invD(2) [of two_maps rt w "[2 \<mapsto> (0, 71)]" 2] by (auto simp: s rb_inv_def queued_iff)
  have "snd (snd (rb_resp_muxed 2 (fst ?s) (snd (snd ?s)))) = ?e" by code_simp
  then obtain rt' w' where r: "rb_resp_muxed 2 rt w = (rt', w', ?e)" by (cases "rb_resp_muxed 2 rt w") (auto simp: s)
  show ?thesis using router_responses [OF re rb_step.respond [OF _ nq r] two_down_ok] by simp
qed

theorem retry_empties_queues_witness:
  "ip_queue (rt_in (fst (fst (rb_retry_muxed two_maps (\<lambda>po d w r. (d, w, IO_REQ_DONE)) 5 1 (two_submit 2 (two_router 7, ([1], []), two_world))))) 0) = []"
proof -
  let ?s = "two_submit 2 (two_router 7, ([1], []), two_world)"
  let ?down = "\<lambda>po d w r. (d :: nat list \<times> (nat \<times> req_ref) list, w, IO_REQ_DONE)"
  obtain rt d w where s: "?s = (rt, d, w)" by (metis prod_cases3)
  have g: "snd (rb_req_muxed two_maps two_lookup two_down 0 2 0 (two_router 7, ([1], []), two_world)) = IO_REQ_GRANTED" by code_simp
  have re: "rb_reach two_maps two_lookup two_down 7 ((rt, d, w), [2 \<mapsto> (0, r_initiator (w_req two_world 2))])"
    using two_submit_reach [OF two_start_reach _ g] unfolding s by simp
  have "route two_maps two_lookup (w_req two_world 2) = Some 1" by code_simp
  then have st: "\<forall>x. op_stalled (rt_out (fst ?s) x) \<longrightarrow> x = 1"
    by (auto simp: two_submit_def rb_req_muxed_def rb_count_def forward_inline_def two_down_def two_router_def Let_def)
  obtain rt' d' w' es where r: "rb_retry_muxed two_maps ?down 5 1 (rt, d, w) = ((rt', d', w'), es)" by (metis surj_pair)
  have "down_ok ?down" "accepts ?down" by (simp_all add: down_ok_def accepts_def)
  then show ?thesis using retry_empties_queues [OF re two_down_ok _ _ _ r, of 0] st unfolding s r by simp
qed

theorem series_response_misrouted_witness:
  "\<exists>rti w e. snd (snd (rb_resp_muxed 3 rti w)) = e \<and> rs_input e = (7, 0) \<and> w_ifl w (rs_initiator e) = \<lparr>if_input = (8, 1), if_saved = 72\<rparr>"
proof -
  let ?down = "\<lambda>x d w r. (d, w, IO_REQ_GRANTED) :: unit \<times> world \<times> io_req_status"
  obtain rto rti d w st where s: "rb_req_muxed two_maps two_lookup (series two_maps two_lookup ?down 1 0) 0 3 0 (two_router 7, (two_router 8, ()), two_world) =
    ((rto, (rti, d), w), st)"
    by (metis surj_pair)
  have "snd (rb_req_muxed two_maps two_lookup (series two_maps two_lookup ?down 1 0) 0 3 0 (two_router 7, (two_router 8, ()), two_world)) = IO_REQ_GRANTED"
    by code_simp
  then have g: "st = IO_REQ_GRANTED" unfolding s by simp
  have c: "route two_maps two_lookup (w_req two_world 3) = Some 0"
    "route two_maps two_lookup (rb_translate (rc_maps two_maps ! 0) (w_req two_world 3)) = Some 0" "r_initiator (w_req two_world 3) = 72"
    by code_simp+
  show ?thesis using series_response_misrouted [OF s [unfolded g] c(1) _ c(2)] by (auto simp: two_router_def c(3))
qed

end
