(* ===== verification/Prefetch_V2.thy ===== *)
theory Prefetch_V2
  imports IO_V2
begin

unbundle bit_operations_syntax

text \<open>
  Instruction fetch: the instruction cache \<^verbatim>\<open>src/models/cpu/iss_v2/src/insn_cache.cpp\<close>, which holds the decoded instructions in pages, and the prefetch buffer of one line,
  \<^verbatim>\<open>prefetch/prefetch_single_line.cpp\<close>, for the build without MMU. Pages are objects: an instruction is named by its page and its slot, and a page that was deleted is
  gone; using it is undefined (\<open>None\<close>). The names of new pages come from the allocator of the host, a parameter of the state: it may give the name of a deleted page again.
  The memory behind the fetch port is a parameter too.
\<close>

section \<open>The instruction cache\<close>

record 'w insn_slot =
  is_addr :: "'w"
  is_opcode :: u32
  is_decoded :: bool

type_synonym insn_ref = "nat \<times> nat"

text \<open>
  \<open>ic_cur\<close> is \<^verbatim>\<open>current_insn_page\<close>, not initialised before the first use; \<open>ic_alloc n\<close> is the address of the page that the \<open>n\<close>-th \<^verbatim>\<open>new\<close> returns.
\<close>

record 'w icache =
  ic_pages :: "'w \<rightharpoonup> nat"
  ic_heap :: "nat \<rightharpoonup> 'w insn_slot list"
  ic_alloc :: "nat \<Rightarrow> nat"
  ic_next :: nat
  ic_cur :: "nat option"
  ic_base :: "'w"
  ic_generation :: nat

definition INSN_PAGE_BITS :: nat where "INSN_PAGE_BITS = 9"

definition INSN_PAGE_SIZE :: nat where "INSN_PAGE_SIZE = 2 ^ (INSN_PAGE_BITS - 1)"

definition mode_flush :: "'x::len word icache \<Rightarrow> 'x word icache" where
  "mode_flush ic = ic\<lparr>ic_generation := Suc (ic_generation ic), ic_base := - (of_nat INSN_PAGE_SIZE * 2)\<rparr>"

definition ic_flush :: "'x::len word icache \<Rightarrow> 'x word icache" where
  "ic_flush ic = mode_flush (ic\<lparr>ic_heap := Map.empty, ic_pages := Map.empty\<rparr>)"

text \<open>The opcode of a new instruction is not initialised; \<open>0\<close> stands for what is there.\<close>

definition insn_init :: "'x::len word \<Rightarrow> 'x word insn_slot" where
  "insn_init a = \<lparr>is_addr = a, is_opcode = 0, is_decoded = False\<rparr>"

definition page_get :: "'x::len word \<Rightarrow> 'x word icache \<Rightarrow> 'x word icache \<times> nat" where
  "page_get paddr ic =
     (let index = drop_bit INSN_PAGE_BITS paddr
      in case ic_pages ic index of
           Some p \<Rightarrow> (ic, p)
         | None \<Rightarrow>
             let p = ic_alloc ic (ic_next ic);
                 page = map (\<lambda>i. insn_init (push_bit INSN_PAGE_BITS index + 2 * of_nat i)) [0..<INSN_PAGE_SIZE]
             in (ic\<lparr>ic_next := Suc (ic_next ic), ic_pages := (ic_pages ic)(index \<mapsto> p), ic_heap := (ic_heap ic)(p \<mapsto> page)\<rparr>, p))"

text \<open>The slot in the current page; \<open>None\<close> when there is no page there.\<close>

definition current_slot :: "nat \<Rightarrow> 'x::len word icache \<Rightarrow> insn_ref option" where
  "current_slot index ic = (case ic_cur ic of None \<Rightarrow> None | Some p \<Rightarrow> if ic_heap ic p = None then None else Some (p, index))"

definition page_index :: "'x::len word \<Rightarrow> 'x word icache \<Rightarrow> nat" where
  "page_index vaddr ic = unat (drop_bit 1 (vaddr - ic_base ic))"

definition get_insn_from_cache :: "'x::len word \<Rightarrow> 'x word icache \<Rightarrow> ('x word icache \<times> insn_ref) option" where
  "get_insn_from_cache vaddr ic =
     (case page_get vaddr ic of (ic1, p) \<Rightarrow>
        let ic2 = ic1\<lparr>ic_cur := Some p, ic_base := push_bit INSN_PAGE_BITS (drop_bit INSN_PAGE_BITS vaddr)\<rparr>
        in map_option (\<lambda>r. (ic2, r)) (current_slot (page_index vaddr ic2) ic2))"

text \<open>The recursive call at the end of \<^verbatim>\<open>get_insn_from_cache\<close> finds the index in the page it has just selected, so it is the access to that page.\<close>

definition get_insn :: "'x::len word \<Rightarrow> 'x word icache \<Rightarrow> ('x word icache \<times> insn_ref) option" where
  "get_insn vaddr ic =
     (if page_index vaddr ic < INSN_PAGE_SIZE then map_option (\<lambda>r. (ic, r)) (current_slot (page_index vaddr ic) ic)
      else get_insn_from_cache vaddr ic)"

definition slot :: "'x::len word icache \<Rightarrow> insn_ref \<Rightarrow> 'x word insn_slot option" where
  "slot ic r = (case ic_heap ic (fst r) of None \<Rightarrow> None | Some page \<Rightarrow> if snd r < length page then Some (page ! snd r) else None)"

definition set_opcode :: "insn_ref \<Rightarrow> u32 \<Rightarrow> 'x::len word icache \<Rightarrow> 'x word icache" where
  "set_opcode r v ic =
     ic\<lparr>ic_heap := (ic_heap ic)(fst r := map_option (\<lambda>page. page[snd r := (page ! snd r)\<lparr>is_opcode := v\<rparr>]) (ic_heap ic (fst r)))\<rparr>"

section \<open>The prefetch buffer\<close>

datatype fetch_callback = After_Low | After_High

record 'w prefetch =
  pf_data :: "byte list"
  pf_start :: "'w"
  pf_insn :: "insn_ref option"
  pf_callback :: "fetch_callback option"
  pf_stall_opcode :: u32
  pf_current_pc :: "'w"

datatype fetch_event = FE_Imiss_Start | FE_Imiss_Stop | FE_Fetch | FE_Imiss int | FE_Fault | FE_Enable_Breakpoints

text \<open>\<open>fs_retain\<close> is the counter of \<^verbatim>\<open>exec.retain_inc\<close>, which keeps the core from executing.\<close>

record ('w, 'd) fsys =
  fs_pf :: "'w prefetch"
  fs_ic :: "'w icache"
  fs_down :: 'd
  fs_retain :: int
  fs_log :: "fetch_event list"

text \<open>A fetch request: address, buffer; the answer is the buffer, the latency and the statuses.\<close>

type_synonym ('w, 'd) fetch_port = "'d \<Rightarrow> 'w \<Rightarrow> byte list \<Rightarrow> 'd \<times> byte list \<times> int \<times> io_resp_status \<times> io_req_status"

abbreviation upd_pf :: "('x::len word prefetch \<Rightarrow> 'x word prefetch) \<Rightarrow> ('x word, 'd) fsys \<Rightarrow> ('x word, 'd) fsys" where
  "upd_pf f s \<equiv> s\<lparr>fs_pf := f (fs_pf s)\<rparr>"

definition fs_emit :: "fetch_event list \<Rightarrow> ('x::len word, 'd) fsys \<Rightarrow> ('x word, 'd) fsys" where
  "fs_emit es s = s\<lparr>fs_log := fs_log s @ es\<rparr>"

definition pf_flush :: "'x::len word prefetch \<Rightarrow> 'x word prefetch" where
  "pf_flush pf = pf\<lparr>pf_start := - 1\<rparr>"

definition pf_reset :: "bool \<Rightarrow> 'x::len word prefetch \<Rightarrow> 'x word prefetch" where
  "pf_reset active pf = (if active then (pf_flush pf)\<lparr>pf_insn := None\<rparr> else pf)"

datatype fill_result = Fill_Done | Fill_Fault | Fill_Pending

definition send_fetch_req :: "('x word, 'd) fetch_port \<Rightarrow> 'x::len word \<Rightarrow> ('x word, 'd) fsys \<Rightarrow> ('x word, 'd) fsys \<times> fill_result" where
  "send_fetch_req port a s =
     (case port (fs_down s) a (pf_data (fs_pf s)) of (d, bs, lat, rs, st) \<Rightarrow>
        let s1 = upd_pf (\<lambda>x. x\<lparr>pf_data := bs\<rparr>) (s\<lparr>fs_down := d\<rparr>)
        in if st = IO_REQ_DONE then
             if rs = IO_RESP_INVALID then (fs_emit [FE_Fault] s1, Fill_Fault)
             else (fs_emit (FE_Fetch # (if lat > 1 then [FE_Imiss lat] else [])) s1, Fill_Done)
           else (fs_emit [FE_Imiss_Start] s1, Fill_Pending))"

definition align_down :: "nat \<Rightarrow> 'x::len word \<Rightarrow> 'x word" where
  "align_down n a = a AND NOT (of_nat n - 1)"

definition pf_fill :: "nat \<Rightarrow> ('x word, 'd) fetch_port \<Rightarrow> 'x::len word \<Rightarrow> ('x word, 'd) fsys \<Rightarrow> ('x word, 'd) fsys \<times> fill_result" where
  "pf_fill n port a s = send_fetch_req port (align_down n a) (upd_pf (\<lambda>x. x\<lparr>pf_start := align_down n a\<rparr>) s)"

definition handle_stall :: "fetch_callback \<Rightarrow> insn_ref \<Rightarrow> ('x::len word, 'd) fsys \<Rightarrow> ('x word, 'd) fsys" where
  "handle_stall cb r s = upd_pf (\<lambda>x. x\<lparr>pf_callback := Some cb, pf_insn := Some r\<rparr>) (s\<lparr>fs_retain := fs_retain s + 1\<rparr>)"

text \<open>
  The load of an opcode from the buffer. When the opcode crosses the end of the line the load runs over the end of the buffer; the bytes from there are masked off or shifted in by
  the caller, and read as zeros here.
\<close>

definition load_opcode :: "byte list \<Rightarrow> nat \<Rightarrow> u32" where
  "load_opcode bs i = from_le (take 4 (drop i bs))"

definition next_line :: "nat \<Rightarrow> 'x::len word \<Rightarrow> 'x word" where
  "next_line n pc = align_down n (pc + of_nat n - 1)"

definition fetch_check_overflow :: "nat \<Rightarrow> ('x word, 'd) fetch_port \<Rightarrow> insn_ref \<Rightarrow> int \<Rightarrow> ('x::len word, 'd) fsys \<Rightarrow> (('x word, 'd) fsys \<times> bool) option" where
  "fetch_check_overflow n port r index s =
     (case slot (fs_ic s) r of
        None \<Rightarrow> None
      | Some insn \<Rightarrow>
          if index + 4 \<le> int n
          then Some (s\<lparr>fs_ic := set_opcode r (load_opcode (pf_data (fs_pf s)) (nat index)) (fs_ic s)\<rparr>, True)
          else
            let next_addr = next_line n (pf_current_pc (fs_pf s));
                nb_bytes = unat (next_addr - is_addr insn);
                opcode = load_opcode (pf_data (fs_pf s)) (nat index) AND mask (nb_bytes * 8)
            in case pf_fill n port next_addr s of
                 (s1, Fill_Pending) \<Rightarrow> Some (handle_stall After_High r (upd_pf (\<lambda>x. x\<lparr>pf_stall_opcode := opcode\<rparr>) s1), False)
               | (s1, Fill_Fault) \<Rightarrow> Some (s1, False)
               | (s1, Fill_Done) \<Rightarrow>
                   Some (s1\<lparr>fs_ic := set_opcode r (opcode OR push_bit (nb_bytes * 8) (load_opcode (pf_data (fs_pf s1)) 0)) (fs_ic s1)\<rparr>, True))"

definition fetch_refill :: "nat \<Rightarrow> ('x word, 'd) fetch_port \<Rightarrow> insn_ref \<Rightarrow> 'x::len word \<Rightarrow> int \<Rightarrow> ('x word, 'd) fsys \<Rightarrow> (('x word, 'd) fsys \<times> bool) option" where
  "fetch_refill n port r a index s =
     (if pf_insn (fs_pf s) = Some r then Some (s, True)
      else
        let s1 = upd_pf (\<lambda>x. x\<lparr>pf_insn := None\<rparr>) s
        in if index < 0 \<or> index \<ge> int n then
             (case pf_fill n port a s1 of
                (s2, Fill_Pending) \<Rightarrow> Some (handle_stall After_Low r s2, False)
              | (s2, Fill_Fault) \<Rightarrow> Some (s2, False)
              | (s2, Fill_Done) \<Rightarrow> fetch_check_overflow n port r (sint (ucast (a - pf_start (fs_pf s2)) :: u32)) s2)
           else fetch_check_overflow n port r index s1)"

definition fetch :: "nat \<Rightarrow> ('x word, 'd) fetch_port \<Rightarrow> 'x::len word \<Rightarrow> ('x word, 'd) fsys \<Rightarrow> (('x word, 'd) fsys \<times> bool) option" where
  "fetch n port a s = do {
     (ic, r) \<leftarrow> get_insn a (fs_ic s);
     let s1 = s\<lparr>fs_ic := ic\<rparr>;
     let index = (ucast (a - pf_start (fs_pf s1)) :: u32);
     if index \<le> of_nat n - 4
     then Some (s1\<lparr>fs_ic := set_opcode r (load_opcode (pf_data (fs_pf s1)) (unat index)) ic\<rparr>, True)
     else fetch_refill n port r a (sint index) (upd_pf (\<lambda>x. x\<lparr>pf_current_pc := a\<rparr>) s1)
   }"

definition resume_low :: "nat \<Rightarrow> ('x word, 'd) fetch_port \<Rightarrow> ('x::len word, 'd) fsys \<Rightarrow> ('x word, 'd) fsys option" where
  "resume_low n port s = do {
     r \<leftarrow> pf_insn (fs_pf s);
     insn \<leftarrow> slot (fs_ic s) r;
     (s1, _) \<leftarrow> fetch_check_overflow n port r (sint (ucast (is_addr insn - pf_start (fs_pf s)) :: u32)) s;
     Some s1
   }"

definition resume_high :: "nat \<Rightarrow> ('x::len word, 'd) fsys \<Rightarrow> ('x word, 'd) fsys option" where
  "resume_high n s = do {
     r \<leftarrow> pf_insn (fs_pf s);
     insn \<leftarrow> slot (fs_ic s) r;
     let nb_bytes = unat (next_line n (is_addr insn) - is_addr insn);
     Some (s\<lparr>fs_ic := set_opcode r (pf_stall_opcode (fs_pf s) OR push_bit (nb_bytes * 8) (load_opcode (pf_data (fs_pf s)) 0)) (fs_ic s)\<rparr>)
   }"

text \<open>The response comes with the buffer as the memory has filled it.\<close>

definition fetch_response :: "nat \<Rightarrow> ('x word, 'd) fetch_port \<Rightarrow> byte list \<Rightarrow> ('x::len word, 'd) fsys \<Rightarrow> ('x word, 'd) fsys option" where
  "fetch_response n port bs s =
     (let s1 = (fs_emit [FE_Imiss_Stop] (upd_pf (\<lambda>x. x\<lparr>pf_data := bs\<rparr>) s))\<lparr>fs_retain := fs_retain s - 1\<rparr>
      in case pf_callback (fs_pf s1) of
           None \<Rightarrow> Some s1
         | Some After_Low \<Rightarrow> resume_low n port s1
         | Some After_High \<Rightarrow> resume_high n s1)"

text \<open>What the execution loop does when a flush is pending, and the reset of both parts.\<close>

definition fetch_flush :: "('x::len word, 'd) fsys \<Rightarrow> ('x word, 'd) fsys" where
  "fetch_flush s = fs_emit [FE_Enable_Breakpoints] (upd_pf pf_flush (s\<lparr>fs_ic := ic_flush (fs_ic s)\<rparr>))"

definition ic_reset :: "bool \<Rightarrow> 'x::len word icache \<Rightarrow> 'x word icache" where
  "ic_reset active ic = (if active then ic_flush ic else ic)"

end
