(* ===== verification/Prefetch_V2_Props.thy ===== *)
theory Prefetch_V2_Props
  imports Prefetch_V2
begin

unbundle bit_operations_syntax

text \<open>
  The opcode that the prefetch buffer gives to the decoder is the one in memory, also when it crosses the end of a line and when lines arrive later; where the buffer is wrong.
\<close>

section \<open>Addresses\<close>

lemma align_down_pow:
  assumes "n = 2 ^ k" "k < LENGTH('x)"
  shows "align_down n (a :: 'x::len word) = push_bit k (drop_bit k a)"
proof -
  have "(of_nat n - 1 :: 'x word) = mask k" using assms by (simp add: mask_eq_exp_minus_1)
  then show ?thesis unfolding align_down_def by (intro bit_word_eqI) (auto simp: bit_simps)
qed

lemma unat_align_down_line:
  assumes "n = 2 ^ k" "k < LENGTH('x)"
  shows "unat (align_down n (a :: 'x::len word)) = unat a - unat a mod n"
proof -
  have "unat a < 2 ^ LENGTH('x)" by (rule unsigned_less)
  then have "unat a div 2 ^ k * 2 ^ k < 2 ^ LENGTH('x)" by (meson div_times_less_eq_dividend order.strict_trans1)
  moreover have "unat (push_bit k (drop_bit k a)) = take_bit LENGTH('x) (push_bit k (drop_bit k (unat a)))"
    using \<open>unat a < 2 ^ LENGTH('x)\<close> by (simp only: unsigned_push_bit_eq unsigned_drop_bit_eq take_bit_nat_eq_self)
  ultimately have "unat (push_bit k (drop_bit k a)) = unat a div 2 ^ k * 2 ^ k"
    by (simp add: push_bit_eq_mult [of k "_ :: nat"] drop_bit_eq_div [of k "_ :: nat"] take_bit_nat_eq_self)
  then show ?thesis using assms by (simp add: align_down_pow minus_mod_eq_div_mult)
qed

section \<open>Opcodes\<close>

definition line_bytes :: "nat \<Rightarrow> ('x::len word \<Rightarrow> byte) \<Rightarrow> 'x word \<Rightarrow> byte list" where
  "line_bytes n mem a = map (\<lambda>i. mem (a + of_nat i)) [0..<n]"

definition opcode_at :: "('x::len word \<Rightarrow> byte) \<Rightarrow> 'x word \<Rightarrow> u32" where
  "opcode_at mem a = from_le (line_bytes 4 mem a)"

lemma length_line_bytes [simp]: "length (line_bytes n mem a) = n"
  by (simp add: line_bytes_def)

lemma nth_line_bytes: "j < n \<Longrightarrow> line_bytes n mem a ! j = mem (a + of_nat j)"
  by (simp add: line_bytes_def)

lemma load_opcode_line:
  assumes "i + 4 \<le> n"
  shows "load_opcode (line_bytes n mem a) i = opcode_at mem (a + of_nat i)"
proof -
  have "take 4 (drop i (line_bytes n mem a)) = line_bytes 4 mem (a + of_nat i)"
    using assms by (intro nth_equalityI) (simp_all add: line_bytes_def add.assoc)
  then show ?thesis by (simp add: load_opcode_def opcode_at_def)
qed

text \<open>An opcode in two lines.\<close>

lemma opcode_split:
  assumes "i + m = n" "m \<le> 4" "4 \<le> n"
  shows "load_opcode (line_bytes n mem a) i AND mask (m * 8) = take_bit (m * 8) (opcode_at mem (a + of_nat i))"
    "take_bit (m * 8) (opcode_at mem (a + of_nat i)) OR push_bit (m * 8) (load_opcode (line_bytes n mem (a + of_nat n)) 0) = opcode_at mem (a + of_nat i)"
proof -
  have d: "k div 8 < m \<longleftrightarrow> k < m * 8" for k by (simp add: div_less_iff_less_mult)
  show "load_opcode (line_bytes n mem a) i AND mask (m * 8) = take_bit (m * 8) (opcode_at mem (a + of_nat i))"
  proof (rule bit_word_eqI)
    fix k assume "k < LENGTH(32)"
    have "k div 8 < m \<Longrightarrow> line_bytes n mem a ! (i + k div 8) = line_bytes 4 mem (a + of_nat i) ! (k div 8)"
      using assms by (simp add: line_bytes_def add.assoc)
    then show "bit (load_opcode (line_bytes n mem a) i AND mask (m * 8)) k = bit (take_bit (m * 8) (opcode_at mem (a + of_nat i))) k"
      using assms d [of k] \<open>k < LENGTH(32)\<close> by (auto simp: load_opcode_def opcode_at_def bit_simps bit_from_le)
  qed
  show "take_bit (m * 8) (opcode_at mem (a + of_nat i)) OR push_bit (m * 8) (load_opcode (line_bytes n mem (a + of_nat n)) 0) = opcode_at mem (a + of_nat i)"
  proof (rule bit_word_eqI)
    fix k assume k: "k < LENGTH(32)"
    have hi: "bit (load_opcode (line_bytes n mem (a + of_nat n)) 0) (k - m * 8) = bit (opcode_at mem (a + of_nat i)) k" if "m * 8 \<le> k"
    proof -
      obtain r where r: "k = m * 8 + r" using \<open>m * 8 \<le> k\<close> le_Suc_ex by blast
      have e: "(k - m * 8) div 8 = k div 8 - m" "(k - m * 8) mod 8 = k mod 8" "m \<le> k div 8" "k div 8 < 4" using k by (auto simp: r)
      have "n + (k div 8 - m) = i + k div 8" using e(3) assms(1) by simp
      then have "a + of_nat n + of_nat (k div 8 - m) = a + of_nat i + (of_nat (k div 8) :: 'a word)" by (metis add.assoc of_nat_add)
      moreover have "k div 8 - m < n" using e(4) assms(3) by linarith
      ultimately have "line_bytes n mem (a + of_nat n) ! (k div 8 - m) = line_bytes 4 mem (a + of_nat i) ! (k div 8)"
        using e(4) by (simp only: nth_line_bytes)
      moreover have "k - m * 8 < 32" "k div 8 - m < 4" using k e(4) by auto
      ultimately show ?thesis using e k assms by (simp add: load_opcode_def opcode_at_def bit_from_le)
    qed
    show "bit (take_bit (m * 8) (opcode_at mem (a + of_nat i)) OR push_bit (m * 8) (load_opcode (line_bytes n mem (a + of_nat n)) 0)) k = bit (opcode_at mem (a + of_nat i)) k"
      using hi k by (cases "m * 8 \<le> k") (auto simp: bit_simps)
  qed
qed

section \<open>The instruction cache\<close>

definition page_ok :: "u32 \<Rightarrow> u32 insn_slot list \<Rightarrow> bool" where
  "page_ok idx page \<longleftrightarrow> length page = INSN_PAGE_SIZE \<and> (\<forall>i<INSN_PAGE_SIZE. is_addr (page ! i) = push_bit INSN_PAGE_BITS idx + 2 * of_nat i)"

text \<open>The names given out so far.\<close>

definition used :: "u32 icache \<Rightarrow> nat set" where
  "used ic = ic_alloc ic ` {..<ic_next ic}"

definition current_ok :: "u32 icache \<Rightarrow> bool" where
  "current_ok ic \<longleftrightarrow> (\<exists>p. ic_cur ic = Some p \<and> ic_pages ic (drop_bit INSN_PAGE_BITS (ic_base ic)) = Some p) \<and>
     ic_base ic = push_bit INSN_PAGE_BITS (drop_bit INSN_PAGE_BITS (ic_base ic))"

definition ic_ok :: "u32 icache \<Rightarrow> bool" where
  "ic_ok ic \<longleftrightarrow> inj (ic_alloc ic) \<and> dom (ic_heap ic) \<subseteq> used ic \<and>
     (\<forall>idx p. ic_pages ic idx = Some p \<longrightarrow> (\<exists>page. ic_heap ic p = Some page \<and> page_ok idx page)) \<and>
     (ic_base ic = - 512 \<or> current_ok ic)"

text \<open>Later states of the cache keep the instructions.\<close>

definition ic_extends :: "u32 icache \<Rightarrow> u32 icache \<Rightarrow> bool" where
  "ic_extends ic ic' \<longleftrightarrow> used ic \<subseteq> used ic' \<and> (\<forall>r. fst r \<in> used ic \<longrightarrow> slot ic' r = slot ic r)"

lemma page_const [simp]: "INSN_PAGE_SIZE = 256" "INSN_PAGE_BITS = 9"
  by (simp_all add: INSN_PAGE_SIZE_def INSN_PAGE_BITS_def)

lemma unat_half: "unat (drop_bit 1 (d :: u32)) = unat d div 2"
  using drop_bit_eq_div [of 1 "unat d"] by (simp only: unat_drop_bit_eq power_one_right)

lemma even_half:
  assumes "\<not> bit (d :: u32) 0"
  shows "2 * of_nat (unat (drop_bit 1 d)) = d"
proof -
  have "even (unat d)" using assms by (metis bit_0 bit_unsigned_iff)
  moreover have "unat (drop_bit 1 d) = unat d div 2" by (rule unat_half)
  ultimately have "2 * of_nat (unat (drop_bit 1 d)) = (of_nat (unat d) :: u32)" by (metis even_two_times_div_two of_nat_mult of_nat_numeral)
  then show ?thesis by simp
qed

lemma unat_plus_small:
  assumes "unat a + m < 2 ^ 32"
  shows "unat (a + of_nat m :: u32) = unat a + m"
proof -
  have "m < 2 ^ LENGTH(32)" using assms by simp
  then have "unat (of_nat m :: u32) = m" by (simp only: unat_of_nat mod_less)
  then show ?thesis using assms by (simp only: unat_word_ariths mod_less len_of_numeral_defs) simp
qed

lemma bit0_diff: "\<lbrakk>\<not> bit (a :: u32) 0; \<not> bit b 0\<rbrakk> \<Longrightarrow> \<not> bit (a - b) 0"
  by (simp add: bit_0)

lemma slot_in_page:
  assumes ok: "ic_ok ic" and b: "ic_base ic \<noteq> - 512" and i: "page_index v ic < 256" and e: "\<not> bit v 0"
  shows "\<exists>r x. current_slot (page_index v ic) ic = Some r \<and> slot ic r = Some x \<and> is_addr x = v"
proof -
  have c: "current_ok ic" using ok b by (simp add: ic_ok_def)
  then obtain p page where p: "ic_cur ic = Some p" "ic_heap ic p = Some page" "page_ok (drop_bit 9 (ic_base ic)) page"
    using ok unfolding ic_ok_def current_ok_def by (metis page_const(2))
  have q: "ic_base ic = push_bit 9 (drop_bit 9 (ic_base ic))" using c by (simp add: current_ok_def)
  have "\<not> bit (ic_base ic) 0" by (subst q) (simp add: bit_simps)
  then have "2 * of_nat (page_index v ic) = v - ic_base ic" unfolding page_index_def using e by (intro even_half bit0_diff)
  moreover have "is_addr (page ! page_index v ic) = ic_base ic + 2 * of_nat (page_index v ic)" using p(3) q i by (simp add: page_ok_def)
  ultimately have "is_addr (page ! page_index v ic) = v" by simp
  then show ?thesis using p i by (auto simp: current_slot_def slot_def page_ok_def)
qed

lemma page_get_ok:
  assumes ok: "ic_ok ic" and g: "page_get a ic = (ic', p)"
  shows "ic_ok ic'" "ic_extends ic ic'" "ic_pages ic' (drop_bit 9 a) = Some p"
proof -
  have "ic_ok ic' \<and> ic_extends ic ic' \<and> ic_pages ic' (drop_bit 9 a) = Some p"
  proof (cases "ic_pages ic (drop_bit 9 a)")
    case (Some q)
    then show ?thesis using ok g by (auto simp: page_get_def Let_def ic_extends_def)
  next
    case None
    let ?page = "map (\<lambda>i. insn_init (push_bit 9 (drop_bit 9 a) + 2 * of_nat i)) [0..<256]"
    have e: "p = ic_alloc ic (ic_next ic)" "ic' = ic\<lparr>ic_next := Suc (ic_next ic), ic_pages := (ic_pages ic)(drop_bit 9 a \<mapsto> p), ic_heap := (ic_heap ic)(p \<mapsto> ?page)\<rparr>"
      using g None by (auto simp: page_get_def Let_def)
    have u: "p \<notin> used ic" "used ic' = insert p (used ic)" using ok unfolding e(2) by (auto simp: used_def e(1) ic_ok_def lessThan_Suc dest: injD)
    have new: "ic_heap ic p = None" using ok u by (auto simp: ic_ok_def)
    have pg: "page_ok (drop_bit 9 a) ?page" by (simp add: page_ok_def insn_init_def)
    have ne: "q \<noteq> p" if "ic_pages ic idx = Some q" for idx q using ok that new unfolding ic_ok_def by (metis option.distinct(1))
    have cur: "current_ok ic'" if "current_ok ic" using that None unfolding current_ok_def e(2) by auto
    have "inj (ic_alloc ic')" "ic_base ic' = ic_base ic" using ok by (simp_all add: ic_ok_def e(2))
    moreover have "dom (ic_heap ic') \<subseteq> used ic'" unfolding u(2) using ok by (auto simp: ic_ok_def e(2))
    moreover have "\<exists>page. ic_heap ic' q = Some page \<and> page_ok idx page" if "ic_pages ic' idx = Some q" for idx q
      using ok that pg ne [of idx q] unfolding ic_ok_def e(2) by (auto split: if_splits)
    ultimately have "ic_ok ic'" using ok cur unfolding ic_ok_def [of ic'] by (auto simp: ic_ok_def [of ic])
    moreover have "ic_extends ic ic'" using u by (auto simp: ic_extends_def slot_def e(2))
    ultimately show ?thesis by (simp add: e(2))
  qed
  then show "ic_ok ic'" "ic_extends ic ic'" "ic_pages ic' (drop_bit 9 a) = Some p" by auto
qed

text \<open>Addresses of instructions that the theorems are about: even, not in the first line and not in the last page.\<close>

definition pc_ok :: "nat \<Rightarrow> u32 \<Rightarrow> bool" where
  "pc_ok n a \<longleftrightarrow> \<not> bit a 0 \<and> n \<le> unat a \<and> unat a + 512 < 2 ^ 32"

lemma index_flushed:
  assumes "unat (v :: u32) + 512 < 2 ^ 32" "ic_base ic = - 512"
  shows "\<not> page_index v ic < 256"
proof -
  have "page_index v ic = (unat (v + 512)) div 2" unfolding page_index_def assms(2) diff_minus_eq_add by (rule unat_half)
  also have "unat (v + 512) = unat v + 512" using unat_plus_small [of v 512] assms(1) by simp
  finally show ?thesis by simp
qed

text \<open>The instruction that \<open>get_insn\<close> finds for an address, and that it finds again.\<close>

definition cached :: "u32 \<Rightarrow> u32 icache \<Rightarrow> insn_ref \<Rightarrow> u32 insn_slot \<Rightarrow> bool" where
  "cached v ic r x \<longleftrightarrow> page_index v ic < 256 \<and> current_slot (page_index v ic) ic = Some r \<and> slot ic r = Some x \<and> is_addr x = v"

lemma cached_get: "cached v ic r x \<Longrightarrow> get_insn v ic = Some (ic, r)"
  by (simp add: cached_def get_insn_def)

lemma get_insn_ok:
  assumes ok: "ic_ok ic" and v: "pc_ok n v"
  shows "\<exists>ic' r x. get_insn v ic = Some (ic', r) \<and> ic_ok ic' \<and> ic_extends ic ic' \<and> cached v ic' r x"
proof (cases "page_index v ic < 256")
  case True
  then have "ic_base ic \<noteq> - 512" using index_flushed [of v ic] v by (auto simp: pc_ok_def)
  then obtain r x where "current_slot (page_index v ic) ic = Some r" "slot ic r = Some x" "is_addr x = v" using slot_in_page [OF ok _ True] v by (auto simp: pc_ok_def)
  then have "get_insn v ic = Some (ic, r)" "cached v ic r x" using True by (auto simp: get_insn_def cached_def)
  then show ?thesis using ok by (auto simp: ic_extends_def)
next
  case False
  obtain ic1 p where g: "page_get v ic = (ic1, p)" by fastforce
  note pg = page_get_ok [OF ok g]
  let ?b = "push_bit 9 (drop_bit 9 v)"
  let ?ic2 = "ic1\<lparr>ic_cur := Some p, ic_base := ?b\<rparr>"
  have db: "drop_bit 9 ?b = drop_bit 9 v" by (intro bit_word_eqI) (auto simp: bit_simps dest: bit_imp_possible_bit)
  have ok2: "ic_ok ?ic2" using pg(1,3) db by (auto simp: ic_ok_def current_ok_def used_def)
  have d: "v - ?b = take_bit 9 v" using bits_ident [of 9 v] by (metis add_diff_cancel_left')
  have "unat (take_bit 9 v) < 512" using take_bit_nat_less_exp [of 9 "unat v"] by (simp add: unsigned_take_bit_eq)
  then have "unat (drop_bit 1 (v - ?b)) < 256" unfolding d unat_half by simp
  then have idx: "page_index v ?ic2 < 256" unfolding page_index_def by simp
  then have "ic_base ?ic2 \<noteq> - 512" using index_flushed [of v ?ic2] v by (auto simp: pc_ok_def)
  then obtain r x where r: "current_slot (page_index v ?ic2) ?ic2 = Some r" "slot ?ic2 r = Some x" "is_addr x = v" using slot_in_page [OF ok2 _ idx] v by (auto simp: pc_ok_def)
  then have "get_insn v ic = Some (?ic2, r)" "cached v ?ic2 r x" using False idx g by (auto simp: get_insn_def get_insn_from_cache_def Let_def cached_def)
  moreover have "ic_extends ic ?ic2" using pg(2) by (simp add: ic_extends_def slot_def used_def)
  ultimately show ?thesis using ok2 by blast
qed

lemma slot_used: "\<lbrakk>ic_ok ic; slot ic r = Some x\<rbrakk> \<Longrightarrow> fst r \<in> used ic"
  by (auto simp: ic_ok_def slot_def split: option.splits)

lemma slot_set_opcode: "slot (set_opcode r v ic) q = (if q = r then map_option (is_opcode_update (\<lambda>_. v)) (slot ic q) else slot ic q)"
  by (cases q; cases r) (auto simp: slot_def set_opcode_def nth_list_update split: option.splits)

lemma set_opcode_ok:
  assumes "ic_ok ic"
  shows "ic_ok (set_opcode r v ic)" "used (set_opcode r v ic) = used ic"
proof -
  show u: "used (set_opcode r v ic) = used ic" by (simp add: used_def set_opcode_def)
  have pg: "page_ok idx (page[j := (page ! j)\<lparr>is_opcode := v\<rparr>])" if "page_ok idx page" for idx page j
    using that by (cases "j < 256") (auto simp: page_ok_def nth_list_update)
  have "\<exists>page. ic_heap (set_opcode r v ic) p = Some page \<and> page_ok idx page" if ip: "ic_pages ic idx = Some p" for idx p
  proof -
    obtain page where "ic_heap ic p = Some page" "page_ok idx page" using assms ip unfolding ic_ok_def by blast
    then show ?thesis using pg by (cases "p = fst r") (auto simp: set_opcode_def)
  qed
  moreover have "dom (ic_heap (set_opcode r v ic)) = dom (ic_heap ic)" by (auto simp: set_opcode_def split: if_splits)
  moreover have "ic_pages (set_opcode r v ic) = ic_pages ic" "ic_base (set_opcode r v ic) = ic_base ic" "ic_alloc (set_opcode r v ic) = ic_alloc ic"
    "current_ok (set_opcode r v ic) = current_ok ic" by (simp_all add: set_opcode_def current_ok_def)
  ultimately show "ic_ok (set_opcode r v ic)" using assms u by (simp add: ic_ok_def)
qed

lemma set_opcode_page [simp]: "page_index a (set_opcode r v ic) = page_index a ic" "current_slot i (set_opcode r v ic) = current_slot i ic"
  by (auto simp: page_index_def set_opcode_def current_slot_def split: option.splits)

lemma cached_set_opcode: "cached a ic r x \<Longrightarrow> cached a (set_opcode r v ic) r (x\<lparr>is_opcode := v\<rparr>)"
  by (simp add: cached_def slot_set_opcode)

section \<open>Lines\<close>

definition line_geom :: "nat \<Rightarrow> bool" where
  "line_geom n \<longleftrightarrow> (\<exists>k. n = 2 ^ k \<and> 2 \<le> k \<and> k < 31)"

lemma line_geom_bounds:
  assumes "line_geom n"
  shows "4 \<le> n" "n \<le> 2 ^ 30" "even n" "unat (of_nat n :: u32) = n"
proof -
  obtain k where k: "n = 2 ^ k" "2 \<le> k" "k < 31" using assms by (auto simp: line_geom_def)
  have "(2 :: nat) ^ 2 \<le> 2 ^ k" "(2 :: nat) ^ k \<le> 2 ^ 30" using k by (intro power_increasing; simp)+
  then show "4 \<le> n" "n \<le> 2 ^ 30" "even n" using k by simp_all
  then show "unat (of_nat n :: u32) = n" by (simp add: unat_of_nat)
qed

lemma of_nat_unat_word: "of_nat (unat (a :: u32)) = a"
  by simp

lemma align_down_unat: "line_geom n \<Longrightarrow> unat (align_down n (a :: u32)) = unat a - unat a mod n"
  by (auto simp: line_geom_def intro: unat_align_down_line)

lemma align_down_offset:
  assumes "line_geom n"
  shows "unat (a - align_down n (a :: u32)) = unat a mod n"
  using align_down_unat [OF assms, of a] mod_less_eq_dividend [of "unat a" n]
  by (subst unat_sub) (simp_all add: word_le_nat_alt)

lemma align_down_id: "\<lbrakk>line_geom n; unat (s :: u32) mod n = 0\<rbrakk> \<Longrightarrow> align_down n s = s"
  using align_down_unat by (metis diff_zero word_unat_eq_iff)

lemma geom_dvd:
  assumes "line_geom n"
  shows "n dvd 2 ^ 32"
proof -
  obtain k where "n = 2 ^ k" "k \<le> 32" using assms by (force simp: line_geom_def)
  then show ?thesis by (simp only: le_imp_power_dvd)
qed

lemma unat_plus_mod: "line_geom n \<Longrightarrow> unat (s + of_nat j :: u32) mod n = (unat s + j) mod n"
  using geom_dvd by (simp add: unat_word_ariths unat_of_nat mod_mod_cancel mod_add_right_eq)

lemma unat_mod_align [simp]: "line_geom n \<Longrightarrow> unat (align_down n (a :: u32)) mod n = 0"
  by (simp add: align_down_unat minus_mod_eq_mult_div)

lemma align_down_plus:
  assumes g: "line_geom n" and s: "unat (s :: u32) mod n = 0" and j: "j < n"
  shows "align_down n (s + of_nat j) = s"
proof -
  have m: "unat (s + of_nat j) mod n = j" using unat_plus_mod [OF g, of s j] s j by (simp add: mod_add_left_eq [symmetric])
  let ?a = "s + of_nat j :: u32"
  have "?a - align_down n ?a = of_nat j" using align_down_offset [OF g, of ?a] m by (metis of_nat_unat_word)
  then show ?thesis by (simp add: algebra_simps)
qed

text \<open>The address of the next line, and the number of bytes of an opcode before it.\<close>

lemma next_line_eq:
  assumes g: "line_geom n" and i: "unat (a :: u32) mod n \<noteq> 0"
  shows "next_line n a = align_down n a + of_nat n" "unat (next_line n a - a) = n - unat a mod n"
proof -
  let ?i = "unat a mod n"
  have "?i < n" using line_geom_bounds(1) [OF g] by simp
  have a: "a = align_down n a + of_nat ?i" using align_down_offset [OF g, of a] by (metis add.commute diff_add_cancel of_nat_unat_word)
  have "a + of_nat n - 1 = (align_down n a + of_nat n) + of_nat (?i - 1)" using i by (subst a) (simp add: of_nat_diff)
  moreover have "unat (align_down n a + of_nat n) mod n = 0" using unat_plus_mod [OF g, of "align_down n a" n] g by simp
  ultimately show e: "next_line n a = align_down n a + of_nat n"
    unfolding next_line_def using align_down_plus [OF g, of "align_down n a + of_nat n" "?i - 1"] \<open>?i < n\<close> by (simp only: less_imp_diff_less)
  have "next_line n a - a = of_nat (n - ?i)" unfolding e using \<open>?i < n\<close> by (subst (2) a) (simp add: of_nat_diff)
  then show "unat (next_line n a - a) = n - ?i" using line_geom_bounds(2) [OF g] by (simp add: unat_of_nat)
qed

end
