(* ===== verification/Prefetch_Fetch.thy ===== *)
theory Prefetch_Fetch
  imports Prefetch_V2_Props
begin

unbundle bit_operations_syntax

text \<open>
  Fetching through the prefetch buffer: the invariant of the buffer, the instruction cache and an outstanding line, over any memory that answers with its bytes, and what a fetch returns.
\<close>

section \<open>The memory behind the fetch port\<close>

locale fetch_target =
  fixes n :: nat
    and port :: "(u32, 'd) fetch_port"
    and content :: "'d \<Rightarrow> u32 \<Rightarrow> byte"
    and outstanding :: "'d \<Rightarrow> u32"
    and dinv :: "'d \<Rightarrow> bool"
  assumes geom: "line_geom n"
    and port_keeps: "\<lbrakk>dinv d; length buf = n; port d a buf = (d', bs, lat, rs, st)\<rbrakk> \<Longrightarrow> dinv d' \<and> content d' = content d \<and> length bs = n \<and> st \<noteq> IO_REQ_DENIED"
    and port_done: "\<lbrakk>dinv d; length buf = n; port d a buf = (d', bs, lat, rs, IO_REQ_DONE); unat a mod n = 0; rs \<noteq> IO_RESP_INVALID\<rbrakk> \<Longrightarrow> bs = line_bytes n (content d) a"
    and port_granted: "\<lbrakk>dinv d; length buf = n; port d a buf = (d', bs, lat, rs, IO_REQ_GRANTED)\<rbrakk> \<Longrightarrow> outstanding d' = a"

section \<open>The invariant\<close>

definition buf_ok :: "nat \<Rightarrow> (u32 \<Rightarrow> byte) \<Rightarrow> u32 prefetch \<Rightarrow> bool" where
  "buf_ok n mem pf \<longleftrightarrow> length (pf_data pf) = n \<and> (pf_start pf = - 1 \<or> unat (pf_start pf) mod n = 0 \<and> pf_data pf = line_bytes n mem (pf_start pf))"

definition insn_ok :: "(u32 \<Rightarrow> byte) \<Rightarrow> u32 icache \<Rightarrow> insn_ref \<Rightarrow> bool" where
  "insn_ok mem ic r \<longleftrightarrow> fst r \<in> used ic \<and> (\<forall>y. slot ic r = Some y \<longrightarrow> is_opcode y = opcode_at mem (is_addr y))"

definition idle :: "nat \<Rightarrow> (u32 \<Rightarrow> byte) \<Rightarrow> (u32, 'd) fsys \<Rightarrow> bool" where
  "idle n mem s \<longleftrightarrow> fs_retain s = 0 \<and> buf_ok n mem (fs_pf s) \<and> (\<forall>r. pf_insn (fs_pf s) = Some r \<longrightarrow> insn_ok mem (fs_ic s) r)"

definition wait_low :: "nat \<Rightarrow> u32 prefetch \<Rightarrow> u32 \<Rightarrow> bool" where
  "wait_low n pf a \<longleftrightarrow> pf_callback pf = Some After_Low \<and> pf_start pf = align_down n a \<and> pf_current_pc pf = a"

definition wait_high :: "nat \<Rightarrow> (u32 \<Rightarrow> byte) \<Rightarrow> u32 prefetch \<Rightarrow> u32 \<Rightarrow> bool" where
  "wait_high n mem pf a \<longleftrightarrow> pf_callback pf = Some After_High \<and> pf_start pf = align_down n a + of_nat n \<and> unat a mod n = n - 2 \<and>
     pf_stall_opcode pf = take_bit 16 (opcode_at mem a)"

definition waiting :: "nat \<Rightarrow> (u32 \<Rightarrow> byte) \<Rightarrow> u32 \<Rightarrow> (u32, 'd) fsys \<Rightarrow> bool" where
  "waiting n mem out s \<longleftrightarrow> fs_retain s = 1 \<and> length (pf_data (fs_pf s)) = n \<and> pf_start (fs_pf s) = out \<and>
     (\<exists>r y. pf_insn (fs_pf s) = Some r \<and> slot (fs_ic s) r = Some y \<and> \<not> bit (is_addr y) 0 \<and>
        (wait_low n (fs_pf s) (is_addr y) \<or> wait_high n mem (fs_pf s) (is_addr y)))"

definition fetch_inv :: "nat \<Rightarrow> ('d \<Rightarrow> u32 \<Rightarrow> byte) \<Rightarrow> ('d \<Rightarrow> u32) \<Rightarrow> ('d \<Rightarrow> bool) \<Rightarrow> (u32, 'd) fsys \<Rightarrow> bool" where
  "fetch_inv n content outstanding dinv s \<longleftrightarrow> dinv (fs_down s) \<and> ic_ok (fs_ic s) \<and>
     (idle n (content (fs_down s)) s \<or> waiting n (content (fs_down s)) (outstanding (fs_down s)) s)"

text \<open>A line that is crossed by an opcode at an even address has two bytes of it.\<close>

lemma crossing_offset:
  assumes "line_geom n" "\<not> bit (a :: u32) 0" "\<not> int (unat a mod n) + 4 \<le> int n"
  shows "unat a mod n = n - 2"
proof -
  have "even (unat a)" using assms(2) by (metis bit_0 bit_unsigned_iff)
  then have "even (unat a mod n)" using line_geom_bounds(3) [OF assms(1)] by (simp add: dvd_mod_iff)
  moreover have "unat a mod n < n" using line_geom_bounds(1) [OF assms(1)] by simp
  moreover have "even i \<Longrightarrow> i < n \<Longrightarrow> \<not> int i + 4 \<le> int n \<Longrightarrow> i = n - 2" for i using line_geom_bounds(3) [OF assms(1)] by presburger
  ultimately show ?thesis using assms(3) by blast
qed

lemma sint_small_nat:
  assumes "unat (x :: u32) < 2 ^ 31"
  shows "sint x = int (unat x)"
proof -
  have "uint x = int (unat x)" by simp
  moreover have "(0 :: int) \<le> int (unat x)" "int (unat x) < 2 ^ 31" using assms by (simp_all only: of_nat_0_le_iff of_nat_less_numeral_power_cancel_iff)
  ultimately have "- (2 ^ 31) \<le> uint x" "uint x < 2 ^ 31" by linarith+
  then have "signed_take_bit 31 (uint x) = uint x" by (rule signed_take_bit_int_eq_self)
  then show ?thesis by (simp add: sint_uint)
qed

lemma sint_nonneg_unat:
  assumes "0 \<le> sint (x :: u32)"
  shows "sint x = int (unat x)"
proof -
  have "sint x < 2 ^ 31" using sint_lt [of x] by simp
  then have "take_bit 32 (sint x) = sint x" using assms by (intro take_bit_int_eq_self) simp_all
  moreover have "uint (word_of_int (sint x) :: u32) = take_bit 32 (sint x)" using uint_word_of_int_eq [of "sint x", where 'a = 32] by simp
  ultimately show ?thesis by simp
qed

lemma buf_ok_line:
  assumes "line_geom n" "buf_ok n mem pf" "unat (pf_start pf) mod n = 0"
  shows "pf_data pf = line_bytes n mem (pf_start pf)"
proof -
  have "pf_start pf \<noteq> - 1"
  proof
    assume "pf_start pf = - 1"
    moreover have "unat (- 1 :: u32) = 4294967295" by (simp add: unsigned_minus_1_eq_mask mask_eq_exp_minus_1)
    ultimately have "n dvd 4294967295" using assms(3) by (metis mod_eq_0_iff_dvd)
    then have "2 dvd (4294967295 :: nat)" using line_geom_bounds(3) [OF assms(1)] dvd_trans by blast
    then show False by simp
  qed
  then show ?thesis using assms(2) by (simp add: buf_ok_def)
qed

text \<open>The end of a fetch: the instruction has its opcode, or waits for a line.\<close>

definition fetched :: "nat \<Rightarrow> ('d \<Rightarrow> u32 \<Rightarrow> byte) \<Rightarrow> ('d \<Rightarrow> u32) \<Rightarrow> ('d \<Rightarrow> bool) \<Rightarrow> u32 \<Rightarrow> (u32, 'd) fsys \<Rightarrow> (u32, 'd) fsys \<Rightarrow> bool \<Rightarrow> bool" where
  "fetched n content outstanding dinv a s s' ok \<longleftrightarrow> content (fs_down s') = content (fs_down s) \<and> set (fs_log s) \<subseteq> set (fs_log s') \<and> (FE_Fault \<notin> set (fs_log s') \<longrightarrow>
     fetch_inv n content outstanding dinv s' \<and> fs_retain s' = (if ok then 0 else 1) \<and>
     (\<exists>r x. cached a (fs_ic s') r x \<and> (if ok then is_opcode x = opcode_at (content (fs_down s)) a else pf_insn (fs_pf s') = Some r)))"

lemma fetchedI:
  assumes "content (fs_down s') = content (fs_down s)" "set (fs_log s) \<subseteq> set (fs_log s')" "fetch_inv n content outstanding dinv s'" "cached a (fs_ic s') r x"
    "fs_retain s' = (if ok then 0 else 1)" "ok \<Longrightarrow> is_opcode x = opcode_at (content (fs_down s)) a" "\<not> ok \<Longrightarrow> pf_insn (fs_pf s') = Some r"
  shows "fetched n content outstanding dinv a s s' ok"
  unfolding fetched_def using assms by (intro conjI impI exI [of _ r] exI [of _ x]) simp_all

lemma fetched_trans:
  assumes "fetched n content outstanding dinv a s1 s' ok" "content (fs_down s1) = content (fs_down s)" "set (fs_log s) \<subseteq> set (fs_log s1)"
  shows "fetched n content outstanding dinv a s s' ok"
  using assms unfolding fetched_def by (metis subset_trans)

lemma insn_ok_extends: "\<lbrakk>insn_ok mem ic q; ic_extends ic ic'\<rbrakk> \<Longrightarrow> insn_ok mem ic' q"
  unfolding insn_ok_def ic_extends_def by (metis subsetD)

lemma insn_ok_set: "\<lbrakk>insn_ok mem ic q; slot ic r = Some x; ic_ok ic\<rbrakk> \<Longrightarrow> insn_ok mem (set_opcode r (opcode_at mem (is_addr x)) ic) q"
  by (auto simp: insn_ok_def slot_set_opcode set_opcode_ok)

text \<open>A cache that differs at most in an opcode.\<close>

definition reopcoded :: "u32 icache \<Rightarrow> u32 icache \<Rightarrow> bool" where
  "reopcoded ic ic' \<longleftrightarrow> ic' = ic \<or> (\<exists>q v. ic' = set_opcode q v ic)"

lemma reopcodedI [simp, intro]: "reopcoded ic ic" "reopcoded ic (set_opcode q v ic)"
  unfolding reopcoded_def by blast+

lemma cached_reopcoded:
  assumes "cached a ic q x" "reopcoded ic ic'"
  shows "\<exists>y. cached a ic' q y"
  using assms unfolding reopcoded_def by (auto simp: cached_def slot_set_opcode)

context fetch_target
begin

text \<open>A fill: the line, the fault or the outstanding request.\<close>

lemma fill_cases:
  assumes d: "dinv (fs_down s)" and l: "length (pf_data (fs_pf s)) = n" and f: "pf_fill n port a s = (s', res)"
  shows "dinv (fs_down s')" "content (fs_down s') = content (fs_down s)" "length (pf_data (fs_pf s')) = n" "pf_start (fs_pf s') = align_down n a"
    "fs_ic s' = fs_ic s" "fs_retain s' = fs_retain s" "pf_insn (fs_pf s') = pf_insn (fs_pf s)" "pf_current_pc (fs_pf s') = pf_current_pc (fs_pf s)"
    "res = Fill_Done \<Longrightarrow> buf_ok n (content (fs_down s)) (fs_pf s')" "res = Fill_Pending \<Longrightarrow> outstanding (fs_down s') = align_down n a"
    "res = Fill_Fault \<Longrightarrow> FE_Fault \<in> set (fs_log s')" "set (fs_log s) \<subseteq> set (fs_log s')"
proof -
  let ?a = "align_down n a"
  obtain d' bs lat rs st where p: "port (fs_down s) ?a (pf_data (fs_pf s)) = (d', bs, lat, rs, st)" by (metis prod_cases5)
  note k = port_keeps [OF d l p]
  have dn: "bs = line_bytes n (content (fs_down s)) ?a" if "st = IO_REQ_DONE" "rs \<noteq> IO_RESP_INVALID"
    using port_done [OF d l] p that geom by simp
  have gr: "outstanding d' = ?a" if "st \<noteq> IO_REQ_DONE" using port_granted [OF d l] p k that by (cases st) auto
  show "dinv (fs_down s')" "content (fs_down s') = content (fs_down s)" "length (pf_data (fs_pf s')) = n" "pf_start (fs_pf s') = ?a"
    "fs_ic s' = fs_ic s" "fs_retain s' = fs_retain s" "pf_insn (fs_pf s') = pf_insn (fs_pf s)" "pf_current_pc (fs_pf s') = pf_current_pc (fs_pf s)"
    "res = Fill_Done \<Longrightarrow> buf_ok n (content (fs_down s)) (fs_pf s')" "res = Fill_Pending \<Longrightarrow> outstanding (fs_down s') = ?a"
    "res = Fill_Fault \<Longrightarrow> FE_Fault \<in> set (fs_log s')" "set (fs_log s) \<subseteq> set (fs_log s')"
    using f k dn gr geom by (auto simp: pf_fill_def send_fetch_req_def p fs_emit_def buf_ok_def Let_def split: if_splits)
qed

lemma offset_index: "sint (ucast (a - align_down n a) :: u32) = int (unat a mod n)" for a :: u32
proof -
  have "unat a mod n < n" "n < 2 ^ 31" using line_geom_bounds(1,2) [OF geom] by (simp_all add: mod_less_divisor)
  then have "unat (a - align_down n a) < 2 ^ 31" using align_down_offset [OF geom, of a] by linarith
  then show ?thesis using sint_small_nat [of "a - align_down n a"] align_down_offset [OF geom, of a] by simp
qed

lemma overflow_ok:
  assumes d: "dinv (fs_down s)" and ic: "ic_ok (fs_ic s)" and y: "slot (fs_ic s) r = Some y" and ev: "\<not> bit (is_addr y) 0"
    and pc: "pf_current_pc (fs_pf s) = is_addr y" and st: "pf_start (fs_pf s) = align_down n (is_addr y)"
    and b: "pf_data (fs_pf s) = line_bytes n (content (fs_down s)) (align_down n (is_addr y))"
  shows "\<exists>s' ok. fetch_check_overflow n port r (int (unat (is_addr y) mod n)) s = Some (s', ok) \<and> dinv (fs_down s') \<and> content (fs_down s') = content (fs_down s) \<and>
    set (fs_log s) \<subseteq> set (fs_log s') \<and> (FE_Fault \<notin> set (fs_log s') \<longrightarrow>
      (if ok then fs_retain s' = fs_retain s \<and> buf_ok n (content (fs_down s)) (fs_pf s') \<and> pf_insn (fs_pf s') = pf_insn (fs_pf s) \<and>
          fs_ic s' = set_opcode r (opcode_at (content (fs_down s)) (is_addr y)) (fs_ic s)
       else fs_retain s' = fs_retain s + 1 \<and> length (pf_data (fs_pf s')) = n \<and> pf_insn (fs_pf s') = Some r \<and> fs_ic s' = fs_ic s \<and>
          pf_start (fs_pf s') = outstanding (fs_down s') \<and> wait_high n (content (fs_down s)) (fs_pf s') (is_addr y)))"
proof -
  let ?a = "is_addr y" and ?mem = "content (fs_down s)" and ?i = "unat (is_addr y) mod n"
  let ?l = "align_down n ?a"
  have ai: "?l + of_nat ?i = ?a" using align_down_offset [OF geom, of ?a] by (metis add.commute diff_add_cancel of_nat_unat_word)
  have len: "length (pf_data (fs_pf s)) = n" using b by simp
  show ?thesis
  proof (cases "int ?i + 4 \<le> int n")
    case True
    then have "load_opcode (pf_data (fs_pf s)) ?i = opcode_at ?mem ?a" unfolding b using load_opcode_line [of ?i n ?mem ?l] ai by simp
    then show ?thesis using True y d b st geom by (intro exI [of _ "s\<lparr>fs_ic := set_opcode r (opcode_at ?mem ?a) (fs_ic s)\<rparr>"] exI [of _ True]) (simp add: fetch_check_overflow_def buf_ok_def)
  next
    case False
    have i: "?i = n - 2" by (rule crossing_offset [OF geom ev False])
    note nb = line_geom_bounds [OF geom]
    have nz: "?i \<noteq> 0" using i nb by linarith
    note nl = next_line_eq [OF geom nz]
    have n2: "unat (next_line n ?a - ?a) = 2" using nl(2) i nb by simp
    have s2: "?i + 2 = n" "(2 :: nat) \<le> 4" "4 \<le> n" using i nb by auto
    note sp = opcode_split [OF s2, of ?mem ?l, unfolded ai]
    have al: "align_down n (next_line n ?a) = next_line n ?a"
      using unat_plus_mod [OF geom, of ?l n] geom by (intro align_down_id) (simp_all add: nl(1))
    obtain s1 res where f: "pf_fill n port (next_line n ?a) s = (s1, res)" by fastforce
    note fc = fill_cases [OF d len f, unfolded al]
    have op: "load_opcode (pf_data (fs_pf s)) ?i AND mask 16 = take_bit 16 (opcode_at ?mem ?a)" unfolding b using sp(1) by simp
    have dn: "take_bit 16 (opcode_at ?mem ?a) OR push_bit 16 (load_opcode (pf_data (fs_pf s1)) 0) = opcode_at ?mem ?a" if "res = Fill_Done"
    proof -
      have "pf_data (fs_pf s1) = line_bytes n ?mem (?l + of_nat n)" using fc(4,9) that nl(1) buf_ok_line [OF geom, of ?mem "fs_pf s1"] al by (metis geom unat_mod_align)
      then show ?thesis using sp(2) by simp
    qed
    show ?thesis using f y fc op dn n2 nl(1) i False False
      by (cases res) (auto simp: fetch_check_overflow_def pc handle_stall_def wait_high_def Let_def)
  qed
qed

lemma overflow_inv:
  assumes d: "dinv (fs_down s)" and ic: "ic_ok (fs_ic s)" and x: "slot (fs_ic s) r = Some x" and ev: "\<not> bit (is_addr x) 0" and pc: "pf_current_pc (fs_pf s) = is_addr x"
    and st: "pf_start (fs_pf s) = align_down n (is_addr x)" and b: "buf_ok n (content (fs_down s)) (fs_pf s)" and q: "pf_insn (fs_pf s) = None \<or> pf_insn (fs_pf s) = Some r"
    and rt: "fs_retain s = 0"
  shows "\<exists>s' ok. fetch_check_overflow n port r (int (unat (is_addr x) mod n)) s = Some (s', ok) \<and> content (fs_down s') = content (fs_down s) \<and> set (fs_log s) \<subseteq> set (fs_log s') \<and>
    (FE_Fault \<notin> set (fs_log s') \<longrightarrow> fetch_inv n content outstanding dinv s' \<and>
      (if ok then fs_retain s' = 0 \<and> pf_insn (fs_pf s') = pf_insn (fs_pf s) \<and> fs_ic s' = set_opcode r (opcode_at (content (fs_down s)) (is_addr x)) (fs_ic s)
       else fs_retain s' = 1 \<and> pf_insn (fs_pf s') = Some r \<and> fs_ic s' = fs_ic s \<and> pf_callback (fs_pf s') = Some After_High))"
proof -
  let ?mem = "content (fs_down s)" and ?a = "is_addr x"
  have bl: "pf_data (fs_pf s) = line_bytes n ?mem (align_down n ?a)" using buf_ok_line [OF geom b] geom by (simp add: st)
  obtain s' ok where o: "fetch_check_overflow n port r (int (unat ?a mod n)) s = Some (s', ok)" "dinv (fs_down s')" "content (fs_down s') = ?mem"
    "set (fs_log s) \<subseteq> set (fs_log s')" "FE_Fault \<notin> set (fs_log s') \<longrightarrow>
      (if ok then fs_retain s' = fs_retain s \<and> buf_ok n ?mem (fs_pf s') \<and> pf_insn (fs_pf s') = pf_insn (fs_pf s) \<and> fs_ic s' = set_opcode r (opcode_at ?mem ?a) (fs_ic s)
       else fs_retain s' = fs_retain s + 1 \<and> length (pf_data (fs_pf s')) = n \<and> pf_insn (fs_pf s') = Some r \<and> fs_ic s' = fs_ic s \<and>
          pf_start (fs_pf s') = outstanding (fs_down s') \<and> wait_high n ?mem (fs_pf s') ?a)"
    using overflow_ok [OF d ic x ev pc st bl] by blast
  have "fetch_inv n content outstanding dinv s'" if nf: "FE_Fault \<notin> set (fs_log s')"
  proof (cases ok)
    case True
    have "insn_ok ?mem (fs_ic s') r" using o(5) nf True x slot_used [OF ic x] ic by (auto simp: insn_ok_def slot_set_opcode set_opcode_ok)
    then have "idle n ?mem s'" using o(5) nf True rt q by (auto simp: idle_def)
    then show ?thesis using o nf True ic by (simp add: fetch_inv_def set_opcode_ok)
  next
    case False
    then have "waiting n ?mem (outstanding (fs_down s')) s'" using o(5) nf rt x ev unfolding waiting_def by (intro conjI exI [of _ r] exI [of _ x]) simp_all
    then show ?thesis using o nf False ic by (simp add: fetch_inv_def)
  qed
  then show ?thesis using o rt by (intro exI [of _ s'] exI [of _ ok]) (auto simp: wait_high_def)
qed

lemma overflow_fetched:
  assumes d: "dinv (fs_down s)" "ic_ok (fs_ic s)" and c: "cached a (fs_ic s) r x" and ev: "\<not> bit a 0" and pc: "pf_current_pc (fs_pf s) = a"
    and st: "pf_start (fs_pf s) = align_down n a" and b: "buf_ok n (content (fs_down s)) (fs_pf s)" and q: "pf_insn (fs_pf s) = None"
    and rt: "fs_retain s = 0"
  shows "\<exists>s' ok. fetch_check_overflow n port r (int (unat a mod n)) s = Some (s', ok) \<and> fetched n content outstanding dinv a s s' ok"
proof -
  have x: "slot (fs_ic s) r = Some x" "is_addr x = a" using c by (auto simp: cached_def)
  note o = overflow_inv [OF d x(1), unfolded x(2), OF ev pc st b disjI1 [OF q] rt]
  then obtain s' ok where s': "fetch_check_overflow n port r (int (unat a mod n)) s = Some (s', ok)" by blast
  have "fetched n content outstanding dinv a s s' ok"
  proof (cases "FE_Fault \<in> set (fs_log s')")
    case False
    let ?y = "if ok then x\<lparr>is_opcode := opcode_at (content (fs_down s)) a\<rparr> else x"
    have "cached a (fs_ic s') r ?y" using o s' False c cached_set_opcode [OF c] by (auto split: if_splits)
    then show ?thesis using o s' False by (intro fetchedI [where r = r and x = ?y]) (auto split: if_splits)
  qed (use o s' in \<open>auto simp: fetched_def\<close>)
  then show ?thesis using s' by blast
qed

lemma fill_fetched:
  assumes inv: "dinv (fs_down s)" "ic_ok (fs_ic s)" "length (pf_data (fs_pf s)) = n" and c: "cached a (fs_ic s) r x" and ev: "\<not> bit a 0" and pc: "pf_current_pc (fs_pf s) = a"
    and q: "pf_insn (fs_pf s) = None" and rt: "fs_retain s = 0"
  shows "\<exists>s' ok. (case pf_fill n port a s of
      (s2, Fill_Pending) \<Rightarrow> Some (handle_stall After_Low r s2, False)
    | (s2, Fill_Fault) \<Rightarrow> Some (s2, False)
    | (s2, Fill_Done) \<Rightarrow> fetch_check_overflow n port r (sint (ucast (a - pf_start (fs_pf s2)) :: u32)) s2) = Some (s', ok) \<and> fetched n content outstanding dinv a s s' ok"
proof -
  let ?mem = "content (fs_down s)"
  obtain s2 res where f: "pf_fill n port a s = (s2, res)" by fastforce
  note fc = fill_cases [OF inv(1,3) f]
  have x: "slot (fs_ic s) r = Some x" "is_addr x = a" using c by (auto simp: cached_def)
  show ?thesis
  proof (cases res)
    case Fill_Done
    have "sint (ucast (a - pf_start (fs_pf s2)) :: u32) = int (unat a mod n)" using offset_index fc(4) by simp
    moreover obtain s' ok where "fetch_check_overflow n port r (int (unat a mod n)) s2 = Some (s', ok)" "fetched n content outstanding dinv a s2 s' ok"
      using overflow_fetched [of s2 a r x] fc Fill_Done inv c ev pc q rt by auto
    moreover have "fetched n content outstanding dinv a s s' ok" using calculation(3) fc(2,12) by (rule fetched_trans)
    ultimately show ?thesis using f Fill_Done by auto
  next
    case Fill_Fault
    then have "fetched n content outstanding dinv a s s2 False" using fc by (simp add: fetched_def)
    then show ?thesis using f Fill_Fault by auto
  next
    case Fill_Pending
    let ?s = "handle_stall After_Low r s2"
    have "waiting n ?mem (outstanding (fs_down ?s)) ?s" using fc Fill_Pending rt x ev pc unfolding waiting_def
      by (intro conjI exI [of _ r] exI [of _ x]) (simp_all add: handle_stall_def wait_low_def)
    then have "fetched n content outstanding dinv a s ?s False" using fc Fill_Pending rt inv c
      by (intro fetchedI [where r = r and x = x]) (auto simp: fetch_inv_def handle_stall_def)
    then show ?thesis using f Fill_Pending by auto
  qed
qed

text \<open>A fetch in an idle state ends, with the opcode of the memory or waiting for a line.\<close>

lemma fetch_ok:
  assumes inv: "fetch_inv n content outstanding dinv s" and rt: "fs_retain s = 0" and a: "pc_ok n a"
  shows "\<exists>s' ok. fetch n port a s = Some (s', ok) \<and> fetched n content outstanding dinv a s s' ok"
proof -
  let ?mem = "content (fs_down s)"
  have d: "dinv (fs_down s)" "ic_ok (fs_ic s)" "idle n ?mem s" using inv rt by (auto simp: fetch_inv_def waiting_def)
  obtain ic r x where g: "get_insn a (fs_ic s) = Some (ic, r)" "ic_ok ic" "ic_extends (fs_ic s) ic" "cached a ic r x" using get_insn_ok [OF d(2) a] by blast
  have x: "slot ic r = Some x" "is_addr x = a" using g(4) by (auto simp: cached_def)
  have b: "buf_ok n ?mem (fs_pf s)" "length (pf_data (fs_pf s)) = n" using d(3) by (auto simp: idle_def buf_ok_def)
  have q: "insn_ok ?mem ic p" if "pf_insn (fs_pf s) = Some p" for p using d(3) that insn_ok_extends [OF _ g(3)] by (simp add: idle_def)
  have ev: "\<not> bit a 0" using a by (simp add: pc_ok_def)
  let ?i = "a - pf_start (fs_pf s)"
  note nb = line_geom_bounds [OF geom]
  have lim: "unat (of_nat n - 4 :: u32) = n - 4" using nb by (subst unat_sub) (simp_all add: word_le_nat_alt)
  have ai: "a = pf_start (fs_pf s) + of_nat (unat ?i)" by simp
  have ne: "pf_start (fs_pf s) \<noteq> - 1" if "unat ?i < n"
  proof
    assume "pf_start (fs_pf s) = - 1"
    moreover have "unat (a + 1) = unat a + 1" using unat_plus_small [of a 1] a by (simp add: pc_ok_def)
    ultimately show False using that a by (simp add: pc_ok_def)
  qed
  have line: "unat (pf_start (fs_pf s)) mod n = 0" "pf_data (fs_pf s) = line_bytes n ?mem (pf_start (fs_pf s))" if "unat ?i < n" using ne [OF that] b(1) by (simp_all add: buf_ok_def)
  show ?thesis
  proof (cases "?i \<le> of_nat n - 4")
    case True
    then have le: "unat ?i + 4 \<le> n" using lim nb by (simp add: word_le_nat_alt)
    then have "load_opcode (pf_data (fs_pf s)) (unat ?i) = opcode_at ?mem a" using load_opcode_line [OF le, of ?mem "pf_start (fs_pf s)"] line(2) by simp
    then have f: "fetch n port a s = Some (s\<lparr>fs_ic := set_opcode r (opcode_at ?mem a) ic\<rparr>, True)" using g(1) True by (simp add: fetch_def Let_def)
    let ?s = "s\<lparr>fs_ic := set_opcode r (opcode_at ?mem a) ic\<rparr>"
    have "idle n ?mem ?s" using d(3) q insn_ok_set [OF _ x(1) g(2)] x(2) by (auto simp: idle_def)
    then have "fetched n content outstanding dinv a s ?s True" using d(1) g(2) rt cached_set_opcode [OF g(4)]
      by (intro fetchedI [where r = r and x = "x\<lparr>is_opcode := opcode_at ?mem a\<rparr>"]) (auto simp: fetch_inv_def set_opcode_ok)
    then show ?thesis using f by blast
  next
    case False
    let ?s1 = "upd_pf (\<lambda>x. x\<lparr>pf_current_pc := a\<rparr>) (s\<lparr>fs_ic := ic\<rparr>)"
    have f: "fetch n port a s = fetch_refill n port r a (sint ?i) ?s1" using g(1) False by (simp add: fetch_def Let_def)
    show ?thesis
    proof (cases "pf_insn (fs_pf s) = Some r")
      case True
      then have o: "is_opcode x = opcode_at ?mem a" using q x by (auto simp: insn_ok_def)
      have "idle n ?mem ?s1" using d(3) q by (auto simp: idle_def buf_ok_def)
      then have "fetched n content outstanding dinv a s ?s1 True" using d(1) g(2,4) rt o
        by (intro fetchedI [where r = r and x = x]) (auto simp: fetch_inv_def)
      then show ?thesis using f True by (auto simp: fetch_refill_def)
    next
      case nr: False
      let ?s2 = "upd_pf (\<lambda>x. x\<lparr>pf_insn := None\<rparr>) ?s1"
      show ?thesis
      proof (cases "sint ?i < 0 \<or> sint ?i \<ge> int n")
        case True
        then show ?thesis using f nr fill_fetched [of ?s2 a r x] d(1) g(2,4) b(2) ev rt fetched_trans [of n content outstanding dinv a ?s2 _ _ s]
          by (simp add: fetch_refill_def Let_def) blast
      next
        case False
        then have "sint ?i = int (unat ?i)" using sint_nonneg_unat [of ?i] by linarith
        moreover from this have "unat ?i < n" using False by linarith
        ultimately have i: "sint ?i = int (unat ?i)" "unat ?i < n" .
        have "align_down n a = pf_start (fs_pf s)" by (subst ai) (rule align_down_plus [OF geom line(1) i(2)], rule i(2))
        moreover from this have "unat a mod n = unat ?i" using align_down_offset [OF geom, of a] by simp
        moreover have "buf_ok n ?mem (fs_pf ?s2)" using b(1) by (simp add: buf_ok_def)
        ultimately show ?thesis using f nr False i d(1) g(2,4) ev rt overflow_fetched [of ?s2 a r x] fetched_trans [of n content outstanding dinv a ?s2 _ _ s]
          by (simp add: fetch_refill_def Let_def) blast
      qed
    qed
  qed
qed

text \<open>The response: the instruction gets its opcode, or waits for the next line.\<close>

lemma response_ok:
  assumes inv: "fetch_inv n content outstanding dinv s" and rt: "fs_retain s \<noteq> 0" and d': "dinv d'" "content d' = content (fs_down s)"
  shows "\<exists>s'. fetch_response n port (line_bytes n (content (fs_down s)) (outstanding (fs_down s))) (s\<lparr>fs_down := d'\<rparr>) = Some s' \<and> content (fs_down s') = content (fs_down s) \<and>
    set (fs_log s) \<subseteq> set (fs_log s') \<and> (FE_Fault \<notin> set (fs_log s') \<longrightarrow> fetch_inv n content outstanding dinv s' \<and> pf_insn (fs_pf s') = pf_insn (fs_pf s) \<and> reopcoded (fs_ic s) (fs_ic s') \<and>
      (fs_retain s' = 0 \<or> pf_callback (fs_pf s) = Some After_Low \<and> pf_callback (fs_pf s') = Some After_High))"
proof -
  let ?mem = "content (fs_down s)" and ?out = "outstanding (fs_down s)"
  let ?s1 = "(fs_emit [FE_Imiss_Stop] (upd_pf (\<lambda>x. x\<lparr>pf_data := line_bytes n ?mem ?out\<rparr>) (s\<lparr>fs_down := d'\<rparr>)))\<lparr>fs_retain := fs_retain s - 1\<rparr>"
  have ic: "ic_ok (fs_ic s)" and w: "waiting n ?mem ?out s" using inv rt by (auto simp: fetch_inv_def idle_def)
  obtain r y where y: "pf_insn (fs_pf s) = Some r" "slot (fs_ic s) r = Some y" "\<not> bit (is_addr y) 0" "wait_low n (fs_pf s) (is_addr y) \<or> wait_high n ?mem (fs_pf s) (is_addr y)"
    and w': "fs_retain s = 1" "pf_start (fs_pf s) = ?out" using w by (auto simp: waiting_def)
  have s1: "content (fs_down ?s1) = ?mem" "fs_ic ?s1 = fs_ic s" "pf_insn (fs_pf ?s1) = Some r" "fs_retain ?s1 = 0" "dinv (fs_down ?s1)" "set (fs_log s) \<subseteq> set (fs_log ?s1)"
    using d' y w' by (auto simp: fs_emit_def)
  show ?thesis
  proof (cases "wait_low n (fs_pf s) (is_addr y)")
    case True
    then have p: "pf_current_pc (fs_pf ?s1) = is_addr y" "pf_start (fs_pf ?s1) = align_down n (is_addr y)" "buf_ok n (content (fs_down ?s1)) (fs_pf ?s1)" "pf_callback (fs_pf s) = Some After_Low"
      using w' d' geom by (auto simp: wait_low_def fs_emit_def buf_ok_def)
    have "\<exists>s' ok. fetch_check_overflow n port r (int (unat (is_addr y) mod n)) ?s1 = Some (s', ok) \<and> content (fs_down s') = ?mem \<and> set (fs_log ?s1) \<subseteq> set (fs_log s') \<and>
      (FE_Fault \<notin> set (fs_log s') \<longrightarrow> fetch_inv n content outstanding dinv s' \<and> pf_insn (fs_pf s') = Some r \<and> reopcoded (fs_ic s) (fs_ic s') \<and>
        (fs_retain s' = 0 \<or> pf_callback (fs_pf s') = Some After_High))"
      using overflow_inv [of ?s1 r y, OF s1(5) _ _ y(3) p(1,2,3) disjI2 [OF s1(3)] s1(4), unfolded s1(1-3), OF ic y(2)] by (elim ex_forward) (auto split: if_splits)
    then obtain s' ok where o: "fetch_check_overflow n port r (int (unat (is_addr y) mod n)) ?s1 = Some (s', ok)" "content (fs_down s') = ?mem" "set (fs_log ?s1) \<subseteq> set (fs_log s')"
      "FE_Fault \<notin> set (fs_log s') \<longrightarrow> fetch_inv n content outstanding dinv s' \<and> pf_insn (fs_pf s') = Some r \<and> reopcoded (fs_ic s) (fs_ic s') \<and>
        (fs_retain s' = 0 \<or> pf_callback (fs_pf s') = Some After_High)"
      by blast
    have "fetch_response n port (line_bytes n ?mem ?out) (s\<lparr>fs_down := d'\<rparr>) = Some s'"
      using p o(1) y by (simp add: fetch_response_def resume_low_def Let_def fs_emit_def offset_index [unfolded ucast_id])
    then show ?thesis using o s1 y p by auto
  next
    case False
    then have h: "wait_high n ?mem (fs_pf s) (is_addr y)" using y(4) by blast
    let ?v = "opcode_at ?mem (is_addr y)" and ?l = "align_down n (is_addr y)"
    let ?s' = "?s1\<lparr>fs_ic := set_opcode r ?v (fs_ic s)\<rparr>"
    have m: "unat (is_addr y) mod n + 2 = n" using h line_geom_bounds(1) [OF geom] by (simp add: wait_high_def)
    have nz: "unat (is_addr y) mod n \<noteq> 0" using m line_geom_bounds(1) [OF geom] by linarith
    have n2: "unat (next_line n (is_addr y) - is_addr y) = 2" using next_line_eq(2) [OF geom nz] m by linarith
    have out: "?out = ?l + of_nat n" using h w' by (simp add: wait_high_def)
    have ai: "?l + of_nat (unat (is_addr y) mod n) = is_addr y" using align_down_offset [OF geom, of "is_addr y"] by (metis add.commute diff_add_cancel of_nat_unat_word)
    have "take_bit 16 ?v OR push_bit 16 (load_opcode (line_bytes n ?mem ?out) 0) = ?v"
      using opcode_split(2) [OF m _ line_geom_bounds(1) [OF geom], of ?mem ?l] unfolding ai out by simp
    then have f: "fetch_response n port (line_bytes n ?mem ?out) (s\<lparr>fs_down := d'\<rparr>) = Some ?s'"
      using h y n2 by (simp add: fetch_response_def resume_high_def Let_def fs_emit_def wait_high_def)
    have "unat ?out mod n = 0" using out unat_plus_mod [OF geom, of ?l n] geom by simp
    then have "buf_ok n ?mem (fs_pf ?s')" using w' by (simp add: buf_ok_def fs_emit_def)
    moreover have "insn_ok ?mem (fs_ic ?s') r" using y(2) ic slot_used [OF ic y(2)] by (auto simp: insn_ok_def slot_set_opcode set_opcode_ok)
    ultimately have "idle n ?mem ?s'" using s1 y by (simp add: idle_def fs_emit_def)
    then have "fetch_inv n content outstanding dinv ?s'" using d' ic by (simp add: fetch_inv_def set_opcode_ok fs_emit_def)
    then show ?thesis using f s1 d' by (intro exI [of _ ?s'] conjI) (auto simp: fs_emit_def)
  qed
qed

end

section \<open>Runs\<close>

text \<open>
  What happens to the fetch stage: the core fetches when it is not stalled; an outstanding line arrives; the memory does something that keeps its bytes and the outstanding line; the
  core leaves the page (a change of mode); and with a flush of both caches (\<^verbatim>\<open>fence.i\<close>) the bytes may have changed.
\<close>

definition pf_started :: "nat \<Rightarrow> (u32, 'd) fsys \<Rightarrow> bool" where
  "pf_started n s \<longleftrightarrow> (\<exists>s0 :: (u32, 'd) fsys. length (pf_data (fs_pf s0)) = n \<and> inj (ic_alloc (fs_ic s0)) \<and> s = \<lparr>fs_pf = pf_reset True (fs_pf s0), fs_ic = ic_reset True (fs_ic s0),
     fs_down = fs_down s0, fs_retain = 0, fs_log = []\<rparr>)"

inductive fetch_reach :: "nat \<Rightarrow> (u32, 'd) fetch_port \<Rightarrow> ('d \<Rightarrow> u32 \<Rightarrow> byte) \<Rightarrow> ('d \<Rightarrow> u32) \<Rightarrow> ('d \<Rightarrow> bool) \<Rightarrow> (u32, 'd) fsys \<Rightarrow> bool"
  for n port content outstanding dinv where
  fr_init: "\<lbrakk>pf_started n s; dinv (fs_down s)\<rbrakk> \<Longrightarrow> fetch_reach n port content outstanding dinv s"
| fr_fetch: "\<lbrakk>fetch_reach n port content outstanding dinv s; fs_retain s = 0; pc_ok n a; fetch n port a s = Some (s', ok)\<rbrakk> \<Longrightarrow> fetch_reach n port content outstanding dinv s'"
| fr_response: "\<lbrakk>fetch_reach n port content outstanding dinv s; fs_retain s \<noteq> 0; dinv d; content d = content (fs_down s);
    fetch_response n port (line_bytes n (content (fs_down s)) (outstanding (fs_down s))) (s\<lparr>fs_down := d\<rparr>) = Some s'\<rbrakk> \<Longrightarrow> fetch_reach n port content outstanding dinv s'"
| fr_memory: "\<lbrakk>fetch_reach n port content outstanding dinv s; dinv d; content d = content (fs_down s); outstanding d = outstanding (fs_down s)\<rbrakk> \<Longrightarrow>
    fetch_reach n port content outstanding dinv (s\<lparr>fs_down := d\<rparr>)"
| fr_mode: "fetch_reach n port content outstanding dinv s \<Longrightarrow> fetch_reach n port content outstanding dinv (s\<lparr>fs_ic := mode_flush (fs_ic s)\<rparr>)"
| fr_flush: "\<lbrakk>fetch_reach n port content outstanding dinv s; fs_retain s = 0; dinv d\<rbrakk> \<Longrightarrow> fetch_reach n port content outstanding dinv (fetch_flush (s\<lparr>fs_down := d\<rparr>))"

lemma mode_flush_ok: "ic_ok ic \<Longrightarrow> ic_ok (mode_flush ic)" "slot (mode_flush ic) = slot ic" "used (mode_flush ic) = used ic"
  by (auto simp: ic_ok_def mode_flush_def used_def slot_def fun_eq_iff)

lemma ic_flush_ok: "inj (ic_alloc ic) \<Longrightarrow> ic_ok (ic_flush ic)" "slot (ic_flush ic) r = None" "used (ic_flush ic) = used ic"
  by (auto simp: ic_ok_def ic_flush_def mode_flush_def used_def slot_def)

lemma init_inv:
  assumes "pf_started n s" "dinv (fs_down s)"
  shows "fetch_inv n content outstanding dinv s"
  using assms ic_flush_ok(1) by (auto simp: pf_started_def fetch_inv_def idle_def buf_ok_def pf_reset_def pf_flush_def ic_reset_def)

lemma mode_flush_inv:
  assumes "fetch_inv n content outstanding dinv s"
  shows "fetch_inv n content outstanding dinv (s\<lparr>fs_ic := mode_flush (fs_ic s)\<rparr>)"
  using assms by (simp add: fetch_inv_def idle_def waiting_def insn_ok_def mode_flush_ok)

lemma fetch_flush_inv:
  assumes "fetch_inv n content outstanding dinv s" "fs_retain s = 0" "dinv d"
  shows "fetch_inv n content outstanding dinv (fetch_flush (s\<lparr>fs_down := d\<rparr>))"
  using assms ic_flush_ok [of "fs_ic s"] by (auto simp: fetch_inv_def idle_def waiting_def fetch_flush_def fs_emit_def pf_flush_def buf_ok_def insn_ok_def ic_ok_def [of "fs_ic s"])

text \<open>Events are only added.\<close>

lemma fill_log: "pf_fill n port a s = (s', res) \<Longrightarrow> set (fs_log s) \<subseteq> set (fs_log s')"
  by (auto simp: pf_fill_def send_fetch_req_def fs_emit_def Let_def split: prod.splits if_splits)

lemma overflow_log: "fetch_check_overflow n port r i s = Some (s', ok) \<Longrightarrow> set (fs_log s) \<subseteq> set (fs_log s')"
  by (auto simp: fetch_check_overflow_def handle_stall_def Let_def dest!: fill_log split: prod.splits if_splits option.splits fill_result.splits)

lemma fetch_log:
  assumes "fetch n port a s = Some (s', ok)"
  shows "set (fs_log s) \<subseteq> set (fs_log s')"
  using assms by (fastforce simp: fetch_def fetch_refill_def handle_stall_def Let_def dest!: fill_log overflow_log split: prod.splits if_splits bind_splits fill_result.splits)

lemma response_log:
  assumes "fetch_response n port bs s = Some s'"
  shows "set (fs_log s) \<subseteq> set (fs_log s')"
  using assms by (fastforce simp: fetch_response_def resume_low_def resume_high_def fs_emit_def Let_def dest!: overflow_log split: prod.splits option.splits fetch_callback.splits bind_splits)

text \<open>The outstanding line arrives.\<close>

definition line_arrives :: "nat \<Rightarrow> (u32, 'd) fetch_port \<Rightarrow> ('d \<Rightarrow> u32 \<Rightarrow> byte) \<Rightarrow> ('d \<Rightarrow> u32) \<Rightarrow> (u32, 'd) fsys \<Rightarrow> (u32, 'd) fsys option" where
  "line_arrives n port content outstanding s = fetch_response n port (line_bytes n (content (fs_down s)) (outstanding (fs_down s))) s"

context fetch_target
begin

lemma reach_inv:
  assumes "fetch_reach n port content outstanding dinv s" "FE_Fault \<notin> set (fs_log s)"
  shows "fetch_inv n content outstanding dinv s"
  using assms
proof (induction rule: fetch_reach.induct)
  case (fr_fetch s a s' ok)
  then have "fetch_inv n content outstanding dinv s" using fetch_log by blast
  from fetch_ok [OF this fr_fetch.hyps(2,3)] show ?case using fr_fetch by (auto simp: fetched_def)
next
  case (fr_response s d s')
  then have "FE_Fault \<notin> set (fs_log s)" using response_log [OF fr_response.hyps(5)] by auto
  then have "fetch_inv n content outstanding dinv s" using fr_response by blast
  from response_ok [OF this fr_response.hyps(2,3,4)] show ?case using fr_response by auto
next
  case (fr_memory s d)
  then have "fetch_inv n content outstanding dinv s" by simp
  then show ?case using fr_memory.hyps by (simp add: fetch_inv_def idle_def waiting_def)
next
  case (fr_flush s d)
  then show ?case using fetch_flush_inv by (auto simp: fetch_flush_def fs_emit_def)
qed (use init_inv mode_flush_inv in auto)

text \<open>The retry of an instruction that got its opcode.\<close>

lemma refetch:
  assumes "cached a (fs_ic s) r x" "pf_insn (fs_pf s) = Some r"
  shows "\<exists>s'. fetch n port a s = Some (s', True)"
  using cached_get [OF assms(1)] assms(2) by (simp add: fetch_def fetch_refill_def Let_def)

lemma answers:
  assumes inv: "fetch_inv n content outstanding dinv s" and rt: "fs_retain s \<noteq> 0" and q: "cached a (fs_ic s) r x" "pf_insn (fs_pf s) = Some r"
  shows "\<exists>s'. fetch_response n port (line_bytes n (content (fs_down s)) (outstanding (fs_down s))) s = Some s' \<and> (FE_Fault \<notin> set (fs_log s') \<longrightarrow>
    fetch_inv n content outstanding dinv s' \<and> pf_insn (fs_pf s') = Some r \<and> (\<exists>y. cached a (fs_ic s') r y) \<and>
      (fs_retain s' = 0 \<or> pf_callback (fs_pf s) = Some After_Low \<and> pf_callback (fs_pf s') = Some After_High))"
proof -
  have "dinv (fs_down s)" using inv by (simp add: fetch_inv_def)
  from response_ok [OF inv rt this refl] show ?thesis using q cached_reopcoded by (elim ex_forward) auto
qed

end

section \<open>Memories that answer at once\<close>

locale sync_fetch_target = fetch_target +
  fixes covers :: "u32 \<Rightarrow> bool"
  assumes port_sync: "\<lbrakk>dinv d; length buf = n; covers a; unat a mod n = 0; port d a buf = (d', bs, lat, rs, st)\<rbrakk> \<Longrightarrow> st = IO_REQ_DONE \<and> rs \<noteq> IO_RESP_INVALID"
begin

lemma fill_sync:
  assumes "dinv (fs_down s)" "length (pf_data (fs_pf s)) = n" "covers (align_down n a)" "pf_fill n port a s = (s', res)"
  shows "res = Fill_Done" "FE_Fault \<in> set (fs_log s') \<longleftrightarrow> FE_Fault \<in> set (fs_log s)"
proof -
  obtain d' bs lat rs st where p: "port (fs_down s) (align_down n a) (pf_data (fs_pf s)) = (d', bs, lat, rs, st)" by (metis prod_cases5)
  then have "st = IO_REQ_DONE" "rs \<noteq> IO_RESP_INVALID" using port_sync [OF assms(1-3) _ p] geom by simp_all
  then show "res = Fill_Done" "FE_Fault \<in> set (fs_log s') \<longleftrightarrow> FE_Fault \<in> set (fs_log s)"
    using assms(4) p by (auto simp: pf_fill_def send_fetch_req_def fs_emit_def Let_def split: if_splits)
qed

lemma overflow_sync:
  assumes "dinv (fs_down s)" "length (pf_data (fs_pf s)) = n" "covers (align_down n (next_line n (pf_current_pc (fs_pf s))))" "fetch_check_overflow n port r i s = Some (s', ok)"
  shows "ok \<and> (FE_Fault \<in> set (fs_log s') \<longleftrightarrow> FE_Fault \<in> set (fs_log s))"
proof -
  obtain s1 res where f: "pf_fill n port (next_line n (pf_current_pc (fs_pf s))) s = (s1, res)" by fastforce
  show ?thesis using assms(4) fill_sync [OF assms(1-3) f] f by (auto simp: fetch_check_overflow_def Let_def split: option.splits if_splits)
qed

lemma fetch_sync:
  assumes d: "dinv (fs_down s)" "length (pf_data (fs_pf s)) = n" and c: "covers (align_down n a)" "covers (align_down n (next_line n a))" and f: "fetch n port a s = Some (s', ok)"
  shows "ok \<and> (FE_Fault \<in> set (fs_log s') \<longleftrightarrow> FE_Fault \<in> set (fs_log s))"
proof -
  obtain ic r where g: "get_insn a (fs_ic s) = Some (ic, r)" using f by (auto simp: fetch_def split: bind_splits)
  let ?s = "upd_pf (\<lambda>x. x\<lparr>pf_insn := None\<rparr>) (upd_pf (\<lambda>x. x\<lparr>pf_current_pc := a\<rparr>) (s\<lparr>fs_ic := ic\<rparr>))"
  obtain s1 res where fl: "pf_fill n port a ?s = (s1, res)" by fastforce
  have d': "dinv (fs_down ?s)" "length (pf_data (fs_pf ?s)) = n" using d by simp_all
  note fc = fill_cases [OF d' fl] and fs = fill_sync [OF d' c(1) fl]
  have o: "ok' \<and> (FE_Fault \<in> set (fs_log t) \<longleftrightarrow> FE_Fault \<in> set (fs_log s))" if "fetch_check_overflow n port r i u = Some (t, ok')" "u = ?s \<or> u = s1" for u t ok' i
    using overflow_sync [of u r i t ok'] that fc fs c(2) d by auto
  show ?thesis using f g fl fs o by (auto simp: fetch_def fetch_refill_def Let_def split: if_splits)
qed

end

section \<open>What a fetch returns\<close>


text \<open>
  C32: a fetch that stalls is resumed. When a fetch does not return true and there is no fault, the core is stalled, and after the outstanding line, or that and one more, has arrived, the
  core is released and the same fetch returns true.
\<close>

theorem fetch_resumes:
  assumes "fetch_target n port content outstanding dinv" "fetch_reach n port content outstanding dinv s" "fs_retain s = 0" "pc_ok n a"
    "fetch n port a s = Some (s1, False)" "FE_Fault \<notin> set (fs_log s1)"
  shows "\<exists>s2. fs_retain s1 = 1 \<and> (line_arrives n port content outstanding s1 = Some s2 \<or> Option.bind (line_arrives n port content outstanding s1) (line_arrives n port content outstanding) = Some s2) \<and>
    (FE_Fault \<in> set (fs_log s2) \<or> fs_retain s2 = 0 \<and> (\<exists>s3. fetch n port a s2 = Some (s3, True)))"
proof -
  note t = assms(1)
  have nf: "FE_Fault \<notin> set (fs_log s)" using fetch_log [OF assms(5)] assms(6) by blast
  have inv: "fetch_inv n content outstanding dinv s" by (rule fetch_target.reach_inv [OF t assms(2) nf])
  obtain r x where s1: "fetch_inv n content outstanding dinv s1" "fs_retain s1 = 1" "cached a (fs_ic s1) r x" "pf_insn (fs_pf s1) = Some r"
    using fetch_target.fetch_ok [OF t inv assms(3,4)] assms(5,6) by (auto simp: fetched_def)
  obtain s2 where s2: "line_arrives n port content outstanding s1 = Some s2" "FE_Fault \<notin> set (fs_log s2) \<longrightarrow> fetch_inv n content outstanding dinv s2 \<and> pf_insn (fs_pf s2) = Some r \<and>
    (\<exists>y. cached a (fs_ic s2) r y) \<and> (fs_retain s2 = 0 \<or> pf_callback (fs_pf s2) = Some After_High)"
    using fetch_target.answers [OF t s1(1) _ s1(3,4)] s1(2) unfolding line_arrives_def by auto
  have last: "\<exists>s3. fetch n port a u = Some (s3, True)" if "cached a (fs_ic u) r y" "pf_insn (fs_pf u) = Some r" for u y
    using fetch_target.refetch [OF t that] .
  show ?thesis
  proof (cases "FE_Fault \<in> set (fs_log s2) \<or> fs_retain s2 = 0")
    case True
    then show ?thesis using s1(2) s2 last by blast
  next
    case False
    then obtain y where y: "fetch_inv n content outstanding dinv s2" "fs_retain s2 \<noteq> 0" "cached a (fs_ic s2) r y" "pf_insn (fs_pf s2) = Some r" "pf_callback (fs_pf s2) = Some After_High"
      using s2(2) by auto
    obtain u where u: "line_arrives n port content outstanding s2 = Some u" "FE_Fault \<notin> set (fs_log u) \<longrightarrow> pf_insn (fs_pf u) = Some r \<and> (\<exists>y. cached a (fs_ic u) r y) \<and> fs_retain u = 0"
      using fetch_target.answers [OF t y(1-4)] y(5) unfolding line_arrives_def by auto
    then show ?thesis using s1(2) s2(1) last [of u] by (intro exI [of _ u]) auto
  qed
qed

section \<open>Examples\<close>

text \<open>A memory that holds at each address its low byte and answers at once, or later.\<close>

definition demo_fetch :: "io_req_status \<Rightarrow> (u32, u32) fetch_port" where
  "demo_fetch st d a buf = (a, if st = IO_REQ_DONE then line_bytes 4 ucast a else buf, 0, IO_RESP_OK, st)"

definition demo_fsys :: "(u32, u32) fsys" where
  "demo_fsys = \<lparr>fs_pf = \<lparr>pf_data = [0, 0, 0, 0], pf_start = - 1, pf_insn = None, pf_callback = None, pf_stall_opcode = 0, pf_current_pc = 0\<rparr>,
     fs_ic = \<lparr>ic_pages = Map.empty, ic_heap = Map.empty, ic_alloc = id, ic_next = 0, ic_cur = None, ic_base = - 512, ic_generation = 1\<rparr>, fs_down = 0, fs_retain = 0, fs_log = []\<rparr>"

lemma demo_fetch_target: "st \<noteq> IO_REQ_DENIED \<Longrightarrow> fetch_target 4 (demo_fetch st) (\<lambda>_. ucast) (\<lambda>d. d) (\<lambda>_. True)"
  by unfold_locales (auto simp: demo_fetch_def line_geom_def intro!: exI [of _ 2] split: if_splits)

lemma demo_fetch_sync: "sync_fetch_target 4 (demo_fetch IO_REQ_DONE) (\<lambda>_. ucast) (\<lambda>d. d) (\<lambda>_. True) (\<lambda>_. True)"
  by (intro sync_fetch_target.intro sync_fetch_target_axioms.intro demo_fetch_target) (auto simp: demo_fetch_def)

lemma demo_fetch_reach: "fetch_reach 4 port (\<lambda>_. ucast) (\<lambda>d. d) (\<lambda>_. True) demo_fsys"
proof (rule fr_init)
  let ?s = "demo_fsys\<lparr>fs_ic := (fs_ic demo_fsys)\<lparr>ic_generation := 0\<rparr>\<rparr>"
  show "pf_started 4 demo_fsys" unfolding pf_started_def
    by (intro exI [of _ ?s]) (simp add: demo_fsys_def pf_reset_def pf_flush_def ic_reset_def ic_flush_def mode_flush_def)
qed simp


theorem fetch_resumes_witness:
  "\<exists>s1 s2 s3. fetch 4 (demo_fetch IO_REQ_GRANTED) 6 demo_fsys = Some (s1, False) \<and> fs_retain s1 = 1 \<and> fs_retain s2 = 0 \<and>
     fetch 4 (demo_fetch IO_REQ_GRANTED) 6 s2 = Some (s3, True)"
proof -
  let ?p = "demo_fetch IO_REQ_GRANTED"
  note t = demo_fetch_target [of IO_REQ_GRANTED, simplified] and re = demo_fetch_reach [of ?p]
  have s: "fs_retain demo_fsys = 0" by (simp add: demo_fsys_def)
  have a: "pc_ok 4 6" by (simp add: pc_ok_def)
  let ?run = "\<lambda>s. line_arrives 4 ?p (\<lambda>_. ucast) (\<lambda>d. d) s"
  have "map_option (\<lambda>(s, ok). (fs_log s, ok)) (fetch 4 ?p 6 demo_fsys) = Some ([FE_Imiss_Start], False)" by code_simp
  then obtain s1 where s1: "fetch 4 ?p 6 demo_fsys = Some (s1, False)" "fs_log s1 = [FE_Imiss_Start]" by auto
  have "map_option fs_log (Option.bind (fetch 4 ?p 6 demo_fsys) (\<lambda>(s, _). ?run s)) = Some [FE_Imiss_Start, FE_Imiss_Stop, FE_Imiss_Start]" by code_simp
  moreover have "map_option fs_log (Option.bind (fetch 4 ?p 6 demo_fsys) (\<lambda>(s, _). Option.bind (?run s) ?run)) = Some [FE_Imiss_Start, FE_Imiss_Stop, FE_Imiss_Start, FE_Imiss_Stop]" by code_simp
  ultimately have nf: "?run s1 = Some s2 \<or> Option.bind (?run s1) ?run = Some s2 \<Longrightarrow> FE_Fault \<notin> set (fs_log s2)" for s2 using s1(1) by auto
  from fetch_resumes [OF t re s a s1(1)] s1 nf show ?thesis by fastforce
qed

end
