(* ===== verification/Cache_V4.thy ===== *)
theory Cache_V4
  imports IO_V2
begin

unbundle bit_operations_syntax

text \<open>
  The set-associative cache, \<^verbatim>\<open>src/models/cache/cache_v4.cpp\<close>: look-up, refills through the port \<open>refill\<close>, the queue of requests that wait for a refill, the sequential prefetcher, bypass,
  flushes and the replacement policy. Requests are objects in a store, their buffers are in host memory and the buffers of the lines are arrays.

  The components behind the refill port are parameters (\<open>refill_port\<close>): the answer to a refill, which may fill the buffer of the line it is given, and to a request of
  the master in bypass mode. A master may submit requests from inside its \<^verbatim>\<open>resp()\<close> and \<^verbatim>\<open>retry()\<close>; these submissions are arguments of the operations that call it.
\<close>

section \<open>State\<close>

record cache_config =
  cc_size :: nat
  cc_line_size :: nat
  cc_ways :: nat
  cc_enabled :: bool
  cc_prefetch :: bool
  cc_refill_shift :: nat
  cc_refill_offset :: u64
  cc_refill_latency :: int

record cache_line =
  cl_tag :: u32
  cl_data :: "byte list"
  cl_timestamp :: int
  cl_prefetched :: bool

text \<open>\<open>ca_fsm\<close>: the event of \<^verbatim>\<open>fsm_handler\<close> is enqueued. \<open>ca_line\<close> is the index of \<^verbatim>\<open>refill_line\<close>.\<close>

record cache =
  ca_lines :: "cache_line list"
  ca_enabled :: bool
  ca_pending_refill :: bool
  ca_pending_is_prefetch :: bool
  ca_prefetch_wanted :: bool
  ca_prefetch_addr :: u32
  ca_queue :: "req_ref list"
  ca_fsm :: bool
  ca_refill_timestamp :: int
  ca_lru_out :: "8 word"
  ca_flush_line_addr :: u32
  ca_line :: nat
  ca_refill_tag :: u32
  ca_pending_line_offset :: nat
  ca_refill_retry_pending :: bool
  ca_input_needs_retry :: bool
  ca_flush_acks :: nat

text \<open>What happens on the input port. When a request completes, the event holds what the master then finds in its buffer.\<close>

datatype cache_event =
  CE_Done req_ref "byte list" | CE_Resp req_ref "byte list" | CE_Granted req_ref | CE_Denied req_ref | CE_Retry

record 'd csys =
  cs_cache :: cache
  cs_down :: 'd
  cs_heap :: heap
  cs_req :: req_store
  cs_out :: "cache_event list"

text \<open>
  A refill has an address, a size and the buffer of the line; its answer is the buffer, the latency, the status of the response and of the request.
\<close>

record 'd refill_port =
  rp_refill :: "'d \<Rightarrow> u32 \<Rightarrow> nat \<Rightarrow> byte list \<Rightarrow> 'd \<times> byte list \<times> int \<times> io_resp_status \<times> io_req_status"
  rp_bypass :: "'d \<Rightarrow> heap \<Rightarrow> io_req \<Rightarrow> 'd \<times> heap \<times> io_req \<times> io_req_status"

abbreviation upd_cache :: "(cache \<Rightarrow> cache) \<Rightarrow> 'd csys \<Rightarrow> 'd csys" where
  "upd_cache f s \<equiv> s\<lparr>cs_cache := f (cs_cache s)\<rparr>"

definition upd_line :: "nat \<Rightarrow> (cache_line \<Rightarrow> cache_line) \<Rightarrow> cache \<Rightarrow> cache" where
  "upd_line l f ca = ca\<lparr>ca_lines := (ca_lines ca)[l := f (ca_lines ca ! l)]\<rparr>"

definition cs_inc_latency :: "req_ref \<Rightarrow> int \<Rightarrow> 'd csys \<Rightarrow> 'd csys" where
  "cs_inc_latency r n s = s\<lparr>cs_req := (cs_req s)(r := (cs_req s r)\<lparr>r_latency := r_latency (cs_req s r) + n\<rparr>)\<rparr>"

definition cs_buffer :: "'d csys \<Rightarrow> req_ref \<Rightarrow> byte list" where
  "cs_buffer s r = heap_read (cs_heap s) (r_data (cs_req s r)) (unat (r_size (cs_req s r)))"

definition cs_emit :: "cache_event \<Rightarrow> 'd csys \<Rightarrow> 'd csys" where
  "cs_emit e s = s\<lparr>cs_out := cs_out s @ [e]\<rparr>"

section \<open>Geometry\<close>

fun bit_len :: "nat \<Rightarrow> nat" where
  "bit_len n = (if n = 0 then 0 else Suc (bit_len (n div 2)))"

declare bit_len.simps [simp del]

definition ceil_log2 :: "nat \<Rightarrow> nat" where
  "ceil_log2 n = (if n \<le> 1 then 0 else bit_len (n - 1))"

definition line_size_bits :: "cache_config \<Rightarrow> nat" where
  "line_size_bits c = ceil_log2 (cc_line_size c)"

definition nb_sets :: "cache_config \<Rightarrow> nat" where
  "nb_sets c = cc_size c div cc_ways c div cc_line_size c"

definition line_base :: "cache_config \<Rightarrow> u32 \<Rightarrow> u32" where
  "line_base c a = a AND NOT (push_bit (line_size_bits c) 1 - 1)"

definition refill_addr :: "cache_config \<Rightarrow> u32 \<Rightarrow> u32" where
  "refill_addr c a = push_bit (cc_refill_shift c) (line_base c a) + ucast (cc_refill_offset c)"

definition set_index :: "cache_config \<Rightarrow> u32 \<Rightarrow> nat" where
  "set_index c tag = unat (tag AND (of_nat (nb_sets c) - 1))"

text \<open>The line of a set with a tag, if any.\<close>

definition find_way :: "cache_config \<Rightarrow> cache \<Rightarrow> nat \<Rightarrow> u32 \<Rightarrow> nat option" where
  "find_way c ca idx tag = find (\<lambda>l. cl_tag (ca_lines ca ! l) = tag) (map (\<lambda>i. idx * cc_ways c + i) [0..<cc_ways c])"

definition get_line :: "cache_config \<Rightarrow> cache \<Rightarrow> io_req \<Rightarrow> nat option \<times> nat \<times> u32 \<times> nat" where
  "get_line c ca q =
     (let offset = r_addr q;
          tag = ucast (drop_bit (line_size_bits c) offset);
          idx = set_index c tag;
          line_offset = unat (ucast (offset AND (push_bit (line_size_bits c) 1 - 1)) :: u32)
      in (find_way c ca idx tag, idx, tag, line_offset))"

section \<open>Replacement\<close>

definition lru_next :: "8 word \<Rightarrow> 8 word" where
  "lru_next x = (let feedback = \<not> ((bit x 7 \<noteq> bit x 3) \<noteq> (bit x 2 \<noteq> bit x 1)) in push_bit 1 x OR (if feedback then 1 else 0))"

definition step_lru :: "cache_config \<Rightarrow> cache \<Rightarrow> cache \<times> nat" where
  "step_lru c ca = (let x = lru_next (ca_lru_out ca) in (ca\<lparr>ca_lru_out := x\<rparr>, and (unat (drop_bit 1 x)) (cc_ways c - 1)))"

section \<open>Refills and prefetches\<close>

definition arm_prefetch :: "cache_config \<Rightarrow> u32 \<Rightarrow> cache \<Rightarrow> cache" where
  "arm_prefetch c a ca =
     (if \<not> cc_prefetch c then ca
      else ca\<lparr>ca_prefetch_wanted := True, ca_prefetch_addr := line_base c a + push_bit (line_size_bits c) 1\<rparr>)"

text \<open>The latency of a refill that completes at once, after the earlier ones.\<close>

definition refill_latency :: "cache_config \<Rightarrow> cache \<Rightarrow> int \<Rightarrow> int \<Rightarrow> int" where
  "refill_latency c ca now lat = (if now < ca_refill_timestamp ca then ca_refill_timestamp ca - now else 0) + lat + cc_refill_latency c"

text \<open>The request that reads a line into the buffer \<open>l\<close>.\<close>

definition send_refill :: "cache_config \<Rightarrow> 'd refill_port \<Rightarrow> nat \<Rightarrow> u32 \<Rightarrow> 'd csys \<Rightarrow> 'd csys \<times> int \<times> io_req_status" where
  "send_refill c port l a s =
     (case rp_refill port (cs_down s) (refill_addr c a) (2 ^ line_size_bits c) (cl_data (ca_lines (cs_cache s) ! l)) of
        (d, bs, lat, _, st) \<Rightarrow> (upd_cache (upd_line l (\<lambda>x. x\<lparr>cl_data := bs\<rparr>)) (s\<lparr>cs_down := d\<rparr>), lat, st))"

definition try_prefetch :: "cache_config \<Rightarrow> 'd refill_port \<Rightarrow> int \<Rightarrow> 'd csys \<Rightarrow> 'd csys" where
  "try_prefetch c port now s =
     (if \<not> ca_prefetch_wanted (cs_cache s) \<or> \<not> ca_enabled (cs_cache s) then s
      else
        let a = ca_prefetch_addr (cs_cache s);
            tag = drop_bit (line_size_bits c) a;
            idx = set_index c tag;
            s1 = upd_cache (\<lambda>x. x\<lparr>ca_prefetch_wanted := False\<rparr>) s
        in if find_way c (cs_cache s1) idx tag \<noteq> None then s1
           else case step_lru c (cs_cache s1) of (ca, way) \<Rightarrow>
             let l = idx * cc_ways c + way mod cc_ways c
             in case send_refill c port l a (s1\<lparr>cs_cache := ca\<rparr>) of (s2, lat, st) \<Rightarrow>
               (case st of
                  IO_REQ_GRANTED \<Rightarrow>
                    upd_cache (\<lambda>x. x\<lparr>ca_line := l, ca_refill_tag := tag, ca_pending_refill := True, ca_pending_is_prefetch := True\<rparr>) s2
                | IO_REQ_DENIED \<Rightarrow> s2
                | IO_REQ_DONE \<Rightarrow>
                    let n = refill_latency c (cs_cache s2) now lat
                    in upd_cache (\<lambda>x. upd_line l (\<lambda>y. y\<lparr>cl_tag := tag, cl_prefetched := True, cl_timestamp := now + n\<rparr>)
                         (x\<lparr>ca_refill_timestamp := now + n\<rparr>)) s2))"

definition check_state :: "cache_config \<Rightarrow> 'd refill_port \<Rightarrow> int \<Rightarrow> 'd csys \<Rightarrow> 'd csys" where
  "check_state c port now s =
     (let ca = cs_cache s; idle = (\<not> ca_pending_refill ca \<and> \<not> ca_refill_retry_pending ca)
      in if idle \<and> ca_queue ca \<noteq> [] then upd_cache (\<lambda>x. x\<lparr>ca_fsm := True\<rparr>) s
         else if idle then try_prefetch c port now s else s)"

datatype refill_result = R_Line nat | R_Pending | R_Denied

definition refill :: "cache_config \<Rightarrow> 'd refill_port \<Rightarrow> int \<Rightarrow> nat \<Rightarrow> u32 \<Rightarrow> u32 \<Rightarrow> req_ref \<Rightarrow> 'd csys \<Rightarrow> 'd csys \<times> refill_result" where
  "refill c port now idx a tag r s =
     (if ca_pending_refill (cs_cache s) then (upd_cache (\<lambda>x. x\<lparr>ca_queue := ca_queue x @ [r]\<rparr>) s, R_Pending)
      else case step_lru c (cs_cache s) of (ca, way) \<Rightarrow>
        let l = idx * cc_ways c + way mod cc_ways c
        in case send_refill c port l a (s\<lparr>cs_cache := ca\<rparr>) of (s2, lat, st) \<Rightarrow>
          (case st of
             IO_REQ_GRANTED \<Rightarrow>
               (upd_cache (\<lambda>x. x\<lparr>ca_queue := r # ca_queue x, ca_line := l, ca_refill_tag := tag, ca_pending_refill := True\<rparr>) s2, R_Pending)
           | IO_REQ_DENIED \<Rightarrow> (upd_cache (\<lambda>x. x\<lparr>ca_refill_retry_pending := True\<rparr>) s2, R_Denied)
           | IO_REQ_DONE \<Rightarrow>
               let n = refill_latency c (cs_cache s2) now lat
               in (cs_inc_latency r n (upd_cache (\<lambda>x. upd_line l (\<lambda>y. y\<lparr>cl_tag := tag, cl_timestamp := now + n\<rparr>)
                     (x\<lparr>ca_refill_timestamp := now + n\<rparr>)) s2), R_Line l)))"

section \<open>Requests\<close>

text \<open>The copy between a line and the buffer of a request; \<open>None\<close> is an access outside of the buffer of the line.\<close>

definition copy_line :: "nat \<Rightarrow> nat \<Rightarrow> req_ref \<Rightarrow> 'd csys \<Rightarrow> 'd csys option" where
  "copy_line l off r s =
     (let q = cs_req s r; ca = cs_cache s
      in if r_data q = 0 then Some s
         else if \<not> r_is_write q then
           map_option (\<lambda>bs. s\<lparr>cs_heap := heap_write (cs_heap s) (r_data q) bs\<rparr>) (arr_read (cl_data (ca_lines ca ! l)) off (unat (r_size q)))
         else
           map_option (\<lambda>bs. upd_cache (upd_line l (\<lambda>x. x\<lparr>cl_data := bs\<rparr>)) s) (arr_write (cl_data (ca_lines ca ! l)) off (cs_buffer s r)))"

definition handle_req :: "cache_config \<Rightarrow> 'd refill_port \<Rightarrow> int \<Rightarrow> req_ref \<Rightarrow> 'd csys \<Rightarrow> ('d csys \<times> io_req_status) option" where
  "handle_req c port now r s =
     (case get_line c (cs_cache s) (cs_req s r) of (hit, idx, tag, off) \<Rightarrow>
        (case hit of
           None \<Rightarrow>
             let a = ucast (r_addr (cs_req s r))
             in (case refill c port now idx a tag r (upd_cache (arm_prefetch c a) s) of
                  (s1, R_Line l) \<Rightarrow> map_option (\<lambda>s2. (s2, IO_REQ_DONE)) (copy_line l off r s1)
                | (s1, R_Pending) \<Rightarrow> Some (upd_cache (\<lambda>x. x\<lparr>ca_pending_line_offset := off\<rparr>) s1, IO_REQ_GRANTED)
                | (s1, R_Denied) \<Rightarrow> Some (s1, IO_REQ_DENIED))
         | Some l \<Rightarrow>
             let line = ca_lines (cs_cache s) ! l;
                 s1 = (if now < cl_timestamp line then cs_inc_latency r (cl_timestamp line - now) s else s);
                 s2 = (if cl_prefetched line
                       then upd_cache (\<lambda>x. arm_prefetch c (ucast (r_addr (cs_req s r))) (upd_line l (\<lambda>y. y\<lparr>cl_prefetched := False\<rparr>) x)) s1
                       else s1)
             in map_option (\<lambda>s3. (s3, IO_REQ_DONE)) (copy_line l off r s2)))"

definition ca_input_req :: "cache_config \<Rightarrow> 'd refill_port \<Rightarrow> int \<Rightarrow> req_ref \<Rightarrow> 'd csys \<Rightarrow> ('d csys \<times> io_req_status) option" where
  "ca_input_req c port now r s =
     (let ca = cs_cache s; q = cs_req s r
      in if \<not> ca_enabled ca then
           (case rp_bypass port (cs_down s) (cs_heap s) (q\<lparr>r_addr := push_bit (cc_refill_shift c) (r_addr q) + cc_refill_offset c\<rparr>) of
              (d, h, q1, st) \<Rightarrow>
                let s1 = s\<lparr>cs_down := d, cs_heap := h\<rparr>
                in if st = IO_REQ_DENIED
                   then Some (upd_cache (\<lambda>x. x\<lparr>ca_input_needs_retry := True\<rparr>) (s1\<lparr>cs_req := (cs_req s)(r := q1\<lparr>r_addr := r_addr q\<rparr>)\<rparr>), st)
                   else Some (s1\<lparr>cs_req := (cs_req s)(r := q1)\<rparr>, st))
         else if ca_pending_refill ca \<or> ca_refill_retry_pending ca then
           Some (check_state c port now (upd_cache (\<lambda>x. x\<lparr>ca_queue := ca_queue x @ [r]\<rparr>) s), IO_REQ_GRANTED)
         else
           map_option (\<lambda>(s1, st).
             (if st = IO_REQ_DENIED then upd_cache (\<lambda>x. x\<lparr>ca_input_needs_retry := True\<rparr>) s1
              else if \<not> ca_pending_refill (cs_cache s1) \<and> \<not> ca_refill_retry_pending (cs_cache s1) then try_prefetch c port now s1
              else s1, st)) (handle_req c port now r s))"

text \<open>A submission of the master, with what it observes.\<close>

definition ca_submit :: "cache_config \<Rightarrow> 'd refill_port \<Rightarrow> int \<Rightarrow> req_ref \<Rightarrow> 'd csys \<Rightarrow> 'd csys option" where
  "ca_submit c port now r s =
     map_option (\<lambda>(s1, st). cs_emit (case st of IO_REQ_DONE \<Rightarrow> CE_Done r (cs_buffer s1 r) | IO_REQ_GRANTED \<Rightarrow> CE_Granted r | IO_REQ_DENIED \<Rightarrow> CE_Denied r) s1)
       (ca_input_req c port now r s)"

fun ca_submits :: "cache_config \<Rightarrow> 'd refill_port \<Rightarrow> int \<Rightarrow> req_ref list \<Rightarrow> 'd csys \<Rightarrow> 'd csys option" where
  "ca_submits c port now [] s = Some s"
| "ca_submits c port now (r # rs) s = Option.bind (ca_submit c port now r s) (ca_submits c port now rs)"

section \<open>Responses, retries and the queue\<close>

text \<open>The last beat of a prefetch, of a refill and of a request that was forwarded in bypass mode. \<open>None\<close> in \<open>refill_resp\<close> is also the failed assertion.\<close>

definition prefetch_resp :: "cache_config \<Rightarrow> 'd refill_port \<Rightarrow> int \<Rightarrow> 'd csys \<Rightarrow> 'd csys" where
  "prefetch_resp c port now s =
     check_state c port now (upd_cache (\<lambda>x. (upd_line (ca_line x) (\<lambda>y. y\<lparr>cl_tag := ca_refill_tag x, cl_prefetched := True\<rparr>) x)
       \<lparr>ca_pending_refill := False, ca_pending_is_prefetch := False\<rparr>) s)"

definition refill_resp :: "cache_config \<Rightarrow> 'd refill_port \<Rightarrow> int \<Rightarrow> req_ref list \<Rightarrow> 'd csys \<Rightarrow> 'd csys option" where
  "refill_resp c port now reent s =
     (case ca_queue (cs_cache s) of
        [] \<Rightarrow> None
      | r # rest \<Rightarrow>
          let s1 = upd_cache (\<lambda>x. x\<lparr>ca_queue := rest, ca_pending_refill := False\<rparr>) s;
              s2 = (if r_data (cs_req s r) \<noteq> 0 then upd_cache (\<lambda>x. upd_line (ca_line x) (\<lambda>y. y\<lparr>cl_tag := ca_refill_tag x\<rparr>) x) s1 else s1)
          in do {
            s3 \<leftarrow> copy_line (ca_line (cs_cache s)) (ca_pending_line_offset (cs_cache s)) r s2;
            s4 \<leftarrow> ca_submits c port now reent (cs_emit (CE_Resp r (cs_buffer s3 r)) s3);
            Some (check_state c port now s4)
          })"

definition bypass_resp :: "cache_config \<Rightarrow> 'd refill_port \<Rightarrow> int \<Rightarrow> req_ref \<Rightarrow> req_ref list \<Rightarrow> 'd csys \<Rightarrow> 'd csys option" where
  "bypass_resp c port now r reent s = ca_submits c port now reent (cs_emit (CE_Resp r (cs_buffer s r)) s)"

definition refill_retry :: "cache_config \<Rightarrow> 'd refill_port \<Rightarrow> int \<Rightarrow> req_ref list \<Rightarrow> 'd csys \<Rightarrow> 'd csys option" where
  "refill_retry c port now reent s =
     (let s1 = upd_cache (\<lambda>x. x\<lparr>ca_refill_retry_pending := False\<rparr>) s
      in map_option (check_state c port now)
           (if ca_input_needs_retry (cs_cache s1)
            then ca_submits c port now reent (cs_emit CE_Retry (upd_cache (\<lambda>x. x\<lparr>ca_input_needs_retry := False\<rparr>) s1))
            else Some s1))"

text \<open>\<open>ready\<close>: the head of the queue is available in this cycle (\<^verbatim>\<open>vp::Queue::empty\<close>).\<close>

definition fsm_handler :: "cache_config \<Rightarrow> 'd refill_port \<Rightarrow> int \<Rightarrow> bool \<Rightarrow> req_ref list \<Rightarrow> 'd csys \<Rightarrow> 'd csys option" where
  "fsm_handler c port now ready reent s0 =
     (let s = upd_cache (\<lambda>x. x\<lparr>ca_fsm := False\<rparr>) s0; ca = cs_cache s
      in map_option (check_state c port now)
           (if \<not> ca_pending_refill ca \<and> \<not> ca_refill_retry_pending ca \<and> ready then
              (case ca_queue ca of
                 [] \<Rightarrow> Some s
               | r # rest \<Rightarrow> do {
                   (s1, st) \<leftarrow> handle_req c port now r (upd_cache (\<lambda>x. x\<lparr>ca_queue := rest\<rparr>) s);
                   (case st of
                      IO_REQ_DONE \<Rightarrow> ca_submits c port now reent (cs_emit (CE_Resp r (cs_buffer s1 r)) s1)
                    | IO_REQ_DENIED \<Rightarrow> Some (upd_cache (\<lambda>x. x\<lparr>ca_queue := r # ca_queue x\<rparr>) s1)
                    | IO_REQ_GRANTED \<Rightarrow> Some s1)
                 })
            else Some s))"

section \<open>Flushes, the enable wire and reset\<close>

definition flush_line_op :: "cache_config \<Rightarrow> u32 \<Rightarrow> cache \<Rightarrow> cache" where
  "flush_line_op c a ca =
     (let tag = drop_bit (line_size_bits c) a; idx = set_index c tag
      in fold (\<lambda>i x. if cl_tag (ca_lines x ! (idx * cc_ways c + i)) = tag then upd_line (idx * cc_ways c + i) (\<lambda>y. y\<lparr>cl_tag := - 1\<rparr>) x else x) [0..<cc_ways c] ca)"

definition flush :: "bool \<Rightarrow> cache \<Rightarrow> cache" where
  "flush ack_bound ca =
     ca\<lparr>ca_lines := map (\<lambda>y. y\<lparr>cl_tag := - 1\<rparr>) (ca_lines ca), ca_flush_acks := ca_flush_acks ca + (if ack_bound then 1 else 0)\<rparr>"

definition enable_sync :: "bool \<Rightarrow> cache \<Rightarrow> cache" where
  "enable_sync e ca = ca\<lparr>ca_enabled := e\<rparr>"

definition flush_sync :: "bool \<Rightarrow> bool \<Rightarrow> cache \<Rightarrow> cache" where
  "flush_sync ack_bound active ca = (if active then flush ack_bound ca else ca)"

definition flush_line_sync :: "cache_config \<Rightarrow> bool \<Rightarrow> cache \<Rightarrow> cache" where
  "flush_line_sync c active ca = (if active then flush_line_op c (ca_flush_line_addr ca) ca else ca)"

definition flush_line_addr_sync :: "u32 \<Rightarrow> cache \<Rightarrow> cache" where
  "flush_line_addr_sync a ca = ca\<lparr>ca_flush_line_addr := a\<rparr>"

definition ca_reset :: "cache_config \<Rightarrow> bool \<Rightarrow> bool \<Rightarrow> cache \<Rightarrow> cache" where
  "ca_reset c ack_bound active ca =
     (if active
      then (flush ack_bound ca)\<lparr>ca_enabled := cc_enabled c, ca_refill_retry_pending := False, ca_input_needs_retry := False,
             ca_refill_timestamp := - 1, ca_prefetch_wanted := False, ca_pending_is_prefetch := False\<rparr>
      else ca)"

text \<open>The lines that the constructor makes; the contents of the buffers are not initialised (\<open>junk\<close>).\<close>

definition init_lines :: "cache_config \<Rightarrow> byte list \<Rightarrow> cache_line list" where
  "init_lines c junk = replicate (nb_sets c * cc_ways c) \<lparr>cl_tag = - 1, cl_data = junk, cl_timestamp = - 1, cl_prefetched = False\<rparr>"

end
