(* ===== verification/Cache_V4_Props.thy ===== *)
theory Cache_V4_Props
  imports Cache_V4
begin

unbundle bit_operations_syntax

text \<open>
  The cache is transparent for reads: over all interleavings of submissions, refills, prefetches, retries and flushes, what the master finds in its buffer are the bytes of the
  memory behind the refill port. The locale \<open>refill_target\<close> is what the cache relies on.
\<close>

section \<open>Geometry\<close>

definition geom :: "cache_config \<Rightarrow> bool" where
  "geom c \<longleftrightarrow> cc_line_size c = 2 ^ line_size_bits c \<and> 0 < line_size_bits c \<and> line_size_bits c < 32 \<and> 0 < nb_sets c \<and> nb_sets c < 2 ^ 32 \<and> 0 < cc_ways c"

text \<open>The address of the line with a tag, behind the refill port.\<close>

definition tag_addr :: "cache_config \<Rightarrow> u32 \<Rightarrow> u32" where
  "tag_addr c tag = push_bit (cc_refill_shift c) (push_bit (line_size_bits c) tag) + ucast (cc_refill_offset c)"

lemma line_base_eq: "line_base c a = push_bit (line_size_bits c) (drop_bit (line_size_bits c) a)"
proof -
  have "(push_bit (line_size_bits c) 1 - 1 :: u32) = mask (line_size_bits c)" by (simp add: mask_eq_exp_minus_1 push_bit_of_1)
  then show ?thesis by (intro bit_word_eqI) (auto simp: line_base_def bit_simps)
qed

lemma refill_addr_tag: "refill_addr c a = tag_addr c (drop_bit (line_size_bits c) a)"
  by (simp add: refill_addr_def tag_addr_def line_base_eq)

definition line_off :: "cache_config \<Rightarrow> io_req \<Rightarrow> nat" where
  "line_off c q = unat (ucast (r_addr q AND (push_bit (line_size_bits c) 1 - 1)) :: u32)"

definition req_tag :: "cache_config \<Rightarrow> io_req \<Rightarrow> u32" where
  "req_tag c q = ucast (drop_bit (line_size_bits c) (r_addr q))"

lemma req_tag_small:
  assumes "r_addr q < 2 ^ 32"
  shows "req_tag c q = drop_bit (line_size_bits c) (ucast (r_addr q))"
proof (rule bit_word_eqI)
  fix n assume "n < LENGTH(32)"
  have "unat (drop_bit 32 (r_addr q)) = 0" using assms by (simp add: drop_bit_eq_div word_less_nat_alt unat_div)
  then have "\<not> bit (drop_bit 32 (r_addr q)) k" for k by (simp add: unat_eq_0)
  then have hi: "bit (r_addr q) m \<Longrightarrow> m < 32" for m by (metis add_diff_inverse_nat bit_drop_bit_eq comp_apply)
  show "bit (req_tag c q) n = bit (drop_bit (line_size_bits c) (ucast (r_addr q) :: u32)) n"
    using hi \<open>n < LENGTH(32)\<close> by (auto simp: req_tag_def bit_simps)
qed

lemma tag_valid:
  assumes "0 < line_size_bits c" "line_size_bits c < 32"
  shows "drop_bit (line_size_bits c) (a :: u32) \<noteq> - 1"
proof
  assume "drop_bit (line_size_bits c) a = - 1"
  then have "bit (drop_bit (line_size_bits c) a) 31" by simp
  then show False using assms bit_imp_le_length [of a "line_size_bits c + 31"] by (simp add: bit_simps)
qed

lemma set_index_less: "geom c \<Longrightarrow> set_index c tag < nb_sets c"
proof -
  assume g: "geom c"
  have "tag AND (of_nat (nb_sets c) - 1) \<le> of_nat (nb_sets c) - 1" by (rule word_and_le1)
  moreover have "unat (of_nat (nb_sets c) - 1 :: u32) = nb_sets c - 1"
    using g by (simp add: geom_def unat_sub_if' unat_of_nat of_nat_gt_0 word_le_nat_alt)
  ultimately show ?thesis using g by (simp add: set_index_def geom_def word_le_nat_alt) linarith
qed

lemma line_index_less: "\<lbrakk>geom c; idx < nb_sets c; i < cc_ways c\<rbrakk> \<Longrightarrow> idx * cc_ways c + i < nb_sets c * cc_ways c"
proof -
  assume "geom c" "idx < nb_sets c" "i < cc_ways c"
  then have "Suc idx * cc_ways c \<le> nb_sets c * cc_ways c" by (intro mult_le_mono1) simp
  then show ?thesis using \<open>i < cc_ways c\<close> by simp
qed

section \<open>What the cache relies on\<close>

text \<open>
  \<open>content\<close> are the bytes behind the refill port, \<open>covers\<close> the address ranges it serves, \<open>outstanding\<close> the address of the refill it has taken over.
\<close>

locale refill_target =
  fixes port :: "'d refill_port"
    and content :: "'d \<Rightarrow> u32 \<Rightarrow> byte"
    and covers :: "u32 \<Rightarrow> nat \<Rightarrow> bool"
    and outstanding :: "'d \<Rightarrow> u32"
    and dinv :: "'d \<Rightarrow> bool"
  assumes refill_keeps: "\<lbrakk>dinv d; rp_refill port d a n buf = (d', buf', lat, rs, st); length buf = n; 0 < n; n < 2 ^ 32\<rbrakk> \<Longrightarrow> dinv d' \<and> content d' = content d \<and> length buf' = n"
    and refill_done: "\<lbrakk>dinv d; rp_refill port d a n buf = (d', buf', lat, rs, IO_REQ_DONE); length buf = n; 0 < n; n < 2 ^ 32; covers a n\<rbrakk> \<Longrightarrow>
      buf' = map (\<lambda>i. content d (a + of_nat i)) [0..<n]"
    and refill_denied: "\<lbrakk>dinv d; rp_refill port d a n buf = (d', buf', lat, rs, IO_REQ_DENIED); length buf = n; 0 < n; n < 2 ^ 32\<rbrakk> \<Longrightarrow> buf' = buf"
    and refill_granted: "\<lbrakk>dinv d; rp_refill port d a n buf = (d', buf', lat, rs, IO_REQ_GRANTED); length buf = n; 0 < n; n < 2 ^ 32\<rbrakk> \<Longrightarrow> outstanding d' = a"

section \<open>Invariant\<close>

definition mem_line :: "cache_config \<Rightarrow> (u32 \<Rightarrow> byte) \<Rightarrow> u32 \<Rightarrow> byte list" where
  "mem_line c mem tag = map (\<lambda>i. mem (tag_addr c tag + of_nat i)) [0..<2 ^ line_size_bits c]"

text \<open>Lines other than \<open>X\<close> hold the bytes of the memory.\<close>

definition lines_ok :: "cache_config \<Rightarrow> (u32 \<Rightarrow> nat \<Rightarrow> bool) \<Rightarrow> (u32 \<Rightarrow> byte) \<Rightarrow> nat set \<Rightarrow> cache_line list \<Rightarrow> bool" where
  "lines_ok c cov mem X L \<longleftrightarrow> length L = nb_sets c * cc_ways c \<and>
     (\<forall>l<length L. length (cl_data (L ! l)) = 2 ^ line_size_bits c \<and>
        (l \<notin> X \<and> cl_tag (L ! l) \<noteq> - 1 \<and> cov (tag_addr c (cl_tag (L ! l))) (2 ^ line_size_bits c) \<longrightarrow> cl_data (L ! l) = mem_line c mem (cl_tag (L ! l))))"

text \<open>A read that lies in one line of the memory.\<close>

definition read_ok :: "cache_config \<Rightarrow> (u32 \<Rightarrow> nat \<Rightarrow> bool) \<Rightarrow> io_req \<Rightarrow> bool" where
  "read_ok c cov q \<longleftrightarrow> \<not> r_is_write q \<and> r_data q \<noteq> 0 \<and> r_addr q < 2 ^ 32 \<and> line_off c q + unat (r_size q) \<le> 2 ^ line_size_bits c \<and>
     cov (refill_addr c (ucast (r_addr q))) (2 ^ line_size_bits c)"

definition pending_ok :: "cache_config \<Rightarrow> u32 \<Rightarrow> req_store \<Rightarrow> cache \<Rightarrow> bool" where
  "pending_ok c out rq ca \<longleftrightarrow> (ca_pending_refill ca \<longrightarrow>
     ca_line ca < length (ca_lines ca) \<and> out = tag_addr c (ca_refill_tag ca) \<and> ca_refill_tag ca \<noteq> - 1 \<and>
     (\<not> ca_pending_is_prefetch ca \<longrightarrow> ca_queue ca \<noteq> [] \<and> ca_pending_line_offset ca = line_off c (rq (hd (ca_queue ca))) \<and>
        ca_refill_tag ca = req_tag c (rq (hd (ca_queue ca)))))"

definition victim :: "cache \<Rightarrow> nat set" where
  "victim ca = (if ca_pending_refill ca then {ca_line ca} else {})"

definition good :: "cache_config \<Rightarrow> ('d \<Rightarrow> u32 \<Rightarrow> byte) \<Rightarrow> (u32 \<Rightarrow> nat \<Rightarrow> bool) \<Rightarrow> ('d \<Rightarrow> u32) \<Rightarrow> ('d \<Rightarrow> bool) \<Rightarrow> 'd csys \<Rightarrow> bool" where
  "good c content cov outst dinv s \<longleftrightarrow> dinv (cs_down s) \<and> ca_enabled (cs_cache s) \<and> (\<forall>r. read_ok c cov (cs_req s r)) \<and>
     lines_ok c cov (content (cs_down s)) (victim (cs_cache s)) (ca_lines (cs_cache s)) \<and>
     pending_ok c (outst (cs_down s)) (cs_req s) (cs_cache s) \<and> (\<not> ca_pending_refill (cs_cache s) \<longrightarrow> \<not> ca_pending_is_prefetch (cs_cache s))"

text \<open>The bytes that a read is to return.\<close>

definition mem_bytes :: "cache_config \<Rightarrow> (u32 \<Rightarrow> byte) \<Rightarrow> io_req \<Rightarrow> byte list" where
  "mem_bytes c mem q = map (\<lambda>i. mem (refill_addr c (ucast (r_addr q)) + of_nat (line_off c q + i))) [0..<unat (r_size q)]"

definition event_ok :: "cache_config \<Rightarrow> (u32 \<Rightarrow> byte) \<Rightarrow> req_store \<Rightarrow> cache_event \<Rightarrow> bool" where
  "event_ok c mem rq e = (case e of CE_Done r bs \<Rightarrow> bs = mem_bytes c mem (rq r) | CE_Resp r bs \<Rightarrow> bs = mem_bytes c mem (rq r) | _ \<Rightarrow> True)"

text \<open>A step leads to a good state, keeps the memory and the requests but for their latencies, and completes requests with the bytes of the memory.\<close>

definition same_req :: "io_req \<Rightarrow> io_req \<Rightarrow> bool" where
  "same_req q q' \<longleftrightarrow> r_addr q' = r_addr q \<and> r_size q' = r_size q \<and> r_data q' = r_data q \<and> r_is_write q' = r_is_write q"

definition leads :: "cache_config \<Rightarrow> ('d \<Rightarrow> u32 \<Rightarrow> byte) \<Rightarrow> (u32 \<Rightarrow> nat \<Rightarrow> bool) \<Rightarrow> ('d \<Rightarrow> u32) \<Rightarrow> ('d \<Rightarrow> bool) \<Rightarrow> 'd csys \<Rightarrow> 'd csys \<Rightarrow> bool" where
  "leads c content cov outst dinv s s' \<longleftrightarrow> good c content cov outst dinv s' \<and> content (cs_down s') = content (cs_down s) \<and>
     (\<forall>r. same_req (cs_req s r) (cs_req s' r)) \<and>
     (\<exists>es. cs_out s' = cs_out s @ es \<and> (\<forall>e\<in>set es. event_ok c (content (cs_down s)) (cs_req s) e))"

lemma same_req_simps:
  assumes "same_req q q'"
  shows "line_off c q' = line_off c q" "req_tag c q' = req_tag c q" "read_ok c cov q' = read_ok c cov q" "mem_bytes c mem q' = mem_bytes c mem q"
  using assms by (simp_all add: same_req_def line_off_def req_tag_def read_ok_def mem_bytes_def)

lemma event_ok_cong:
  assumes "\<forall>r. same_req (rq r) (rq' r)"
  shows "event_ok c mem rq' e = event_ok c mem rq e"
proof -
  have "mem_bytes c mem (rq' r) = mem_bytes c mem (rq r)" for r using assms by (intro same_req_simps(4)) simp
  then show ?thesis by (simp add: event_ok_def split: cache_event.splits)
qed

lemma leads_refl: "good c content cov outst dinv s \<Longrightarrow> leads c content cov outst dinv s s"
  by (auto simp: leads_def same_req_def)

lemma leads_trans:
  assumes "leads c content cov outst dinv s s1" "leads c content cov outst dinv s1 s2"
  shows "leads c content cov outst dinv s s2"
proof -
  obtain es es' where e: "cs_out s1 = cs_out s @ es" "\<forall>e\<in>set es. event_ok c (content (cs_down s)) (cs_req s) e"
    "cs_out s2 = cs_out s1 @ es'" "\<forall>e\<in>set es'. event_ok c (content (cs_down s1)) (cs_req s1) e"
    using assms unfolding leads_def by blast
  have "\<forall>e\<in>set es'. event_ok c (content (cs_down s)) (cs_req s) e"
    using e(4) assms(1) event_ok_cong [of "cs_req s" "cs_req s1"] by (simp add: leads_def)
  then show ?thesis using assms e unfolding leads_def same_req_def by (intro conjI allI exI [of _ "es @ es'"]) auto
qed

section \<open>Lines\<close>

lemma lines_ok_update:
  assumes "lines_ok c cov mem X L" "l < length L" "length (cl_data y) = 2 ^ line_size_bits c" "X - {l} \<subseteq> Y"
    "l \<notin> Y \<Longrightarrow> cl_tag y \<noteq> - 1 \<Longrightarrow> cov (tag_addr c (cl_tag y)) (2 ^ line_size_bits c) \<Longrightarrow> cl_data y = mem_line c mem (cl_tag y)"
  shows "lines_ok c cov mem Y (L[l := y])"
  unfolding lines_ok_def length_list_update
proof (intro conjI allI impI)
  show "length L = nb_sets c * cc_ways c" using assms(1) by (simp add: lines_ok_def)
  fix k assume k: "k < length L"
  have old: "length (cl_data (L ! k)) = 2 ^ line_size_bits c"
    "k \<notin> X \<Longrightarrow> cl_tag (L ! k) \<noteq> - 1 \<Longrightarrow> cov (tag_addr c (cl_tag (L ! k))) (2 ^ line_size_bits c) \<Longrightarrow> cl_data (L ! k) = mem_line c mem (cl_tag (L ! k))"
    using assms(1) k unfolding lines_ok_def by blast+
  show "length (cl_data (L[l := y] ! k)) = 2 ^ line_size_bits c" using old(1) assms(3) k by (cases "k = l") auto
  assume "k \<notin> Y \<and> cl_tag (L[l := y] ! k) \<noteq> - 1 \<and> cov (tag_addr c (cl_tag (L[l := y] ! k))) (2 ^ line_size_bits c)"
  then show "cl_data (L[l := y] ! k) = mem_line c mem (cl_tag (L[l := y] ! k))"
    using old(2) assms(2,4,5) k by (cases "k = l") auto
qed

lemma lines_okD:
  assumes "lines_ok c cov mem X L" "l < length L"
  shows "length (cl_data (L ! l)) = 2 ^ line_size_bits c"
    "l \<notin> X \<Longrightarrow> cl_tag (L ! l) \<noteq> - 1 \<Longrightarrow> cov (tag_addr c (cl_tag (L ! l))) (2 ^ line_size_bits c) \<Longrightarrow> cl_data (L ! l) = mem_line c mem (cl_tag (L ! l))"
  using assms unfolding lines_ok_def by blast+

lemma find_way_Some:
  assumes "find_way c ca idx tag = Some l"
  shows "cl_tag (ca_lines ca ! l) = tag \<and> (\<exists>i<cc_ways c. l = idx * cc_ways c + i)"
  using assms by (auto simp: find_way_def find_Some_iff)

lemma way_less: "geom c \<Longrightarrow> set_index c tag * cc_ways c + way mod cc_ways c < nb_sets c * cc_ways c"
  by (rule line_index_less) (auto simp: geom_def intro: set_index_less [unfolded geom_def])

lemma cs_inc_latency_simps [simp]:
  "cs_cache (cs_inc_latency r n s) = cs_cache s" "cs_down (cs_inc_latency r n s) = cs_down s" "cs_heap (cs_inc_latency r n s) = cs_heap s"
  "cs_out (cs_inc_latency r n s) = cs_out s" "same_req (cs_req s x) (cs_req (cs_inc_latency r n s) x)"
  by (simp_all add: cs_inc_latency_def same_req_def)

lemma arm_prefetch_simps [simp]:
  "ca_lines (arm_prefetch c a ca) = ca_lines ca" "ca_enabled (arm_prefetch c a ca) = ca_enabled ca" "ca_pending_refill (arm_prefetch c a ca) = ca_pending_refill ca"
  "ca_pending_is_prefetch (arm_prefetch c a ca) = ca_pending_is_prefetch ca" "ca_line (arm_prefetch c a ca) = ca_line ca" "ca_refill_tag (arm_prefetch c a ca) = ca_refill_tag ca"
  "ca_queue (arm_prefetch c a ca) = ca_queue ca" "ca_pending_line_offset (arm_prefetch c a ca) = ca_pending_line_offset ca"
  "ca_fsm (arm_prefetch c a ca) = ca_fsm ca" "ca_refill_retry_pending (arm_prefetch c a ca) = ca_refill_retry_pending ca"
  by (simp_all add: arm_prefetch_def)

lemma try_prefetch_frame [simp]: "cs_heap (try_prefetch c port now s) = cs_heap s" "cs_req (try_prefetch c port now s) = cs_req s" "cs_out (try_prefetch c port now s) = cs_out s"
  by (auto simp: try_prefetch_def send_refill_def Let_def split: prod.splits io_req_status.splits)

text \<open>The fields that the invariant is about.\<close>

definition core :: "cache \<Rightarrow> (bool \<times> bool \<times> bool) \<times> nat \<times> u32 \<times> req_ref list \<times> nat" where
  "core ca = ((ca_enabled ca, ca_pending_refill ca, ca_pending_is_prefetch ca), ca_line ca, ca_refill_tag ca, ca_queue ca, ca_pending_line_offset ca)"

lemma get_line_eq:
  "get_line c ca q = (find_way c ca (set_index c (req_tag c q)) (req_tag c q), set_index c (req_tag c q), req_tag c q, line_off c q)"
  by (simp add: get_line_def req_tag_def line_off_def Let_def)

section \<open>Operations keep the invariant\<close>

context refill_target
begin

lemma send_refill_ok:
  assumes g: "geom c" and s: "send_refill c port l a s = (s', lat, st)" and d: "dinv (cs_down s)" and l: "l < length (ca_lines (cs_cache s))"
    and L: "lines_ok c covers (content (cs_down s)) {} (ca_lines (cs_cache s))"
  obtains bs where "cs_cache s' = upd_line l (\<lambda>x. x\<lparr>cl_data := bs\<rparr>) (cs_cache s)" "cs_req s' = cs_req s" "cs_out s' = cs_out s" "cs_heap s' = cs_heap s"
    "dinv (cs_down s')" "content (cs_down s') = content (cs_down s)" "length bs = 2 ^ line_size_bits c"
    "st = IO_REQ_DENIED \<Longrightarrow> bs = cl_data (ca_lines (cs_cache s) ! l)" "st = IO_REQ_GRANTED \<Longrightarrow> outstanding (cs_down s') = tag_addr c (drop_bit (line_size_bits c) a)"
    "st = IO_REQ_DONE \<Longrightarrow> covers (tag_addr c (drop_bit (line_size_bits c) a)) (2 ^ line_size_bits c) \<Longrightarrow> bs = mem_line c (content (cs_down s)) (drop_bit (line_size_bits c) a)"
proof -
  let ?buf = "cl_data (ca_lines (cs_cache s) ! l)"
  have len: "length ?buf = 2 ^ line_size_bits c" by (rule lines_okD(1) [OF L l])
  obtain d' bs lat' rs st' where p: "rp_refill port (cs_down s) (refill_addr c a) (2 ^ line_size_bits c) ?buf = (d', bs, lat', rs, st')" by (metis prod_cases5)
  have eq: "st' = st" "s' = upd_cache (upd_line l (\<lambda>x. x\<lparr>cl_data := bs\<rparr>)) (s\<lparr>cs_down := d'\<rparr>)" using s by (auto simp: send_refill_def p)
  have n: "0 < (2 :: nat) ^ line_size_bits c" "(2 :: nat) ^ line_size_bits c < 2 ^ 32" using g by (simp_all add: geom_def power_strict_increasing del: power_numeral)
  note k = refill_keeps [OF d p len n] and dn = refill_done [OF d, of "refill_addr c a" "2 ^ line_size_bits c" ?buf d' bs lat' rs]
    and de = refill_denied [OF d, of "refill_addr c a" "2 ^ line_size_bits c" ?buf d' bs lat' rs]
    and gr = refill_granted [OF d, of "refill_addr c a" "2 ^ line_size_bits c" ?buf d' bs lat' rs]
  show thesis
    by (rule that [of bs]) (use p len n k dn de gr in \<open>auto simp: eq refill_addr_tag mem_line_def\<close>)
qed

text \<open>The state after a refill: the line is tagged, or is the victim of the refill in flight, or nothing changed.\<close>

lemma lines_refilled:
  assumes L: "lines_ok c covers mem {} L" and l: "l < length L" and bs: "length bs = 2 ^ line_size_bits c"
    and y: "cl_data y = bs" "covers (tag_addr c (cl_tag y)) (2 ^ line_size_bits c) \<Longrightarrow> bs = mem_line c mem (cl_tag y)"
  shows "lines_ok c covers mem {} (L[l := y])"
  using lines_ok_update [OF L l, of y "{}"] bs y by simp

lemma lines_victim:
  assumes L: "lines_ok c covers mem {} L" and l: "l < length L" and bs: "length (cl_data y) = 2 ^ line_size_bits c"
  shows "lines_ok c covers mem {l} (L[l := y])"
  using lines_ok_update [OF L l, of y "{l}"] bs by simp

lemma good_core:
  assumes "core (cs_cache s') = core (cs_cache s)" "ca_lines (cs_cache s') = ca_lines (cs_cache s)" "cs_down s' = cs_down s" "\<And>r. same_req (cs_req s r) (cs_req s' r)"
  shows "good c content covers outstanding dinv s' = good c content covers outstanding dinv s"
  using assms by (simp add: good_def victim_def pending_ok_def core_def same_req_simps [OF assms(4)])

lemma leads_core:
  assumes "core (cs_cache s') = core (cs_cache s)" "ca_lines (cs_cache s') = ca_lines (cs_cache s)" "cs_down s' = cs_down s" "\<And>r. same_req (cs_req s r) (cs_req s' r)"
    "cs_out s' = cs_out s" "good c content covers outstanding dinv s"
  shows "leads c content covers outstanding dinv s s'"
  using good_core [OF assms(1-4)] assms by (simp add: leads_def)

lemma goodD:
  assumes "good c content covers outstanding dinv s"
  shows "dinv (cs_down s)" "ca_enabled (cs_cache s)" "read_ok c covers (cs_req s r)"
    "\<not> ca_pending_refill (cs_cache s) \<Longrightarrow> lines_ok c covers (content (cs_down s)) {} (ca_lines (cs_cache s))"
    "length (ca_lines (cs_cache s)) = nb_sets c * cc_ways c"
  using assms by (auto simp: good_def victim_def lines_ok_def)

lemma attempt_ok:
  assumes g: "geom c" and s: "good c content covers outstanding dinv s" and np: "\<not> ca_pending_refill (cs_cache s)"
    and ca: "core ca = core (cs_cache s)" "ca_lines ca = ca_lines (cs_cache s)" and l: "l = set_index c tag * cc_ways c + way mod cc_ways c"
    and snd: "send_refill c port l a (s\<lparr>cs_cache := ca\<rparr>) = (s2, lat, st)"
  shows "core (cs_cache s2) = core (cs_cache s)" "length (ca_lines (cs_cache s2)) = length (ca_lines (cs_cache s))" "l < length (ca_lines (cs_cache s))"
    "cs_req s2 = cs_req s" "cs_out s2 = cs_out s" "cs_heap s2 = cs_heap s" "dinv (cs_down s2)" "content (cs_down s2) = content (cs_down s)"
    "st = IO_REQ_DENIED \<Longrightarrow> ca_lines (cs_cache s2) = ca_lines (cs_cache s)"
    "st = IO_REQ_GRANTED \<Longrightarrow> outstanding (cs_down s2) = tag_addr c (drop_bit (line_size_bits c) a) \<and>
       lines_ok c covers (content (cs_down s)) {l} (ca_lines (cs_cache s2))"
    "st = IO_REQ_DONE \<Longrightarrow> (\<And>x. cl_data (f x) = cl_data x \<and> cl_tag (f x) = drop_bit (line_size_bits c) a) \<Longrightarrow>
       lines_ok c covers (content (cs_down s)) {} ((ca_lines (cs_cache s2))[l := f (ca_lines (cs_cache s2) ! l)])"
proof -
  show len: "l < length (ca_lines (cs_cache s))" using way_less [OF g] goodD(5) [OF s] by (simp add: l)
  have L: "lines_ok c covers (content (cs_down s)) {} (ca_lines (cs_cache s))" by (rule goodD(4) [OF s np])
  obtain bs where r: "cs_cache s2 = upd_line l (\<lambda>x. x\<lparr>cl_data := bs\<rparr>) ca" "cs_req s2 = cs_req s" "cs_out s2 = cs_out s" "cs_heap s2 = cs_heap s"
    "dinv (cs_down s2)" "content (cs_down s2) = content (cs_down s)" "length bs = 2 ^ line_size_bits c"
    "st = IO_REQ_DENIED \<Longrightarrow> bs = cl_data (ca_lines (cs_cache s) ! l)" "st = IO_REQ_GRANTED \<Longrightarrow> outstanding (cs_down s2) = tag_addr c (drop_bit (line_size_bits c) a)"
    "st = IO_REQ_DONE \<Longrightarrow> covers (tag_addr c (drop_bit (line_size_bits c) a)) (2 ^ line_size_bits c) \<Longrightarrow> bs = mem_line c (content (cs_down s)) (drop_bit (line_size_bits c) a)"
    using send_refill_ok [OF g snd] goodD(1) [OF s] len L ca by auto
  have lines: "ca_lines (cs_cache s2) = (ca_lines (cs_cache s))[l := (ca_lines (cs_cache s) ! l)\<lparr>cl_data := bs\<rparr>]" by (simp add: r upd_line_def ca)
  show "core (cs_cache s2) = core (cs_cache s)" using ca(1) by (simp add: r upd_line_def core_def)
  show "length (ca_lines (cs_cache s2)) = length (ca_lines (cs_cache s))" by (simp add: lines)
  show "cs_req s2 = cs_req s" "cs_out s2 = cs_out s" "cs_heap s2 = cs_heap s" "dinv (cs_down s2)" "content (cs_down s2) = content (cs_down s)" by (rule r)+
  show "ca_lines (cs_cache s2) = ca_lines (cs_cache s)" if "st = IO_REQ_DENIED" using r(8) that by (simp add: lines)
  show "outstanding (cs_down s2) = tag_addr c (drop_bit (line_size_bits c) a) \<and> lines_ok c covers (content (cs_down s)) {l} (ca_lines (cs_cache s2))"
    if "st = IO_REQ_GRANTED" using r(7,9) that lines_victim [OF L len] by (simp add: lines)
  show "lines_ok c covers (content (cs_down s)) {} ((ca_lines (cs_cache s2))[l := f (ca_lines (cs_cache s2) ! l)])"
    if "st = IO_REQ_DONE" "\<And>x. cl_data (f x) = cl_data x \<and> cl_tag (f x) = drop_bit (line_size_bits c) a" for f
    using r(7,10) that lines_refilled [OF L len r(7), of "f ((ca_lines (cs_cache s) ! l)\<lparr>cl_data := bs\<rparr>)"] by (simp add: lines len)
qed

lemma try_prefetch_leads:
  assumes g: "geom c" and s: "good c content covers outstanding dinv s" and np: "\<not> ca_pending_refill (cs_cache s)"
  shows "leads c content covers outstanding dinv s (try_prefetch c port now s)"
proof -
  let ?a = "ca_prefetch_addr (cs_cache s)" and ?b = "line_size_bits c"
  let ?tag = "drop_bit ?b ?a"
  let ?s1 = "upd_cache (\<lambda>x. x\<lparr>ca_prefetch_wanted := False\<rparr>) s"
  have s1: "leads c content covers outstanding dinv s ?s1" by (rule leads_core [OF _ _ _ _ _ s]) (simp_all add: core_def same_req_def)
  obtain ca way where lru: "step_lru c (cs_cache ?s1) = (ca, way)" by fastforce
  let ?l = "set_index c ?tag * cc_ways c + way mod cc_ways c"
  obtain s2 lat st where snd: "send_refill c port ?l ?a (?s1\<lparr>cs_cache := ca\<rparr>) = (s2, lat, st)" by (metis prod_cases3)
  have ca: "core ca = core (cs_cache s)" "ca_lines ca = ca_lines (cs_cache s)" using lru by (auto simp: step_lru_def Let_def core_def)
  have snd': "send_refill c port ?l ?a (s\<lparr>cs_cache := ca\<rparr>) = (s2, lat, st)" using snd by simp
  note at = attempt_ok [OF g s np ca refl snd'] and tv = tag_valid [of c ?a]
  have c2: "core (cs_cache s2) = core (cs_cache s)" by (rule at(1))
  show ?thesis
  proof (cases "ca_prefetch_wanted (cs_cache s) \<and> ca_enabled (cs_cache s) \<and> find_way c (cs_cache ?s1) (set_index c ?tag) ?tag = None")
    case False
    then show ?thesis using leads_refl [OF s] s1 by (auto simp: try_prefetch_def Let_def)
  next
    case True
    note eq = True
    show ?thesis
    proof (cases st)
      case IO_REQ_DENIED
      have "leads c content covers outstanding dinv s s2"
        using at(1,4,5,7,8) at(9) [OF IO_REQ_DENIED] s by (simp add: leads_def good_def same_req_def victim_def pending_ok_def core_def np)
      then show ?thesis using eq lru snd IO_REQ_DENIED by (simp add: try_prefetch_def Let_def)
    next
      case IO_REQ_GRANTED
      let ?s3 = "upd_cache (\<lambda>x. x\<lparr>ca_line := ?l, ca_refill_tag := ?tag, ca_pending_refill := True, ca_pending_is_prefetch := True\<rparr>) s2"
      have "leads c content covers outstanding dinv s ?s3"
        using at(1-8) at(10) [OF IO_REQ_GRANTED] s g tv by (simp add: leads_def good_def same_req_def victim_def pending_ok_def core_def geom_def)
      then show ?thesis using eq lru snd IO_REQ_GRANTED by (simp add: try_prefetch_def Let_def)
    next
      case IO_REQ_DONE
      let ?n = "refill_latency c (cs_cache s2) now lat"
      let ?f = "\<lambda>y. y\<lparr>cl_tag := ?tag, cl_prefetched := True, cl_timestamp := now + ?n\<rparr>"
      let ?s3 = "upd_cache (\<lambda>x. upd_line ?l ?f (x\<lparr>ca_refill_timestamp := now + ?n\<rparr>)) s2"
      have "leads c content covers outstanding dinv s ?s3"
        using at(1-8) at(11) [OF IO_REQ_DONE, of ?f] s np by (simp add: leads_def good_def same_req_def victim_def pending_ok_def core_def upd_line_def)
      then show ?thesis using eq lru snd IO_REQ_DONE by (simp add: try_prefetch_def Let_def)
    qed
  qed
qed

lemma check_state_leads:
  assumes "geom c" "good c content covers outstanding dinv s"
  shows "leads c content covers outstanding dinv s (check_state c port now s)"
proof -
  have "leads c content covers outstanding dinv s (upd_cache (\<lambda>x. x\<lparr>ca_fsm := True\<rparr>) s)"
    by (rule leads_core [OF _ _ _ _ _ assms(2)]) (simp_all add: core_def same_req_def)
  then show ?thesis using try_prefetch_leads [OF assms] leads_refl [OF assms(2)] by (simp add: check_state_def Let_def)
qed

text \<open>A read copies the bytes of the memory out of the line of its tag.\<close>

lemma mem_bytes_line:
  assumes "r_addr q < 2 ^ 32" "line_off c q + unat (r_size q) \<le> 2 ^ line_size_bits c"
  shows "take (unat (r_size q)) (drop (line_off c q) (mem_line c mem (req_tag c q))) = mem_bytes c mem q"
  using assms(2) by (intro nth_equalityI) (simp_all add: mem_line_def mem_bytes_def refill_addr_tag req_tag_small [OF assms(1), symmetric] add.assoc)

lemma copy_line_read:
  assumes q: "read_ok c covers (cs_req s r)" and d: "cl_data (ca_lines (cs_cache s) ! l) = mem_line c mem (req_tag c (cs_req s r))"
  shows "\<exists>h. copy_line l (line_off c (cs_req s r)) r s = Some (s\<lparr>cs_heap := h\<rparr>) \<and> cs_buffer (s\<lparr>cs_heap := h\<rparr>) r = mem_bytes c mem (cs_req s r)"
proof -
  let ?q = "cs_req s r"
  have fit: "line_off c ?q + unat (r_size ?q) \<le> 2 ^ line_size_bits c" "r_addr ?q < 2 ^ 32" "r_data ?q \<noteq> 0" "\<not> r_is_write ?q"
    using q by (simp_all add: read_ok_def)
  have "length (mem_bytes c mem ?q) = unat (r_size ?q)" by (simp add: mem_bytes_def)
  then have "cs_buffer (s\<lparr>cs_heap := heap_write (cs_heap s) (r_data ?q) (mem_bytes c mem ?q)\<rparr>) r = mem_bytes c mem ?q"
    by (simp add: cs_buffer_def heap_read_write_same)
  moreover have "copy_line l (line_off c ?q) r s = Some (s\<lparr>cs_heap := heap_write (cs_heap s) (r_data ?q) (mem_bytes c mem ?q)\<rparr>)"
    using fit mem_bytes_line [OF fit(2,1), of mem] by (simp add: copy_line_def Let_def d arr_read_def mem_line_def [of c mem, THEN arg_cong [where f = length]])
  ultimately show ?thesis by blast
qed

lemma read_ok_tag:
  assumes "geom c" "read_ok c covers q"
  shows "req_tag c q = drop_bit (line_size_bits c) (ucast (r_addr q))" "req_tag c q \<noteq> - 1" "covers (tag_addr c (req_tag c q)) (2 ^ line_size_bits c)"
  using assms req_tag_small [of q c] tag_valid [of c "ucast (r_addr q)"] by (simp_all add: geom_def read_ok_def refill_addr_tag)

lemma leads_heap: "leads c content covers outstanding dinv s s1 \<Longrightarrow> leads c content covers outstanding dinv s (s1\<lparr>cs_heap := h\<rparr>)"
  unfolding leads_def good_def by auto

lemma handle_req_hit:
  assumes g: "geom c" and s: "good c content covers outstanding dinv s" and np: "\<not> ca_pending_refill (cs_cache s)"
    and hit: "find_way c (cs_cache s) (set_index c (req_tag c (cs_req s r))) (req_tag c (cs_req s r)) = Some l"
  shows "\<exists>s'. handle_req c port now r s = Some (s', IO_REQ_DONE) \<and> leads c content covers outstanding dinv s s' \<and> cs_out s' = cs_out s \<and>
    cs_buffer s' r = mem_bytes c (content (cs_down s)) (cs_req s r) \<and> core (cs_cache s') = core (cs_cache s)"
proof -
  let ?q = "cs_req s r" and ?L = "ca_lines (cs_cache s)" and ?mem = "content (cs_down s)"
  note q = goodD(3) [OF s, of r] and L = goodD(4) [OF s np]
  obtain i where i: "cl_tag (?L ! l) = req_tag c ?q" "i < cc_ways c" "l = set_index c (req_tag c ?q) * cc_ways c + i" using find_way_Some [OF hit] by blast
  have l: "l < length ?L" using line_index_less [OF g set_index_less [OF g] i(2)] goodD(5) [OF s] by (simp add: i(3))
  have d: "cl_data (?L ! l) = mem_line c ?mem (req_tag c ?q)" using lines_okD(2) [OF L l] read_ok_tag [OF g q] i(1) by simp
  define s1 where "s1 = (if now < cl_timestamp (?L ! l) then cs_inc_latency r (cl_timestamp (?L ! l) - now) s else s)"
  define s2 where "s2 = (if cl_prefetched (?L ! l)
      then upd_cache (\<lambda>x. arm_prefetch c (ucast (r_addr ?q)) (upd_line l (\<lambda>y. y\<lparr>cl_prefetched := False\<rparr>) x)) s1 else s1)"
  have s1: "cs_cache s1 = cs_cache s" "cs_down s1 = cs_down s" "cs_out s1 = cs_out s" "same_req (cs_req s x) (cs_req s1 x)" for x
    by (simp_all add: s1_def) (simp add: same_req_def)
  have s2: "cs_down s2 = cs_down s" "cs_out s2 = cs_out s" "cs_req s2 = cs_req s1" "core (cs_cache s2) = core (cs_cache s)"
    "ca_lines (cs_cache s2) = ?L \<or> ca_lines (cs_cache s2) = ?L[l := (?L ! l)\<lparr>cl_prefetched := False\<rparr>]"
    by (auto simp: s2_def s1 core_def upd_line_def)
  have data: "cl_data (ca_lines (cs_cache s2) ! l) = mem_line c ?mem (req_tag c (cs_req s2 r))"
    using s2(5) d l same_req_simps(2) [OF s1(4) [of r], of c] by (auto simp: s2(3))
  have L2: "lines_ok c covers ?mem {} (ca_lines (cs_cache s2))"
    using s2(5) L lines_ok_update [OF L l, of "(?L ! l)\<lparr>cl_prefetched := False\<rparr>" "{}"] lines_okD [OF L l] by auto
  have g2: "good c content covers outstanding dinv s2"
    using s L2 s2(1,4) np same_req_simps [OF s1(4)] by (simp add: good_def victim_def pending_ok_def core_def s2(3))
  then have l2: "leads c content covers outstanding dinv s s2" using s2 s1(4) by (simp add: leads_def)
  obtain h where h: "copy_line l (line_off c (cs_req s2 r)) r s2 = Some (s2\<lparr>cs_heap := h\<rparr>)" "cs_buffer (s2\<lparr>cs_heap := h\<rparr>) r = mem_bytes c ?mem (cs_req s2 r)"
    using copy_line_read [OF goodD(3) [OF g2] data] by blast
  have eq: "line_off c (cs_req s2 r) = line_off c ?q" "mem_bytes c ?mem (cs_req s2 r) = mem_bytes c ?mem ?q"
    using same_req_simps [OF s1(4) [of r]] by (simp_all add: s2(3))
  have "handle_req c port now r s = map_option (\<lambda>s3. (s3, IO_REQ_DONE)) (copy_line l (line_off c ?q) r s2)"
    unfolding s2_def s1_def by (simp add: handle_req_def get_line_eq hit Let_def)
  then have "handle_req c port now r s = Some (s2\<lparr>cs_heap := h\<rparr>, IO_REQ_DONE)" using h(1) by (simp add: eq)
  then show ?thesis using h(2) leads_heap [OF l2] s2(2,4) by (simp add: eq)
qed

lemma handle_req_miss:
  assumes g: "geom c" and s: "good c content covers outstanding dinv s" and np: "\<not> ca_pending_refill (cs_cache s)"
    and miss: "find_way c (cs_cache s) (set_index c (req_tag c (cs_req s r))) (req_tag c (cs_req s r)) = None"
  shows "\<exists>s' st. handle_req c port now r s = Some (s', st) \<and> leads c content covers outstanding dinv s s' \<and> cs_out s' = cs_out s \<and>
    (st = IO_REQ_DONE \<longrightarrow> cs_buffer s' r = mem_bytes c (content (cs_down s)) (cs_req s r)) \<and> (st = IO_REQ_DENIED \<longrightarrow> \<not> ca_pending_refill (cs_cache s'))"
proof -
  let ?q = "cs_req s r" and ?mem = "content (cs_down s)" and ?a = "ucast (r_addr (cs_req s r)) :: u32" and ?tag = "req_tag c (cs_req s r)"
  note q = goodD(3) [OF s, of r]
  note tag = read_ok_tag [OF g q]
  let ?s0 = "upd_cache (arm_prefetch c ?a) s"
  obtain ca way where lru: "step_lru c (cs_cache ?s0) = (ca, way)" by fastforce
  let ?l = "set_index c ?tag * cc_ways c + way mod cc_ways c"
  obtain s2 lat st where snd: "send_refill c port ?l ?a (?s0\<lparr>cs_cache := ca\<rparr>) = (s2, lat, st)" by (metis prod_cases3)
  have ca: "core ca = core (cs_cache s)" "ca_lines ca = ca_lines (cs_cache s)" using lru by (auto simp: step_lru_def Let_def core_def)
  have snd': "send_refill c port ?l ?a (s\<lparr>cs_cache := ca\<rparr>) = (s2, lat, st)" using snd by simp
  note at = attempt_ok [OF g s np ca refl snd']
  have np0: "\<not> ca_pending_refill (cs_cache ?s0)" using np by simp
  show ?thesis
  proof (cases st)
    case IO_REQ_DENIED
    let ?s3 = "upd_cache (\<lambda>x. x\<lparr>ca_refill_retry_pending := True\<rparr>) s2"
    have "leads c content covers outstanding dinv s ?s3"
      using at(1,4,5,7,8) at(9) [OF IO_REQ_DENIED] s by (simp add: leads_def good_def same_req_def victim_def pending_ok_def core_def np)
    moreover have "handle_req c port now r s = Some (?s3, IO_REQ_DENIED)"
      using np0 lru snd IO_REQ_DENIED by (simp add: handle_req_def get_line_eq miss refill_def Let_def)
    moreover have "\<not> ca_pending_refill (cs_cache ?s3)" using at(1) np by (simp add: core_def)
    ultimately show ?thesis using at(5) by simp
  next
    case IO_REQ_GRANTED
    let ?s3 = "upd_cache (\<lambda>x. x\<lparr>ca_queue := r # ca_queue x, ca_line := ?l, ca_refill_tag := ?tag, ca_pending_refill := True,
      ca_pending_line_offset := line_off c ?q\<rparr>) s2"
    have "leads c content covers outstanding dinv s ?s3"
      using at(1-8) at(10) [OF IO_REQ_GRANTED] s np tag by (simp add: leads_def good_def same_req_def victim_def pending_ok_def core_def)
    moreover have "handle_req c port now r s = Some (?s3, IO_REQ_GRANTED)"
      using np0 lru snd IO_REQ_GRANTED by (simp add: handle_req_def get_line_eq miss refill_def Let_def)
    ultimately show ?thesis using at(5) by simp
  next
    case IO_REQ_DONE
    let ?n = "refill_latency c (cs_cache s2) now lat"
    let ?f = "\<lambda>y. y\<lparr>cl_tag := ?tag, cl_timestamp := now + ?n\<rparr>"
    let ?s3 = "cs_inc_latency r ?n (upd_cache (\<lambda>x. upd_line ?l ?f (x\<lparr>ca_refill_timestamp := now + ?n\<rparr>)) s2)"
    have L3: "lines_ok c covers ?mem {} (ca_lines (cs_cache ?s3))" using at(11) [OF IO_REQ_DONE, of ?f] tag(1) by (simp add: upd_line_def)
    have sr: "same_req (cs_req s x) (cs_req ?s3 x)" for x using at(4) by (simp add: cs_inc_latency_def same_req_def)
    have l3: "leads c content covers outstanding dinv s ?s3"
      using at(1,5,7,8) L3 s np sr same_req_simps [OF sr] by (simp add: leads_def good_def victim_def pending_ok_def core_def upd_line_def)
    then have g3: "good c content covers outstanding dinv ?s3" by (simp add: leads_def)
    have "cl_tag (ca_lines (cs_cache ?s3) ! ?l) = ?tag" "?l < length (ca_lines (cs_cache ?s3))" using at(2,3) by (simp_all add: upd_line_def)
    then have d: "cl_data (ca_lines (cs_cache ?s3) ! ?l) = mem_line c ?mem (req_tag c (cs_req ?s3 r))"
      using lines_okD(2) [OF L3] tag same_req_simps(2) [OF sr [of r], of c] by auto
    obtain h where h: "copy_line ?l (line_off c (cs_req ?s3 r)) r ?s3 = Some (?s3\<lparr>cs_heap := h\<rparr>)" "cs_buffer (?s3\<lparr>cs_heap := h\<rparr>) r = mem_bytes c ?mem (cs_req ?s3 r)"
      using copy_line_read [OF goodD(3) [OF g3] d] by blast
    have eq: "line_off c (cs_req ?s3 r) = line_off c ?q" "mem_bytes c ?mem (cs_req ?s3 r) = mem_bytes c ?mem ?q" using same_req_simps [OF sr [of r]] by simp_all
    have "handle_req c port now r s = Some (?s3\<lparr>cs_heap := h\<rparr>, IO_REQ_DONE)"
      using np0 lru snd IO_REQ_DONE h(1) by (simp add: handle_req_def get_line_eq miss refill_def Let_def eq)
    then show ?thesis using h(2) leads_heap [OF l3] at(5) by (simp add: eq)
  qed
qed

lemma handle_req_ok:
  assumes "geom c" "good c content covers outstanding dinv s" "\<not> ca_pending_refill (cs_cache s)"
  shows "\<exists>s' st. handle_req c port now r s = Some (s', st) \<and> leads c content covers outstanding dinv s s' \<and> cs_out s' = cs_out s \<and>
    (st = IO_REQ_DONE \<longrightarrow> cs_buffer s' r = mem_bytes c (content (cs_down s)) (cs_req s r)) \<and> (st = IO_REQ_DENIED \<longrightarrow> \<not> ca_pending_refill (cs_cache s'))"
proof (cases "find_way c (cs_cache s) (set_index c (req_tag c (cs_req s r))) (req_tag c (cs_req s r))")
  case None
  then show ?thesis by (rule handle_req_miss [OF assms])
next
  case (Some l)
  then show ?thesis using handle_req_hit [OF assms Some] by blast
qed

text \<open>An event that completes a request with the right bytes.\<close>

lemma leads_emit:
  assumes l: "leads c content covers outstanding dinv s s1" and e: "event_ok c (content (cs_down s)) (cs_req s) e"
  shows "leads c content covers outstanding dinv s (cs_emit e s1)"
proof -
  obtain es where "cs_out s1 = cs_out s @ es" "\<forall>e\<in>set es. event_ok c (content (cs_down s)) (cs_req s) e" using l unfolding leads_def by blast
  then show ?thesis using l e unfolding leads_def good_def cs_emit_def by (intro conjI exI [of _ "es @ [e]"]) auto
qed

lemma leads_good: "leads c content covers outstanding dinv s s1 \<Longrightarrow> good c content covers outstanding dinv s1"
  by (simp add: leads_def)

lemma ca_submit_leads:
  assumes g: "geom c" and s: "good c content covers outstanding dinv s"
  shows "\<exists>s'. ca_submit c port now r s = Some s' \<and> leads c content covers outstanding dinv s s'"
proof (cases "ca_pending_refill (cs_cache s) \<or> ca_refill_retry_pending (cs_cache s)")
  case True
  let ?s1 = "upd_cache (\<lambda>x. x\<lparr>ca_queue := ca_queue x @ [r]\<rparr>) s"
  have "leads c content covers outstanding dinv s ?s1" using s
    by (cases "ca_pending_refill (cs_cache s)") (simp_all add: leads_def good_def victim_def pending_ok_def same_req_def)
  then have "leads c content covers outstanding dinv s (check_state c port now ?s1)"
    using check_state_leads [OF g leads_good] leads_trans by blast
  then show ?thesis using True goodD(2) [OF s] leads_emit [of c s _ "CE_Granted r"]
    by (simp add: ca_submit_def ca_input_req_def Let_def event_ok_def)
next
  case False
  then obtain s1 st where h: "handle_req c port now r s = Some (s1, st)" "leads c content covers outstanding dinv s s1" "cs_out s1 = cs_out s"
    "st = IO_REQ_DONE \<longrightarrow> cs_buffer s1 r = mem_bytes c (content (cs_down s)) (cs_req s r)"
    using handle_req_ok [OF g s, of now r] by auto
  define s2 where "s2 = (if st = IO_REQ_DENIED then upd_cache (\<lambda>x. x\<lparr>ca_input_needs_retry := True\<rparr>) s1
    else if \<not> ca_pending_refill (cs_cache s1) \<and> \<not> ca_refill_retry_pending (cs_cache s1) then try_prefetch c port now s1 else s1)"
  have "leads c content covers outstanding dinv s1 (upd_cache (\<lambda>x. x\<lparr>ca_input_needs_retry := True\<rparr>) s1)"
    by (rule leads_core [OF _ _ _ _ _ leads_good [OF h(2)]]) (simp_all add: core_def same_req_def)
  then have l2: "leads c content covers outstanding dinv s s2"
    using try_prefetch_leads [OF g leads_good [OF h(2)]] leads_trans [OF h(2)] h(2) by (auto simp: s2_def)
  have buf: "cs_buffer s2 r = cs_buffer s1 r" if "st = IO_REQ_DONE"
    using that by (simp add: s2_def cs_buffer_def)
  have i: "ca_input_req c port now r s = Some (s2, st)" using False goodD(2) [OF s] h(1) by (simp add: ca_input_req_def Let_def s2_def)
  have "event_ok c (content (cs_down s)) (cs_req s) (case st of IO_REQ_DONE \<Rightarrow> CE_Done r (cs_buffer s2 r) | IO_REQ_GRANTED \<Rightarrow> CE_Granted r | IO_REQ_DENIED \<Rightarrow> CE_Denied r)"
    using buf h(4) by (cases st) (auto simp: event_ok_def)
  then show ?thesis using leads_emit [OF l2] i by (auto simp: ca_submit_def)
qed

lemma ca_submits_leads:
  assumes "geom c" "good c content covers outstanding dinv s"
  shows "\<exists>s'. ca_submits c port now rs s = Some s' \<and> leads c content covers outstanding dinv s s'"
  using assms(2)
proof (induction rs arbitrary: s)
  case Nil
  then show ?case by (simp add: leads_refl)
next
  case (Cons r rs)
  obtain s1 where s1: "ca_submit c port now r s = Some s1" "leads c content covers outstanding dinv s s1" using ca_submit_leads [OF assms(1) Cons.prems] by blast
  then show ?case using Cons.IH [OF leads_good [OF s1(2)]] leads_trans [OF s1(2)] by auto
qed

text \<open>Responses on the refill port: the downstream has filled the buffer of the line with the bytes at the address it was given.\<close>

lemma filled_lines:
  assumes s: "good c content covers outstanding dinv s" and p: "ca_pending_refill (cs_cache s)"
    and f: "length bs = 2 ^ line_size_bits c" "covers (outstanding (cs_down s)) (2 ^ line_size_bits c) \<Longrightarrow> bs = map (\<lambda>i. content (cs_down s) (outstanding (cs_down s) + of_nat i)) [0..<2 ^ line_size_bits c]"
    and y: "cl_data y = bs" "cl_tag y = ca_refill_tag (cs_cache s)"
  shows "lines_ok c covers (content (cs_down s)) {} ((ca_lines (cs_cache s))[ca_line (cs_cache s) := y])"
proof -
  have L: "lines_ok c covers (content (cs_down s)) {ca_line (cs_cache s)} (ca_lines (cs_cache s))" "ca_line (cs_cache s) < length (ca_lines (cs_cache s))"
    "outstanding (cs_down s) = tag_addr c (ca_refill_tag (cs_cache s))"
    using s p by (simp_all add: good_def victim_def pending_ok_def)
  show ?thesis by (rule lines_ok_update [OF L(1,2)]) (use f y in \<open>auto simp: mem_line_def L(3)\<close>)
qed

lemma prefetch_resp_leads:
  assumes g: "geom c" and s: "good c content covers outstanding dinv s" and p: "ca_pending_refill (cs_cache s)"
    and f: "length bs = 2 ^ line_size_bits c" "covers (outstanding (cs_down s)) (2 ^ line_size_bits c) \<Longrightarrow> bs = map (\<lambda>i. content (cs_down s) (outstanding (cs_down s) + of_nat i)) [0..<2 ^ line_size_bits c]"
  shows "leads c content covers outstanding dinv s (prefetch_resp c port now (upd_cache (upd_line (ca_line (cs_cache s)) (\<lambda>y. y\<lparr>cl_data := bs\<rparr>)) s))"
proof -
  have l: "ca_line (cs_cache s) < length (ca_lines (cs_cache s))" using s p by (simp add: good_def pending_ok_def)
  let ?s1 = "upd_cache (\<lambda>x. (upd_line (ca_line x) (\<lambda>y. y\<lparr>cl_tag := ca_refill_tag x, cl_prefetched := True\<rparr>) x)
       \<lparr>ca_pending_refill := False, ca_pending_is_prefetch := False\<rparr>) (upd_cache (upd_line (ca_line (cs_cache s)) (\<lambda>y. y\<lparr>cl_data := bs\<rparr>)) s)"
  have "leads c content covers outstanding dinv s ?s1"
    using filled_lines [OF s p f] s l by (simp add: leads_def good_def victim_def pending_ok_def same_req_def upd_line_def)
  then show ?thesis unfolding prefetch_resp_def using check_state_leads [OF g leads_good] leads_trans by blast
qed

lemma refill_resp_leads:
  assumes g: "geom c" and s: "good c content covers outstanding dinv s" and p: "ca_pending_refill (cs_cache s)" "\<not> ca_pending_is_prefetch (cs_cache s)"
    and f: "length bs = 2 ^ line_size_bits c" "covers (outstanding (cs_down s)) (2 ^ line_size_bits c) \<Longrightarrow> bs = map (\<lambda>i. content (cs_down s) (outstanding (cs_down s) + of_nat i)) [0..<2 ^ line_size_bits c]"
  shows "\<exists>s'. refill_resp c port now reent (upd_cache (upd_line (ca_line (cs_cache s)) (\<lambda>y. y\<lparr>cl_data := bs\<rparr>)) s) = Some s' \<and>
    leads c content covers outstanding dinv s s'"
proof -
  let ?ca = "cs_cache s"
  have pd: "ca_line ?ca < length (ca_lines ?ca)" "ca_queue ?ca \<noteq> []" "ca_pending_line_offset ?ca = line_off c (cs_req s (hd (ca_queue ?ca)))"
    "ca_refill_tag ?ca = req_tag c (cs_req s (hd (ca_queue ?ca)))"
    using s p by (simp_all add: good_def pending_ok_def)
  then obtain r rest where q: "ca_queue ?ca = r # rest" by (cases "ca_queue ?ca") auto
  note rok = goodD(3) [OF s, of r]
  let ?y = "(ca_lines ?ca ! ca_line ?ca)\<lparr>cl_data := bs, cl_tag := ca_refill_tag ?ca\<rparr>"
  let ?s2 = "s\<lparr>cs_cache := ?ca\<lparr>ca_queue := rest, ca_pending_refill := False, ca_lines := (ca_lines ?ca)[ca_line ?ca := ?y]\<rparr>\<rparr>"
  have L: "lines_ok c covers (content (cs_down s)) {} ((ca_lines ?ca)[ca_line ?ca := ?y])" by (rule filled_lines [OF s p(1) f]) simp_all
  have l2: "leads c content covers outstanding dinv s ?s2"
    using L s p(2) by (simp add: leads_def good_def victim_def pending_ok_def same_req_def)
  have "cl_data (ca_lines (cs_cache ?s2) ! ca_line ?ca) = mem_line c (content (cs_down s)) (req_tag c (cs_req ?s2 r))"
    using lines_okD(2) [OF L, of "ca_line ?ca"] read_ok_tag [OF g rok] pd q by simp
  then obtain h where h: "copy_line (ca_line ?ca) (line_off c (cs_req s r)) r ?s2 = Some (?s2\<lparr>cs_heap := h\<rparr>)"
    "cs_buffer (?s2\<lparr>cs_heap := h\<rparr>) r = mem_bytes c (content (cs_down s)) (cs_req s r)"
    using copy_line_read [OF goodD(3) [OF leads_good [OF l2]], of "ca_line ?ca" "content (cs_down s)" r] by auto
  let ?s3 = "cs_emit (CE_Resp r (cs_buffer (?s2\<lparr>cs_heap := h\<rparr>) r)) (?s2\<lparr>cs_heap := h\<rparr>)"
  have l3: "leads c content covers outstanding dinv s ?s3" by (rule leads_emit [OF leads_heap [OF l2]]) (simp only: event_ok_def h(2) cache_event.case)
  obtain s4 where s4: "ca_submits c port now reent ?s3 = Some s4" "leads c content covers outstanding dinv ?s3 s4"
    using ca_submits_leads [OF g leads_good [OF l3]] by blast
  have "refill_resp c port now reent (upd_cache (upd_line (ca_line ?ca) (\<lambda>y. y\<lparr>cl_data := bs\<rparr>)) s) = Some (check_state c port now s4)"
    using rok h(1) s4(1) pd q by (simp add: refill_resp_def upd_line_def read_ok_def Let_def)
  moreover have "leads c content covers outstanding dinv s (check_state c port now s4)"
    using leads_trans [OF leads_trans [OF l3 s4(2)] check_state_leads [OF g leads_good [OF s4(2)]]] .
  ultimately show ?thesis by blast
qed

lemma refill_retry_leads:
  assumes g: "geom c" and s: "good c content covers outstanding dinv s"
  shows "\<exists>s'. refill_retry c port now reent s = Some s' \<and> leads c content covers outstanding dinv s s'"
proof -
  let ?s1 = "upd_cache (\<lambda>x. x\<lparr>ca_refill_retry_pending := False\<rparr>) s"
  let ?s2 = "cs_emit CE_Retry (upd_cache (\<lambda>x. x\<lparr>ca_input_needs_retry := False\<rparr>) ?s1)"
  have l1: "leads c content covers outstanding dinv s ?s1" by (rule leads_core [OF _ _ _ _ _ s]) (simp_all add: core_def same_req_def)
  have "leads c content covers outstanding dinv s (upd_cache (\<lambda>x. x\<lparr>ca_input_needs_retry := False\<rparr>) ?s1)"
    by (rule leads_core [OF _ _ _ _ _ s]) (simp_all add: core_def same_req_def)
  then have l2: "leads c content covers outstanding dinv s ?s2" by (rule leads_emit) (simp add: event_ok_def)
  obtain s3 where s3: "ca_submits c port now reent ?s2 = Some s3" "leads c content covers outstanding dinv ?s2 s3"
    using ca_submits_leads [OF g leads_good [OF l2]] by blast
  note l3 = leads_trans [OF l2 s3(2)]
  show ?thesis
    using leads_trans [OF l1 check_state_leads [OF g leads_good [OF l1]]] leads_trans [OF l3 check_state_leads [OF g leads_good [OF l3]]] s3(1)
    by (auto simp: refill_retry_def Let_def)
qed

lemma fsm_handler_leads:
  assumes g: "geom c" and s: "good c content covers outstanding dinv s"
  shows "\<exists>s'. fsm_handler c port now ready reent s = Some s' \<and> leads c content covers outstanding dinv s s'"
proof -
  let ?s0 = "upd_cache (\<lambda>x. x\<lparr>ca_fsm := False\<rparr>) s"
  have l0: "leads c content covers outstanding dinv s ?s0" by (rule leads_core [OF _ _ _ _ _ s]) (simp_all add: core_def same_req_def)
  have fin: "leads c content covers outstanding dinv s (check_state c port now s')" if "leads c content covers outstanding dinv s s'" for s'
    by (rule leads_trans [OF that check_state_leads [OF g leads_good [OF that]]])
  show ?thesis
  proof (cases "\<not> ca_pending_refill (cs_cache s) \<and> \<not> ca_refill_retry_pending (cs_cache s) \<and> ready \<and> ca_queue (cs_cache s) \<noteq> []")
    case False
    then have "fsm_handler c port now ready reent s = Some (check_state c port now ?s0)" by (auto simp: fsm_handler_def Let_def)
    then show ?thesis using fin [OF l0] by blast
  next
    case True
    then obtain r rest where q: "ca_queue (cs_cache s) = r # rest" by (cases "ca_queue (cs_cache s)") auto
    let ?s1 = "upd_cache (\<lambda>x. x\<lparr>ca_queue := rest\<rparr>) ?s0"
    have l1: "leads c content covers outstanding dinv s ?s1" using s True by (simp add: leads_def good_def victim_def pending_ok_def same_req_def)
    obtain s2 st where h: "handle_req c port now r ?s1 = Some (s2, st)" "leads c content covers outstanding dinv ?s1 s2"
      "st = IO_REQ_DONE \<longrightarrow> cs_buffer s2 r = mem_bytes c (content (cs_down s)) (cs_req s r)" "st = IO_REQ_DENIED \<longrightarrow> \<not> ca_pending_refill (cs_cache s2)"
      using handle_req_ok [OF g leads_good [OF l1], of now r] True by auto
    note l2 = leads_trans [OF l1 h(2)]
    have fsm: "fsm_handler c port now ready reent s = map_option (check_state c port now)
      (case st of IO_REQ_DONE \<Rightarrow> ca_submits c port now reent (cs_emit (CE_Resp r (cs_buffer s2 r)) s2)
       | IO_REQ_DENIED \<Rightarrow> Some (upd_cache (\<lambda>x. x\<lparr>ca_queue := r # ca_queue x\<rparr>) s2) | IO_REQ_GRANTED \<Rightarrow> Some s2)"
      using True q h(1) by (simp add: fsm_handler_def Let_def)
    show ?thesis
    proof (cases st)
      case IO_REQ_DONE
      then have e: "event_ok c (content (cs_down s)) (cs_req s) (CE_Resp r (cs_buffer s2 r))" using h(3) by (simp add: event_ok_def)
      note l3 = leads_emit [OF l2 e]
      obtain s4 where "ca_submits c port now reent (cs_emit (CE_Resp r (cs_buffer s2 r)) s2) = Some s4"
        "leads c content covers outstanding dinv (cs_emit (CE_Resp r (cs_buffer s2 r)) s2) s4"
        using ca_submits_leads [OF g leads_good [OF l3]] by blast
      then show ?thesis using fin [OF leads_trans [OF l3]] fsm IO_REQ_DONE by simp
    next
      case IO_REQ_GRANTED
      then show ?thesis using fin [OF l2] fsm by simp
    next
      case IO_REQ_DENIED
      have "\<not> ca_pending_refill (cs_cache s2)" using h(4) IO_REQ_DENIED by simp
      then have "leads c content covers outstanding dinv s (upd_cache (\<lambda>x. x\<lparr>ca_queue := r # ca_queue x\<rparr>) s2)"
        using l2 by (auto simp: leads_def good_def victim_def pending_ok_def)
      then show ?thesis using fin fsm IO_REQ_DENIED by simp
    qed
  qed
qed

lemma flush_leads:
  assumes s: "good c content covers outstanding dinv s"
  shows "leads c content covers outstanding dinv s (upd_cache (flush_sync ack active) s)"
proof -
  have "lines_ok c covers mem X (map (\<lambda>y. y\<lparr>cl_tag := - 1\<rparr>) L)" if "lines_ok c covers mem X L" for mem X L
    using that by (simp add: lines_ok_def)
  then show ?thesis using s
    by (cases "ca_pending_refill (cs_cache s)") (simp_all add: leads_def good_def victim_def pending_ok_def flush_sync_def flush_def same_req_def)
qed

lemma flush_line_leads:
  assumes s: "good c content covers outstanding dinv s"
  shows "leads c content covers outstanding dinv s (upd_cache (flush_line_sync c active) s)"
proof -
  define P where "P = (\<lambda>x. core x = core (cs_cache s) \<and> lines_ok c covers (content (cs_down s)) (victim (cs_cache s)) (ca_lines x))"
  have one: "P (upd_line l (\<lambda>y. y\<lparr>cl_tag := - 1\<rparr>) x)" if "P x" for l x
  proof (cases "l < length (ca_lines x)")
    case True
    have L: "lines_ok c covers (content (cs_down s)) (victim (cs_cache s)) (ca_lines x)" using that by (simp add: P_def)
    have "lines_ok c covers (content (cs_down s)) (victim (cs_cache s)) ((ca_lines x)[l := (ca_lines x ! l)\<lparr>cl_tag := - 1\<rparr>])"
      by (rule lines_ok_update [OF L True]) (use lines_okD [OF L True] in auto)
    then show ?thesis using that by (simp add: P_def upd_line_def core_def)
  qed (use that in \<open>simp add: P_def upd_line_def core_def list_update_beyond not_less\<close>)
  have "P (fold (\<lambda>i x. if cl_tag (ca_lines x ! (idx * cc_ways c + i)) = tag then upd_line (idx * cc_ways c + i) (\<lambda>y. y\<lparr>cl_tag := - 1\<rparr>) x else x) is x)"
    if "P x" for idx tag "is" x
    using that by (induction "is" arbitrary: x) (simp_all add: one)
  moreover have "P (cs_cache s)" using s by (simp add: P_def good_def)
  ultimately have "P (flush_line_sync c active (cs_cache s))" by (simp add: flush_line_sync_def flush_line_op_def Let_def)
  then show ?thesis using s by (auto simp: P_def leads_def good_def victim_def pending_ok_def core_def same_req_def lines_ok_def)
qed

end

section \<open>Runs\<close>

text \<open>The downstream answers a refill by filling the line; what it puts there are the bytes of the memory, where it covers the address.\<close>

definition fill :: "byte list \<Rightarrow> 'd csys \<Rightarrow> 'd csys" where
  "fill bs s = upd_cache (upd_line (ca_line (cs_cache s)) (\<lambda>y. y\<lparr>cl_data := bs\<rparr>)) s"

definition right_fill :: "cache_config \<Rightarrow> ('d \<Rightarrow> u32 \<Rightarrow> byte) \<Rightarrow> (u32 \<Rightarrow> nat \<Rightarrow> bool) \<Rightarrow> ('d \<Rightarrow> u32) \<Rightarrow> 'd \<Rightarrow> byte list \<Rightarrow> bool" where
  "right_fill c content covers outst d bs \<longleftrightarrow> length bs = 2 ^ line_size_bits c \<and>
     (covers (outst d) (2 ^ line_size_bits c) \<longrightarrow> bs = map (\<lambda>i. content d (outst d + of_nat i)) [0..<2 ^ line_size_bits c])"

text \<open>Between two steps the other components may change, and the master its requests and buffers, but not the requests that the cache holds.\<close>

inductive ca_step :: "cache_config \<Rightarrow> 'd refill_port \<Rightarrow> ('d \<Rightarrow> u32 \<Rightarrow> byte) \<Rightarrow> (u32 \<Rightarrow> nat \<Rightarrow> bool) \<Rightarrow> ('d \<Rightarrow> u32) \<Rightarrow> ('d \<Rightarrow> bool) \<Rightarrow> 'd csys \<Rightarrow> 'd csys \<Rightarrow> bool"
  for c port content covers outst dinv where
  submit: "ca_submit c port now r s = Some s' \<Longrightarrow> ca_step c port content covers outst dinv s s'"
| refilled: "\<lbrakk>ca_pending_refill (cs_cache s); \<not> ca_pending_is_prefetch (cs_cache s); right_fill c content covers outst (cs_down s) bs;
    refill_resp c port now reent (fill bs s) = Some s'\<rbrakk> \<Longrightarrow> ca_step c port content covers outst dinv s s'"
| prefetched: "\<lbrakk>ca_pending_refill (cs_cache s); ca_pending_is_prefetch (cs_cache s); right_fill c content covers outst (cs_down s) bs\<rbrakk> \<Longrightarrow>
    ca_step c port content covers outst dinv s (prefetch_resp c port now (fill bs s))"
| retry: "refill_retry c port now reent s = Some s' \<Longrightarrow> ca_step c port content covers outst dinv s s'"
| fsm: "ca_fsm (cs_cache s) \<Longrightarrow> fsm_handler c port now ready reent s = Some s' \<Longrightarrow> ca_step c port content covers outst dinv s s'"
| flush: "ca_step c port content covers outst dinv s (upd_cache (flush_sync ack active) s)"
| flush_line: "ca_step c port content covers outst dinv s (upd_cache (flush_line_sync c active) s)"
| flush_addr: "ca_step c port content covers outst dinv s (upd_cache (flush_line_addr_sync a) s)"
| env: "\<lbrakk>dinv d; content d = content (cs_down s); outst d = outst (cs_down s); \<forall>r. read_ok c covers (rq r); \<forall>r\<in>set (ca_queue (cs_cache s)). rq r = cs_req s r\<rbrakk> \<Longrightarrow>
    ca_step c port content covers outst dinv s (s\<lparr>cs_down := d, cs_req := rq, cs_heap := h\<rparr>)"

definition ca_start :: "cache_config \<Rightarrow> (u32 \<Rightarrow> nat \<Rightarrow> bool) \<Rightarrow> ('d \<Rightarrow> bool) \<Rightarrow> 'd csys \<Rightarrow> bool" where
  "ca_start c covers dinv s \<longleftrightarrow> dinv (cs_down s) \<and> (\<forall>r. read_ok c covers (cs_req s r)) \<and>
     (\<exists>junk. length junk = cc_line_size c \<and> ca_lines (cs_cache s) = init_lines c junk) \<and> ca_enabled (cs_cache s) \<and>
     \<not> ca_pending_refill (cs_cache s) \<and> \<not> ca_pending_is_prefetch (cs_cache s) \<and> ca_queue (cs_cache s) = []"

inductive ca_reach :: "cache_config \<Rightarrow> 'd refill_port \<Rightarrow> ('d \<Rightarrow> u32 \<Rightarrow> byte) \<Rightarrow> (u32 \<Rightarrow> nat \<Rightarrow> bool) \<Rightarrow> ('d \<Rightarrow> u32) \<Rightarrow> ('d \<Rightarrow> bool) \<Rightarrow> 'd csys \<Rightarrow> bool"
  for c port content covers outst dinv where
  start: "ca_start c covers dinv s \<Longrightarrow> ca_reach c port content covers outst dinv s"
| more: "\<lbrakk>ca_reach c port content covers outst dinv s; ca_step c port content covers outst dinv s s'\<rbrakk> \<Longrightarrow> ca_reach c port content covers outst dinv s'"

lemma ca_start_good: "geom c \<Longrightarrow> ca_start c covers dinv s \<Longrightarrow> good c content covers outst dinv s"
  by (auto simp: ca_start_def good_def victim_def pending_ok_def lines_ok_def init_lines_def geom_def)

context refill_target
begin

lemma ca_step_leads:
  assumes g: "geom c" and s: "good c content covers outstanding dinv s" and st: "ca_step c port content covers outstanding dinv s s'"
  shows "good c content covers outstanding dinv s'"
    "\<exists>es. cs_out s' = cs_out s @ es \<and> (\<forall>e\<in>set es. event_ok c (content (cs_down s)) (cs_req s) e)"
proof -
  have "leads c content covers outstanding dinv s s' \<or> (good c content covers outstanding dinv s' \<and> cs_out s' = cs_out s)"
    using st
  proof cases
    case (submit now r)
    then show ?thesis using ca_submit_leads [OF g s, of now r] by auto
  next
    case (refilled bs now reent)
    then show ?thesis using refill_resp_leads [OF g s, of bs now reent] by (auto simp: right_fill_def fill_def)
  next
    case (prefetched bs now)
    then show ?thesis using prefetch_resp_leads [OF g s, of bs now] by (auto simp: right_fill_def fill_def)
  next
    case (retry now reent)
    then show ?thesis using refill_retry_leads [OF g s, of now reent] by auto
  next
    case (fsm now ready reent)
    then show ?thesis using fsm_handler_leads [OF g s, of now ready reent] by auto
  next
    case (flush ack active)
    then show ?thesis using flush_leads [OF s] by simp
  next
    case (flush_line active)
    then show ?thesis using flush_line_leads [OF s] by simp
  next
    case (flush_addr a)
    then show ?thesis using leads_core [OF _ _ _ _ _ s, of s'] by (simp add: flush_line_addr_sync_def core_def same_req_def)
  next
    case (env d rq h)
    then have "good c content covers outstanding dinv s'" using s by (auto simp: good_def pending_ok_def)
    then show ?thesis using env by simp
  qed
  then show "good c content covers outstanding dinv s'" "\<exists>es. cs_out s' = cs_out s @ es \<and> (\<forall>e\<in>set es. event_ok c (content (cs_down s)) (cs_req s) e)"
    by (auto simp: leads_def)
qed

lemma ca_reach_good:
  assumes "geom c" "ca_reach c port content covers outstanding dinv s"
  shows "good c content covers outstanding dinv s"
  using assms(2) by (induction rule: ca_reach.induct) (auto intro: ca_start_good [OF assms(1)] ca_step_leads(1) [OF assms(1)])

end


section \<open>Progress\<close>

text \<open>Requests wait only as long as a refill or a retry is outstanding, or the drain is scheduled.\<close>

definition wakes :: "cache \<Rightarrow> bool" where
  "wakes ca \<longleftrightarrow> ca_queue ca = [] \<or> ca_pending_refill ca \<or> ca_refill_retry_pending ca \<or> ca_fsm ca"

lemma try_prefetch_wakes: "wakes (cs_cache s) \<Longrightarrow> wakes (cs_cache (try_prefetch c port now s))"
  by (auto simp: try_prefetch_def send_refill_def step_lru_def upd_line_def wakes_def Let_def split: prod.splits io_req_status.splits)

lemma check_state_wakes: "wakes (cs_cache (check_state c port now s))"
  using try_prefetch_wakes [of s c port now] by (auto simp: check_state_def Let_def wakes_def)

lemma copy_line_frame:
  assumes "copy_line l off r s = Some s'"
  shows "ca_queue (cs_cache s') = ca_queue (cs_cache s)" "ca_fsm (cs_cache s') = ca_fsm (cs_cache s)" "ca_pending_refill (cs_cache s') = ca_pending_refill (cs_cache s)"
    "ca_refill_retry_pending (cs_cache s') = ca_refill_retry_pending (cs_cache s)" "cs_req s' = cs_req s"
  using assms by (auto simp: copy_line_def Let_def upd_line_def split: if_splits)

lemma handle_req_wakes:
  assumes "wakes (cs_cache s)" "handle_req c port now r s = Some (s', st)"
  shows "wakes (cs_cache s')"
proof -
  note w = assms(1) [unfolded wakes_def] and fr = copy_line_frame
  show ?thesis
  proof (cases "fst (get_line c (cs_cache s) (cs_req s r))")
    case None
    then show ?thesis using assms
      by (auto simp: handle_req_def refill_def send_refill_def step_lru_def upd_line_def wakes_def Let_def fr
          split: prod.splits io_req_status.splits refill_result.splits if_splits)
  next
    case (Some l)
    then show ?thesis using assms
      by (auto simp: handle_req_def wakes_def Let_def upd_line_def fr split: prod.splits if_splits)
  qed
qed

lemma ca_submit_wakes:
  assumes "ca_submit c port now r s = Some s'" "wakes (cs_cache s)"
  shows "wakes (cs_cache s')"
proof -
  obtain s1 st where i: "ca_input_req c port now r s = Some (s1, st)" "cs_cache s' = cs_cache s1"
    using assms(1) by (auto simp: ca_submit_def cs_emit_def)
  have "wakes (cs_cache s1)"
  proof (cases "ca_enabled (cs_cache s) \<and> \<not> (ca_pending_refill (cs_cache s) \<or> ca_refill_retry_pending (cs_cache s))")
    case True
    then obtain s2 where h: "handle_req c port now r s = Some (s2, st)" "s1 = (if st = IO_REQ_DENIED then upd_cache (\<lambda>x. x\<lparr>ca_input_needs_retry := True\<rparr>) s2
      else if \<not> ca_pending_refill (cs_cache s2) \<and> \<not> ca_refill_retry_pending (cs_cache s2) then try_prefetch c port now s2 else s2)"
      using i(1) by (auto simp: ca_input_req_def Let_def)
    have "wakes (cs_cache s2)" by (rule handle_req_wakes [OF assms(2) h(1)])
    then show ?thesis using try_prefetch_wakes [of s2] by (auto simp: h(2) wakes_def)
  next
    case False
    then show ?thesis using i(1) assms(2) check_state_wakes
      by (auto simp: ca_input_req_def Let_def wakes_def split: prod.splits if_splits)
  qed
  then show ?thesis by (simp add: i(2))
qed

lemma fold_wakes: "wakes x \<Longrightarrow> wakes (fold (\<lambda>i x. if P i x then upd_line (k i) f x else x) is x)"
  by (induction "is" arbitrary: x) (auto simp: upd_line_def wakes_def)

lemma flush_line_wakes: "wakes x \<Longrightarrow> wakes (flush_line_op c a x)"
  unfolding flush_line_op_def Let_def by (rule fold_wakes)

lemma ca_step_wakes:
  assumes "ca_step c port content covers outst dinv s s'" "wakes (cs_cache s)"
  shows "wakes (cs_cache s')"
  using assms(1)
proof cases
  case (submit now r)
  then show ?thesis using ca_submit_wakes assms(2) by blast
next
  case (refilled bs now reent)
  then show ?thesis by (auto simp: refill_resp_def Let_def check_state_wakes split: list.splits Option.bind_splits)
next
  case (prefetched bs now)
  then show ?thesis by (simp add: prefetch_resp_def check_state_wakes)
next
  case (retry now reent)
  then show ?thesis by (auto simp: refill_retry_def Let_def check_state_wakes split: if_splits)
next
  case (fsm now ready reent)
  then show ?thesis by (auto simp: fsm_handler_def Let_def check_state_wakes)
next
  case (flush_line active)
  then show ?thesis using assms(2) by (auto simp: flush_line_sync_def intro: flush_line_wakes)
qed (use assms(2) in \<open>auto simp: wakes_def flush_sync_def flush_def flush_line_addr_sync_def\<close>)

text \<open>
  C31: no request is left behind in the queue of the cache: whenever a request waits there, a refill is in flight, a denied refill waits for its retry, or the drain of the queue is
  scheduled; and each of these events schedules the drain again while requests are left.
\<close>

theorem cache_wakes:
  assumes "ca_reach c port content covers outst dinv s" "ca_queue (cs_cache s) \<noteq> []"
  shows "ca_pending_refill (cs_cache s) \<or> ca_refill_retry_pending (cs_cache s) \<or> ca_fsm (cs_cache s)"
proof -
  have "wakes (cs_cache s)" using assms(1)
  proof (induction rule: ca_reach.induct)
    case (start s)
    then show ?case by (simp add: ca_start_def wakes_def)
  next
    case (more s s')
    then show ?case using ca_step_wakes by blast
  qed
  then show ?thesis using assms(2) by (simp add: wakes_def)
qed

section \<open>Errors\<close>

lemma copy_line_defined:
  assumes "off + unat (r_size (cs_req s r)) \<le> length (cl_data (ca_lines (cs_cache s) ! l))"
  shows "\<exists>s'. copy_line l off r s = Some s' \<and> (\<forall>k. cl_tag (ca_lines (cs_cache s') ! k) = cl_tag (ca_lines (cs_cache s) ! k)) \<and> cs_req s' = cs_req s \<and>
    ca_pending_refill (cs_cache s') = ca_pending_refill (cs_cache s) \<and> ca_refill_retry_pending (cs_cache s') = ca_refill_retry_pending (cs_cache s) \<and>
    ca_prefetch_wanted (cs_cache s') = ca_prefetch_wanted (cs_cache s)"
proof -
  have tags: "cl_tag (ca_lines (upd_line l (\<lambda>x. x\<lparr>cl_data := bs\<rparr>) ca) ! k) = cl_tag (ca_lines ca ! k)" for bs ca k
    by (cases "k = l \<and> k < length (ca_lines ca)") (auto simp: upd_line_def nth_list_update list_update_beyond not_less)
  show ?thesis using assms by (auto simp: copy_line_def Let_def arr_read_def arr_write_def cs_buffer_def tags) (auto simp: upd_line_def)
qed

lemma find_way_tagged:
  assumes "l = set_index c tag * cc_ways c + way mod cc_ways c" "0 < cc_ways c" "cl_tag (ca_lines ca ! l) = tag"
  shows "find_way c ca (set_index c tag) tag \<noteq> None"
proof
  assume "find_way c ca (set_index c tag) tag = None"
  then have "\<not> (\<exists>x. x \<in> set (map (\<lambda>i. set_index c tag * cc_ways c + i) [0..<cc_ways c]) \<and> cl_tag (ca_lines ca ! x) = tag)"
    by (simp only: find_way_def find_None_iff not_False_eq_True)
  moreover have "l \<in> set (map (\<lambda>i. set_index c tag * cc_ways c + i) [0..<cc_ways c])"
    using mod_less_divisor [OF assms(2), of way] by (simp only: assms(1) set_map set_upt) (rule imageI, simp)
  ultimately show False using assms(3) by blast
qed

text \<open>
  C38: the cache never reports an error. When the memory behind the refill port answers a refill with an error, the request completes with the status it had, with what is in
  the buffer of the line, and the line becomes valid, so that later requests hit it.
\<close>

theorem refill_error_swallowed:
  assumes "ca_enabled (cs_cache s)" "\<not> ca_pending_refill (cs_cache s)" "\<not> ca_refill_retry_pending (cs_cache s)" "\<not> cc_prefetch c" "\<not> ca_prefetch_wanted (cs_cache s)"
    and miss: "fst (get_line c (cs_cache s) (cs_req s r)) = None" and g: "geom c" and len: "length (ca_lines (cs_cache s)) = nb_sets c * cc_ways c"
    and data: "\<forall>l<length (ca_lines (cs_cache s)). length (cl_data (ca_lines (cs_cache s) ! l)) = 2 ^ line_size_bits c"
    and fit: "line_off c (cs_req s r) + unat (r_size (cs_req s r)) \<le> 2 ^ line_size_bits c"
    and err: "\<And>d a n buf. rp_refill port d a n buf = (d, buf, 0, IO_RESP_INVALID, IO_REQ_DONE)"
  shows "\<exists>s'. ca_input_req c port now r s = Some (s', IO_REQ_DONE) \<and> r_resp_status (cs_req s' r) = r_resp_status (cs_req s r) \<and>
    fst (get_line c (cs_cache s') (cs_req s' r)) \<noteq> None"
proof -
  let ?q = "cs_req s r" and ?ca = "cs_cache s" and ?tag = "req_tag c (cs_req s r)"
  obtain x way where lru: "step_lru c ?ca = (?ca\<lparr>ca_lru_out := x\<rparr>, way)" by (simp add: step_lru_def Let_def)
  let ?c1 = "?ca\<lparr>ca_lru_out := x\<rparr>"
  let ?l = "set_index c ?tag * cc_ways c + way mod cc_ways c"
  have l: "?l < length (ca_lines ?ca)" using way_less [OF g] len by simp
  let ?n = "refill_latency c ?c1 now 0"
  let ?s1 = "cs_inc_latency r ?n (s\<lparr>cs_cache := ?c1\<lparr>ca_refill_timestamp := now + ?n, ca_lines := (ca_lines ?ca)[?l := (ca_lines ?ca ! ?l)\<lparr>cl_tag := ?tag, cl_timestamp := now + ?n\<rparr>]\<rparr>\<rparr>)"
  have "off + unat (r_size (cs_req ?s1 r)) \<le> length (cl_data (ca_lines (cs_cache ?s1) ! ?l))" if "off = line_off c ?q" for off
    using fit data l that by (simp add: cs_inc_latency_def)
  from copy_line_defined [OF this [OF refl]] obtain s2 where s2: "copy_line ?l (line_off c ?q) r ?s1 = Some s2"
    "\<And>k. cl_tag (ca_lines (cs_cache s2) ! k) = cl_tag (ca_lines (cs_cache ?s1) ! k)" "cs_req s2 = cs_req ?s1" "\<not> ca_prefetch_wanted (cs_cache s2)"
    using assms(2-5) by auto
  have "find_way c ?ca (set_index c ?tag) ?tag = None" using miss by (simp add: get_line_eq)
  moreover have "refill c port now (set_index c ?tag) (ucast (r_addr ?q)) ?tag r s = (?s1, R_Line ?l)"
    using assms(2) lru l by (simp add: refill_def send_refill_def err upd_line_def refill_latency_def Let_def)
  ultimately have "handle_req c port now r s = Some (s2, IO_REQ_DONE)"
    using assms(4) s2(1) by (simp add: handle_req_def get_line_eq arm_prefetch_def Let_def)
  then have i: "ca_input_req c port now r s = Some (s2, IO_REQ_DONE)" using assms(1-3) s2(4) by (simp add: ca_input_req_def Let_def try_prefetch_def)
  have "req_tag c (cs_req s2 r) = ?tag" by (simp add: s2(3) cs_inc_latency_def req_tag_def)
  then have "fst (get_line c (cs_cache s2) (cs_req s2 r)) \<noteq> None"
    using find_way_tagged [OF refl, where c = c and ca = "cs_cache s2" and tag = ?tag and way = way] g s2(2) [of ?l] l by (simp add: get_line_eq geom_def)
  then show ?thesis using i s2(3) by (auto simp: cs_inc_latency_def)
qed

text \<open>
  A request without a buffer that misses destroys a line when its refill completes later: the line is not given its new tag, but its bytes are those of the refill. It stays valid for the
  old address.
\<close>

theorem dataless_refill_corrupts:
  assumes "ca_queue (cs_cache s) = r # rest" "r_data (cs_req s r) = 0" "ca_line (cs_cache s) < length (ca_lines (cs_cache s))" "\<not> ca_prefetch_wanted (cs_cache s)"
  shows "\<exists>s'. refill_resp c port now [] (fill bs s) = Some s' \<and> cl_data (ca_lines (cs_cache s') ! ca_line (cs_cache s)) = bs \<and>
    cl_tag (ca_lines (cs_cache s') ! ca_line (cs_cache s)) = cl_tag (ca_lines (cs_cache s) ! ca_line (cs_cache s))"
  using assms by (auto simp: refill_resp_def fill_def upd_line_def copy_line_def check_state_def try_prefetch_def cs_emit_def Let_def)

text \<open>An access that crosses the end of its line runs over the end of the buffer of the line.\<close>

lemma straddling_undefined:
  assumes "find_way c (cs_cache s) (set_index c (req_tag c (cs_req s r))) (req_tag c (cs_req s r)) = Some l" "r_data (cs_req s r) \<noteq> 0"
    "length (cl_data (ca_lines (cs_cache s) ! l)) < line_off c (cs_req s r) + unat (r_size (cs_req s r))" "l < length (ca_lines (cs_cache s))"
  shows "handle_req c port now r s = None"
  using assms by (auto simp: handle_req_def get_line_eq copy_line_def arr_read_def arr_write_def cs_buffer_def cs_inc_latency_def upd_line_def arm_prefetch_def Let_def)

section \<open>Witnesses\<close>

text \<open>A cache of two sets of two lines of 16 bytes, over a memory that holds its addresses.\<close>

definition tiny :: cache_config where
  "tiny = \<lparr>cc_size = 64, cc_line_size = 16, cc_ways = 2, cc_enabled = True, cc_prefetch = False, cc_refill_shift = 0, cc_refill_offset = 256, cc_refill_latency = 3\<rparr>"

definition tiny_port :: "io_resp_status \<Rightarrow> io_req_status \<Rightarrow> unit refill_port" where
  "tiny_port rs st = \<lparr>rp_refill = (\<lambda>d a n buf. (d, if rs = IO_RESP_OK \<and> st = IO_REQ_DONE then map (\<lambda>i. ucast (a + of_nat i)) [0..<n] else buf, 0, rs, st)),
     rp_bypass = (\<lambda>d h q. (d, h, q, IO_REQ_DONE))\<rparr>"

definition tiny_req :: "ptr \<Rightarrow> io_req" where
  "tiny_req p = \<lparr>r_addr = 36, r_size = 4, r_data = p, r_second_data = 0, r_strb = 0, r_is_write = False, r_opcode = OP_READ, r_initiator = 0,
     r_latency = 0, r_resp_status = IO_RESP_OK, r_remaining_size = 0, r_memcheck_data = 0, r_memcheck_data_id = 0\<rparr>"

definition tiny_sys :: "ptr \<Rightarrow> unit csys" where
  "tiny_sys p = \<lparr>cs_cache = \<lparr>ca_lines = init_lines tiny (replicate 16 0), ca_enabled = True, ca_pending_refill = False, ca_pending_is_prefetch = False, ca_prefetch_wanted = False,
     ca_prefetch_addr = 0, ca_queue = [], ca_fsm = False, ca_refill_timestamp = - 1, ca_lru_out = 0, ca_flush_line_addr = 0, ca_line = 0, ca_refill_tag = 0,
     ca_pending_line_offset = 0, ca_refill_retry_pending = False, ca_input_needs_retry = False, ca_flush_acks = 0\<rparr>,
     cs_down = (), cs_heap = (\<lambda>_. 0), cs_req = (\<lambda>_. tiny_req p), cs_out = []\<rparr>"

lemma tiny_geom: "geom tiny"
proof -
  have "line_size_bits tiny = 4" "nb_sets tiny = 2" by code_simp+
  then show ?thesis by (simp add: geom_def tiny_def)
qed

lemma tiny_target: "refill_target (tiny_port IO_RESP_OK IO_REQ_DONE) (\<lambda>_ a. ucast a) (\<lambda>_ _. True) (\<lambda>_. 0) (\<lambda>_. True)"
  by unfold_locales (auto simp: tiny_port_def)

lemma tiny_start: "ca_start tiny (\<lambda>_ _. True) (\<lambda>_. True) (tiny_sys 8)"
proof -
  have "line_off tiny (tiny_req 8) + unat (r_size (tiny_req 8)) \<le> 2 ^ line_size_bits tiny" by code_simp
  then have "read_ok tiny (\<lambda>_ _. True) (tiny_req 8)" by (simp add: read_ok_def) (simp add: tiny_req_def)
  moreover have "length (replicate 16 (0 :: byte)) = cc_line_size tiny" by (simp add: tiny_def)
  ultimately show ?thesis unfolding ca_start_def by (intro conjI allI exI [of _ "replicate 16 0"]) (simp_all add: tiny_sys_def)
qed


theorem refill_error_swallowed_witness:
  "\<exists>s'. ca_input_req tiny (tiny_port IO_RESP_INVALID IO_REQ_DONE) 0 0 (tiny_sys 8) = Some (s', IO_REQ_DONE) \<and> r_resp_status (cs_req s' 0) = IO_RESP_OK"
proof -
  have c: "fst (get_line tiny (cs_cache (tiny_sys 8)) (cs_req (tiny_sys 8) 0)) = None" "line_off tiny (cs_req (tiny_sys 8) 0) + unat (r_size (cs_req (tiny_sys 8) 0)) \<le> 2 ^ line_size_bits tiny"
    "length (ca_lines (cs_cache (tiny_sys 8))) = nb_sets tiny * cc_ways tiny" "line_size_bits tiny = 4"
    by code_simp+
  have "\<forall>l<length (ca_lines (cs_cache (tiny_sys 8))). length (cl_data (ca_lines (cs_cache (tiny_sys 8)) ! l)) = 2 ^ line_size_bits tiny"
    by (simp add: tiny_sys_def init_lines_def c(4))
  from refill_error_swallowed [OF _ _ _ _ _ c(1) tiny_geom c(3) this c(2), of "tiny_port IO_RESP_INVALID IO_REQ_DONE" 0]
  show ?thesis by (auto simp: tiny_sys_def tiny_def tiny_port_def tiny_req_def)
qed

theorem dataless_refill_corrupts_witness:
  "\<exists>s'. refill_resp tiny (tiny_port IO_RESP_OK IO_REQ_GRANTED) 5 [] (fill (replicate 16 7) (upd_cache (\<lambda>x. (upd_line 0 (\<lambda>y. y\<lparr>cl_tag := 9\<rparr>) x)\<lparr>ca_queue := [0]\<rparr>) (tiny_sys 0))) = Some s' \<and>
     cl_data (ca_lines (cs_cache s') ! 0) = replicate 16 7 \<and> cl_tag (ca_lines (cs_cache s') ! 0) = 9"
proof -
  have "nb_sets tiny * cc_ways tiny = 4" by code_simp
  then show ?thesis
    using dataless_refill_corrupts [of "upd_cache (\<lambda>x. (upd_line 0 (\<lambda>y. y\<lparr>cl_tag := 9\<rparr>) x)\<lparr>ca_queue := [0]\<rparr>) (tiny_sys 0)" 0 "[]" tiny "tiny_port IO_RESP_OK IO_REQ_GRANTED" 5 "replicate 16 7"]
    by (auto simp: tiny_sys_def tiny_req_def init_lines_def upd_line_def)
qed

theorem cache_wakes_witness:
  "\<exists>s :: unit csys. ca_queue (cs_cache s) = [0] \<and> (ca_pending_refill (cs_cache s) \<or> ca_refill_retry_pending (cs_cache s) \<or> ca_fsm (cs_cache s))"
proof -
  let ?p = "tiny_port IO_RESP_OK IO_REQ_GRANTED"
  have q: "map_option (\<lambda>s. ca_queue (cs_cache s)) (ca_submit tiny ?p 0 0 (tiny_sys 8)) = Some [0]" by code_simp
  then obtain s' where s': "ca_submit tiny ?p 0 0 (tiny_sys 8) = Some s'" "ca_queue (cs_cache s') = [0]" by auto
  have "ca_reach tiny ?p (\<lambda>_ _. 0) (\<lambda>_ _. True) (\<lambda>_. 0) (\<lambda>_. True) s'"
    by (rule ca_reach.more [OF ca_reach.start [OF tiny_start] ca_step.submit [OF s'(1)]])
  from cache_wakes [OF this] show ?thesis using s'(2) by (intro exI [of _ s']) simp
qed

end
