(* ===== verification/Cache_Memory.thy ===== *)
theory Cache_Memory
  imports Cache_V4_Props Lsu_Memory
begin

text \<open>
  The cache connected to the SRAM model: the refill request goes through \<open>mem_req\<close> with the buffer of the line in host memory. The memory interprets \<open>refill_target\<close>, so a
  read through the cache returns the bytes of the memory array.
\<close>

section \<open>The connection\<close>

definition line_req :: "u32 \<Rightarrow> nat \<Rightarrow> io_req" where
  "line_req a n = \<lparr>r_addr = ucast a, r_size = of_nat n, r_data = 8, r_second_data = 0, r_strb = 0, r_is_write = False, r_opcode = OP_READ, r_initiator = 0,
     r_latency = 0, r_resp_status = IO_RESP_OK, r_remaining_size = 0, r_memcheck_data = 0, r_memcheck_data_id = 0\<rparr>"

definition mem_refill :: "int \<Rightarrow> bool \<Rightarrow> memory option \<Rightarrow> u32 \<Rightarrow> nat \<Rightarrow> byte list \<Rightarrow> memory option \<times> byte list \<times> int \<times> io_resp_status \<times> io_req_status" where
  "mem_refill cyc pe p a n buf =
     (case Option.bind p (\<lambda>m. mem_req cyc pe m (heap_write (\<lambda>_. 0) 8 buf) (line_req a n)) of
        None \<Rightarrow> (None, buf, 0, IO_RESP_OK, IO_REQ_DONE)
      | Some (m, h, q, st) \<Rightarrow> (Some m, heap_read h 8 n, r_latency q, r_resp_status q, st))"

definition mem_bypass :: "int \<Rightarrow> bool \<Rightarrow> memory option \<Rightarrow> heap \<Rightarrow> io_req \<Rightarrow> memory option \<times> heap \<times> io_req \<times> io_req_status" where
  "mem_bypass cyc pe p h q =
     (case Option.bind p (\<lambda>m. mem_req cyc pe m h q) of None \<Rightarrow> (None, h, q, IO_REQ_DONE) | Some (m, h', q', st) \<Rightarrow> (Some m, h', q', st))"

definition mem_port :: "int \<Rightarrow> bool \<Rightarrow> memory option refill_port" where
  "mem_port cyc pe = \<lparr>rp_refill = mem_refill cyc pe, rp_bypass = mem_bypass cyc pe\<rparr>"

section \<open>The laws\<close>

lemma line_req_accepted:
  assumes "0 < n" "n < 2 ^ 32"
  shows "mem_accepts (line_req a n)" "unat (r_size (line_req a n)) = n" "unat (r_addr (line_req a n)) = unat a"
proof -
  have n: "unat (of_nat n :: u64) = n" using assms by (simp add: unat_of_nat)
  have "unat a < 2 ^ LENGTH(32)" by (rule unsigned_less)
  then have a: "unat (ucast a :: u64) = unat a" "unat a < 2 ^ 32" by (simp_all add: unsigned_ucast_eq take_bit_nat_eq_self)
  show "unat (r_size (line_req a n)) = n" "unat (r_addr (line_req a n)) = unat a" using n a by (simp_all add: line_req_def)
  have "(of_nat n :: u64) \<noteq> 0" using n assms by (metis unat_0 less_irrefl)
  then show "mem_accepts (line_req a n)" using n a assms by (simp add: mem_accepts_def line_req_def)
qed

lemma mem_refill_ok:
  assumes m: "mem_serves c p" and n: "0 < n" "n < 2 ^ 32" and b: "length buf = n"
  shows "\<exists>p' bs lat rs. mem_refill cyc pe p a n buf = (p', bs, lat, rs, IO_REQ_DONE) \<and> mem_serves c p' \<and> (mem_byte p' :: u32 \<Rightarrow> byte) = mem_byte p \<and> length bs = n \<and>
    (unat a + n \<le> unat (c_size c) \<longleftrightarrow> rs \<noteq> IO_RESP_INVALID) \<and>
    (addr_fits c a n \<longrightarrow> bs = map (\<lambda>i. mem_byte p (a + of_nat i)) [0..<n])"
proof -
  obtain mm where mm: "p = Some mm" "mem_wf mm" "powered_up mm" "cfg mm = c" "\<not> (c_memcheck c \<and> memcheck_enabled mm)" "\<not> c_truncate c"
    using m by (auto simp: mem_serves_def)
  let ?r = "line_req a n" and ?h = "heap_write (\<lambda>_. 0) 8 buf"
  note acc = line_req_accepted [OF n, of a]
  have off: "mem_off mm ?r = ucast a" using mm(4,6) by (simp add: truncate_mask_def line_req_def)
  have len: "length (mem_data mm) = unat (c_size c)" using mm(2,4) by (simp add: mem_wf_def)
  show ?thesis
  proof (cases "mem_fits mm ?r")
    case True
    obtain m2 where m2: "mem_core m2 = mem_core mm" "mem_req cyc pe mm ?h ?r = mem_dispatch m2 ?h ?r (?r\<lparr>r_latency := r_latency ?r + c_latency c\<rparr>) (mem_off mm ?r)"
      using mem_req_plain [OF mm(2) acc(1) True] mm(4,5) by blast
    note s2 = mem_serves_core [OF m [unfolded mm(1)] m2(1)]
    let ?bs = "take n (drop (unat a) (mem_data mm))"
    have fit: "unat a + n \<le> length (mem_data mm)" using True acc(2,3) off len mm(4) by (simp add: mem_fits_def line_req_def)
    have "handle_read m2 ?h (mem_off mm ?r) (r_size ?r) 8 = Some (heap_write ?h 8 ?bs)"
      using s2 fit acc(2,3) off by (simp add: handle_read_def handle_read_bytes_def arr_read_def line_req_def)
    then have "mem_req cyc pe mm ?h ?r = Some (m2, heap_write ?h 8 ?bs, ?r\<lparr>r_latency := r_latency ?r + c_latency c\<rparr>, IO_REQ_DONE)"
      unfolding m2(2) by (simp add: mem_dispatch_def line_req_def)
    then have "mem_refill cyc pe p a n buf = (Some m2, ?bs, r_latency ?r + c_latency c, IO_RESP_OK, IO_REQ_DONE)"
      using fit by (simp add: mem_refill_def mm(1) heap_read_write_same line_req_def)
    moreover have "mem_byte (Some m2) = (mem_byte p :: u32 \<Rightarrow> byte)" using s2(2) mm(1) by (simp add: mem_byte_def fun_eq_iff)
    moreover have "?bs = map (\<lambda>i. mem_byte p (a + of_nat i)) [0..<n]" if "addr_fits c a n"
    proof (rule nth_equalityI)
      fix i assume "i < length ?bs"
      then have i: "i < n" using fit by simp
      then have "unat (a + of_nat i) = unat a + i" using that by (intro unat_plus_nat) (simp add: addr_fits_def)
      then show "?bs ! i = map (\<lambda>i. mem_byte p (a + of_nat i)) [0..<n] ! i" using i fit by (simp add: mem_byte_def mm(1))
    qed (use fit in simp)
    ultimately show ?thesis using s2(1) fit len by auto
  next
    case False
    let ?q = "?r\<lparr>r_latency := r_latency ?r + c_latency c, r_resp_status := IO_RESP_INVALID\<rparr>"
    obtain m2 where m2: "mem_core m2 = mem_core mm" "mem_req cyc pe mm ?h ?r = Some (m2, ?h, ?q, IO_REQ_DONE)"
      using mem_req_unfold [OF mm(2) acc(1), of cyc pe ?h] mem_fits_guard [OF acc(1), of mm] False mm(4) by auto
    note s2 = mem_serves_core [OF m [unfolded mm(1)] m2(1)]
    then have "mem_refill cyc pe p a n buf = (Some m2, buf, r_latency ?q, IO_RESP_INVALID, IO_REQ_DONE)"
      using b m2(2) by (simp add: mem_refill_def mm(1) heap_read_write_same)
    moreover have "mem_byte (Some m2) = (mem_byte p :: u32 \<Rightarrow> byte)" using s2(2) mm(1) by (simp add: mem_byte_def fun_eq_iff)
    moreover have "\<not> addr_fits c a n" "\<not> unat a + n \<le> unat (c_size c)" using False acc(2,3) off mm(4) by (simp_all add: mem_fits_def line_req_def addr_fits_def)
    ultimately show ?thesis using s2(1) b by auto
  qed
qed

interpretation cache_mem: refill_target "mem_port cyc pe" mem_byte "addr_fits c" "\<lambda>_. 0" "mem_serves c" for cyc pe c
proof unfold_locales
  fix p p' :: "memory option" and a :: u32 and n :: nat and buf buf' :: "byte list" and lat rs st
  assume a: "mem_serves c p" "length buf = n" "0 < n" "n < 2 ^ 32"
  note r = mem_refill_ok [OF a(1,3,4,2), of cyc pe a]
  show "mem_serves c p' \<and> mem_byte p' = (mem_byte p :: u32 \<Rightarrow> byte) \<and> length buf' = n" if "rp_refill (mem_port cyc pe) p a n buf = (p', buf', lat, rs, st)"
    using r that by (auto simp: mem_port_def)
  show "buf' = map (\<lambda>i. mem_byte p (a + of_nat i)) [0..<n]" if "rp_refill (mem_port cyc pe) p a n buf = (p', buf', lat, rs, IO_REQ_DONE)" "addr_fits c a n"
    using r that by (auto simp: mem_port_def)
  show "buf' = buf" if "rp_refill (mem_port cyc pe) p a n buf = (p', buf', lat, rs, IO_REQ_DENIED)" using r that by (auto simp: mem_port_def)
  show "0 = a" if "rp_refill (mem_port cyc pe) p a n buf = (p', buf', lat, rs, IO_REQ_GRANTED)" using r that by (auto simp: mem_port_def)
qed

section \<open>Reads through the cache\<close>

text \<open>The status of a request is that of its refill, if it needs one.\<close>

lemma handle_req_status:
  assumes "handle_req c port now r s = Some (s', st)" "\<not> ca_pending_refill (cs_cache s)" "st \<noteq> IO_REQ_DONE"
  shows "\<exists>way a. snd (snd (snd (snd (rp_refill port (cs_down s) a (2 ^ line_size_bits c)
    (cl_data (ca_lines (cs_cache s) ! (set_index c (req_tag c (cs_req s r)) * cc_ways c + way mod cc_ways c))))))) = st"
proof -
  obtain x way where lru: "step_lru c (arm_prefetch c (ucast (r_addr (cs_req s r))) (cs_cache s)) = ((arm_prefetch c (ucast (r_addr (cs_req s r))) (cs_cache s))\<lparr>ca_lru_out := x\<rparr>, way)"
    by (simp add: step_lru_def Let_def)
  show ?thesis using assms lru
    by (intro exI [of _ way] exI [of _ "refill_addr c (ucast (r_addr (cs_req s r)))"])
      (auto simp: handle_req_def get_line_eq refill_def send_refill_def Let_def split: option.splits prod.splits io_req_status.splits)
qed

lemma line_base_off:
  fixes q :: io_req
  assumes "line_size_bits c < 32"
  shows "line_base c (ucast (r_addr q)) + of_nat (line_off c q) = ucast (r_addr q)"
proof -
  let ?a = "ucast (r_addr q) :: u32" and ?m = "mask (line_size_bits c)"
  have m: "(push_bit (line_size_bits c) 1 - 1 :: u32) = ?m" "(push_bit (line_size_bits c) 1 - 1 :: u64) = ?m" by (simp_all add: mask_eq_exp_minus_1 push_bit_of_1)
  have "of_nat (line_off c q) = ?a AND ?m"
    unfolding line_off_def m by (intro bit_word_eqI) (auto simp: bit_simps)
  moreover have "(?a AND NOT ?m) + (?a AND ?m) = ?a"
    by (subst disjunctive_add_eq_or) (auto simp: bit_simps intro!: bit_word_eqI)
  ultimately show ?thesis unfolding line_base_def m by simp
qed

lemma mem_bytes_direct:
  assumes "line_size_bits c < 32" "cc_refill_shift c = 0" "i < unat (r_size q)"
  shows "mem_bytes c mem q ! i = mem (ucast (r_addr q) + ucast (cc_refill_offset c) + of_nat i)"
proof -
  have "refill_addr c (ucast (r_addr q)) + of_nat (line_off c q + i) = ucast (r_addr q) + ucast (cc_refill_offset c) + of_nat i"
    using line_base_off [OF assms(1), of q] by (simp add: refill_addr_def assms(2) algebra_simps)
  then show ?thesis using assms(3) by (simp only: mem_bytes_def length_map length_upt nth_map nth_upt diff_zero add_0 minus_nat.diff_0)
qed


definition mini :: cache_config where
  "mini = tiny\<lparr>cc_refill_offset := 0\<rparr>"

definition mini_sys :: "memory option csys" where
  "mini_sys = \<lparr>cs_cache = (cs_cache (tiny_sys 8)), cs_down = Some (lsu_demo_mem 2), cs_heap = (\<lambda>_. 0), cs_req = (\<lambda>_. (tiny_req 8)\<lparr>r_addr := 4\<rparr>), cs_out = []\<rparr>"


end
