(* ===== verification/Fetch_Memory.thy ===== *)
theory Fetch_Memory
  imports Prefetch_Fetch Cache_Memory
begin

unbundle bit_operations_syntax

text \<open>
  The fetch port connected to the SRAM model, with lines of 64 bytes (the \<^verbatim>\<open>prefetcher_size\<close> of the cores of \<^verbatim>\<open>riscv.py\<close>): the memory interprets \<open>sync_fetch_target\<close>, so a
  fetch returns at once with the opcode in the memory array.
\<close>

section \<open>The connection\<close>

definition mem_fetch :: "int \<Rightarrow> bool \<Rightarrow> nat \<Rightarrow> (u32, memory option) fetch_port" where
  "mem_fetch cyc pe n p a buf = mem_refill cyc pe p a n buf"

lemma aligned_fits:
  assumes "line_geom n" "unat (a :: u32) mod n = 0"
  shows "unat a + n \<le> 2 ^ 32"
proof -
  obtain m where m: "2 ^ 32 = n * m" using geom_dvd [OF assms(1)] by (rule dvdE)
  obtain q where q: "unat a = n * q" using assms(2) by (auto elim: dvdE)
  have "unat a < 2 ^ 32" using unsigned_less [of a] by simp
  then have "q < m" unfolding m q by simp
  then have "n * (q + 1) \<le> n * m" by (intro mult_le_mono) simp_all
  then show ?thesis unfolding m q by (simp add: algebra_simps)
qed

lemma mem_fetch_laws:
  assumes n: "line_geom n" and p: "mem_serves c p" "length buf = n" "mem_fetch cyc pe n p a buf = (p', bs, lat, rs, st)"
  shows "mem_serves c p' \<and> (mem_byte p' :: u32 \<Rightarrow> byte) = mem_byte p \<and> length bs = n \<and> st = IO_REQ_DONE" "rs \<noteq> IO_RESP_INVALID \<longleftrightarrow> unat a + n \<le> unat (c_size c)"
    "\<lbrakk>unat a mod n = 0; rs \<noteq> IO_RESP_INVALID\<rbrakk> \<Longrightarrow> bs = line_bytes n (mem_byte p) a"
proof -
  have b: "0 < n" "n < 2 ^ 32" using line_geom_bounds(1,2) [OF n] by simp_all
  note r = mem_refill_ok [OF p(1) b p(2), of cyc pe a]
  show "mem_serves c p' \<and> (mem_byte p' :: u32 \<Rightarrow> byte) = mem_byte p \<and> length bs = n \<and> st = IO_REQ_DONE" "rs \<noteq> IO_RESP_INVALID \<longleftrightarrow> unat a + n \<le> unat (c_size c)"
    using r p(3) by (auto simp: mem_fetch_def)
  have "addr_fits c a n" if "unat a mod n = 0" "unat a + n \<le> unat (c_size c)"
    using aligned_fits [OF n that(1)] that(2) by (simp add: addr_fits_def)
  then show "\<lbrakk>unat a mod n = 0; rs \<noteq> IO_RESP_INVALID\<rbrakk> \<Longrightarrow> bs = line_bytes n (mem_byte p) a"
    using r p(3) by (auto simp: mem_fetch_def line_bytes_def)
qed

lemma geom_64: "line_geom 64"
  unfolding line_geom_def by (rule exI [of _ 6]) simp

interpretation fetch_mem: sync_fetch_target 64 "mem_fetch cyc pe 64" mem_byte "\<lambda>_. 0" "mem_serves c" "\<lambda>a. unat a + 64 \<le> unat (c_size c)" for cyc pe c
proof unfold_locales
  fix p p' :: "memory option" and buf bs :: "byte list" and a :: u32 and lat rs st
  assume p: "mem_serves c p" "length buf = 64"
  show "mem_serves c p' \<and> mem_byte p' = (mem_byte p :: u32 \<Rightarrow> byte) \<and> length bs = 64 \<and> st \<noteq> IO_REQ_DENIED" if "mem_fetch cyc pe 64 p a buf = (p', bs, lat, rs, st)"
    using mem_fetch_laws(1) [OF geom_64 p that] by simp
  show "bs = line_bytes 64 (mem_byte p) a" if "mem_fetch cyc pe 64 p a buf = (p', bs, lat, rs, IO_REQ_DONE)" "unat a mod 64 = 0" "rs \<noteq> IO_RESP_INVALID"
    by (rule mem_fetch_laws(3) [OF geom_64 p that])
  show "0 = a" if "mem_fetch cyc pe 64 p a buf = (p', bs, lat, rs, IO_REQ_GRANTED)" using mem_fetch_laws(1) [OF geom_64 p that] by simp
  show "st = IO_REQ_DONE \<and> rs \<noteq> IO_RESP_INVALID" if "unat a + 64 \<le> unat (c_size c)" "mem_fetch cyc pe 64 p a buf = (p', bs, lat, rs, st)"
    using mem_fetch_laws(1,2) [OF geom_64 p that(2)] that(1) by simp
qed (rule geom_64)


definition fetch_demo_cfg :: mem_config where
  "fetch_demo_cfg = demo_cfg\<lparr>c_size := 256\<rparr>"

definition fetch_demo_sys :: "(u32, memory option) fsys" where
  "fetch_demo_sys = \<lparr>fs_pf = \<lparr>pf_data = replicate 64 0, pf_start = - 1, pf_insn = None, pf_callback = None, pf_stall_opcode = 0, pf_current_pc = 0\<rparr>, fs_ic = fs_ic demo_fsys,
     fs_down = Some (demo_mem\<lparr>cfg := fetch_demo_cfg, mem_data := replicate 256 19, memcheck_enabled := False\<rparr>), fs_retain = 0, fs_log = []\<rparr>"


end
