(* ===== verification/Fetch_Errors.thy ===== *)
theory Fetch_Errors
  imports Prefetch_Fetch
begin

unbundle bit_operations_syntax

text \<open>
  Where the fetch stage does not give the opcode of the memory: a page that is allocated again where a deleted one was, a line whose fill failed, the first bytes of the address space after
  a flush, and lines 4 GB apart on a 64-bit core. Concrete runs of the theorems on the fetch stage.
\<close>

section \<open>Pages that are allocated again\<close>

lemma get_insn_flushed:
  assumes v: "unat (v :: u32) + 512 < 2 ^ 32" and "ic_base ic = - 512" "ic_pages ic = Map.empty"
  shows "\<exists>ic'. get_insn v ic = Some (ic', (ic_alloc ic (ic_next ic), unat (take_bit 9 v) div 2)) \<and>
    slot ic' (ic_alloc ic (ic_next ic), unat (take_bit 9 v) div 2) = Some (insn_init (push_bit 9 (drop_bit 9 v) + 2 * of_nat (unat (take_bit 9 v) div 2)))"
proof -
  let ?p = "ic_alloc ic (ic_next ic)" and ?i = "unat (take_bit 9 v) div 2" and ?b = "push_bit 9 (drop_bit 9 v)"
  have "v - ?b = take_bit 9 v" using bits_ident [of 9 v] by (metis add_diff_cancel_left')
  then have i: "unat (drop_bit 1 (v - ?b)) = ?i" by (simp only: unat_half)
  have "unat (take_bit 9 v) < 512" using take_bit_nat_less_exp [of 9 "unat v"] by (simp add: unsigned_take_bit_eq)
  then have l: "?i < 256" by simp
  obtain ic1 where p: "page_get v ic = (ic1, ?p)" "ic_heap ic1 ?p = Some (map (\<lambda>i. insn_init (?b + 2 * of_nat i)) [0..<256])"
    using assms(3) by (simp add: page_get_def Let_def)
  let ?ic = "ic1\<lparr>ic_cur := Some ?p, ic_base := ?b\<rparr>"
  have x: "page_index v ?ic = ?i" unfolding page_index_def using i by simp
  have "get_insn v ic = get_insn_from_cache v ic" using index_flushed [OF v assms(2)] by (simp add: get_insn_def)
  also have "\<dots> = Some (?ic, (?p, ?i))" using p x by (simp add: get_insn_from_cache_def Let_def current_slot_def)
  finally show ?thesis using p(2) l by (intro exI [of _ ?ic]) (simp add: slot_def)
qed

text \<open>
  C39: the prefetch buffer keeps its pointer to the last instruction that it waited for when the caches are flushed, and the pages of instructions are deleted. When the host then gives
  the page of the same address its old place, the fetch of that instruction takes it for the one already fetched: it returns true without a request, whatever the memory holds now, and
  the opcode is what was in the new page, which nobody has initialised.
\<close>

theorem reused_page_not_fetched:
  assumes "pf_insn (fs_pf s) = Some (ic_alloc (fs_ic s) (ic_next (fs_ic s)), unat (take_bit 9 a) div 2)" "pc_ok n a" "line_geom n"
  shows "\<exists>s' r x. fetch n port a (fetch_flush s) = Some (s', True) \<and> fs_down s' = fs_down s \<and> fs_log s' = fs_log (fetch_flush s) \<and>
    pf_insn (fs_pf s) = Some r \<and> slot (fs_ic s') r = Some x \<and> is_opcode x = is_opcode (insn_init a)"
proof -
  let ?ic = "fs_ic (fetch_flush s)" and ?r = "(ic_alloc (fs_ic s) (ic_next (fs_ic s)), unat (take_bit 9 a) div 2)"
  have ic: "ic_base ?ic = - 512" "ic_pages ?ic = Map.empty" "ic_alloc ?ic = ic_alloc (fs_ic s)" "ic_next ?ic = ic_next (fs_ic s)"
    by (simp_all add: fetch_flush_def fs_emit_def ic_flush_def mode_flush_def)
  obtain ic' x where g: "get_insn a ?ic = Some (ic', ?r)" "slot ic' ?r = Some x" "is_opcode x = is_opcode (insn_init a)"
    using get_insn_flushed [OF _ ic(1,2), of a] assms(2) unfolding ic(3,4) by (auto simp: pc_ok_def insn_init_def)
  have "unat (a + 1) = unat a + 1" using unat_plus_small [of a 1] assms(2) by (simp add: pc_ok_def)
  moreover have "unat (of_nat n - 4 :: u32) = n - 4" using line_geom_bounds [OF assms(3)] by (subst unat_sub) (simp_all add: word_le_nat_alt)
  ultimately have "\<not> a + 1 \<le> of_nat n - 4" using assms(2) line_geom_bounds(1) [OF assms(3)] unfolding word_le_nat_alt pc_ok_def by linarith
  moreover have pf: "pf_start (fs_pf (fetch_flush s)) = - 1" "pf_insn (fs_pf (fetch_flush s)) = Some ?r" "fs_down (fetch_flush s) = fs_down s"
    using assms(1) by (simp_all add: fetch_flush_def fs_emit_def pf_flush_def)
  ultimately have "fetch n port a (fetch_flush s) = Some (upd_pf (\<lambda>x. x\<lparr>pf_current_pc := a\<rparr>) ((fetch_flush s)\<lparr>fs_ic := ic'\<rparr>), True)"
    using g(1) by (simp add: fetch_def fetch_refill_def Let_def)
  then show ?thesis using g(2,3) pf assms(1) by auto
qed

section \<open>Lines whose fill failed\<close>

text \<open>
  A fill sets the address of the line before the request. When the memory reports an error the fetch raises a fault and returns false, but the next fetch of the same instruction
  finds its address in the line: it returns true, without a request and without a fault, with the bytes that were in the buffer before.
\<close>

theorem failed_line_used:
  assumes g: "line_geom n" and i: "get_insn (a :: u32) (fs_ic s) = Some (ic, r)" "get_insn a ic = Some (ic, r)" "slot ic r = Some x"
    and miss: "\<not> a - pf_start (fs_pf s) \<le> of_nat n - 4" "sint (a - pf_start (fs_pf s)) < 0 \<or> sint (a - pf_start (fs_pf s)) \<ge> int n" "pf_insn (fs_pf s) \<noteq> Some r"
    and f: "port (fs_down s) (align_down n a) (pf_data (fs_pf s)) = (d, pf_data (fs_pf s), lat, IO_RESP_INVALID, IO_REQ_DONE)" and fit: "unat a mod n + 4 \<le> n"
  shows "\<exists>s1 s2. fetch n port a s = Some (s1, False) \<and> fs_log s1 = fs_log s @ [FE_Fault] \<and> fetch n port a s1 = Some (s2, True) \<and> fs_log s2 = fs_log s1 \<and> fs_down s2 = fs_down s1 \<and>
    slot (fs_ic s2) r = Some (x\<lparr>is_opcode := load_opcode (pf_data (fs_pf s)) (unat a mod n)\<rparr>)"
proof -
  let ?s1 = "fs_emit [FE_Fault] (upd_pf (\<lambda>x. x\<lparr>pf_current_pc := a, pf_insn := None, pf_start := align_down n a\<rparr>) (s\<lparr>fs_ic := ic, fs_down := d\<rparr>))"
  let ?s2 = "?s1\<lparr>fs_ic := set_opcode r (load_opcode (pf_data (fs_pf s)) (unat a mod n)) ic\<rparr>"
  have "fetch n port a s = Some (?s1, False)"
    using i(1) miss f by (simp add: fetch_def fetch_refill_def pf_fill_def send_fetch_req_def Let_def fs_emit_def)
  moreover have "unat (of_nat n - 4 :: u32) = n - 4" using line_geom_bounds [OF g] by (subst unat_sub) (simp_all add: word_le_nat_alt)
  then have "a - align_down n a \<le> of_nat n - 4" using align_down_offset [OF g, of a] fit by (simp add: word_le_nat_alt)
  then have "fetch n port a ?s1 = Some (?s2, True)" using i(2) align_down_offset [OF g, of a] by (simp add: fetch_def fs_emit_def Let_def)
  ultimately show ?thesis using i(3) by (intro exI [of _ ?s1] exI [of _ ?s2]) (simp add: fs_emit_def slot_set_opcode)
qed

section \<open>Other lines that are taken for the right one\<close>

text \<open>After a flush the first addresses hit the empty buffer: \<open>- 1\<close> is one less than the address 0.\<close>

lemma flushed_line_hit:
  assumes "unat (a :: u32) + 5 \<le> n" "line_geom n" "pf_start (fs_pf s) = - 1" "get_insn a (fs_ic s) = Some (ic, r)"
  shows "fetch n port a s = Some (s\<lparr>fs_ic := set_opcode r (load_opcode (pf_data (fs_pf s)) (unat a + 1)) ic\<rparr>, True)"
proof -
  have "unat (of_nat n - 4 :: u32) = n - 4" using line_geom_bounds [OF assms(2)] by (subst unat_sub) (simp_all add: word_le_nat_alt)
  moreover have "unat (a + 1) = unat a + 1" using unat_plus_small [of a 1] assms(1) line_geom_bounds(2) [OF assms(2)] by simp
  ultimately have "a + 1 \<le> of_nat n - 4" using assms(1) unfolding word_le_nat_alt by linarith
  then show ?thesis using assms(3,4) \<open>unat (a + 1) = unat a + 1\<close> by (simp add: fetch_def Let_def)
qed

text \<open>The index is a 32-bit integer: on a 64-bit core an address hits the line of the address 4 GB below.\<close>

lemma far_line_hit:
  fixes a :: u64
  assumes "(ucast (a - pf_start (fs_pf s)) :: u32) \<le> of_nat n - 4" "get_insn (a + 2 ^ 32) (fs_ic s) = Some (ic, r)"
  shows "fetch n port (a + 2 ^ 32) s = Some (s\<lparr>fs_ic := set_opcode r (load_opcode (pf_data (fs_pf s)) (unat (ucast (a - pf_start (fs_pf s)) :: u32))) ic\<rparr>, True)"
proof -
  let ?d = "a - pf_start (fs_pf s)"
  have "unat (?d + 2 ^ 32) mod 2 ^ 32 = unat ?d mod 2 ^ 32" by (simp add: unat_word_ariths mod_mod_cancel)
  then have "(ucast (?d + 2 ^ 32) :: u32) = ucast ?d" by (simp add: word_unat_eq_iff unsigned_ucast_eq take_bit_eq_mod)
  moreover have "a + 2 ^ 32 - pf_start (fs_pf s) = ?d + 2 ^ 32" by simp
  ultimately have "(ucast (a + 2 ^ 32 - pf_start (fs_pf s)) :: u32) = ucast ?d" by (simp only:)
  then show ?thesis using assms by (simp add: fetch_def Let_def)
qed

section \<open>Examples\<close>

text \<open>The host gives every page the same place; the buffer has last waited for the instruction at 6.\<close>

theorem reused_page_not_fetched_witness:
  "\<exists>s s'. pf_insn (fs_pf s) = Some (7, 3) \<and> fetch 4 (demo_fetch IO_REQ_DONE) 6 (fetch_flush s) = Some (s', True) \<and> fs_down s' = fs_down s"
proof -
  let ?s = "demo_fsys\<lparr>fs_ic := (fs_ic demo_fsys)\<lparr>ic_alloc := \<lambda>_. 7\<rparr>, fs_pf := (fs_pf demo_fsys)\<lparr>pf_insn := Some (7, 3)\<rparr>\<rparr>"
  have "unat (take_bit 9 (6 :: u32)) div 2 = 3" by code_simp
  moreover have "pc_ok 4 6" "line_geom 4" by (auto simp: pc_ok_def line_geom_def intro!: exI [of _ 2])
  moreover have s: "pf_insn (fs_pf ?s) = Some (7, 3)" "ic_alloc (fs_ic ?s) (ic_next (fs_ic ?s)) = 7" by (simp_all add: demo_fsys_def)
  ultimately obtain s' where "fetch 4 (demo_fetch IO_REQ_DONE) 6 (fetch_flush ?s) = Some (s', True)" "fs_down s' = fs_down ?s"
    using reused_page_not_fetched [of ?s 6 4 "demo_fetch IO_REQ_DONE"] by (simp only:) blast
  then show ?thesis using s(1) by blast
qed

theorem failed_line_used_witness:
  "\<exists>s1 s2. fetch 4 (\<lambda>d a buf. (d, buf, 0, IO_RESP_INVALID, IO_REQ_DONE)) 8 demo_fsys = Some (s1, False) \<and>
     fetch 4 (\<lambda>d a buf. (d, buf, 0, IO_RESP_INVALID, IO_REQ_DONE)) 8 s1 = Some (s2, True) \<and> fs_log s2 = [FE_Fault]"
proof -
  have g: "line_geom 4" unfolding line_geom_def by (rule exI [of _ 2]) simp
  have "ic_ok (fs_ic demo_fsys)" by (simp add: demo_fsys_def ic_ok_def)
  moreover have "pc_ok 4 8" by (simp add: pc_ok_def)
  ultimately obtain ic r x where i: "get_insn 8 (fs_ic demo_fsys) = Some (ic, r)" "cached 8 ic r x" using get_insn_ok by blast
  have m: "\<not> (8 :: u32) - pf_start (fs_pf demo_fsys) \<le> of_nat 4 - 4" "sint ((8 :: u32) - pf_start (fs_pf demo_fsys)) < 0 \<or> sint ((8 :: u32) - pf_start (fs_pf demo_fsys)) \<ge> int 4"
    "pf_insn (fs_pf demo_fsys) \<noteq> Some r" "unat (8 :: u32) mod 4 + 4 \<le> 4" by (simp_all add: demo_fsys_def)
  have l: "fs_log demo_fsys = []" by (simp add: demo_fsys_def)
  have x: "slot ic r = Some x" using i(2) by (simp add: cached_def)
  from failed_line_used [OF g i(1) cached_get [OF i(2)] x m(1-3), of "\<lambda>d a buf. (d, buf, 0, IO_RESP_INVALID, IO_REQ_DONE)" 0 0] m(4)
  show ?thesis by (auto simp: l demo_fsys_def [THEN arg_cong [of _ _ fs_down]])
qed

end
