(* ===== verification/Isa_Pulp_Lib.thy ===== *)
theory Isa_Pulp_Lib
  imports Isa_Rv32i
begin

unbundle bit_operations_syntax

text \<open>
  The functions of \<^verbatim>\<open>src/models/cpu/iss/include/isa_lib/int.h\<close> that the PULP instructions call, for 32-bit registers. Signed operations are written on words; a signed overflow, which
  C++ leaves undefined, wraps as the compilers do it. A shift by 32 or more is undefined as well: where an operand of the instruction can reach it the function is partial.
\<close>

type_synonym u16 = "16 word"

section \<open>Multiplication with accumulation, rounding and normalization\<close>

definition lib_MAC :: "u32 \<Rightarrow> u32 \<Rightarrow> u32 \<Rightarrow> u32" where "lib_MAC a b c = a + b * c"
definition lib_MSU :: "u32 \<Rightarrow> u32 \<Rightarrow> u32 \<Rightarrow> u32" where "lib_MSU a b c = a - b * c"
definition lib_MULS :: "u32 \<Rightarrow> u32 \<Rightarrow> u32" where "lib_MULS a b = a * b"

text \<open>\<open>SL\<close>, \<open>SH\<close>, \<open>ZL\<close> and \<open>ZH\<close>: the halves of a register, sign- and zero-extended in the arithmetic that follows.\<close>

definition SL :: "u32 \<Rightarrow> u32" where "SL v = scast (ucast v :: u16)"
definition SH :: "u32 \<Rightarrow> u32" where "SH v = scast (ucast (drop_bit 16 v) :: u16)"
definition ZL :: "u32 \<Rightarrow> u32" where "ZL v = ucast (ucast v :: u16)"
definition ZH :: "u32 \<Rightarrow> u32" where "ZH v = ucast (ucast (drop_bit 16 v) :: u16)"

definition lib_MUL_SL_SL :: "u32 \<Rightarrow> u32 \<Rightarrow> u32" where "lib_MUL_SL_SL b c = SL b * SL c"
definition lib_MUL_SH_SH :: "u32 \<Rightarrow> u32 \<Rightarrow> u32" where "lib_MUL_SH_SH b c = SH b * SH c"
definition lib_MUL_ZL_ZL :: "u32 \<Rightarrow> u32 \<Rightarrow> u32" where "lib_MUL_ZL_ZL b c = ZL b * ZL c"
definition lib_MUL_ZH_ZH :: "u32 \<Rightarrow> u32 \<Rightarrow> u32" where "lib_MUL_ZH_ZH b c = ZH b * ZH c"

definition lib_MAC_SL_SL :: "u32 \<Rightarrow> u32 \<Rightarrow> u32 \<Rightarrow> u32" where "lib_MAC_SL_SL a b c = a + SL b * SL c"
definition lib_MAC_SH_SH :: "u32 \<Rightarrow> u32 \<Rightarrow> u32 \<Rightarrow> u32" where "lib_MAC_SH_SH a b c = a + SH b * SH c"
definition lib_MAC_ZL_ZL :: "u32 \<Rightarrow> u32 \<Rightarrow> u32 \<Rightarrow> u32" where "lib_MAC_ZL_ZL a b c = a + ZL b * ZL c"
definition lib_MAC_ZH_ZH :: "u32 \<Rightarrow> u32 \<Rightarrow> u32 \<Rightarrow> u32" where "lib_MAC_ZH_ZH a b c = a + ZH b * ZH c"

definition lib_MUL_SL_SL_NR :: "u32 \<Rightarrow> u32 \<Rightarrow> u32 \<Rightarrow> u32" where "lib_MUL_SL_SL_NR b c shift = signed_drop_bit (unat shift) (SL b * SL c)"
definition lib_MUL_SH_SH_NR :: "u32 \<Rightarrow> u32 \<Rightarrow> u32 \<Rightarrow> u32" where "lib_MUL_SH_SH_NR b c shift = signed_drop_bit (unat shift) (SH b * SH c)"
definition lib_MUL_ZL_ZL_NR :: "u32 \<Rightarrow> u32 \<Rightarrow> u32 \<Rightarrow> u32" where "lib_MUL_ZL_ZL_NR b c shift = drop_bit (unat shift) (ZL b * ZL c)"
definition lib_MUL_ZH_ZH_NR :: "u32 \<Rightarrow> u32 \<Rightarrow> u32 \<Rightarrow> u32" where "lib_MUL_ZH_ZH_NR b c shift = drop_bit (unat shift) (ZH b * ZH c)"

definition lib_MAC_SL_SL_NR :: "u32 \<Rightarrow> u32 \<Rightarrow> u32 \<Rightarrow> u32 \<Rightarrow> u32" where "lib_MAC_SL_SL_NR a b c shift = signed_drop_bit (unat shift) (a + SL b * SL c)"
definition lib_MAC_SH_SH_NR :: "u32 \<Rightarrow> u32 \<Rightarrow> u32 \<Rightarrow> u32 \<Rightarrow> u32" where "lib_MAC_SH_SH_NR a b c shift = signed_drop_bit (unat shift) (a + SH b * SH c)"
definition lib_MAC_ZL_ZL_NR :: "u32 \<Rightarrow> u32 \<Rightarrow> u32 \<Rightarrow> u32 \<Rightarrow> u32" where "lib_MAC_ZL_ZL_NR a b c shift = drop_bit (unat shift) (a + ZL b * ZL c)"
definition lib_MAC_ZH_ZH_NR :: "u32 \<Rightarrow> u32 \<Rightarrow> u32 \<Rightarrow> u32 \<Rightarrow> u32" where "lib_MAC_ZH_ZH_NR a b c shift = drop_bit (unat shift) (a + ZH b * ZH c)"

text \<open>
  The rounding constant is a 64-bit one, \<^verbatim>\<open>1ULL\<close>, and the sum is made in 64 bits, on the sign- or zero-extended result; but in the multiplications of unsigned halves it is an \<^verbatim>\<open>int\<close>,
  and the sum is made in 32 bits.
\<close>

definition round_signed :: "u32 \<Rightarrow> u32 \<Rightarrow> u32" where
  "round_signed result shift =
     (if shift > 0 then ucast (drop_bit (unat shift) ((scast result :: u64) + push_bit (unat (shift - 1)) 1)) else result)"

definition round_unsigned :: "u32 \<Rightarrow> u32 \<Rightarrow> u32" where
  "round_unsigned result shift =
     (if shift > 0 then ucast (drop_bit (unat shift) ((ucast result :: u64) + push_bit (unat (shift - 1)) 1)) else result)"

definition round_unsigned32 :: "u32 \<Rightarrow> u32 \<Rightarrow> u32" where
  "round_unsigned32 result shift =
     (if shift > 0 then drop_bit (unat shift) (result + push_bit (unat (shift - 1)) 1) else result)"

definition lib_MUL_SL_SL_NR_R :: "u32 \<Rightarrow> u32 \<Rightarrow> u32 \<Rightarrow> u32" where "lib_MUL_SL_SL_NR_R b c shift = round_signed (SL b * SL c) shift"
definition lib_MUL_SH_SH_NR_R :: "u32 \<Rightarrow> u32 \<Rightarrow> u32 \<Rightarrow> u32" where "lib_MUL_SH_SH_NR_R b c shift = round_signed (SH b * SH c) shift"
definition lib_MUL_ZL_ZL_NR_R :: "u32 \<Rightarrow> u32 \<Rightarrow> u32 \<Rightarrow> u32" where "lib_MUL_ZL_ZL_NR_R b c shift = round_unsigned32 (ZL b * ZL c) shift"
definition lib_MUL_ZH_ZH_NR_R :: "u32 \<Rightarrow> u32 \<Rightarrow> u32 \<Rightarrow> u32" where "lib_MUL_ZH_ZH_NR_R b c shift = round_unsigned32 (ZH b * ZH c) shift"

definition lib_MAC_SL_SL_NR_R :: "u32 \<Rightarrow> u32 \<Rightarrow> u32 \<Rightarrow> u32 \<Rightarrow> u32" where "lib_MAC_SL_SL_NR_R a b c shift = round_signed (a + SL b * SL c) shift"
definition lib_MAC_SH_SH_NR_R :: "u32 \<Rightarrow> u32 \<Rightarrow> u32 \<Rightarrow> u32 \<Rightarrow> u32" where "lib_MAC_SH_SH_NR_R a b c shift = round_signed (a + SH b * SH c) shift"
definition lib_MAC_ZL_ZL_NR_R :: "u32 \<Rightarrow> u32 \<Rightarrow> u32 \<Rightarrow> u32 \<Rightarrow> u32" where "lib_MAC_ZL_ZL_NR_R a b c shift = round_unsigned (a + ZL b * ZL c) shift"
definition lib_MAC_ZH_ZH_NR_R :: "u32 \<Rightarrow> u32 \<Rightarrow> u32 \<Rightarrow> u32 \<Rightarrow> u32" where "lib_MAC_ZH_ZH_NR_R a b c shift = round_unsigned (a + ZH b * ZH c) shift"

section \<open>Addition with rounding and normalization\<close>

definition lib_ADD_NR :: "u32 \<Rightarrow> u32 \<Rightarrow> u32 \<Rightarrow> u32" where "lib_ADD_NR a b shift = signed_drop_bit (unat (shift AND 0x1f)) (a + b)"
definition lib_ADD_NRU :: "u32 \<Rightarrow> u32 \<Rightarrow> u32 \<Rightarrow> u32" where "lib_ADD_NRU a b shift = drop_bit (unat (shift AND 0x1f)) (a + b)"
definition lib_SUB_NR :: "u32 \<Rightarrow> u32 \<Rightarrow> u32 \<Rightarrow> u32" where "lib_SUB_NR a b shift = signed_drop_bit (unat (shift AND 0x1f)) (a - b)"
definition lib_SUB_NRU :: "u32 \<Rightarrow> u32 \<Rightarrow> u32 \<Rightarrow> u32" where "lib_SUB_NRU a b shift = drop_bit (unat (shift AND 0x1f)) (a - b)"

definition lib_ADD_NR_R :: "u32 \<Rightarrow> u32 \<Rightarrow> u32 \<Rightarrow> u32" where
  "lib_ADD_NR_R a b shift =
     (let shift = shift AND 0x1f
      in if shift > 0 then signed_drop_bit (unat shift) (ucast ((ucast (a + b) :: u64) + push_bit (unat (shift - 1)) 1)) else a + b)"

definition lib_ADD_NR_RU :: "u32 \<Rightarrow> u32 \<Rightarrow> u32 \<Rightarrow> u32" where
  "lib_ADD_NR_RU a b shift =
     (let shift = shift AND 0x1f
      in if shift > 0 then drop_bit (unat shift) (ucast ((ucast (a + b) :: u64) + push_bit (unat (shift - 1)) 1)) else a + b)"

definition lib_SUB_NR_R :: "u32 \<Rightarrow> u32 \<Rightarrow> u32 \<Rightarrow> u32" where
  "lib_SUB_NR_R a b shift =
     (let shift = shift AND 0x1f
      in if shift > 0 then signed_drop_bit (unat shift) (ucast ((ucast (a - b) :: u64) + push_bit (unat (shift - 1)) 1)) else a - b)"

definition lib_SUB_NR_RU :: "u32 \<Rightarrow> u32 \<Rightarrow> u32 \<Rightarrow> u32" where
  "lib_SUB_NR_RU a b shift =
     (let shift = shift AND 0x1f
      in if shift > 0 then drop_bit (unat shift) (ucast ((ucast (a - b) :: u64) + push_bit (unat (shift - 1)) 1)) else a - b)"

section \<open>Minimum, maximum, average, clipping\<close>

definition lib_MINU :: "u32 \<Rightarrow> u32 \<Rightarrow> u32" where "lib_MINU a b = (if a < b then a else b)"
definition lib_MINS :: "u32 \<Rightarrow> u32 \<Rightarrow> u32" where "lib_MINS a b = (if sint a < sint b then a else b)"
definition lib_MAXU :: "u32 \<Rightarrow> u32 \<Rightarrow> u32" where "lib_MAXU a b = (if a > b then a else b)"
definition lib_MAXS :: "u32 \<Rightarrow> u32 \<Rightarrow> u32" where "lib_MAXS a b = (if sint a > sint b then a else b)"
definition lib_ABS :: "u32 \<Rightarrow> u32" where "lib_ABS a = (if sint a \<ge> 0 then a else - a)"
definition lib_AVGU :: "u32 \<Rightarrow> u32 \<Rightarrow> u32" where "lib_AVGU a b = drop_bit 1 (a + b)"

definition lib_CLIP :: "u32 \<Rightarrow> u32 \<Rightarrow> u32 \<Rightarrow> u32" where
  "lib_CLIP a low high = (if sint a < sint low then low else if sint a > sint high then high else a)"

definition lib_CLIPU :: "u32 \<Rightarrow> u32 \<Rightarrow> u32" where
  "lib_CLIPU a high = (if sint a > sint high then high else if sint a \<le> 0 then 0 else a)"

section \<open>Bits\<close>

text \<open>\<open>c_ffs\<close>, \<open>popcount\<close> and \<open>clrsb\<close> are functions of the C library and of the compiler.\<close>

definition c_ffs :: "u32 \<Rightarrow> nat" where
  "c_ffs a = (case find (bit a) [0..<32] of None \<Rightarrow> 0 | Some i \<Rightarrow> Suc i)"

definition popcount :: "u32 \<Rightarrow> nat" where
  "popcount a = length (filter (bit a) [0..<32])"

definition clrsb :: "u32 \<Rightarrow> nat" where
  "clrsb a = length (takeWhile (\<lambda>i. bit a i = bit a 31) (rev [0..<31]))"

definition lib_ROR :: "u32 \<Rightarrow> u32 \<Rightarrow> u32 option" where
  "lib_ROR a b = (if 0 < unat b \<and> unat b < 32 then Some (drop_bit (unat b) a OR push_bit (32 - unat b) a) else None)"

definition lib_FF1 :: "u32 \<Rightarrow> u32" where
  "lib_FF1 a = (if c_ffs a = 0 then 32 else of_nat (c_ffs a - 1))"

definition lib_FL1 :: "u32 \<Rightarrow> u32" where
  "lib_FL1 t =
     (let t1 = drop_bit 1 (t AND 0xaaaaaaaa) OR push_bit 1 (t AND 0x55555555);
          t2 = drop_bit 2 (t1 AND 0xcccccccc) OR push_bit 2 (t1 AND 0x33333333);
          t3 = drop_bit 4 (t2 AND 0xf0f0f0f0) OR push_bit 4 (t2 AND 0x0f0f0f0f);
          t4 = drop_bit 8 (t3 AND 0xff00ff00) OR push_bit 8 (t3 AND 0x00ff00ff);
          n = c_ffs (drop_bit 16 t4 OR push_bit 16 t4)
      in if n = 0 then 32 else of_nat (32 - n))"

definition lib_CNT :: "u32 \<Rightarrow> u32" where "lib_CNT t = of_nat (popcount t)"

definition lib_CLB :: "u32 \<Rightarrow> u32" where "lib_CLB t = (if t = 0 then 0 else of_nat (clrsb t))"

definition lib_BSET :: "u32 \<Rightarrow> u32 \<Rightarrow> u32" where "lib_BSET v m = v OR m"
definition lib_BCLR :: "u32 \<Rightarrow> u32 \<Rightarrow> u32" where "lib_BCLR v m = v AND NOT m"

definition getSignedField :: "u32 \<Rightarrow> nat \<Rightarrow> nat \<Rightarrow> u32" where
  "getSignedField v shift bits = int_get_signed_value (getField v shift bits) bits"

definition lib_BEXTRACT :: "u32 \<Rightarrow> u32 \<Rightarrow> u32 \<Rightarrow> u32" where
  "lib_BEXTRACT v bits shift =
     (let bits = (if shift + bits > 32 then 32 - shift else bits) in getSignedField v (unat shift) (unat bits))"

definition lib_BEXTRACTU :: "u32 \<Rightarrow> u32 \<Rightarrow> u32 \<Rightarrow> u32" where
  "lib_BEXTRACTU v m shift = drop_bit (unat shift) (v AND m)"

definition lib_BINSERT :: "u32 \<Rightarrow> u32 \<Rightarrow> u32 \<Rightarrow> u32 \<Rightarrow> u32" where
  "lib_BINSERT a b m shift = (b AND NOT m) OR (push_bit (unat shift) a AND m)"

section \<open>Vectors\<close>

text \<open>The elements of a register, from the low end: what a pointer to it, cast to the type of the elements, points to on a little-endian host.\<close>

definition lanes :: "u32 \<Rightarrow> 'e::len word list" where
  "lanes a = map (\<lambda>i. ucast (drop_bit (i * LENGTH('e)) a)) [0..<32 div LENGTH('e)]"

definition of_lanes :: "'e::len word list \<Rightarrow> u32" where
  "of_lanes xs = foldr (\<lambda>x acc. ucast x OR push_bit LENGTH('e) acc) xs 0"

definition VEC_OP :: "('e::len word \<Rightarrow> 'e word \<Rightarrow> 'e word) \<Rightarrow> u32 \<Rightarrow> u32 \<Rightarrow> u32" where
  "VEC_OP f a b = of_lanes (map2 f (lanes a) (lanes b))"

definition VEC_OP_SC :: "('e::len word \<Rightarrow> 'e word \<Rightarrow> 'e word) \<Rightarrow> u32 \<Rightarrow> 'e word \<Rightarrow> u32" where
  "VEC_OP_SC f a b = of_lanes (map (\<lambda>x. f x b) (lanes a))"

datatype pv_op = PV_ADD | PV_SUB | PV_AVG | PV_AVGU | PV_MIN | PV_MINU | PV_MAX | PV_MAXU | PV_SRL | PV_SRA | PV_SLL | PV_OR | PV_XOR | PV_AND
  | PV_CMPEQ | PV_CMPNE | PV_CMPGT | PV_CMPGE | PV_CMPLT | PV_CMPLE | PV_CMPGTU | PV_CMPGEU | PV_CMPLTU | PV_CMPLEU

definition vec_flag :: "bool \<Rightarrow> 'e::len word" where "vec_flag b = (if b then - 1 else 0)"

definition shift_mask :: "'e::len word \<Rightarrow> nat" where "shift_mask b = unat (b AND of_nat (LENGTH('e) - 1))"

text \<open>The expression on the elements; the shift amounts are masked with \<^verbatim>\<open>0x7\<close> or \<^verbatim>\<open>0xF\<close>.\<close>

fun vec_expr :: "pv_op \<Rightarrow> 'e::len word \<Rightarrow> 'e word \<Rightarrow> 'e word" where
  "vec_expr PV_ADD a b = a + b"
| "vec_expr PV_SUB a b = a - b"
| "vec_expr PV_AVG a b = signed_drop_bit 1 (a + b)"
| "vec_expr PV_AVGU a b = drop_bit 1 (a + b)"
| "vec_expr PV_MIN a b = (if sint a > sint b then b else a)"
| "vec_expr PV_MINU a b = (if a > b then b else a)"
| "vec_expr PV_MAX a b = (if sint a > sint b then a else b)"
| "vec_expr PV_MAXU a b = (if a > b then a else b)"
| "vec_expr PV_SRL a b = drop_bit (shift_mask b) a"
| "vec_expr PV_SRA a b = signed_drop_bit (shift_mask b) a"
| "vec_expr PV_SLL a b = push_bit (shift_mask b) a"
| "vec_expr PV_OR a b = a OR b"
| "vec_expr PV_XOR a b = a XOR b"
| "vec_expr PV_AND a b = a AND b"
| "vec_expr PV_CMPEQ a b = vec_flag (a = b)"
| "vec_expr PV_CMPNE a b = vec_flag (a \<noteq> b)"
| "vec_expr PV_CMPGT a b = vec_flag (sint a > sint b)"
| "vec_expr PV_CMPGE a b = vec_flag (sint a \<ge> sint b)"
| "vec_expr PV_CMPLT a b = vec_flag (sint a < sint b)"
| "vec_expr PV_CMPLE a b = vec_flag (sint a \<le> sint b)"
| "vec_expr PV_CMPGTU a b = vec_flag (a > b)"
| "vec_expr PV_CMPGEU a b = vec_flag (a \<ge> b)"
| "vec_expr PV_CMPLTU a b = vec_flag (a < b)"
| "vec_expr PV_CMPLEU a b = vec_flag (a \<le> b)"

text \<open>\<^verbatim>\<open>lib_VEC_<op>_int16_t_to_int32_t\<close> and its companions; \<open>half\<close> selects the elements of 16 bits.\<close>

definition lib_VEC :: "pv_op \<Rightarrow> bool \<Rightarrow> u32 \<Rightarrow> u32 \<Rightarrow> u32" where
  "lib_VEC opr half a b = (if half then VEC_OP (vec_expr opr :: u16 \<Rightarrow> u16 \<Rightarrow> u16) a b else VEC_OP (vec_expr opr :: byte \<Rightarrow> byte \<Rightarrow> byte) a b)"

definition lib_VEC_SC :: "pv_op \<Rightarrow> bool \<Rightarrow> u32 \<Rightarrow> u32 \<Rightarrow> u32" where
  "lib_VEC_SC opr half a b = (if half then VEC_OP_SC (vec_expr opr) a (ucast b :: u16) else VEC_OP_SC (vec_expr opr) a (ucast b :: byte))"

definition vec_abs :: "'e::len word \<Rightarrow> 'e word" where "vec_abs x = (if sint x > 0 then x else - x)"

definition lib_VEC_ABS :: "bool \<Rightarrow> u32 \<Rightarrow> u32" where
  "lib_VEC_ABS half a = (if half then of_lanes (map vec_abs (lanes a :: u16 list)) else of_lanes (map vec_abs (lanes a :: byte list)))"

text \<open>Dot products: the extensions of the elements of the two operands, and the accumulator.\<close>

definition VEC_SDOT :: "('e::len word \<Rightarrow> u32) \<Rightarrow> ('e word \<Rightarrow> u32) \<Rightarrow> u32 \<Rightarrow> u32 \<Rightarrow> u32 \<Rightarrow> u32" where
  "VEC_SDOT ea eb out a b = foldl (+) out (map2 (\<lambda>x y. ea x * eb y) (lanes a) (lanes b))"

definition VEC_SDOT_SC :: "('e::len word \<Rightarrow> u32) \<Rightarrow> ('e word \<Rightarrow> u32) \<Rightarrow> u32 \<Rightarrow> u32 \<Rightarrow> u32 \<Rightarrow> u32" where
  "VEC_SDOT_SC ea eb out a b = foldl (+) out (map (\<lambda>x. ea x * eb (lanes b ! 0)) (lanes a))"

datatype dot_op = DOTSP | DOTUP | DOTUSP

definition ext_a :: "dot_op \<Rightarrow> 'e::len word \<Rightarrow> u32" where "ext_a d = (if d = DOTSP then scast else ucast)"
definition ext_b :: "dot_op \<Rightarrow> 'e::len word \<Rightarrow> u32" where "ext_b d = (if d = DOTUP then ucast else scast)"

definition lib_VEC_SDOT :: "dot_op \<Rightarrow> bool \<Rightarrow> u32 \<Rightarrow> u32 \<Rightarrow> u32 \<Rightarrow> u32" where
  "lib_VEC_SDOT d half out a b = (if half then VEC_SDOT (ext_a d :: u16 \<Rightarrow> u32) (ext_b d) out a b else VEC_SDOT (ext_a d :: byte \<Rightarrow> u32) (ext_b d) out a b)"

definition lib_VEC_SDOT_SC :: "dot_op \<Rightarrow> bool \<Rightarrow> u32 \<Rightarrow> u32 \<Rightarrow> u32 \<Rightarrow> u32" where
  "lib_VEC_SDOT_SC d half out a b = (if half then VEC_SDOT_SC (ext_a d :: u16 \<Rightarrow> u32) (ext_b d) out a b else VEC_SDOT_SC (ext_a d :: byte \<Rightarrow> u32) (ext_b d) out a b)"

definition lib_VEC_DOT :: "dot_op \<Rightarrow> bool \<Rightarrow> u32 \<Rightarrow> u32 \<Rightarrow> u32" where "lib_VEC_DOT d half a b = lib_VEC_SDOT d half 0 a b"

definition lib_VEC_DOT_SC :: "dot_op \<Rightarrow> bool \<Rightarrow> u32 \<Rightarrow> u32 \<Rightarrow> u32" where "lib_VEC_DOT_SC d half a b = lib_VEC_SDOT_SC d half 0 a b"

section \<open>Insertion, extraction and permutation of elements\<close>

definition lib_VEC_INS_8 :: "u32 \<Rightarrow> u32 \<Rightarrow> u32 \<Rightarrow> u32" where
  "lib_VEC_INS_8 a b shift = (let n = unat (shift * 8) in (a AND NOT (push_bit n 0xff)) OR push_bit n (b AND 0xff))"

definition lib_VEC_INS_16 :: "u32 \<Rightarrow> u32 \<Rightarrow> u32 \<Rightarrow> u32" where
  "lib_VEC_INS_16 a b shift = (let n = unat (shift * 16) in (a AND NOT (push_bit n 0xffff)) OR push_bit n (b AND 0xffff))"

definition lib_VEC_EXT_8 :: "u32 \<Rightarrow> u32 \<Rightarrow> u32" where
  "lib_VEC_EXT_8 a shift = (let n = unat (shift * 8) in scast (ucast (drop_bit n (a AND push_bit n 0xff)) :: byte))"

definition lib_VEC_EXT_16 :: "u32 \<Rightarrow> u32 \<Rightarrow> u32" where
  "lib_VEC_EXT_16 a shift = (let n = unat (shift * 16) in scast (ucast (drop_bit n (a AND push_bit n 0xffff)) :: u16))"

definition lib_VEC_EXTU_8 :: "u32 \<Rightarrow> u32 \<Rightarrow> u32" where
  "lib_VEC_EXTU_8 a shift = (let n = unat (shift * 8) in drop_bit n (a AND push_bit n 0xff))"

definition lib_VEC_EXTU_16 :: "u32 \<Rightarrow> u32 \<Rightarrow> u32" where
  "lib_VEC_EXTU_16 a shift = (let n = unat (shift * 16) in drop_bit n (a AND push_bit n 0xffff))"

definition getShuffleHalf :: "u32 \<Rightarrow> u32 \<Rightarrow> nat \<Rightarrow> u32" where
  "getShuffleHalf a b p = push_bit p (drop_bit (unat (push_bit 4 (drop_bit p b AND 1))) a AND 0xffff)"

definition lib_VEC_SHUFFLE_16 :: "u32 \<Rightarrow> u32 \<Rightarrow> u32" where
  "lib_VEC_SHUFFLE_16 a b = getShuffleHalf a b 16 OR getShuffleHalf a b 0"

definition getShuffleHalfSci :: "u32 \<Rightarrow> u32 \<Rightarrow> nat \<Rightarrow> u32" where
  "getShuffleHalfSci a b p = push_bit p (drop_bit (unat (push_bit 4 (drop_bit (p div 16) b AND 1))) a AND 0xffff)"

definition lib_VEC_SHUFFLE_SCI_16 :: "u32 \<Rightarrow> u32 \<Rightarrow> u32" where
  "lib_VEC_SHUFFLE_SCI_16 a b = getShuffleHalfSci a b 16 OR getShuffleHalfSci a b 0"

definition getShuffleByte :: "u32 \<Rightarrow> u32 \<Rightarrow> nat \<Rightarrow> u32" where
  "getShuffleByte a b p = push_bit p (drop_bit (unat (push_bit 3 (drop_bit p b AND 3))) a AND 0xff)"

definition lib_VEC_SHUFFLE_8 :: "u32 \<Rightarrow> u32 \<Rightarrow> u32" where
  "lib_VEC_SHUFFLE_8 a b = getShuffleByte a b 24 OR getShuffleByte a b 16 OR getShuffleByte a b 8 OR getShuffleByte a b 0"

definition getShuffleByteSci :: "u32 \<Rightarrow> u32 \<Rightarrow> nat \<Rightarrow> u32" where
  "getShuffleByteSci a b p = push_bit p (drop_bit (unat (push_bit 3 (drop_bit (p div 4) b AND 3))) a AND 0xff)"

text \<open>The four functions \<^verbatim>\<open>lib_VEC_SHUFFLEI<n>_SCI_8\<close> differ in the element that goes to the top.\<close>

definition shufflei_sci :: "nat \<Rightarrow> u32 \<Rightarrow> u32 \<Rightarrow> u32" where
  "shufflei_sci n a b = push_bit 24 (drop_bit n a AND 0xff) OR getShuffleByteSci a b 16 OR getShuffleByteSci a b 8 OR getShuffleByteSci a b 0"

definition lib_VEC_SHUFFLEI0_SCI_8 :: "u32 \<Rightarrow> u32 \<Rightarrow> u32" where "lib_VEC_SHUFFLEI0_SCI_8 = shufflei_sci 0"
definition lib_VEC_SHUFFLEI1_SCI_8 :: "u32 \<Rightarrow> u32 \<Rightarrow> u32" where "lib_VEC_SHUFFLEI1_SCI_8 = shufflei_sci 8"
definition lib_VEC_SHUFFLEI2_SCI_8 :: "u32 \<Rightarrow> u32 \<Rightarrow> u32" where "lib_VEC_SHUFFLEI2_SCI_8 = shufflei_sci 16"
definition lib_VEC_SHUFFLEI3_SCI_8 :: "u32 \<Rightarrow> u32 \<Rightarrow> u32" where "lib_VEC_SHUFFLEI3_SCI_8 = shufflei_sci 24"

text \<open>\<open>riscv\<close> tells whether the macro \<^verbatim>\<open>RISCV\<close> is defined in the build.\<close>

definition lib_VEC_SHUFFLE2_16 :: "bool \<Rightarrow> u32 \<Rightarrow> u32 \<Rightarrow> u32 \<Rightarrow> u32" where
  "lib_VEC_SHUFFLE2_16 riscv a b c =
     (let sel = (\<lambda>n. if bit b n = riscv then a else c) in getShuffleHalf (sel 17) b 16 OR getShuffleHalf (sel 1) b 0)"

definition lib_VEC_SHUFFLE2_8 :: "bool \<Rightarrow> u32 \<Rightarrow> u32 \<Rightarrow> u32 \<Rightarrow> u32" where
  "lib_VEC_SHUFFLE2_8 riscv a b c =
     (let sel = (\<lambda>n. if bit b n = riscv then a else c)
      in getShuffleByte (sel 26) b 24 OR getShuffleByte (sel 18) b 16 OR getShuffleByte (sel 10) b 8 OR getShuffleByte (sel 2) b 0)"

definition lib_VEC_PACK_SC_16 :: "u32 \<Rightarrow> u32 \<Rightarrow> u32" where
  "lib_VEC_PACK_SC_16 a b = push_bit 16 (a AND 0xffff) OR (b AND 0xffff)"

definition lib_VEC_PACKHI_SC_8 :: "u32 \<Rightarrow> u32 \<Rightarrow> u32 \<Rightarrow> u32" where
  "lib_VEC_PACKHI_SC_8 a b c = push_bit 24 (a AND 0xff) OR push_bit 16 (b AND 0xff) OR (c AND 0xffff)"

definition lib_VEC_PACKLO_SC_8 :: "u32 \<Rightarrow> u32 \<Rightarrow> u32 \<Rightarrow> u32" where
  "lib_VEC_PACKLO_SC_8 a b c = push_bit 8 (a AND 0xff) OR (b AND 0xff) OR (c AND 0xffff0000)"

end
