(* ===== verification/Isa_Pulp.thy ===== *)
theory Isa_Pulp
  imports Isa_Pulp_Lib Hwloop_V2
begin

unbundle bit_operations_syntax

text \<open>
  The register instructions of the PULP extension, \<^verbatim>\<open>src/models/cpu/iss/include/isa/pulp_v2.hpp\<close>, as the second-generation simulator compiles them for a 32-bit core. Handlers have the form
  of those of RV32I: the shadow of the result is computed first, then the result.
\<close>

section \<open>Handlers that call one library function\<close>

definition p_avgu_exec :: "u32 handler" where
  "p_avgu_exec insn pc s =
     (let s1 = on_rf (memcheck_merge (out_regs insn 0) (in_regs insn 0)) s
      in (reg_set insn 0 (lib_AVGU (reg_get insn 0 s1) (reg_get insn 1 s1)) s1, iss_insn_next insn pc))"

definition p_min_exec :: "u32 handler" where
  "p_min_exec insn pc s =
     (let s1 = on_rf (memcheck_merge2 (out_regs insn 0) (in_regs insn 0) (in_regs insn 1)) s
      in (reg_set insn 0 (lib_MINS (reg_get insn 0 s1) (reg_get insn 1 s1)) s1, iss_insn_next insn pc))"

definition p_minu_exec :: "u32 handler" where
  "p_minu_exec insn pc s =
     (let s1 = on_rf (memcheck_merge2 (out_regs insn 0) (in_regs insn 0) (in_regs insn 1)) s
      in (reg_set insn 0 (lib_MINU (reg_get insn 0 s1) (reg_get insn 1 s1)) s1, iss_insn_next insn pc))"

definition p_max_exec :: "u32 handler" where
  "p_max_exec insn pc s =
     (let s1 = on_rf (memcheck_merge2 (out_regs insn 0) (in_regs insn 0) (in_regs insn 1)) s
      in (reg_set insn 0 (lib_MAXS (reg_get insn 0 s1) (reg_get insn 1 s1)) s1, iss_insn_next insn pc))"

definition p_maxu_exec :: "u32 handler" where
  "p_maxu_exec insn pc s =
     (let s1 = on_rf (memcheck_merge2 (out_regs insn 0) (in_regs insn 0) (in_regs insn 1)) s
      in (reg_set insn 0 (lib_MAXU (reg_get insn 0 s1) (reg_get insn 1 s1)) s1, iss_insn_next insn pc))"

definition p_ff1_exec :: "u32 handler" where
  "p_ff1_exec insn pc s =
     (let s1 = on_rf (memcheck_merge (out_regs insn 0) (in_regs insn 0)) s
      in (reg_set insn 0 (lib_FF1 (reg_get insn 0 s1)) s1, iss_insn_next insn pc))"

definition p_fl1_exec :: "u32 handler" where
  "p_fl1_exec insn pc s =
     (let s1 = on_rf (memcheck_merge (out_regs insn 0) (in_regs insn 0)) s
      in (reg_set insn 0 (lib_FL1 (reg_get insn 0 s1)) s1, iss_insn_next insn pc))"

definition p_clb_exec :: "u32 handler" where
  "p_clb_exec insn pc s =
     (let s1 = on_rf (memcheck_merge (out_regs insn 0) (in_regs insn 0)) s
      in (reg_set insn 0 (lib_CLB (reg_get insn 0 s1)) s1, iss_insn_next insn pc))"

definition p_cnt_exec :: "u32 handler" where
  "p_cnt_exec insn pc s =
     (let s1 = on_rf (memcheck_merge (out_regs insn 0) (in_regs insn 0)) s
      in (reg_set insn 0 (lib_CNT (reg_get insn 0 s1)) s1, iss_insn_next insn pc))"

definition p_abs_exec :: "u32 handler" where
  "p_abs_exec insn pc s =
     (let s1 = on_rf (memcheck_merge (out_regs insn 0) (in_regs insn 0)) s
      in (reg_set insn 0 (lib_ABS (reg_get insn 0 s1)) s1, iss_insn_next insn pc))"

definition pv_extract_h_exec :: "u32 handler" where
  "pv_extract_h_exec insn pc s =
     (let s1 = on_rf (memcheck_merge (out_regs insn 0) (in_regs insn 0)) s
      in (reg_set insn 0 (lib_VEC_EXT_16 (reg_get insn 0 s1) (uim insn 0)) s1, iss_insn_next insn pc))"

definition pv_extract_b_exec :: "u32 handler" where
  "pv_extract_b_exec insn pc s =
     (let s1 = on_rf (memcheck_merge (out_regs insn 0) (in_regs insn 0)) s
      in (reg_set insn 0 (lib_VEC_EXT_8 (reg_get insn 0 s1) (uim insn 0)) s1, iss_insn_next insn pc))"

definition pv_extractu_h_exec :: "u32 handler" where
  "pv_extractu_h_exec insn pc s =
     (let s1 = on_rf (memcheck_merge (out_regs insn 0) (in_regs insn 0)) s
      in (reg_set insn 0 (lib_VEC_EXTU_16 (reg_get insn 0 s1) (uim insn 0)) s1, iss_insn_next insn pc))"

definition pv_extractu_b_exec :: "u32 handler" where
  "pv_extractu_b_exec insn pc s =
     (let s1 = on_rf (memcheck_merge (out_regs insn 0) (in_regs insn 0)) s
      in (reg_set insn 0 (lib_VEC_EXTU_8 (reg_get insn 0 s1) (uim insn 0)) s1, iss_insn_next insn pc))"

definition pv_insert_h_exec :: "u32 handler" where
  "pv_insert_h_exec insn pc s =
     (let s1 = on_rf (memcheck_merge2 (out_regs insn 0) (in_regs insn 0) (in_regs insn 1)) s
      in (reg_set insn 0 (lib_VEC_INS_16 (reg_get insn 0 s1) (reg_get insn 1 s1) (uim insn 0)) s1, iss_insn_next insn pc))"

definition pv_insert_b_exec :: "u32 handler" where
  "pv_insert_b_exec insn pc s =
     (let s1 = on_rf (memcheck_merge2 (out_regs insn 0) (in_regs insn 0) (in_regs insn 1)) s
      in (reg_set insn 0 (lib_VEC_INS_8 (reg_get insn 0 s1) (reg_get insn 1 s1) (uim insn 0)) s1, iss_insn_next insn pc))"

definition pv_shuffle_h_exec :: "u32 handler" where
  "pv_shuffle_h_exec insn pc s =
     (let s1 = on_rf (memcheck_merge (out_regs insn 0) (in_regs insn 0)) s
      in (reg_set insn 0 (lib_VEC_SHUFFLE_16 (reg_get insn 0 s1) (reg_get insn 1 s1)) s1, iss_insn_next insn pc))"

definition pv_shuffle_h_sci_exec :: "u32 handler" where
  "pv_shuffle_h_sci_exec insn pc s =
     (let s1 = on_rf (memcheck_merge (out_regs insn 0) (in_regs insn 0)) s
      in (reg_set insn 0 (lib_VEC_SHUFFLE_SCI_16 (reg_get insn 0 s1) (uim insn 0)) s1, iss_insn_next insn pc))"

definition pv_shuffle_b_exec :: "u32 handler" where
  "pv_shuffle_b_exec insn pc s =
     (let s1 = on_rf (memcheck_merge2 (out_regs insn 0) (in_regs insn 0) (in_regs insn 1)) s
      in (reg_set insn 0 (lib_VEC_SHUFFLE_8 (reg_get insn 0 s1) (reg_get insn 1 s1)) s1, iss_insn_next insn pc))"

definition pv_shufflei0_b_sci_exec :: "u32 handler" where
  "pv_shufflei0_b_sci_exec insn pc s =
     (let s1 = on_rf (memcheck_merge (out_regs insn 0) (in_regs insn 0)) s
      in (reg_set insn 0 (lib_VEC_SHUFFLEI0_SCI_8 (reg_get insn 0 s1) (uim insn 0)) s1, iss_insn_next insn pc))"

definition pv_shufflei1_b_sci_exec :: "u32 handler" where
  "pv_shufflei1_b_sci_exec insn pc s =
     (let s1 = on_rf (memcheck_merge (out_regs insn 0) (in_regs insn 0)) s
      in (reg_set insn 0 (lib_VEC_SHUFFLEI1_SCI_8 (reg_get insn 0 s1) (uim insn 0)) s1, iss_insn_next insn pc))"

definition pv_shufflei2_b_sci_exec :: "u32 handler" where
  "pv_shufflei2_b_sci_exec insn pc s =
     (let s1 = on_rf (memcheck_merge (out_regs insn 0) (in_regs insn 0)) s
      in (reg_set insn 0 (lib_VEC_SHUFFLEI2_SCI_8 (reg_get insn 0 s1) (uim insn 0)) s1, iss_insn_next insn pc))"

definition pv_shufflei3_b_sci_exec :: "u32 handler" where
  "pv_shufflei3_b_sci_exec insn pc s =
     (let s1 = on_rf (memcheck_merge (out_regs insn 0) (in_regs insn 0)) s
      in (reg_set insn 0 (lib_VEC_SHUFFLEI3_SCI_8 (reg_get insn 0 s1) (uim insn 0)) s1, iss_insn_next insn pc))"

definition pv_shuffle2_h_exec :: "bool \<Rightarrow> u32 handler" where
  "pv_shuffle2_h_exec riscv insn pc s =
     (let s1 = on_rf (memcheck_merge3 (out_regs insn 0) (in_regs insn 0) (in_regs insn 1) (in_regs insn 2)) s
      in (reg_set insn 0 (lib_VEC_SHUFFLE2_16 riscv (reg_get insn 0 s1) (reg_get insn 1 s1) (reg_get insn 2 s1)) s1, iss_insn_next insn pc))"

definition pv_shuffle2_b_exec :: "bool \<Rightarrow> u32 handler" where
  "pv_shuffle2_b_exec riscv insn pc s =
     (let s1 = on_rf (memcheck_merge3 (out_regs insn 0) (in_regs insn 0) (in_regs insn 1) (in_regs insn 2)) s
      in (reg_set insn 0 (lib_VEC_SHUFFLE2_8 riscv (reg_get insn 0 s1) (reg_get insn 1 s1) (reg_get insn 2 s1)) s1, iss_insn_next insn pc))"

definition pv_pack_h_exec :: "u32 handler" where
  "pv_pack_h_exec insn pc s =
     (let s1 = on_rf (memcheck_merge2 (out_regs insn 0) (in_regs insn 0) (in_regs insn 1)) s
      in (reg_set insn 0 (lib_VEC_PACK_SC_16 (reg_get insn 0 s1) (reg_get insn 1 s1)) s1, iss_insn_next insn pc))"

definition pv_packhi_b_exec :: "u32 handler" where
  "pv_packhi_b_exec insn pc s =
     (let s1 = on_rf (memcheck_merge3 (out_regs insn 0) (in_regs insn 0) (in_regs insn 1) (in_regs insn 2)) s
      in (reg_set insn 0 (lib_VEC_PACKHI_SC_8 (reg_get insn 0 s1) (reg_get insn 1 s1) (reg_get insn 2 s1)) s1, iss_insn_next insn pc))"

definition pv_packlo_b_exec :: "u32 handler" where
  "pv_packlo_b_exec insn pc s =
     (let s1 = on_rf (memcheck_merge3 (out_regs insn 0) (in_regs insn 0) (in_regs insn 1) (in_regs insn 2)) s
      in (reg_set insn 0 (lib_VEC_PACKLO_SC_8 (reg_get insn 0 s1) (reg_get insn 1 s1) (reg_get insn 2 s1)) s1, iss_insn_next insn pc))"

definition p_mac_exec :: "u32 handler" where
  "p_mac_exec insn pc s =
     (let s1 = on_rf (memcheck_merge3 (out_regs insn 0) (in_regs insn 0) (in_regs insn 1) (in_regs insn 2)) s
      in (reg_set insn 0 (lib_MAC (reg_get insn 2 s1) (reg_get insn 0 s1) (reg_get insn 1 s1)) s1, iss_insn_next insn pc))"

definition p_msu_exec :: "u32 handler" where
  "p_msu_exec insn pc s =
     (let s1 = on_rf (memcheck_merge3 (out_regs insn 0) (in_regs insn 0) (in_regs insn 1) (in_regs insn 2)) s
      in (reg_set insn 0 (lib_MSU (reg_get insn 2 s1) (reg_get insn 0 s1) (reg_get insn 1 s1)) s1, iss_insn_next insn pc))"

definition p_mul_exec :: "u32 handler" where
  "p_mul_exec insn pc s =
     (let s1 = on_rf (memcheck_merge2 (out_regs insn 0) (in_regs insn 0) (in_regs insn 1)) s
      in (reg_set insn 0 (lib_MULS (reg_get insn 0 s1) (reg_get insn 1 s1)) s1, iss_insn_next insn pc))"

definition p_muls_exec :: "u32 handler" where
  "p_muls_exec insn pc s =
     (let s1 = on_rf (memcheck_merge2 (out_regs insn 0) (in_regs insn 0) (in_regs insn 1)) s
      in (reg_set insn 0 (lib_MUL_SL_SL (reg_get insn 0 s1) (reg_get insn 1 s1)) s1, iss_insn_next insn pc))"

definition p_mulhhs_exec :: "u32 handler" where
  "p_mulhhs_exec insn pc s =
     (let s1 = on_rf (memcheck_merge2 (out_regs insn 0) (in_regs insn 0) (in_regs insn 1)) s
      in (reg_set insn 0 (lib_MUL_SH_SH (reg_get insn 0 s1) (reg_get insn 1 s1)) s1, iss_insn_next insn pc))"

definition p_mulsN_exec :: "u32 handler" where
  "p_mulsN_exec insn pc s =
     (let s1 = on_rf (memcheck_merge2 (out_regs insn 0) (in_regs insn 0) (in_regs insn 1)) s
      in (reg_set insn 0 (lib_MUL_SL_SL_NR (reg_get insn 0 s1) (reg_get insn 1 s1) (uim insn 0)) s1, iss_insn_next insn pc))"

definition p_mulhhsN_exec :: "u32 handler" where
  "p_mulhhsN_exec insn pc s =
     (let s1 = on_rf (memcheck_merge2 (out_regs insn 0) (in_regs insn 0) (in_regs insn 1)) s
      in (reg_set insn 0 (lib_MUL_SH_SH_NR (reg_get insn 0 s1) (reg_get insn 1 s1) (uim insn 0)) s1, iss_insn_next insn pc))"

definition p_mulsNR_exec :: "u32 handler" where
  "p_mulsNR_exec insn pc s =
     (let s1 = on_rf (memcheck_merge2 (out_regs insn 0) (in_regs insn 0) (in_regs insn 1)) s
      in (reg_set insn 0 (lib_MUL_SL_SL_NR_R (reg_get insn 0 s1) (reg_get insn 1 s1) (uim insn 0)) s1, iss_insn_next insn pc))"

definition p_mulhhsNR_exec :: "u32 handler" where
  "p_mulhhsNR_exec insn pc s =
     (let s1 = on_rf (memcheck_merge2 (out_regs insn 0) (in_regs insn 0) (in_regs insn 1)) s
      in (reg_set insn 0 (lib_MUL_SH_SH_NR_R (reg_get insn 0 s1) (reg_get insn 1 s1) (uim insn 0)) s1, iss_insn_next insn pc))"

definition p_mulu_exec :: "u32 handler" where
  "p_mulu_exec insn pc s =
     (let s1 = on_rf (memcheck_merge2 (out_regs insn 0) (in_regs insn 0) (in_regs insn 1)) s
      in (reg_set insn 0 (lib_MUL_ZL_ZL (reg_get insn 0 s1) (reg_get insn 1 s1)) s1, iss_insn_next insn pc))"

definition p_mulhhu_exec :: "u32 handler" where
  "p_mulhhu_exec insn pc s =
     (let s1 = on_rf (memcheck_merge2 (out_regs insn 0) (in_regs insn 0) (in_regs insn 1)) s
      in (reg_set insn 0 (lib_MUL_ZH_ZH (reg_get insn 0 s1) (reg_get insn 1 s1)) s1, iss_insn_next insn pc))"

definition p_muluN_exec :: "u32 handler" where
  "p_muluN_exec insn pc s =
     (let s1 = on_rf (memcheck_merge2 (out_regs insn 0) (in_regs insn 0) (in_regs insn 1)) s
      in (reg_set insn 0 (lib_MUL_ZL_ZL_NR (reg_get insn 0 s1) (reg_get insn 1 s1) (uim insn 0)) s1, iss_insn_next insn pc))"

definition p_mulhhuN_exec :: "u32 handler" where
  "p_mulhhuN_exec insn pc s =
     (let s1 = on_rf (memcheck_merge2 (out_regs insn 0) (in_regs insn 0) (in_regs insn 1)) s
      in (reg_set insn 0 (lib_MUL_ZH_ZH_NR (reg_get insn 0 s1) (reg_get insn 1 s1) (uim insn 0)) s1, iss_insn_next insn pc))"

definition p_muluNR_exec :: "u32 handler" where
  "p_muluNR_exec insn pc s =
     (let s1 = on_rf (memcheck_merge2 (out_regs insn 0) (in_regs insn 0) (in_regs insn 1)) s
      in (reg_set insn 0 (lib_MUL_ZL_ZL_NR_R (reg_get insn 0 s1) (reg_get insn 1 s1) (uim insn 0)) s1, iss_insn_next insn pc))"

definition p_mulhhuNR_exec :: "u32 handler" where
  "p_mulhhuNR_exec insn pc s =
     (let s1 = on_rf (memcheck_merge2 (out_regs insn 0) (in_regs insn 0) (in_regs insn 1)) s
      in (reg_set insn 0 (lib_MUL_ZH_ZH_NR_R (reg_get insn 0 s1) (reg_get insn 1 s1) (uim insn 0)) s1, iss_insn_next insn pc))"

definition p_macs_exec :: "u32 handler" where
  "p_macs_exec insn pc s =
     (let s1 = on_rf (memcheck_merge3 (out_regs insn 0) (in_regs insn 0) (in_regs insn 1) (in_regs insn 2)) s
      in (reg_set insn 0 (lib_MAC_SL_SL (reg_get insn 2 s1) (reg_get insn 0 s1) (reg_get insn 1 s1)) s1, iss_insn_next insn pc))"

definition p_machhs_exec :: "u32 handler" where
  "p_machhs_exec insn pc s =
     (let s1 = on_rf (memcheck_merge3 (out_regs insn 0) (in_regs insn 0) (in_regs insn 1) (in_regs insn 2)) s
      in (reg_set insn 0 (lib_MAC_SH_SH (reg_get insn 2 s1) (reg_get insn 0 s1) (reg_get insn 1 s1)) s1, iss_insn_next insn pc))"

definition p_macsN_exec :: "u32 handler" where
  "p_macsN_exec insn pc s =
     (let s1 = on_rf (memcheck_merge3 (out_regs insn 0) (in_regs insn 0) (in_regs insn 1) (in_regs insn 2)) s
      in (reg_set insn 0 (lib_MAC_SL_SL_NR (reg_get insn 2 s1) (reg_get insn 0 s1) (reg_get insn 1 s1) (uim insn 0)) s1, iss_insn_next insn pc))"

definition p_machhsN_exec :: "u32 handler" where
  "p_machhsN_exec insn pc s =
     (let s1 = on_rf (memcheck_merge3 (out_regs insn 0) (in_regs insn 0) (in_regs insn 1) (in_regs insn 2)) s
      in (reg_set insn 0 (lib_MAC_SH_SH_NR (reg_get insn 2 s1) (reg_get insn 0 s1) (reg_get insn 1 s1) (uim insn 0)) s1, iss_insn_next insn pc))"

definition p_macsNR_exec :: "u32 handler" where
  "p_macsNR_exec insn pc s =
     (let s1 = on_rf (memcheck_merge3 (out_regs insn 0) (in_regs insn 0) (in_regs insn 1) (in_regs insn 2)) s
      in (reg_set insn 0 (lib_MAC_SL_SL_NR_R (reg_get insn 2 s1) (reg_get insn 0 s1) (reg_get insn 1 s1) (uim insn 0)) s1, iss_insn_next insn pc))"

definition p_machhsNR_exec :: "u32 handler" where
  "p_machhsNR_exec insn pc s =
     (let s1 = on_rf (memcheck_merge3 (out_regs insn 0) (in_regs insn 0) (in_regs insn 1) (in_regs insn 2)) s
      in (reg_set insn 0 (lib_MAC_SH_SH_NR_R (reg_get insn 2 s1) (reg_get insn 0 s1) (reg_get insn 1 s1) (uim insn 0)) s1, iss_insn_next insn pc))"

definition p_macu_exec :: "u32 handler" where
  "p_macu_exec insn pc s =
     (let s1 = on_rf (memcheck_merge3 (out_regs insn 0) (in_regs insn 0) (in_regs insn 1) (in_regs insn 2)) s
      in (reg_set insn 0 (lib_MAC_ZL_ZL (reg_get insn 2 s1) (reg_get insn 0 s1) (reg_get insn 1 s1)) s1, iss_insn_next insn pc))"

definition p_machhu_exec :: "u32 handler" where
  "p_machhu_exec insn pc s =
     (let s1 = on_rf (memcheck_merge3 (out_regs insn 0) (in_regs insn 0) (in_regs insn 1) (in_regs insn 2)) s
      in (reg_set insn 0 (lib_MAC_ZH_ZH (reg_get insn 2 s1) (reg_get insn 0 s1) (reg_get insn 1 s1)) s1, iss_insn_next insn pc))"

definition p_macuN_exec :: "u32 handler" where
  "p_macuN_exec insn pc s =
     (let s1 = on_rf (memcheck_merge3 (out_regs insn 0) (in_regs insn 0) (in_regs insn 1) (in_regs insn 2)) s
      in (reg_set insn 0 (lib_MAC_ZL_ZL_NR (reg_get insn 2 s1) (reg_get insn 0 s1) (reg_get insn 1 s1) (uim insn 0)) s1, iss_insn_next insn pc))"

definition p_machhuN_exec :: "u32 handler" where
  "p_machhuN_exec insn pc s =
     (let s1 = on_rf (memcheck_merge3 (out_regs insn 0) (in_regs insn 0) (in_regs insn 1) (in_regs insn 2)) s
      in (reg_set insn 0 (lib_MAC_ZH_ZH_NR (reg_get insn 2 s1) (reg_get insn 0 s1) (reg_get insn 1 s1) (uim insn 0)) s1, iss_insn_next insn pc))"

definition p_macuNR_exec :: "u32 handler" where
  "p_macuNR_exec insn pc s =
     (let s1 = on_rf (memcheck_merge3 (out_regs insn 0) (in_regs insn 0) (in_regs insn 1) (in_regs insn 2)) s
      in (reg_set insn 0 (lib_MAC_ZL_ZL_NR_R (reg_get insn 2 s1) (reg_get insn 0 s1) (reg_get insn 1 s1) (uim insn 0)) s1, iss_insn_next insn pc))"

definition p_machhuNR_exec :: "u32 handler" where
  "p_machhuNR_exec insn pc s =
     (let s1 = on_rf (memcheck_merge3 (out_regs insn 0) (in_regs insn 0) (in_regs insn 1) (in_regs insn 2)) s
      in (reg_set insn 0 (lib_MAC_ZH_ZH_NR_R (reg_get insn 2 s1) (reg_get insn 0 s1) (reg_get insn 1 s1) (uim insn 0)) s1, iss_insn_next insn pc))"

definition p_addNi_exec :: "u32 handler" where
  "p_addNi_exec insn pc s =
     (let s1 = on_rf (memcheck_merge2 (out_regs insn 0) (in_regs insn 0) (in_regs insn 1)) s
      in (reg_set insn 0 (lib_ADD_NR (reg_get insn 0 s1) (reg_get insn 1 s1) (uim insn 0)) s1, iss_insn_next insn pc))"

definition p_adduNi_exec :: "u32 handler" where
  "p_adduNi_exec insn pc s =
     (let s1 = on_rf (memcheck_merge2 (out_regs insn 0) (in_regs insn 0) (in_regs insn 1)) s
      in (reg_set insn 0 (lib_ADD_NRU (reg_get insn 0 s1) (reg_get insn 1 s1) (uim insn 0)) s1, iss_insn_next insn pc))"

definition p_addRNi_exec :: "u32 handler" where
  "p_addRNi_exec insn pc s =
     (let s1 = on_rf (memcheck_merge2 (out_regs insn 0) (in_regs insn 0) (in_regs insn 1)) s
      in (reg_set insn 0 (lib_ADD_NR_R (reg_get insn 0 s1) (reg_get insn 1 s1) (uim insn 0)) s1, iss_insn_next insn pc))"

definition p_adduRNi_exec :: "u32 handler" where
  "p_adduRNi_exec insn pc s =
     (let s1 = on_rf (memcheck_merge2 (out_regs insn 0) (in_regs insn 0) (in_regs insn 1)) s
      in (reg_set insn 0 (lib_ADD_NR_RU (reg_get insn 0 s1) (reg_get insn 1 s1) (uim insn 0)) s1, iss_insn_next insn pc))"

definition p_subNi_exec :: "u32 handler" where
  "p_subNi_exec insn pc s =
     (let s1 = on_rf (memcheck_merge2 (out_regs insn 0) (in_regs insn 0) (in_regs insn 1)) s
      in (reg_set insn 0 (lib_SUB_NR (reg_get insn 0 s1) (reg_get insn 1 s1) (uim insn 0)) s1, iss_insn_next insn pc))"

definition p_subuNi_exec :: "u32 handler" where
  "p_subuNi_exec insn pc s =
     (let s1 = on_rf (memcheck_merge2 (out_regs insn 0) (in_regs insn 0) (in_regs insn 1)) s
      in (reg_set insn 0 (lib_SUB_NRU (reg_get insn 0 s1) (reg_get insn 1 s1) (uim insn 0)) s1, iss_insn_next insn pc))"

definition p_subRNi_exec :: "u32 handler" where
  "p_subRNi_exec insn pc s =
     (let s1 = on_rf (memcheck_merge2 (out_regs insn 0) (in_regs insn 0) (in_regs insn 1)) s
      in (reg_set insn 0 (lib_SUB_NR_R (reg_get insn 0 s1) (reg_get insn 1 s1) (uim insn 0)) s1, iss_insn_next insn pc))"

definition p_subuRNi_exec :: "u32 handler" where
  "p_subuRNi_exec insn pc s =
     (let s1 = on_rf (memcheck_merge2 (out_regs insn 0) (in_regs insn 0) (in_regs insn 1)) s
      in (reg_set insn 0 (lib_SUB_NR_RU (reg_get insn 0 s1) (reg_get insn 1 s1) (uim insn 0)) s1, iss_insn_next insn pc))"

definition p_addN_exec :: "u32 handler" where
  "p_addN_exec insn pc s =
     (let s1 = on_rf (memcheck_merge3 (out_regs insn 0) (in_regs insn 0) (in_regs insn 1) (in_regs insn 2)) s
      in (reg_set insn 0 (lib_ADD_NR (reg_get insn 0 s1) (reg_get insn 1 s1) (reg_get insn 2 s1)) s1, iss_insn_next insn pc))"

definition p_adduN_exec :: "u32 handler" where
  "p_adduN_exec insn pc s =
     (let s1 = on_rf (memcheck_merge3 (out_regs insn 0) (in_regs insn 0) (in_regs insn 1) (in_regs insn 2)) s
      in (reg_set insn 0 (lib_ADD_NRU (reg_get insn 0 s1) (reg_get insn 1 s1) (reg_get insn 2 s1)) s1, iss_insn_next insn pc))"

definition p_addRN_exec :: "u32 handler" where
  "p_addRN_exec insn pc s =
     (let s1 = on_rf (memcheck_merge3 (out_regs insn 0) (in_regs insn 0) (in_regs insn 1) (in_regs insn 2)) s
      in (reg_set insn 0 (lib_ADD_NR_R (reg_get insn 0 s1) (reg_get insn 1 s1) (reg_get insn 2 s1)) s1, iss_insn_next insn pc))"

definition p_adduRN_exec :: "u32 handler" where
  "p_adduRN_exec insn pc s =
     (let s1 = on_rf (memcheck_merge3 (out_regs insn 0) (in_regs insn 0) (in_regs insn 1) (in_regs insn 2)) s
      in (reg_set insn 0 (lib_ADD_NR_RU (reg_get insn 0 s1) (reg_get insn 1 s1) (reg_get insn 2 s1)) s1, iss_insn_next insn pc))"

definition p_subN_exec :: "u32 handler" where
  "p_subN_exec insn pc s =
     (let s1 = on_rf (memcheck_merge3 (out_regs insn 0) (in_regs insn 0) (in_regs insn 1) (in_regs insn 2)) s
      in (reg_set insn 0 (lib_SUB_NR (reg_get insn 0 s1) (reg_get insn 1 s1) (reg_get insn 2 s1)) s1, iss_insn_next insn pc))"

definition p_subuN_exec :: "u32 handler" where
  "p_subuN_exec insn pc s =
     (let s1 = on_rf (memcheck_merge3 (out_regs insn 0) (in_regs insn 0) (in_regs insn 1) (in_regs insn 2)) s
      in (reg_set insn 0 (lib_SUB_NRU (reg_get insn 0 s1) (reg_get insn 1 s1) (reg_get insn 2 s1)) s1, iss_insn_next insn pc))"

definition p_subRN_exec :: "u32 handler" where
  "p_subRN_exec insn pc s =
     (let s1 = on_rf (memcheck_merge3 (out_regs insn 0) (in_regs insn 0) (in_regs insn 1) (in_regs insn 2)) s
      in (reg_set insn 0 (lib_SUB_NR_R (reg_get insn 0 s1) (reg_get insn 1 s1) (reg_get insn 2 s1)) s1, iss_insn_next insn pc))"

definition p_subuRN_exec :: "u32 handler" where
  "p_subuRN_exec insn pc s =
     (let s1 = on_rf (memcheck_merge3 (out_regs insn 0) (in_regs insn 0) (in_regs insn 1) (in_regs insn 2)) s
      in (reg_set insn 0 (lib_SUB_NR_RU (reg_get insn 0 s1) (reg_get insn 1 s1) (reg_get insn 2 s1)) s1, iss_insn_next insn pc))"

section \<open>Comparisons, rotation, extensions\<close>

definition p_slet_exec :: "u32 handler" where
  "p_slet_exec insn pc s =
     (let s1 = on_rf (memcheck_merge (out_regs insn 0) (in_regs insn 0)) s
      in (reg_set insn 0 (bool_reg (sint (reg_get insn 0 s1) \<le> sint (reg_get insn 1 s1))) s1, iss_insn_next insn pc))"

definition p_sletu_exec :: "u32 handler" where
  "p_sletu_exec insn pc s =
     (let s1 = on_rf (memcheck_merge (out_regs insn 0) (in_regs insn 0)) s
      in (reg_set insn 0 (bool_reg (reg_get insn 0 s1 \<le> reg_get insn 1 s1)) s1, iss_insn_next insn pc))"

text \<open>The rotation is undefined for an amount of 0 or above 31.\<close>

definition p_ror_exec :: "u32 iss_insn \<Rightarrow> u32 \<Rightarrow> u32 cpu \<Rightarrow> (u32 cpu \<times> u32) option" where
  "p_ror_exec insn pc s = do {
     s1 \<leftarrow> (if \<not> memcheck_get_valid (in_regs insn 1) (cpu_rf s) then Some (on_rf (memcheck_set_valid (out_regs insn 0) False) s)
           else map_option (\<lambda>m. on_rf (memcheck_set (out_regs insn 0) m) s) (lib_ROR (rf_mc (cpu_rf s) (in_regs insn 0)) (reg_get insn 1 s)));
     v \<leftarrow> lib_ROR (reg_get insn 0 s1) (reg_get insn 1 s1);
     Some (reg_set insn 0 v s1, iss_insn_next insn pc)
   }"

definition p_exths_exec :: "u32 handler" where
  "p_exths_exec insn pc s =
     (let s1 = on_rf (memcheck_set (out_regs insn 0) (iss_get_signed_value (rf_mc (cpu_rf s) (in_regs insn 0)) 16)) s
      in (reg_set insn 0 (iss_get_signed_value (reg_get insn 0 s1) 16) s1, iss_insn_next insn pc))"

definition p_exthz_exec :: "u32 handler" where
  "p_exthz_exec insn pc s =
     (let s1 = on_rf (memcheck_set (out_regs insn 0) ((rf_mc (cpu_rf s) (in_regs insn 0) AND (push_bit 16 1 - 1)) OR push_bit 16 (push_bit 16 1 - 1))) s
      in (reg_set insn 0 (reg_get insn 0 s1 AND (push_bit 16 1 - 1)) s1, iss_insn_next insn pc))"

definition p_extbs_exec :: "u32 handler" where
  "p_extbs_exec insn pc s =
     (let s1 = on_rf (memcheck_set (out_regs insn 0) (iss_get_signed_value (rf_mc (cpu_rf s) (in_regs insn 0)) 8)) s
      in (reg_set insn 0 (iss_get_signed_value (reg_get insn 0 s1) 8) s1, iss_insn_next insn pc))"

definition p_extbz_exec :: "u32 handler" where
  "p_extbz_exec insn pc s =
     (let s1 = on_rf (memcheck_set (out_regs insn 0) ((rf_mc (cpu_rf s) (in_regs insn 0) AND (push_bit 8 1 - 1)) OR push_bit 8 (push_bit 24 1 - 1))) s
      in (reg_set insn 0 (reg_get insn 0 s1 AND (push_bit 8 1 - 1)) s1, iss_insn_next insn pc))"

section \<open>Clipping\<close>

definition clip_bit :: "u32 \<Rightarrow> nat" where
  "clip_bit imm = nat (max (sint imm - 1) 0)"

definition p_clipi_exec :: "u32 handler" where
  "p_clipi_exec insn pc s =
     (let s1 = on_rf (memcheck_merge (out_regs insn 0) (in_regs insn 0)) s;
          low = - push_bit (clip_bit (uim insn 0)) 1; high = push_bit (clip_bit (uim insn 0)) 1 - 1
      in (reg_set insn 0 (lib_CLIP (reg_get insn 0 s1) low high) s1, iss_insn_next insn pc))"

definition p_clipui_exec :: "u32 handler" where
  "p_clipui_exec insn pc s =
     (let s1 = on_rf (memcheck_merge (out_regs insn 0) (in_regs insn 0)) s;
          high = push_bit (clip_bit (uim insn 0)) 1 - 1
      in (reg_set insn 0 (lib_CLIPU (reg_get insn 0 s1) high) s1, iss_insn_next insn pc))"

definition p_clip_exec :: "u32 handler" where
  "p_clip_exec insn pc s =
     (let s1 = on_rf (memcheck_merge2 (out_regs insn 0) (in_regs insn 0) (in_regs insn 1)) s;
          low = - reg_get insn 1 s1 - 1; high = reg_get insn 1 s1
      in (reg_set insn 0 (lib_CLIP (reg_get insn 0 s1) low high) s1, iss_insn_next insn pc))"

definition p_clipu_exec :: "u32 handler" where
  "p_clipu_exec insn pc s =
     (let s1 = on_rf (memcheck_merge2 (out_regs insn 0) (in_regs insn 0) (in_regs insn 1)) s
      in (reg_set insn 0 (lib_CLIPU (reg_get insn 0 s1) (reg_get insn 1 s1)) s1, iss_insn_next insn pc))"

section \<open>Bit fields\<close>

text \<open>
  A field has a width of 1 to 32 and a position; the immediate forms have them in two immediates, the register forms in one register. The mask is made in 64 bits.
\<close>

definition field_mask :: "nat \<Rightarrow> nat \<Rightarrow> u32" where
  "field_mask width shift = ucast (push_bit shift (push_bit width 1 - 1 :: u64))"

definition reg_width :: "u32 \<Rightarrow> nat" where "reg_width v = unat (drop_bit 5 v AND 0x1f) + 1"

definition reg_shift :: "u32 \<Rightarrow> nat" where "reg_shift v = unat (v AND 0x1f)"

definition p_bclri_exec :: "u32 handler" where
  "p_bclri_exec insn pc s =
     (let m = field_mask (unat (uim insn 0 + 1)) (unat (uim insn 1));
          s1 = reg_set insn 0 (lib_BCLR (reg_get insn 0 s) m) s;
          s2 = on_rf (memcheck_set (out_regs insn 0) (rf_mc (cpu_rf s1) (in_regs insn 0) OR m)) s1
      in (s2, iss_insn_next insn pc))"

definition p_bclr_exec :: "u32 handler" where
  "p_bclr_exec insn pc s =
     (reg_set insn 0 (lib_BCLR (reg_get insn 0 s) (field_mask (reg_width (reg_get insn 1 s)) (reg_shift (reg_get insn 1 s)))) s, iss_insn_next insn pc)"

definition p_bseti_exec :: "u32 handler" where
  "p_bseti_exec insn pc s =
     (let s1 = on_rf (memcheck_merge (out_regs insn 0) (in_regs insn 0)) s
      in (reg_set insn 0 (lib_BSET (reg_get insn 0 s1) (field_mask (unat (uim insn 0 + 1)) (unat (uim insn 1)))) s1, iss_insn_next insn pc))"

definition p_bset_exec :: "u32 handler" where
  "p_bset_exec insn pc s =
     (let s1 = on_rf (memcheck_merge2 (out_regs insn 0) (in_regs insn 0) (in_regs insn 1)) s
      in (reg_set insn 0 (lib_BSET (reg_get insn 0 s1) (field_mask (reg_width (reg_get insn 1 s1)) (reg_shift (reg_get insn 1 s1)))) s1, iss_insn_next insn pc))"

definition p_extracti_exec :: "u32 handler" where
  "p_extracti_exec insn pc s =
     (let s1 = on_rf (memcheck_merge (out_regs insn 0) (in_regs insn 0)) s
      in (reg_set insn 0 (lib_BEXTRACT (reg_get insn 0 s1) (uim insn 0 + 1) (uim insn 1)) s1, iss_insn_next insn pc))"

definition p_extractui_exec :: "u32 handler" where
  "p_extractui_exec insn pc s =
     (let s1 = on_rf (memcheck_merge (out_regs insn 0) (in_regs insn 0)) s
      in (reg_set insn 0 (lib_BEXTRACTU (reg_get insn 0 s1) (field_mask (unat (uim insn 0 + 1)) (unat (uim insn 1))) (uim insn 1)) s1, iss_insn_next insn pc))"

definition p_extract_exec :: "u32 handler" where
  "p_extract_exec insn pc s =
     (let s1 = on_rf (memcheck_merge2 (out_regs insn 0) (in_regs insn 0) (in_regs insn 1)) s
      in (reg_set insn 0 (lib_BEXTRACT (reg_get insn 0 s1) (of_nat (reg_width (reg_get insn 1 s1))) (of_nat (reg_shift (reg_get insn 1 s1)))) s1, iss_insn_next insn pc))"

definition p_extractu_exec :: "u32 handler" where
  "p_extractu_exec insn pc s =
     (let s1 = on_rf (memcheck_merge2 (out_regs insn 0) (in_regs insn 0) (in_regs insn 1)) s; w = reg_width (reg_get insn 1 s1); n = reg_shift (reg_get insn 1 s1)
      in (reg_set insn 0 (lib_BEXTRACTU (reg_get insn 0 s1) (field_mask w n) (of_nat n)) s1, iss_insn_next insn pc))"

definition p_inserti_exec :: "u32 handler" where
  "p_inserti_exec insn pc s =
     (let s1 = on_rf (memcheck_merge (out_regs insn 0) (in_regs insn 0)) s
      in (reg_set insn 0 (lib_BINSERT (reg_get insn 0 s1) (reg_get insn 1 s1) (field_mask (unat (uim insn 0 + 1)) (unat (uim insn 1))) (uim insn 1)) s1, iss_insn_next insn pc))"

definition p_insert_exec :: "u32 handler" where
  "p_insert_exec insn pc s =
     (let s1 = on_rf (memcheck_merge2 (out_regs insn 0) (in_regs insn 0) (in_regs insn 1)) s; w = reg_width (reg_get insn 2 s1); n = reg_shift (reg_get insn 2 s1)
      in (reg_set insn 0 (lib_BINSERT (reg_get insn 0 s1) (reg_get insn 1 s1) (field_mask w n) (of_nat n)) s1, iss_insn_next insn pc))"

section \<open>Branches on an immediate\<close>

definition p_bneimm_exec_common :: "bool \<Rightarrow> u32 handler" where
  "p_bneimm_exec_common perf insn pc s =
     (let s1 = on_rf (memcheck_branch_reg (in_regs insn 0)) s in branch_common (reg_get insn 0 s1 \<noteq> sim insn 1) perf insn pc s1)"

definition p_beqimm_exec_common :: "bool \<Rightarrow> u32 handler" where
  "p_beqimm_exec_common perf insn pc s =
     (let s1 = on_rf (memcheck_branch_reg (in_regs insn 0)) s in branch_common (reg_get insn 0 s1 = sim insn 1) perf insn pc s1)"

definition p_bneimm_exec_fast :: "u32 handler" where "p_bneimm_exec_fast = p_bneimm_exec_common False"
definition p_bneimm_exec :: "u32 handler" where "p_bneimm_exec = p_bneimm_exec_common True"
definition p_beqimm_exec_fast :: "u32 handler" where "p_beqimm_exec_fast = p_beqimm_exec_common False"
definition p_beqimm_exec :: "u32 handler" where "p_beqimm_exec = p_beqimm_exec_common True"

section \<open>Vector instructions\<close>

text \<open>
  The macros \<^verbatim>\<open>PV_OP_RS_EXEC\<close> and \<^verbatim>\<open>PV_OP_RU_EXEC\<close> give six handlers for an operation: on two vectors, on a vector and the low element of a register, and on a vector and an immediate,
  each for halves and for bytes.
\<close>

datatype pv_form = PV_VV | PV_SC | PV_SCI

definition PV_OP_RS_EXEC :: "pv_op \<Rightarrow> bool \<Rightarrow> pv_form \<Rightarrow> u32 handler" where
  "PV_OP_RS_EXEC opr half form insn pc s =
     (case form of
        PV_VV \<Rightarrow> let s1 = on_rf (memcheck_merge2 (out_regs insn 0) (in_regs insn 0) (in_regs insn 1)) s
                 in (reg_set insn 0 (lib_VEC opr half (reg_get insn 0 s1) (reg_get insn 1 s1)) s1, iss_insn_next insn pc)
      | PV_SC \<Rightarrow> let s1 = on_rf (memcheck_merge2 (out_regs insn 0) (in_regs insn 0) (in_regs insn 1)) s
                 in (reg_set insn 0 (lib_VEC_SC opr half (reg_get insn 0 s1) (reg_get insn 1 s1)) s1, iss_insn_next insn pc)
      | PV_SCI \<Rightarrow> let s1 = on_rf (memcheck_merge (out_regs insn 0) (in_regs insn 0)) s
                  in (reg_set insn 0 (lib_VEC_SC opr half (reg_get insn 0 s1) (sim insn 0)) s1, iss_insn_next insn pc))"

definition PV_OP_RU_EXEC :: "pv_op \<Rightarrow> bool \<Rightarrow> pv_form \<Rightarrow> u32 handler" where
  "PV_OP_RU_EXEC opr half form insn pc s =
     (case form of
        PV_VV \<Rightarrow> let s1 = on_rf (memcheck_merge2 (out_regs insn 0) (in_regs insn 0) (in_regs insn 1)) s
                 in (reg_set insn 0 (lib_VEC opr half (reg_get insn 0 s1) (reg_get insn 1 s1)) s1, iss_insn_next insn pc)
      | PV_SC \<Rightarrow> let s1 = on_rf (memcheck_merge2 (out_regs insn 0) (in_regs insn 0) (in_regs insn 1)) s
                 in (reg_set insn 0 (lib_VEC_SC opr half (reg_get insn 0 s1) (reg_get insn 1 s1)) s1, iss_insn_next insn pc)
      | PV_SCI \<Rightarrow> if half
                  then let s1 = on_rf (memcheck_merge2 (out_regs insn 0) (in_regs insn 0) (in_regs insn 1)) s
                       in (reg_set insn 0 (lib_VEC_SC opr half (reg_get insn 0 s1) (uim insn 0)) s1, iss_insn_next insn pc)
                  else let s1 = reg_set insn 0 (lib_VEC_SC opr half (reg_get insn 0 s) (uim insn 0)) s
                       in (on_rf (memcheck_merge (out_regs insn 0) (in_regs insn 0)) s1, iss_insn_next insn pc))"

fun pv_unsigned :: "pv_op \<Rightarrow> bool" where
  "pv_unsigned opr = (opr \<in> {PV_AVGU, PV_MINU, PV_MAXU, PV_SRL, PV_SLL, PV_CMPGTU, PV_CMPGEU, PV_CMPLTU, PV_CMPLEU})"

text \<open>The instances of the macros.\<close>

definition pv_exec :: "pv_op \<Rightarrow> bool \<Rightarrow> pv_form \<Rightarrow> u32 handler" where
  "pv_exec opr half form = (if pv_unsigned opr then PV_OP_RU_EXEC opr half form else PV_OP_RS_EXEC opr half form)"

definition PV_OP1_RS_EXEC :: "bool \<Rightarrow> u32 handler" where
  "PV_OP1_RS_EXEC half insn pc s =
     (let s1 = on_rf (memcheck_merge (out_regs insn 0) (in_regs insn 0)) s
      in (reg_set insn 0 (lib_VEC_ABS half (reg_get insn 0 s1)) s1, iss_insn_next insn pc))"

text \<open>Dot products (\<^verbatim>\<open>PV_OP_RS_EXEC2\<close>, \<^verbatim>\<open>PV_OP_RU_EXEC2\<close>) and dot products with accumulation (\<^verbatim>\<open>PV_OP_RRS_EXEC2\<close>, \<^verbatim>\<open>PV_OP_RRU_EXEC2\<close>).\<close>

definition dot_imm :: "dot_op \<Rightarrow> u32 iss_insn \<Rightarrow> u32" where
  "dot_imm d insn = (if d = DOTUP then uim insn 0 else sim insn 0)"

definition PV_OP_R_EXEC2 :: "dot_op \<Rightarrow> bool \<Rightarrow> pv_form \<Rightarrow> u32 handler" where
  "PV_OP_R_EXEC2 d half form insn pc s =
     (case form of
        PV_VV \<Rightarrow> let s1 = on_rf (memcheck_merge2 (out_regs insn 0) (in_regs insn 0) (in_regs insn 1)) s
                 in (reg_set insn 0 (lib_VEC_DOT d half (reg_get insn 0 s1) (reg_get insn 1 s1)) s1, iss_insn_next insn pc)
      | PV_SC \<Rightarrow> let s1 = on_rf (memcheck_merge2 (out_regs insn 0) (in_regs insn 0) (in_regs insn 1)) s
                 in (reg_set insn 0 (lib_VEC_DOT_SC d half (reg_get insn 0 s1) (reg_get insn 1 s1)) s1, iss_insn_next insn pc)
      | PV_SCI \<Rightarrow> let s1 = on_rf (memcheck_merge (out_regs insn 0) (in_regs insn 0)) s
                  in (reg_set insn 0 (lib_VEC_DOT_SC d half (reg_get insn 0 s1) (dot_imm d insn)) s1, iss_insn_next insn pc))"

definition PV_OP_RR_EXEC2 :: "dot_op \<Rightarrow> bool \<Rightarrow> pv_form \<Rightarrow> u32 handler" where
  "PV_OP_RR_EXEC2 d half form insn pc s =
     (case form of
        PV_VV \<Rightarrow> let s1 = on_rf (memcheck_merge3 (out_regs insn 0) (in_regs insn 0) (in_regs insn 1) (in_regs insn 2)) s
                 in (reg_set insn 0 (lib_VEC_SDOT d half (reg_get insn 2 s1) (reg_get insn 0 s1) (reg_get insn 1 s1)) s1, iss_insn_next insn pc)
      | PV_SC \<Rightarrow> let s1 = on_rf (memcheck_merge3 (out_regs insn 0) (in_regs insn 0) (in_regs insn 1) (in_regs insn 2)) s
                 in (reg_set insn 0 (lib_VEC_SDOT_SC d half (reg_get insn 2 s1) (reg_get insn 0 s1) (reg_get insn 1 s1)) s1, iss_insn_next insn pc)
      | PV_SCI \<Rightarrow> let s1 = on_rf (memcheck_merge2 (out_regs insn 0) (in_regs insn 0) (in_regs insn 1)) s
                  in (reg_set insn 0 (lib_VEC_SDOT_SC d half (reg_get insn 0 s1) (reg_get insn 1 s1) (dot_imm d insn)) s1, iss_insn_next insn pc))"

end
