(* ===== verification/Isa_Pulp_Props.thy ===== *)
theory Isa_Pulp_Props
  imports Isa_Pulp Isa_Memcheck
begin

unbundle bit_operations_syntax

text \<open>
  Vector instructions against integer arithmetic on the elements, bit counting, bit fields, clipping and rounding of the PULP extension, and where its shadow is not sound.
\<close>

text \<open>An instruction that reads the registers 1, 2 and 3 and writes 3, and a core whose register 2 is not initialised and holds \<open>v\<close>.\<close>

definition ex_pulp_insn :: "u32 iss_insn" where
  "ex_pulp_insn = \<lparr>in_regs = (\<lambda>i. i + 1), out_regs = (\<lambda>_. 3), sim = (\<lambda>_. 0), uim = (\<lambda>_. 0), insn_size = 4, nb_in_reg = 2, nb_out_reg = 1,
     sb_reg_mask = 0, sb_out_reg_mask = 0, sb_in_vreg_mask = 0, sb_out_vreg_mask = 0\<rparr>"

definition pulp_cpu :: "u32 \<Rightarrow> u32 cpu" where
  "pulp_cpu v = \<lparr>cpu_rf = \<lparr>rf_regs = (\<lambda>r. if r = 2 then v else 1), rf_mc = (\<lambda>r. if r = 2 then 0 else - 1), rf_mc_id = (\<lambda>_. 0), rf_fault = None,
      rf_pending_addr_buffer_id = 0, rf_mc_enabled = True\<rparr>, cpu_events = []\<rparr>"

section \<open>Elements of a register\<close>

definition elem :: "nat \<Rightarrow> nat \<Rightarrow> u32 \<Rightarrow> int" where
  "elem w i a = take_bit w (drop_bit (w * i) (uint a))"

definition sval :: "nat \<Rightarrow> int \<Rightarrow> int" where
  "sval w x = signed_take_bit (w - 1) x"

text \<open>What an operation computes on two elements, given by their unsigned values; the result is taken modulo \<open>2 ^ w\<close>.\<close>

fun pv_spec :: "pv_op \<Rightarrow> nat \<Rightarrow> int \<Rightarrow> int \<Rightarrow> int" where
  "pv_spec PV_ADD w x y = x + y"
| "pv_spec PV_SUB w x y = x - y"
| "pv_spec PV_AVG w x y = sval w (x + y) div 2"
| "pv_spec PV_AVGU w x y = ((x + y) mod 2 ^ w) div 2"
| "pv_spec PV_MIN w x y = min (sval w x) (sval w y)"
| "pv_spec PV_MINU w x y = min x y"
| "pv_spec PV_MAX w x y = max (sval w x) (sval w y)"
| "pv_spec PV_MAXU w x y = max x y"
| "pv_spec PV_SRL w x y = x div 2 ^ nat (y mod int w)"
| "pv_spec PV_SRA w x y = sval w x div 2 ^ nat (y mod int w)"
| "pv_spec PV_SLL w x y = x * 2 ^ nat (y mod int w)"
| "pv_spec PV_OR w x y = x OR y"
| "pv_spec PV_XOR w x y = x XOR y"
| "pv_spec PV_AND w x y = x AND y"
| "pv_spec PV_CMPEQ w x y = - of_bool (x = y)"
| "pv_spec PV_CMPNE w x y = - of_bool (x \<noteq> y)"
| "pv_spec PV_CMPGT w x y = - of_bool (sval w x > sval w y)"
| "pv_spec PV_CMPGE w x y = - of_bool (sval w x \<ge> sval w y)"
| "pv_spec PV_CMPLT w x y = - of_bool (sval w x < sval w y)"
| "pv_spec PV_CMPLE w x y = - of_bool (sval w x \<le> sval w y)"
| "pv_spec PV_CMPGTU w x y = - of_bool (x > y)"
| "pv_spec PV_CMPGEU w x y = - of_bool (x \<ge> y)"
| "pv_spec PV_CMPLTU w x y = - of_bool (x < y)"
| "pv_spec PV_CMPLEU w x y = - of_bool (x \<le> y)"

lemma sval_sint: "sval LENGTH('e) (uint x) = sint (x :: 'e::len word)"
  by (simp add: sval_def sint_uint)

lemma shift_mask_mod:
  assumes "LENGTH('e::len) = 2 ^ k"
  shows "shift_mask (b :: 'e word) = nat (uint b mod int LENGTH('e))"
proof -
  have "b AND of_nat (LENGTH('e) - 1) = take_bit k b"
    by (simp add: assms take_bit_eq_mask mask_eq_exp_minus_1 of_nat_diff)
  then show ?thesis
    by (simp add: shift_mask_def unsigned_take_bit_eq del: of_nat_diff) (simp add: assms take_bit_eq_mod nat_mod_distrib nat_power_eq)
qed

lemma uint_flag: "uint (vec_flag p :: 'e::len word) = take_bit LENGTH('e) (- of_bool p)"
  by (simp add: vec_flag_def unsigned_minus_1_eq_mask take_bit_minus_one_eq_mask)

lemma uint_take_sint: "take_bit LENGTH('e) (sint x) = uint (x :: 'e::len word)"
  using uint_sint [of x] by simp

lemma take_uint: "take_bit LENGTH('e) (uint x) = uint (x :: 'e::len word)"
  by (rule bit_eqI) (auto simp: bit_simps dest: bit_imp_le_length)

lemma uint_drop: "uint (drop_bit n x) = uint (x :: 'e::len word) div 2 ^ n"
proof -
  have "uint (drop_bit n x) = drop_bit n (uint x)" by (rule bit_eqI) (auto simp: bit_simps dest: bit_imp_le_length)
  then show ?thesis by (simp only: drop_bit_eq_div)
qed

lemma uint_push: "uint (push_bit n x) = take_bit LENGTH('e) (uint (x :: 'e::len word) * 2 ^ n)"
proof -
  have "uint (push_bit n x) = take_bit LENGTH('e) (push_bit n (uint x))" by (rule bit_eqI) (auto simp: bit_simps)
  then show ?thesis by (simp only: push_bit_eq_mult)
qed

lemma uint_add_take: "uint (x + y) = take_bit LENGTH('e) (uint x + uint (y :: 'e::len word))"
  by (simp only: uint_word_ariths take_bit_eq_mod)

lemma uint_diff_take: "uint (x - y) = take_bit LENGTH('e) (uint x - uint (y :: 'e::len word))"
  by (simp only: uint_word_ariths take_bit_eq_mod)

lemma sint_drop: "uint (signed_drop_bit n x) = take_bit LENGTH('e) (sint (x :: 'e::len word) div 2 ^ n)"
  by (metis drop_bit_eq_div sint_signed_drop_bit_eq uint_take_sint)

lemma sint_add_sval: "sint (x + y) = sval LENGTH('e) (uint x + uint (y :: 'e::len word))"
  by (simp add: sval_def sint_uint uint_add_take signed_take_bit_take_bit)

lemma vec_expr_spec:
  fixes a b :: "'e::len word"
  assumes "LENGTH('e) = 2 ^ k"
  shows "uint (vec_expr opr a b) = take_bit LENGTH('e) (pv_spec opr LENGTH('e) (uint a) (uint b))"
proof (cases opr)
  case PV_AVGU
  have "uint (a + b) div 2 = take_bit LENGTH('e) (uint (a + b) div 2)"
    using take_uint [of "drop_bit 1 (a + b)"] by (simp only: uint_drop) simp
  then show ?thesis using PV_AVGU uint_drop [of 1 "a + b"] by (simp add: uint_add_take take_bit_eq_mod)
next
  case PV_SRL
  then show ?thesis
    using take_uint [of "drop_bit (shift_mask b) a"] by (simp only: vec_expr.simps pv_spec.simps uint_drop shift_mask_mod [OF assms])
next
  case PV_AVG
  then show ?thesis using sint_drop [of 1 "a + b"] by (simp add: sint_add_sval)
next
  case PV_SRA
  then show ?thesis by (simp only: vec_expr.simps pv_spec.simps sint_drop sval_sint shift_mask_mod [OF assms])
next
  case PV_SLL
  then show ?thesis by (simp only: vec_expr.simps pv_spec.simps uint_push shift_mask_mod [OF assms])
qed (auto simp: uint_flag take_uint sval_sint uint_add_take uint_diff_take uint_take_sint
    unsigned_or_eq unsigned_xor_eq unsigned_and_eq word_less_def word_le_def min_def max_def word_uint_eq_iff)

lemma bit_of_lanes:
  fixes xs :: "'e::len word list"
  assumes "LENGTH('e) * length xs \<le> 32" "i < length xs" "j < LENGTH('e)"
  shows "bit (of_lanes xs) (LENGTH('e) * i + j) = bit (xs ! i) j"
  using assms
proof (induction xs arbitrary: i)
  case (Cons x xs)
  show ?case
  proof (cases i)
    case 0
    then show ?thesis using Cons.prems by (simp add: of_lanes_def bit_simps)
  next
    case (Suc n)
    have "LENGTH('e) * Suc i \<le> LENGTH('e) * length (x # xs)" using Cons.prems(2) by (intro mult_le_mono2) simp
    then have "LENGTH('e) * i + j < 32" using Cons.prems(1,3) by (simp only: mult_Suc_right)
    moreover have "bit (of_lanes xs) (LENGTH('e) * n + j) = bit (xs ! n) j"
      using Cons.prems Suc by (intro Cons.IH) auto
    ultimately show ?thesis using Suc
      by (simp add: of_lanes_def bit_simps) (auto dest: bit_imp_le_length)
  qed
qed simp

lemma elem_of_lanes:
  fixes xs :: "'e::len word list"
  assumes "LENGTH('e) * length xs \<le> 32" "i < length xs"
  shows "elem LENGTH('e) i (of_lanes xs) = uint (xs ! i)"
  by (rule bit_eqI) (use bit_of_lanes [OF assms] in \<open>auto simp: elem_def bit_simps dest: bit_imp_le_length\<close>)

lemma uint_elem: "uint (ucast (drop_bit (i * LENGTH('e)) a) :: 'e::len word) = elem LENGTH('e) i a"
  by (rule bit_eqI) (auto simp: elem_def bit_simps ac_simps)

lemma length_lanes [simp]: "length (lanes a :: 'e::len word list) = 32 div LENGTH('e)"
  by (simp add: lanes_def)

lemma nth_lanes: "i < 32 div LENGTH('e) \<Longrightarrow> uint ((lanes a :: 'e::len word list) ! i) = elem LENGTH('e) i a"
  by (simp add: lanes_def uint_elem)

lemma elem_VEC_OP:
  assumes "LENGTH('e::len) = 2 ^ k" "i < 32 div LENGTH('e)"
  shows "elem LENGTH('e) i (VEC_OP (vec_expr opr :: 'e word \<Rightarrow> 'e word \<Rightarrow> 'e word) a b) =
      take_bit LENGTH('e) (pv_spec opr LENGTH('e) (elem LENGTH('e) i a) (elem LENGTH('e) i b))"
proof -
  have "elem LENGTH('e) i (VEC_OP (vec_expr opr :: 'e word \<Rightarrow> 'e word \<Rightarrow> 'e word) a b) =
      uint (vec_expr opr ((lanes a :: 'e word list) ! i) (lanes b ! i))"
    unfolding VEC_OP_def using assms(2) by (subst elem_of_lanes) simp_all
  then show ?thesis by (simp only: vec_expr_spec [OF assms(1)] nth_lanes [OF assms(2)])
qed

lemma elem_VEC_OP_SC:
  assumes "LENGTH('e::len) = 2 ^ k" "i < 32 div LENGTH('e)"
  shows "elem LENGTH('e) i (VEC_OP_SC (vec_expr opr :: 'e word \<Rightarrow> 'e word \<Rightarrow> 'e word) a (ucast (b :: u32))) =
      take_bit LENGTH('e) (pv_spec opr LENGTH('e) (elem LENGTH('e) i a) (elem LENGTH('e) 0 b))"
proof -
  have b: "uint (ucast b :: 'e word) = elem LENGTH('e) 0 b" using uint_elem [where 'e = 'e, of 0 b] by simp
  have "elem LENGTH('e) i (VEC_OP_SC (vec_expr opr :: 'e word \<Rightarrow> 'e word \<Rightarrow> 'e word) a (ucast b)) =
      uint (vec_expr opr ((lanes a :: 'e word list) ! i) (ucast b))"
    unfolding VEC_OP_SC_def using assms(2) by (subst elem_of_lanes) simp_all
  then show ?thesis by (simp only: vec_expr_spec [OF assms(1)] nth_lanes [OF assms(2)] b)
qed

definition elem_width :: "bool \<Rightarrow> nat" where "elem_width half = (if half then 16 else 8)"

lemma lib_VEC_spec:
  assumes "i < 32 div elem_width half"
  shows "elem (elem_width half) i (lib_VEC opr half a b) =
      take_bit (elem_width half) (pv_spec opr (elem_width half) (elem (elem_width half) i a) (elem (elem_width half) i b))"
    and "elem (elem_width half) i (lib_VEC_SC opr half a b) =
      take_bit (elem_width half) (pv_spec opr (elem_width half) (elem (elem_width half) i a) (elem (elem_width half) 0 b))"
proof -
  have k: "LENGTH(16) = 2 ^ 4" "LENGTH(8) = 2 ^ 3" by simp_all
  show "elem (elem_width half) i (lib_VEC opr half a b) =
      take_bit (elem_width half) (pv_spec opr (elem_width half) (elem (elem_width half) i a) (elem (elem_width half) i b))"
    using assms elem_VEC_OP [OF k(1), of i opr a b] elem_VEC_OP [OF k(2), of i opr a b] by (cases half) (simp_all add: lib_VEC_def elem_width_def)
  show "elem (elem_width half) i (lib_VEC_SC opr half a b) =
      take_bit (elem_width half) (pv_spec opr (elem_width half) (elem (elem_width half) i a) (elem (elem_width half) 0 b))"
    using assms elem_VEC_OP_SC [OF k(1), of i opr a b] elem_VEC_OP_SC [OF k(2), of i opr a b] by (cases half) (simp_all add: lib_VEC_SC_def elem_width_def)
qed

text \<open>The second operand of element \<open>i\<close>.\<close>

definition pv_operand :: "pv_op \<Rightarrow> nat \<Rightarrow> pv_form \<Rightarrow> u32 iss_insn \<Rightarrow> u32 cpu \<Rightarrow> nat \<Rightarrow> int" where
  "pv_operand opr w form insn s i =
     (case form of PV_VV \<Rightarrow> elem w i (reg_get insn 1 s) | PV_SC \<Rightarrow> elem w 0 (reg_get insn 1 s)
      | PV_SCI \<Rightarrow> take_bit w (uint (if pv_unsigned opr then uim insn 0 else sim insn 0)))"

lemma elem_0: "elem w 0 a = take_bit w (uint a)"
  by (simp add: elem_def)

lemma pv_regs_merge [simp]: "rf_regs (memcheck_merge3 r a b c rf) = rf_regs rf"
  by (simp add: memcheck_merge3_def memcheck_set_valid_def)

lemma pv_exec_regs:
  fixes s :: "u32 cpu"
  shows "rf_regs (cpu_rf (fst (pv_exec opr half form insn pc s))) =
     (rf_regs (cpu_rf s))(out_regs insn 0 :=
        (case form of PV_VV \<Rightarrow> lib_VEC opr half (reg_get insn 0 s) (reg_get insn 1 s)
         | PV_SC \<Rightarrow> lib_VEC_SC opr half (reg_get insn 0 s) (reg_get insn 1 s)
         | PV_SCI \<Rightarrow> lib_VEC_SC opr half (reg_get insn 0 s) (if pv_unsigned opr then uim insn 0 else sim insn 0)))"
    and "snd (pv_exec opr half form insn pc s) = iss_insn_next insn pc"
  by (auto simp: pv_exec_def PV_OP_RS_EXEC_def PV_OP_RU_EXEC_def Let_def reg_set_def on_rf_def set_reg_def reg_get_def get_reg_def
      split: pv_form.splits)

text \<open>
  C22: A vector instruction, in each of its forms and for halves and bytes, puts in every element of the destination the result of the operation on the elements of the operands, read as integers,
  modulo the width of the element; all other registers are kept and the next instruction follows.
\<close>

theorem pv_exec_elements:
  fixes s :: "u32 cpu"
  assumes "w = (if half then 16 else 8)" "i < 32 div w"
  shows "elem w i (rf_regs (cpu_rf (fst (pv_exec opr half form insn pc s))) (out_regs insn 0)) =
      pv_spec opr w (elem w i (reg_get insn 0 s)) (pv_operand opr w form insn s i) mod 2 ^ w \<and>
    (\<forall>r. r \<noteq> out_regs insn 0 \<longrightarrow> rf_regs (cpu_rf (fst (pv_exec opr half form insn pc s))) r = rf_regs (cpu_rf s) r) \<and>
    snd (pv_exec opr half form insn pc s) = pc + of_nat (insn_size insn)"
proof -
  have w: "w = elem_width half" using assms(1) by (simp add: elem_width_def)
  then have "elem w i (rf_regs (cpu_rf (fst (pv_exec opr half form insn pc s))) (out_regs insn 0)) =
      pv_spec opr w (elem w i (reg_get insn 0 s)) (pv_operand opr w form insn s i) mod 2 ^ w"
    using lib_VEC_spec assms(2)
    by (auto simp: pv_exec_regs pv_operand_def take_bit_eq_mod elem_0 split: pv_form.splits)
  then show ?thesis by (simp add: pv_exec_regs iss_insn_next_def)
qed

text \<open>The highest byte of a vector addition whose sum wraps in that byte.\<close>

theorem pv_exec_elements_witness:
  "elem 8 3 (rf_regs (cpu_rf (fst (pv_exec PV_ADD False PV_SC (ex_pulp_insn\<lparr>in_regs := (\<lambda>_. 2)\<rparr>) 0 (pulp_cpu 0xF00000F0)))) 3) = 0xE0"
proof -
  let ?i = "ex_pulp_insn\<lparr>in_regs := (\<lambda>_. 2)\<rparr>"
  have "elem 8 3 (reg_get ?i 0 (pulp_cpu 0xF00000F0)) = 0xF0" "pv_operand PV_ADD 8 PV_SC ?i (pulp_cpu 0xF00000F0) 3 = 0xF0" by code_simp+
  then show ?thesis using pv_exec_elements [of 8 False 3 PV_ADD PV_SC ?i 0 "pulp_cpu 0xF00000F0"] by (simp add: ex_pulp_insn_def)
qed

end
