(* ===== verification/Isa_Pulp_Bits.thy ===== *)
theory Isa_Pulp_Bits
  imports Isa_Pulp_Props
begin

unbundle bit_operations_syntax

text \<open>
  Bit counting, bit fields, clipping and rounding of the PULP extension against their specifications, and the instructions whose shadow is not sound.
\<close>

text \<open>The value a handler leaves in its destination.\<close>

definition result :: "u32 handler \<Rightarrow> u32 iss_insn \<Rightarrow> u32 \<Rightarrow> u32 cpu \<Rightarrow> u32" where
  "result h insn pc s = rf_regs (cpu_rf (fst (h insn pc s))) (out_regs insn 0)"

lemmas result_simps = result_def Let_def reg_set_def on_rf_def set_reg_def reg_get_def get_reg_def

section \<open>Bit counting\<close>

lemma ffs_zero: "c_ffs a = 0 \<longleftrightarrow> a = 0"
proof -
  have "c_ffs a = 0 \<longleftrightarrow> (\<forall>i < 32. \<not> bit a i)"
    by (auto simp: c_ffs_def find_None_iff find_Some_iff split: option.splits)
  also have "\<dots> \<longleftrightarrow> a = 0" by (auto intro: bit_word_eqI)
  finally show ?thesis .
qed

lemma ffs_Suc:
  assumes "a \<noteq> 0"
  shows "c_ffs a = Suc (LEAST i. bit a i)"
proof -
  have "\<exists>i < 32. bit a i" using assms by (auto simp: bit_eq_iff intro: bit_imp_le_length)
  then obtain i where i: "find (bit a) [0..<32] = Some i" by (cases "find (bit a) [0..<32]") (auto simp: find_None_iff)
  then have "bit a i" "\<And>j. j < i \<Longrightarrow> \<not> bit a j" by (auto simp: find_Some_iff)
  then have "(LEAST i. bit a i) = i" by (intro Least_equality) (auto simp: not_less [symmetric])
  then show ?thesis using i by (simp add: c_ffs_def)
qed

definition bit_reverse :: "u32 \<Rightarrow> u32" where
  "bit_reverse t =
     (let t1 = drop_bit 1 (t AND 0xaaaaaaaa) OR push_bit 1 (t AND 0x55555555);
          t2 = drop_bit 2 (t1 AND 0xcccccccc) OR push_bit 2 (t1 AND 0x33333333);
          t3 = drop_bit 4 (t2 AND 0xf0f0f0f0) OR push_bit 4 (t2 AND 0x0f0f0f0f);
          t4 = drop_bit 8 (t3 AND 0xff00ff00) OR push_bit 8 (t3 AND 0x00ff00ff)
      in drop_bit 16 t4 OR push_bit 16 t4)"

lemma list_all_lessD: "list_all P [0..<m] \<Longrightarrow> n < m \<Longrightarrow> P n"
  by (simp add: list_all_iff)

definition swapped :: "nat \<Rightarrow> nat \<Rightarrow> nat" where
  "swapped k n = (if odd (n div k) then n - k else n + k)"

lemma bit_swap:
  fixes t m m' :: u32
  assumes "\<And>n. n < 32 \<Longrightarrow> bit m n = odd (n div k)" "\<And>n. n < 32 \<Longrightarrow> bit m' n = even (n div k)" "0 < k" "n < 32"
  shows "bit (drop_bit k (t AND m) OR push_bit k (t AND m')) n = bit t (swapped k n)"
proof -
  have "(k + n) div k = Suc (n div k)" using assms(3) div_add_self1 [of k n] by simp
  then have up: "bit (drop_bit k (t AND m)) n \<longleftrightarrow> even (n div k) \<and> bit t (n + k)"
    using assms(1) [of "k + n"] bit_imp_le_length [of t "k + n"] by (auto simp: bit_simps add.commute [of n])
  have down: "bit (push_bit k (t AND m')) n \<longleftrightarrow> odd (n div k) \<and> bit t (n - k)"
  proof (cases "k \<le> n")
    case True
    then have "n div k = Suc ((n - k) div k)" using assms(3) by (simp add: le_div_geq)
    then show ?thesis using True assms(2) [of "n - k"] assms(4) by (auto simp: bit_simps)
  qed (simp add: bit_simps)
  show ?thesis unfolding bit_or_iff up down by (auto simp: swapped_def)
qed

lemma swap_masks:
  "list_all (\<lambda>n. bit (0xaaaaaaaa :: u32) n = odd (n div 1)) [0..<32]" "list_all (\<lambda>n. bit (0x55555555 :: u32) n = even (n div 1)) [0..<32]"
  "list_all (\<lambda>n. bit (0xcccccccc :: u32) n = odd (n div 2)) [0..<32]" "list_all (\<lambda>n. bit (0x33333333 :: u32) n = even (n div 2)) [0..<32]"
  "list_all (\<lambda>n. bit (0xf0f0f0f0 :: u32) n = odd (n div 4)) [0..<32]" "list_all (\<lambda>n. bit (0x0f0f0f0f :: u32) n = even (n div 4)) [0..<32]"
  "list_all (\<lambda>n. bit (0xff00ff00 :: u32) n = odd (n div 8)) [0..<32]" "list_all (\<lambda>n. bit (0x00ff00ff :: u32) n = even (n div 8)) [0..<32]"
  by code_simp+

lemma swaps_reverse:
  assumes "n < 32"
  shows "swapped 1 (swapped 2 (swapped 4 (swapped 8 (swapped 16 n)))) = 31 - n"
proof -
  have "map (swapped 1) (map (swapped 2) (map (swapped 4) (map (swapped 8) (map (swapped 16) [0..<32])))) = map (\<lambda>n. 31 - n) [0..<32]"
    by code_simp
  then have "\<forall>n \<in> set [0..<32]. swapped 1 (swapped 2 (swapped 4 (swapped 8 (swapped 16 n)))) = 31 - n"
    by (simp only: map_map map_eq_conv comp_apply)
  then show ?thesis using assms by (simp only: set_upt atLeastLessThan_iff) simp
qed

lemma swapped_less: "n < 32 \<Longrightarrow> k \<in> {1, 2, 4, 8, 16} \<Longrightarrow> swapped k n < 32"
proof -
  have "list_all (\<lambda>n. \<forall>k \<in> {1, 2, 4, 8, 16}. swapped k n < 32) [0..<32]" by code_simp
  then show "n < 32 \<Longrightarrow> k \<in> {1, 2, 4, 8, 16} \<Longrightarrow> swapped k n < 32" by (auto dest: list_all_lessD)
qed

lemma bit_bit_reverse:
  assumes "n < 32"
  shows "bit (bit_reverse t) n = bit t (31 - n)"
proof -
  note s = bit_swap [OF list_all_lessD [OF swap_masks(1)] list_all_lessD [OF swap_masks(2)]]
    bit_swap [OF list_all_lessD [OF swap_masks(3)] list_all_lessD [OF swap_masks(4)]]
    bit_swap [OF list_all_lessD [OF swap_masks(5)] list_all_lessD [OF swap_masks(6)]]
    bit_swap [OF list_all_lessD [OF swap_masks(7)] list_all_lessD [OF swap_masks(8)]]
  have "bit (drop_bit 16 v OR push_bit 16 v) n = bit v (swapped 16 n)" for v :: u32
  proof (cases "n < 16")
    case False
    then have "n div 16 = 1" using assms by simp
    then show ?thesis using assms False bit_imp_le_length [of v "n + 16"] by (auto simp: bit_simps swapped_def add.commute)
  qed (auto simp: bit_simps swapped_def add.commute)
  then show ?thesis using assms swaps_reverse [OF assms]
    by (simp only: bit_reverse_def Let_def s swapped_less insert_iff empty_iff simp_thms zero_less_numeral zero_less_one)
qed

lemma bit_reverse_zero: "bit_reverse t = 0 \<longleftrightarrow> t = 0"
proof
  assume r: "bit_reverse t = 0"
  show "t = 0"
  proof (rule bit_word_eqI)
    fix n assume "n < LENGTH(32)"
    then show "bit t n = bit 0 n" using bit_bit_reverse [of "31 - n" t] r by simp
  qed
qed (simp add: bit_reverse_def)

lemma lib_FL1_spec: "lib_FL1 t = (if t = 0 then 32 else of_nat (Max {i. bit t i}))"
proof (cases "t = 0")
  case True
  then show ?thesis using ffs_zero [of "bit_reverse t"] by (simp add: lib_FL1_def bit_reverse_def Let_def)
next
  case False
  define l where "l = (LEAST i. bit (bit_reverse t) i)"
  have "\<exists>i. bit (bit_reverse t) i" using False bit_reverse_zero [of t] by (auto simp: bit_eq_iff)
  then have l: "bit (bit_reverse t) l" unfolding l_def by (rule LeastI_ex)
  then have l32: "l < 32" by (auto dest: bit_imp_le_length)
  have "Max {i. bit t i} = 31 - l"
  proof (rule Max_eqI)
    show "finite {i. bit t i}" by (rule finite_subset [of _ "{..<32}"]) (auto dest: bit_imp_le_length)
    show "31 - l \<in> {i. bit t i}" using l l32 by (simp add: bit_bit_reverse)
    fix i assume "i \<in> {i. bit t i}"
    then have i: "bit t i" "i < 32" by (auto dest: bit_imp_le_length)
    then have "l \<le> 31 - i" unfolding l_def by (intro Least_le) (simp add: bit_bit_reverse)
    then show "i \<le> 31 - l" using i(2) by linarith
  qed
  moreover have "c_ffs (bit_reverse t) = Suc l" using False by (simp add: ffs_Suc bit_reverse_zero l_def)
  ultimately show ?thesis using False by (simp add: lib_FL1_def bit_reverse_def Let_def)
qed

lemma popcount_card: "popcount a = card {i. bit a i}"
proof -
  have "{i. bit a i} = set (filter (bit a) [0..<32])" by (auto dest: bit_imp_le_length)
  then show ?thesis by (simp only: popcount_def) (simp add: distinct_card [symmetric])
qed

lemma clrsb_le: "clrsb a \<le> 31"
  unfolding clrsb_def by (rule order_trans [OF length_takeWhile_le]) simp

lemma nth_down: "i < m \<Longrightarrow> rev [0..<m] ! i = m - Suc i"
  by (simp add: rev_nth)

lemma clrsb_same:
  assumes "i < clrsb a"
  shows "bit a (30 - i) = bit a 31"
proof -
  let ?P = "\<lambda>i. bit a i = bit a 31"
  have "?P (takeWhile ?P (rev [0..<31]) ! i)"
    using set_takeWhileD [OF nth_mem [OF assms [unfolded clrsb_def]]] by (rule conjunct2)
  moreover have "takeWhile ?P (rev [0..<31]) ! i = rev [0..<31] ! i" by (rule takeWhile_nth [OF assms [unfolded clrsb_def]])
  moreover have "rev [0..<31] ! i = 30 - i" using nth_down [of i 31] assms clrsb_le [of a] by (simp del: upt_rec_numeral)
  ultimately show ?thesis by (simp only:)
qed

lemma clrsb_next:
  assumes "clrsb a < 31"
  shows "bit a (30 - clrsb a) \<noteq> bit a 31"
proof -
  have "length (takeWhile (\<lambda>i. bit a i = bit a 31) (rev [0..<31])) < length (rev [0..<31])"
    using assms by (simp only: clrsb_def length_rev length_upt diff_zero)
  from nth_length_takeWhile [OF this] have "bit a (rev [0..<31] ! clrsb a) \<noteq> bit a 31" by (simp only: clrsb_def [symmetric] not_False_eq_True)
  moreover have "rev [0..<31] ! clrsb a = 30 - clrsb a" using nth_down [of "clrsb a" 31] assms by (simp del: upt_rec_numeral)
  ultimately show ?thesis by (simp only: not_False_eq_True)
qed

lemma signed_fits_iff:
  assumes "n < 32"
  shows "signed_take_bit n a = a \<longleftrightarrow> (\<forall>k. n \<le> k \<and> k < 32 \<longrightarrow> bit (a :: u32) k = bit a 31)"
proof
  assume s: "signed_take_bit n a = a"
  have k: "bit a k = bit a n" if "n \<le> k" "k < 32" for k
    using that arg_cong [OF s, of "\<lambda>x. bit x k"] by (simp add: bit_signed_take_bit_iff min_def)
  show "\<forall>k. n \<le> k \<and> k < 32 \<longrightarrow> bit a k = bit a 31"
  proof (intro allI impI)
    fix j assume "n \<le> j \<and> j < 32"
    then show "bit a j = bit a 31" using k [of 31] k [of j] assms by simp
  qed
next
  assume b: "\<forall>k. n \<le> k \<and> k < 32 \<longrightarrow> bit a k = bit a 31"
  show "signed_take_bit n a = a"
  proof (rule bit_word_eqI)
    fix k assume k: "k < LENGTH(32)"
    show "bit (signed_take_bit n a) k = bit a k"
      using spec [OF b, of k] spec [OF b, of n] assms k by (cases "k \<le> n") (simp_all add: bit_signed_take_bit_iff min_def)
  qed
qed

lemma clrsb_fits: "signed_take_bit (31 - clrsb a) a = a"
proof -
  have "bit a k = bit a 31" if "31 - clrsb a \<le> k" "k < 32" for k
  proof (cases "k = 31")
    case False
    then have "30 - (30 - k) = k" "30 - k < clrsb a" using that by linarith+
    then show ?thesis using clrsb_same [of "30 - k" a] by simp
  qed simp
  then have "\<forall>k. 31 - clrsb a \<le> k \<and> k < 32 \<longrightarrow> bit a k = bit a 31" by blast
  then show ?thesis by (rule signed_fits_iff [THEN iffD2, rotated]) simp
qed

lemma clrsb_spec: "clrsb a = Max {c. c \<le> 31 \<and> signed_take_bit (31 - c) a = a}"
proof (rule sym, rule Max_eqI)
  show "finite {c. c \<le> 31 \<and> signed_take_bit (31 - c) a = a}" by (rule finite_subset [of _ "{..31}"]) auto
  show "clrsb a \<in> {c. c \<le> 31 \<and> signed_take_bit (31 - c) a = a}" using clrsb_le clrsb_fits by blast
  fix c assume "c \<in> {c. c \<le> 31 \<and> signed_take_bit (31 - c) a = a}"
  then have c: "c \<le> 31" "signed_take_bit (31 - c) a = a" by blast+
  show "c \<le> clrsb a"
  proof (rule ccontr)
    assume less: "\<not> c \<le> clrsb a"
    have "bit a (30 - clrsb a) = bit a 31"
      using signed_fits_iff [THEN iffD1, OF _ c(2), THEN spec, of "30 - clrsb a"] less c(1) by linarith
    then show False using clrsb_next [of a] less c(1) by simp
  qed
qed

text \<open>
  C33: The bit counting instructions: the index of the lowest and of the highest bit set, 32 for a register without one, the number of bits set, and the number of copies of the sign bit that can be
  dropped, 0 for a register of 0. The index of the highest bit is found by the reversal of the bits.
\<close>

theorem bit_counts:
  fixes s :: "u32 cpu"
  shows "let a = reg_get insn 0 s in
     result p_ff1_exec insn pc s = (if a = 0 then 32 else of_nat (LEAST i. bit a i)) \<and>
     result p_fl1_exec insn pc s = (if a = 0 then 32 else of_nat (Max {i. bit a i})) \<and>
     result p_cnt_exec insn pc s = of_nat (card {i. bit a i}) \<and>
     result p_clb_exec insn pc s = (if a = 0 then 0 else of_nat (Max {c. c \<le> 31 \<and> signed_take_bit (31 - c) a = a}))"
proof -
  define a where "a = reg_get insn 0 s"
  have r: "result p_ff1_exec insn pc s = lib_FF1 a" "result p_fl1_exec insn pc s = lib_FL1 a"
    "result p_cnt_exec insn pc s = lib_CNT a" "result p_clb_exec insn pc s = lib_CLB a"
    by (simp_all add: result_simps a_def p_ff1_exec_def p_fl1_exec_def p_cnt_exec_def p_clb_exec_def)
  have "lib_FF1 a = (if a = 0 then 32 else of_nat (LEAST i. bit a i))"
    using ffs_zero [of a] ffs_Suc [of a] by (simp add: lib_FF1_def)
  then show ?thesis unfolding r a_def [symmetric] by (simp add: lib_FL1_spec lib_CNT_def popcount_card lib_CLB_def clrsb_spec)
qed

end
