(* ===== verification/Isa_Pulp_Fields.thy ===== *)
theory Isa_Pulp_Fields
  imports Isa_Pulp_Bits
begin

unbundle bit_operations_syntax

text \<open>
  Bit fields, clipping, rounding, dot products and permutations of the PULP extension, and the instructions whose shadow is not sound.
\<close>

section \<open>Bit fields\<close>

lemma bit_field_mask: "bit (field_mask w n) i \<longleftrightarrow> i < 32 \<and> n \<le> i \<and> i < n + w"
proof -
  have "push_bit w 1 - 1 = (mask w :: u64)" by (simp add: mask_eq_exp_minus_1)
  then show ?thesis by (auto simp: field_mask_def bit_simps)
qed

lemma insert_extractu:
  assumes "w + n \<le> 32" "n < 32"
  shows "lib_BEXTRACTU (lib_BINSERT a b (field_mask w n) (of_nat n)) (field_mask w n) (of_nat n) = take_bit w a"
proof -
  have "unat (of_nat n :: u32) = n" using assms(2) by (simp add: unat_of_nat)
  then show ?thesis unfolding lib_BEXTRACTU_def lib_BINSERT_def using assms
    by (intro bit_word_eqI) (auto simp: bit_simps bit_field_mask)
qed

lemma insert_outside:
  assumes "n < 32" "\<not> (n \<le> i \<and> i < n + w)"
  shows "bit (lib_BINSERT a b (field_mask w n) (of_nat n)) i = bit b i"
  unfolding lib_BINSERT_def using assms by (auto simp: bit_simps bit_field_mask dest: bit_imp_le_length)

lemma getSignedField_spec:
  assumes "0 < w" "w \<le> 32"
  shows "getSignedField v n w = signed_take_bit (w - 1) (drop_bit n v)"
proof -
  have f: "getField v n w = take_bit w (drop_bit n v)"
    unfolding getField_def low_mask using assms by (intro bit_word_eqI) (auto simp: bit_simps)
  show ?thesis
  proof (rule bit_word_eqI)
    fix k assume "k < LENGTH(32)"
    moreover have "min k (w - 1) = (if k < w then k else w - 1)" using assms(1) by (auto simp: min_def)
    ultimately show "bit (getSignedField v n w) k = bit (signed_take_bit (w - 1) (drop_bit n v)) k"
      using assms by (simp add: getSignedField_def int_get_signed_value_def f bit_simps bit_signed_take_bit_iff) auto
  qed
qed

lemma extract_clamp:
  assumes "w + n \<le> 32"
  shows "lib_BEXTRACT v (of_nat w) (of_nat n) = getSignedField v n w"
proof -
  have "\<not> of_nat n + of_nat w > (32 :: u32)"
  proof -
    have "unat (of_nat (n + w) :: u32) = n + w" using assms by (simp only: unat_of_nat) simp
    then show ?thesis using assms by (simp add: word_less_nat_alt)
  qed
  moreover have "unat (of_nat n :: u32) = n" "unat (of_nat w :: u32) = w" using assms by (simp_all add: unat_of_nat)
  ultimately show ?thesis by (simp add: lib_BEXTRACT_def Let_def)
qed

text \<open>
  C34: A bit field that an insert instruction has written is what the extract instructions with the same width and position read, zero- or sign-extended; the insert changes no bit outside the field.
\<close>

theorem field_round_trip:
  fixes s :: "u32 cpu"
  assumes "unat (uim insn 0) < 32" "w = unat (uim insn 0) + 1" "n = unat (uim insn 1)" "w + n \<le> 32"
    and "in_regs ext 0 = out_regs insn 0" "uim ext = uim insn" "s1 = fst (p_inserti_exec insn pc s)"
  shows "result p_extractui_exec ext pc1 s1 = take_bit w (reg_get insn 0 s) \<and>
    result p_extracti_exec ext pc1 s1 = signed_take_bit (w - 1) (reg_get insn 0 s) \<and>
    (\<forall>i. \<not> (n \<le> i \<and> i < n + w) \<longrightarrow> bit (result p_inserti_exec insn pc s) i = bit (reg_get insn 1 s) i)"
proof -
  let ?v = "lib_BINSERT (reg_get insn 0 s) (reg_get insn 1 s) (field_mask w n) (of_nat n)"
  have w: "unat (uim insn 0 + 1) = w" "uim insn 0 + 1 = of_nat w" "uim insn 1 = of_nat n"
    using assms(1-3) by (simp_all add: unat_word_ariths)
  have n: "n < 32" "w \<le> 32" using assms(2,4) by simp_all
  have un: "unat (of_nat n :: u32) = n" using n(1) by (simp only: unat_of_nat) simp
  have ins: "result p_inserti_exec insn pc s = ?v"
    by (simp add: result_simps p_inserti_exec_def w(1) un w(3) [simplified])
  then have v: "reg_get ext 0 s1 = ?v"
    using assms(5,7) by (simp add: result_def reg_get_def get_reg_def)
  have u: "result p_extractui_exec ext pc1 s1 = lib_BEXTRACTU ?v (field_mask w n) (of_nat n)"
    using v assms(6) by (simp add: p_extractui_exec_def w(1) un w(3) [simplified] result_simps)
  have x: "result p_extracti_exec ext pc1 s1 = lib_BEXTRACT ?v (of_nat w) (of_nat n)"
    using v assms(6) by (simp add: p_extracti_exec_def w(2) w(3) [simplified] result_simps)
  have "drop_bit n ?v AND mask w = take_bit w (reg_get insn 0 s)"
    using n assms(4) by (intro bit_word_eqI) (auto simp: lib_BINSERT_def bit_simps bit_field_mask unat_of_nat)
  then have "signed_take_bit (w - 1) (drop_bit n ?v) = signed_take_bit (w - 1) (reg_get insn 0 s)"
    using assms(2) signed_take_bit_take_bit [of "w - 1" w "drop_bit n ?v"] signed_take_bit_take_bit [of "w - 1" w "reg_get insn 0 s"]
    by (simp add: take_bit_eq_mask)
  then show ?thesis unfolding u x ins
    using insert_extractu [OF assms(4) n(1)] insert_outside [OF n(1)] getSignedField_spec [of w] extract_clamp [OF assms(4)] assms(2,4) by simp
qed

theorem field_round_trip_witness:
  "result p_extracti_exec (ex_pulp_insn\<lparr>in_regs := (\<lambda>_. 3), uim := (\<lambda>i. if i = 0 then 3 else 8)\<rparr>) 4
     (fst (p_inserti_exec (ex_pulp_insn\<lparr>in_regs := (\<lambda>_. 2), uim := (\<lambda>i. if i = 0 then 3 else 8)\<rparr>) 0 (pulp_cpu 0x1234567A))) = 0xFFFFFFFA"
proof -
  let ?i = "ex_pulp_insn\<lparr>in_regs := (\<lambda>_. 2), uim := (\<lambda>i. if i = 0 then 3 else 8)\<rparr>" and ?x = "ex_pulp_insn\<lparr>in_regs := (\<lambda>_. 3), uim := (\<lambda>i. if i = 0 then 3 else 8)\<rparr>"
  have h: "unat (uim ?i 0) < 32" "4 = unat (uim ?i 0) + 1" "8 = unat (uim ?i 1)" "4 + 8 \<le> (32 :: nat)" "in_regs ?x 0 = out_regs ?i 0" "uim ?x = uim ?i"
    by (simp_all add: ex_pulp_insn_def)
  have "signed_take_bit (4 - 1) (reg_get ?i 0 (pulp_cpu 0x1234567A)) = 0xFFFFFFFA" by code_simp
  then show ?thesis using conjunct1 [OF conjunct2 [OF field_round_trip [OF h refl, of 4 0 "pulp_cpu 0x1234567A"]]] by (rule trans [rotated])
qed

section \<open>Clipping\<close>

lemma sint_of_small: "- (2 ^ 31) \<le> x \<Longrightarrow> x < 2 ^ 31 \<Longrightarrow> sint (word_of_int x :: u32) = x"
proof -
  assume "- (2 ^ 31) \<le> x" "x < 2 ^ 31"
  then have "signed_take_bit 31 x = x" by (intro signed_take_bit_int_eq_self)
  then show ?thesis by (simp add: sint_sbintrunc')
qed

lemma clip_limits:
  assumes "c < 31"
  shows "sint (- push_bit c 1 :: u32) = - (2 ^ c)" "sint (push_bit c 1 - 1 :: u32) = 2 ^ c - 1"
proof -
  have c: "(2 :: int) ^ c < 2 ^ 31" using assms by (intro power_strict_increasing) simp_all
  have p: "(0 :: int) < 2 ^ c" by simp
  have "- push_bit c 1 = (word_of_int (- (2 ^ c)) :: u32)" "push_bit c 1 - 1 = (word_of_int (2 ^ c - 1) :: u32)"
    by (simp_all add: push_bit_eq_mult)
  then show "sint (- push_bit c 1 :: u32) = - (2 ^ c)" "sint (push_bit c 1 - 1 :: u32) = 2 ^ c - 1"
    using c sint_of_small [of "- (2 ^ c)"] sint_of_small [of "2 ^ c - 1"] p by (simp_all only:)
qed

lemma clip_bit_eq: "unat v < 32 \<Longrightarrow> clip_bit v = unat v - 1"
proof -
  assume v: "unat v < 32"
  have u: "uint v = int (unat v)" by simp
  have "uint v < 32" unfolding u using v by linarith
  then have "sint v = uint v" by (intro sint_small) simp
  then have "clip_bit v = nat (max (int (unat v) - 1) 0)" by (simp only: clip_bit_def u)
  then show ?thesis by linarith
qed

lemma lib_CLIP_sint: "sint low \<le> sint high \<Longrightarrow> sint (lib_CLIP a low high) = max (sint low) (min (sint high) (sint a))"
  by (auto simp: lib_CLIP_def max_def min_def)

lemma lib_CLIPU_sint: "0 \<le> sint high \<Longrightarrow> sint (lib_CLIPU a high) = max 0 (min (sint high) (sint a))"
  by (auto simp: lib_CLIPU_def max_def min_def)

text \<open>
  The clipping instructions with an immediate limit the signed value of their operand to the range of a signed number, or of a non-negative signed number, of that many bits.
\<close>

theorem clip_bounds:
  fixes s :: "u32 cpu"
  assumes "unat (uim insn 0) < 32" "c = unat (uim insn 0) - 1"
  shows "sint (result p_clipi_exec insn pc s) = max (- (2 ^ c)) (min (2 ^ c - 1) (sint (reg_get insn 0 s))) \<and>
    sint (result p_clipui_exec insn pc s) = max 0 (min (2 ^ c - 1) (sint (reg_get insn 0 s)))"
proof -
  have b: "clip_bit (uim insn 0) = c" "c < 31" using assms by (simp_all add: clip_bit_eq)
  have p: "(0 :: int) < 2 ^ c" by simp
  have "result p_clipi_exec insn pc s = lib_CLIP (reg_get insn 0 s) (- push_bit c 1) (push_bit c 1 - 1)"
    "result p_clipui_exec insn pc s = lib_CLIPU (reg_get insn 0 s) (push_bit c 1 - 1)"
    by (simp_all add: result_simps p_clipi_exec_def p_clipui_exec_def b(1))
  moreover note clip_limits [OF b(2)]
  ultimately show ?thesis
    using p lib_CLIP_sint [of "- push_bit c 1" "push_bit c 1 - 1"] lib_CLIPU_sint [of "push_bit c 1 - 1"] by (simp only:)
qed

theorem clip_bounds_witness: "sint (result p_clipi_exec (ex_pulp_insn\<lparr>in_regs := (\<lambda>_. 2), uim := (\<lambda>_. 8)\<rparr>) 0 (pulp_cpu 1000)) = 127"
proof -
  let ?i = "ex_pulp_insn\<lparr>in_regs := (\<lambda>_. 2), uim := (\<lambda>_. 8)\<rparr>"
  have "unat (uim ?i 0) < 32" "7 = unat (uim ?i 0) - 1" by simp_all
  moreover have "sint (reg_get ?i 0 (pulp_cpu 1000)) = 1000" by code_simp
  ultimately show ?thesis using clip_bounds [of ?i 7 0 "pulp_cpu 1000"] by simp
qed

section \<open>Rounding\<close>

lemma sint_half_mul: "sint (scast (a :: u16) * scast (b :: u16) :: u32) = sint a * sint b"
proof -
  have r: "- 32768 \<le> sint x" "sint x \<le> 32767" for x :: u16 using sint_range_size [of x] by (simp_all add: word_size)
  have "\<bar>sint a * sint b\<bar> \<le> 32768 * 32768" unfolding abs_mult using r [of a] r [of b] by (intro mult_mono) auto
  then have "- (2 ^ 31) \<le> sint a * sint b" "sint a * sint b < 2 ^ 31" by (auto simp: abs_le_iff)
  moreover have "scast a * scast b = (word_of_int (sint a * sint b) :: u32)" by (simp only: scast_eq of_int_mult)
  ultimately show ?thesis by (simp only: sint_of_small)
qed

lemma drop_of_int: "n < 32 \<Longrightarrow> ucast (drop_bit n (word_of_int x :: u64)) = (word_of_int (drop_bit n x) :: u32)"
  by (intro bit_word_eqI) (auto simp: bit_simps)

lemma div_range:
  assumes "- (2 ^ 31) \<le> x" "x < 2 ^ 32" "2 \<le> d"
  shows "- (2 ^ 31) \<le> x div d \<and> x div d < (2 ^ 31 :: int)"
proof (cases "0 \<le> x")
  case True
  then have "x div d \<le> x div 2" "0 \<le> x div d" using assms(3) by (auto intro: zdiv_mono2 simp: pos_imp_zdiv_nonneg_iff)
  moreover have "x div 2 < 2 ^ 31" using assms(2) by simp
  ultimately show ?thesis by auto
next
  case False
  then have "x div 1 \<le> x div d" "x div d < 0" using assms(3) zdiv_mono2_neg [of x 1 d] div_neg_pos_less0 [of x d] by linarith+
  then show ?thesis using assms(1) by simp
qed

lemma round_signed_spec:
  assumes "0 < unat sh" "unat sh < 32"
  shows "sint (round_signed v sh) = (sint v + 2 ^ (unat sh - 1)) div 2 ^ unat sh"
proof -
  define n where "n = unat sh"
  have n: "unat (sh - 1) = n - 1" "sh > 0" using assms(1) by (auto simp: n_def unat_gt_0 unat_minus_one word_greater_zero_iff)
  have r: "- (2 ^ 31) \<le> sint v" "sint v < 2 ^ 31" using sint_range_size [of v] by (simp_all add: word_size)
  have p: "(2 :: int) ^ (n - 1) \<le> 2 ^ 30" "(2 :: int) ^ n = 2 * 2 ^ (n - 1)" using assms unfolding n_def
    by (auto intro: power_increasing simp: power_eq_if)
  let ?s = "sint v + 2 ^ (n - 1)"
  have "scast v + push_bit (n - 1) 1 = (word_of_int ?s :: u64)" by (simp only: scast_eq push_bit_eq_mult mult_1 of_int_add of_int_power of_int_numeral)
  then have v: "round_signed v sh = ucast (drop_bit n (word_of_int ?s :: u64))"
    using n by (simp add: round_signed_def n_def)
  have "ucast (drop_bit n (word_of_int ?s :: u64)) = (word_of_int (drop_bit n ?s) :: u32)"
    using assms(2) by (intro drop_of_int) (simp add: n_def)
  moreover have "- (2 ^ 31) \<le> ?s div 2 ^ n \<and> ?s div 2 ^ n < 2 ^ 31"
  proof (rule div_range)
    have one: "(1 :: int) \<le> 2 ^ (n - 1)" by simp
    show "- (2 ^ 31) \<le> ?s" using r(1) one by linarith
    show "?s < 2 ^ 32" using r(2) p(1) by simp
    show "(2 :: int) \<le> 2 ^ n" using one p(2) by linarith
  qed
  ultimately show ?thesis unfolding v n_def [symmetric] by (simp add: drop_bit_eq_div sint_of_small)
qed

text \<open>
  The multiplications of halves with rounding and normalization compute the product of the signed values, add half of the divisor and divide, rounding down, by the power of two of the immediate.
\<close>

theorem mul_rounds:
  fixes s :: "u32 cpu"
  assumes "sh = unat (uim insn 0)" "0 < sh" "sh < 32"
  shows "sint (result p_mulsNR_exec insn pc s) =
      (sint (ucast (reg_get insn 0 s) :: u16) * sint (ucast (reg_get insn 1 s) :: u16) + 2 ^ (sh - 1)) div 2 ^ sh \<and>
    sint (result p_mulhhsNR_exec insn pc s) =
      (sint (ucast (drop_bit 16 (reg_get insn 0 s)) :: u16) * sint (ucast (drop_bit 16 (reg_get insn 1 s)) :: u16) + 2 ^ (sh - 1)) div 2 ^ sh"
proof -
  have "result p_mulsNR_exec insn pc s = round_signed (SL (reg_get insn 0 s) * SL (reg_get insn 1 s)) (uim insn 0)"
    "result p_mulhhsNR_exec insn pc s = round_signed (SH (reg_get insn 0 s) * SH (reg_get insn 1 s)) (uim insn 0)"
    by (simp_all add: result_simps p_mulsNR_exec_def p_mulhhsNR_exec_def lib_MUL_SL_SL_NR_R_def lib_MUL_SH_SH_NR_R_def)
  then show ?thesis using assms by (simp only: round_signed_spec SL_def SH_def sint_half_mul)
qed

text \<open>The unsigned products are rounded in 32 bits: the largest product, rounded to 14 bits, gives 0 and not \<open>2 ^ 14\<close>.\<close>

lemma mulu_rounding_wraps: "lib_MUL_ZL_ZL_NR_R 0xFFFF 0xFFFF 18 = 0" "lib_MAC_ZL_ZL_NR_R 0 0xFFFF 0xFFFF 18 = 2 ^ 14"
  by code_simp+

section \<open>Dot products\<close>

text \<open>The value of an element of the first and of the second operand.\<close>

definition dot_a :: "dot_op \<Rightarrow> nat \<Rightarrow> int \<Rightarrow> int" where "dot_a d w x = (if d = DOTSP then sval w x else x)"
definition dot_b :: "dot_op \<Rightarrow> nat \<Rightarrow> int \<Rightarrow> int" where "dot_b d w x = (if d = DOTUP then x else sval w x)"

definition dot_spec :: "dot_op \<Rightarrow> nat \<Rightarrow> u32 \<Rightarrow> (nat \<Rightarrow> int) \<Rightarrow> int" where
  "dot_spec d w a b = (\<Sum>i < 32 div w. dot_a d w (elem w i a) * dot_b d w (b i))"

lemma ext_dot: "ext_a d x = (word_of_int (dot_a d LENGTH('e) (uint x)) :: u32)" "ext_b d x = (word_of_int (dot_b d LENGTH('e) (uint x)) :: u32)"
  for x :: "'e::len word"
  unfolding ext_a_def ext_b_def dot_a_def dot_b_def sval_sint by (cases d; simp only: if_True if_False dot_op.distinct scast_eq ucast_eq simp_thms)+

lemma foldl_sum_list: "foldl (+) acc xs = acc + sum_list (xs :: u32 list)"
  by (induction xs arbitrary: acc) (simp_all add: add.assoc)

lemma VEC_SDOT_spec:
  fixes out :: u32
  shows "VEC_SDOT (ext_a d :: 'e::len word \<Rightarrow> u32) (ext_b d) out a b = out + word_of_int (dot_spec d LENGTH('e) a (\<lambda>i. elem LENGTH('e) i b))"
proof -
  let ?n = "32 div LENGTH('e)"
  have "map2 (\<lambda>x y. ext_a d x * ext_b d y) (lanes a :: 'e word list) (lanes b :: 'e word list) =
      map (\<lambda>i. word_of_int (dot_a d LENGTH('e) (elem LENGTH('e) i a) * dot_b d LENGTH('e) (elem LENGTH('e) i b))) [0..<?n]"
    by (intro nth_equalityI) (simp_all add: ext_dot nth_lanes)
  then show ?thesis
    by (simp only: VEC_SDOT_def foldl_sum_list dot_spec_def of_int_sum) (simp add: sum_list_sum_nth atLeast0LessThan)
qed

lemma VEC_SDOT_SC_spec:
  fixes out :: u32
  assumes "LENGTH('e) \<le> 32"
  shows "VEC_SDOT_SC (ext_a d :: 'e::len word \<Rightarrow> u32) (ext_b d) out a b = out + word_of_int (dot_spec d LENGTH('e) a (\<lambda>i. elem LENGTH('e) 0 b))"
proof -
  let ?n = "32 div LENGTH('e)"
  have "0 < ?n" using assms by (simp add: div_greater_zero_iff)
  then have "map (\<lambda>x. ext_a d x * ext_b d ((lanes b :: 'e word list) ! 0)) (lanes a :: 'e word list) =
      map (\<lambda>i. word_of_int (dot_a d LENGTH('e) (elem LENGTH('e) i a) * dot_b d LENGTH('e) (elem LENGTH('e) 0 b))) [0..<?n]"
    by (intro nth_equalityI) (simp_all add: ext_dot nth_lanes)
  then show ?thesis
    by (simp only: VEC_SDOT_SC_def foldl_sum_list dot_spec_def of_int_sum) (simp add: sum_list_sum_nth atLeast0LessThan)
qed

lemma lib_SDOT_spec:
  "lib_VEC_SDOT d half out a b = out + word_of_int (dot_spec d (elem_width half) a (\<lambda>i. elem (elem_width half) i b))"
  "lib_VEC_SDOT_SC d half out a b = out + word_of_int (dot_spec d (elem_width half) a (\<lambda>i. elem (elem_width half) 0 b))"
  using VEC_SDOT_spec [where 'e = 16, of d out a b] VEC_SDOT_spec [where 'e = 8, of d out a b]
    VEC_SDOT_SC_spec [where 'e = 16, of d out a b] VEC_SDOT_SC_spec [where 'e = 8, of d out a b]
  by (simp_all add: lib_VEC_SDOT_def lib_VEC_SDOT_SC_def elem_width_def)

definition dot_operand :: "nat \<Rightarrow> nat \<Rightarrow> dot_op \<Rightarrow> pv_form \<Rightarrow> u32 iss_insn \<Rightarrow> u32 cpu \<Rightarrow> nat \<Rightarrow> int" where
  "dot_operand r w d form insn s i =
     (case form of PV_VV \<Rightarrow> elem w i (reg_get insn r s) | PV_SC \<Rightarrow> elem w 0 (reg_get insn r s) | PV_SCI \<Rightarrow> elem w 0 (dot_imm d insn))"

text \<open>
  The dot products compute, modulo \<open>2 ^ 32\<close>, the sum of the products of the elements, signed or unsigned as the instruction says, and the accumulating forms add it to the accumulator; with an
  immediate the accumulator and the vector are the first two source registers.
\<close>

theorem dot_products:
  fixes s :: "u32 cpu"
  assumes "w = (if half then 16 else 8)"
  shows "result (PV_OP_R_EXEC2 d half form) insn pc s = word_of_int (dot_spec d w (reg_get insn 0 s) (dot_operand 1 w d form insn s)) \<and>
    result (PV_OP_RR_EXEC2 d half form) insn pc s =
      (if form = PV_SCI then reg_get insn 0 s + word_of_int (dot_spec d w (reg_get insn 1 s) (dot_operand 2 w d form insn s))
       else reg_get insn 2 s + word_of_int (dot_spec d w (reg_get insn 0 s) (dot_operand 1 w d form insn s)))"
proof -
  have w: "w = elem_width half" using assms by (simp add: elem_width_def)
  show ?thesis unfolding w
    by (cases form) (simp_all add: dot_operand_def [abs_def] PV_OP_R_EXEC2_def PV_OP_RR_EXEC2_def lib_VEC_DOT_def lib_VEC_DOT_SC_def lib_SDOT_spec result_simps)
qed

theorem dot_products_witness: "result (PV_OP_R_EXEC2 DOTSP False PV_VV) (ex_pulp_insn\<lparr>in_regs := (\<lambda>_. 2)\<rparr>) 0 (pulp_cpu 0xFF020304) = 30"
proof -
  let ?i = "ex_pulp_insn\<lparr>in_regs := (\<lambda>_. 2)\<rparr>"
  have "dot_spec DOTSP 8 (reg_get ?i 0 (pulp_cpu 0xFF020304)) (dot_operand 1 8 DOTSP PV_VV ?i (pulp_cpu 0xFF020304)) = 30" by code_simp
  then show ?thesis using dot_products [of 8 False DOTSP PV_VV ?i 0 "pulp_cpu 0xFF020304"] by simp
qed

end
