(* ===== verification/Isa_Pulp_Memcheck.thy ===== *)
theory Isa_Pulp_Memcheck
  imports Isa_Pulp_Fields
begin

unbundle bit_operations_syntax

text \<open>
  The memcheck shadow of the PULP instructions: which of them respect it, in the sense of \<^verbatim>\<open>Isa_Memcheck\<close>, and which do not; and the permutations whose operands depend on a macro of the build.
\<close>

section \<open>Instructions whose shadow is sound\<close>

lemma shadow_upd_merge3: "memcheck_merge3 r a b c rf =
    shadow_upd r (if memcheck_get_valid a rf \<and> memcheck_get_valid b rf \<and> memcheck_get_valid c rf then - 1 else 0) 0 rf"
  by (simp add: memcheck_merge3_def shadow_upd_memcheck)

lemmas pulp_shadow = Let_def shadow_upd_memcheck shadow_upd_merge3 reg_get_def get_reg_def

lemmas agree_facts = agree_mc agree_id_combine agree_valid

lemma pulp_respects_0:
  "respects_shadow h insn"
  if "h \<in> {p_min_exec, p_minu_exec, p_max_exec, p_maxu_exec, p_ff1_exec, p_fl1_exec, p_clb_exec, p_cnt_exec, p_abs_exec, pv_extract_h_exec, pv_extract_b_exec, pv_extractu_h_exec}"
proof (rule respects_pure, goal_cases)
  case (1 pc s1 s2)
  show ?case using that
    by (auto simp: p_min_exec_def p_minu_exec_def p_max_exec_def p_maxu_exec_def p_ff1_exec_def p_fl1_exec_def p_clb_exec_def p_cnt_exec_def p_abs_exec_def pv_extract_h_exec_def pv_extract_b_exec_def pv_extractu_h_exec_def pulp_shadow agree_facts [OF 1] intro!: agree_write [OF 1])
qed

lemma pulp_respects_1:
  "respects_shadow h insn"
  if "h \<in> {pv_extractu_b_exec, pv_insert_h_exec, pv_insert_b_exec, pv_shuffle_h_sci_exec, pv_shuffle_b_exec, pv_shufflei0_b_sci_exec, pv_shufflei1_b_sci_exec, pv_shufflei2_b_sci_exec, pv_shufflei3_b_sci_exec, pv_pack_h_exec, pv_packhi_b_exec, pv_packlo_b_exec}"
proof (rule respects_pure, goal_cases)
  case (1 pc s1 s2)
  show ?case using that
    by (auto simp: pv_extractu_b_exec_def pv_insert_h_exec_def pv_insert_b_exec_def pv_shuffle_h_sci_exec_def pv_shuffle_b_exec_def pv_shufflei0_b_sci_exec_def pv_shufflei1_b_sci_exec_def pv_shufflei2_b_sci_exec_def pv_shufflei3_b_sci_exec_def pv_pack_h_exec_def pv_packhi_b_exec_def pv_packlo_b_exec_def pulp_shadow agree_facts [OF 1] intro!: agree_write [OF 1])
qed

lemma pulp_respects_2:
  "respects_shadow h insn"
  if "h \<in> {p_mac_exec, p_msu_exec, p_mul_exec, p_muls_exec, p_mulhhs_exec, p_mulsN_exec, p_mulhhsN_exec, p_mulsNR_exec, p_mulhhsNR_exec, p_mulu_exec, p_mulhhu_exec, p_muluN_exec}"
proof (rule respects_pure, goal_cases)
  case (1 pc s1 s2)
  show ?case using that
    by (auto simp: p_mac_exec_def p_msu_exec_def p_mul_exec_def p_muls_exec_def p_mulhhs_exec_def p_mulsN_exec_def p_mulhhsN_exec_def p_mulsNR_exec_def p_mulhhsNR_exec_def p_mulu_exec_def p_mulhhu_exec_def p_muluN_exec_def pulp_shadow agree_facts [OF 1] intro!: agree_write [OF 1])
qed

lemma pulp_respects_3:
  "respects_shadow h insn"
  if "h \<in> {p_mulhhuN_exec, p_muluNR_exec, p_mulhhuNR_exec, p_macs_exec, p_machhs_exec, p_macsN_exec, p_machhsN_exec, p_macsNR_exec, p_machhsNR_exec, p_macu_exec, p_machhu_exec, p_macuN_exec}"
proof (rule respects_pure, goal_cases)
  case (1 pc s1 s2)
  show ?case using that
    by (auto simp: p_mulhhuN_exec_def p_muluNR_exec_def p_mulhhuNR_exec_def p_macs_exec_def p_machhs_exec_def p_macsN_exec_def p_machhsN_exec_def p_macsNR_exec_def p_machhsNR_exec_def p_macu_exec_def p_machhu_exec_def p_macuN_exec_def pulp_shadow agree_facts [OF 1] intro!: agree_write [OF 1])
qed

lemma pulp_respects_4:
  "respects_shadow h insn"
  if "h \<in> {p_machhuN_exec, p_macuNR_exec, p_machhuNR_exec, p_addNi_exec, p_adduNi_exec, p_addRNi_exec, p_adduRNi_exec, p_subNi_exec, p_subuNi_exec, p_subRNi_exec, p_subuRNi_exec, p_addN_exec}"
proof (rule respects_pure, goal_cases)
  case (1 pc s1 s2)
  show ?case using that
    by (auto simp: p_machhuN_exec_def p_macuNR_exec_def p_machhuNR_exec_def p_addNi_exec_def p_adduNi_exec_def p_addRNi_exec_def p_adduRNi_exec_def p_subNi_exec_def p_subuNi_exec_def p_subRNi_exec_def p_subuRNi_exec_def p_addN_exec_def pulp_shadow agree_facts [OF 1] intro!: agree_write [OF 1])
qed

lemma pulp_respects_5:
  "respects_shadow h insn"
  if "h \<in> {p_adduN_exec, p_addRN_exec, p_adduRN_exec, p_subN_exec, p_subuN_exec, p_subRN_exec, p_subuRN_exec, p_clipi_exec, p_clipui_exec, p_clip_exec, p_clipu_exec, p_bseti_exec}"
proof (rule respects_pure, goal_cases)
  case (1 pc s1 s2)
  show ?case using that
    by (auto simp: p_adduN_exec_def p_addRN_exec_def p_adduRN_exec_def p_subN_exec_def p_subuN_exec_def p_subRN_exec_def p_subuRN_exec_def p_clipi_exec_def p_clipui_exec_def p_clip_exec_def p_clipu_exec_def p_bseti_exec_def pulp_shadow agree_facts [OF 1] intro!: agree_write [OF 1])
qed

lemma pulp_respects_6:
  "respects_shadow h insn"
  if "h \<in> {p_bset_exec, p_extracti_exec, p_extractui_exec, p_extract_exec, p_extractu_exec}"
proof (rule respects_pure, goal_cases)
  case (1 pc s1 s2)
  show ?case using that
    by (auto simp: p_bset_exec_def p_extracti_exec_def p_extractui_exec_def p_extract_exec_def p_extractu_exec_def pulp_shadow agree_facts [OF 1] intro!: agree_write [OF 1])
qed

text \<open>A handler may as well write its register before the shadow of it.\<close>

lemma set_reg_shadow: "shadow_upd r m i (set_reg r' v rf) = set_reg r' v (shadow_upd r m i rf)"
  by (simp add: shadow_upd_def set_reg_def)

lemma valid_set_reg [simp]: "memcheck_get_valid a (set_reg r v rf) = memcheck_get_valid a rf" "rf_mc (set_reg r v rf) = rf_mc rf"
    "rf_mc_id (set_reg r v rf) = rf_mc_id rf"
  by (simp_all add: memcheck_get_valid_def set_reg_def)

text \<open>Extensions and the clearing of a field: the shadow of each bit is that of the bit it is copied from, or set when it is a constant.\<close>

lemma same_bits_signed:
  assumes "same_bits m v w"
  shows "same_bits (iss_get_signed_value m n) (iss_get_signed_value v n) (iss_get_signed_value w n)"
  using assms by (auto simp: same_bits_def iss_get_signed_value_def bit_simps split: if_splits)

lemma same_bits_zext:
  assumes "same_bits m (v :: u32) w"
  shows "same_bits (m AND (push_bit 16 1 - 1) OR push_bit 16 (push_bit 16 1 - 1)) (v AND (push_bit 16 1 - 1)) (w AND (push_bit 16 1 - 1))"
    "same_bits (m AND (push_bit 8 1 - 1) OR push_bit 8 (push_bit 24 1 - 1)) (v AND (push_bit 8 1 - 1)) (w AND (push_bit 8 1 - 1))"
  using assms unfolding low_mask by (auto simp: same_bits_def bit_simps)

lemma same_bits_bclr:
  assumes "same_bits m v w"
  shows "same_bits (m OR k) (lib_BCLR v k) (lib_BCLR w k)"
  using assms by (auto simp: same_bits_def lib_BCLR_def bit_simps)

lemma pulp_respects_bits:
  "respects_shadow h insn"
  if "h \<in> {p_exths_exec, p_exthz_exec, p_extbs_exec, p_extbz_exec, p_bclri_exec}"
proof (rule respects_pure, goal_cases)
  case (1 pc s1 s2)
  show ?case using that agree_mc[OF 1] same_bits_zext[OF agree_bits[OF 1, of "in_regs insn 0"]]
    by (auto simp: p_exths_exec_def p_exthz_exec_def p_extbs_exec_def p_extbz_exec_def p_bclri_exec_def set_reg_shadow pulp_shadow
        simp del: One_nat_def intro!: agree_write [OF 1] same_bits_signed same_bits_bclr agree_bits[OF 1])
qed

lemma pulp_respects_branch:
  fixes insn :: "u32 iss_insn"
  assumes "h \<in> {p_bneimm_exec_common p, p_beqimm_exec_common p}"
  shows "respects_shadow h insn"
  unfolding respects_shadow_def agree_def
proof (intro allI impI, goal_cases)
  case (1 pc s1 s2)
  note a = agree_branch_reg[OF 1, of "in_regs insn 0"]
  have eq: "cpu_rf (fst (h insn pc s)) = memcheck_branch_reg (in_regs insn 0) (cpu_rf s)" for s :: "u32 cpu"
    using assms by (auto simp: p_bneimm_exec_common_def p_beqimm_exec_common_def branch_common_def Let_def)
  have "snd (h insn pc s1) = snd (h insn pc s2)" if "rf_fault (memcheck_branch_reg (in_regs insn 0) (cpu_rf s1)) = None"
    using that assms a(2) by (auto simp: p_bneimm_exec_common_def p_beqimm_exec_common_def branch_common_def Let_def reg_get_def get_reg_def)
  then show ?case using a(1) unfolding eq by blast
qed

lemma pulp_respects_vector:
  "respects_shadow h insn"
  if "h \<in> {pv_shuffle2_h_exec riscv, pv_shuffle2_b_exec riscv, PV_OP_RS_EXEC opr half form, PV_OP_RU_EXEC opr half form, PV_OP1_RS_EXEC half,
      PV_OP_R_EXEC2 d half form, PV_OP_RR_EXEC2 d half form}"
proof (rule respects_pure, goal_cases)
  case (1 pc s1 s2)
  show ?case using that
    by (cases form) (auto simp: pv_shuffle2_h_exec_def pv_shuffle2_b_exec_def PV_OP_RS_EXEC_def PV_OP_RU_EXEC_def PV_OP1_RS_EXEC_def
        set_reg_shadow PV_OP_R_EXEC2_def PV_OP_RR_EXEC2_def pulp_shadow agree_facts [OF 1] intro!: agree_write [OF 1])
qed

text \<open>
  All register instructions: \<open>pulp_scalar\<close> lists the handlers written out in the source, the others are the instances of its macros and the
  shuffles of two vectors. Only \<^verbatim>\<open>p.ror\<close> is left out, whose result is not defined for all values of its operands.
  \<open>pulp_unmerged\<close> are those that read a register of which the shadow is not looked at.
\<close>

definition pulp_scalar :: "u32 handler list" where
  "pulp_scalar = [p_min_exec, p_minu_exec, p_max_exec, p_maxu_exec, p_ff1_exec, p_fl1_exec, p_clb_exec, p_cnt_exec, p_abs_exec, pv_extract_h_exec, pv_extract_b_exec, pv_extractu_h_exec,
     pv_extractu_b_exec, pv_insert_h_exec, pv_insert_b_exec, pv_shuffle_h_sci_exec, pv_shuffle_b_exec, pv_shufflei0_b_sci_exec, pv_shufflei1_b_sci_exec, pv_shufflei2_b_sci_exec, pv_shufflei3_b_sci_exec, pv_pack_h_exec, pv_packhi_b_exec, pv_packlo_b_exec,
     p_mac_exec, p_msu_exec, p_mul_exec, p_muls_exec, p_mulhhs_exec, p_mulsN_exec, p_mulhhsN_exec, p_mulsNR_exec, p_mulhhsNR_exec, p_mulu_exec, p_mulhhu_exec, p_muluN_exec,
     p_mulhhuN_exec, p_muluNR_exec, p_mulhhuNR_exec, p_macs_exec, p_machhs_exec, p_macsN_exec, p_machhsN_exec, p_macsNR_exec, p_machhsNR_exec, p_macu_exec, p_machhu_exec, p_macuN_exec,
     p_machhuN_exec, p_macuNR_exec, p_machhuNR_exec, p_addNi_exec, p_adduNi_exec, p_addRNi_exec, p_adduRNi_exec, p_subNi_exec, p_subuNi_exec, p_subRNi_exec, p_subuRNi_exec, p_addN_exec,
     p_adduN_exec, p_addRN_exec, p_adduRN_exec, p_subN_exec, p_subuN_exec, p_subRN_exec, p_subuRN_exec, p_clipi_exec, p_clipui_exec, p_clip_exec, p_clipu_exec, p_bseti_exec,
     p_bset_exec, p_extracti_exec, p_extractui_exec, p_extract_exec, p_extractu_exec,
     p_exths_exec, p_exthz_exec, p_extbs_exec, p_extbz_exec, p_bclri_exec, p_bneimm_exec, p_bneimm_exec_fast, p_beqimm_exec, p_beqimm_exec_fast,
     p_avgu_exec, p_slet_exec, p_sletu_exec, p_inserti_exec, p_insert_exec, pv_shuffle_h_exec, p_bclr_exec]"

definition pulp_handlers :: "u32 handler set" where
  "pulp_handlers = set pulp_scalar \<union> (\<Union>b opr half form d. {pv_shuffle2_h_exec b, pv_shuffle2_b_exec b, PV_OP_RS_EXEC opr half form,
     PV_OP_RU_EXEC opr half form, PV_OP1_RS_EXEC half, PV_OP_R_EXEC2 d half form, PV_OP_RR_EXEC2 d half form})"

definition pulp_unmerged :: "u32 handler list" where
  "pulp_unmerged = [p_avgu_exec, p_slet_exec, p_sletu_exec, p_inserti_exec, p_insert_exec, pv_shuffle_h_exec, p_bclr_exec]"

lemma pulp_merged_respects:
  assumes "h \<in> pulp_handlers" "h \<notin> set pulp_unmerged"
  shows "respects_shadow h insn"
proof (cases "h \<in> set pulp_scalar")
  case True
  then show ?thesis
    using assms(2) pulp_respects_0 [of h insn] pulp_respects_1 [of h insn] pulp_respects_2 [of h insn] pulp_respects_3 [of h insn] pulp_respects_4 [of h insn]
      pulp_respects_5 [of h insn] pulp_respects_6 [of h insn] pulp_respects_bits [of h insn] pulp_respects_branch [of h True insn] pulp_respects_branch [of h False insn]
    unfolding pulp_scalar_def pulp_unmerged_def set_simps p_bneimm_exec_def p_bneimm_exec_fast_def p_beqimm_exec_def p_beqimm_exec_fast_def by blast
next
  case False
  then obtain b opr half form d where "h \<in> {pv_shuffle2_h_exec b, pv_shuffle2_b_exec b, PV_OP_RS_EXEC opr half form,
     PV_OP_RU_EXEC opr half form, PV_OP1_RS_EXEC half, PV_OP_R_EXEC2 d half form, PV_OP_RR_EXEC2 d half form}"
    using assms(1) unfolding pulp_handlers_def by blast
  then show ?thesis using pulp_respects_vector by blast
qed

section \<open>Instructions whose shadow is not sound\<close>

lemma unsoundI:
  assumes "rf_mc (cpu_rf (fst (h insn 0 (pulp_cpu 0)))) 3 = - 1" "out_regs insn 0 = 3"
    and "result h insn 0 (pulp_cpu 0) \<noteq> result h insn 0 (pulp_cpu 0x10001)"
  shows "\<not> respects_shadow h insn"
proof
  assume "respects_shadow h insn"
  moreover have "agree (pulp_cpu 0) (pulp_cpu 0x10001)" by (simp add: agree_def rf_agree_def pulp_cpu_def)
  ultimately have "rf_agree (cpu_rf (fst (h insn 0 (pulp_cpu 0)))) (cpu_rf (fst (h insn 0 (pulp_cpu 0x10001))))"
    unfolding respects_shadow_def agree_def by blast
  then show False using assms unfolding rf_agree_def result_def by (metis same_bits_full)
qed

text \<open>On two cores that differ only in a register that is not initialised, these instructions leave different values, both marked valid.\<close>

lemma pulp_shadow_unsound:
  "\<not> respects_shadow p_avgu_exec ex_pulp_insn" "\<not> respects_shadow p_slet_exec ex_pulp_insn" "\<not> respects_shadow p_sletu_exec ex_pulp_insn"
  "\<not> respects_shadow p_inserti_exec ex_pulp_insn" "\<not> respects_shadow pv_shuffle_h_exec ex_pulp_insn" "\<not> respects_shadow p_bclr_exec ex_pulp_insn"
  "\<not> respects_shadow p_insert_exec (ex_pulp_insn\<lparr>in_regs := (\<lambda>i. if i = 2 then 2 else 1)\<rparr>)"
  by (rule unsoundI; code_simp)+

text \<open>
  C24: Of the register instructions of the PULP extension (\<^verbatim>\<open>p.ror\<close> apart, which is not defined for all operands) exactly seven do not respect the memcheck shadow: the average, the two comparisons for less
  or equal, the two insertions of a bit field, the shuffle of halves and the clearing of a bit field given by a register. All others, on two cores that agree on the bits marked valid, leave two cores
  that agree, and go the same way or raise a fault.
\<close>

theorem pulp_respects_shadow:
  assumes "h \<in> pulp_handlers"
  shows "(\<forall>insn. respects_shadow h insn) \<longleftrightarrow> h \<notin> set pulp_unmerged"
proof
  assume r: "\<forall>insn. respects_shadow h insn"
  show "h \<notin> set pulp_unmerged"
  proof
    assume "h \<in> set pulp_unmerged"
    then have "\<exists>insn. \<not> respects_shadow h insn" using pulp_shadow_unsound unfolding pulp_unmerged_def set_simps by blast
    then show False using r by blast
  qed
qed (use pulp_merged_respects [OF assms] in blast)

theorem pulp_respects_shadow_witness:
  "p_avgu_exec \<in> pulp_handlers \<and> (\<exists>insn. \<not> respects_shadow p_avgu_exec insn)"
  using pulp_respects_shadow [of p_avgu_exec] by (simp add: pulp_handlers_def pulp_scalar_def pulp_unmerged_def)

section \<open>Permutations of two vectors\<close>

lemma shuffle2_swaps: "lib_VEC_SHUFFLE2_16 False a b c = lib_VEC_SHUFFLE2_16 True c b a" "lib_VEC_SHUFFLE2_8 False a b c = lib_VEC_SHUFFLE2_8 True c b a"
proof -
  have "(if bit b n = False then a else c) = (if bit b n = True then c else a)" for n by simp
  then show "lib_VEC_SHUFFLE2_16 False a b c = lib_VEC_SHUFFLE2_16 True c b a" "lib_VEC_SHUFFLE2_8 False a b c = lib_VEC_SHUFFLE2_8 True c b a"
    unfolding lib_VEC_SHUFFLE2_16_def lib_VEC_SHUFFLE2_8_def Let_def by (simp_all only:)
qed

text \<open>
  In a build that does not define the macro of the RISC-V cores, the shuffles of two vectors take their elements from the first source register where the other build takes them from the
  destination, and from the destination where it takes them from the source.
\<close>

theorem shuffle2_operands_swapped:
  assumes "in_regs swp 0 = in_regs insn 2" "in_regs swp 2 = in_regs insn 0" "in_regs swp 1 = in_regs insn 1" "out_regs swp 0 = out_regs insn 0"
  shows "result (pv_shuffle2_h_exec False) insn pc s = result (pv_shuffle2_h_exec True) swp pc s \<and>
    result (pv_shuffle2_b_exec False) insn pc s = result (pv_shuffle2_b_exec True) swp pc s"
  using assms by (simp add: result_simps pv_shuffle2_h_exec_def pv_shuffle2_b_exec_def shuffle2_swaps)

lemma low_masks: "0xffff = (mask 16 :: u32)" "0xff = (mask 8 :: u32)"
  by (simp_all add: mask_eq_exp_minus_1)

lemma shuffle2_keep_destination:
  "lib_VEC_SHUFFLE2_16 True a 0x10000 c = c" "lib_VEC_SHUFFLE2_16 False a 0x10000 c = a"
  "lib_VEC_SHUFFLE2_8 True a 0x03020100 c = c" "lib_VEC_SHUFFLE2_8 False a 0x03020100 c = a"
proof -
  have h: "push_bit 16 (drop_bit 16 v AND mask 16) OR (v AND mask 16) = v" for v :: u32
    by (intro bit_word_eqI) (auto simp: bit_simps)
  have b: "push_bit 24 (drop_bit 24 v AND mask 8) OR push_bit 16 (drop_bit 16 v AND mask 8) OR push_bit 8 (drop_bit 8 v AND mask 8) OR (v AND mask 8) = v" for v :: u32
  proof (rule bit_word_eqI, goal_cases)
    case (1 n)
    consider "n < 8" | "8 \<le> n" "n < 16" | "16 \<le> n" "n < 24" | "24 \<le> n" by linarith
    then show ?case using 1 by cases (auto simp: bit_simps)
  qed
  have s: "drop_bit 16 0x10000 AND 1 = (1 :: u32)" "0x10000 AND 1 = (0 :: u32)"
    "drop_bit 24 0x03020100 AND 3 = (3 :: u32)" "drop_bit 16 0x03020100 AND 3 = (2 :: u32)" "drop_bit 8 0x03020100 AND 3 = (1 :: u32)" "0x03020100 AND 3 = (0 :: u32)"
    by simp_all
  show "lib_VEC_SHUFFLE2_16 True a 0x10000 c = c" "lib_VEC_SHUFFLE2_16 False a 0x10000 c = a"
    "lib_VEC_SHUFFLE2_8 True a 0x03020100 c = c" "lib_VEC_SHUFFLE2_8 False a 0x03020100 c = a"
    using h b by (simp_all add: lib_VEC_SHUFFLE2_16_def lib_VEC_SHUFFLE2_8_def getShuffleHalf_def getShuffleByte_def s low_masks [symmetric])
qed

end
