(* ===== verification/Isa_Pulp_Mem.thy ===== *)
theory Isa_Pulp_Mem
  imports Isa_Pulp Isa_Mem
begin

text \<open>
  The addressing modes of the PULP extension, \<^verbatim>\<open>src/models/cpu/iss/include/isa/pulp_v2.hpp\<close>: loads and stores whose offset is a register (\<open>RR\<close>) and loads and stores that increment the base
  register after the access, by an immediate (\<open>POSTINC\<close>) or by a register (\<open>RR_POSTINC\<close>); the instructions that set up hardware loops; and the event load of a core without an event unit, which is a load.
  The stack checker is not built in.
\<close>

section \<open>Common parts\<close>

definition in_reg :: "u32 iss_insn \<Rightarrow> nat \<Rightarrow> (u32, 'p) lsu \<Rightarrow> u32" where
  "in_reg insn i s = get_reg (in_regs insn i) (ls_rf s)"

definition shadow :: "(u32, 'p) menv \<Rightarrow> (u32 regfile \<Rightarrow> u32 regfile) \<Rightarrow> (u32, 'p) lsu \<Rightarrow> (u32, 'p) lsu" where
  "shadow env f s = (if lv_memcheck (me_lsu env) then on_lrf f s else s)"

definition access_in :: "(u32, 'p) menv \<Rightarrow> u32 iss_insn \<Rightarrow> nat \<Rightarrow> (u32, 'p) lsu \<Rightarrow> (u32, 'p) lsu" where
  "access_in env insn i s = shadow env (memcheck_access_reg (in_regs insn i)) s"

text \<open>The base register is written once the access has been accepted.\<close>

definition post_inc :: "u32 iss_insn \<Rightarrow> u32 \<Rightarrow> ((u32, 'p) lsu \<Rightarrow> u32) \<Rightarrow> (u32, 'p) lsu \<times> bool \<Rightarrow> (u32, 'p) lsu \<times> u32" where
  "post_inc insn pc val r =
     (case r of (s, stalled) \<Rightarrow> if stalled then (s, pc) else (on_lrf (set_reg (in_regs insn 0) (val s)) s, iss_insn_next insn pc))"

section \<open>Loads and stores\<close>

definition LB_RR_exec_fast :: "(u32, 'p) mhandler" where
  "LB_RR_exec_fast env insn opcode pc s =
     after_lsu insn pc (lsu_load_signed (me_lsu env) (me_tr env) (linsn_of insn opcode pc) (in_reg insn 0 s + in_reg insn 1 s) 1 (out_regs insn 0) s)"

definition LB_RR_exec :: "(u32, 'p) mhandler" where
  "LB_RR_exec env insn opcode pc s =
     (let s1 = access_in env insn 0 s;
          s2 = access_in env insn 1 s1
      in after_lsu insn pc (lsu_load_signed_perf (me_wp env) (me_lsu env) (me_tr env) (linsn_of insn opcode pc) (in_reg insn 0 s2 + in_reg insn 1 s2) 1 (out_regs insn 0) s2))"

definition LH_RR_exec_fast :: "(u32, 'p) mhandler" where
  "LH_RR_exec_fast env insn opcode pc s =
     after_lsu insn pc (lsu_load_signed (me_lsu env) (me_tr env) (linsn_of insn opcode pc) (in_reg insn 0 s + in_reg insn 1 s) 2 (out_regs insn 0) s)"

definition LH_RR_exec :: "(u32, 'p) mhandler" where
  "LH_RR_exec env insn opcode pc s =
     (let s1 = access_in env insn 0 s;
          s2 = access_in env insn 1 s1
      in after_lsu insn pc (lsu_load_signed_perf (me_wp env) (me_lsu env) (me_tr env) (linsn_of insn opcode pc) (in_reg insn 0 s2 + in_reg insn 1 s2) 2 (out_regs insn 0) s2))"

definition LW_RR_exec_fast :: "(u32, 'p) mhandler" where
  "LW_RR_exec_fast env insn opcode pc s =
     after_lsu insn pc (lsu_load (me_lsu env) (me_tr env) (linsn_of insn opcode pc) (in_reg insn 0 s + in_reg insn 1 s) 4 (out_regs insn 0) s)"

definition LW_RR_exec :: "(u32, 'p) mhandler" where
  "LW_RR_exec env insn opcode pc s =
     (let s1 = access_in env insn 0 s;
          s2 = access_in env insn 1 s1
      in after_lsu insn pc (lsu_load_perf (me_wp env) (me_lsu env) (me_tr env) (linsn_of insn opcode pc) (in_reg insn 0 s2 + in_reg insn 1 s2) 4 (out_regs insn 0) s2))"

definition LBU_RR_exec_fast :: "(u32, 'p) mhandler" where
  "LBU_RR_exec_fast env insn opcode pc s =
     after_lsu insn pc (lsu_load (me_lsu env) (me_tr env) (linsn_of insn opcode pc) (in_reg insn 0 s + in_reg insn 1 s) 1 (out_regs insn 0) s)"

definition LBU_RR_exec :: "(u32, 'p) mhandler" where
  "LBU_RR_exec env insn opcode pc s =
     (let s1 = access_in env insn 0 s;
          s2 = access_in env insn 1 s1
      in after_lsu insn pc (lsu_load_perf (me_wp env) (me_lsu env) (me_tr env) (linsn_of insn opcode pc) (in_reg insn 0 s2 + in_reg insn 1 s2) 1 (out_regs insn 0) s2))"

definition LHU_RR_exec_fast :: "(u32, 'p) mhandler" where
  "LHU_RR_exec_fast env insn opcode pc s =
     after_lsu insn pc (lsu_load (me_lsu env) (me_tr env) (linsn_of insn opcode pc) (in_reg insn 0 s + in_reg insn 1 s) 2 (out_regs insn 0) s)"

definition LHU_RR_exec :: "(u32, 'p) mhandler" where
  "LHU_RR_exec env insn opcode pc s =
     (let s1 = access_in env insn 0 s;
          s2 = access_in env insn 1 s1
      in after_lsu insn pc (lsu_load_perf (me_wp env) (me_lsu env) (me_tr env) (linsn_of insn opcode pc) (in_reg insn 0 s2 + in_reg insn 1 s2) 2 (out_regs insn 0) s2))"

definition LB_POSTINC_exec_fast :: "(u32, 'p) mhandler" where
  "LB_POSTINC_exec_fast env insn opcode pc s =
     post_inc insn pc (\<lambda>s. in_reg insn 0 s + sim insn 0) (lsu_load_signed (me_lsu env) (me_tr env) (linsn_of insn opcode pc) (in_reg insn 0 s) 1 (out_regs insn 0) s)"

definition LB_POSTINC_exec :: "(u32, 'p) mhandler" where
  "LB_POSTINC_exec env insn opcode pc s =
     (let s1 = access_in env insn 0 s;
          s2 = shadow env (memcheck_merge (in_regs insn 0) (in_regs insn 0)) s1
      in post_inc insn pc (\<lambda>s. in_reg insn 0 s + sim insn 0) (lsu_load_signed_perf (me_wp env) (me_lsu env) (me_tr env) (linsn_of insn opcode pc) (in_reg insn 0 s2) 1 (out_regs insn 0) s2))"

definition LH_POSTINC_exec_fast :: "(u32, 'p) mhandler" where
  "LH_POSTINC_exec_fast env insn opcode pc s =
     post_inc insn pc (\<lambda>s. in_reg insn 0 s + sim insn 0) (lsu_load_signed (me_lsu env) (me_tr env) (linsn_of insn opcode pc) (in_reg insn 0 s) 2 (out_regs insn 0) s)"

definition LH_POSTINC_exec :: "(u32, 'p) mhandler" where
  "LH_POSTINC_exec env insn opcode pc s =
     (let s1 = access_in env insn 0 s;
          s2 = shadow env (memcheck_merge (in_regs insn 0) (in_regs insn 0)) s1
      in post_inc insn pc (\<lambda>s. in_reg insn 0 s + sim insn 0) (lsu_load_signed_perf (me_wp env) (me_lsu env) (me_tr env) (linsn_of insn opcode pc) (in_reg insn 0 s2) 2 (out_regs insn 0) s2))"

definition LW_POSTINC_exec_fast :: "(u32, 'p) mhandler" where
  "LW_POSTINC_exec_fast env insn opcode pc s =
     post_inc insn pc (\<lambda>s. in_reg insn 0 s + sim insn 0) (lsu_load_signed (me_lsu env) (me_tr env) (linsn_of insn opcode pc) (in_reg insn 0 s) 4 (out_regs insn 0) s)"

definition LW_POSTINC_exec :: "(u32, 'p) mhandler" where
  "LW_POSTINC_exec env insn opcode pc s =
     (let s1 = access_in env insn 0 s;
          s2 = shadow env (memcheck_merge (in_regs insn 0) (in_regs insn 0)) s1
      in post_inc insn pc (\<lambda>s. in_reg insn 0 s + sim insn 0) (lsu_load_signed_perf (me_wp env) (me_lsu env) (me_tr env) (linsn_of insn opcode pc) (in_reg insn 0 s2) 4 (out_regs insn 0) s2))"

definition LBU_POSTINC_exec_fast :: "(u32, 'p) mhandler" where
  "LBU_POSTINC_exec_fast env insn opcode pc s =
     post_inc insn pc (\<lambda>s. in_reg insn 0 s + sim insn 0) (lsu_load (me_lsu env) (me_tr env) (linsn_of insn opcode pc) (in_reg insn 0 s) 1 (out_regs insn 0) s)"

definition LBU_POSTINC_exec :: "(u32, 'p) mhandler" where
  "LBU_POSTINC_exec env insn opcode pc s =
     (let s1 = access_in env insn 0 s;
          s2 = shadow env (memcheck_merge (in_regs insn 0) (in_regs insn 0)) s1
      in post_inc insn pc (\<lambda>s. in_reg insn 0 s + sim insn 0) (lsu_load_perf (me_wp env) (me_lsu env) (me_tr env) (linsn_of insn opcode pc) (in_reg insn 0 s2) 1 (out_regs insn 0) s2))"

definition LHU_POSTINC_exec_fast :: "(u32, 'p) mhandler" where
  "LHU_POSTINC_exec_fast env insn opcode pc s =
     post_inc insn pc (\<lambda>s. in_reg insn 0 s + sim insn 0) (lsu_load (me_lsu env) (me_tr env) (linsn_of insn opcode pc) (in_reg insn 0 s) 2 (out_regs insn 0) s)"

definition LHU_POSTINC_exec :: "(u32, 'p) mhandler" where
  "LHU_POSTINC_exec env insn opcode pc s =
     (let s1 = access_in env insn 0 s;
          s2 = shadow env (memcheck_merge (in_regs insn 0) (in_regs insn 0)) s1
      in post_inc insn pc (\<lambda>s. in_reg insn 0 s + sim insn 0) (lsu_load_perf (me_wp env) (me_lsu env) (me_tr env) (linsn_of insn opcode pc) (in_reg insn 0 s2) 2 (out_regs insn 0) s2))"

definition SB_POSTINC_exec_fast :: "(u32, 'p) mhandler" where
  "SB_POSTINC_exec_fast env insn opcode pc s =
     post_inc insn pc (\<lambda>s. in_reg insn 0 s + sim insn 0) (lsu_store (me_lsu env) (me_tr env) (linsn_of insn opcode pc) (in_reg insn 0 s) 1 (in_regs insn 1) s)"

definition SB_POSTINC_exec :: "(u32, 'p) mhandler" where
  "SB_POSTINC_exec env insn opcode pc s =
     (let s1 = access_in env insn 0 s;
          s2 = shadow env (memcheck_merge (in_regs insn 0) (in_regs insn 0)) s1
      in post_inc insn pc (\<lambda>s. in_reg insn 0 s + sim insn 0) (lsu_store_perf (me_wp env) (me_lsu env) (me_tr env) (linsn_of insn opcode pc) (in_reg insn 0 s2) 1 (in_regs insn 1) s2))"

definition SH_POSTINC_exec_fast :: "(u32, 'p) mhandler" where
  "SH_POSTINC_exec_fast env insn opcode pc s =
     post_inc insn pc (\<lambda>s. in_reg insn 0 s + sim insn 0) (lsu_store (me_lsu env) (me_tr env) (linsn_of insn opcode pc) (in_reg insn 0 s) 2 (in_regs insn 1) s)"

definition SH_POSTINC_exec :: "(u32, 'p) mhandler" where
  "SH_POSTINC_exec env insn opcode pc s =
     (let s1 = access_in env insn 0 s;
          s2 = shadow env (memcheck_merge (in_regs insn 0) (in_regs insn 0)) s1
      in post_inc insn pc (\<lambda>s. in_reg insn 0 s + sim insn 0) (lsu_store_perf (me_wp env) (me_lsu env) (me_tr env) (linsn_of insn opcode pc) (in_reg insn 0 s2) 2 (in_regs insn 1) s2))"

definition SW_POSTINC_exec_fast :: "(u32, 'p) mhandler" where
  "SW_POSTINC_exec_fast env insn opcode pc s =
     post_inc insn pc (\<lambda>s. in_reg insn 0 s + sim insn 0) (lsu_store (me_lsu env) (me_tr env) (linsn_of insn opcode pc) (in_reg insn 0 s) 4 (in_regs insn 1) s)"

definition SW_POSTINC_exec :: "(u32, 'p) mhandler" where
  "SW_POSTINC_exec env insn opcode pc s =
     (let s1 = access_in env insn 0 s;
          s2 = shadow env (memcheck_merge (in_regs insn 0) (in_regs insn 0)) s1
      in post_inc insn pc (\<lambda>s. in_reg insn 0 s + sim insn 0) (lsu_store_perf (me_wp env) (me_lsu env) (me_tr env) (linsn_of insn opcode pc) (in_reg insn 0 s2) 4 (in_regs insn 1) s2))"

definition LB_RR_POSTINC_exec_fast :: "(u32, 'p) mhandler" where
  "LB_RR_POSTINC_exec_fast env insn opcode pc s =
     (let new_val = in_reg insn 0 s + in_reg insn 1 s
      in post_inc insn pc (\<lambda>_. new_val) (lsu_load_signed (me_lsu env) (me_tr env) (linsn_of insn opcode pc) (in_reg insn 0 s) 1 (out_regs insn 0) s))"

definition LB_RR_POSTINC_exec :: "(u32, 'p) mhandler" where
  "LB_RR_POSTINC_exec env insn opcode pc s =
     (let s1 = access_in env insn 0 s;
          s2 = shadow env (memcheck_merge2 (in_regs insn 0) (in_regs insn 0) (in_regs insn 1)) s1;
          new_val = in_reg insn 0 s2 + in_reg insn 1 s2
      in post_inc insn pc (\<lambda>_. new_val) (lsu_load_signed_perf (me_wp env) (me_lsu env) (me_tr env) (linsn_of insn opcode pc) (in_reg insn 0 s2) 1 (out_regs insn 0) s2))"

definition LH_RR_POSTINC_exec_fast :: "(u32, 'p) mhandler" where
  "LH_RR_POSTINC_exec_fast env insn opcode pc s =
     (let new_val = in_reg insn 0 s + in_reg insn 1 s
      in post_inc insn pc (\<lambda>_. new_val) (lsu_load_signed (me_lsu env) (me_tr env) (linsn_of insn opcode pc) (in_reg insn 0 s) 2 (out_regs insn 0) s))"

definition LH_RR_POSTINC_exec :: "(u32, 'p) mhandler" where
  "LH_RR_POSTINC_exec env insn opcode pc s =
     (let s1 = access_in env insn 0 s;
          s2 = shadow env (memcheck_merge2 (in_regs insn 0) (in_regs insn 0) (in_regs insn 1)) s1;
          new_val = in_reg insn 0 s2 + in_reg insn 1 s2
      in post_inc insn pc (\<lambda>_. new_val) (lsu_load_signed_perf (me_wp env) (me_lsu env) (me_tr env) (linsn_of insn opcode pc) (in_reg insn 0 s2) 2 (out_regs insn 0) s2))"

definition LW_RR_POSTINC_exec_fast :: "(u32, 'p) mhandler" where
  "LW_RR_POSTINC_exec_fast env insn opcode pc s =
     (let new_val = in_reg insn 0 s + in_reg insn 1 s
      in post_inc insn pc (\<lambda>_. new_val) (lsu_load_signed (me_lsu env) (me_tr env) (linsn_of insn opcode pc) (in_reg insn 0 s) 4 (out_regs insn 0) s))"

definition LW_RR_POSTINC_exec :: "(u32, 'p) mhandler" where
  "LW_RR_POSTINC_exec env insn opcode pc s =
     (let s1 = access_in env insn 0 s;
          s2 = shadow env (memcheck_merge2 (in_regs insn 0) (in_regs insn 0) (in_regs insn 1)) s1;
          new_val = in_reg insn 0 s2 + in_reg insn 1 s2
      in post_inc insn pc (\<lambda>_. new_val) (lsu_load_signed_perf (me_wp env) (me_lsu env) (me_tr env) (linsn_of insn opcode pc) (in_reg insn 0 s2) 4 (out_regs insn 0) s2))"

definition LBU_RR_POSTINC_exec_fast :: "(u32, 'p) mhandler" where
  "LBU_RR_POSTINC_exec_fast env insn opcode pc s =
     (let new_val = in_reg insn 0 s + in_reg insn 1 s
      in post_inc insn pc (\<lambda>_. new_val) (lsu_load (me_lsu env) (me_tr env) (linsn_of insn opcode pc) (in_reg insn 0 s) 1 (out_regs insn 0) s))"

definition LBU_RR_POSTINC_exec :: "(u32, 'p) mhandler" where
  "LBU_RR_POSTINC_exec env insn opcode pc s =
     (let s1 = access_in env insn 0 s;
          s2 = shadow env (memcheck_merge2 (in_regs insn 0) (in_regs insn 0) (in_regs insn 1)) s1;
          new_val = in_reg insn 0 s2 + in_reg insn 1 s2
      in post_inc insn pc (\<lambda>_. new_val) (lsu_load_perf (me_wp env) (me_lsu env) (me_tr env) (linsn_of insn opcode pc) (in_reg insn 0 s2) 1 (out_regs insn 0) s2))"

definition LHU_RR_POSTINC_exec_fast :: "(u32, 'p) mhandler" where
  "LHU_RR_POSTINC_exec_fast env insn opcode pc s =
     (let new_val = in_reg insn 0 s + in_reg insn 1 s
      in post_inc insn pc (\<lambda>_. new_val) (lsu_load (me_lsu env) (me_tr env) (linsn_of insn opcode pc) (in_reg insn 0 s) 2 (out_regs insn 0) s))"

definition LHU_RR_POSTINC_exec :: "(u32, 'p) mhandler" where
  "LHU_RR_POSTINC_exec env insn opcode pc s =
     (let s1 = access_in env insn 0 s;
          s2 = shadow env (memcheck_merge2 (in_regs insn 0) (in_regs insn 0) (in_regs insn 1)) s1;
          new_val = in_reg insn 0 s2 + in_reg insn 1 s2
      in post_inc insn pc (\<lambda>_. new_val) (lsu_load_perf (me_wp env) (me_lsu env) (me_tr env) (linsn_of insn opcode pc) (in_reg insn 0 s2) 2 (out_regs insn 0) s2))"

definition SB_RR_POSTINC_exec_fast :: "(u32, 'p) mhandler" where
  "SB_RR_POSTINC_exec_fast env insn opcode pc s =
     (let new_val = in_reg insn 0 s + in_reg insn 2 s
      in post_inc insn pc (\<lambda>_. new_val) (lsu_store (me_lsu env) (me_tr env) (linsn_of insn opcode pc) (in_reg insn 0 s) 1 (in_regs insn 1) s))"

definition SB_RR_POSTINC_exec :: "(u32, 'p) mhandler" where
  "SB_RR_POSTINC_exec env insn opcode pc s =
     (let s1 = access_in env insn 0 s;
          s2 = shadow env (memcheck_merge2 (in_regs insn 0) (in_regs insn 0) (in_regs insn 2)) s1;
          new_val = in_reg insn 0 s2 + in_reg insn 2 s2
      in post_inc insn pc (\<lambda>_. new_val) (lsu_store_perf (me_wp env) (me_lsu env) (me_tr env) (linsn_of insn opcode pc) (in_reg insn 0 s2) 1 (in_regs insn 1) s2))"

definition SH_RR_POSTINC_exec_fast :: "(u32, 'p) mhandler" where
  "SH_RR_POSTINC_exec_fast env insn opcode pc s =
     (let new_val = in_reg insn 0 s + in_reg insn 2 s
      in post_inc insn pc (\<lambda>_. new_val) (lsu_store (me_lsu env) (me_tr env) (linsn_of insn opcode pc) (in_reg insn 0 s) 2 (in_regs insn 1) s))"

definition SH_RR_POSTINC_exec :: "(u32, 'p) mhandler" where
  "SH_RR_POSTINC_exec env insn opcode pc s =
     (let s1 = access_in env insn 0 s;
          s2 = shadow env (memcheck_merge2 (in_regs insn 0) (in_regs insn 0) (in_regs insn 2)) s1;
          new_val = in_reg insn 0 s2 + in_reg insn 2 s2
      in post_inc insn pc (\<lambda>_. new_val) (lsu_store_perf (me_wp env) (me_lsu env) (me_tr env) (linsn_of insn opcode pc) (in_reg insn 0 s2) 2 (in_regs insn 1) s2))"

definition SW_RR_POSTINC_exec_fast :: "(u32, 'p) mhandler" where
  "SW_RR_POSTINC_exec_fast env insn opcode pc s =
     (let new_val = in_reg insn 0 s + in_reg insn 2 s
      in post_inc insn pc (\<lambda>_. new_val) (lsu_store (me_lsu env) (me_tr env) (linsn_of insn opcode pc) (in_reg insn 0 s) 4 (in_regs insn 1) s))"

definition SW_RR_POSTINC_exec :: "(u32, 'p) mhandler" where
  "SW_RR_POSTINC_exec env insn opcode pc s =
     (let s1 = access_in env insn 0 s;
          s2 = shadow env (memcheck_merge2 (in_regs insn 0) (in_regs insn 0) (in_regs insn 2)) s1;
          new_val = in_reg insn 0 s2 + in_reg insn 2 s2
      in post_inc insn pc (\<lambda>_. new_val) (lsu_store_perf (me_wp env) (me_lsu env) (me_tr env) (linsn_of insn opcode pc) (in_reg insn 0 s2) 4 (in_regs insn 1) s2))"

definition SB_RR_exec_fast :: "(u32, 'p) mhandler" where
  "SB_RR_exec_fast env insn opcode pc s =
     after_lsu insn pc (lsu_store (me_lsu env) (me_tr env) (linsn_of insn opcode pc) (in_reg insn 0 s + in_reg insn 2 s) 1 (in_regs insn 1) s)"

definition SB_RR_exec :: "(u32, 'p) mhandler" where
  "SB_RR_exec env insn opcode pc s =
     (let s1 = access_in env insn 0 s;
          s2 = access_in env insn 2 s1
      in after_lsu insn pc (lsu_store_perf (me_wp env) (me_lsu env) (me_tr env) (linsn_of insn opcode pc) (in_reg insn 0 s2 + in_reg insn 2 s2) 1 (in_regs insn 1) s2))"

definition SH_RR_exec_fast :: "(u32, 'p) mhandler" where
  "SH_RR_exec_fast env insn opcode pc s =
     after_lsu insn pc (lsu_store (me_lsu env) (me_tr env) (linsn_of insn opcode pc) (in_reg insn 0 s + in_reg insn 2 s) 2 (in_regs insn 1) s)"

definition SH_RR_exec :: "(u32, 'p) mhandler" where
  "SH_RR_exec env insn opcode pc s =
     (let s1 = access_in env insn 0 s;
          s2 = access_in env insn 2 s1
      in after_lsu insn pc (lsu_store_perf (me_wp env) (me_lsu env) (me_tr env) (linsn_of insn opcode pc) (in_reg insn 0 s2 + in_reg insn 2 s2) 2 (in_regs insn 1) s2))"

definition SW_RR_exec_fast :: "(u32, 'p) mhandler" where
  "SW_RR_exec_fast env insn opcode pc s =
     after_lsu insn pc (lsu_store (me_lsu env) (me_tr env) (linsn_of insn opcode pc) (in_reg insn 0 s + in_reg insn 2 s) 4 (in_regs insn 1) s)"

definition SW_RR_exec :: "(u32, 'p) mhandler" where
  "SW_RR_exec env insn opcode pc s =
     (let s1 = access_in env insn 0 s;
          s2 = access_in env insn 2 s1
      in after_lsu insn pc (lsu_store_perf (me_wp env) (me_lsu env) (me_tr env) (linsn_of insn opcode pc) (in_reg insn 0 s2 + in_reg insn 2 s2) 4 (in_regs insn 1) s2))"

text \<open>The event load, without \<^verbatim>\<open>CONFIG_GVSOC_ISS_ELW\<close>.\<close>

definition p_elw_exec :: "(u32, 'p) mhandler" where
  "p_elw_exec env insn opcode pc s =
     (let s1 = access_in env insn 0 s
      in after_lsu insn pc (lsu_load_signed (me_lsu env) (me_tr env) (linsn_of insn opcode pc) (mem_addr insn s1) 4 (out_regs insn 0) s1))"

section \<open>Hardware loops\<close>

text \<open>These handlers work on the register file and the loops; the index of the loop is an immediate.\<close>

type_synonym lp_handler = "u32 iss_insn \<Rightarrow> u32 \<Rightarrow> u32 cpu \<times> u32 hwloop \<Rightarrow> (u32 cpu \<times> u32 hwloop) \<times> u32"

definition lp_target :: "u32 iss_insn \<Rightarrow> nat \<Rightarrow> u32 \<Rightarrow> u32" where
  "lp_target insn i pc = pc + push_bit 1 (uim insn i)"

definition lp_starti_exec :: lp_handler where
  "lp_starti_exec insn pc s = (case s of (c, h) \<Rightarrow> ((c, set_start (unat (uim insn 0)) (lp_target insn 1 pc) h), iss_insn_next insn pc))"

definition lp_endi_exec :: lp_handler where
  "lp_endi_exec insn pc s = (case s of (c, h) \<Rightarrow> ((c, set_end (unat (uim insn 0)) (lp_target insn 1 pc) h), iss_insn_next insn pc))"

definition lp_count_exec :: lp_handler where
  "lp_count_exec insn pc s =
     (case s of (c, h) \<Rightarrow>
        let c1 = on_rf (memcheck_branch_reg (in_regs insn 0)) c
        in ((c1, set_count (unat (uim insn 0)) (reg_get insn 0 c1) h), iss_insn_next insn pc))"

definition lp_counti_exec :: lp_handler where
  "lp_counti_exec insn pc s = (case s of (c, h) \<Rightarrow> ((c, set_count (unat (uim insn 0)) (uim insn 1) h), iss_insn_next insn pc))"

definition lp_setup_exec :: lp_handler where
  "lp_setup_exec insn pc s =
     (case s of (c, h) \<Rightarrow>
        let c1 = on_rf (memcheck_branch_reg (in_regs insn 0)) c; index = unat (uim insn 0);
            h1 = set_start index (pc + of_nat (insn_size insn)) h;
            h2 = set_end index (lp_target insn 1 pc) h1
        in ((c1, set_count index (reg_get insn 0 c1) h2), iss_insn_next insn pc))"

definition lp_setupi_exec :: lp_handler where
  "lp_setupi_exec insn pc s =
     (case s of (c, h) \<Rightarrow>
        let index = unat (uim insn 0);
            h1 = set_start index (pc + of_nat (insn_size insn)) h;
            h2 = set_end index (lp_target insn 2 pc) h1
        in ((c, set_count index (uim insn 1) h2), iss_insn_next insn pc))"

end
