(* ===== verification/Isa_Pulp_Mem_Props.thy ===== *)
theory Isa_Pulp_Mem_Props
  imports Isa_Pulp_Mem Isa_Mem_Props Isa_Memcheck
begin

text \<open>
  The loads and stores of the PULP extension on the memory: indexed accesses go to the sum of two registers, and the accesses with post-increment go to the base register and leave it incremented.
\<close>

section \<open>An access that is deferred does not look at the registers again\<close>

lemma on_lrf_fields [simp]:
  "ls_free (on_lrf f s) = ls_free s" "ls_port (on_lrf f s) = ls_port s" "ls_entry (on_lrf f s) = ls_entry s" "ls_x (on_lrf f s) = ls_x s"
  "ls_nb_pending (on_lrf f s) = ls_nb_pending s" "ls_io_req_denied (on_lrf f s) = ls_io_req_denied s" "ls_rf (on_lrf f s) = f (ls_rf s)"
  "can_issue (on_lrf f s) e = can_issue s e" "mem_addr insn (on_lrf f s) = get_reg (in_regs insn 0) (f (ls_rf s)) + sim insn 0"
  by (simp_all add: on_lrf_def can_issue_def mem_addr_def)

lemma data_req_aligned_eq:
  assumes "ls_free s = e # es" "\<not> lv_memcheck env"
    "lv_req env (ls_port s) (sent_req env addr sz opc reg e s) = (p', r', IO_REQ_DONE)" "0 < lr_latency r'"
  shows "data_req_aligned env insn addr sz opc signd reg reg2 s =
    (hold_entry insn e (on_x (enqueue_task (T_Unit e)) (upd_entry e (\<lambda>en. en\<lparr>le_timestamp := lv_cycles env + lr_latency (le_req en)\<rparr>)
      (upd_req e (\<lambda>_. r') ((fill_entry env insn addr sz opc signd reg reg2 e
        (s\<lparr>ls_granted_entry := None, ls_nb_pending := ls_nb_pending s + 1, ls_free := es\<rparr>))\<lparr>ls_port := p'\<rparr>)))), False)"
proof -
  let ?f = "fill_entry env insn addr sz opc signd reg reg2 e (s\<lparr>ls_granted_entry := None, ls_nb_pending := ls_nb_pending s + 1, ls_free := es\<rparr>)"
  have f: "le_req (ls_entry ?f e) = sent_req env addr sz opc reg e s" "ls_port ?f = ls_port s"
    using assms(2) by (auto simp: fill_entry_def sent_req_def lsu_defs Let_def)
  have sr: "send_req env e ?f = (upd_req e (\<lambda>_. r') (?f\<lparr>ls_port := p'\<rparr>), IO_REQ_DONE)"
    unfolding send_req_def f assms(3) by simp
  have h: "handle_req_response env e (upd_req e (\<lambda>_. r') (?f\<lparr>ls_port := p'\<rparr>)) =
      (on_x (enqueue_task (T_Unit e)) (upd_entry e (\<lambda>en. en\<lparr>le_timestamp := lv_cycles env + lr_latency (le_req en)\<rparr>) (upd_req e (\<lambda>_. r') (?f\<lparr>ls_port := p'\<rparr>))), True)"
    using assms(4) by (simp add: handle_req_response_def response_step_def upd_req_def upd_entry_def Let_def)
  show ?thesis unfolding data_req_aligned_def Let_def using assms(1) sr h by (simp add: get_req_entry_def)
qed

text \<open>The store data are read when the access is issued.\<close>

definition keeps_data :: "io_opcode \<Rightarrow> nat \<Rightarrow> ('w regfile \<Rightarrow> 'w regfile) \<Rightarrow> ('w, 'p) lsu \<Rightarrow> bool" where
  "keeps_data opc reg f s \<longleftrightarrow> opc = OP_READ \<or> rf_regs (f (ls_rf s)) reg = rf_regs (ls_rf s) reg"

lemma data_req_aligned_on_lrf:
  assumes "ls_free s = e # es" "\<not> lv_memcheck env" "keeps_data opc reg f s"
    "lv_req env (ls_port s) (sent_req env addr sz opc reg e s) = (p', r', IO_REQ_DONE)" "0 < lr_latency r'"
  shows "data_req_aligned env insn addr sz opc signd reg reg2 (on_lrf f s) =
      (on_lrf f (fst (data_req_aligned env insn addr sz opc signd reg reg2 s)), False)"
proof -
  have "lv_req env (ls_port (on_lrf f s)) (sent_req env addr sz opc reg e (on_lrf f s)) = (p', r', IO_REQ_DONE)"
    using assms(3,4) by (auto simp: sent_req_def keeps_data_def get_reg_def)
  note eqs = data_req_aligned_eq [OF assms(1,2,4,5)] data_req_aligned_eq [OF _ assms(2) this assms(5), of es]
  show ?thesis unfolding eqs(1) using eqs(2) assms(1,3)
    by (auto simp: fill_entry_def hold_entry_def lsu_defs on_lrf_def Let_def assms(2) keeps_data_def get_reg_def split: prod.splits)
qed

lemma mem_req_deferred:
  fixes s :: "('x::len word, memory option) lsu"
  assumes "access_ok env addr n" "timed_mem c (ls_port s)" "addr_fits c addr n" "lv_req env = lsu_mem_req cyc pe" "opc = OP_READ \<or> opc = OP_WRITE"
  shows "\<exists>p' r'. lv_req env (ls_port s) (sent_req env addr n opc reg e s) = (p', r', IO_REQ_DONE) \<and> 0 < lr_latency r'"
proof -
  let ?r = "sent_req env addr n opc reg e s"
  have p: "prepare_ok (lv_prepare env)" "0 < n" "n \<le> 8" using assms(1) by (simp_all add: access_ok_def)
  have r: "lr_addr ?r = addr" "lr_size ?r = n" "lr_opcode ?r = opc" "\<not> lr_mc ?r" "lr_latency ?r = 0"
    using p(1) by (simp_all add: sent_req_def prepare_ok_def)
  show ?thesis using lsu_mem.read [OF assms(2), of ?r cyc pe] "lsu_mem.write" [OF assms(2), of ?r cyc pe] assms(3-5) r p
    by (elim disjE) (simp_all, force+)
qed

lemma data_req_on_lrf:
  fixes s :: "('x::len word, memory option) lsu"
  assumes "access_ok env addr sz" "can_issue s e" "timed_mem c (ls_port s)" "addr_fits c addr sz" "lv_req env = lsu_mem_req cyc pe"
    "opc = OP_READ \<or> opc = OP_WRITE" "keeps_data opc reg f s"
  shows "data_req env insn addr sz opc signd reg reg2 (on_lrf f s) = (on_lrf f (fst (data_req env insn addr sz opc signd reg reg2 s)), False)"
proof -
  obtain es where f: "ls_free s = e # es" using assms(2) by (cases "ls_free s") (auto simp: can_issue_def)
  have p: "\<not> lv_memcheck env" using assms(1) by (simp add: access_ok_def)
  show ?thesis
  proof (cases "straddles (lv_width env) addr sz")
    case False
    then show ?thesis using mem_req_deferred [OF assms(1,3-6), of reg e] data_req_aligned_on_lrf [OF f p assms(7)]
      by (auto simp: data_req_aligned_or_split [OF p])
  next
    case True
    let ?s0 = "(l_act L_Misaligned_Account s)\<lparr>ls_issuing_misaligned := True\<rparr>" and ?m = "beat0_size (lv_width env) addr sz"
    note b = lsu_mem.access_ok_beats [OF assms(1) True assms(4)]
    have s0: "ls_free ?s0 = e # es" "timed_mem c (ls_port ?s0)" "keeps_data opc reg f ?s0" using f assms(3,7) by (simp_all add: l_act_def keeps_data_def)
    obtain p' r' where "lv_req env (ls_port ?s0) (sent_req env addr ?m opc reg e ?s0) = (p', r', IO_REQ_DONE)" "0 < lr_latency r'"
      using mem_req_deferred [OF b(4) s0(2) b(5) assms(5,6)] by blast
    from data_req_aligned_on_lrf [OF s0(1) p s0(3) this, of insn signd reg2] data_req_aligned_eq [OF s0(1) p this, of insn signd reg2] obtain s1 where
      s1: "data_req_aligned env insn addr ?m opc signd reg reg2 ?s0 = (s1, False)"
        "data_req_aligned env insn addr ?m opc signd reg reg2 (on_lrf f ?s0) = (on_lrf f s1, False)" by simp
    have c: "(l_act L_Misaligned_Account (on_lrf f s))\<lparr>ls_issuing_misaligned := True\<rparr> = on_lrf f ?s0" by (simp add: l_act_def on_lrf_def)
    show ?thesis
      unfolding data_req_aligned_or_split [OF p] if_P [OF True] data_req_misaligned_def beat1_addr_def [symmetric] beat0_size_def [symmetric] Let_def
      using f s1 assms(7) unfolding c by (auto simp: l_act_def keeps_data_def get_reg_def lsu_defs)
  qed
qed

section \<open>Loads\<close>

datatype pmode = P_RR | P_POST | P_RR_POST

datatype pload_kind = P_LB | P_LH | P_LW | P_LBU | P_LHU

fun pulp_load :: "bool \<Rightarrow> pmode \<Rightarrow> pload_kind \<Rightarrow> (u32, 'p) mhandler" where
  "pulp_load fast P_RR P_LB = (if fast then LB_RR_exec_fast else LB_RR_exec)"
| "pulp_load fast P_RR P_LH = (if fast then LH_RR_exec_fast else LH_RR_exec)"
| "pulp_load fast P_RR P_LW = (if fast then LW_RR_exec_fast else LW_RR_exec)"
| "pulp_load fast P_RR P_LBU = (if fast then LBU_RR_exec_fast else LBU_RR_exec)"
| "pulp_load fast P_RR P_LHU = (if fast then LHU_RR_exec_fast else LHU_RR_exec)"
| "pulp_load fast P_POST P_LB = (if fast then LB_POSTINC_exec_fast else LB_POSTINC_exec)"
| "pulp_load fast P_POST P_LH = (if fast then LH_POSTINC_exec_fast else LH_POSTINC_exec)"
| "pulp_load fast P_POST P_LW = (if fast then LW_POSTINC_exec_fast else LW_POSTINC_exec)"
| "pulp_load fast P_POST P_LBU = (if fast then LBU_POSTINC_exec_fast else LBU_POSTINC_exec)"
| "pulp_load fast P_POST P_LHU = (if fast then LHU_POSTINC_exec_fast else LHU_POSTINC_exec)"
| "pulp_load fast P_RR_POST P_LB = (if fast then LB_RR_POSTINC_exec_fast else LB_RR_POSTINC_exec)"
| "pulp_load fast P_RR_POST P_LH = (if fast then LH_RR_POSTINC_exec_fast else LH_RR_POSTINC_exec)"
| "pulp_load fast P_RR_POST P_LW = (if fast then LW_RR_POSTINC_exec_fast else LW_RR_POSTINC_exec)"
| "pulp_load fast P_RR_POST P_LBU = (if fast then LBU_RR_POSTINC_exec_fast else LBU_RR_POSTINC_exec)"
| "pulp_load fast P_RR_POST P_LHU = (if fast then LHU_RR_POSTINC_exec_fast else LHU_RR_POSTINC_exec)"

lemmas pulp_load_defs = LB_RR_exec_fast_def LB_RR_exec_def LH_RR_exec_fast_def LH_RR_exec_def LW_RR_exec_fast_def LW_RR_exec_def LBU_RR_exec_fast_def LBU_RR_exec_def LHU_RR_exec_fast_def LHU_RR_exec_def LB_POSTINC_exec_fast_def LB_POSTINC_exec_def LH_POSTINC_exec_fast_def LH_POSTINC_exec_def LW_POSTINC_exec_fast_def LW_POSTINC_exec_def LBU_POSTINC_exec_fast_def LBU_POSTINC_exec_def LHU_POSTINC_exec_fast_def LHU_POSTINC_exec_def LB_RR_POSTINC_exec_fast_def LB_RR_POSTINC_exec_def LH_RR_POSTINC_exec_fast_def LH_RR_POSTINC_exec_def LW_RR_POSTINC_exec_fast_def LW_RR_POSTINC_exec_def LBU_RR_POSTINC_exec_fast_def LBU_RR_POSTINC_exec_def LHU_RR_POSTINC_exec_fast_def LHU_RR_POSTINC_exec_def

fun pload_size :: "pload_kind \<Rightarrow> nat" where
  "pload_size P_LB = 1" | "pload_size P_LBU = 1" | "pload_size P_LH = 2" | "pload_size P_LHU = 2" | "pload_size P_LW = 4"

definition pload_signed :: "pmode \<Rightarrow> pload_kind \<Rightarrow> bool" where
  "pload_signed m k \<longleftrightarrow> k = P_LB \<or> k = P_LH \<or> (k = P_LW \<and> m \<noteq> P_RR)"

text \<open>The address of an access and the registers it leaves, for the index register \<open>i\<close>.\<close>

definition pulp_addr :: "pmode \<Rightarrow> nat \<Rightarrow> u32 iss_insn \<Rightarrow> u32 regfile \<Rightarrow> u32" where
  "pulp_addr m i insn rf = get_reg (in_regs insn 0) rf + (if m = P_RR then get_reg (in_regs insn i) rf else 0)"

definition pulp_base :: "pmode \<Rightarrow> nat \<Rightarrow> u32 iss_insn \<Rightarrow> u32 regfile \<Rightarrow> u32 regfile" where
  "pulp_base m i insn rf =
     (case m of P_RR \<Rightarrow> rf
      | P_POST \<Rightarrow> set_reg (in_regs insn 0) (get_reg (in_regs insn 0) rf + sim insn 0) rf
      | P_RR_POST \<Rightarrow> set_reg (in_regs insn 0) (get_reg (in_regs insn 0) rf + get_reg (in_regs insn i) rf) rf)"

definition pulp_end :: "pmode \<Rightarrow> nat \<Rightarrow> u32 iss_insn \<Rightarrow> u32 \<Rightarrow> (u32, 'p) lsu \<Rightarrow> (u32, 'p) lsu \<times> bool \<Rightarrow> (u32, 'p) lsu \<times> u32" where
  "pulp_end m i insn pc s r =
     (case m of P_RR \<Rightarrow> after_lsu insn pc r
      | P_POST \<Rightarrow> post_inc insn pc (\<lambda>s. in_reg insn 0 s + sim insn 0) r
      | P_RR_POST \<Rightarrow> post_inc insn pc (\<lambda>_. in_reg insn 0 s + in_reg insn i s) r)"

lemma pulp_load_op:
  fixes env :: "(u32, 'p) menv"
  assumes "me_tr env" "\<not> me_wp env" "\<not> lv_memcheck (me_lsu env)"
  shows "pulp_load fast m k env insn opcode pc s =
    pulp_end m 1 insn pc s (load_op (pload_signed m k) (me_lsu env) (linsn_of insn opcode pc) (pulp_addr m 1 insn (ls_rf s)) (pload_size k) (out_regs insn 0) s)"
  using assms
  by (cases m; cases k; cases fast) (simp_all add: pulp_load_defs pulp_end_def pulp_addr_def access_in_def shadow_def in_reg_def load_op_def load_perf_plain pload_signed_def Let_def)

text \<open>The issue of an access keeps the registers, and would be the same with others.\<close>

lemma data_req_rf:
  fixes s :: "('x::len word, memory option) lsu"
  assumes "access_ok env addr sz" "can_issue s e" "timed_mem c (ls_port s)" "addr_fits c addr sz" "lv_req env = lsu_mem_req cyc pe"
    "opc = OP_READ \<or> opc = OP_WRITE"
  shows "ls_rf (fst (data_req env insn addr sz opc signd reg reg2 s)) = ls_rf s"
proof -
  have s: "on_lrf (\<lambda>_. ls_rf s) s = s" by (simp add: on_lrf_def)
  have "keeps_data opc reg (\<lambda>_. ls_rf s) s" by (simp add: keeps_data_def)
  from data_req_on_lrf [OF assms this, of insn signd reg2, unfolded s] show ?thesis by (metis fst_conv on_lrf_fields(7))
qed

lemma load_op_data_req:
  assumes "can_issue s e" "data_req env insn addr sz OP_READ signd reg 0 s = (s1, False)"
  shows "load_op signd env insn addr sz reg s = (s1, False)"
  using virtual_issues [OF assms] by (cases signd) (simp_all add: load_op_def lsu_load_def lsu_load_signed_def)

lemma pulp_end_issued:
  assumes "ls_rf s1 = ls_rf s"
  shows "pulp_end m i insn pc s (s1, False) = (on_lrf (\<lambda>_. pulp_base m i insn (ls_rf s)) s1, iss_insn_next insn pc)"
  using assms by (cases m) (simp_all add: pulp_end_def after_lsu_def post_inc_def pulp_base_def in_reg_def on_lrf_def)

lemma load_post:
  fixes s :: "(u32, memory option) lsu"
  assumes "mem_ready env c addr (pload_size k) e s" "addr = pulp_addr m 1 insn (ls_rf s)" "sz = pload_size k"
  shows "\<exists>s1. pulp_load fast m k env insn opcode pc s = (s1, pc + of_nat (insn_size insn)) \<and>
    access_effect s e (set_reg (out_regs insn 0) (load_value (pload_signed m k) (bytes_at (mem_byte (ls_port s)) addr sz)) (pulp_base m 1 insn (ls_rf s)))
      (after_access (me_lsu env) c addr sz e s1) \<and>
    mem_byte (ls_port (after_access (me_lsu env) c addr sz e s1)) = (mem_byte (ls_port s) :: u32 \<Rightarrow> byte)"
proof -
  have p: "me_tr env" "\<not> me_wp env" "\<not> lv_memcheck (me_lsu env)" using assms(1) by (simp_all add: mem_ready_def access_ok_def)
  obtain cyc pe where r: "access_ok (me_lsu env) addr sz" "can_issue s e" "timed_mem c (ls_port s)" "addr_fits c addr sz"
      "lv_req (me_lsu env) = lsu_mem_req cyc pe" "8 * sz \<le> LENGTH(32)"
    using assms(1) unfolding mem_ready_def assms(3) by blast
  let ?i = "linsn_of insn opcode pc" and ?g = "\<lambda>_ :: u32 regfile. pulp_base m 1 insn (ls_rf s)" and ?rd = "out_regs insn 0" and ?sg = "pload_signed m k"
  define s1 where "s1 = fst (data_req (me_lsu env) ?i addr sz OP_READ ?sg ?rd 0 s)"
  have k: "keeps_data OP_READ ?rd f s" for f by (simp add: keeps_data_def)
  have id: "on_lrf (\<lambda>_. ls_rf s) s = s" by (simp add: on_lrf_def)
  have i: "data_req (me_lsu env) ?i addr sz OP_READ ?sg ?rd 0 s = (s1, False)"
    using data_req_on_lrf [OF r(1-5) disjI1 [OF refl] k, of ?i ?sg 0 "\<lambda>_. ls_rf s", unfolded id] by (simp add: s1_def prod_eq_iff)
  have j: "data_req (me_lsu env) ?i addr sz OP_READ ?sg ?rd 0 (on_lrf ?g s) = (on_lrf ?g s1, False)"
    using data_req_on_lrf [OF r(1-5) disjI1 [OF refl] k, of ?i ?sg 0 ?g] by (simp add: s1_def)
  have rf: "ls_rf s1 = ls_rf s" unfolding s1_def by (rule data_req_rf [OF r(1-5) disjI1 [OF refl]])
  have h: "pulp_load fast m k env insn opcode pc s = (on_lrf ?g s1, iss_insn_next insn pc)"
    using pulp_load_op [OF p, of fast m k insn opcode pc s] load_op_data_req [OF r(2) i] pulp_end_issued [OF rf] assms(2,3) by simp
  have c: "can_issue (on_lrf ?g s) e" "timed_mem c (ls_port (on_lrf ?g s))" using r(2,3) by simp_all
  obtain s2 where s2: "load_op ?sg (me_lsu env) ?i addr sz ?rd (on_lrf ?g s) = (s2, False)"
      "access_effect (on_lrf ?g s) e (set_reg ?rd (load_value ?sg (bytes_at (mem_byte (ls_port s)) addr sz)) (?g (ls_rf s))) (after_access (me_lsu env) c addr sz e s2)"
      "mem_byte (ls_port (after_access (me_lsu env) c addr sz e s2)) = (mem_byte (ls_port s) :: u32 \<Rightarrow> byte)"
    using load_done [OF r(1) c r(4-6), of ?sg ?i ?rd] by auto
  have "s2 = on_lrf ?g s1" using s2(1) load_op_data_req [OF c(1) j] by simp
  then show ?thesis using h s2(2,3) by (auto simp: access_effect_def iss_insn_next_def)
qed


text \<open>An indexed load with the base register 0, and a load with post-increment.\<close>

definition pinsn0 :: "nat \<Rightarrow> u32 iss_insn" where
  "pinsn0 b = minsn0\<lparr>in_regs := (\<lambda>i. if i = 0 then b else 7), sim := (\<lambda>_. 4)\<rparr>"

definition plsu0 :: "(u32, memory option) lsu" where
  "plsu0 = (lsu0 2)\<lparr>ls_rf := set_reg 9 6 (ls_rf (lsu0 2))\<rparr>"

lemma plsu0_ready: "mem_ready menv0 (lsu_cfg 2) 6 4 0 plsu0"
  using mem_demo_ready by (simp add: mem_ready_def plsu0_def can_issue_def)

lemma plsu0_addr: "pulp_addr P_POST i (pinsn0 9) (ls_rf plsu0) = 6" "ls_port plsu0 = ls_port (lsu0 2)" "get_reg 9 (ls_rf plsu0) = 6" "get_reg 7 (ls_rf plsu0) = 0x89ABCDEF"
  by (simp_all add: pulp_addr_def pinsn0_def minsn0_def get_reg_def plsu0_def set_reg_def lsu0_def)


text \<open>
  On a memory without latency, which every memory is in functional simulation, the destination is written before the base register is read again for the increment: when they are the same register, it is left
  with the value loaded plus the immediate, which is neither the value loaded nor the incremented base.
\<close>

theorem postinc_of_loaded_value:
  "let s = (lsu0 0)\<lparr>ls_rf := set_reg 9 4 (ls_rf (lsu0 0))\<rparr>;
       s1 = fst (pulp_load False P_POST P_LW menv0 ((pinsn0 9)\<lparr>out_regs := (\<lambda>_. 9)\<rparr>) 0 0x100 s)
   in from_le (bytes_at (mem_byte (ls_port s)) (4 :: u32) 4) = (0x07060504 :: u32) \<and> get_reg 9 (ls_rf s1) = 0x07060504 + 4 \<and> ls_nb_pending s1 = 0"
  by code_simp

section \<open>Stores\<close>

datatype pstore_kind = P_SB | P_SH | P_SW

fun pulp_store :: "bool \<Rightarrow> pmode \<Rightarrow> pstore_kind \<Rightarrow> (u32, 'p) mhandler" where
  "pulp_store fast P_RR P_SB = (if fast then SB_RR_exec_fast else SB_RR_exec)"
| "pulp_store fast P_RR P_SH = (if fast then SH_RR_exec_fast else SH_RR_exec)"
| "pulp_store fast P_RR P_SW = (if fast then SW_RR_exec_fast else SW_RR_exec)"
| "pulp_store fast P_POST P_SB = (if fast then SB_POSTINC_exec_fast else SB_POSTINC_exec)"
| "pulp_store fast P_POST P_SH = (if fast then SH_POSTINC_exec_fast else SH_POSTINC_exec)"
| "pulp_store fast P_POST P_SW = (if fast then SW_POSTINC_exec_fast else SW_POSTINC_exec)"
| "pulp_store fast P_RR_POST P_SB = (if fast then SB_RR_POSTINC_exec_fast else SB_RR_POSTINC_exec)"
| "pulp_store fast P_RR_POST P_SH = (if fast then SH_RR_POSTINC_exec_fast else SH_RR_POSTINC_exec)"
| "pulp_store fast P_RR_POST P_SW = (if fast then SW_RR_POSTINC_exec_fast else SW_RR_POSTINC_exec)"

lemmas pulp_store_defs = SB_RR_exec_fast_def SB_RR_exec_def SH_RR_exec_fast_def SH_RR_exec_def SW_RR_exec_fast_def SW_RR_exec_def SB_POSTINC_exec_fast_def SB_POSTINC_exec_def SH_POSTINC_exec_fast_def SH_POSTINC_exec_def SW_POSTINC_exec_fast_def SW_POSTINC_exec_def SB_RR_POSTINC_exec_fast_def SB_RR_POSTINC_exec_def SH_RR_POSTINC_exec_fast_def SH_RR_POSTINC_exec_def SW_RR_POSTINC_exec_fast_def SW_RR_POSTINC_exec_def

fun pstore_size :: "pstore_kind \<Rightarrow> nat" where
  "pstore_size P_SB = 1" | "pstore_size P_SH = 2" | "pstore_size P_SW = 4"

lemma pulp_store_op:
  fixes env :: "(u32, 'p) menv"
  assumes "me_tr env" "\<not> me_wp env" "\<not> lv_memcheck (me_lsu env)"
  shows "pulp_store fast m k env insn opcode pc s =
    pulp_end m 2 insn pc s (lsu_store (me_lsu env) True (linsn_of insn opcode pc) (pulp_addr m 2 insn (ls_rf s)) (pstore_size k) (in_regs insn 1) s)"
  using assms
  by (cases m; cases k; cases fast) (simp_all add: pulp_store_defs pulp_end_def pulp_addr_def access_in_def shadow_def in_reg_def load_perf_plain Let_def)

text \<open>
  Every store of the PULP extension writes the low bytes of its source register at the sum of the base and the index register, or at the base register; with post-increment the base register is left
  incremented and the value stored is the one the source had before.
\<close>

theorem pulp_store_spec:
  fixes s :: "(u32, memory option) lsu"
  assumes "mem_ready env c addr (pstore_size k) e s" "addr = pulp_addr m 2 insn (ls_rf s)" "sz = pstore_size k"
    and "m = P_RR \<or> in_regs insn 1 \<noteq> in_regs insn 0"
  shows "\<exists>s1. pulp_store fast m k env insn opcode pc s = (s1, pc + of_nat (insn_size insn)) \<and>
    access_effect s e (pulp_base m 2 insn (ls_rf s)) (after_access (me_lsu env) c addr sz e s1) \<and>
    mem_byte (ls_port (after_access (me_lsu env) c addr sz e s1)) =
      write_at addr (to_le sz (get_reg (in_regs insn 1) (ls_rf s))) (mem_byte (ls_port s) :: u32 \<Rightarrow> byte)"
proof -
  have p: "me_tr env" "\<not> me_wp env" "\<not> lv_memcheck (me_lsu env)" using assms(1) by (simp_all add: mem_ready_def access_ok_def)
  obtain cyc pe where r: "access_ok (me_lsu env) addr sz" "can_issue s e" "timed_mem c (ls_port s)" "addr_fits c addr sz"
      "lv_req (me_lsu env) = lsu_mem_req cyc pe" "8 * sz \<le> LENGTH(32)"
    using assms(1) unfolding mem_ready_def assms(3) by blast
  have le: "to_le sz (ucast v :: u64) = to_le sz v" for v :: u32
    by (rule nth_equalityI) (use r(4,6) in \<open>auto intro!: bit_word_eqI simp: bit_ucast_iff bit_drop_bit_eq addr_fits_def\<close>)
  let ?i = "linsn_of insn opcode pc" and ?g = "\<lambda>_ :: u32 regfile. pulp_base m 2 insn (ls_rf s)" and ?rs = "in_regs insn 1"
  define s1 where "s1 = fst (data_req (me_lsu env) ?i addr sz OP_WRITE False ?rs 0 s)"
  have id: "on_lrf (\<lambda>_. ls_rf s) s = s" "keeps_data OP_WRITE ?rs (\<lambda>_. ls_rf s) s" by (simp_all add: on_lrf_def keeps_data_def)
  have src: "rf_regs (pulp_base m 2 insn (ls_rf s)) ?rs = rf_regs (ls_rf s) ?rs"
    using assms(4) by (cases m) (auto simp: pulp_base_def set_reg_def)
  then have k: "keeps_data OP_WRITE ?rs ?g s" by (simp add: keeps_data_def)
  have i: "data_req (me_lsu env) ?i addr sz OP_WRITE False ?rs 0 s = (s1, False)"
    using data_req_on_lrf [OF r(1-5) disjI2 [OF refl] id(2), of ?i False 0, unfolded id(1)] by (simp add: s1_def prod_eq_iff)
  have j: "data_req (me_lsu env) ?i addr sz OP_WRITE False ?rs 0 (on_lrf ?g s) = (on_lrf ?g s1, False)"
    using data_req_on_lrf [OF r(1-5) disjI2 [OF refl] k, of ?i False 0] by (simp add: s1_def)
  have rf: "ls_rf s1 = ls_rf s" unfolding s1_def by (rule data_req_rf [OF r(1-5) disjI2 [OF refl]])
  have st: "lsu_store (me_lsu env) True ?i addr sz ?rs s' = (s1', False)"
    if "can_issue s' e" "data_req (me_lsu env) ?i addr sz OP_WRITE False ?rs 0 s' = (s1', False)" for s' s1'
    using virtual_issues [OF that] by (simp add: lsu_store_def)
  have h: "pulp_store fast m k env insn opcode pc s = (on_lrf ?g s1, iss_insn_next insn pc)"
    using pulp_store_op [OF p, of fast m k insn opcode pc s] st [OF r(2) i] pulp_end_issued [OF rf] assms(2,3) by simp
  have c: "can_issue (on_lrf ?g s) e" "timed_mem c (ls_port (on_lrf ?g s))" using r(2,3) by simp_all
  obtain s2 where s2: "lsu_store (me_lsu env) True ?i addr sz ?rs (on_lrf ?g s) = (s2, False)"
      "access_effect (on_lrf ?g s) e (?g (ls_rf s)) (after_access (me_lsu env) c addr sz e s2)"
      "mem_byte (ls_port (after_access (me_lsu env) c addr sz e s2)) = write_at addr (to_le sz (get_reg ?rs (ls_rf s))) (mem_byte (ls_port s) :: u32 \<Rightarrow> byte)"
    using store_done [OF r(1) c r(4,5), of ?i ?rs] src by (auto simp: le get_reg_def)
  have "s2 = on_lrf ?g s1" using s2(1) st [OF c(1) j] by simp
  then show ?thesis using h s2(2,3) by (auto simp: access_effect_def iss_insn_next_def)
qed

theorem pulp_store_spec_witness:
  "\<exists>s1. pulp_store True P_POST P_SW menv0 (pinsn0 9) 0 0x100 plsu0 = (s1, 0x104) \<and>
     get_reg 9 (ls_rf (after_access (lsu_env0 0) (lsu_cfg 2) 6 4 0 s1)) = 10"
proof -
  have "mem_ready menv0 (lsu_cfg 2) 6 (pstore_size P_SW) 0 plsu0" using plsu0_ready by simp
  from pulp_store_spec [OF this plsu0_addr(1) [of 2, symmetric], of 4 True 0 "0x100"] show ?thesis
    using plsu0_addr(3) by (auto simp: access_effect_def get_reg_def set_reg_def pinsn0_def minsn0_def pulp_base_def menv0_def)
qed

section \<open>The zero register as a base\<close>

text \<open>
  C40: A load with post-increment whose base register is \<open>x0\<close> leaves the immediate in \<open>x0\<close>: the base is written as it was read, without the redirection to the dummy register that
  the decoder applies to destinations.
\<close>

theorem postinc_writes_x0:
  fixes s :: "(u32, memory option) lsu"
  assumes "mem_ready env c 0 (pload_size k) e s" "in_regs insn 0 = 0" "get_reg 0 (ls_rf s) = 0" "out_regs insn 0 \<noteq> 0" "sz = pload_size k"
  shows "\<exists>s1. pulp_load fast P_POST k env insn opcode pc s = (s1, pc + of_nat (insn_size insn)) \<and>
    get_reg 0 (ls_rf (after_access (me_lsu env) c 0 sz e s1)) = sim insn 0"
proof -
  have a: "0 = pulp_addr P_POST 1 insn (ls_rf s)" using assms(2,3) by (simp add: pulp_addr_def)
  show ?thesis using load_post [OF assms(1) a assms(5), of fast opcode pc] assms(2-4)
    by (auto simp: access_effect_def pulp_base_def get_reg_def set_reg_def)
qed

theorem postinc_writes_x0_witness:
  "\<exists>s1. pulp_load False P_POST P_LW menv0 (pinsn0 0) 0 0x100 (lsu0 2) = (s1, 0x104) \<and>
     get_reg 0 (ls_rf (after_access (lsu_env0 0) (lsu_cfg 2) 0 4 0 s1)) = 4"
proof -
  have "access_ok (lsu_env0 0) 0 4" by (auto simp: access_ok_def lsu_env0_def prepare_ok_def intro!: exI [of _ "2 :: nat"])
  moreover have "addr_fits (lsu_cfg 2) (0 :: u32) 4" by (simp add: addr_fits_def lsu_cfg_def demo_cfg_def)
  ultimately have "mem_ready menv0 (lsu_cfg 2) 0 (pload_size P_LW) 0 (lsu0 2)"
    using lsu_demo_ok(2,5) lsu_demo_timed by (auto simp: mem_ready_def menv0_def)
  moreover have "in_regs (pinsn0 0) 0 = 0" "get_reg 0 (ls_rf (lsu0 2)) = 0" "out_regs (pinsn0 0) 0 \<noteq> 0" "4 = pload_size P_LW"
    by (simp_all add: pinsn0_def minsn0_def get_reg_def lsu0_def)
  ultimately have "\<exists>s1. pulp_load False P_POST P_LW menv0 (pinsn0 0) 0 0x100 (lsu0 2) = (s1, 0x100 + of_nat (insn_size (pinsn0 0))) \<and>
      get_reg 0 (ls_rf (after_access (me_lsu menv0) (lsu_cfg 2) 0 4 0 s1)) = sim (pinsn0 0) 0"
    by (rule postinc_writes_x0)
  moreover have "insn_size (pinsn0 0) = 4" "sim (pinsn0 0) 0 = 4" "me_lsu menv0 = lsu_env0 0" by (simp_all add: pinsn0_def minsn0_def menv0_def)
  ultimately show ?thesis by simp
qed

section \<open>Loops set up by an instruction\<close>

text \<open>
  The instruction that sets up a hardware loop with a count from a register makes the instructions from the next one up to its target run that many times: after \<open>k\<close> passes of the target the next pass
  continues behind the set-up instruction while iterations remain, and in program order after the last.
\<close>

theorem lp_setup_iterates:
  assumes "hwloop_inv nb h" "i = unat (uim insn 0)" "i < nb" "n = unat (reg_get insn 0 c)" "lp_setup_exec insn pc (c, h) = ((c1, h1), next_pc)"
    and "stop = pc + push_bit 1 (uim insn 1)" "k = length (filter (\<lambda>p. fst p = stop) ps)" "k < n"
    and "inj_on (hl_end h) ({..<nb} - {i})" "stop \<notin> hl_end h ` ({..<nb} - {i})"
  shows "snd (hwloop_check nb stop q (visits nb ps h1)) = (if k + 1 < n then pc + of_nat (insn_size insn) else q)"
proof -
  let ?h = "set_end i stop (set_start i (pc + of_nat (insn_size insn)) h)"
  have g: "reg_get insn 0 (on_rf (memcheck_branch_reg (in_regs insn 0)) c) = reg_get insn 0 c"
    by (simp add: reg_get_def get_reg_def on_rf_def)
  have h1: "h1 = set_count i (reg_get insn 0 c) ?h"
    using assms(2,5,6) g by (simp add: lp_setup_exec_def lp_target_def Let_def)
  have "hwloop_inv nb ?h" using assms(1) by (simp add: hwloop_inv_def set_end_def set_start_def)
  then have inv: "hwloop_inv nb h1" unfolding h1 by (rule set_count_inv) (fact assms(3))
  have f: "hl_end h1 = (hl_end h)(i := stop)" "hl_start h1 i = pc + of_nat (insn_size insn)" "unat (hl_count h1 i) = n"
    using assms(4) by (simp_all add: h1 set_count_def set_end_def set_start_def Let_def)
  have "inj_on (hl_end h1) {..<nb}"
  proof (rule inj_onI)
    fix x y assume "x \<in> {..<nb}" "y \<in> {..<nb}" "hl_end h1 x = hl_end h1 y"
    then show "x = y" using assms(9,10) unfolding f by (cases "x = i"; cases "y = i") (auto dest: inj_onD)
  qed
  then show ?thesis using hwloop_iterates [OF inv assms(3), of k ps q] assms(7,8) f by simp
qed

end
