(* ===== verification/Spec2Isabelle.thy ===== *)
theory Spec2Isabelle
  imports Memory_Atomics Remapper_V2 Demux_V2 Fifo_V2 Splitter_V2_Props Plic_Props Clint Scoreboard_V2 Isa_Rv64 Decode_V2 Trap_V2 Mmu_Props Core_V2 Isa_Amo Router_V2_Props Fetch_Memory Fetch_Errors Isa_Pulp_Memcheck Isa_Pulp_Mem_Props
begin

text \<open>
  A verification library for the core models of GVSoC, a simulator of RISC-V systems: the
  instruction-set simulator, the interrupt controllers, the interconnect and the memory, all C++
  under \<^verbatim>\<open>src/models\<close>.

  \<^bold>\<open>The program.\<close> A simulated system is a graph of components. Components exchange
  \<^emph>\<open>requests\<close> through ports (the io\_v2 protocol): a master submits a request, the target answers
  at once (done), later (granted, then a response), or not at all (denied, then a retry). A
  request flows from a core through routers, splitters, FIFOs and remappers to a memory or
  a device. The core is an instruction-set simulator: the decoder turns an opcode into a record with a handler, register
  indices and immediates; the execution loop calls the handler, which reads and writes the register
  file (with its scoreboard and its memcheck shadow); interrupts and exceptions change the mode; the
  memory-management unit translates addresses. Interrupts arrive on wires from the interrupt controllers.
  The engine (\<^verbatim>\<open>vp::\<close> classes: ports, clocks, events, traces) is not part of the
  repository; where a component calls it, the call is an argument of the model or a field of its state.

  \<^bold>\<open>Theories and the code they model.\<close>
  \<^item> \<open>Prelude\<close>: machine integers, host memory, little-endian encoding, and the lemmas on them.
  \<^item> \<open>IO_V2\<close>: the data of a request and its statuses; the locale \<open>io_target\<close> is the contract a
    master relies on. \<open>Memory_V3_Props\<close> shows that the memory meets it, \<open>Remapper_V2\<close> that a remapper in front of
    the memory does, \<open>Demux_V2\<close> (locale \<open>io_targets\<close>) that the banks behind a demultiplexer do.
  \<^item> \<open>Memory_V3\<close>, \<open>Memory_V3_Props\<close>, \<open>Memory_Atomics\<close>: \<^verbatim>\<open>memory/memory_v3.cpp\<close>. The record \<open>memory\<close> is the class, \<open>mem_req\<close> the
    request handler with strobes, atomics, LR/SC reservations, power gating, statistics and the memcheck
    shadow. Shown: no access outside the backing store, what a write and a read transfer, the
    AMOs at their own width, exclusiveness of store-conditionals, the address wrap-around of the bounds check.
  \<^item> \<open>Remapper_V2\<close>, \<open>Demux_V2\<close>, \<open>Fifo_V2\<close>, \<open>Splitter_V2\<close>, \<open>Splitter_V2_Props\<close>: \<^verbatim>\<open>interco/*_v2.cpp\<close>. Shown: the debug backdoor routes as the timed path
    does; for the FIFO and the splitter, over all interleavings of requests, responses and
    retries (inductive step relations), that order is kept, every byte is accounted for, nothing is lost and nothing gets stuck.
  \<^item> \<open>Plic\<close>, \<open>Plic_Props\<close>, \<open>Clint\<close>: \<^verbatim>\<open>cpu/plic.cpp\<close> and \<^verbatim>\<open>cpu/clint.cpp\<close>. Shown: arbitration, claim and complete, the wires are true,
    the timer fires; and where documented registers do not behave as described.
  \<^item> \<open>Regfile_V2\<close>, \<open>Scoreboard_V2\<close>: \<^verbatim>\<open>cpu/iss_v2/include/regfile.hpp\<close> with its implementation files; the scoreboard refines a board
    indexed by register.
  \<^item> \<open>Isa_Rv32i\<close>, \<open>Isa_Rv32m\<close>, \<open>Isa_Rv32c\<close>, \<open>Isa_Rv64\<close>: the handlers of \<^verbatim>\<open>cpu/iss/include/isa\<close>, one definition per handler. \<open>Isa_Memcheck\<close>
    (locale \<open>checked_isa\<close>) shows that the memcheck shadow is sound: a run without a fault does not
    depend on uninitialised bits.
  \<^item> \<open>Decode_V2\<close>: \<^verbatim>\<open>cpu/iss_v2/src/decode.cpp\<close>. The decoding tree is an argument (it is generated). Shown: the
    bits of immediates, and that decoded programs keep register 0.
  \<^item> \<open>Trap_V2\<close>: \<^verbatim>\<open>cpu/iss_v2/src/core.cpp\<close>, \<^verbatim>\<open>irq/irq_riscv.cpp\<close> and \<^verbatim>\<open>exception.cpp\<close>. Shown: which interrupt is taken and what
    the handler finds, and that returns undo traps; where interrupts of supervisor mode
    damage the machine-mode state.
  \<^item> \<open>Mmu\<close>, \<open>Mmu_Props\<close>: \<^verbatim>\<open>cpu/iss/src/mmu.cpp\<close>. The walk refines the Sv39 look-up of the manual and the look-aside buffer is
    never stale as long as machine mode makes no access, and every walk ends after at most as many reads of the page table as there are levels; where superpages and changes of mode go wrong.
  \<^item> \<open>Hwloop_V2\<close>, \<open>Exec_V2\<close>, \<open>Exec_V2_Props\<close>: \<^verbatim>\<open>cpu/iss_v2/src/hwloop/hwloop.cpp\<close> and \<^verbatim>\<open>exec/exec_inorder.cpp\<close>. Shown: loops iterate as often as their
    counters say, a stalled instruction is tried again, and instructions are committed in the order of dispatch, whatever the order in which held ones end.
  \<^item> \<open>Core_V2\<close>: the execution loop over decoder, handlers, register file and hardware loops refines the instruction-set semantics.
  \<^item> \<open>Lsu_V2\<close>, \<open>Lsu_V2_Props\<close>, \<open>Lsu_Memory\<close>: \<^verbatim>\<open>cpu/iss_v2/src/lsu_v2.cpp\<close>. The locale \<open>byte_port\<close> is what the unit relies on; the memory interprets it. Shown: loads and
    stores, whole or split in two beats, transfer the bytes of the memory; what goes wrong with a memory without latency.
  \<^item> \<open>Isa_Mem\<close>, \<open>Isa_Mem_Props\<close>, \<open>Isa_Amo\<close>: the handlers that access memory (\<^verbatim>\<open>rv32i.hpp\<close>, \<^verbatim>\<open>rv64i.hpp\<close>, \<^verbatim>\<open>rv32c.hpp\<close>, \<^verbatim>\<open>rv64c.hpp\<close>, \<^verbatim>\<open>rv32a.hpp\<close>, \<^verbatim>\<open>rv64a.hpp\<close>). Shown: every load, store
    and atomic operation has the effect of the manual on the bytes of the memory, from the handler to the memory array and back.
  \<^item> \<open>Router_V2\<close>, \<open>Router_V2_Props\<close>: \<^verbatim>\<open>interco/router/router_v2_bandwidth.cpp\<close>, \<^verbatim>\<open>router_v2_untimed.cpp\<close> and \<^verbatim>\<open>router_v2_debug.hpp\<close>. Shown, over all interleavings:
    responses find their way back, no request is lost, retries empty the queues and ports keep their bandwidth; where routers in series misroute responses and requests are reordered.
  \<^item> \<open>Cache_V4\<close>, \<open>Cache_V4_Props\<close>, \<open>Cache_Memory\<close>: \<^verbatim>\<open>cache/cache_v4.cpp\<close>. The locale \<open>refill_target\<close> is what the cache relies on; the memory interprets it. Shown: reads through the
    cache return the bytes of the memory in every interleaving, and no queued request is left behind; where errors of refills are lost and lines are corrupted.
  \<^item> \<open>Prefetch_V2\<close>, \<open>Prefetch_V2_Props\<close>, \<open>Prefetch_Fetch\<close>, \<open>Fetch_Memory\<close>, \<open>Fetch_Errors\<close>: \<^verbatim>\<open>cpu/iss_v2/src/prefetch/prefetch_single_line.cpp\<close> and \<^verbatim>\<open>insn_cache.cpp\<close>. The locale
    \<open>fetch_target\<close>, and \<open>sync_fetch_target\<close> for memories that answer at once, are what the fetch stage relies on; the memory interprets them. Shown: opcodes are those of the memory, in one
    line or two, at once or later, and stalled fetches end; where flushes, faults and 64-bit addresses lead to wrong opcodes.
  \<^item> \<open>Isa_Pulp_Lib\<close>, \<open>Isa_Pulp\<close>: the PULP functions of \<^verbatim>\<open>cpu/iss/include/isa_lib/int.h\<close> and the register instructions of \<^verbatim>\<open>cpu/iss/include/isa/pulp_v2.hpp\<close>. \<open>Isa_Pulp_Props\<close>, \<open>Isa_Pulp_Bits\<close>,
    \<open>Isa_Pulp_Fields\<close>: the instructions on vectors work on each element alone, the bit-counting functions are the counts they name, bit fields that are inserted are read back, clipping, rounding and dot
    products compute what they say on the integers. \<open>Isa_Pulp_Memcheck\<close>: which of the instructions keep the shadow of uninitialized registers, and which lose it.
  \<^item> \<open>Isa_Pulp_Mem\<close>, \<open>Isa_Pulp_Mem_Props\<close>: the loads and stores with post-increment and register offset and the hardware-loop instructions of \<^verbatim>\<open>pulp_v2.hpp\<close>, over the load-store unit, the memory and \<open>Hwloop_V2\<close>.
    Shown: address, data and increment of each of them; where the increment writes register 0.

  \<^bold>\<open>Conventions.\<close> Integers have the width of the code; the register width is a type
  parameter where the code is compiled for 32 and 64 bits. \<open>None\<close> is undefined behaviour or a
  fatal error of the model, \<open>option\<close> and tuples carry the early returns. Effects on the engine (events
  enqueued, wires driven, accounts to the timing object) are fields of the state or logs in the order of the calls.

  \<^bold>\<open>Bounds.\<close> Loops over arrays are structural recursion and total. The page-table
  walk has a step bound of \<open>3\<close>, the number of Sv39 levels, which the refinement theorem of \<open>Mmu_Props\<close> shows to be enough: no walk
  asks for a fourth read. The decoding tree is finite, so decoding is structural. The other models have no fuel.

  \<^bold>\<open>Not modelled.\<close> The floating-point and vector instruction-set extensions; the later PULP extensions (pulp_nn, corev, rvXgap8, rvXgap9, Xfvec); the first-generation caches; the first-generation
  interconnect and memory models; devices, testbench, debug server, dumpers and
  Python generators, which are input and output or configuration; vendored code (softfloat,
  flexfloat, the waveform writer and its compression). Constructors, traces and statistics for the
  graphical interface are left out of the modelled classes.
\<close>

end
